(* ===== verification/Prelude.thy ===== *)
theory Prelude
  imports Complex_Main "HOL-Library.AList"
begin

text \<open>
  Shared base of the development: the types that stand for Python's values, the
  dictionary operations, ASCII string helpers, the theorem collections, and the
  interface locales for keyed stores (Python dicts and SQL tables with a primary key).

  Conventions. A Python \<open>str\<close> is a \<^typ>\<open>string\<close>. A Python \<open>float\<close> (clock readings,
  rates, token amounts) is a rational number: rounding is not modelled. A Python
  \<open>int\<close> is an \<^typ>\<open>int\<close>. A Python \<open>dict\<close> is an association list with distinct
  keys in insertion order, because several routines depend on the order in which a
  dict is iterated. The clock, \<open>uuid\<close> and the environment are arguments of the
  operations that read them. Logging is left out.
\<close>

section \<open>Types\<close>

type_synonym pyfloat = rat
type_synonym str = string
type_synonym ('k, 'v) dict = "('k \<times> 'v) list"

text \<open>The exceptions that the modelled routines can raise.\<close>

datatype py_exn =
    KeyError | IndexError | TypeError | ValueError | AttributeError | RuntimeError | NameError

named_theorems dict_simps \<open>lookup, update and deletion on dictionaries and tables\<close>
named_theorems op_defs \<open>definitions of operations that proofs unfold together\<close>

section \<open>Dictionaries\<close>

text \<open>
  \<open>d.get(k)\<close> is \<^term>\<open>map_of d k\<close>; \<open>d[k] = v\<close> replaces the value in place or
  appends the key at the end, which is \<^const>\<open>AList.update\<close>; \<open>d.pop(k, None)\<close> is
  \<^const>\<open>AList.delete\<close>.
\<close>

definition dict_ok :: "('k, 'v) dict \<Rightarrow> bool" where
  "dict_ok d \<longleftrightarrow> distinct (map fst d)"

definition dict_get :: "('k, 'v) dict \<Rightarrow> 'k \<Rightarrow> 'v \<Rightarrow> 'v" where
  "dict_get d k v = (case map_of d k of None \<Rightarrow> v | Some w \<Rightarrow> w)"

lemma dict_ok_Nil [simp]: "dict_ok []"
  by (simp add: dict_ok_def)

lemma dict_ok_update [simp]: "dict_ok d \<Longrightarrow> dict_ok (AList.update k v d)"
  by (simp add: dict_ok_def distinct_update)

lemma dict_ok_delete [simp]: "dict_ok d \<Longrightarrow> dict_ok (AList.delete k d)"
  by (simp add: dict_ok_def distinct_delete)

lemma update_fresh: "k \<notin> fst ` set d \<Longrightarrow> AList.update k v d = d @ [(k, v)]"
  by (induction d) auto

lemma map_of_update [simp, dict_simps]:
  "map_of (AList.update k v d) = (map_of d)(k \<mapsto> v)"
  by (rule update_conv')

lemma map_of_delete [simp, dict_simps]:
  "map_of (AList.delete k d) = (map_of d)(k := None)"
  by (rule delete_conv')

lemma dict_get_update [dict_simps]:
  "dict_get (AList.update k v d) j w = (if j = k then v else dict_get d j w)"
  by (simp add: dict_get_def)

lemma dict_ok_filter: "dict_ok d \<Longrightarrow> dict_ok (filter P d)"
  by (induction d) (auto simp: dict_ok_def)

lemma dict_mem_iff: "dict_ok d \<Longrightarrow> (k, v) \<in> set d \<longleftrightarrow> map_of d k = Some v"
  by (simp add: dict_ok_def map_of_eq_Some_iff)

text \<open>A dict comprehension that keeps the entries satisfying a condition.\<close>

lemma map_of_filter_dict:
  assumes "dict_ok d"
  shows "map_of (filter P d) k =
    (case map_of d k of None \<Rightarrow> None | Some v \<Rightarrow> if P (k, v) then Some v else None)"
  using assms
proof (induction d)
  case Nil
  then show ?case by simp
next
  case (Cons p d)
  then have "map_of d (fst p) = None"
    by (auto simp: dict_ok_def map_of_eq_None_iff)
  moreover have "dict_ok d" using Cons.prems by (simp add: dict_ok_def)
  ultimately show ?case using Cons.IH by (cases p) (auto split: option.splits)
qed

text \<open>Deleting a list of keys one after the other.\<close>

lemma fold_delete: "fold AList.delete ks d = filter (\<lambda>p. fst p \<notin> set ks) d"
proof (induction ks arbitrary: d)
  case Nil
  then show ?case by simp
next
  case (Cons k ks)
  have "fold AList.delete (k # ks) d = filter (\<lambda>p. fst p \<notin> set ks) (filter (\<lambda>p. k \<noteq> fst p) d)"
    by (simp only: fold.simps comp_apply Cons.IH AList.delete_eq case_prod_unfold)
  then show ?case by (simp add: filter_filter) (metis (mono_tags, lifting))
qed

text \<open>How many values of a dictionary satisfy a condition, and what a write does to that number.\<close>

definition count_vals :: "('v \<Rightarrow> bool) \<Rightarrow> ('k, 'v) dict \<Rightarrow> nat" where
  "count_vals P d = length (filter P (map snd d))"

lemma count_vals_simps [simp]:
  "count_vals P [] = 0"
  "count_vals P ((k, v) # d) = (if P v then Suc (count_vals P d) else count_vals P d)"
  by (simp_all add: count_vals_def)

lemma count_vals_update:
  "dict_ok d \<Longrightarrow> count_vals P (AList.update k v d)
      + (case map_of d k of None \<Rightarrow> 0 | Some w \<Rightarrow> if P w then 1 else 0)
    = count_vals P d + (if P v then 1 else 0)"
proof (induction d)
  case Nil
  then show ?case by simp
next
  case (Cons p d)
  obtain j w where p: "p = (j, w)" by (cases p)
  have "dict_ok d" using Cons.prems by (simp add: dict_ok_def)
  from Cons.IH [OF this] p show ?case by (auto split: option.splits if_splits)
qed

lemma in_vals_iff: "dict_ok d \<Longrightarrow> v \<in> snd ` set d \<longleftrightarrow> (\<exists>k. map_of d k = Some v)"
  by (force simp: dict_mem_iff [symmetric])

section \<open>ASCII strings\<close>

text \<open>
  \<open>str.lower()\<close> and \<open>str.strip()\<close>, on ASCII: other characters are left alone by
  \<open>py_lower\<close> and are not whitespace.
\<close>

definition lower_char :: "char \<Rightarrow> char" where
  "lower_char c = (if 65 \<le> (of_char c :: nat) \<and> (of_char c :: nat) \<le> 90
     then char_of ((of_char c :: nat) + 32) else c)"

definition py_lower :: "str \<Rightarrow> str" where
  "py_lower s = map lower_char s"

definition is_space :: "char \<Rightarrow> bool" where
  "is_space c \<longleftrightarrow> (of_char c :: nat) \<in> {9, 10, 11, 12, 13, 28, 29, 30, 31, 32}"

definition is_word :: "char \<Rightarrow> bool" where
  "is_word c \<longleftrightarrow> (let n = (of_char c :: nat) in
     48 \<le> n \<and> n \<le> 57 \<or> 65 \<le> n \<and> n \<le> 90 \<or> n = 95 \<or> 97 \<le> n \<and> n \<le> 122)"

definition py_strip :: "str \<Rightarrow> str" where
  "py_strip s = rev (dropWhile is_space (rev (dropWhile is_space s)))"

definition starts_with :: "str \<Rightarrow> str \<Rightarrow> bool" where
  "starts_with s p \<longleftrightarrow> take (length p) s = p"

fun py_contains :: "str \<Rightarrow> str \<Rightarrow> bool" where
  "py_contains p [] = (p = [])"
| "py_contains p (c # s) = (starts_with (c # s) p \<or> py_contains p s)"

text \<open>\<open>str.split()\<close> without an argument: the maximal runs of non-space characters.\<close>

function py_split :: "str \<Rightarrow> str list" where
  "py_split s =
     (case dropWhile is_space s of
        [] \<Rightarrow> []
      | c # r \<Rightarrow> (c # takeWhile (\<lambda>x. \<not> is_space x) r)
                 # py_split (dropWhile (\<lambda>x. \<not> is_space x) r))"
  by pat_completeness auto
termination
proof (relation "measure length", goal_cases)
  case 1
  then show ?case by simp
next
  case (2 s c r)
  have "length (c # r) \<le> length s"
    by (metis 2 length_dropWhile_le)
  then show ?case
    using length_dropWhile_le[of "\<lambda>x. \<not> is_space x" r] by simp
qed

declare py_split.simps [simp del]

text \<open>\<open>s.split(c)\<close>, and \<open>s.split(c, 1)\<close> for a \<open>c\<close> that occurs in \<open>s\<close>.\<close>

fun split_on :: "char \<Rightarrow> str \<Rightarrow> str list" where
  "split_on c [] = [[]]"
| "split_on c (x # xs) =
     (if x = c then [] # split_on c xs
      else case split_on c xs of [] \<Rightarrow> [[x]] | w # ws \<Rightarrow> (x # w) # ws)"

definition split_first :: "char \<Rightarrow> str \<Rightarrow> str \<times> str" where
  "split_first c s = (takeWhile (\<lambda>x. x \<noteq> c) s, drop 1 (dropWhile (\<lambda>x. x \<noteq> c) s))"

text \<open>
  \<open>int(s)\<close> on a string without spaces: an optional sign and digits, with single
  underscores allowed between digits. None stands for ValueError.
\<close>

fun digits_val :: "bool \<Rightarrow> nat \<Rightarrow> str \<Rightarrow> nat option" where
  "digits_val ok acc [] = (if ok then Some acc else None)"
| "digits_val ok acc (c # cs) =
     (let n = (of_char c :: nat) in
      if 48 \<le> n \<and> n \<le> 57 then digits_val True (10 * acc + (n - 48)) cs
      else if c = CHR ''_'' \<and> ok then digits_val False acc cs else None)"

definition py_int :: "str \<Rightarrow> int option" where
  "py_int s = (case s of
     [] \<Rightarrow> None
   | c # r \<Rightarrow> if c = CHR ''-'' then map_option (\<lambda>n. - int n) (digits_val False 0 r)
              else if c = CHR ''+'' then map_option int (digits_val False 0 r)
              else map_option int (digits_val False 0 s))"

text \<open>Decimal numerals: \<open>str(n)\<close>.\<close>

fun str_of_nat :: "nat \<Rightarrow> str" where
  "str_of_nat n = (if n < 10 then [char_of (48 + n)]
     else str_of_nat (n div 10) @ [char_of (48 + n mod 10)])"

declare str_of_nat.simps [simp del]

definition str_of_int :: "int \<Rightarrow> str" where
  "str_of_int i = (if i < 0 then ''-'' @ str_of_nat (nat (- i)) else str_of_nat (nat i))"

text \<open>\<open>int(q)\<close> on a float cuts off the fraction.\<close>

definition trunc :: "pyfloat \<Rightarrow> int" where
  "trunc q = (if q < 0 then \<lceil>q\<rceil> else \<lfloor>q\<rfloor>)"

text \<open>\<open>sep.join(xs)\<close>.\<close>

fun py_join :: "str \<Rightarrow> str list \<Rightarrow> str" where
  "py_join sep [] = ''''"
| "py_join sep [x] = x"
| "py_join sep (x # y # xs) = x @ sep @ py_join sep (y # xs)"

section \<open>Interfaces of keyed stores\<close>

text \<open>
  What the components rely on when they keep records under a key, whether in a Python
  dict or in an SQL table with a primary key: a lookup after a write or a deletion, and
  the invariant (keys are unique) that every operation keeps. A table may have further
  constraints, such as a unique index, that a write can violate: \<open>fits s k v\<close> says that
  the row \<open>v\<close> violates none when it is written under \<open>k\<close>.
\<close>

locale keyed_store =
  fixes look :: "'s \<Rightarrow> 'k \<Rightarrow> 'v option"
    and put :: "'k \<Rightarrow> 'v \<Rightarrow> 's \<Rightarrow> 's"
    and del :: "'k \<Rightarrow> 's \<Rightarrow> 's"
    and ok :: "'s \<Rightarrow> bool"
    and fits :: "'s \<Rightarrow> 'k \<Rightarrow> 'v \<Rightarrow> bool"
  assumes look_put: "ok s \<Longrightarrow> fits s k v \<Longrightarrow> look (put k v s) = (look s)(k \<mapsto> v)"
    and look_del: "ok s \<Longrightarrow> look (del k s) = (look s)(k := None)"
    and ok_put: "ok s \<Longrightarrow> fits s k v \<Longrightarrow> ok (put k v s)"
    and ok_del: "ok s \<Longrightarrow> ok (del k s)"
begin

lemma read_your_write: "ok s \<Longrightarrow> fits s k v \<Longrightarrow> look (put k v s) k = Some v"
  by (simp add: look_put)

lemma put_frame: "ok s \<Longrightarrow> fits s k v \<Longrightarrow> j \<noteq> k \<Longrightarrow> look (put k v s) j = look s j"
  by (simp add: look_put)

lemma put_put:
  "ok s \<Longrightarrow> fits s k v \<Longrightarrow> fits s k w \<Longrightarrow> fits (put k v s) k w \<Longrightarrow>
    look (put k w (put k v s)) = look (put k w s)"
  by (simp add: look_put ok_put)

lemma del_gone: "ok s \<Longrightarrow> look (del k s) k = None"
  by (simp add: look_del)

lemma del_put:
  "ok s \<Longrightarrow> fits s k v \<Longrightarrow> look s k = None \<Longrightarrow> look (del k (put k v s)) = look s"
  by (simp add: look_put look_del ok_put fun_upd_idem)

lemma del_all:
  "ok s \<Longrightarrow> ok (fold del ks s) \<and> look (fold del ks s) = (\<lambda>j. if j \<in> set ks then None else look s j)"
proof (induction ks arbitrary: s)
  case Nil
  then show ?case by simp
next
  case (Cons k ks)
  from Cons.IH [OF ok_del [OF Cons.prems, of k]] show ?case
    by (auto simp: look_del Cons.prems)
qed

end

text \<open>
  A write-through cache in front of a keyed store: the cache may hold a part of the
  store, and what it holds agrees with the store up to the normal form \<open>norm\<close> that
  reading a row applies. This is the contract of a component that keeps records both in a
  dict and in a table.
\<close>

locale cached_store = keyed_store look put del ok fits
  for look :: "'s \<Rightarrow> 'k \<Rightarrow> 'v option" and put del ok fits +
  fixes norm :: "'v \<Rightarrow> 'v"
    and coherent :: "('k, 'v) dict \<Rightarrow> 's \<Rightarrow> bool"
  assumes coherent_iff:
    "coherent c s \<longleftrightarrow>
      (\<forall>k v. map_of c k = Some v \<longrightarrow> map_option norm (look s k) = Some (norm v))"
begin

lemma coherent_empty: "coherent [] s"
  by (simp add: coherent_iff)

lemma coherent_lookD:
  "coherent c s \<Longrightarrow> map_of c k = Some v \<Longrightarrow> \<exists>r. look s k = Some r \<and> norm r = norm v"
  by (auto simp: coherent_iff)

lemma coherent_fill:
  "coherent c s \<Longrightarrow> look s k = Some r \<Longrightarrow> norm v = norm r \<Longrightarrow> coherent (AList.update k v c) s"
  by (simp add: coherent_iff)

lemma coherent_write:
  "ok s \<Longrightarrow> fits s k r \<Longrightarrow> norm v = norm r \<Longrightarrow> coherent c s \<Longrightarrow>
    coherent (AList.update k v c) (put k r s)"
  by (simp add: coherent_iff look_put)

lemma coherent_evict: "coherent c s \<Longrightarrow> coherent (AList.delete k c) s"
  by (simp add: coherent_iff)

lemma coherent_remove:
  "ok s \<Longrightarrow> coherent c s \<Longrightarrow> coherent (AList.delete k c) (del k s)"
  by (simp add: coherent_iff look_del)

text \<open>Writes that bypass the cache are safe once the keys they touch are evicted.\<close>

lemma coherent_bypass:
  "coherent c s \<Longrightarrow> (\<And>j. j \<notin> set ks \<Longrightarrow> look s' j = look s j) \<Longrightarrow>
    coherent (fold AList.delete ks c) s'"
proof -
  assume c: "coherent c s" and f: "\<And>j. j \<notin> set ks \<Longrightarrow> look s' j = look s j"
  have "map_of (fold AList.delete ks c) = (\<lambda>j. if j \<in> set ks then None else map_of c j)"
    by (induction ks arbitrary: c) auto
  then show ?thesis using c f by (simp add: coherent_iff)
qed

end

interpretation pydict: keyed_store
  "map_of :: ('k, 'v) dict \<Rightarrow> 'k \<Rightarrow> 'v option" AList.update AList.delete dict_ok "\<lambda>_ _ _. True"
  by unfold_locales simp_all

section \<open>Routines that may raise\<close>

text \<open>
  A routine that may raise returns \<open>py_exn + 'a\<close>: \<open>Inl\<close> the exception, \<open>Inr\<close> the
  value. \<open>bindE\<close> runs the next statement unless the first one raised, \<open>mapE\<close> is a
  loop that collects one result per element, \<open>concatE\<close> one that extends a list.
\<close>

fun bindE :: "'e + 'a \<Rightarrow> ('a \<Rightarrow> 'e + 'b) \<Rightarrow> 'e + 'b" where
  "bindE (Inl e) f = Inl e"
| "bindE (Inr x) f = f x"

fun mapE :: "('a \<Rightarrow> 'e + 'b) \<Rightarrow> 'a list \<Rightarrow> 'e + 'b list" where
  "mapE f [] = Inr []"
| "mapE f (x # xs) = bindE (f x) (\<lambda>y. bindE (mapE f xs) (\<lambda>ys. Inr (y # ys)))"

definition concatE :: "('a \<Rightarrow> 'e + 'b list) \<Rightarrow> 'a list \<Rightarrow> 'e + 'b list" where
  "concatE f xs = bindE (mapE f xs) (\<lambda>yss. Inr (concat yss))"

lemma bindE_Inr_iff: "bindE m f = Inr y \<longleftrightarrow> (\<exists>x. m = Inr x \<and> f x = Inr y)"
  by (cases m) simp_all

lemma mapE_Inr: "(\<And>x. x \<in> set xs \<Longrightarrow> f x = Inr (g x)) \<Longrightarrow> mapE f xs = Inr (map g xs)"
  by (induction xs) simp_all

lemma concatE_Inr_Nil_iff: "concatE f xs = Inr [] \<longleftrightarrow> (\<forall>x \<in> set xs. f x = Inr [])"
proof -
  have "bindE (mapE f xs) (\<lambda>yss. Inr (concat yss)) = Inr [] \<longleftrightarrow> (\<forall>x \<in> set xs. f x = Inr [])"
    by (induction xs) (auto simp: bindE_Inr_iff)
  then show ?thesis by (simp add: concatE_def)
qed

section \<open>Lists\<close>

text \<open>The first element, as Python's \<open>xs[0] if xs else None\<close>.\<close>

definition first_opt :: "'a list \<Rightarrow> 'a option" where
  "first_opt xs = (case xs of [] \<Rightarrow> None | x # _ \<Rightarrow> Some x)"

lemma first_opt_simps [simp]: "first_opt [] = None" "first_opt (x # xs) = Some x"
  by (simp_all add: first_opt_def)

lemma first_opt_None [simp]: "first_opt xs = None \<longleftrightarrow> xs = []"
  by (cases xs) simp_all

lemma first_opt_in: "first_opt xs = Some x \<Longrightarrow> x \<in> set xs"
  by (cases xs) simp_all

lemma first_opt_filter_SomeD:
  "first_opt (filter P xs) = Some x \<Longrightarrow> P x \<and> x \<in> set xs"
  by (auto dest!: first_opt_in)

lemma first_opt_filter_find: "first_opt (filter P xs) = List.find P xs"
  by (induction xs) auto

text \<open>The first element in a list sorted by a key has the least key.\<close>

lemma hd_sort_key_min: "x \<in> set xs \<Longrightarrow> f (hd (sort_key f xs)) \<le> f x"
  for f :: "'a \<Rightarrow> 'k :: linorder"
proof -
  assume x: "x \<in> set xs"
  then obtain y ys where eq: "sort_key f xs = y # ys"
    by (cases "sort_key f xs") (auto dest: arg_cong [where f = set])
  have "sorted (map f (y # ys))" by (metis eq sorted_sort_key)
  moreover have "x \<in> set (y # ys)" using x by (metis eq set_sort)
  ultimately show ?thesis by (auto simp: eq)
qed

lemma hd_sort_key_in: "xs \<noteq> [] \<Longrightarrow> hd (sort_key f xs) \<in> set xs"
proof -
  assume "xs \<noteq> []"
  then have "sort_key f xs \<noteq> []" by (metis set_empty set_sort)
  then show ?thesis by (metis hd_in_set set_sort)
qed

lemma fold_max_ge: "x \<le> fold max ps x \<and> (\<forall>p \<in> set ps. p \<le> fold max ps x)"
  for x :: "'a :: linorder"
proof (induction ps arbitrary: x)
  case Nil
  then show ?case by simp
next
  case (Cons p ps)
  from Cons.IH [of "max p x"] show ?case by auto
qed

end
