(* ===== verification/Json.thy ===== *)
theory Json
  imports Prelude "HOL-Library.Monad_Syntax"
begin

text \<open>
  JSON documents as Python sees them after \<open>json.loads\<close>, with the operations the
  modelled code applies to them: truth value, \<open>isinstance\<close>, \<open>dict.get\<close>. Objects are
  dictionaries in insertion order.
\<close>

section \<open>Values\<close>

datatype json =
    JNull
  | JBool bool
  | JInt int
  | JFloat pyfloat
  | JStr str
  | JList "json list"
  | JObj "(str \<times> json) list"

type_synonym jobj = "(str, json) dict"

text \<open>\<open>bool(v)\<close>: the falsy values are None, False, 0, 0.0 and the empty containers.\<close>

fun truthy :: "json \<Rightarrow> bool" where
  "truthy JNull = False"
| "truthy (JBool b) = b"
| "truthy (JInt i) = (i \<noteq> 0)"
| "truthy (JFloat q) = (q \<noteq> 0)"
| "truthy (JStr s) = (s \<noteq> [])"
| "truthy (JList xs) = (xs \<noteq> [])"
| "truthy (JObj d) = (d \<noteq> [])"

text \<open>\<open>isinstance(v, str)\<close>, \<open>isinstance(v, dict)\<close> and so on.\<close>

fun as_str :: "json \<Rightarrow> str option" where
  "as_str (JStr s) = Some s"
| "as_str _ = None"

fun as_obj :: "json \<Rightarrow> jobj option" where
  "as_obj (JObj d) = Some d"
| "as_obj _ = None"

text \<open>Lists and dicts are unhashable: a set membership test on one raises TypeError.\<close>

fun hashable :: "json \<Rightarrow> bool" where
  "hashable (JList _) = False"
| "hashable (JObj _) = False"
| "hashable _ = True"

text \<open>\<open>d.get(k, default)\<close> on an object.\<close>

definition jget :: "jobj \<Rightarrow> str \<Rightarrow> json \<Rightarrow> json" where
  "jget d k v = dict_get d k v"

lemma jget_simps [simp, dict_simps]:
  "jget [] k v = v"
  "jget ((j, w) # d) k v = (if j = k then w else jget d k v)"
  by (simp_all add: jget_def dict_get_def)

text \<open>\<open>{k: v for k, v in d.items() if v}\<close>.\<close>

definition drop_falsy :: "jobj \<Rightarrow> jobj" where
  "drop_falsy d = filter (\<lambda>(k, v). truthy v) d"

lemma map_of_drop_falsy [dict_simps]:
  "dict_ok d \<Longrightarrow> map_of (drop_falsy d) k =
    (case map_of d k of None \<Rightarrow> None | Some v \<Rightarrow> if truthy v then Some v else None)"
  by (simp add: drop_falsy_def map_of_filter_dict split: option.split)

section \<open>Typed fields\<close>

text \<open>
  \<open>data.get(key, default)\<close> for a dataclass field of a given type. A document whose
  field has another type gives None: Python would store the value as it is, and what a
  dataclass with ill-typed fields does is not modelled.
\<close>

fun as_int :: "json \<Rightarrow> int option" where
  "as_int (JInt i) = Some i"
| "as_int _ = None"

fun as_num :: "json \<Rightarrow> pyfloat option" where
  "as_num (JFloat q) = Some q"
| "as_num (JInt i) = Some (of_int i)"
| "as_num _ = None"

fun strs_of :: "json list \<Rightarrow> str list option" where
  "strs_of [] = Some []"
| "strs_of (JStr s # js) = map_option ((#) s) (strs_of js)"
| "strs_of _ = None"

fun as_strs :: "json \<Rightarrow> str list option" where
  "as_strs (JList js) = strs_of js"
| "as_strs _ = None"

fun objs_of :: "json list \<Rightarrow> jobj list option" where
  "objs_of [] = Some []"
| "objs_of (JObj d # js) = map_option ((#) d) (objs_of js)"
| "objs_of _ = None"

fun as_objs :: "json \<Rightarrow> jobj list option" where
  "as_objs (JList js) = objs_of js"
| "as_objs _ = None"

definition field :: "(json \<Rightarrow> 'a option) \<Rightarrow> jobj \<Rightarrow> str \<Rightarrow> 'a \<Rightarrow> 'a option" where
  "field conv d k v = (case map_of d k of None \<Rightarrow> Some v | Some j \<Rightarrow> conv j)"

lemma strs_of_map [simp]: "strs_of (map JStr xs) = Some xs"
  by (induction xs) simp_all

lemma objs_of_map [simp]: "objs_of (map JObj xs) = Some xs"
  by (induction xs) simp_all

lemma field_simps [simp]:
  "field conv [] k v = Some v"
  "field conv ((j, w) # d) k v = (if j = k then conv w else field conv d k v)"
  by (simp_all add: field_def)

end
