(* ===== verification/NodeConfig.thy ===== *)
theory NodeConfig
  imports Json
begin

text \<open>
  Node configurations of \<open>agent_runtime/graph.py\<close> (\<open>NodeConfig\<close>) and their
  serialisation: the dataclass, \<open>to_dict\<close>, \<open>from_dict\<close>, and what a configuration
  becomes when it is saved and loaded again.

  The fields hold JSON values: the dataclass does not check its annotations, and
  \<open>to_dict\<close> and \<open>from_dict\<close> treat the values uniformly. (\<open>model_router\<close> may also be
  a callable, which is not a value of the model.)
\<close>

section \<open>Node configurations\<close>

record node_config =
  nc_type :: json
  nc_label :: json
  nc_model :: json
  nc_system_prompt :: json
  nc_temperature :: json
  nc_max_tokens :: json
  nc_tool_name :: json
  nc_tool_params :: json
  nc_condition_expr :: json
  nc_max_iterations :: json
  nc_max_retries :: json
  nc_retry_delay :: json
  nc_retry_on_error :: json
  nc_allow_dynamic_tools :: json
  nc_disable_tools :: json
  nc_effort :: json
  nc_tool_choice :: json
  nc_parallel_tool_calls :: json
  nc_loop_mode :: json
  nc_max_loop_iterations :: json
  nc_stop_sequences :: json
  nc_x :: json
  nc_y :: json
  nc_parent :: json
  nc_model_router :: json
  nc_post_action_capture :: json
  nc_assertion :: json

definition node_fields :: "str list" where
  "node_fields = [''type'', ''label'', ''model'', ''system_prompt'', ''temperature'',
     ''max_tokens'', ''tool_name'', ''tool_params'', ''condition_expr'', ''max_iterations'',
     ''max_retries'', ''retry_delay'', ''retry_on_error'', ''allow_dynamic_tools'',
     ''disable_tools'', ''effort'', ''tool_choice'', ''parallel_tool_calls'', ''loop_mode'',
     ''max_loop_iterations'', ''stop_sequences'', ''x'', ''y'', ''parent'', ''model_router'',
     ''post_action_capture'', ''assertion'']"

text \<open>The generated \<open>__init__\<close>: keyword arguments over the declared defaults.\<close>

definition node_init :: "json \<Rightarrow> jobj \<Rightarrow> node_config" where
  "node_init ty kw = \<lparr>
     nc_type = ty,
     nc_label = jget kw ''label'' (JStr []),
     nc_model = jget kw ''model'' (JStr []),
     nc_system_prompt = jget kw ''system_prompt'' (JStr []),
     nc_temperature = jget kw ''temperature'' (JFloat (7 / 10)),
     nc_max_tokens = jget kw ''max_tokens'' (JInt 4096),
     nc_tool_name = jget kw ''tool_name'' (JStr []),
     nc_tool_params = jget kw ''tool_params'' (JObj []),
     nc_condition_expr = jget kw ''condition_expr'' (JStr []),
     nc_max_iterations = jget kw ''max_iterations'' (JInt 10),
     nc_max_retries = jget kw ''max_retries'' (JInt 3),
     nc_retry_delay = jget kw ''retry_delay'' (JFloat 1),
     nc_retry_on_error = jget kw ''retry_on_error'' (JBool False),
     nc_allow_dynamic_tools = jget kw ''allow_dynamic_tools'' (JBool False),
     nc_disable_tools = jget kw ''disable_tools'' (JBool False),
     nc_effort = jget kw ''effort'' (JStr []),
     nc_tool_choice = jget kw ''tool_choice'' (JStr []),
     nc_parallel_tool_calls = jget kw ''parallel_tool_calls'' (JBool False),
     nc_loop_mode = jget kw ''loop_mode'' (JStr []),
     nc_max_loop_iterations = jget kw ''max_loop_iterations'' (JInt 0),
     nc_stop_sequences = jget kw ''stop_sequences'' (JList []),
     nc_x = jget kw ''x'' (JFloat 0),
     nc_y = jget kw ''y'' (JFloat 0),
     nc_parent = jget kw ''parent'' (JStr []),
     nc_model_router = jget kw ''model_router'' (JStr []),
     nc_post_action_capture = jget kw ''post_action_capture'' (JBool False),
     nc_assertion = jget kw ''assertion'' (JObj [])\<rparr>"

definition node_new :: "jobj \<Rightarrow> py_exn + node_config" where
  "node_new kw = (case map_of kw ''type'' of
     None \<Rightarrow> Inl TypeError
   | Some ty \<Rightarrow> Inr (node_init ty kw))"

definition node_to_dict :: "node_config \<Rightarrow> jobj" where
  "node_to_dict c = drop_falsy
     [(''type'', nc_type c), (''label'', nc_label c), (''model'', nc_model c),
      (''system_prompt'', nc_system_prompt c), (''temperature'', nc_temperature c),
      (''max_tokens'', nc_max_tokens c), (''tool_name'', nc_tool_name c),
      (''tool_params'', nc_tool_params c), (''condition_expr'', nc_condition_expr c),
      (''max_iterations'', nc_max_iterations c), (''retry_on_error'', nc_retry_on_error c),
      (''allow_dynamic_tools'', nc_allow_dynamic_tools c),
      (''disable_tools'', nc_disable_tools c), (''effort'', nc_effort c),
      (''tool_choice'', nc_tool_choice c), (''parallel_tool_calls'', nc_parallel_tool_calls c),
      (''loop_mode'', nc_loop_mode c), (''max_loop_iterations'', nc_max_loop_iterations c),
      (''stop_sequences'', nc_stop_sequences c), (''x'', nc_x c), (''y'', nc_y c),
      (''parent'', nc_parent c), (''post_action_capture'', nc_post_action_capture c),
      (''assertion'', nc_assertion c)]"

text \<open>
  \<open>from_dict\<close>: the nested \<open>config\<close> object first, then \<open>position\<close> as a fallback for
  the coordinates, then the flat keys, which win; unknown keys are ignored.
\<close>

definition set_default :: "str \<Rightarrow> json \<Rightarrow> jobj \<Rightarrow> jobj" where
  "set_default k v d = (case map_of d k of None \<Rightarrow> AList.update k v d | Some _ \<Rightarrow> d)"

fun merge_known :: "jobj \<Rightarrow> jobj \<Rightarrow> jobj" where
  "merge_known [] m = m"
| "merge_known ((k, v) # d) m =
     merge_known d (if k \<in> set node_fields then AList.update k v m else m)"

definition node_from_dict :: "jobj \<Rightarrow> py_exn + node_config" where
  "node_from_dict data =
     (let m0 = (case as_obj (jget data ''config'' JNull) of
                  None \<Rightarrow> []
                | Some cfg \<Rightarrow> filter (\<lambda>(k, v). k \<in> set node_fields) cfg);
          m1 = (case as_obj (jget data ''position'' JNull) of
                  None \<Rightarrow> m0
                | Some pos \<Rightarrow> set_default ''y'' (jget pos ''y'' (JFloat 0))
                                (set_default ''x'' (jget pos ''x'' (JFloat 0)) m0))
      in node_new (merge_known data m1))"

lemma map_of_merge_known:
  "dict_ok d \<Longrightarrow> map_of (merge_known d m) k =
    (if k \<in> set node_fields
     then (case map_of d k of None \<Rightarrow> map_of m k | Some v \<Rightarrow> Some v)
     else map_of m k)"
proof (induction d m rule: merge_known.induct)
  case (1 m)
  then show ?case by simp
next
  case (2 j v d m)
  have ok: "dict_ok d" and fresh: "map_of d j = None"
    using "2.prems" by (auto simp: dict_ok_def map_of_eq_None_iff)
  show ?case using "2.IH" [OF ok] fresh by (auto split: option.splits)
qed

text \<open>
  What a serialised configuration becomes after \<open>to_dict\<close> and \<open>from_dict\<close>: a falsy
  field comes back as the declared default, and \<open>max_retries\<close>, \<open>retry_delay\<close> and
  \<open>model_router\<close> are not serialised at all.
\<close>

definition or_default :: "json \<Rightarrow> json \<Rightarrow> json" where
  "or_default v d = (if truthy v then v else d)"

definition node_reloaded :: "node_config \<Rightarrow> node_config" where
  "node_reloaded c = c\<lparr>
     nc_label := or_default (nc_label c) (JStr []),
     nc_model := or_default (nc_model c) (JStr []),
     nc_system_prompt := or_default (nc_system_prompt c) (JStr []),
     nc_temperature := or_default (nc_temperature c) (JFloat (7 / 10)),
     nc_max_tokens := or_default (nc_max_tokens c) (JInt 4096),
     nc_tool_name := or_default (nc_tool_name c) (JStr []),
     nc_tool_params := or_default (nc_tool_params c) (JObj []),
     nc_condition_expr := or_default (nc_condition_expr c) (JStr []),
     nc_max_iterations := or_default (nc_max_iterations c) (JInt 10),
     nc_max_retries := JInt 3,
     nc_retry_delay := JFloat 1,
     nc_retry_on_error := or_default (nc_retry_on_error c) (JBool False),
     nc_allow_dynamic_tools := or_default (nc_allow_dynamic_tools c) (JBool False),
     nc_disable_tools := or_default (nc_disable_tools c) (JBool False),
     nc_effort := or_default (nc_effort c) (JStr []),
     nc_tool_choice := or_default (nc_tool_choice c) (JStr []),
     nc_parallel_tool_calls := or_default (nc_parallel_tool_calls c) (JBool False),
     nc_loop_mode := or_default (nc_loop_mode c) (JStr []),
     nc_max_loop_iterations := or_default (nc_max_loop_iterations c) (JInt 0),
     nc_stop_sequences := or_default (nc_stop_sequences c) (JList []),
     nc_x := or_default (nc_x c) (JFloat 0),
     nc_y := or_default (nc_y c) (JFloat 0),
     nc_parent := or_default (nc_parent c) (JStr []),
     nc_model_router := JStr [],
     nc_post_action_capture := or_default (nc_post_action_capture c) (JBool False),
     nc_assertion := or_default (nc_assertion c) (JObj [])\<rparr>"

lemma dict_ok_node_to_dict: "dict_ok (node_to_dict c)"
  unfolding node_to_dict_def drop_falsy_def
  by (rule dict_ok_filter) (simp add: dict_ok_def)

lemma map_of_node_to_dict:
  "map_of (node_to_dict c) k =
    (case map_of
      [(''type'', nc_type c), (''label'', nc_label c), (''model'', nc_model c),
      (''system_prompt'', nc_system_prompt c), (''temperature'', nc_temperature c),
      (''max_tokens'', nc_max_tokens c), (''tool_name'', nc_tool_name c),
      (''tool_params'', nc_tool_params c), (''condition_expr'', nc_condition_expr c),
      (''max_iterations'', nc_max_iterations c), (''retry_on_error'', nc_retry_on_error c),
      (''allow_dynamic_tools'', nc_allow_dynamic_tools c),
      (''disable_tools'', nc_disable_tools c), (''effort'', nc_effort c),
      (''tool_choice'', nc_tool_choice c), (''parallel_tool_calls'', nc_parallel_tool_calls c),
      (''loop_mode'', nc_loop_mode c), (''max_loop_iterations'', nc_max_loop_iterations c),
      (''stop_sequences'', nc_stop_sequences c), (''x'', nc_x c), (''y'', nc_y c),
      (''parent'', nc_parent c), (''post_action_capture'', nc_post_action_capture c),
      (''assertion'', nc_assertion c)] k of
      None \<Rightarrow> None | Some v \<Rightarrow> if truthy v then Some v else None)"
  unfolding node_to_dict_def
  by (rule map_of_drop_falsy) (simp add: dict_ok_def)

text \<open>The entry of each key, one equation per field.\<close>

definition some_if_truthy :: "json \<Rightarrow> json option" where
  "some_if_truthy v = (if truthy v then Some v else None)"

lemma node_to_dict_fields [dict_simps]:
  "map_of (node_to_dict c) ''type'' = some_if_truthy (nc_type c)"
  "map_of (node_to_dict c) ''label'' = some_if_truthy (nc_label c)"
  "map_of (node_to_dict c) ''model'' = some_if_truthy (nc_model c)"
  "map_of (node_to_dict c) ''system_prompt'' = some_if_truthy (nc_system_prompt c)"
  "map_of (node_to_dict c) ''temperature'' = some_if_truthy (nc_temperature c)"
  "map_of (node_to_dict c) ''max_tokens'' = some_if_truthy (nc_max_tokens c)"
  "map_of (node_to_dict c) ''tool_name'' = some_if_truthy (nc_tool_name c)"
  "map_of (node_to_dict c) ''tool_params'' = some_if_truthy (nc_tool_params c)"
  "map_of (node_to_dict c) ''condition_expr'' = some_if_truthy (nc_condition_expr c)"
  "map_of (node_to_dict c) ''max_iterations'' = some_if_truthy (nc_max_iterations c)"
  "map_of (node_to_dict c) ''retry_on_error'' = some_if_truthy (nc_retry_on_error c)"
  "map_of (node_to_dict c) ''allow_dynamic_tools'' = some_if_truthy (nc_allow_dynamic_tools c)"
  "map_of (node_to_dict c) ''disable_tools'' = some_if_truthy (nc_disable_tools c)"
  "map_of (node_to_dict c) ''effort'' = some_if_truthy (nc_effort c)"
  "map_of (node_to_dict c) ''tool_choice'' = some_if_truthy (nc_tool_choice c)"
  "map_of (node_to_dict c) ''parallel_tool_calls'' = some_if_truthy (nc_parallel_tool_calls c)"
  "map_of (node_to_dict c) ''loop_mode'' = some_if_truthy (nc_loop_mode c)"
  "map_of (node_to_dict c) ''max_loop_iterations'' = some_if_truthy (nc_max_loop_iterations c)"
  "map_of (node_to_dict c) ''stop_sequences'' = some_if_truthy (nc_stop_sequences c)"
  "map_of (node_to_dict c) ''x'' = some_if_truthy (nc_x c)"
  "map_of (node_to_dict c) ''y'' = some_if_truthy (nc_y c)"
  "map_of (node_to_dict c) ''parent'' = some_if_truthy (nc_parent c)"
  "map_of (node_to_dict c) ''post_action_capture'' = some_if_truthy (nc_post_action_capture c)"
  "map_of (node_to_dict c) ''assertion'' = some_if_truthy (nc_assertion c)"
  "map_of (node_to_dict c) ''max_retries'' = None"
  "map_of (node_to_dict c) ''retry_delay'' = None"
  "map_of (node_to_dict c) ''model_router'' = None"
  "map_of (node_to_dict c) ''config'' = None"
  "map_of (node_to_dict c) ''position'' = None"
  by (simp_all add: map_of_node_to_dict some_if_truthy_def)

lemma map_of_merged:
  "map_of (merge_known (node_to_dict c) []) k =
    (if k \<in> set node_fields then map_of (node_to_dict c) k else None)"
  by (simp add: map_of_merge_known dict_ok_node_to_dict split: option.split)

lemma jget_merged_fields:
  "jget (merge_known (node_to_dict c) []) ''label'' v = or_default (nc_label c) v"
  "jget (merge_known (node_to_dict c) []) ''model'' v = or_default (nc_model c) v"
  "jget (merge_known (node_to_dict c) []) ''system_prompt'' v = or_default (nc_system_prompt c) v"
  "jget (merge_known (node_to_dict c) []) ''temperature'' v = or_default (nc_temperature c) v"
  "jget (merge_known (node_to_dict c) []) ''max_tokens'' v = or_default (nc_max_tokens c) v"
  "jget (merge_known (node_to_dict c) []) ''tool_name'' v = or_default (nc_tool_name c) v"
  "jget (merge_known (node_to_dict c) []) ''tool_params'' v = or_default (nc_tool_params c) v"
  "jget (merge_known (node_to_dict c) []) ''condition_expr'' v = or_default (nc_condition_expr c) v"
  "jget (merge_known (node_to_dict c) []) ''max_iterations'' v = or_default (nc_max_iterations c) v"
  "jget (merge_known (node_to_dict c) []) ''retry_on_error'' v = or_default (nc_retry_on_error c) v"
  "jget (merge_known (node_to_dict c) []) ''allow_dynamic_tools'' v = or_default (nc_allow_dynamic_tools c) v"
  "jget (merge_known (node_to_dict c) []) ''disable_tools'' v = or_default (nc_disable_tools c) v"
  "jget (merge_known (node_to_dict c) []) ''effort'' v = or_default (nc_effort c) v"
  "jget (merge_known (node_to_dict c) []) ''tool_choice'' v = or_default (nc_tool_choice c) v"
  "jget (merge_known (node_to_dict c) []) ''parallel_tool_calls'' v = or_default (nc_parallel_tool_calls c) v"
  "jget (merge_known (node_to_dict c) []) ''loop_mode'' v = or_default (nc_loop_mode c) v"
  "jget (merge_known (node_to_dict c) []) ''max_loop_iterations'' v = or_default (nc_max_loop_iterations c) v"
  "jget (merge_known (node_to_dict c) []) ''stop_sequences'' v = or_default (nc_stop_sequences c) v"
  "jget (merge_known (node_to_dict c) []) ''x'' v = or_default (nc_x c) v"
  "jget (merge_known (node_to_dict c) []) ''y'' v = or_default (nc_y c) v"
  "jget (merge_known (node_to_dict c) []) ''parent'' v = or_default (nc_parent c) v"
  "jget (merge_known (node_to_dict c) []) ''post_action_capture'' v = or_default (nc_post_action_capture c) v"
  "jget (merge_known (node_to_dict c) []) ''assertion'' v = or_default (nc_assertion c) v"
  "jget (merge_known (node_to_dict c) []) ''max_retries'' v = v"
  "jget (merge_known (node_to_dict c) []) ''retry_delay'' v = v"
  "jget (merge_known (node_to_dict c) []) ''model_router'' v = v"
  by (simp_all add: jget_def dict_get_def map_of_merged node_to_dict_fields node_fields_def
      some_if_truthy_def or_default_def)

lemma node_init_reloaded:
  "node_init (nc_type c) (merge_known (node_to_dict c) []) = node_reloaded c"
  by (simp add: node_init_def node_reloaded_def jget_merged_fields)

lemma node_from_to_dict:
  "node_from_dict (node_to_dict c) =
    (if truthy (nc_type c) then Inr (node_reloaded c) else Inl TypeError)"
proof -
  have "jget (node_to_dict c) ''config'' JNull = JNull"
    and "jget (node_to_dict c) ''position'' JNull = JNull"
    by (simp_all add: jget_def dict_get_def node_to_dict_fields)
  moreover have "map_of (merge_known (node_to_dict c) []) ''type'' = some_if_truthy (nc_type c)"
    by (simp add: map_of_merged node_to_dict_fields node_fields_def)
  ultimately show ?thesis
    by (simp add: node_from_dict_def node_new_def node_init_reloaded some_if_truthy_def)
qed

end
