(* ===== verification/Graph.thy ===== *)
theory Graph
  imports NodeConfig
begin

text \<open>
  The agent graph of \<open>agent_runtime/graph.py\<close>: edges, \<open>AgentGraph\<close>, the operations
  the runtime drives (next node, reachability, downstream sub-graph), validation and
  serialisation. Node and edge identifiers are strings. Validation messages are the
  constructors of \<open>graph_issue\<close>.
\<close>

section \<open>Edges\<close>

record edge =
  e_source :: str
  e_target :: str
  e_label :: str

definition edge_to_dict :: "edge \<Rightarrow> (str, str) dict" where
  "edge_to_dict e = [(''source_id'', e_source e), (''target_id'', e_target e), (''label'', e_label e)]"

text \<open>
  \<open>Edge.from_dict\<close> accepts the legacy keys \<open>source\<close> and \<open>target\<close>; any other unknown key
  is an unexpected keyword argument of the constructor.
\<close>

definition rename_key :: "str \<Rightarrow> str \<Rightarrow> (str, str) dict \<Rightarrow> (str, str) dict" where
  "rename_key old new d = (case map_of d old of
     None \<Rightarrow> d
   | Some v \<Rightarrow> if map_of d new = None then AList.update new v (AList.delete old d) else d)"

definition edge_from_dict :: "(str, str) dict \<Rightarrow> py_exn + edge" where
  "edge_from_dict data =
     (let d = AList.delete ''target'' (AList.delete ''source''
                (rename_key ''target'' ''target_id'' (rename_key ''source'' ''source_id'' data)))
      in if \<not> set (map fst d) \<subseteq> {''source_id'', ''target_id'', ''label''} then Inl TypeError
         else case map_of d ''source_id'' of
                None \<Rightarrow> Inl TypeError
              | Some s \<Rightarrow>
                  (case map_of d ''target_id'' of
                     None \<Rightarrow> Inl TypeError
                   | Some t \<Rightarrow> Inr \<lparr>e_source = s, e_target = t, e_label = dict_get d ''label'' []\<rparr>))"

section \<open>Graphs\<close>

record agent_graph =
  g_id :: str
  g_name :: str
  g_description :: str
  g_nodes :: "(str, node_config) dict"
  g_edges :: "edge list"
  g_start :: str
  g_version :: str
  g_agent_id :: str
  g_plan_mode :: bool
  g_stop_on_tool_error :: bool
  g_policy :: json

text \<open>\<open>__post_init__\<close>: a graph without an id gets a fresh one (\<open>uid\<close>).\<close>

definition graph_post_init :: "str \<Rightarrow> agent_graph \<Rightarrow> agent_graph" where
  "graph_post_init uid g = (if g_id g = [] then g\<lparr>g_id := uid\<rparr> else g)"

definition add_node :: "str \<Rightarrow> node_config \<Rightarrow> agent_graph \<Rightarrow> agent_graph" where
  "add_node nid c g =
     (let g' = g\<lparr>g_nodes := AList.update nid c (g_nodes g)\<rparr>
      in if g_start g' = [] \<and> nc_type c = JStr ''start'' then g'\<lparr>g_start := nid\<rparr> else g')"

definition add_edge :: "str \<Rightarrow> str \<Rightarrow> str \<Rightarrow> agent_graph \<Rightarrow> agent_graph" where
  "add_edge s t l g = g\<lparr>g_edges := g_edges g @ [\<lparr>e_source = s, e_target = t, e_label = l\<rparr>]\<rparr>"

definition get_node :: "str \<Rightarrow> agent_graph \<Rightarrow> node_config option" where
  "get_node nid g = map_of (g_nodes g) nid"

definition get_outgoing_edges :: "str \<Rightarrow> agent_graph \<Rightarrow> edge list" where
  "get_outgoing_edges nid g = filter (\<lambda>e. e_source e = nid) (g_edges g)"

text \<open>
  \<open>get_next_node\<close>: a single edge is taken whatever its label; among several, the label
  that equals the condition result, then the normalised truth value, then the first
  unlabelled edge, then the first edge.
\<close>

definition truthy_words :: "str list" where
  "truthy_words = [''true'', ''yes'', ''1'']"

definition falsy_words :: "str list" where
  "falsy_words = [''false'', ''no'', ''0'']"

definition pick_label :: "(str \<Rightarrow> bool) \<Rightarrow> edge list \<Rightarrow> str option" where
  "pick_label P es = map_option e_target (first_opt (filter (\<lambda>e. P (e_label e)) es))"

definition pick_normalised :: "str \<Rightarrow> edge list \<Rightarrow> str option" where
  "pick_normalised r es =
     (if py_lower r \<in> set truthy_words then pick_label (\<lambda>l. py_lower l \<in> set truthy_words) es
      else if py_lower r \<in> set falsy_words then pick_label (\<lambda>l. py_lower l \<in> set falsy_words) es
      else None)"

definition get_next_node :: "str \<Rightarrow> str \<Rightarrow> agent_graph \<Rightarrow> str option" where
  "get_next_node cur r g =
     (case get_outgoing_edges cur g of
        [] \<Rightarrow> None
      | [e] \<Rightarrow> Some (e_target e)
      | e # es \<Rightarrow>
          (case pick_label (\<lambda>l. l = r) (e # es) of
             Some t \<Rightarrow> Some t
           | None \<Rightarrow>
               (case pick_normalised r (e # es) of
                  Some t \<Rightarrow> Some t
                | None \<Rightarrow>
                    (case pick_label (\<lambda>l. l = []) (e # es) of
                       Some t \<Rightarrow> Some t
                     | None \<Rightarrow> Some (e_target e)))))"

text \<open>\<open>find_llm_model\<close>: the model of the first LLM node that names one.\<close>

fun find_llm_in :: "(str, node_config) dict \<Rightarrow> json" where
  "find_llm_in [] = JStr []"
| "find_llm_in ((nid, c) # ns) =
     (if nc_type c = JStr ''llm'' \<and> truthy (nc_model c) then nc_model c else find_llm_in ns)"

definition find_llm_model :: "agent_graph \<Rightarrow> json" where
  "find_llm_model g = find_llm_in (g_nodes g)"

section \<open>Reachability\<close>

definition edge_rel :: "edge list \<Rightarrow> (str \<times> str) set" where
  "edge_rel es = {(e_source e, e_target e) | e. e \<in> set es}"

lemma edge_rel_iff: "(a, b) \<in> edge_rel es \<longleftrightarrow> (\<exists>e \<in> set es. e_source e = a \<and> e_target e = b)"
  by (auto simp: edge_rel_def)

text \<open>A set that holds the start, only reachable points, and is closed, is the reachable set.\<close>

lemma closure_eqI:
  assumes "a \<in> S" and "\<And>x. x \<in> S \<Longrightarrow> (a, x) \<in> R\<^sup>*"
    and closed: "\<And>x y. x \<in> S \<Longrightarrow> (x, y) \<in> R \<Longrightarrow> y \<in> S"
  shows "S = R\<^sup>* `` {a}"
proof
  show "S \<subseteq> R\<^sup>* `` {a}" using assms(2) by auto
next
  have "y \<in> S" if "(a, y) \<in> R\<^sup>*" for y
    using that by induction (auto intro: assms(1) closed)
  then show "R\<^sup>* `` {a} \<subseteq> S" by auto
qed

text \<open>
  \<open>_reachable_nodes\<close>: the queue may hold a node several times; a node popped for the
  second time is skipped. Each turn either visits a new node or shortens the queue.
\<close>

lemma bfs_visit_less:
  assumes "c \<notin> v"
  shows "card ((set (q @ map e_target (filter (\<lambda>e. e_source e = c) es)) \<union> e_target ` set es) - insert c v)
    < card ((set (c # q) \<union> e_target ` set es) - v)"
  using assms by (intro psubset_card_mono) auto

lemma bfs_skip_le:
  "card ((set q \<union> e_target ` set es) - v) \<le> card ((set (c # q) \<union> e_target ` set es) - v)"
  by (rule card_mono) auto

function bfs :: "edge list \<Rightarrow> str set \<Rightarrow> str list \<Rightarrow> str set" where
  "bfs es visited [] = visited"
| "bfs es visited (cur # queue) =
     (if cur \<in> visited then bfs es visited queue
      else bfs es (insert cur visited)
             (queue @ map e_target (filter (\<lambda>e. e_source e = cur) es)))"
  by pat_completeness auto
termination
proof (relation "measures [\<lambda>(es, v, q). card ((set q \<union> e_target ` set es) - v), \<lambda>(es, v, q). length q]",
    goal_cases)
  case 1
  then show ?case by simp
next
  case (2 es v c q)
  then show ?case using bfs_skip_le [of q es v c] by auto
next
  case (3 es v c q)
  then show ?case using bfs_visit_less [of c v q es] by simp
qed

definition reachable_nodes :: "agent_graph \<Rightarrow> str set" where
  "reachable_nodes g = bfs (g_edges g) {} [g_start g]"

lemma bfs_sound:
  "\<lbrakk>\<And>x. x \<in> v \<union> set q \<Longrightarrow> (a, x) \<in> (edge_rel es)\<^sup>*; x \<in> bfs es v q\<rbrakk> \<Longrightarrow> (a, x) \<in> (edge_rel es)\<^sup>*"
proof (induction es v q rule: bfs.induct)
  case (1 es v)
  then show ?case by simp
next
  case (2 es v c q)
  show ?case
  proof (cases "c \<in> v")
    case True
    with 2 show ?thesis by simp
  next
    case False
    have c: "(a, c) \<in> (edge_rel es)\<^sup>*" using "2.prems"(1) by simp
    have "(a, y) \<in> (edge_rel es)\<^sup>*"
      if "y \<in> insert c v \<union> set (q @ map e_target (filter (\<lambda>e. e_source e = c) es))" for y
      using that "2.prems"(1) rtrancl_into_rtrancl [OF c] by (auto simp: edge_rel_iff)
    then show ?thesis using "2.IH"(2) [OF False] "2.prems"(2) False by simp
  qed
qed

lemma bfs_complete:
  "(\<And>x y. x \<in> v \<Longrightarrow> (x, y) \<in> edge_rel es \<Longrightarrow> y \<in> v \<union> set q) \<Longrightarrow>
   v \<union> set q \<subseteq> bfs es v q \<and> (\<forall>x y. x \<in> bfs es v q \<longrightarrow> (x, y) \<in> edge_rel es \<longrightarrow> y \<in> bfs es v q)"
proof (induction es v q rule: bfs.induct)
  case (1 es v)
  then show ?case by auto
next
  case (2 es v c q)
  show ?case
  proof (cases "c \<in> v")
    case True
    with 2 show ?thesis by auto
  next
    case False
    let ?q = "q @ map e_target (filter (\<lambda>e. e_source e = c) es)"
    have "y \<in> insert c v \<union> set ?q" if "x \<in> insert c v" and xy: "(x, y) \<in> edge_rel es" for x y
      using that "2.prems" [of x y] by (force simp: edge_rel_iff)
    from "2.IH"(2) [OF False this] False show ?thesis by auto
  qed
qed

lemma reachable_nodes_eq: "reachable_nodes g = (edge_rel (g_edges g))\<^sup>* `` {g_start g}"
  unfolding reachable_nodes_def
proof (rule closure_eqI)
  show "g_start g \<in> bfs (g_edges g) {} [g_start g]"
    using bfs_complete [of "{}" "g_edges g" "[g_start g]"] by auto
next
  fix x
  assume "x \<in> bfs (g_edges g) {} [g_start g]"
  then show "(g_start g, x) \<in> (edge_rel (g_edges g))\<^sup>*"
    by (rule bfs_sound [rotated]) simp
next
  fix x y
  assume "x \<in> bfs (g_edges g) {} [g_start g]" and "(x, y) \<in> edge_rel (g_edges g)"
  then show "y \<in> bfs (g_edges g) {} [g_start g]"
    using bfs_complete [of "{}" "g_edges g" "[g_start g]"] by blast
qed

section \<open>Downstream sub-graph\<close>

text \<open>
  \<open>downstream_subgraph\<close>: a worklist popped from the end; every edge leaving the popped
  node adds its target once. The loop over the edges sees the targets added before.
\<close>

fun scan_edges :: "str \<Rightarrow> edge list \<Rightarrow> str list \<times> str list \<Rightarrow> str list \<times> str list" where
  "scan_edges cur [] kf = kf"
| "scan_edges cur (e # es) (keep, frontier) =
     (if e_source e = cur \<and> e_target e \<notin> set keep
      then scan_edges cur es (keep @ [e_target e], frontier @ [e_target e])
      else scan_edges cur es (keep, frontier))"

lemma scan_edges_new:
  "scan_edges cur es (keep, fr) = (keep', fr') \<Longrightarrow>
   \<exists>new. keep' = keep @ new \<and> fr' = fr @ new \<and> set new \<subseteq> e_target ` set es
     \<and> set new \<inter> set keep = {} \<and> distinct new \<and> (\<forall>t \<in> set new. (cur, t) \<in> edge_rel es)
     \<and> (\<forall>e \<in> set es. e_source e = cur \<longrightarrow> e_target e \<in> set keep')"
proof (induction es arbitrary: keep fr)
  case Nil
  then show ?case by simp
next
  case (Cons e es)
  show ?case
  proof (cases "e_source e = cur \<and> e_target e \<notin> set keep")
    case True
    with Cons.prems have "scan_edges cur es (keep @ [e_target e], fr @ [e_target e]) = (keep', fr')"
      by simp
    from Cons.IH [OF this] obtain new where
      "keep' = keep @ [e_target e] @ new" "fr' = fr @ [e_target e] @ new"
      "set new \<subseteq> e_target ` set es" "set new \<inter> set (keep @ [e_target e]) = {}"
      "distinct new"
      "\<forall>t \<in> set new. (cur, t) \<in> edge_rel es"
      "\<forall>e \<in> set es. e_source e = cur \<longrightarrow> e_target e \<in> set keep'"
      by auto
    with True show ?thesis
      by (intro exI [of _ "e_target e # new"]) (auto simp: edge_rel_iff)
  next
    case False
    with Cons.prems have "scan_edges cur es (keep, fr) = (keep', fr')" by auto
    from Cons.IH [OF this] False show ?thesis by (auto simp: edge_rel_iff)
  qed
qed

function dfs :: "edge list \<Rightarrow> str list \<Rightarrow> str list \<Rightarrow> str list" where
  "dfs es keep frontier =
     (if frontier = [] then keep
      else case scan_edges (last frontier) es (keep, butlast frontier) of
             (keep', frontier') \<Rightarrow> dfs es keep' frontier')"
  by pat_completeness auto
termination
proof (relation "measures [\<lambda>(es, k, f). card (e_target ` set es - set k), \<lambda>(es, k, f). length f]",
    goal_cases)
  case 1
  then show ?case by simp
next
  case (2 es k f k' f')
  then have "scan_edges (last f) es (k, butlast f) = (k', f')" by simp
  from scan_edges_new [OF this] obtain new where n:
    "k' = k @ new" "f' = butlast f @ new" "set new \<subseteq> e_target ` set es" "set new \<inter> set k = {}"
    by blast
  show ?case
  proof (cases "new = []")
    case True
    with n 2 show ?thesis by simp
  next
    case False
    with n have "e_target ` set es - set k' \<subset> e_target ` set es - set k"
      by (cases new) auto
    then have "card (e_target ` set es - set k') < card (e_target ` set es - set k)"
      by (rule psubset_card_mono [rotated]) simp
    then show ?thesis by simp
  qed
qed

declare dfs.simps [simp del]

definition downstream_keep :: "str \<Rightarrow> agent_graph \<Rightarrow> str list" where
  "downstream_keep nid g = dfs (g_edges g) [nid] [nid]"

text \<open>
  The node dictionary of the sub-graph is built over the kept set; an edge that leads to
  a node that does not exist makes that lookup raise KeyError. (Python iterates the set
  in an unspecified order; the model takes the order of insertion.)
\<close>

definition downstream_subgraph :: "str \<Rightarrow> str \<Rightarrow> agent_graph \<Rightarrow> py_exn + agent_graph option" where
  "downstream_subgraph uid nid g =
     (if map_of (g_nodes g) nid = None then Inr None
      else
        let keep = downstream_keep nid g
        in bindE (mapE (\<lambda>k. case map_of (g_nodes g) k of None \<Rightarrow> Inl KeyError | Some c \<Rightarrow> Inr (k, c)) keep)
             (\<lambda>nodes. Inr (Some (graph_post_init uid
                \<lparr>g_id = g_id g, g_name = g_name g, g_description = g_description g,
                 g_nodes = nodes,
                 g_edges = filter (\<lambda>e. e_source e \<in> set keep \<and> e_target e \<in> set keep) (g_edges g),
                 g_start = nid, g_version = g_version g, g_agent_id = g_agent_id g,
                 g_plan_mode = g_plan_mode g, g_stop_on_tool_error = g_stop_on_tool_error g,
                 g_policy = g_policy g\<rparr>))))"

text \<open>The loop invariant of the worklist: kept nodes off the frontier are closed under edges.\<close>

lemma dfs_props:
  assumes "set f \<subseteq> set k" and "distinct k"
    and "\<And>x. x \<in> set k \<Longrightarrow> (a, x) \<in> (edge_rel es)\<^sup>*"
    and "\<And>x y. x \<in> set k - set f \<Longrightarrow> (x, y) \<in> edge_rel es \<Longrightarrow> y \<in> set k"
  shows "set k \<subseteq> set (dfs es k f) \<and> distinct (dfs es k f)
    \<and> (\<forall>x \<in> set (dfs es k f). (a, x) \<in> (edge_rel es)\<^sup>*)
    \<and> (\<forall>x y. x \<in> set (dfs es k f) \<longrightarrow> (x, y) \<in> edge_rel es \<longrightarrow> y \<in> set (dfs es k f))"
  using assms
proof (induction es k f rule: dfs.induct)
  case (1 es k f)
  show ?case
  proof (cases "f = []")
    case True
    with 1 show ?thesis by (auto simp: dfs.simps [of es k "[]"])
  next
    case False
    obtain k' f' where s: "scan_edges (last f) es (k, butlast f) = (k', f')" by fastforce
    then obtain new where n: "k' = k @ new" "f' = butlast f @ new"
      "set new \<inter> set k = {}" "distinct new" "\<forall>t \<in> set new. (last f, t) \<in> edge_rel es"
      "\<forall>e \<in> set es. e_source e = last f \<longrightarrow> e_target e \<in> set k'"
      using scan_edges_new [OF s] by blast
    have step: "dfs es k f = dfs es k' f'"
      using False s by (simp add: dfs.simps [of es k f])
    have f: "set f = insert (last f) (set (butlast f))"
      using False by (metis append_butlast_last_id list.simps(15) rotate1.simps(2) set_rotate1)
    have sub: "set f' \<subseteq> set k'" and dist: "distinct k'"
      using "1.prems"(1,2) n f by auto
    have last: "(a, last f) \<in> (edge_rel es)\<^sup>*"
      using "1.prems"(1,3) f by blast
    have reach: "(a, x) \<in> (edge_rel es)\<^sup>*" if "x \<in> set k'" for x
      using that n(1,5) "1.prems"(3) rtrancl_into_rtrancl [OF last] by auto
    have closed: "y \<in> set k'" if "x \<in> set k' - set f'" and xy: "(x, y) \<in> edge_rel es" for x y
    proof (cases "x = last f")
      case True
      with xy n(6) show ?thesis by (auto simp: edge_rel_iff)
    next
      case False
      with that n(1,2) f have "x \<in> set k - set f" by auto
      with "1.prems"(4) xy n(1) show ?thesis by auto
    qed
    from "1.IH" [OF False s [symmetric] sub dist reach closed] show ?thesis
      using step n(1) by auto
  qed
qed

lemma downstream_keep_props:
  "distinct (downstream_keep nid g)"
  "set (downstream_keep nid g) = (edge_rel (g_edges g))\<^sup>* `` {nid}"
proof -
  note p = dfs_props [of "[nid]" "[nid]" nid "g_edges g"]
  show "distinct (downstream_keep nid g)"
    using p by (simp add: downstream_keep_def)
  show "set (downstream_keep nid g) = (edge_rel (g_edges g))\<^sup>* `` {nid}"
    by (rule closure_eqI) (use p in \<open>auto simp: downstream_keep_def\<close>)
qed

end
