(* ===== verification/GraphValidate.thy ===== *)
theory GraphValidate
  imports Graph
begin

text \<open>
  \<open>AgentGraph.validate\<close> of \<open>agent_runtime/graph.py\<close>: the structural checks, the node
  type check and, when a tool registry is given, the checks of the node contents. A
  registry is the mapping from tool names to the names of their parameters
  (\<open>list_tools\<close>, \<open>get\<close> and \<open>parameters\<close> of the registry object). An issue is a
  constructor that carries the data of the message.
\<close>

section \<open>Condition expressions\<close>

text \<open>
  The regular expressions that decide whether a condition expression is parseable, on
  ASCII word characters.
\<close>

definition comp_ops :: "str list" where
  "comp_ops = [''>='', ''<='', ''!='', ''=='', ''>'', ''<'']"

text \<open>\<open>\s*(.+)\<close>: some character other than a newline follows, after whitespace at most.\<close>

definition rest_nonempty :: "str \<Rightarrow> bool" where
  "rest_nonempty s \<longleftrightarrow> dropWhile (\<lambda>c. c = CHR 0x0A) s \<noteq> []"

text \<open>\<open>(\w+)\s*(>=|<=|!=|==|>|<)\s*(.+)\<close>.\<close>

definition comp_match :: "str \<Rightarrow> bool" where
  "comp_match s \<longleftrightarrow> takeWhile is_word s \<noteq> [] \<and>
     (let r = dropWhile is_space (dropWhile is_word s)
      in list_ex (\<lambda>op. starts_with r op \<and> rest_nonempty (drop (length op) r)) comp_ops)"

definition is_quote :: "char \<Rightarrow> bool" where
  "is_quote c \<longleftrightarrow> (of_char c :: nat) = 34 \<or> (of_char c :: nat) = 39"

text \<open>\<open>\s+in\s+(\w+)\<close>.\<close>

definition in_tail :: "str \<Rightarrow> bool" where
  "in_tail s \<longleftrightarrow>
     (let r = dropWhile is_space s; r' = drop 2 r; w = dropWhile is_space r'
      in r \<noteq> s \<and> starts_with r ''in'' \<and> w \<noteq> r' \<and> (case w of [] \<Rightarrow> False | c # _ \<Rightarrow> is_word c))"

fun in_scan :: "str \<Rightarrow> bool" where
  "in_scan [] = False"
| "in_scan (c # s) = (is_quote c \<and> in_tail s \<or> c \<noteq> CHR 0x0A \<and> in_scan s)"

text \<open>\<open>["'](.+?)["']\s+in\s+(\w+)\<close>.\<close>

fun in_match :: "str \<Rightarrow> bool" where
  "in_match (q # c # s) = (is_quote q \<and> c \<noteq> CHR 0x0A \<and> in_scan s)"
| "in_match _ = False"

text \<open>\<open>\bw\b\<close> somewhere in the string; the flag says that the previous character is a word character.\<close>

fun has_word :: "str \<Rightarrow> bool \<Rightarrow> str \<Rightarrow> bool" where
  "has_word w prev [] = False"
| "has_word w prev (c # s) =
     (\<not> prev \<and> starts_with (c # s) w
        \<and> (case drop (length w) (c # s) of [] \<Rightarrow> True | d # _ \<Rightarrow> \<not> is_word d)
      \<or> has_word w (is_word c) s)"

definition condition_parseable :: "str \<Rightarrow> bool" where
  "condition_parseable expr \<longleftrightarrow>
     (let low = py_lower expr
      in low \<in> {''true'', ''false''} \<or> low \<in> {''has_tool_calls'', ''has_error'', ''has_result''}
         \<or> comp_match expr \<or> in_match expr \<or> starts_with low ''not ''
         \<or> has_word ''or'' False low \<or> has_word ''and'' False low)"

section \<open>Validation\<close>

datatype graph_issue =
    NoStartNode
  | NoNodes
  | StartNotFound str
  | EdgeSourceMissing str
  | EdgeTargetMissing str
  | NodeUnreachable str
  | UnknownNodeType str json
  | ToolNotInRegistry str json
  | ConditionUnparseable str str
  | UnknownToolParam str json json

type_synonym tool_registry = "(str, str list) dict"

definition valid_node_types :: "str list" where
  "valid_node_types = [''start'', ''llm'', ''tool'', ''condition'', ''loop'', ''error_handler'',
     ''rag'', ''planner'', ''verify'', ''parallel'', ''acp'', ''end'', ''iteration'',
     ''variable_aggregator'', ''human_input'', ''sub_flow'']"

definition check_type :: "str \<Rightarrow> node_config \<Rightarrow> py_exn + graph_issue list" where
  "check_type nid c =
     (if \<not> hashable (nc_type c) then Inl TypeError
      else Inr (if nc_type c \<in> set (map JStr valid_node_types) then []
                else [UnknownNodeType nid (nc_type c)]))"

definition known_tools :: "tool_registry \<Rightarrow> json set" where
  "known_tools reg = set (map (JStr \<circ> fst) reg)"

definition check_tool_name ::
    "tool_registry option \<Rightarrow> str \<Rightarrow> node_config \<Rightarrow> py_exn + graph_issue list" where
  "check_tool_name registry nid c =
     (case registry of
        None \<Rightarrow> Inr []
      | Some reg \<Rightarrow>
          if nc_type c = JStr ''tool'' \<and> truthy (nc_tool_name c) then
            (if \<not> hashable (nc_tool_name c) then Inl TypeError
             else Inr (if nc_tool_name c \<in> known_tools reg then []
                       else [ToolNotInRegistry nid (nc_tool_name c)]))
          else Inr [])"

definition check_condition ::
    "tool_registry option \<Rightarrow> str \<Rightarrow> node_config \<Rightarrow> py_exn + graph_issue list" where
  "check_condition registry nid c =
     (if nc_type c = JStr ''condition'' \<and> truthy (nc_condition_expr c) \<and> registry \<noteq> None then
        (case as_str (nc_condition_expr c) of
           None \<Rightarrow> Inl AttributeError
         | Some raw \<Rightarrow>
             let expr = py_strip raw
             in Inr (if condition_parseable expr then []
                     else [ConditionUnparseable nid (take 60 expr)]))
      else Inr [])"

text \<open>Iterating a value: the keys of a dict, the elements of a list, the characters of a string.\<close>

fun iter_json :: "json \<Rightarrow> py_exn + json list" where
  "iter_json (JObj d) = Inr (map (JStr \<circ> fst) d)"
| "iter_json (JList xs) = Inr xs"
| "iter_json (JStr s) = Inr (map (\<lambda>c. JStr [c]) s)"
| "iter_json _ = Inl TypeError"

definition check_param ::
    "str \<Rightarrow> json \<Rightarrow> str list \<Rightarrow> json \<Rightarrow> py_exn + graph_issue list" where
  "check_param nid tool schema key =
     (if key = JStr ''output_mapping'' \<or> schema = [] then Inr []
      else if \<not> hashable key then Inl TypeError
      else Inr (if key \<in> set (map JStr schema) then [] else [UnknownToolParam nid key tool]))"

definition check_params ::
    "tool_registry option \<Rightarrow> str \<Rightarrow> node_config \<Rightarrow> py_exn + graph_issue list" where
  "check_params registry nid c =
     (case registry of
        None \<Rightarrow> Inr []
      | Some reg \<Rightarrow>
          if nc_type c = JStr ''tool'' \<and> truthy (nc_tool_name c) then
            (if \<not> hashable (nc_tool_name c) then Inl TypeError
             else case (case as_str (nc_tool_name c) of None \<Rightarrow> None | Some t \<Rightarrow> map_of reg t) of
                    None \<Rightarrow> Inr []
                  | Some params \<Rightarrow>
                      bindE (iter_json (nc_tool_params c))
                        (concatE (check_param nid (nc_tool_name c) (filter (\<lambda>p. p \<noteq> []) params))))
          else Inr [])"

definition validate_node ::
    "tool_registry option \<Rightarrow> str \<times> node_config \<Rightarrow> py_exn + graph_issue list" where
  "validate_node registry nc =
     (case nc of (nid, c) \<Rightarrow>
        concatE (\<lambda>check. check nid c)
          [check_type, check_tool_name registry, check_condition registry, check_params registry])"

definition edge_issues :: "agent_graph \<Rightarrow> edge \<Rightarrow> graph_issue list" where
  "edge_issues g e =
     (if map_of (g_nodes g) (e_source e) = None then [EdgeSourceMissing (e_source e)] else [])
     @ (if map_of (g_nodes g) (e_target e) = None then [EdgeTargetMissing (e_target e)] else [])"

definition structure_issues :: "agent_graph \<Rightarrow> graph_issue list" where
  "structure_issues g =
     (if g_start g = [] then [NoStartNode] else [])
     @ (if g_nodes g = [] then [NoNodes] else [])
     @ (if g_start g \<noteq> [] \<and> map_of (g_nodes g) (g_start g) = None
        then [StartNotFound (g_start g)] else [])
     @ concat (map (edge_issues g) (g_edges g))
     @ (if g_start g \<noteq> []
        then map NodeUnreachable
               (filter (\<lambda>nid. nid \<notin> reachable_nodes g \<and> nid \<noteq> g_start g) (map fst (g_nodes g)))
        else [])"

definition validate :: "tool_registry option \<Rightarrow> agent_graph \<Rightarrow> py_exn + graph_issue list" where
  "validate registry g =
     bindE (concatE (validate_node registry) (g_nodes g)) (\<lambda>es. Inr (structure_issues g @ es))"

section \<open>What a clean validation means\<close>

text \<open>The specification: a well-formed graph.\<close>

definition well_formed :: "agent_graph \<Rightarrow> bool" where
  "well_formed g \<longleftrightarrow>
     g_start g \<noteq> [] \<and> g_start g \<in> fst ` set (g_nodes g)
     \<and> (\<forall>e \<in> set (g_edges g). e_source e \<in> fst ` set (g_nodes g) \<and> e_target e \<in> fst ` set (g_nodes g))
     \<and> (\<forall>nid \<in> fst ` set (g_nodes g). (g_start g, nid) \<in> (edge_rel (g_edges g))\<^sup>*)"

definition known_types :: "agent_graph \<Rightarrow> bool" where
  "known_types g \<longleftrightarrow> (\<forall>(nid, c) \<in> set (g_nodes g). nc_type c \<in> JStr ` set valid_node_types)"

lemma map_of_None_fst: "map_of d k = None \<longleftrightarrow> k \<notin> fst ` set d"
  by (rule map_of_eq_None_iff)

lemma structure_issues_Nil: "structure_issues g = [] \<longleftrightarrow> well_formed g"
  by (auto simp: structure_issues_def well_formed_def edge_issues_def map_of_None_fst
      reachable_nodes_eq filter_empty_conv)

lemma check_type_Nil: "check_type nid c = Inr [] \<longleftrightarrow> nc_type c \<in> JStr ` set valid_node_types"
  by (auto simp: check_type_def)

lemma validate_node_no_registry: "validate_node None (nid, c) = check_type nid c"
  by (cases "check_type nid c")
     (simp_all add: validate_node_def concatE_def check_tool_name_def check_condition_def check_params_def)

lemma validate_clean_iff:
  "validate None g = Inr [] \<longleftrightarrow> well_formed g \<and> known_types g"
  by (auto simp: validate_def bindE_Inr_iff structure_issues_Nil concatE_Inr_Nil_iff
      validate_node_no_registry check_type_Nil known_types_def)

text \<open>Downstream of a node of a well-formed graph: no lookup fails, and the result is well formed.\<close>

lemma rtrancl_stays:
  assumes "well_formed g" and "a \<in> fst ` set (g_nodes g)" and "(a, b) \<in> (edge_rel (g_edges g))\<^sup>*"
  shows "b \<in> fst ` set (g_nodes g)"
  using assms(3)
  by induction (use assms in \<open>auto simp: well_formed_def edge_rel_iff\<close>)

lemma downstream_nodes:
  assumes "set keep \<subseteq> fst ` set nodes"
  shows "\<exists>sub. mapE (\<lambda>k. case map_of nodes k of None \<Rightarrow> Inl KeyError | Some c \<Rightarrow> Inr (k, c)) keep
            = Inr sub \<and> map fst sub = keep \<and> set sub \<subseteq> set nodes"
  using assms
proof (induction keep)
  case Nil
  then show ?case by simp
next
  case (Cons k keep)
  from Cons.prems obtain c where c: "map_of nodes k = Some c"
    by (metis insert_subset list.simps(15) map_of_None_fst not_None_eq)
  with Cons show ?case by (fastforce dest: map_of_SomeD)
qed

lemma restrict_rtrancl:
  assumes "(a, x) \<in> (edge_rel es)\<^sup>*"
  shows "(a, x) \<in> (edge_rel (filter (\<lambda>e. (a, e_source e) \<in> (edge_rel es)\<^sup>*
            \<and> (a, e_target e) \<in> (edge_rel es)\<^sup>*) es))\<^sup>*"
  using assms
proof induction
  case base
  then show ?case by simp
next
  case (step y z)
  have "(y, z) \<in> edge_rel (filter (\<lambda>e. (a, e_source e) \<in> (edge_rel es)\<^sup>*
            \<and> (a, e_target e) \<in> (edge_rel es)\<^sup>*) es)"
    using step.hyps rtrancl_into_rtrancl [OF step.hyps] by (auto simp: edge_rel_iff)
  with step.IH show ?case by (rule rtrancl_into_rtrancl)
qed

lemma downstream_well_formed:
  assumes wf: "well_formed g" and types: "known_types g" and id: "g_id g \<noteq> []"
    and n: "map_of (g_nodes g) nid \<noteq> None" and ne: "nid \<noteq> []"
  shows "\<exists>sub. downstream_subgraph uid nid g = Inr (Some sub)
    \<and> g_id sub = g_id g \<and> g_start sub = nid
    \<and> fst ` set (g_nodes sub) = (edge_rel (g_edges g))\<^sup>* `` {nid}
    \<and> set (g_nodes sub) \<subseteq> set (g_nodes g)
    \<and> well_formed sub \<and> known_types sub"
proof -
  let ?keep = "downstream_keep nid g"
  let ?R = "edge_rel (g_edges g)"
  have nin: "nid \<in> fst ` set (g_nodes g)" using n by (metis map_of_None_fst)
  then have sub: "set ?keep \<subseteq> fst ` set (g_nodes g)"
    using rtrancl_stays [OF wf nin] by (auto simp: downstream_keep_props)
  obtain nodes where nodes: "mapE (\<lambda>k. case map_of (g_nodes g) k of None \<Rightarrow> Inl KeyError
        | Some c \<Rightarrow> Inr (k, c)) ?keep = Inr nodes"
    and fsts: "map fst nodes = ?keep" and nsub: "set nodes \<subseteq> set (g_nodes g)"
    using downstream_nodes [OF sub] by blast
  have keys: "fst ` set nodes = ?R\<^sup>* `` {nid}"
    using arg_cong [OF fsts, of set] by (simp add: downstream_keep_props)
  define s where "s = \<lparr>g_id = g_id g, g_name = g_name g, g_description = g_description g,
     g_nodes = nodes,
     g_edges = filter (\<lambda>e. e_source e \<in> set ?keep \<and> e_target e \<in> set ?keep) (g_edges g),
     g_start = nid, g_version = g_version g, g_agent_id = g_agent_id g,
     g_plan_mode = g_plan_mode g, g_stop_on_tool_error = g_stop_on_tool_error g,
     g_policy = g_policy g\<rparr>"
  have "downstream_subgraph uid nid g = Inr (Some s)"
    using n id nodes by (simp add: downstream_subgraph_def Let_def s_def graph_post_init_def)
  moreover have "well_formed s"
    using ne restrict_rtrancl [where es = "g_edges g" and a = nid] keys
    by (auto simp: well_formed_def s_def downstream_keep_props)
  moreover have "known_types s"
    using types nsub by (auto simp: known_types_def s_def)
  moreover have "g_id s = g_id g" "g_start s = nid" "g_nodes s = nodes"
    by (simp_all add: s_def)
  ultimately show ?thesis using keys nsub by metis
qed

end
