(* ===== verification/GraphSerial.thy ===== *)
theory GraphSerial
  imports GraphValidate
begin

text \<open>
  \<open>AgentGraph.to_dict\<close>, \<open>from_dict\<close> and \<open>create_default\<close> of
  \<open>agent_runtime/graph.py\<close>, and the round trip. A graph document is the decoded JSON
  object: an absent key is \<open>None\<close>; \<open>nodes\<close> is an object keyed by node id, or a list of
  node objects that carry their \<open>id\<close>, or something else, which the code ignores.
\<close>

section \<open>Documents\<close>

datatype nodes_doc =
    NodesDict "(str \<times> jobj) list"
  | NodesList "(str option \<times> jobj) list"
  | NodesOther

record graph_doc =
  gd_id :: "str option"
  gd_name :: "str option"
  gd_description :: "str option"
  gd_nodes :: "nodes_doc option"
  gd_edges :: "(str, str) dict list option"
  gd_start :: "str option"
  gd_version :: "str option"
  gd_agent_id :: "str option"
  gd_plan_mode :: "bool option"
  gd_stop_on_tool_error :: "bool option"
  gd_policy :: "json option"

definition opt_or :: "'a option \<Rightarrow> 'a \<Rightarrow> 'a" where
  "opt_or x d = (case x of None \<Rightarrow> d | Some v \<Rightarrow> v)"

lemma opt_or_simps [simp]: "opt_or None d = d" "opt_or (Some v) d = v"
  by (simp_all add: opt_or_def)

definition graph_to_doc :: "agent_graph \<Rightarrow> graph_doc" where
  "graph_to_doc g = \<lparr>
     gd_id = Some (g_id g), gd_name = Some (g_name g), gd_description = Some (g_description g),
     gd_nodes = Some (NodesDict (map (\<lambda>(nid, c). (nid, node_to_dict c)) (g_nodes g))),
     gd_edges = Some (map edge_to_dict (g_edges g)),
     gd_start = Some (g_start g), gd_version = Some (g_version g),
     gd_agent_id = Some (g_agent_id g), gd_plan_mode = Some (g_plan_mode g),
     gd_stop_on_tool_error = Some (g_stop_on_tool_error g), gd_policy = Some (g_policy g)\<rparr>"

text \<open>Nodes of a list without an id are called \<open>f"node-{len(nodes)}"\<close>.\<close>

fun nodes_of_list ::
    "(str option \<times> jobj) list \<Rightarrow> (str, node_config) dict \<Rightarrow> py_exn + (str, node_config) dict" where
  "nodes_of_list [] acc = Inr acc"
| "nodes_of_list ((i, d) # ds) acc =
     bindE (node_from_dict d) (\<lambda>c.
       nodes_of_list ds (AList.update (opt_or i (''node-'' @ str_of_nat (length acc))) c acc))"

definition nodes_from_doc :: "nodes_doc \<Rightarrow> py_exn + (str, node_config) dict" where
  "nodes_from_doc nd = (case nd of
     NodesDict ds \<Rightarrow> mapE (\<lambda>(nid, d). bindE (node_from_dict d) (\<lambda>c. Inr (nid, c))) ds
   | NodesList ds \<Rightarrow> nodes_of_list ds []
   | NodesOther \<Rightarrow> Inr [])"

definition infer_start :: "str \<Rightarrow> (str, node_config) dict \<Rightarrow> str" where
  "infer_start start nodes =
     (if start \<noteq> [] then start
      else case first_opt (filter (\<lambda>(nid, c). nc_type c = JStr ''start'') nodes) of
             None \<Rightarrow> []
           | Some (nid, c) \<Rightarrow> nid)"

definition graph_from_doc :: "str \<Rightarrow> graph_doc \<Rightarrow> py_exn + agent_graph" where
  "graph_from_doc uid d =
     bindE (nodes_from_doc (opt_or (gd_nodes d) (NodesDict []))) (\<lambda>nodes.
     bindE (mapE edge_from_dict (opt_or (gd_edges d) [])) (\<lambda>edges.
       Inr (graph_post_init uid \<lparr>
         g_id = opt_or (gd_id d) [], g_name = opt_or (gd_name d) [],
         g_description = opt_or (gd_description d) [],
         g_nodes = nodes, g_edges = edges,
         g_start = infer_start (opt_or (gd_start d) []) nodes,
         g_version = opt_or (gd_version d) ''1.0'',
         g_agent_id = opt_or (gd_agent_id d) [],
         g_plan_mode = opt_or (gd_plan_mode d) False,
         g_stop_on_tool_error = opt_or (gd_stop_on_tool_error d) False,
         g_policy = opt_or (gd_policy d) JNull\<rparr>)))"

section \<open>The default graph\<close>

definition default_node :: "(str \<times> json) list \<Rightarrow> str \<Rightarrow> int \<Rightarrow> node_config" where
  "default_node kw ty x = node_init (JStr ty) ([(''x'', JInt x), (''y'', JInt 200)] @ kw)"

definition empty_graph :: "str \<Rightarrow> agent_graph" where
  "empty_graph name = \<lparr>g_id = [], g_name = name, g_description = [], g_nodes = [], g_edges = [],
     g_start = [], g_version = ''1.0'', g_agent_id = [], g_plan_mode = False,
     g_stop_on_tool_error = False, g_policy = JNull\<rparr>"

definition create_default :: "str \<Rightarrow> str \<Rightarrow> agent_graph" where
  "create_default uid name =
     add_edge ''llm_1'' ''end'' []
       (add_edge ''start'' ''llm_1'' []
         (add_node ''end'' (default_node [(''label'', JStr ''End'')] ''end'' 500)
           (add_node ''llm_1''
              (default_node [(''label'', JStr ''LLM Think''), (''model'', JStr ''qwen3.5-9b''),
                 (''system_prompt'', JStr ''You are a helpful assistant.'')] ''llm'' 300)
             (add_node ''start'' (default_node [(''label'', JStr ''Start'')] ''start'' 100)
               (graph_post_init uid (empty_graph name))))))"

section \<open>Round trips\<close>

lemma edge_from_to_dict: "edge_from_dict (edge_to_dict e) = Inr e"
  by (cases e) (simp add: edge_from_dict_def edge_to_dict_def rename_key_def Let_def dict_get_def)

definition graph_reloaded :: "agent_graph \<Rightarrow> agent_graph" where
  "graph_reloaded g = g\<lparr>g_nodes := map (\<lambda>(nid, c). (nid, node_reloaded c)) (g_nodes g)\<rparr>"

lemma nodes_from_to_doc:
  assumes "\<And>nid c. (nid, c) \<in> set ns \<Longrightarrow> truthy (nc_type c)"
  shows "nodes_from_doc (NodesDict (map (\<lambda>(nid, c). (nid, node_to_dict c)) ns))
    = Inr (map (\<lambda>(nid, c). (nid, node_reloaded c)) ns)"
  using assms
proof (induction ns)
  case Nil
  then show ?case by (simp add: nodes_from_doc_def)
next
  case (Cons p ns)
  obtain nid c where p: "p = (nid, c)" by (cases p)
  have "truthy (nc_type c)" using Cons.prems [of nid c] p by simp
  moreover have "nodes_from_doc (NodesDict (map (\<lambda>(nid, c). (nid, node_to_dict c)) ns))
      = Inr (map (\<lambda>(nid, c). (nid, node_reloaded c)) ns)"
    using Cons.IH Cons.prems by (meson list.set_intros(2))
  ultimately show ?case using p by (simp add: nodes_from_doc_def node_from_to_dict)
qed

lemma edges_from_to_dict: "mapE edge_from_dict (map edge_to_dict es) = Inr es"
  by (induction es) (simp_all add: edge_from_to_dict)

lemma graph_from_to_doc:
  assumes "g_id g \<noteq> []" and "g_start g \<noteq> []" and "known_types g"
  shows "graph_from_doc uid (graph_to_doc g) = Inr (graph_reloaded g)"
proof -
  have "truthy (nc_type c)" if "(nid, c) \<in> set (g_nodes g)" for nid c
    using that assms(3) by (auto simp: known_types_def valid_node_types_def)
  from nodes_from_to_doc [OF this] assms(1,2) show ?thesis
    by (simp add: graph_from_doc_def graph_to_doc_def edges_from_to_dict infer_start_def
        graph_post_init_def graph_reloaded_def)
qed

lemma reloaded_type [simp]: "nc_type (node_reloaded c) = nc_type c"
  by (simp add: node_reloaded_def)

lemma reloaded_validate: "validate None (graph_reloaded g) = Inr [] \<longleftrightarrow> validate None g = Inr []"
proof -
  have "fst ` (\<lambda>(nid, c). (nid, node_reloaded c)) ` N = fst ` N" for N :: "(str \<times> node_config) set"
    by force
  then show ?thesis
    by (auto simp: validate_clean_iff well_formed_def known_types_def graph_reloaded_def)
qed

end
