(* ===== verification/GraphProps.thy ===== *)
theory GraphProps
  imports GraphSerial
begin

text \<open>
  The properties of the graph component: what a clean validation guarantees, that the
  search finds exactly the reachable nodes, downstream sub-graphs, the choice of the next
  node, and the save/load round trips.
\<close>

section \<open>An example graph\<close>

definition demo_graph :: agent_graph where
  "demo_graph = create_default ''g1'' ''demo''"

lemmas demo_graph_defs = demo_graph_def create_default_def default_node_def empty_graph_def
  add_node_def add_edge_def graph_post_init_def node_init_def

lemma demo_graph_fields:
  "map fst (g_nodes demo_graph) = [''start'', ''llm_1'', ''end'']"
  "map (nc_type \<circ> snd) (g_nodes demo_graph) = [JStr ''start'', JStr ''llm'', JStr ''end'']"
  "g_edges demo_graph = [\<lparr>e_source = ''start'', e_target = ''llm_1'', e_label = []\<rparr>,
     \<lparr>e_source = ''llm_1'', e_target = ''end'', e_label = []\<rparr>]"
  "g_start demo_graph = ''start''" "g_id demo_graph = ''g1''"
  by (simp_all add: demo_graph_defs Let_def)

lemma demo_graph_valid: "validate None demo_graph = Inr []"
proof -
  have keys: "fst ` set (g_nodes demo_graph) = {''start'', ''llm_1'', ''end''}"
    using demo_graph_fields(1) by (metis list.set_map list.simps(15) set_empty2)
  have types: "(nc_type \<circ> snd) ` set (g_nodes demo_graph) = {JStr ''start'', JStr ''llm'', JStr ''end''}"
    using demo_graph_fields(2) by (metis list.set_map list.simps(15) set_empty2)
  have e: "(''start'', ''llm_1'') \<in> edge_rel (g_edges demo_graph)"
      "(''llm_1'', ''end'') \<in> edge_rel (g_edges demo_graph)"
    by (simp_all add: edge_rel_iff demo_graph_fields)
  then have "(''start'', ''end'') \<in> (edge_rel (g_edges demo_graph))\<^sup>*"
    by (meson r_into_rtrancl rtrancl_into_rtrancl)
  with e have "well_formed demo_graph"
    by (simp add: well_formed_def keys demo_graph_fields(3,4) r_into_rtrancl)
  moreover have "known_types demo_graph"
  proof -
    have "nc_type c \<in> {JStr ''start'', JStr ''llm'', JStr ''end''}"
      if "(nid, c) \<in> set (g_nodes demo_graph)" for nid c
      using that unfolding types [symmetric] by force
    then show ?thesis unfolding known_types_def valid_node_types_def by fastforce
  qed
  ultimately show ?thesis by (simp add: validate_clean_iff)
qed

lemma reloaded_idem: "node_reloaded (node_reloaded c) = node_reloaded c"
  by (simp add: node_reloaded_def or_default_def)

section \<open>Properties\<close>

text \<open>
  C21: validation without a registry is clean exactly for the well-formed graphs: a start
  node that exists, edges between existing nodes, every node reachable from the start,
  and node types the runtime can dispatch.
\<close>

theorem validate_exact:
  "validate None g = Inr [] \<longleftrightarrow> well_formed g \<and> known_types g"
  by (rule validate_clean_iff)

text \<open>
  the breadth-first search terminates with exactly the nodes that a path of edges
  reaches from the start node.
\<close>

theorem search_exact:
  "nid \<in> reachable_nodes g \<longleftrightarrow> (g_start g, nid) \<in> (edge_rel (g_edges g))\<^sup>*"
  by (simp add: reachable_nodes_eq)

text \<open>
  C22: the downstream sub-graph of a node of a valid graph is built without a KeyError,
  keeps the identity of the graph, starts at that node, holds exactly the nodes reachable
  from it with their configurations, and is itself valid.
\<close>

theorem downstream_valid:
  assumes "validate None g = Inr []" and "g_id g \<noteq> []"
    and "get_node nid g \<noteq> None" and "nid \<noteq> []"
  shows "\<exists>sub. downstream_subgraph uid nid g = Inr (Some sub)
    \<and> g_id sub = g_id g \<and> g_start sub = nid
    \<and> fst ` set (g_nodes sub) = (edge_rel (g_edges g))\<^sup>* `` {nid}
    \<and> set (g_nodes sub) \<subseteq> set (g_nodes g)
    \<and> validate None sub = Inr []"
proof -
  have "well_formed g" "known_types g" using assms(1) by (simp_all add: validate_clean_iff)
  from downstream_well_formed [OF this assms(2), of nid uid] assms(3,4) show ?thesis
    by (auto simp: validate_clean_iff get_node_def)
qed

theorem downstream_valid_witness:
  "\<exists>sub. downstream_subgraph ''u'' ''llm_1'' demo_graph = Inr (Some sub)
    \<and> g_start sub = ''llm_1'' \<and> validate None sub = Inr []"
proof -
  have "get_node ''llm_1'' demo_graph \<noteq> None"
    using demo_graph_fields(1) by (auto simp: get_node_def map_of_None_fst simp flip: set_map)
  from downstream_valid [OF demo_graph_valid _ this, of "''u''"] demo_graph_fields(5)
  show ?thesis by auto
qed

text \<open>
  the next node is undefined only at a node without outgoing edges, otherwise it is
  the target of one of them; with several edges, an edge whose label equals the condition
  result decides, and the first such edge in case of several.
\<close>

theorem next_node_follows_edges:
  "(get_next_node cur r g = None \<longleftrightarrow> get_outgoing_edges cur g = [])
   \<and> (\<forall>t. get_next_node cur r g = Some t \<longrightarrow> (cur, t) \<in> edge_rel (g_edges g))
   \<and> (\<forall>e. length (get_outgoing_edges cur g) > 1
        \<longrightarrow> List.find (\<lambda>e. e_label e = r) (get_outgoing_edges cur g) = Some e
        \<longrightarrow> get_next_node cur r g = Some (e_target e))"
proof (intro conjI)
  have pick: "\<exists>e \<in> set es. t = e_target e" if "pick_label P es = Some t" for P es t
    using that by (auto simp: pick_label_def dest!: first_opt_in)
  have norm: "\<exists>e \<in> set es. t = e_target e" if "pick_normalised r es = Some t" for es t
    using that by (auto simp: pick_normalised_def dest!: pick split: if_splits)
  show "get_next_node cur r g = None \<longleftrightarrow> get_outgoing_edges cur g = []"
    by (auto simp: get_next_node_def split: list.splits option.splits)
  show "\<forall>t. get_next_node cur r g = Some t \<longrightarrow> (cur, t) \<in> edge_rel (g_edges g)"
  proof (intro allI impI)
    fix t
    assume t: "get_next_node cur r g = Some t"
    have "\<exists>e \<in> set (get_outgoing_edges cur g). t = e_target e"
      using t by (auto simp: get_next_node_def dest!: pick norm split: list.splits option.splits)
    then show "(cur, t) \<in> edge_rel (g_edges g)"
      by (auto simp: get_outgoing_edges_def edge_rel_iff)
  qed
  show "\<forall>e. length (get_outgoing_edges cur g) > 1
        \<longrightarrow> List.find (\<lambda>e. e_label e = r) (get_outgoing_edges cur g) = Some e
        \<longrightarrow> get_next_node cur r g = Some (e_target e)"
    by (auto simp: get_next_node_def pick_label_def first_opt_filter_find split: list.splits)
qed

definition branch_graph :: agent_graph where
  "branch_graph = add_edge ''c'' ''a'' ''true'' (add_edge ''c'' ''b'' ''no'' (empty_graph ''branch''))"

theorem next_node_follows_edges_witness:
  "get_next_node ''c'' ''true'' branch_graph = Some ''a''
   \<and> get_next_node ''c'' ''false'' branch_graph = Some ''b''
   \<and> (''c'', ''a'') \<in> edge_rel (g_edges branch_graph)"
proof -
  have out: "get_outgoing_edges ''c'' branch_graph =
      [\<lparr>e_source = ''c'', e_target = ''b'', e_label = ''no''\<rparr>,
       \<lparr>e_source = ''c'', e_target = ''a'', e_label = ''true''\<rparr>]"
    by (simp add: branch_graph_def add_edge_def empty_graph_def get_outgoing_edges_def)
  have true: "get_next_node ''c'' ''true'' branch_graph = Some ''a''"
    using next_node_follows_edges [of "''c''" "''true''" branch_graph] out by simp
  moreover have "get_next_node ''c'' ''false'' branch_graph = Some ''b''"
    by (simp add: get_next_node_def out pick_label_def pick_normalised_def falsy_words_def
        truthy_words_def py_lower_def lower_char_def)
  moreover have "(''c'', ''a'') \<in> edge_rel (g_edges branch_graph)"
    using next_node_follows_edges [of "''c''" "''true''" branch_graph] true by blast
  ultimately show ?thesis by simp
qed

text \<open>
  a node configuration that is serialised and loaded again comes back with every
  truthy field as it was. A falsy field becomes the declared default, so a temperature of
  zero is loaded as 0.7 and a zero token limit as 4096, and \<open>max_retries\<close>,
  \<open>retry_delay\<close> and \<open>model_router\<close> are reset to their defaults.
\<close>

theorem node_config_roundtrip:
  "node_from_dict (node_to_dict c) =
    (if truthy (nc_type c) then Inr (node_reloaded c) else Inl TypeError)
   \<and> nc_temperature (node_reloaded (c\<lparr>nc_temperature := JFloat 0\<rparr>)) = JFloat (7 / 10)
   \<and> nc_max_tokens (node_reloaded (c\<lparr>nc_max_tokens := JInt 0\<rparr>)) = JInt 4096
   \<and> nc_max_retries (node_reloaded c) = JInt 3"
  by (simp add: node_from_to_dict) (simp add: node_reloaded_def or_default_def)

text \<open>
  C39: a valid graph with an id survives the document round trip: identity, start node,
  edges and node ids are unchanged, every configuration is its reloaded form, and the
  result is valid again. A second round trip changes nothing more.
\<close>

theorem graph_roundtrip:
  assumes "validate None g = Inr []" and "g_id g \<noteq> []"
  shows "graph_from_doc uid (graph_to_doc g) = Inr (graph_reloaded g)
    \<and> g_edges (graph_reloaded g) = g_edges g
    \<and> map fst (g_nodes (graph_reloaded g)) = map fst (g_nodes g)
    \<and> validate None (graph_reloaded g) = Inr []
    \<and> graph_from_doc uid (graph_to_doc (graph_reloaded g)) = Inr (graph_reloaded g)"
proof -
  have wf: "well_formed g" "known_types g" using assms(1) by (simp_all add: validate_clean_iff)
  then have wf': "well_formed (graph_reloaded g)" "known_types (graph_reloaded g)"
    using assms(1) reloaded_validate [of g] by (simp_all add: validate_clean_iff)
  have "graph_reloaded (graph_reloaded g) = graph_reloaded g"
    by (simp add: graph_reloaded_def reloaded_idem case_prod_unfold comp_def)
  moreover have "map fst (g_nodes (graph_reloaded g)) = map fst (g_nodes g)"
    by (simp add: graph_reloaded_def case_prod_unfold comp_def)
  moreover have "g_id (graph_reloaded g) \<noteq> []" "g_edges (graph_reloaded g) = g_edges g"
    using assms(2) by (simp_all add: graph_reloaded_def)
  ultimately show ?thesis
    using graph_from_to_doc [of g uid] graph_from_to_doc [of "graph_reloaded g" uid]
      wf wf' assms by (simp add: well_formed_def reloaded_validate)
qed

theorem graph_roundtrip_witness:
  "graph_from_doc ''u'' (graph_to_doc demo_graph) = Inr (graph_reloaded demo_graph)"
  using graph_roundtrip [OF demo_graph_valid, of "''u''"] demo_graph_fields(5) by simp

end
