(* ===== verification/Leases.thy ===== *)
theory Leases
  imports Prelude
begin

text \<open>
  Resource leases: \<open>agent_runtime/resource_lease.py\<close> on the lease tables of
  \<open>agent_runtime/persistence.py\<close>. The two tables are dictionaries under their primary
  key, in row order. Lease identifiers are drawn by \<open>uuid4\<close> in the code and are
  arguments here; so are the clock readings.
\<close>

section \<open>Tables\<close>

text \<open>A kind is a string; the code singles out \<open>advisory\<close>, every other kind has slots.\<close>

definition kind_exclusive :: str where "kind_exclusive = ''exclusive''"
definition kind_shared_slot :: str where "kind_shared_slot = ''shared_slot''"
definition kind_advisory :: str where "kind_advisory = ''advisory''"

record resource =
  rs_kind :: str
  rs_slots :: int
  rs_description :: str
  rs_team :: str

datatype lease_status = LeaseGranted | LeaseQueued | LeaseReleased | LeaseExpired

record lease =
  l_id :: str
  l_resource :: str
  l_task :: str
  l_owner_role :: str
  l_owner_agent :: str
  l_status :: lease_status
  l_position :: int
  l_ttl :: pyfloat
  l_granted_at :: pyfloat
  l_expires_at :: pyfloat
  l_released_at :: pyfloat
  l_reason :: str
  l_team :: str

record lease_db =
  db_resources :: "(str, resource) dict"
  db_leases :: "(str, lease) dict"

definition register_resource ::
    "str \<Rightarrow> str \<Rightarrow> int \<Rightarrow> str \<Rightarrow> str \<Rightarrow> lease_db \<Rightarrow> lease_db" where
  "register_resource rid kind slots desc team db =
     db\<lparr>db_resources := AList.update rid
          \<lparr>rs_kind = kind, rs_slots = slots, rs_description = desc, rs_team = team\<rparr>
          (db_resources db)\<rparr>"

definition unregister_resource :: "str \<Rightarrow> lease_db \<Rightarrow> bool \<times> lease_db" where
  "unregister_resource rid db =
     (map_of (db_resources db) rid \<noteq> None,
      db\<lparr>db_resources := AList.delete rid (db_resources db)\<rparr>)"

definition get_resource :: "str \<Rightarrow> lease_db \<Rightarrow> resource option" where
  "get_resource rid db = map_of (db_resources db) rid"

definition list_resources :: "str \<Rightarrow> lease_db \<Rightarrow> (str \<times> resource) list" where
  "list_resources team db =
     (if team \<noteq> [] then filter (\<lambda>(rid, r). rs_team r = team) (db_resources db)
      else db_resources db)"

text \<open>
  \<open>save_lease\<close>: an insert, or on a conflict of the primary key an update of the five
  columns that the statement names. The other columns of the stored row stay.
\<close>

definition upsert_row :: "lease \<Rightarrow> lease \<Rightarrow> lease" where
  "upsert_row old new = old\<lparr>l_status := l_status new, l_position := l_position new,
     l_expires_at := l_expires_at new, l_released_at := l_released_at new,
     l_reason := l_reason new\<rparr>"

definition save_lease :: "lease \<Rightarrow> lease_db \<Rightarrow> lease_db" where
  "save_lease l db =
     db\<lparr>db_leases := AList.update (l_id l)
          (case map_of (db_leases db) (l_id l) of None \<Rightarrow> l | Some old \<Rightarrow> upsert_row old l)
          (db_leases db)\<rparr>"

definition get_lease :: "str \<Rightarrow> lease_db \<Rightarrow> lease option" where
  "get_lease lid db = map_of (db_leases db) lid"

definition delete_lease :: "str \<Rightarrow> lease_db \<Rightarrow> bool \<times> lease_db" where
  "delete_lease lid db =
     (map_of (db_leases db) lid \<noteq> None, db\<lparr>db_leases := AList.delete lid (db_leases db)\<rparr>)"

text \<open>Optional filters, oldest grant first (rows of equal \<open>granted_at\<close> in table order).\<close>

definition list_leases :: "str \<Rightarrow> lease_status option \<Rightarrow> str \<Rightarrow> lease_db \<Rightarrow> lease list" where
  "list_leases rid st team db =
     sort_key l_granted_at
       (filter (\<lambda>l. (rid \<noteq> [] \<longrightarrow> l_resource l = rid)
                  \<and> (case st of None \<Rightarrow> True | Some s \<Rightarrow> l_status l = s)
                  \<and> (team \<noteq> [] \<longrightarrow> l_team l = team))
          (map snd (db_leases db)))"

definition count_active_leases :: "str \<Rightarrow> lease_db \<Rightarrow> int" where
  "count_active_leases rid db =
     int (length (filter (\<lambda>l. l_resource l = rid \<and> l_status l = LeaseGranted)
            (map snd (db_leases db))))"

definition queued_positions :: "str \<Rightarrow> lease_db \<Rightarrow> int list" where
  "queued_positions rid db =
     map l_position (filter (\<lambda>l. l_resource l = rid \<and> l_status l = LeaseQueued)
       (map snd (db_leases db)))"

definition max_queued_position :: "str \<Rightarrow> lease_db \<Rightarrow> int" where
  "max_queued_position rid db =
     (case queued_positions rid db of [] \<Rightarrow> 0 | p # ps \<Rightarrow> fold max ps p)"

definition list_expired_leases :: "pyfloat \<Rightarrow> lease_db \<Rightarrow> lease list" where
  "list_expired_leases now db =
     filter (\<lambda>l. l_status l = LeaseGranted \<and> 0 < l_expires_at l \<and> l_expires_at l \<le> now)
       (map snd (db_leases db))"

section \<open>The lease manager\<close>

record lease_manager =
  lm_store :: "lease_db option"
  lm_seeded :: bool

datatype lease_reply =
    LeaseGrantedReply str int pyfloat
  | LeaseQueuedReply str int
  | LeaseNoStore
  | LeaseUnknownResource str
  | LeaseNotFound
  | LeaseAlreadyTerminal lease_status
  | LeaseReleasedReply str str

definition default_resources :: "(str \<times> str \<times> int \<times> str) list" where
  "default_resources =
     [(''browser:douyin_profile'', kind_exclusive, 1, ''publisher/commenter Playwright session''),
      (''gpu:mlx'', kind_shared_slot, 2, ''script/tts/analyze LLM calls''),
      (''gpu:comfyui'', kind_shared_slot, 1, ''imager/voicer ComfyUI graph''),
      (''disk:out'', kind_advisory, 0, ''synthesis/ingress (capacity advisory only)'')]"

definition seed_default_resources :: "lease_manager \<Rightarrow> lease_manager" where
  "seed_default_resources m =
     (case lm_store m of
        None \<Rightarrow> m
      | Some db \<Rightarrow>
          if lm_seeded m then m
          else m\<lparr>lm_store := Some (fold (\<lambda>(rid, k, n, d). register_resource rid k n d ''default'')
                    default_resources db),
                 lm_seeded := True\<rparr>)"

definition lease_manager_init :: "lease_db option \<Rightarrow> lease_manager" where
  "lease_manager_init store =
     (let m = \<lparr>lm_store = store, lm_seeded = False\<rparr>
      in if store = None then m else seed_default_resources m)"

definition deadline :: "pyfloat \<Rightarrow> pyfloat \<Rightarrow> pyfloat" where
  "deadline now ttl = (if ttl > 0 then now + ttl else 0)"

text \<open>The arguments of \<open>lease_apply\<close>.\<close>

record lease_request =
  rq_resource :: str
  rq_task :: str
  rq_owner_role :: str
  rq_owner_agent :: str
  rq_ttl :: pyfloat
  rq_team :: str

definition new_lease ::
    "str \<Rightarrow> lease_request \<Rightarrow> lease_status \<Rightarrow> int \<Rightarrow> pyfloat \<Rightarrow> pyfloat \<Rightarrow> pyfloat \<Rightarrow> str \<Rightarrow> lease" where
  "new_lease lid rq st pos ttl now expires reason =
     \<lparr>l_id = lid, l_resource = rq_resource rq, l_task = rq_task rq,
      l_owner_role = rq_owner_role rq, l_owner_agent = rq_owner_agent rq,
      l_status = st, l_position = pos, l_ttl = ttl, l_granted_at = now,
      l_expires_at = expires, l_released_at = 0, l_reason = reason, l_team = rq_team rq\<rparr>"

definition apply_db ::
    "str \<Rightarrow> pyfloat \<Rightarrow> lease_request \<Rightarrow> lease_db \<Rightarrow> lease_reply \<times> lease_db" where
  "apply_db lid now rq db =
     (case get_resource (rq_resource rq) db of
        None \<Rightarrow> (LeaseUnknownResource (rq_resource rq), db)
      | Some r \<Rightarrow>
          if rs_kind r = kind_advisory then
            (LeaseGrantedReply lid 0 0,
             save_lease (new_lease lid rq LeaseGranted 0 0 now 0 []) db)
          else if count_active_leases (rq_resource rq) db < rs_slots r then
            (LeaseGrantedReply lid 0 (deadline now (rq_ttl rq)),
             save_lease (new_lease lid rq LeaseGranted 0 (rq_ttl rq) now
               (deadline now (rq_ttl rq)) []) db)
          else
            let pos = max_queued_position (rq_resource rq) db + 1
            in (LeaseQueuedReply lid pos,
                save_lease (new_lease lid rq LeaseQueued pos (rq_ttl rq) now 0
                  ''queued_wait_slot'') db))"

definition lease_apply ::
    "str \<Rightarrow> pyfloat \<Rightarrow> lease_request \<Rightarrow> lease_manager \<Rightarrow> lease_reply \<times> lease_manager" where
  "lease_apply lid now rq m =
     (case lm_store m of
        None \<Rightarrow> (LeaseNoStore, m)
      | Some db \<Rightarrow> (case apply_db lid now rq db of (r, db') \<Rightarrow> (r, m\<lparr>lm_store := Some db'\<rparr>)))"

text \<open>
  \<open>_promote_queued\<close>: among the queued leases of the resource in the given team, the one
  with the least position becomes granted.
\<close>

definition promote_queued ::
    "str \<Rightarrow> str \<Rightarrow> pyfloat \<Rightarrow> lease_db \<Rightarrow> lease option \<times> lease_db" where
  "promote_queued rid team now db =
     (case sort_key l_position (list_leases rid (Some LeaseQueued) team db) of
        [] \<Rightarrow> (None, db)
      | nxt # _ \<Rightarrow>
          let nxt' = nxt\<lparr>l_status := LeaseGranted, l_position := 0, l_granted_at := now,
                         l_expires_at := deadline now (l_ttl nxt), l_reason := []\<rparr>
          in (Some nxt', save_lease nxt' db))"

definition promoted_id :: "lease option \<Rightarrow> str" where
  "promoted_id p = (case p of None \<Rightarrow> [] | Some l \<Rightarrow> l_id l)"

definition release_db ::
    "str \<Rightarrow> str \<Rightarrow> pyfloat \<Rightarrow> pyfloat \<Rightarrow> lease_db \<Rightarrow> lease_reply \<times> lease_db" where
  "release_db lid reason now now' db =
     (case get_lease lid db of
        None \<Rightarrow> (LeaseNotFound, db)
      | Some l \<Rightarrow>
          if l_status l \<in> {LeaseReleased, LeaseExpired} then (LeaseAlreadyTerminal (l_status l), db)
          else
            let l' = l\<lparr>l_status := LeaseReleased, l_released_at := now, l_reason := reason\<rparr>;
                db' = save_lease l' db
            in if l_status l = LeaseGranted then
                 (case promote_queued (l_resource l) (l_team l) now' db' of
                    (p, db'') \<Rightarrow> (LeaseReleasedReply lid (promoted_id p), db''))
               else (LeaseReleasedReply lid [], db'))"

definition lease_release ::
    "str \<Rightarrow> str \<Rightarrow> pyfloat \<Rightarrow> pyfloat \<Rightarrow> lease_manager \<Rightarrow> lease_reply \<times> lease_manager" where
  "lease_release lid reason now now' m =
     (case lm_store m of
        None \<Rightarrow> (LeaseNoStore, m)
      | Some db \<Rightarrow> (case release_db lid reason now now' db of
                      (r, db') \<Rightarrow> (r, m\<lparr>lm_store := Some db'\<rparr>)))"

text \<open>
  \<open>expiry_sweep\<close>: the leases found expired at the start are closed one after the other,
  each followed by a promotion; \<open>clock i\<close> is the clock reading of the \<open>i\<close>-th promotion.
\<close>

definition expire_one :: "pyfloat \<Rightarrow> pyfloat \<Rightarrow> lease \<Rightarrow> lease_db \<Rightarrow> lease option \<times> lease_db" where
  "expire_one now t l db =
     promote_queued (l_resource l) (l_team l) t
       (save_lease (l\<lparr>l_status := LeaseExpired, l_released_at := now, l_reason := ''ttl_expired''\<rparr>) db)"

fun sweep_loop ::
    "pyfloat \<Rightarrow> (nat \<Rightarrow> pyfloat) \<Rightarrow> nat \<Rightarrow> lease list \<Rightarrow> lease_db \<Rightarrow> (str \<times> str) list \<times> lease_db" where
  "sweep_loop now clock i [] db = ([], db)"
| "sweep_loop now clock i (l # ls) db =
     (case expire_one now (clock i) l db of
        (p, db') \<Rightarrow> (case sweep_loop now clock (Suc i) ls db' of
                       (out, db'') \<Rightarrow> ((l_id l, promoted_id p) # out, db'')))"

definition sweep_db ::
    "pyfloat \<Rightarrow> (nat \<Rightarrow> pyfloat) \<Rightarrow> lease_db \<Rightarrow> (str \<times> str) list \<times> lease_db" where
  "sweep_db now clock db = sweep_loop now clock 0 (list_expired_leases now db) db"

definition expiry_sweep ::
    "pyfloat \<Rightarrow> (nat \<Rightarrow> pyfloat) \<Rightarrow> lease_manager \<Rightarrow> (str \<times> str) list \<times> lease_manager" where
  "expiry_sweep now clock m =
     (case lm_store m of
        None \<Rightarrow> ([], m)
      | Some db \<Rightarrow> (case sweep_db now clock db of (out, db') \<Rightarrow> (out, m\<lparr>lm_store := Some db'\<rparr>)))"

end
