(* ===== verification/LeaseSafety.thy ===== *)
theory LeaseSafety
  imports Leases
begin

text \<open>
  What the lease protocol guarantees: the slot limit of every resource in every
  reachable state, the order in which queued leases are promoted, and that no lease
  leaves a terminal status.
\<close>

section \<open>The invariant\<close>

abbreviation active_on :: "str \<Rightarrow> lease \<Rightarrow> bool" where
  "active_on rid l \<equiv> l_resource l = rid \<and> l_status l = LeaseGranted"

abbreviation queued_on :: "str \<Rightarrow> lease \<Rightarrow> bool" where
  "queued_on rid l \<equiv> l_resource l = rid \<and> l_status l = LeaseQueued"

definition table_ok :: "lease_db \<Rightarrow> bool" where
  "table_ok db \<longleftrightarrow> dict_ok (db_resources db) \<and> dict_ok (db_leases db)
     \<and> (\<forall>k l. map_of (db_leases db) k = Some l \<longrightarrow> l_id l = k \<and> l_resource l \<noteq> [])"

definition slots_ok :: "lease_db \<Rightarrow> bool" where
  "slots_ok db \<longleftrightarrow> (\<forall>rid r. map_of (db_resources db) rid = Some r \<longrightarrow> rs_kind r \<noteq> kind_advisory
     \<longrightarrow> count_active_leases rid db \<le> max 0 (rs_slots r))"

lemma count_active_vals: "count_active_leases rid db = int (count_vals (active_on rid) (db_leases db))"
  by (simp add: count_active_leases_def count_vals_def)

lemma in_leases_iff:
  "table_ok db \<Longrightarrow> l \<in> snd ` set (db_leases db) \<longleftrightarrow> map_of (db_leases db) (l_id l) = Some l"
  by (auto simp: table_ok_def in_vals_iff)

section \<open>Writes\<close>

lemma save_lease_new:
  "map_of (db_leases db) (l_id l) = None \<Longrightarrow>
   save_lease l db = db\<lparr>db_leases := AList.update (l_id l) l (db_leases db)\<rparr>"
  by (simp add: save_lease_def)

lemma save_lease_old:
  "map_of (db_leases db) (l_id l) = Some old \<Longrightarrow>
   save_lease l db = db\<lparr>db_leases := AList.update (l_id l) (upsert_row old l) (db_leases db)\<rparr>"
  by (simp add: save_lease_def)

lemma upsert_row_simps [simp]:
  "l_id (upsert_row old new) = l_id old"
  "l_resource (upsert_row old new) = l_resource old"
  "l_team (upsert_row old new) = l_team old"
  "l_granted_at (upsert_row old new) = l_granted_at old"
  "l_status (upsert_row old new) = l_status new"
  "l_position (upsert_row old new) = l_position new"
  "l_expires_at (upsert_row old new) = l_expires_at new"
  by (simp_all add: upsert_row_def)

lemma save_lease_resources [simp]: "db_resources (save_lease l db) = db_resources db"
  by (simp add: save_lease_def)

lemma count_active_save_new:
  "table_ok db \<Longrightarrow> map_of (db_leases db) (l_id l) = None \<Longrightarrow>
   count_active_leases rid (save_lease l db)
     = count_active_leases rid db + (if active_on rid l then 1 else 0)"
  using count_vals_update [of "db_leases db" "active_on rid" "l_id l" l]
  by (simp add: save_lease_new count_active_vals table_ok_def)

lemma count_active_save_old:
  assumes "table_ok db" and "map_of (db_leases db) (l_id l) = Some old"
  shows "count_active_leases rid (save_lease l db) + (if active_on rid old then 1 else 0)
     = count_active_leases rid db
       + (if l_resource old = rid \<and> l_status l = LeaseGranted then 1 else 0)"
proof -
  have "dict_ok (db_leases db)" using assms(1) by (simp add: table_ok_def)
  from count_vals_update [OF this, of "active_on rid" "l_id l" "upsert_row old l"] assms(2)
  show ?thesis by (auto simp: save_lease_old count_active_vals split: if_splits)
qed

lemma table_ok_save_new:
  "table_ok db \<Longrightarrow> map_of (db_leases db) (l_id l) = None \<Longrightarrow> l_resource l \<noteq> [] \<Longrightarrow>
   table_ok (save_lease l db)"
  by (simp add: save_lease_new table_ok_def)

lemma table_ok_save_old:
  "table_ok db \<Longrightarrow> map_of (db_leases db) (l_id l) = Some old \<Longrightarrow> table_ok (save_lease l db)"
  by (simp add: save_lease_old table_ok_def)

section \<open>Promotion\<close>

lemma list_leases_set:
  "set (list_leases rid (Some s) team db) =
    {l \<in> snd ` set (db_leases db). (rid \<noteq> [] \<longrightarrow> l_resource l = rid) \<and> l_status l = s
       \<and> (team \<noteq> [] \<longrightarrow> l_team l = team)}"
  by (auto simp: list_leases_def)

text \<open>The two outcomes of a promotion.\<close>

lemma promote_queued_cases [consumes 1, case_names none some]:
  assumes "table_ok db"
  obtains (none) "promote_queued rid team now db = (None, db)"
      "list_leases rid (Some LeaseQueued) team db = []"
    | (some) nxt nxt' where "promote_queued rid team now db = (Some nxt', save_lease nxt' db)"
      "map_of (db_leases db) (l_id nxt) = Some nxt" "l_status nxt = LeaseQueued"
      "rid \<noteq> [] \<longrightarrow> l_resource nxt = rid" "team \<noteq> [] \<longrightarrow> l_team nxt = team"
      "l_id nxt' = l_id nxt" "l_status nxt' = LeaseGranted"
      "nxt' = nxt\<lparr>l_status := LeaseGranted, l_position := 0, l_granted_at := now,
                 l_expires_at := deadline now (l_ttl nxt), l_reason := []\<rparr>"
      "\<forall>l \<in> set (list_leases rid (Some LeaseQueued) team db). l_position nxt \<le> l_position l"
proof (cases "list_leases rid (Some LeaseQueued) team db = []")
  case True
  then have "promote_queued rid team now db = (None, db)" by (simp add: promote_queued_def)
  with True that(1) show ?thesis by blast
next
  case False
  let ?q = "list_leases rid (Some LeaseQueued) team db"
  obtain nxt ys where q: "sort_key l_position ?q = nxt # ys"
    using False by (metis list.exhaust set_empty set_sort)
  have "nxt \<in> set ?q" using hd_sort_key_in [OF False, of l_position] q by simp
  moreover have "\<forall>l \<in> set ?q. l_position nxt \<le> l_position l"
    using hd_sort_key_min [of _ ?q l_position] q by simp
  ultimately show ?thesis
    using that(2) q assms by (simp add: promote_queued_def Let_def list_leases_set in_leases_iff)
qed

lemma promote_queued_count:
  assumes ok: "table_ok db" and "rid \<noteq> []" and p: "promote_queued rid team now db = (res, db')"
  shows "table_ok db' \<and> db_resources db' = db_resources db
    \<and> count_active_leases r db' = count_active_leases r db + (if res \<noteq> None \<and> r = rid then 1 else 0)"
  using ok
proof (cases rule: promote_queued_cases [where rid = rid and team = team and now = now])
  case none
  with p ok show ?thesis by simp
next
  case (some nxt nxt')
  have old: "map_of (db_leases db) (l_id nxt') = Some nxt" using some by simp
  from count_active_save_old [OF ok old, of r] table_ok_save_old [OF ok old] some assms(2) p
  show ?thesis by (auto split: if_splits)
qed

text \<open>A promotion leaves every lease that is not queued as it is.\<close>

lemma promote_queued_frame:
  assumes ok: "table_ok db" and p: "promote_queued rid team now db = (res, db')"
    and "map_of (db_leases db) k = Some l" and "l_status l \<noteq> LeaseQueued"
  shows "map_of (db_leases db') k = Some l"
  using ok
proof (cases rule: promote_queued_cases [where rid = rid and team = team and now = now])
  case none
  with p assms(3) show ?thesis by simp
next
  case (some nxt nxt')
  then have "k \<noteq> l_id nxt'" using assms(3,4) by auto
  with some p assms(3) show ?thesis by (simp add: save_lease_def)
qed

section \<open>Closing a granted lease passes its slot on\<close>

text \<open>
  Release and expiry share this step: a granted lease is saved with another status, then
  a queued one may be promoted. The number of active leases of no resource grows.
\<close>

lemma close_and_promote:
  assumes ok: "table_ok db" and l: "map_of (db_leases db) (l_id l) = Some l"
    and granted: "l_status l = LeaseGranted"
    and l': "l_id l' = l_id l" "l_status l' \<noteq> LeaseGranted"
    and p: "promote_queued (l_resource l) team now (save_lease l' db) = (res, db')"
  shows "table_ok db' \<and> db_resources db' = db_resources db
    \<and> count_active_leases r db' + (if r = l_resource l \<and> res = None then 1 else 0)
        = count_active_leases r db"
proof -
  have old: "map_of (db_leases db) (l_id l') = Some l" using l l'(1) by simp
  have ok': "table_ok (save_lease l' db)" by (rule table_ok_save_old [OF ok old])
  have "l_resource l \<noteq> []" using ok l by (simp add: table_ok_def)
  from promote_queued_count [OF ok' this p, of r] count_active_save_old [OF ok old, of r]
    granted l'(2) show ?thesis by (auto split: if_splits)
qed

lemma slots_ok_mono:
  "slots_ok db \<Longrightarrow> db_resources db' = db_resources db \<Longrightarrow>
   (\<And>r. count_active_leases r db' \<le> count_active_leases r db) \<Longrightarrow> slots_ok db'"
  unfolding slots_ok_def by (metis order_trans)

text \<open>What an application stores: a granted lease only below the slot limit.\<close>

lemma apply_db_saves:
  assumes "get_resource (rq_resource rq) db = Some r"
  obtains l where "snd (apply_db lid now rq db) = save_lease l db" "l_id l = lid"
    "l_resource l = rq_resource rq"
    "l_status l = LeaseGranted \<Longrightarrow> rs_kind r \<noteq> kind_advisory \<Longrightarrow>
       count_active_leases (rq_resource rq) db < rs_slots r"
proof (cases "rs_kind r = kind_advisory")
  case True
  with assms that [of "new_lease lid rq LeaseGranted 0 0 now 0 []"] show ?thesis
    by (simp add: apply_db_def new_lease_def)
next
  case False
  show ?thesis
  proof (cases "count_active_leases (rq_resource rq) db < rs_slots r")
    case True
    with False assms that [of "new_lease lid rq LeaseGranted 0 (rq_ttl rq) now (deadline now (rq_ttl rq)) []"]
    show ?thesis by (simp add: apply_db_def new_lease_def)
  next
    case le: False
    with False assms that [of "new_lease lid rq LeaseQueued (max_queued_position (rq_resource rq) db + 1)
      (rq_ttl rq) now 0 ''queued_wait_slot''"]
    show ?thesis by (simp add: apply_db_def new_lease_def Let_def)
  qed
qed

section \<open>Every operation keeps the invariant\<close>

lemma apply_db_inv:
  assumes ok: "table_ok db" and s: "slots_ok db"
    and fresh: "map_of (db_leases db) lid = None" and "rq_resource rq \<noteq> []"
  shows "table_ok (snd (apply_db lid now rq db)) \<and> slots_ok (snd (apply_db lid now rq db))"
proof (cases "get_resource (rq_resource rq) db")
  case None
  with ok s show ?thesis by (simp add: apply_db_def)
next
  case (Some r)
  obtain l where l: "snd (apply_db lid now rq db) = save_lease l db" "l_id l = lid"
      "l_resource l = rq_resource rq"
    and g: "l_status l = LeaseGranted \<Longrightarrow> rs_kind r \<noteq> kind_advisory \<Longrightarrow>
      count_active_leases (rq_resource rq) db < rs_slots r"
    using apply_db_saves [OF Some] by metis
  have fr: "map_of (db_leases db) (l_id l) = None" using fresh l(2) by simp
  note count = count_active_save_new [OF ok fr]
  have "count_active_leases rid (save_lease l db) \<le> max 0 (rs_slots q)"
    if q: "map_of (db_resources db) rid = Some q" "rs_kind q \<noteq> kind_advisory" for rid q
  proof (cases "active_on rid l")
    case True
    with q Some l(3) have "q = r" "rid = rq_resource rq" by (simp_all add: get_resource_def)
    with True g q(2) count [of rid] show ?thesis by simp
  next
    case False
    with count [of rid] s q show ?thesis by (auto simp: slots_ok_def)
  qed
  then have "slots_ok (save_lease l db)" by (simp add: slots_ok_def)
  with table_ok_save_new [OF ok fr] l(1,3) assms(4) show ?thesis by simp
qed

lemma release_db_inv:
  assumes ok: "table_ok db" and s: "slots_ok db"
  shows "table_ok (snd (release_db lid reason now now' db))
    \<and> slots_ok (snd (release_db lid reason now now' db))"
proof (cases "get_lease lid db")
  case None
  with ok s show ?thesis by (simp add: release_db_def)
next
  case (Some l)
  then have l: "map_of (db_leases db) (l_id l) = Some l" and lid: "l_id l = lid"
    using ok by (simp_all add: get_lease_def table_ok_def)
  let ?l' = "l\<lparr>l_status := LeaseReleased, l_released_at := now, l_reason := reason\<rparr>"
  show ?thesis
  proof (cases "l_status l")
    case LeaseGranted
    obtain res db' where p: "promote_queued (l_resource l) (l_team l) now' (save_lease ?l' db) = (res, db')"
      by fastforce
    have c: "table_ok db' \<and> db_resources db' = db_resources db
        \<and> count_active_leases r db' + (if r = l_resource l \<and> res = None then 1 else 0)
          = count_active_leases r db" for r
      by (rule close_and_promote [OF ok l LeaseGranted _ _ p]) simp_all
    have "count_active_leases r db' \<le> count_active_leases r db" for r
      using c [of r] by (simp split: if_splits)
    with c s have "table_ok db'" "slots_ok db'" by (auto intro: slots_ok_mono)
    then show ?thesis using Some LeaseGranted p by (simp add: release_db_def Let_def)
  next
    case LeaseQueued
    have old: "map_of (db_leases db) (l_id ?l') = Some l" using l by simp
    have "count_active_leases r (save_lease ?l' db) \<le> count_active_leases r db" for r
      using count_active_save_old [OF ok old, of r] LeaseQueued by simp
    with s have "slots_ok (save_lease ?l' db)" by (auto intro: slots_ok_mono)
    with table_ok_save_old [OF ok old] Some LeaseQueued show ?thesis
      by (simp add: release_db_def Let_def)
  qed (use ok s Some in \<open>simp_all add: release_db_def\<close>)
qed

lemma sweep_loop_inv:
  assumes "table_ok db" and "slots_ok db" and "distinct (map l_id ls)"
    and "\<And>l. l \<in> set ls \<Longrightarrow> map_of (db_leases db) (l_id l) = Some l \<and> l_status l = LeaseGranted"
  shows "table_ok (snd (sweep_loop now clock i ls db)) \<and> slots_ok (snd (sweep_loop now clock i ls db))"
  using assms
proof (induction ls arbitrary: i db)
  case Nil
  then show ?case by simp
next
  case (Cons l ls)
  let ?l' = "l\<lparr>l_status := LeaseExpired, l_released_at := now, l_reason := ''ttl_expired''\<rparr>"
  have l: "map_of (db_leases db) (l_id l) = Some l" "l_status l = LeaseGranted"
    using Cons.prems(4) [of l] by simp_all
  obtain res db' where p: "promote_queued (l_resource l) (l_team l) (clock i) (save_lease ?l' db) = (res, db')"
    by fastforce
  have e: "expire_one now (clock i) l db = (res, db')" using p by (simp add: expire_one_def)
  have c: "table_ok db' \<and> db_resources db' = db_resources db
      \<and> count_active_leases r db' + (if r = l_resource l \<and> res = None then 1 else 0)
        = count_active_leases r db" for r
    by (rule close_and_promote [OF Cons.prems(1) l _ _ p]) simp_all
  have "count_active_leases r db' \<le> count_active_leases r db" for r
    using c [of r] by (simp split: if_splits)
  with c Cons.prems(2) have inv: "table_ok db'" "slots_ok db'" by (auto intro: slots_ok_mono)
  have ok': "table_ok (save_lease ?l' db)" using table_ok_save_old [OF Cons.prems(1), of ?l'] l by simp
  have rest: "map_of (db_leases db') (l_id m) = Some m \<and> l_status m = LeaseGranted"
    if m: "m \<in> set ls" for m
  proof -
    have "l_id l \<notin> l_id ` set ls" using Cons.prems(3) by simp
    with m have "l_id m \<noteq> l_id l" by (metis imageI)
    then have "map_of (db_leases (save_lease ?l' db)) (l_id m) = Some m" "l_status m = LeaseGranted"
      using Cons.prems(4) [of m] m by (simp_all add: save_lease_def)
    then show ?thesis using promote_queued_frame [OF ok' p] by simp
  qed
  from Cons.IH [OF inv _ rest, of "Suc i"] Cons.prems(3) e show ?case
    by (cases "sweep_loop now clock (Suc i) ls db'") simp
qed

lemma expired_distinct:
  assumes "table_ok db"
  shows "distinct (map l_id (list_expired_leases now db))"
proof -
  have "l_id (snd p) = fst p" if "p \<in> set (db_leases db)" for p
    using that assms unfolding table_ok_def by (metis dict_mem_iff prod.collapse)
  then have "map l_id (map snd (db_leases db)) = map fst (db_leases db)"
    by simp
  moreover have "distinct (map fst (db_leases db))"
    using assms by (simp add: table_ok_def dict_ok_def)
  ultimately have "distinct (map l_id (map snd (db_leases db)))" by (simp only:)
  then show ?thesis unfolding list_expired_leases_def by (rule distinct_map_filter)
qed

lemma sweep_db_inv:
  assumes "table_ok db" and "slots_ok db"
  shows "table_ok (snd (sweep_db now clock db)) \<and> slots_ok (snd (sweep_db now clock db))"
  unfolding sweep_db_def
proof (rule sweep_loop_inv [OF assms expired_distinct [OF assms(1)]])
  fix l
  assume "l \<in> set (list_expired_leases now db)"
  then show "map_of (db_leases db) (l_id l) = Some l \<and> l_status l = LeaseGranted"
    using in_leases_iff [OF assms(1), of l] by (auto simp: list_expired_leases_def)
qed

section \<open>Steps and reachable states\<close>

text \<open>
  The operations of the manager on a store, in any order and with any clock readings.
  An application draws a lease identifier that is not in the table (\<open>uuid4\<close>).
\<close>

inductive lease_step :: "lease_db \<Rightarrow> lease_db \<Rightarrow> bool" where
  step_apply: "map_of (db_leases db) lid = None \<Longrightarrow> rq_resource rq \<noteq> [] \<Longrightarrow>
     lease_step db (snd (apply_db lid now rq db))"
| step_release: "lease_step db (snd (release_db lid reason now now' db))"
| step_sweep: "lease_step db (snd (sweep_db now clock db))"

inductive lease_reachable :: "lease_db \<Rightarrow> lease_db \<Rightarrow> bool" for db0 where
  reach_refl: "lease_reachable db0 db0"
| reach_step: "lease_reachable db0 db \<Longrightarrow> lease_step db db' \<Longrightarrow> lease_reachable db0 db'"

lemma lease_step_inv: "lease_step db db' \<Longrightarrow> table_ok db \<Longrightarrow> slots_ok db \<Longrightarrow> table_ok db' \<and> slots_ok db'"
  by (induction rule: lease_step.induct)
     (blast dest: apply_db_inv release_db_inv sweep_db_inv)+

lemma lease_reachable_inv:
  "lease_reachable db0 db \<Longrightarrow> table_ok db0 \<Longrightarrow> slots_ok db0 \<Longrightarrow> table_ok db \<and> slots_ok db"
  by (induction rule: lease_reachable.induct) (auto dest: lease_step_inv)

section \<open>Terminal leases\<close>

abbreviation terminal :: "lease \<Rightarrow> bool" where
  "terminal l \<equiv> l_status l = LeaseReleased \<or> l_status l = LeaseExpired"

lemma apply_db_frame:
  assumes "map_of (db_leases db) lid = None" and "map_of (db_leases db) k = Some l"
  shows "map_of (db_leases (snd (apply_db lid now rq db))) k = Some l"
proof (cases "get_resource (rq_resource rq) db")
  case None
  with assms show ?thesis by (simp add: apply_db_def)
next
  case (Some r)
  obtain m where "snd (apply_db lid now rq db) = save_lease m db" "l_id m = lid"
    using apply_db_saves [OF Some] by metis
  with assms show ?thesis by (auto simp: save_lease_def)
qed

lemma expire_one_frame:
  assumes ok: "table_ok db" and k: "map_of (db_leases db) k = Some m" "terminal m"
    and l: "map_of (db_leases db) (l_id l) = Some l" "l_status l = LeaseGranted"
    and e: "expire_one now t l db = (res, db')"
  shows "table_ok db' \<and> map_of (db_leases db') k = Some m"
proof -
  let ?l' = "l\<lparr>l_status := LeaseExpired, l_released_at := now, l_reason := ''ttl_expired''\<rparr>"
  have p: "promote_queued (l_resource l) (l_team l) t (save_lease ?l' db) = (res, db')"
    using e by (simp add: expire_one_def)
  have ok': "table_ok (save_lease ?l' db)" using table_ok_save_old [OF ok, of ?l'] l by simp
  have "k \<noteq> l_id l" using k l by auto
  then have "map_of (db_leases (save_lease ?l' db)) k = Some m" using k(1) by (simp add: save_lease_def)
  moreover have "l_resource l \<noteq> []" using ok l(1) by (simp add: table_ok_def)
  ultimately show ?thesis
    using promote_queued_frame [OF ok' p] promote_queued_count [OF ok' _ p] k(2) by auto
qed

text \<open>The leases that a sweep has still to close are untouched by the steps before.\<close>

lemma expire_one_rest:
  assumes ok: "table_ok db" and l: "map_of (db_leases db) (l_id l) = Some l"
    and e: "expire_one now t l db = (res, db')"
    and m: "map_of (db_leases db) (l_id m) = Some m" "l_status m = LeaseGranted" "l_id m \<noteq> l_id l"
  shows "map_of (db_leases db') (l_id m) = Some m"
proof -
  let ?l' = "l\<lparr>l_status := LeaseExpired, l_released_at := now, l_reason := ''ttl_expired''\<rparr>"
  have p: "promote_queued (l_resource l) (l_team l) t (save_lease ?l' db) = (res, db')"
    using e by (simp add: expire_one_def)
  have ok': "table_ok (save_lease ?l' db)" using table_ok_save_old [OF ok, of ?l'] l by simp
  have "map_of (db_leases (save_lease ?l' db)) (l_id m) = Some m" using m by (simp add: save_lease_def)
  from promote_queued_frame [OF ok' p this] m(2) show ?thesis by simp
qed

lemma sweep_loop_frame:
  assumes "table_ok db" and "distinct (map l_id ls)"
    and "\<And>l. l \<in> set ls \<Longrightarrow> map_of (db_leases db) (l_id l) = Some l \<and> l_status l = LeaseGranted"
    and "map_of (db_leases db) k = Some m" and "terminal m"
  shows "map_of (db_leases (snd (sweep_loop now clock i ls db))) k = Some m"
  using assms(1-4)
proof (induction ls arbitrary: i db)
  case Nil
  then show ?case by simp
next
  case (Cons l ls)
  obtain res db' where e: "expire_one now (clock i) l db = (res, db')" by fastforce
  have l: "map_of (db_leases db) (l_id l) = Some l" "l_status l = LeaseGranted"
    using Cons.prems(3) [of l] by simp_all
  note f = expire_one_frame [OF Cons.prems(1,4) assms(5) l e]
  have rest: "map_of (db_leases db') (l_id n) = Some n \<and> l_status n = LeaseGranted"
    if n: "n \<in> set ls" for n
  proof -
    have "l_id l \<notin> l_id ` set ls" using Cons.prems(2) by simp
    with n have "l_id n \<noteq> l_id l" by (metis imageI)
    with Cons.prems(3) [of n] n expire_one_rest [OF Cons.prems(1) l(1) e] show ?thesis by simp
  qed
  have "distinct (map l_id ls)" using Cons.prems(2) by simp
  from Cons.IH [OF _ this rest, of "Suc i"] f e show ?case
    by (cases "sweep_loop now clock (Suc i) ls db'") simp
qed

lemma release_db_frame:
  assumes ok: "table_ok db" and k: "map_of (db_leases db) k = Some m" "terminal m"
  shows "map_of (db_leases (snd (release_db lid reason now now' db))) k = Some m"
proof (cases "get_lease lid db")
  case None
  with k show ?thesis by (simp add: release_db_def)
next
  case (Some l)
  then have l: "map_of (db_leases db) (l_id l) = Some l"
    using ok by (simp add: get_lease_def table_ok_def)
  let ?l' = "l\<lparr>l_status := LeaseReleased, l_released_at := now, l_reason := reason\<rparr>"
  show ?thesis
  proof (cases "terminal l")
    case True
    with Some k show ?thesis by (auto simp: release_db_def)
  next
    case False
    then have "k \<noteq> l_id l" using k l by auto
    then have s: "map_of (db_leases (save_lease ?l' db)) k = Some m"
      using k(1) by (simp add: save_lease_def)
    have ok': "table_ok (save_lease ?l' db)" using table_ok_save_old [OF ok, of ?l'] l by simp
    obtain res db' where p:
      "promote_queued (l_resource l) (l_team l) now' (save_lease ?l' db) = (res, db')" by fastforce
    from promote_queued_frame [OF ok' p s] k(2) have "map_of (db_leases db') k = Some m" by auto
    with s p Some False show ?thesis by (simp add: release_db_def Let_def)
  qed
qed

lemma expired_granted:
  "table_ok db \<Longrightarrow> l \<in> set (list_expired_leases now db) \<Longrightarrow>
   map_of (db_leases db) (l_id l) = Some l \<and> l_status l = LeaseGranted"
  using in_leases_iff [of db l] by (auto simp: list_expired_leases_def)

lemma lease_step_terminal:
  "lease_step db db' \<Longrightarrow> table_ok db \<Longrightarrow> map_of (db_leases db) k = Some m \<Longrightarrow> terminal m \<Longrightarrow>
   map_of (db_leases db') k = Some m"
proof (induction rule: lease_step.induct)
  case (step_apply db lid rq now)
  then show ?case by (blast intro: apply_db_frame)
next
  case (step_release db lid reason now now')
  then show ?case by (blast intro: release_db_frame)
next
  case (step_sweep db now clock)
  then show ?case unfolding sweep_db_def
    by (intro sweep_loop_frame expired_distinct expired_granted) auto
qed

end
