(* ===== verification/LeaseQueue.thy ===== *)
theory LeaseQueue
  imports LeaseSafety
begin

text \<open>
  The waiting queue of a resource, and the properties of the lease protocol: slot
  limit, queue order, hand-over of a released slot, finality of terminal leases, and
  what happens to a queue that belongs to another team.
\<close>

section \<open>The queue\<close>

definition lease_queue :: "str \<Rightarrow> str \<Rightarrow> lease_db \<Rightarrow> lease list" where
  "lease_queue rid team db = sort_key l_position (list_leases rid (Some LeaseQueued) team db)"

lemma filter_vals_update:
  "map_of d k = Some w \<Longrightarrow> \<not> P w \<Longrightarrow> \<not> P v \<Longrightarrow>
   filter P (map snd (AList.update k v d)) = filter P (map snd d)"
  by (induction d) auto

lemma lease_queue_save_other:
  "map_of (db_leases db) (l_id l) = Some old \<Longrightarrow> l_status old \<noteq> LeaseQueued \<Longrightarrow>
   l_status l \<noteq> LeaseQueued \<Longrightarrow> lease_queue rid team (save_lease l db) = lease_queue rid team db"
  by (simp add: lease_queue_def list_leases_def save_lease_old filter_vals_update)

lemma lease_queue_set:
  "set (lease_queue rid team db) = {l \<in> snd ` set (db_leases db). (rid \<noteq> [] \<longrightarrow> l_resource l = rid)
     \<and> l_status l = LeaseQueued \<and> (team \<noteq> [] \<longrightarrow> l_team l = team)}"
  by (simp add: lease_queue_def list_leases_set)

lemma max_queued_position_ge:
  "l \<in> snd ` set (db_leases db) \<Longrightarrow> queued_on rid l \<Longrightarrow> l_position l \<le> max_queued_position rid db"
proof -
  assume "l \<in> snd ` set (db_leases db)" "queued_on rid l"
  then have "l_position l \<in> set (queued_positions rid db)" by (auto simp: queued_positions_def)
  then obtain p ps where "queued_positions rid db = p # ps" "l_position l \<in> set (p # ps)"
    by (cases "queued_positions rid db") auto
  with fold_max_ge [of p ps] show ?thesis by (auto simp: max_queued_position_def)
qed

text \<open>A promotion takes the head of the queue.\<close>

lemma promote_queued_head:
  assumes ok: "table_ok db"
  shows "promote_queued rid team now db =
    (case lease_queue rid team db of
       [] \<Rightarrow> (None, db)
     | h # _ \<Rightarrow> (Some (h\<lparr>l_status := LeaseGranted, l_position := 0, l_granted_at := now,
                       l_expires_at := deadline now (l_ttl h), l_reason := []\<rparr>),
                db\<lparr>db_leases := AList.update (l_id h)
                    (h\<lparr>l_status := LeaseGranted, l_position := 0,
                       l_expires_at := deadline now (l_ttl h), l_reason := []\<rparr>) (db_leases db)\<rparr>))"
proof (cases "lease_queue rid team db")
  case Nil
  then show ?thesis by (simp add: promote_queued_def lease_queue_def)
next
  case (Cons h hs)
  then have "h \<in> snd ` set (db_leases db)" using lease_queue_set [of rid team db] by auto
  then have "map_of (db_leases db) (l_id h) = Some h" using in_leases_iff [OF ok] by blast
  with Cons show ?thesis
    by (simp add: promote_queued_def lease_queue_def Let_def save_lease_def upsert_row_def)
qed

text \<open>A release of a granted lease, in terms of the queue of its resource in its team.\<close>

lemma release_granted:
  assumes ok: "table_ok db" and l: "map_of (db_leases db) lid = Some l" "l_status l = LeaseGranted"
  shows "release_db lid reason now now' db =
    (let db1 = db\<lparr>db_leases := AList.update lid
          (l\<lparr>l_status := LeaseReleased, l_released_at := now, l_reason := reason\<rparr>) (db_leases db)\<rparr>
     in case lease_queue (l_resource l) (l_team l) db of
       [] \<Rightarrow> (LeaseReleasedReply lid [], db1)
     | h # _ \<Rightarrow> (LeaseReleasedReply lid (l_id h),
          db1\<lparr>db_leases := AList.update (l_id h)
            (h\<lparr>l_status := LeaseGranted, l_position := 0,
               l_expires_at := deadline now' (l_ttl h), l_reason := []\<rparr>) (db_leases db1)\<rparr>))"
proof -
  let ?l' = "l\<lparr>l_status := LeaseReleased, l_released_at := now, l_reason := reason\<rparr>"
  have lid: "l_id l = lid" using ok l(1) by (simp add: table_ok_def)
  then have old: "map_of (db_leases db) (l_id ?l') = Some l" using l(1) by simp
  have s: "save_lease ?l' db = db\<lparr>db_leases := AList.update lid ?l' (db_leases db)\<rparr>"
    using lid l(1) by (simp add: save_lease_def upsert_row_def)
  have q: "lease_queue (l_resource l) (l_team l) (save_lease ?l' db)
      = lease_queue (l_resource l) (l_team l) db"
    by (rule lease_queue_save_other [OF old]) (simp_all add: l(2))
  note p = promote_queued_head [OF table_ok_save_old [OF ok old], of "l_resource l" "l_team l" now']
  from l p q show ?thesis
    by (simp add: release_db_def get_lease_def s Let_def promoted_id_def split: list.split)
qed

section \<open>Properties\<close>

text \<open>
  C8: slot safety. From a well-formed store in which every slot limit holds, whatever
  sequence of applications, releases and expiry sweeps runs, a resource that is not
  advisory never has more granted leases than slots.
\<close>

theorem slots_respected:
  assumes "table_ok db0" and "slots_ok db0" and "lease_reachable db0 db"
    and "get_resource rid db = Some r" and "rs_kind r \<noteq> kind_advisory"
  shows "count_active_leases rid db \<le> max 0 (rs_slots r)"
  using lease_reachable_inv [OF assms(3,1,2)] assms(4,5) by (simp add: slots_ok_def get_resource_def)

definition demo_db :: lease_db where
  "demo_db = register_resource ''b'' kind_exclusive 1 [] ''a'' \<lparr>db_resources = [], db_leases = []\<rparr>"

definition demo_request :: "str \<Rightarrow> lease_request" where
  "demo_request team = \<lparr>rq_resource = ''b'', rq_task = ''t'', rq_owner_role = [], rq_owner_agent = [],
     rq_ttl = 60, rq_team = team\<rparr>"

definition demo_db1 :: lease_db where
  "demo_db1 = snd (apply_db ''l1'' 10 (demo_request ''a'') demo_db)"

definition demo_db2 :: "str \<Rightarrow> lease_db" where
  "demo_db2 team = snd (apply_db ''l2'' 11 (demo_request team) demo_db1)"

lemmas demo_defs = demo_db_def demo_request_def demo_db1_def demo_db2_def apply_db_def
  get_resource_def register_resource_def count_active_leases_def save_lease_def new_lease_def
  deadline_def max_queued_position_def queued_positions_def kind_exclusive_def kind_advisory_def

lemma demo_ok: "table_ok demo_db" "slots_ok demo_db"
  by (simp_all add: table_ok_def slots_ok_def demo_defs dict_ok_def)

lemma demo_reachable: "lease_reachable demo_db demo_db1" "lease_reachable demo_db (demo_db2 team)"
proof -
  have "lease_step demo_db demo_db1"
    unfolding demo_db1_def by (rule step_apply) (simp_all add: demo_defs)
  then show r: "lease_reachable demo_db demo_db1" by (rule reach_step [OF reach_refl])
  have "lease_step demo_db1 (demo_db2 team)"
    unfolding demo_db2_def by (rule step_apply) (simp_all add: demo_defs)
  then show "lease_reachable demo_db (demo_db2 team)" by (rule reach_step [OF r])
qed

theorem slots_respected_witness:
  "count_active_leases ''b'' (demo_db2 ''a'') = 1
   \<and> count_active_leases ''b'' (demo_db2 ''a'') \<le> max 0 (rs_slots
       \<lparr>rs_kind = kind_exclusive, rs_slots = 1, rs_description = [], rs_team = ''a''\<rparr>)"
proof
  show "count_active_leases ''b'' (demo_db2 ''a'') = 1" by (simp add: demo_defs)
  show "count_active_leases ''b'' (demo_db2 ''a'') \<le> max 0 (rs_slots
       \<lparr>rs_kind = kind_exclusive, rs_slots = 1, rs_description = [], rs_team = ''a''\<rparr>)"
    by (rule slots_respected [OF demo_ok demo_reachable(2)]) (simp_all add: demo_defs)
qed

text \<open>
  C35: hand-over. Releasing a granted lease closes it and gives its slot to the head of
  the queue of its resource in its team, the waiting lease with the least position; with
  an empty queue the slot becomes free. The promoted lease gets its deadline from the
  time of promotion, but its stored \<open>granted_at\<close> stays the time of the application,
  because the upsert does not write that column. No other lease changes.
\<close>

theorem release_hands_over:
  assumes "table_ok db" and "map_of (db_leases db) lid = Some l" and "l_status l = LeaseGranted"
    and "lease_queue (l_resource l) (l_team l) db = q"
    and "release_db lid reason now now' db = (reply, db')"
  shows "reply = LeaseReleasedReply lid (case q of [] \<Rightarrow> [] | h # _ \<Rightarrow> l_id h)
    \<and> map_option l_status (map_of (db_leases db') lid) = Some LeaseReleased
    \<and> (\<forall>h. first_opt q = Some h \<longrightarrow> map_of (db_leases db') (l_id h) =
         Some (h\<lparr>l_status := LeaseGranted, l_position := 0,
                 l_expires_at := deadline now' (l_ttl h), l_reason := []\<rparr>)
         \<and> (\<forall>w \<in> set q. l_position h \<le> l_position w))
    \<and> (\<forall>k. k \<noteq> lid \<and> k \<notin> l_id ` set (take 1 q) \<longrightarrow>
         map_of (db_leases db') k = map_of (db_leases db) k)
    \<and> count_active_leases (l_resource l) db'
        = count_active_leases (l_resource l) db - (if q = [] then 1 else 0)"
proof -
  have lid: "l_id l = lid" using assms(1,2) by (simp add: table_ok_def)
  have head: "map_of (db_leases db) (l_id h) = Some h \<and> l_status h = LeaseQueued
      \<and> l_id h \<noteq> lid \<and> (\<forall>w \<in> set q. l_position h \<le> l_position w)" if "q = h # hs" for h hs
  proof -
    have "h \<in> set (lease_queue (l_resource l) (l_team l) db)" using that assms(4) by simp
    then have h: "map_of (db_leases db) (l_id h) = Some h" "l_status h = LeaseQueued"
      using in_leases_iff [OF assms(1), of h] by (auto simp: lease_queue_set)
    moreover have "l_id h \<noteq> lid" using h assms(2,3) by auto
    moreover have "sorted (map l_position q)" using assms(4) by (auto simp: lease_queue_def)
    ultimately show ?thesis using that by auto
  qed
  have count: "count_active_leases (l_resource l) db'
      = count_active_leases (l_resource l) db - (if q = [] then 1 else 0)"
  proof -
    let ?l' = "l\<lparr>l_status := LeaseReleased, l_released_at := now, l_reason := reason\<rparr>"
    obtain res db1 where p:
      "promote_queued (l_resource l) (l_team l) now' (save_lease ?l' db) = (res, db1)" by fastforce
    have old: "map_of (db_leases db) (l_id ?l') = Some l" using assms(2) lid by simp
    have "lease_queue (l_resource l) (l_team l) (save_lease ?l' db) = q"
      using lease_queue_save_other [OF old] assms(3,4) by simp
    then have "res = None \<longleftrightarrow> q = []"
      using p promote_queued_head [OF table_ok_save_old [OF assms(1) old], of "l_resource l" "l_team l" now']
      by (auto split: list.splits)
    moreover have "db' = db1"
      using p assms(2,3,5) by (simp add: release_db_def get_lease_def Let_def)
    moreover have "count_active_leases (l_resource l) db1 + (if l_resource l = l_resource l \<and> res = None then 1 else 0)
        = count_active_leases (l_resource l) db"
      using close_and_promote [OF assms(1) _ assms(3) _ _ p, of "l_resource l"] assms(2) lid by simp
    ultimately show ?thesis by auto
  qed
  show ?thesis
  proof (cases q)
    case Nil
    with release_granted [OF assms(1-3), of reason now now'] assms(4,5) count show ?thesis
      by (auto simp: Let_def)
  next
    case (Cons h hs)
    with release_granted [OF assms(1-3), of reason now now'] assms(4,5) count head [OF Cons]
    show ?thesis by (auto simp: Let_def)
  qed
qed

theorem release_hands_over_witness:
  "fst (release_db ''l1'' ''done'' 20 21 (demo_db2 ''a'')) = LeaseReleasedReply ''l1'' ''l2''
   \<and> map_option l_status (map_of (db_leases (snd (release_db ''l1'' ''done'' 20 21 (demo_db2 ''a'')))) ''l1'')
       = Some LeaseReleased"
proof -
  let ?db = "demo_db2 ''a''"
  obtain l where l: "map_of (db_leases ?db) ''l1'' = Some l" "l_status l = LeaseGranted"
      "l_resource l = ''b''" "l_team l = ''a''"
    by (simp add: demo_defs)
  obtain h where q: "lease_queue ''b'' ''a'' ?db = [h]" "l_id h = ''l2''"
    by (simp add: lease_queue_def list_leases_def demo_defs)
  have ok: "table_ok ?db" using lease_reachable_inv [OF demo_reachable(2) demo_ok] by simp
  have queue: "lease_queue (l_resource l) (l_team l) ?db = [h]" using q(1) l(3,4) by simp
  show ?thesis
    using release_hands_over [OF ok l(1,2) queue prod.collapse [symmetric], of "''done''" 20 21] q(2)
    by simp
qed

text \<open>
  queue order. An application for a resource whose slots are all taken is queued
  behind everyone who already waits for that resource, and an application is granted at
  once exactly when a slot is free.
\<close>

theorem apply_queues_behind:
  assumes "get_resource (rq_resource rq) db = Some r" and "rs_kind r \<noteq> kind_advisory"
  shows "(if count_active_leases (rq_resource rq) db < rs_slots r
          then fst (apply_db lid now rq db) = LeaseGrantedReply lid 0 (deadline now (rq_ttl rq))
          else \<exists>pos. fst (apply_db lid now rq db) = LeaseQueuedReply lid pos
            \<and> list_all (\<lambda>l. queued_on (rq_resource rq) l \<longrightarrow> l_position l < pos)
                (map snd (db_leases db)))"
proof (cases "count_active_leases (rq_resource rq) db < rs_slots r")
  case True
  with assms show ?thesis by (simp add: apply_db_def)
next
  case False
  have "l_position l < max_queued_position (rq_resource rq) db + 1"
    if "l \<in> snd ` set (db_leases db)" "queued_on (rq_resource rq) l" for l
    using max_queued_position_ge [OF that] by simp
  then have "list_all (\<lambda>l. queued_on (rq_resource rq) l \<longrightarrow>
      l_position l < max_queued_position (rq_resource rq) db + 1) (map snd (db_leases db))"
    by (simp add: list_all_iff)
  with False assms show ?thesis by (simp add: apply_db_def Let_def)
qed

theorem apply_queues_behind_witness:
  "\<exists>pos. fst (apply_db ''l3'' 12 (demo_request ''a'') (demo_db2 ''a'')) = LeaseQueuedReply ''l3'' pos
     \<and> list_all (\<lambda>l. queued_on ''b'' l \<longrightarrow> l_position l < pos) (map snd (db_leases (demo_db2 ''a'')))"
proof -
  let ?r = "\<lparr>rs_kind = kind_exclusive, rs_slots = 1, rs_description = [], rs_team = ''a''\<rparr>"
  have "get_resource (rq_resource (demo_request ''a'')) (demo_db2 ''a'') = Some ?r"
    and "rs_kind ?r \<noteq> kind_advisory"
    and "\<not> count_active_leases (rq_resource (demo_request ''a'')) (demo_db2 ''a'') < rs_slots ?r"
    by (simp_all add: demo_defs)
  from apply_queues_behind [OF this(1,2), of "''l3''" 12] this(3) show ?thesis
    by (simp add: demo_request_def)
qed

text \<open>
  finality. Whatever operation runs, a lease that is released or expired keeps its
  row unchanged.
\<close>

theorem terminal_leases_final:
  assumes "table_ok db" and "slots_ok db" and "lease_reachable db db'"
    and "map_of (db_leases db) k = Some l" and "terminal l"
  shows "map_of (db_leases db') k = Some l"
  using assms(3)
proof (induction rule: lease_reachable.induct)
  case reach_refl
  show ?case by (rule assms(4))
next
  case (reach_step d d')
  then show ?case
    using lease_step_terminal [OF reach_step.hyps(2)] lease_reachable_inv [OF reach_step.hyps(1) assms(1,2)]
      assms(5) by blast
qed

theorem terminal_leases_final_witness:
  "\<exists>l. terminal l \<and> map_of (db_leases (snd (apply_db ''l9'' 30 (demo_request ''a'')
      (snd (release_db ''l1'' [] 20 21 demo_db1))))) ''l1'' = Some l"
proof -
  let ?db = "snd (release_db ''l1'' [] 20 21 demo_db1)"
  have reach: "lease_reachable demo_db ?db" by (rule reach_step [OF demo_reachable(1) step_release])
  have inv: "table_ok ?db" "slots_ok ?db" using lease_reachable_inv [OF reach demo_ok] by simp_all
  have "map_of (db_leases ?db) ''l9'' = None"
    by (simp add: release_db_def get_lease_def promote_queued_def list_leases_def Let_def upsert_row_def demo_defs)
  then have "lease_step ?db (snd (apply_db ''l9'' 30 (demo_request ''a'') ?db))"
    by (rule step_apply) (simp add: demo_request_def)
  note step = reach_step [OF reach_refl this]
  obtain l where "map_of (db_leases ?db) ''l1'' = Some l" "terminal l"
    by (simp add: release_db_def get_lease_def promote_queued_def list_leases_def Let_def upsert_row_def demo_defs)
  from terminal_leases_final [OF inv step this] this(2) show ?thesis by blast
qed

text \<open>
  a queue of another team waits. When every lease that waits for the resource belongs
  to another team than the released one, the release frees the slot and promotes nobody:
  the waiting leases stay queued, although there is room for one of them.
\<close>

theorem other_team_keeps_waiting:
  assumes "table_ok db" and "map_of (db_leases db) lid = Some l" and "l_status l = LeaseGranted"
    and "l_team l \<noteq> []"
    and "\<And>k w. map_of (db_leases db) k = Some w \<Longrightarrow> queued_on (l_resource l) w \<Longrightarrow> l_team w \<noteq> l_team l"
    and "map_of (db_leases db) k = Some w" and "queued_on (l_resource l) w"
    and "release_db lid reason now now' db = (reply, db')"
  shows "reply = LeaseReleasedReply lid [] \<and> map_of (db_leases db') k = Some w
    \<and> count_active_leases (l_resource l) db' = count_active_leases (l_resource l) db - 1"
proof -
  have "l_resource l \<noteq> []" using assms(1,2) by (simp add: table_ok_def)
  have "lease_queue (l_resource l) (l_team l) db = []"
  proof (rule ccontr)
    assume "lease_queue (l_resource l) (l_team l) db \<noteq> []"
    then obtain h where "h \<in> set (lease_queue (l_resource l) (l_team l) db)"
      by (meson list.set_sel(1))
    then have h: "h \<in> snd ` set (db_leases db)" "queued_on (l_resource l) h" "l_team h = l_team l"
      using \<open>l_resource l \<noteq> []\<close> assms(4) by (auto simp: lease_queue_set)
    from h(1) have "map_of (db_leases db) (l_id h) = Some h" using in_leases_iff [OF assms(1)] by blast
    from assms(5) [OF this h(2)] h(3) show False by simp
  qed
  moreover have "k \<noteq> lid" using assms(2,3,6,7) by auto
  ultimately show ?thesis
    using release_hands_over [OF assms(1-3) _ assms(8), of "[]"] assms(6) by simp
qed

theorem other_team_keeps_waiting_witness:
  "fst (release_db ''l1'' [] 20 21 (demo_db2 ''z'')) = LeaseReleasedReply ''l1'' []
   \<and> count_active_leases ''b'' (snd (release_db ''l1'' [] 20 21 (demo_db2 ''z'')))
      = count_active_leases ''b'' (demo_db2 ''z'') - 1"
proof -
  let ?db = "demo_db2 ''z''"
  obtain l where l: "map_of (db_leases ?db) ''l1'' = Some l" "l_status l = LeaseGranted"
      "l_resource l = ''b''" "l_team l = ''a''"
    by (simp add: demo_defs)
  obtain w where w: "map_of (db_leases ?db) ''l2'' = Some w" "queued_on ''b'' w"
    by (simp add: demo_defs)
  have ok: "table_ok ?db" using lease_reachable_inv [OF demo_reachable(2) demo_ok] by simp
  have "l_team v \<noteq> l_team l" if "map_of (db_leases ?db) k = Some v" "queued_on (l_resource l) v" for k v
    using that l(3,4) by (auto simp: demo_defs split: if_splits)
  moreover have "l_team l \<noteq> []" "queued_on (l_resource l) w" using l(3,4) w(2) by simp_all
  ultimately show ?thesis
    using other_team_keeps_waiting [OF ok l(1,2) _ _ w(1) _ prod.collapse [symmetric], of "[]" 20 21] l(3)
    by simp
qed

end
