(* ===== verification/Tasks.thy ===== *)
theory Tasks
  imports Json "HOL-Library.Product_Lexorder" "HOL-Library.List_Lexorder" "HOL-Library.Char_ord"
begin

text \<open>
  The task store of \<open>agent_runtime/task_store.py\<close>: the task record, the SQLite tables
  (tasks, history, idempotency index), the dict of tasks that caches rows, and every
  operation of \<open>TaskStore\<close>. JSON columns hold the values they encode. The clock
  reading, the claim token and the time-to-live from the environment are arguments; the
  readings that one operation takes are the same. Rows are in insertion order, and SQLite's
  sorts keep that order among equal keys.
\<close>

section \<open>Tasks\<close>

definition valid_statuses :: "str list" where
  "valid_statuses = [''pending'', ''running'', ''completed'', ''failed'', ''canceled'']"

definition valid_triggers :: "str list" where
  "valid_triggers = [''immediate'', ''cron'', ''run_at'']"

definition valid_review_states :: "str list" where
  "valid_review_states = [''none'', ''review'', ''needs_fix'', ''approved'']"

definition done_statuses :: "str list" where
  "done_statuses = [''completed'', ''failed'', ''canceled'']"

record task =
  t_id :: str
  t_title :: str
  t_description :: str
  t_agent :: str
  t_graph :: str
  t_trigger :: str
  t_cron :: str
  t_run_at :: pyfloat
  t_cron_job :: str
  t_input :: str
  t_status :: str
  t_priority :: int
  t_project :: str
  t_artifacts :: "str list"
  t_result :: jobj
  t_error :: str
  t_retry_count :: int
  t_max_retries :: int
  t_created_at :: pyfloat
  t_updated_at :: pyfloat
  t_last_run_at :: pyfloat
  t_idem_key :: str
  t_review :: str
  t_token :: str
  t_owner_role :: str
  t_owner :: str
  t_lease :: str
  t_evidence :: str
  t_team :: str
  t_depends :: "str list"
  t_sandbox :: str

text \<open>\<open>Task()\<close>, the default of every field.\<close>

definition new_task :: task where
  "new_task = \<lparr>t_id = '''', t_title = '''', t_description = '''', t_agent = '''', t_graph = '''',
     t_trigger = ''immediate'', t_cron = '''', t_run_at = 0, t_cron_job = '''', t_input = '''',
     t_status = ''pending'', t_priority = 0, t_project = '''', t_artifacts = [], t_result = [],
     t_error = '''', t_retry_count = 0, t_max_retries = 0, t_created_at = 0, t_updated_at = 0,
     t_last_run_at = 0, t_idem_key = '''', t_review = ''none'', t_token = '''', t_owner_role = '''',
     t_owner = '''', t_lease = '''', t_evidence = '''', t_team = ''default'', t_depends = [],
     t_sandbox = ''local''\<rparr>"

definition task_to_dict :: "task \<Rightarrow> jobj" where
  "task_to_dict t =
    [(''task_id'', JStr (t_id t)), (''title'', JStr (t_title t)),
     (''description'', JStr (t_description t)), (''agent_id'', JStr (t_agent t)),
     (''graph_id'', JStr (t_graph t)), (''trigger'', JStr (t_trigger t)),
     (''cron_expression'', JStr (t_cron t)), (''run_at'', JFloat (t_run_at t)),
     (''cron_job_id'', JStr (t_cron_job t)), (''input'', JStr (t_input t)),
     (''status'', JStr (t_status t)), (''priority'', JInt (t_priority t)),
     (''project_id'', JStr (t_project t)),
     (''artifact_ids'', JList (map JStr (t_artifacts t))), (''last_result'', JObj (t_result t)),
     (''last_error'', JStr (t_error t)), (''retry_count'', JInt (t_retry_count t)),
     (''max_retries'', JInt (t_max_retries t)), (''created_at'', JFloat (t_created_at t)),
     (''updated_at'', JFloat (t_updated_at t)), (''last_run_at'', JFloat (t_last_run_at t)),
     (''idempotency_key'', JStr (t_idem_key t)), (''review_state'', JStr (t_review t)),
     (''attempt_token'', JStr (t_token t)), (''owner_role'', JStr (t_owner_role t)),
     (''owner_agent'', JStr (t_owner t)), (''resource_lease_id'', JStr (t_lease t)),
     (''evidence_ref'', JStr (t_evidence t)), (''team'', JStr (t_team t)),
     (''depends_on'', JList (map JStr (t_depends t))), (''sandbox'', JStr (t_sandbox t))]"

section \<open>Tables and store\<close>

text \<open>
  A row holds the columns of a task. \<open>to_row\<close> is what \<open>_save_task\<close> writes,
  \<open>from_row\<close> what a read gives back: empty review, team and sandbox columns become the
  defaults.
\<close>

definition to_row :: "task \<Rightarrow> task" where
  "to_row t = t\<lparr>t_sandbox := (if t_sandbox t = [] then ''local'' else t_sandbox t)\<rparr>"

definition from_row :: "task \<Rightarrow> task" where
  "from_row r = r\<lparr>t_review := (if t_review r = [] then ''none'' else t_review r),
     t_team := (if t_team r = [] then ''default'' else t_team r),
     t_sandbox := (if t_sandbox r = [] then ''local'' else t_sandbox r)\<rparr>"

record history_row =
  h_task :: str
  h_from_status :: str
  h_to_status :: str
  h_from_review :: str
  h_to_review :: str
  h_actor :: str
  h_reason :: str
  h_ts :: pyfloat

record task_db =
  td_rows :: "(str, task) dict"
  td_history :: "history_row list"
  td_index :: "(str, str \<times> pyfloat) dict"

record task_store =
  ts_cache :: "(str, task) dict"
  ts_conn :: "task_db option"
  ts_seq :: int
  ts_deduped :: bool
  ts_lazy :: bool

text \<open>
  \<open>INSERT OR REPLACE\<close>: the rows that conflict with the new one, by the primary key or
  by the unique index on non-empty idempotency keys, are deleted, and the new row is
  appended.
\<close>

definition conflicts :: "str \<Rightarrow> task \<Rightarrow> str \<Rightarrow> task \<Rightarrow> bool" where
  "conflicts k r j q \<longleftrightarrow> j = k \<or> t_idem_key r \<noteq> [] \<and> t_idem_key q = t_idem_key r"

definition put_row :: "str \<Rightarrow> task \<Rightarrow> (str, task) dict \<Rightarrow> (str, task) dict" where
  "put_row k r tbl = filter (\<lambda>(j, q). \<not> conflicts k r j q) tbl @ [(k, r)]"

text \<open>\<open>UPDATE tasks SET ... WHERE P\<close> on the rows in place, \<open>DELETE ... WHERE task_id = k\<close>.\<close>

definition update_rows ::
    "(task \<Rightarrow> bool) \<Rightarrow> (task \<Rightarrow> task) \<Rightarrow> (str, task) dict \<Rightarrow> (str, task) dict" where
  "update_rows P f tbl = map (\<lambda>(k, r). (k, if P r then f r else r)) tbl"

definition set_rows :: "(str, task) dict \<Rightarrow> task_store \<Rightarrow> task_store" where
  "set_rows tbl s = (case ts_conn s of None \<Rightarrow> s
     | Some db \<Rightarrow> s\<lparr>ts_conn := Some (db\<lparr>td_rows := tbl\<rparr>)\<rparr>)"

definition task_store_init :: "task_db option \<Rightarrow> bool \<Rightarrow> task_store" where
  "task_store_init conn lazy = (case conn of
     None \<Rightarrow> \<lparr>ts_cache = [], ts_conn = None, ts_seq = 0, ts_deduped = False, ts_lazy = lazy\<rparr>
   | Some db \<Rightarrow>
      (let loaded = fold (\<lambda>(k, r) c. AList.update (t_id (from_row r)) (from_row r) c) (td_rows db) [];
           cache = (if lazy then [] else loaded)
       in \<lparr>ts_cache = cache, ts_conn = Some db,
           ts_seq = int (if lazy then length (td_rows db) else length cache),
           ts_deduped = False, ts_lazy = lazy\<rparr>))"

section \<open>Single tasks\<close>

text \<open>A cached task, or the row that it is filled from when rows are loaded on demand.\<close>

definition get_task :: "str \<Rightarrow> task_store \<Rightarrow> task option \<times> task_store" where
  "get_task tid s = (case map_of (ts_cache s) tid of
     Some t \<Rightarrow> (Some t, s)
   | None \<Rightarrow> (case ts_conn s of
       None \<Rightarrow> (None, s)
     | Some db \<Rightarrow>
        if \<not> ts_lazy s then (None, s)
        else (case map_of (td_rows db) tid of
            None \<Rightarrow> (None, s)
          | Some r \<Rightarrow> (Some (from_row r),
              s\<lparr>ts_cache := AList.update tid (from_row r) (ts_cache s)\<rparr>))))"

definition save_task :: "task \<Rightarrow> task_store \<Rightarrow> task_store" where
  "save_task t s = (case ts_conn s of
     None \<Rightarrow> s
   | Some db \<Rightarrow> s\<lparr>ts_conn := Some (db\<lparr>td_rows := put_row (t_id t) (to_row t) (td_rows db)\<rparr>)\<rparr>)"

text \<open>A task object is changed in place, so the cache sees the change, and then saved.\<close>

definition store_task :: "str \<Rightarrow> task \<Rightarrow> task_store \<Rightarrow> task_store" where
  "store_task tid t s = save_task t (s\<lparr>ts_cache := AList.update tid t (ts_cache s)\<rparr>)"

definition pop_cache :: "str \<Rightarrow> task_store \<Rightarrow> task_store" where
  "pop_cache tid s = s\<lparr>ts_cache := AList.delete tid (ts_cache s)\<rparr>"

definition delete_task :: "str \<Rightarrow> task_store \<Rightarrow> int \<times> task_store" where
  "delete_task tid s = (case ts_conn s of
     None \<Rightarrow> (0, s)
   | Some db \<Rightarrow>
      (if map_of (td_rows db) tid = None then 0 else 1,
       s\<lparr>ts_conn := Some (db\<lparr>td_rows := AList.delete tid (td_rows db)\<rparr>)\<rparr>))"

definition task_delete :: "str \<Rightarrow> task_store \<Rightarrow> bool \<times> task_store" where
  "task_delete tid s = (let (n, s') = delete_task tid (pop_cache tid s) in (n \<noteq> 0, s'))"

definition append_history ::
    "pyfloat \<Rightarrow> str \<Rightarrow> str \<Rightarrow> str \<Rightarrow> str \<Rightarrow> str \<Rightarrow> str \<Rightarrow> str \<Rightarrow> task_store \<Rightarrow> task_store" where
  "append_history now tid from_st to_st from_rv to_rv actor reason s = (case ts_conn s of
     None \<Rightarrow> s
   | Some db \<Rightarrow> s\<lparr>ts_conn := Some (db\<lparr>td_history := td_history db @
       [\<lparr>h_task = tid, h_from_status = from_st, h_to_status = to_st, h_from_review = from_rv,
         h_to_review = to_rv, h_actor = actor, h_reason = reason, h_ts = now\<rparr>]\<rparr>)\<rparr>)"

section \<open>Submission and expiry\<close>

definition expired_ids :: "pyfloat \<Rightarrow> (str, task) dict \<Rightarrow> str list" where
  "expired_ids cutoff tbl = map fst (filter (\<lambda>(k, r).
     t_status r \<in> set done_statuses \<and> 0 < t_created_at r \<and> t_created_at r < cutoff) tbl)"

definition reap_expired :: "pyfloat \<Rightarrow> pyfloat \<Rightarrow> task_store \<Rightarrow> int \<times> task_store" where
  "reap_expired ttl now s = (case ts_conn s of
     None \<Rightarrow> (0, s)
   | Some db \<Rightarrow>
      if ttl \<le> 0 then (0, s)
      else let ids = expired_ids (now - ttl) (td_rows db) in
        (int (length ids),
         s\<lparr>ts_conn := Some (db\<lparr>td_rows := fold AList.delete ids (td_rows db)\<rparr>),
           ts_cache := fold AList.delete ids (ts_cache s)\<rparr>))"

definition find_by_idempotency_key :: "str \<Rightarrow> task_store \<Rightarrow> task option \<times> task_store" where
  "find_by_idempotency_key key s = (case ts_conn s of
     None \<Rightarrow> (None, s)
   | Some db \<Rightarrow>
      if key = [] then (None, s)
      else (case List.find (\<lambda>(k, r). t_idem_key r = key) (td_rows db) of
          None \<Rightarrow> (None, s)
        | Some (k, r) \<Rightarrow> (Some (from_row r),
            s\<lparr>ts_cache := AList.update (t_id (from_row r)) (from_row r) (ts_cache s)\<rparr>)))"

text \<open>The timestamps and fallbacks that \<open>submit\<close> fills in before it looks at the store.\<close>

definition prepare_task :: "pyfloat \<Rightarrow> task \<Rightarrow> task" where
  "prepare_task now t = t\<lparr>
     t_created_at := (if t_created_at t = 0 then now else t_created_at t),
     t_updated_at := now,
     t_trigger := (if t_trigger t \<in> set valid_triggers then t_trigger t else ''immediate''),
     t_status := (if t_status t \<in> set valid_statuses then t_status t else ''pending'')\<rparr>"

definition fresh_task_id :: "pyfloat \<Rightarrow> int \<Rightarrow> str" where
  "fresh_task_id now n = ''task_'' @ str_of_int (trunc (now * 1000)) @ ''_'' @ str_of_int n"

definition index_task :: "task \<Rightarrow> task_store \<Rightarrow> task_store" where
  "index_task t s = (case ts_conn s of
     None \<Rightarrow> s
   | Some db \<Rightarrow>
      if t_idem_key t = [] \<or> map_of (td_index db) (t_idem_key t) \<noteq> None then s
      else s\<lparr>ts_conn := Some (db\<lparr>td_index :=
             td_index db @ [(t_idem_key t, (t_id t, t_created_at t))]\<rparr>)\<rparr>)"

definition submit_new :: "pyfloat \<Rightarrow> task \<Rightarrow> task_store \<Rightarrow> task \<times> task_store" where
  "submit_new now t s =
     (let seq = (if t_id t = [] then ts_seq s + 1 else ts_seq s);
          t' = (if t_id t = [] then t\<lparr>t_id := fresh_task_id now seq\<rparr> else t);
          s1 = s\<lparr>ts_deduped := False, ts_seq := seq\<rparr>
      in (t', index_task t' (store_task (t_id t') t' s1)))"

definition submit :: "pyfloat \<Rightarrow> pyfloat \<Rightarrow> task \<Rightarrow> task_store \<Rightarrow> task \<times> task_store" where
  "submit ttl now t0 s0 =
     (let t = prepare_task now t0;
          s = snd (reap_expired ttl now s0);
          (hit, s1) = (if t_idem_key t = [] then (None, s)
                       else find_by_idempotency_key (t_idem_key t) s)
      in case hit of
           Some old \<Rightarrow> (old, s1\<lparr>ts_deduped := True\<rparr>)
         | None \<Rightarrow> submit_new now t s1)"

definition find_by_idempotency :: "str \<Rightarrow> task_store \<Rightarrow> task option \<times> task_store" where
  "find_by_idempotency key s = (case ts_conn s of
     None \<Rightarrow> (None, s)
   | Some db \<Rightarrow>
      if key = [] then (None, s)
      else (case map_of (td_index db) key of
          None \<Rightarrow> (None, s)
        | Some (tid, _) \<Rightarrow> get_task tid s))"

end
