(* ===== verification/TaskOps.thy ===== *)
theory TaskOps
  imports Tasks
begin

text \<open>
  The operations of \<open>TaskStore\<close> on submitted tasks: queries, status changes, the worker
  queue (claim, dependency gate, requeue, orphan reset), and the board of
  \<open>agent_runtime/task_board.py\<close>.
\<close>

section \<open>Queries\<close>

text \<open>The store answers from the table when it loads on demand, from the cache otherwise.\<close>

definition db_mode :: "task_store \<Rightarrow> (str, task) dict option" where
  "db_mode s = (if ts_lazy s then map_option td_rows (ts_conn s) else None)"

definition opt_filter :: "(task \<Rightarrow> str) \<Rightarrow> str \<Rightarrow> task \<Rightarrow> bool" where
  "opt_filter f v t \<longleftrightarrow> v = [] \<or> f t = v"

definition list_match :: "str \<Rightarrow> str \<Rightarrow> str \<Rightarrow> str \<Rightarrow> task \<Rightarrow> bool" where
  "list_match status agent project team t \<longleftrightarrow> opt_filter t_status status t
     \<and> opt_filter t_agent agent t \<and> opt_filter t_project project t \<and> opt_filter t_team team t"

definition newest_first :: "task \<Rightarrow> int \<times> pyfloat" where
  "newest_first t = (- t_priority t, - t_created_at t)"

definition limit_to :: "int \<Rightarrow> 'a list \<Rightarrow> 'a list" where
  "limit_to n xs = (if 0 < n then take (nat n) xs else xs)"

definition list_from_db ::
    "str \<Rightarrow> str \<Rightarrow> str \<Rightarrow> int \<Rightarrow> str \<Rightarrow> (str, task) dict \<Rightarrow> task list" where
  "list_from_db status agent project lmt team tbl =
     map from_row (limit_to lmt (sort_key newest_first
       (filter (list_match status agent project team) (map snd tbl))))"

definition list_tasks ::
    "pyfloat \<Rightarrow> pyfloat \<Rightarrow> str \<Rightarrow> str \<Rightarrow> str \<Rightarrow> int \<Rightarrow> str \<Rightarrow> task_store
      \<Rightarrow> task list \<times> task_store" where
  "list_tasks ttl now status agent project lmt team s0 =
     (let s = snd (reap_expired ttl now s0) in
      case db_mode s of
        Some tbl \<Rightarrow> (list_from_db status agent project lmt team tbl, s)
      | None \<Rightarrow> (limit_to lmt (sort_key newest_first
            (filter (list_match status agent project team) (map snd (ts_cache s)))), s))"

definition task_list ::
    "pyfloat \<Rightarrow> pyfloat \<Rightarrow> str \<Rightarrow> str \<Rightarrow> str \<Rightarrow> int \<Rightarrow> str \<Rightarrow> task_store
      \<Rightarrow> jobj list \<times> task_store" where
  "task_list ttl now status agent project lmt team s =
     (let (ts, s') = list_tasks ttl now status agent project lmt team s
      in (map task_to_dict ts, s'))"

definition count_by_status :: "str \<Rightarrow> task_store \<Rightarrow> int" where
  "count_by_status status s = int (count_vals (\<lambda>t. t_status t = status)
     (case db_mode s of Some tbl \<Rightarrow> tbl | None \<Rightarrow> ts_cache s))"

definition total_count :: "task_store \<Rightarrow> int" where
  "total_count s = int (length (case db_mode s of Some tbl \<Rightarrow> tbl | None \<Rightarrow> ts_cache s))"

text \<open>
  A project bucket: the total and one counter per status. The statement
  \<open>GROUP BY project_id, status\<close> gives its groups in ascending order.
\<close>

type_synonym bucket = "int \<times> (str, int) dict"

definition new_bucket :: bucket where
  "new_bucket = (0, map (\<lambda>st. (st, 0)) valid_statuses)"

definition bucket_count :: "str \<Rightarrow> int \<Rightarrow> bucket \<Rightarrow> bucket" where
  "bucket_count status n b = (fst b + n,
     case map_of (snd b) status of None \<Rightarrow> snd b | Some c \<Rightarrow> AList.update status (c + n) (snd b))"

definition bucket_add ::
    "str \<Rightarrow> str \<Rightarrow> int \<Rightarrow> (str, bucket) dict \<Rightarrow> (str, bucket) dict" where
  "bucket_add pid status n bs =
     AList.update pid (bucket_count status n (dict_get bs pid new_bucket)) bs"

definition status_groups :: "(str, task) dict \<Rightarrow> (str \<times> str \<times> int) list" where
  "status_groups tbl =
     (let ps = map (\<lambda>t. (t_project t, t_status t)) (filter (\<lambda>t. t_project t \<noteq> []) (map snd tbl))
      in map (\<lambda>(p, st). (p, st, int (length (filter (\<lambda>q. q = (p, st)) ps)))) (sort (remdups ps)))"

definition project_buckets :: "task_store \<Rightarrow> (str, bucket) dict" where
  "project_buckets s = (case db_mode s of
     Some tbl \<Rightarrow> fold (\<lambda>(p, st, n). bucket_add p st n) (status_groups tbl) []
   | None \<Rightarrow> fold (\<lambda>(k, t) bs. if t_project t = [] then bs
                     else bucket_add (t_project t) (t_status t) 1 bs) (ts_cache s) [])"

definition projects :: "task_store \<Rightarrow> (str \<times> bucket) list" where
  "projects s = sort_key (\<lambda>(p, b). - fst b) (project_buckets s)"

section \<open>Status changes\<close>

definition with_status ::
    "pyfloat \<Rightarrow> str \<Rightarrow> jobj option \<Rightarrow> str \<Rightarrow> int option \<Rightarrow> task \<Rightarrow> task" where
  "with_status now status result err retries t = t\<lparr>
     t_status := status, t_updated_at := now,
     t_last_run_at := (if status = ''running'' then now else t_last_run_at t),
     t_result := (case result of None \<Rightarrow> t_result t | Some r \<Rightarrow> r),
     t_error := (if err = [] then t_error t else err),
     t_retry_count := (case retries of None \<Rightarrow> t_retry_count t | Some n \<Rightarrow> n)\<rparr>"

definition update_status ::
    "pyfloat \<Rightarrow> str \<Rightarrow> str \<Rightarrow> jobj option \<Rightarrow> str \<Rightarrow> int option \<Rightarrow> task_store
      \<Rightarrow> bool \<times> task_store" where
  "update_status now tid status result err retries s =
     (case get_task tid s of
        (None, s1) \<Rightarrow> (False, s1)
      | (Some t, s1) \<Rightarrow>
          if status \<notin> set valid_statuses then (False, s1)
          else (True, store_task tid (with_status now status result err retries t) s1))"

definition cancel :: "pyfloat \<Rightarrow> str \<Rightarrow> task_store \<Rightarrow> bool \<times> task_store" where
  "cancel now tid s =
     (case get_task tid s of
        (None, s1) \<Rightarrow> (False, s1)
      | (Some t, s1) \<Rightarrow>
          if t_status t \<in> {''completed'', ''canceled''} then (False, s1)
          else update_status now tid ''canceled'' None '''' None s1)"

text \<open>Operations that change a task, if it exists, and save it.\<close>

definition modify_task ::
    "str \<Rightarrow> (task \<Rightarrow> task) \<Rightarrow> task_store \<Rightarrow> task option \<times> task_store" where
  "modify_task tid f s =
     (case get_task tid s of
        (None, s1) \<Rightarrow> (None, s1)
      | (Some t, s1) \<Rightarrow> (Some (f t), store_task tid (f t) s1))"

definition rerun :: "pyfloat \<Rightarrow> str \<Rightarrow> task_store \<Rightarrow> task option \<times> task_store" where
  "rerun now tid = modify_task tid (\<lambda>t. t\<lparr>t_status := ''pending'',
     t_retry_count := t_retry_count t + 1, t_error := '''', t_updated_at := now\<rparr>)"

fun add_new :: "str list \<Rightarrow> str list \<Rightarrow> str list" where
  "add_new xs [] = xs"
| "add_new xs (a # as) = add_new (if a \<noteq> [] \<and> a \<notin> set xs then xs @ [a] else xs) as"

definition add_artifacts :: "pyfloat \<Rightarrow> str \<Rightarrow> str list \<Rightarrow> task_store \<Rightarrow> bool \<times> task_store" where
  "add_artifacts now tid ids s =
     (let (r, s') = modify_task tid (\<lambda>t. t\<lparr>t_artifacts := add_new (t_artifacts t) ids,
        t_updated_at := now\<rparr>) s in (r \<noteq> None, s'))"

definition set_evidence :: "pyfloat \<Rightarrow> str \<Rightarrow> str \<Rightarrow> task_store \<Rightarrow> bool \<times> task_store" where
  "set_evidence now tid ref s =
     (let (r, s') = modify_task tid (\<lambda>t. t\<lparr>t_evidence := ref, t_updated_at := now\<rparr>) s
      in (r \<noteq> None, s'))"

definition set_review_state :: "pyfloat \<Rightarrow> str \<Rightarrow> str \<Rightarrow> task_store \<Rightarrow> bool \<times> task_store" where
  "set_review_state now tid state s =
     (if state \<notin> set valid_review_states then (False, s)
      else let (r, s') = modify_task tid (\<lambda>t. t\<lparr>t_review := state, t_updated_at := now\<rparr>) s
           in (r \<noteq> None, s'))"

definition claim_lease :: "pyfloat \<Rightarrow> str \<Rightarrow> str \<Rightarrow> task_store \<Rightarrow> bool \<times> task_store" where
  "claim_lease now tid lid s =
     (let (r, s') = modify_task tid (\<lambda>t. t\<lparr>t_lease := lid, t_updated_at := now\<rparr>) s
      in (r \<noteq> None, s'))"

definition moved :: "pyfloat \<Rightarrow> str \<Rightarrow> str \<Rightarrow> task \<Rightarrow> task" where
  "moved now to_status to_review t = t\<lparr>
     t_status := (if to_status = [] then t_status t else to_status),
     t_review := (if to_review = [] then t_review t else to_review),
     t_updated_at := now,
     t_last_run_at := (if to_status = ''running'' then now else t_last_run_at t)\<rparr>"

text \<open>
  \<open>move_task\<close> ends with \<open>self._conn.commit()\<close> without a guard: on a store without a
  database it raises after the task has been changed.
\<close>

definition move_task ::
    "pyfloat \<Rightarrow> str \<Rightarrow> str \<Rightarrow> str \<Rightarrow> str \<Rightarrow> str \<Rightarrow> task_store
      \<Rightarrow> (py_exn + task option) \<times> task_store" where
  "move_task now tid to_status to_review actor reason s =
     (case get_task tid s of
        (None, s1) \<Rightarrow> (Inr None, s1)
      | (Some t, s1) \<Rightarrow>
          if to_status \<noteq> [] \<and> to_status \<notin> set valid_statuses
             \<or> to_review \<noteq> [] \<and> to_review \<notin> set valid_review_states then (Inr None, s1)
          else let t' = moved now to_status to_review t;
                   s2 = append_history now tid (t_status t) (t_status t') (t_review t)
                          (t_review t') (if actor = [] then ''system'' else actor) reason
                          (store_task tid t' s1)
               in (if ts_conn s2 = None then Inl AttributeError else Inr (Some t'), s2))"

section \<open>The worker queue\<close>

fun deps_loop :: "str list \<Rightarrow> task_store \<Rightarrow> bool \<times> task_store" where
  "deps_loop [] s = (True, s)"
| "deps_loop (d # ds) s = (case get_task d s of
     (None, s1) \<Rightarrow> (False, s1)
   | (Some t, s1) \<Rightarrow> if t_status t \<noteq> ''completed'' then (False, s1) else deps_loop ds s1)"

definition deps_met :: "str \<Rightarrow> task_store \<Rightarrow> bool \<times> task_store" where
  "deps_met tid s = (case get_task tid s of
     (None, s1) \<Rightarrow> (True, s1)
   | (Some t, s1) \<Rightarrow> deps_loop (t_depends t) s1)"

definition claimable :: "str \<Rightarrow> task \<Rightarrow> bool" where
  "claimable team r \<longleftrightarrow> (team = ''*'' \<or> t_team r = team) \<and> t_status r = ''pending''
     \<and> t_owner r = [] \<and> t_cron r = [] \<and> t_run_at r = 0"

definition oldest_first :: "str \<times> task \<Rightarrow> int \<times> pyfloat" where
  "oldest_first p = (- t_priority (snd p), t_created_at (snd p))"

definition next_claim :: "str \<Rightarrow> (str, task) dict \<Rightarrow> str option" where
  "next_claim team tbl =
     map_option fst (first_opt (sort_key oldest_first (filter (\<lambda>(k, r). claimable team r) tbl)))"

definition claimed :: "pyfloat \<Rightarrow> str \<Rightarrow> str \<Rightarrow> task \<Rightarrow> task" where
  "claimed now owner token r = r\<lparr>t_status := ''running'', t_owner := owner, t_token := token,
     t_updated_at := now, t_last_run_at := now\<rparr>"

definition unclaimed :: "pyfloat \<Rightarrow> task \<Rightarrow> task" where
  "unclaimed now r = r\<lparr>t_status := ''pending'', t_owner := '''', t_token := '''',
     t_updated_at := now\<rparr>"

definition claim_row :: "pyfloat \<Rightarrow> str \<Rightarrow> str \<Rightarrow> str \<Rightarrow> task_store \<Rightarrow> task_store" where
  "claim_row now owner token tid s = (case ts_conn s of
     None \<Rightarrow> s
   | Some db \<Rightarrow> append_history now tid ''pending'' ''running'' ''none'' ''none'' owner ''dequeue claim''
       (s\<lparr>ts_conn := Some (db\<lparr>td_rows :=
            update_rows (\<lambda>r. t_id r = tid \<and> t_status r = ''pending'') (claimed now owner token)
              (td_rows db)\<rparr>)\<rparr>))"

definition revert_claim :: "pyfloat \<Rightarrow> str \<Rightarrow> task_store \<Rightarrow> task_store" where
  "revert_claim now tid s = pop_cache tid (case ts_conn s of
     None \<Rightarrow> s
   | Some db \<Rightarrow> s\<lparr>ts_conn := Some (db\<lparr>td_rows :=
       update_rows (\<lambda>r. t_id r = tid \<and> t_status r = ''running'') (unclaimed now)
         (td_rows db)\<rparr>)\<rparr>)"

definition dequeue ::
    "pyfloat \<Rightarrow> str \<Rightarrow> str \<Rightarrow> str \<Rightarrow> task_store \<Rightarrow> task option \<times> task_store" where
  "dequeue now token team owner s = (case ts_conn s of
     None \<Rightarrow> (None, s)
   | Some db \<Rightarrow>
      if owner = [] then (None, s)
      else (case next_claim (if team = [] then ''default'' else team) (td_rows db) of
          None \<Rightarrow> (None, s)
        | Some tid \<Rightarrow>
           (let (found, s1) = get_task tid (pop_cache tid (claim_row now owner token tid s)) in
            case found of
              None \<Rightarrow> (None, s1)
            | Some t \<Rightarrow>
               (let (ready, s2) = deps_met (t_id t) s1 in
                if ready then (Some t, s2) else (None, revert_claim now tid s2)))))"

definition requeue ::
    "pyfloat \<Rightarrow> str \<Rightarrow> str \<Rightarrow> str \<Rightarrow> task_store \<Rightarrow> task option \<times> task_store" where
  "requeue now tid actor reason s =
     (case modify_task tid (\<lambda>t. t\<lparr>t_status := ''pending'', t_owner := '''', t_token := '''',
              t_retry_count := t_retry_count t + 1, t_updated_at := now\<rparr>) s of
        (None, s1) \<Rightarrow> (None, s1)
      | (Some t, s1) \<Rightarrow> (Some t, append_history now tid ''failed'' ''pending'' ''none'' ''none''
          (if actor = [] then ''task-executor'' else actor)
          (if reason = [] then ''retry re-enqueue'' else reason) s1))"

definition orphan :: "str \<Rightarrow> task \<Rightarrow> bool" where
  "orphan owner r \<longleftrightarrow> t_status r = ''running'' \<and> t_owner r = owner"

definition reset_orphans :: "pyfloat \<Rightarrow> str \<Rightarrow> task_store \<Rightarrow> int \<times> task_store" where
  "reset_orphans now owner s = (case ts_conn s of
     None \<Rightarrow> (0, s)
   | Some db \<Rightarrow>
      if owner = [] then (0, s)
      else let ids = map fst (filter (\<lambda>(k, r). orphan owner r) (td_rows db)) in
        if ids = [] then (0, s)
        else let s1 = s\<lparr>ts_conn := Some (db\<lparr>td_rows :=
                        update_rows (orphan owner) (unclaimed now) (td_rows db)\<rparr>)\<rparr>;
                 s2 = fold (\<lambda>tid. append_history now tid ''running'' ''pending'' ''none'' ''none''
                        owner ''orphan reset'') ids s1
             in (int (length ids), s2\<lparr>ts_cache := fold AList.delete ids (ts_cache s2)\<rparr>))"

section \<open>The board\<close>

definition derive_column :: "task \<Rightarrow> str" where
  "derive_column t =
     (if t_status t = ''canceled'' then ''archived''
      else if t_status t = ''pending'' \<and> t_owner t = [] then ''todo''
      else if t_status t = ''running'' then ''in_progress''
      else if t_status t = ''completed'' \<and> t_review t \<in> {''review'', ''needs_fix''} then ''review''
      else if t_status t = ''completed'' \<and> t_review t = ''approved'' then ''approved''
      else ''todo'')"

definition is_task_open :: "task \<Rightarrow> bool" where
  "is_task_open t \<longleftrightarrow> t_status t \<in> {''pending'', ''running''}"

definition board_columns :: "str list" where
  "board_columns = [''todo'', ''in_progress'', ''review'', ''approved'']"

definition board_add :: "task \<Rightarrow> (str, task list) dict \<Rightarrow> (str, task list) dict" where
  "board_add t cols = (let col = derive_column t in
     if col = ''archived'' then cols else AList.update col (dict_get cols col [] @ [t]) cols)"

definition board_tasks :: "str \<Rightarrow> task_store \<Rightarrow> task list" where
  "board_tasks team s = (case db_mode s of
     Some tbl \<Rightarrow> map from_row (filter (\<lambda>t. t_team t = team) (map snd tbl))
   | None \<Rightarrow> filter (\<lambda>t. t_team t = team) (map snd (ts_cache s)))"

definition list_by_column :: "str \<Rightarrow> task_store \<Rightarrow> (str, task list) dict" where
  "list_by_column team s =
     map (\<lambda>(c, xs). (c, sort_key newest_first xs))
       (fold board_add (board_tasks (if team = [] then ''default'' else team) s)
          (map (\<lambda>c. (c, [])) board_columns))"

definition task_close :: "task_store \<Rightarrow> task_store" where
  "task_close s = s\<lparr>ts_conn := None\<rparr>"

end
