(* ===== verification/TaskCache.thy ===== *)
theory TaskCache
  imports TaskOps
begin

text \<open>
  The contract between the cache of \<open>TaskStore\<close> and its table: the table keeps its
  keys and its idempotency keys unique, and a cached task agrees with its row. Every
  operation keeps the contract.
\<close>

section \<open>The tasks table as a cached keyed store\<close>

definition task_ok :: "str \<Rightarrow> task \<Rightarrow> bool" where
  "task_ok k t \<longleftrightarrow> t_id t = k \<and> t_status t \<in> set valid_statuses"

definition row_fits :: "(str, task) dict \<Rightarrow> str \<Rightarrow> task \<Rightarrow> bool" where
  "row_fits tbl k r \<longleftrightarrow> task_ok k r \<and>
     (\<forall>j q. map_of tbl j = Some q \<longrightarrow> t_idem_key r \<noteq> [] \<longrightarrow> t_idem_key q = t_idem_key r \<longrightarrow> j = k)"

definition tasks_ok :: "(str, task) dict \<Rightarrow> bool" where
  "tasks_ok tbl \<longleftrightarrow> dict_ok tbl \<and> (\<forall>k r. map_of tbl k = Some r \<longrightarrow> row_fits tbl k r)"

definition cache_coherent :: "(str, task) dict \<Rightarrow> (str, task) dict \<Rightarrow> bool" where
  "cache_coherent c tbl \<longleftrightarrow> (\<forall>k t. map_of c k = Some t \<longrightarrow>
     map_option from_row (map_of tbl k) = Some (from_row t))"

lemma from_row_simps [simp]:
  "t_id (from_row r) = t_id r" "t_status (from_row r) = t_status r"
  "t_idem_key (from_row r) = t_idem_key r" "t_priority (from_row r) = t_priority r"
  "t_created_at (from_row r) = t_created_at r" "t_owner (from_row r) = t_owner r"
  "t_depends (from_row r) = t_depends r" "t_token (from_row r) = t_token r"
  "t_cron (from_row r) = t_cron r" "t_run_at (from_row r) = t_run_at r"
  "t_retry_count (from_row r) = t_retry_count r" "t_max_retries (from_row r) = t_max_retries r"
  by (simp_all add: from_row_def)

lemma to_row_simps [simp]:
  "t_id (to_row r) = t_id r" "t_status (to_row r) = t_status r"
  "t_idem_key (to_row r) = t_idem_key r"
  by (simp_all add: to_row_def)

lemma from_row_idem [simp]: "from_row (from_row r) = from_row r"
  by (simp add: from_row_def)

lemma from_to_row [simp]: "from_row (to_row t) = from_row t"
  by (simp add: from_row_def to_row_def)

lemma from_row_eqD:
  assumes "from_row r = from_row t"
  shows "t_id r = t_id t" "t_status r = t_status t" "t_idem_key r = t_idem_key t"
    "t_depends r = t_depends t" "t_owner r = t_owner t" "t_token r = t_token t"
  using assms by (metis from_row_simps)+

lemma task_ok_from_row [simp]: "task_ok k (from_row r) = task_ok k r"
  by (simp add: task_ok_def)

lemma task_ok_to_row [simp]: "task_ok k (to_row r) = task_ok k r"
  by (simp add: task_ok_def)

lemma fits_to_row [simp]: "row_fits tbl k (to_row r) = row_fits tbl k r"
  by (simp add: row_fits_def)

lemma task_ok_cong:
  "t_id t = t_id r \<Longrightarrow> t_status t \<in> set valid_statuses \<Longrightarrow> task_ok k r \<Longrightarrow> task_ok k t"
  by (simp add: task_ok_def)

lemma tasks_okD:
  "tasks_ok tbl \<Longrightarrow> dict_ok tbl"
  "tasks_ok tbl \<Longrightarrow> map_of tbl k = Some r \<Longrightarrow> row_fits tbl k r"
  "tasks_ok tbl \<Longrightarrow> map_of tbl k = Some r \<Longrightarrow> task_ok k r"
  "tasks_ok tbl \<Longrightarrow> map_of tbl k = Some r \<Longrightarrow> t_id r = k"
  unfolding tasks_ok_def row_fits_def task_ok_def by blast+

lemma map_of_put_row:
  assumes ok: "tasks_ok tbl" and fits: "row_fits tbl k r"
  shows "map_of (put_row k r tbl) = (map_of tbl)(k \<mapsto> r)"
proof
  fix j
  have d: "dict_ok tbl" by (rule tasks_okD [OF ok])
  have keep: "\<not> conflicts k r j q" if "map_of tbl j = Some q" "j \<noteq> k" for q
    using that fits by (auto simp: conflicts_def row_fits_def)
  have "map_of (filter (\<lambda>(j, q). \<not> conflicts k r j q) tbl) j = (if j = k then None else map_of tbl j)"
    using keep by (auto simp: map_of_filter_dict [OF d] conflicts_def split: option.split)
  then show "map_of (put_row k r tbl) j = ((map_of tbl)(k \<mapsto> r)) j"
    by (auto simp: put_row_def map_add_def split: option.split)
qed

lemma dict_ok_put_row: "dict_ok tbl \<Longrightarrow> dict_ok (put_row k r tbl)"
proof -
  assume d: "dict_ok tbl"
  have "dict_ok (filter (\<lambda>(j, q). \<not> conflicts k r j q) tbl)" by (rule dict_ok_filter [OF d])
  moreover have "k \<notin> fst ` set (filter (\<lambda>(j, q). \<not> conflicts k r j q) tbl)"
    by (auto simp: conflicts_def)
  ultimately show ?thesis by (auto simp: put_row_def dict_ok_def)
qed

lemma tasks_ok_put_row:
  assumes ok: "tasks_ok tbl" and fits: "row_fits tbl k r"
  shows "tasks_ok (put_row k r tbl)"
  unfolding tasks_ok_def
proof (intro conjI allI impI)
  show "dict_ok (put_row k r tbl)" by (rule dict_ok_put_row [OF tasks_okD(1) [OF ok]])
  fix j q
  assume "map_of (put_row k r tbl) j = Some q"
  moreover have mp: "map_of (put_row k r tbl) = (map_of tbl)(k \<mapsto> r)"
    by (rule map_of_put_row [OF ok fits])
  ultimately have j: "((map_of tbl)(k \<mapsto> r)) j = Some q" by simp
  show "row_fits (put_row k r tbl) j q"
  proof (cases "j = k")
    case True
    then have "q = r" using j by simp
    then show ?thesis using fits True
      by (auto simp: row_fits_def mp split: if_splits)
  next
    case False
    then have tj: "map_of tbl j = Some q" using j by simp
    have jq: "row_fits tbl j q" by (rule tasks_okD(2) [OF ok tj])
    show ?thesis
      unfolding row_fits_def mp
    proof (intro conjI allI impI)
      show "task_ok j q" using jq by (simp add: row_fits_def)
      fix i p
      assume i: "((map_of tbl)(k \<mapsto> r)) i = Some p"
        and key: "t_idem_key q \<noteq> []" "t_idem_key p = t_idem_key q"
      show "i = j"
      proof (cases "i = k")
        case True
        then have "p = r" using i by simp
        then show ?thesis using fits tj key False unfolding row_fits_def by metis
      next
        case False
        then show ?thesis using i jq key unfolding row_fits_def by (metis fun_upd_other)
      qed
    qed
  qed
qed

lemma tasks_ok_submap:
  assumes ok: "tasks_ok tbl" and d: "dict_ok tbl'"
    and sub: "\<And>k r. map_of tbl' k = Some r \<Longrightarrow>
      \<exists>q. map_of tbl k = Some q \<and> task_ok k r \<and> t_idem_key r = t_idem_key q"
  shows "tasks_ok tbl'"
  unfolding tasks_ok_def row_fits_def
proof (intro conjI allI impI d)
  fix k r
  assume r: "map_of tbl' k = Some r"
  then show "task_ok k r" using sub by blast
  fix j q
  assume "map_of tbl' j = Some q" "t_idem_key r \<noteq> []" "t_idem_key q = t_idem_key r"
  then show "j = k" using sub [OF r] sub [of j q] tasks_okD(2) [OF ok] unfolding row_fits_def by metis
qed

lemma tasks_ok_delete: "tasks_ok tbl \<Longrightarrow> tasks_ok (AList.delete k tbl)"
  by (rule tasks_ok_submap) (auto dest: tasks_okD split: if_splits)

interpretation task_table: cached_store map_of put_row AList.delete tasks_ok row_fits
    from_row cache_coherent
  by unfold_locales
    (auto simp: map_of_put_row tasks_ok_put_row tasks_ok_delete cache_coherent_def)

text \<open>In-place updates keep the keys; the table stays well formed when ids and keys do.\<close>

lemma map_of_update_rows:
  "map_of (update_rows P f tbl) k = map_option (\<lambda>r. if P r then f r else r) (map_of tbl k)"
  by (induction tbl) (auto simp: update_rows_def)

lemma tasks_ok_update_rows:
  assumes ok: "tasks_ok tbl"
    and f: "\<And>r. t_id (f r) = t_id r" "\<And>r. t_idem_key (f r) = t_idem_key r"
      "\<And>r. t_status (f r) \<in> set valid_statuses"
  shows "tasks_ok (update_rows P f tbl)"
proof (rule tasks_ok_submap [OF ok])
  have "map fst (update_rows P f tbl) = map fst tbl"
    by (simp add: update_rows_def comp_def split_def)
  then show "dict_ok (update_rows P f tbl)" using tasks_okD(1) [OF ok] by (simp add: dict_ok_def)
  fix k r
  assume "map_of (update_rows P f tbl) k = Some r"
  then obtain q where q: "map_of tbl k = Some q" "r = (if P q then f q else q)"
    by (auto simp: map_of_update_rows)
  have "task_ok k q" by (rule tasks_okD(3) [OF ok q(1)])
  then have "task_ok k r" using f q(2) by (auto simp: task_ok_def)
  then show "\<exists>q. map_of tbl k = Some q \<and> task_ok k r \<and> t_idem_key r = t_idem_key q"
    using q f(2) by auto
qed

section \<open>The store invariant\<close>

definition store_ok :: "task_store \<Rightarrow> bool" where
  "store_ok s \<longleftrightarrow> (\<forall>k t. map_of (ts_cache s) k = Some t \<longrightarrow> task_ok k t)
     \<and> (\<forall>db. ts_conn s = Some db \<longrightarrow>
           tasks_ok (td_rows db) \<and> cache_coherent (ts_cache s) (td_rows db))"

lemma store_okD:
  "store_ok s \<Longrightarrow> map_of (ts_cache s) k = Some t \<Longrightarrow> task_ok k t"
  "store_ok s \<Longrightarrow> ts_conn s = Some db \<Longrightarrow> tasks_ok (td_rows db)"
  "store_ok s \<Longrightarrow> ts_conn s = Some db \<Longrightarrow> cache_coherent (ts_cache s) (td_rows db)"
  by (simp_all add: store_ok_def)

lemma store_ok_cong:
  "store_ok s \<Longrightarrow> ts_cache s' = ts_cache s \<Longrightarrow>
    map_option td_rows (ts_conn s') = map_option td_rows (ts_conn s) \<Longrightarrow> store_ok s'"
  unfolding store_ok_def by (metis map_option_eq_Some option.inject)

lemma append_history_simps [simp]:
  "ts_cache (append_history now tid a b c d e f s) = ts_cache s"
  "map_option td_rows (ts_conn (append_history now tid a b c d e f s))
     = map_option td_rows (ts_conn s)"
  "(ts_conn (append_history now tid a b c d e f s) = None) = (ts_conn s = None)"
  "ts_lazy (append_history now tid a b c d e f s) = ts_lazy s"
  by (simp_all add: append_history_def split: option.split)

lemma append_history_ok: "store_ok s \<Longrightarrow> store_ok (append_history now tid a b c d e f s)"
  by (erule store_ok_cong) simp_all

text \<open>What \<open>_get_task\<close> gives back, and that it only fills the cache.\<close>

lemma get_task_spec:
  assumes ok: "store_ok s" and g: "get_task tid s = (found, s')"
  shows "store_ok s'" and "ts_conn s' = ts_conn s" and "ts_lazy s' = ts_lazy s"
    and "found = map_of (ts_cache s') tid"
    and "\<And>t. found = Some t \<Longrightarrow> task_ok tid t"
    and "\<And>db. ts_conn s = Some db \<Longrightarrow> ts_lazy s \<Longrightarrow>
      map_option from_row found = map_option from_row (map_of (td_rows db) tid)"
    and "\<And>db t. ts_conn s = Some db \<Longrightarrow> found = Some t \<Longrightarrow>
      \<exists>r. map_of (td_rows db) tid = Some r \<and> from_row r = from_row t"
proof -
  consider (hit) t where "map_of (ts_cache s) tid = Some t" "found = Some t" "s' = s"
    | (off) "map_of (ts_cache s) tid = None" "ts_conn s = None \<or> \<not> ts_lazy s" "found = None" "s' = s"
    | (miss) db where "map_of (ts_cache s) tid = None" "ts_conn s = Some db" "ts_lazy s"
        "map_of (td_rows db) tid = None" "found = None" "s' = s"
    | (fill) db r where "map_of (ts_cache s) tid = None" "ts_conn s = Some db" "ts_lazy s"
        "map_of (td_rows db) tid = Some r" "found = Some (from_row r)"
        "s' = s\<lparr>ts_cache := AList.update tid (from_row r) (ts_cache s)\<rparr>"
  proof (cases "map_of (ts_cache s) tid")
    case (Some t)
    then show thesis using g by (intro hit [of t]) (simp_all add: get_task_def)
  next
    case None
    note c = this
    show thesis
    proof (cases "ts_conn s = None \<or> \<not> ts_lazy s")
      case True
      then show thesis using g c by (intro off) (auto simp: get_task_def split: option.splits)
    next
      case False
      then obtain db where db: "ts_conn s = Some db" "ts_lazy s" by auto
      show thesis
      proof (cases "map_of (td_rows db) tid")
        case None
        then show thesis using g c db by (intro miss [of db]) (simp_all add: get_task_def)
      next
        case (Some r)
        then show thesis using g c db by (intro fill [of db r]) (simp_all add: get_task_def)
      qed
    qed
  qed
  note cases = this
  show "ts_conn s' = ts_conn s" "ts_lazy s' = ts_lazy s" "found = map_of (ts_cache s') tid"
    using cases by (cases; simp)+
  show "task_ok tid t" if "found = Some t" for t
    using cases
  proof cases
    case (hit t')
    then show ?thesis using that store_okD(1) [OF ok] by simp
  next
    case (fill db r)
    then show ?thesis using that tasks_okD(3) [OF store_okD(2) [OF ok fill(2)] fill(4)] by auto
  qed (use that in simp_all)
  show row: "\<exists>r. map_of (td_rows db) tid = Some r \<and> from_row r = from_row t"
    if "ts_conn s = Some db" "found = Some t" for db t
    using cases
  proof cases
    case (hit t')
    then show ?thesis
      using that task_table.coherent_lookD [OF store_okD(3) [OF ok that(1)] hit(1)] by simp
  qed (use that in auto)
  show "map_option from_row found = map_option from_row (map_of (td_rows db) tid)"
    if "ts_conn s = Some db" "ts_lazy s" for db
    using cases
  proof cases
    case (hit t)
    then show ?thesis using row [OF that(1) hit(2)] by auto
  qed (use that in auto)
  show "store_ok s'"
    using cases
  proof cases
    case (fill db r)
    have "cache_coherent (AList.update tid (from_row r) (ts_cache s)) (td_rows db)"
      by (rule task_table.coherent_fill [OF store_okD(3) [OF ok fill(2)] fill(4)]) simp
    moreover have "task_ok tid r" by (rule tasks_okD(3) [OF store_okD(2) [OF ok fill(2)] fill(4)])
    ultimately show ?thesis using ok fill by (auto simp: store_ok_def split: if_splits)
  qed (use ok in simp_all)
qed

lemma pop_cache_ok: "store_ok s \<Longrightarrow> store_ok (pop_cache tid s)"
  by (auto simp: store_ok_def pop_cache_def task_table.coherent_evict split: if_splits)

text \<open>Saving a changed task whose id and idempotency key are those of the cached one.\<close>

lemma save_task_simps [simp]:
  "ts_cache (store_task tid t s) = AList.update tid t (ts_cache s)"
  "ts_lazy (store_task tid t s) = ts_lazy s"
  "(ts_conn (store_task tid t s) = None) = (ts_conn s = None)"
  by (simp_all add: store_task_def save_task_def split: option.split)

lemma store_task_conn:
  "ts_conn (store_task tid t s) =
    map_option (\<lambda>db. db\<lparr>td_rows := put_row (t_id t) (to_row t) (td_rows db)\<rparr>) (ts_conn s)"
  by (simp add: store_task_def save_task_def split: option.split)

lemma store_task_ok:
  assumes ok: "store_ok s" and t: "task_ok tid t"
    and fits: "\<And>db. ts_conn s = Some db \<Longrightarrow> row_fits (td_rows db) tid t"
  shows "store_ok (store_task tid t s)"
proof -
  have id: "t_id t = tid" using t by (simp add: task_ok_def)
  have "tasks_ok (put_row tid (to_row t) (td_rows db))
      \<and> cache_coherent (AList.update tid t (ts_cache s)) (put_row tid (to_row t) (td_rows db))"
    if "ts_conn s = Some db" for db
    using that store_okD(2,3) [OF ok that] fits [OF that]
    by (auto intro: task_table.ok_put task_table.coherent_write)
  then show ?thesis
    using ok t by (auto simp: store_ok_def store_task_conn id split: if_splits)
qed

lemma cached_fits:
  assumes ok: "store_ok s" and c: "map_of (ts_cache s) tid = Some t0"
    and t: "task_ok tid t" and key: "t_idem_key t = t_idem_key t0" and db: "ts_conn s = Some db"
  shows "row_fits (td_rows db) tid t"
proof -
  obtain r where r: "map_of (td_rows db) tid = Some r" "from_row r = from_row t0"
    using task_table.coherent_lookD [OF store_okD(3) [OF ok db] c] by blast
  have "row_fits (td_rows db) tid r" by (rule tasks_okD(2) [OF store_okD(2) [OF ok db] r(1)])
  then show ?thesis using t key from_row_eqD(3) [OF r(2)] by (simp add: row_fits_def)
qed

lemma store_cached_ok:
  assumes "store_ok s" "map_of (ts_cache s) tid = Some t0" "task_ok tid t"
    "t_idem_key t = t_idem_key t0"
  shows "store_ok (store_task tid t s)"
  by (rule store_task_ok) (use assms cached_fits in blast)+

lemma modify_task_ok:
  assumes ok: "store_ok s" and m: "modify_task tid f s = (found, s')"
    and f: "\<And>t. t_id (f t) = t_id t" "\<And>t. t_idem_key (f t) = t_idem_key t"
      "\<And>t. t_status t \<in> set valid_statuses \<Longrightarrow> t_status (f t) \<in> set valid_statuses"
  shows "store_ok s'"
proof -
  obtain r s1 where g: "get_task tid s = (r, s1)" by fastforce
  note spec = get_task_spec [OF ok g]
  show ?thesis
  proof (cases r)
    case None
    then show ?thesis using m g spec(1) by (simp add: modify_task_def)
  next
    case (Some t)
    have "task_ok tid (f t)" using spec(5) [OF Some] f by (auto simp: task_ok_def)
    moreover have "map_of (ts_cache s1) tid = Some t" using spec(4) Some by simp
    ultimately have "store_ok (store_task tid (f t) s1)"
      using store_cached_ok [OF spec(1)] f(2) by blast
    then show ?thesis using m g Some by (simp add: modify_task_def)
  qed
qed

end
