(* ===== verification/TaskOpsOk.thy ===== *)
theory TaskOpsOk
  imports TaskCache
begin

text \<open>
  Every operation of \<open>TaskStore\<close> keeps the store invariant, and hence a store that is
  opened on a well-formed database stays well formed under any sequence of operations.
\<close>

section \<open>Writes that bypass the cache\<close>

lemma map_of_fold_delete:
  "map_of (fold AList.delete ks c) = (\<lambda>j. if j \<in> set ks then None else map_of c j)"
  by (induction ks arbitrary: c) auto

lemma task_ok_fold_delete:
  "(\<And>k t. map_of c k = Some t \<Longrightarrow> task_ok k t) \<Longrightarrow>
    map_of (fold AList.delete ks c) k = Some t \<Longrightarrow> task_ok k t"
  by (simp add: map_of_fold_delete split: if_splits)

lemma bypass_ok:
  assumes ok: "store_ok s" and db: "ts_conn s = Some db"
    and db': "tasks_ok (td_rows db')"
    and frame: "\<And>j. j \<notin> set ids \<Longrightarrow> map_of (td_rows db') j = map_of (td_rows db) j"
    and s': "ts_conn s' = Some db'" "ts_cache s' = fold AList.delete ids (ts_cache s)"
  shows "store_ok s'"
  unfolding store_ok_def s'
proof (intro conjI allI impI)
  show "task_ok k t" if "map_of (fold AList.delete ids (ts_cache s)) k = Some t" for k t
    using task_ok_fold_delete [OF store_okD(1) [OF ok] that] .
  show "tasks_ok (td_rows d)" if "Some db' = Some d" for d using db' that by simp
  show "cache_coherent (fold AList.delete ids (ts_cache s)) (td_rows d)" if "Some db' = Some d" for d
    using task_table.coherent_bypass [OF store_okD(3) [OF ok db] frame] that by simp
qed

lemma update_rows_frame:
  assumes "tasks_ok tbl" and "\<And>r. P r \<Longrightarrow> map_of tbl (t_id r) = Some r \<Longrightarrow> t_id r \<in> set ids"
    and "j \<notin> set ids"
  shows "map_of (update_rows P f tbl) j = map_of tbl j"
proof (cases "map_of tbl j")
  case None
  then show ?thesis by (simp add: map_of_update_rows)
next
  case (Some r)
  then have "t_id r = j" by (rule tasks_okD(4) [OF assms(1)])
  then have "\<not> P r" using assms(2,3) Some by metis
  then show ?thesis using Some by (simp add: map_of_update_rows)
qed

lemma bypass_update_ok:
  assumes ok: "store_ok s" and db: "ts_conn s = Some db"
    and db': "ts_conn s' = Some db'" "td_rows db' = update_rows P f (td_rows db)"
    and cache: "ts_cache s' = fold AList.delete ids (ts_cache s)"
    and P: "\<And>r. P r \<Longrightarrow> map_of (td_rows db) (t_id r) = Some r \<Longrightarrow> t_id r \<in> set ids"
    and f: "\<And>r. t_id (f r) = t_id r" "\<And>r. t_idem_key (f r) = t_idem_key r"
      "\<And>r. t_status (f r) \<in> set valid_statuses"
  shows "store_ok s'"
proof (rule bypass_ok [OF ok db _ _ db'(1) cache])
  note tbl = store_okD(2) [OF ok db]
  show "tasks_ok (td_rows db')" unfolding db'(2) by (rule tasks_ok_update_rows [OF tbl f])
  show "map_of (td_rows db') j = map_of (td_rows db) j" if "j \<notin> set ids" for j
    unfolding db'(2) by (rule update_rows_frame [OF tbl P that])
qed

lemma claimed_keeps [simp]:
  "t_id (claimed now owner token r) = t_id r"
  "t_idem_key (claimed now owner token r) = t_idem_key r"
  "t_status (claimed now owner token r) = ''running''"
  "t_depends (claimed now owner token r) = t_depends r"
  "t_owner (claimed now owner token r) = owner"
  by (simp_all add: claimed_def)

lemma unclaimed_keeps [simp]:
  "t_id (unclaimed now r) = t_id r" "t_idem_key (unclaimed now r) = t_idem_key r"
  "t_status (unclaimed now r) = ''pending''" "t_owner (unclaimed now r) = ''''"
  by (simp_all add: unclaimed_def)

lemma valid_status_simps [simp]:
  "''pending'' \<in> set valid_statuses" "''running'' \<in> set valid_statuses"
  "''completed'' \<in> set valid_statuses" "''canceled'' \<in> set valid_statuses"
  by (simp_all add: valid_statuses_def)

section \<open>Operation by operation\<close>

lemma delete_ok: "store_ok s \<Longrightarrow> store_ok (snd (task_delete tid s))"
proof -
  assume ok: "store_ok s"
  show ?thesis
  proof (cases "ts_conn s")
    case None
    then show ?thesis using pop_cache_ok [OF ok, of tid]
      by (simp add: task_delete_def delete_task_def pop_cache_def)
  next
    case (Some db)
    show ?thesis
      by (rule bypass_ok [OF ok Some, of "db\<lparr>td_rows := AList.delete tid (td_rows db)\<rparr>" "[tid]"])
        (use Some store_okD(2) [OF ok Some] in
          \<open>simp_all add: task_delete_def delete_task_def pop_cache_def tasks_ok_delete\<close>)
  qed
qed

lemma reap_simps:
  "(ts_conn (snd (reap_expired ttl now s)) = None) = (ts_conn s = None)"
  "ts_lazy (snd (reap_expired ttl now s)) = ts_lazy s"
  "ts_seq (snd (reap_expired ttl now s)) = ts_seq s"
  by (simp_all add: reap_expired_def Let_def split: option.split)

lemma reap_ok: "store_ok s \<Longrightarrow> store_ok (snd (reap_expired ttl now s))"
proof -
  assume ok: "store_ok s"
  show ?thesis
  proof (cases "ts_conn s")
    case None
    then show ?thesis using ok by (simp add: reap_expired_def)
  next
    case (Some db)
    let ?ids = "expired_ids (now - ttl) (td_rows db)"
    have "tasks_ok (fold AList.delete ?ids (td_rows db)) \<and>
        map_of (fold AList.delete ?ids (td_rows db))
          = (\<lambda>j. if j \<in> set ?ids then None else map_of (td_rows db) j)"
      by (rule task_table.del_all [OF store_okD(2) [OF ok Some]])
    then show ?thesis
      using bypass_ok [OF ok Some, of "db\<lparr>td_rows := fold AList.delete ?ids (td_rows db)\<rparr>" ?ids]
      by (simp add: reap_expired_def Some ok Let_def)
  qed
qed

lemma find_key_spec:
  assumes ok: "store_ok s" and f: "find_by_idempotency_key key s = (found, s')"
  shows "store_ok s' \<and> ts_conn s' = ts_conn s \<and> ts_lazy s' = ts_lazy s \<and> ts_seq s' = ts_seq s
    \<and> (found = None \<longrightarrow> key \<noteq> [] \<longrightarrow> (\<forall>db. ts_conn s = Some db \<longrightarrow>
         (\<forall>k r. map_of (td_rows db) k = Some r \<longrightarrow> t_idem_key r \<noteq> key)))
    \<and> (\<forall>t. found = Some t \<longrightarrow> (\<exists>db r. ts_conn s = Some db \<and> map_of (td_rows db) (t_id t) = Some r
         \<and> t = from_row r \<and> t_idem_key t = key))"
proof (cases "ts_conn s")
  case None
  then show ?thesis using ok f by (simp add: find_by_idempotency_key_def)
next
  case (Some db)
  note tbl = store_okD(2) [OF ok Some]
  show ?thesis
  proof (cases "key = []")
    case True
    then show ?thesis using ok f Some by (simp add: find_by_idempotency_key_def)
  next
    case False
    show ?thesis
    proof (cases "List.find (\<lambda>(k, r). t_idem_key r = key) (td_rows db)")
      case None
      then have "t_idem_key r \<noteq> key" if "map_of (td_rows db) k = Some r" for k r
        using map_of_SomeD [OF that] by (auto simp: find_None_iff)
      then show ?thesis using ok f Some None False by (simp add: find_by_idempotency_key_def)
    next
      case (Some p)
      obtain k r where p: "p = (k, r)" by (cases p)
      have mem: "(k, r) \<in> set (td_rows db)" and key: "t_idem_key r = key"
        using Some p by (auto simp: find_Some_iff in_set_conv_nth)
      have kr: "map_of (td_rows db) k = Some r"
        using mem dict_mem_iff [OF tasks_okD(1) [OF tbl]] by simp
      have id: "t_id r = k" by (rule tasks_okD(4) [OF tbl kr])
      have s': "found = Some (from_row r)" "s' = s\<lparr>ts_cache := AList.update k (from_row r) (ts_cache s)\<rparr>"
        using f \<open>ts_conn s = Some db\<close> Some p False id by (simp_all add: find_by_idempotency_key_def)
      have "cache_coherent (AList.update k (from_row r) (ts_cache s)) (td_rows db)"
        by (rule task_table.coherent_fill [OF store_okD(3) [OF ok \<open>ts_conn s = Some db\<close>] kr]) simp
      then have "store_ok s'"
        using ok s' \<open>ts_conn s = Some db\<close> tasks_okD(3) [OF tbl kr]
        by (auto simp: store_ok_def split: if_splits)
      then show ?thesis using s' kr id key \<open>ts_conn s = Some db\<close> by simp
    qed
  qed
qed

lemma index_task_simps [simp]:
  "ts_cache (index_task t s) = ts_cache s"
  "map_option td_rows (ts_conn (index_task t s)) = map_option td_rows (ts_conn s)"
  "ts_lazy (index_task t s) = ts_lazy s" "ts_deduped (index_task t s) = ts_deduped s"
  "(ts_conn (index_task t s) = None) = (ts_conn s = None)"
  by (simp_all add: index_task_def split: option.split)

lemma prepare_task_simps [simp]:
  "t_idem_key (prepare_task now t) = t_idem_key t" "t_id (prepare_task now t) = t_id t"
  "t_status (prepare_task now t) \<in> set valid_statuses"
  by (simp_all add: prepare_task_def)

text \<open>The task that \<open>submit\<close> stores when no row has its idempotency key.\<close>

definition assigned :: "pyfloat \<Rightarrow> task \<Rightarrow> int \<Rightarrow> task" where
  "assigned now t n = (if t_id t = [] then t\<lparr>t_id := fresh_task_id now (n + 1)\<rparr> else t)"

lemma submit_new_spec:
  "submit_new now t s = (u, s') \<Longrightarrow> u = assigned now t (ts_seq s) \<and>
    s' = index_task u (store_task (t_id u) u (s\<lparr>ts_deduped := False,
           ts_seq := (if t_id t = [] then ts_seq s + 1 else ts_seq s)\<rparr>))"
  by (auto simp: submit_new_def assigned_def Let_def)

lemma submit_new_ok:
  assumes ok: "store_ok s" and new: "submit_new now t s = (u, s')"
    and st: "t_status t \<in> set valid_statuses"
    and free: "\<And>db k r. t_idem_key t \<noteq> [] \<Longrightarrow> ts_conn s = Some db \<Longrightarrow>
      map_of (td_rows db) k = Some r \<Longrightarrow> t_idem_key r \<noteq> t_idem_key t"
  shows "store_ok s'"
proof -
  let ?s = "s\<lparr>ts_deduped := False, ts_seq := (if t_id t = [] then ts_seq s + 1 else ts_seq s)\<rparr>"
  note spec = submit_new_spec [OF new]
  have key: "t_idem_key u = t_idem_key t" and "t_status u = t_status t"
    using spec by (simp_all add: assigned_def)
  then have u: "task_ok (t_id u) u" using st by (simp add: task_ok_def)
  have "store_ok ?s" by (rule store_ok_cong [OF ok]) simp_all
  moreover have "row_fits (td_rows db) (t_id u) u" if "ts_conn ?s = Some db" for db
    using u free key that by (auto simp: row_fits_def)
  ultimately have "store_ok (store_task (t_id u) u ?s)" using store_task_ok u by blast
  then show ?thesis using spec by (auto elim: store_ok_cong)
qed

lemma submit_ok: "store_ok s \<Longrightarrow> store_ok (snd (submit ttl now t s))"
proof -
  assume "store_ok s"
  then have ok: "store_ok (snd (reap_expired ttl now s))" (is "store_ok ?s") by (rule reap_ok)
  obtain found s1 where hit: "(if t_idem_key t = [] then (None, ?s)
      else find_by_idempotency_key (t_idem_key t) ?s) = (found, s1)" by fastforce
  obtain u s2 where new: "submit_new now (prepare_task now t) s1 = (u, s2)" by fastforce
  have s1: "store_ok s1" "ts_conn s1 = ts_conn ?s"
    using hit ok find_key_spec [OF ok] by (auto split: if_splits)
  show ?thesis
  proof (cases found)
    case (Some old)
    then have "snd (submit ttl now t s) = s1\<lparr>ts_deduped := True\<rparr>"
      using hit by (auto simp: submit_def Let_def)
    then show ?thesis using store_ok_cong [OF s1(1)] by simp
  next
    case None
    have "store_ok s2"
    proof (rule submit_new_ok [OF s1(1) new])
      fix db k r
      assume "t_idem_key (prepare_task now t) \<noteq> []" "ts_conn s1 = Some db"
        "map_of (td_rows db) k = Some r"
      then show "t_idem_key r \<noteq> t_idem_key (prepare_task now t)"
        using find_key_spec [OF ok, of "t_idem_key t" found s1] hit None s1(2)
        by (auto split: if_splits)
    qed simp
    then show ?thesis using hit new None by (auto simp: submit_def Let_def)
  qed
qed

lemma with_status_simps [simp]:
  "t_id (with_status now st res err n t) = t_id t"
  "t_idem_key (with_status now st res err n t) = t_idem_key t"
  "t_status (with_status now st res err n t) = st"
  by (simp_all add: with_status_def)

lemma update_status_modify:
  "update_status now tid st res err n s =
    (if st \<in> set valid_statuses
     then (let (r, s') = modify_task tid (with_status now st res err n) s in (r \<noteq> None, s'))
     else (False, snd (get_task tid s)))"
  by (simp add: update_status_def modify_task_def Let_def split: prod.split option.split)

lemma update_status_ok: "store_ok s \<Longrightarrow> store_ok (snd (update_status now tid st res err n s))"
proof -
  assume ok: "store_ok s"
  obtain r s1 where g: "get_task tid s = (r, s1)" by fastforce
  obtain u s2 where m: "modify_task tid (with_status now st res err n) s = (u, s2)" by fastforce
  show ?thesis
  proof (cases "st \<in> set valid_statuses")
    case True
    have "store_ok s2" by (rule modify_task_ok [OF ok m]) (simp_all add: True)
    then show ?thesis using True m by (simp add: update_status_modify)
  next
    case False
    then show ?thesis using get_task_spec(1) [OF ok g] g by (simp add: update_status_modify)
  qed
qed

lemma cancel_ok: "store_ok s \<Longrightarrow> store_ok (snd (cancel now tid s))"
proof -
  assume ok: "store_ok s"
  obtain r s1 where g: "get_task tid s = (r, s1)" by fastforce
  have s1: "store_ok s1" by (rule get_task_spec(1) [OF ok g])
  show ?thesis using s1 update_status_ok [OF s1] g
    by (simp add: cancel_def split: option.split)
qed

text \<open>The operations that are \<open>modify_task\<close> with some change.\<close>

lemma snd_modify_ok:
  assumes "store_ok s" "\<And>t. t_id (f t) = t_id t" "\<And>t. t_idem_key (f t) = t_idem_key t"
    "\<And>t. t_status t \<in> set valid_statuses \<Longrightarrow> t_status (f t) \<in> set valid_statuses"
  shows "store_ok (snd (modify_task tid f s))"
  using assms by (metis modify_task_ok prod.collapse)

lemma modify_ops_ok:
  assumes ok: "store_ok s"
  shows "store_ok (snd (rerun now tid s))" "store_ok (snd (add_artifacts now tid ids s))"
    "store_ok (snd (set_evidence now tid ref s))" "store_ok (snd (set_review_state now tid rv s))"
    "store_ok (snd (claim_lease now tid lid s))" "store_ok (snd (requeue now tid actor reason s))"
  using snd_modify_ok [OF ok] append_history_ok [OF snd_modify_ok [OF ok]]
  by (auto simp: rerun_def add_artifacts_def set_evidence_def set_review_state_def
      claim_lease_def requeue_def ok split_beta split: prod.split option.split)

lemma moved_simps [simp]:
  "t_id (moved now st rv t) = t_id t" "t_idem_key (moved now st rv t) = t_idem_key t"
  "t_status (moved now st rv t) = (if st = [] then t_status t else st)"
  "t_review (moved now st rv t) = (if rv = [] then t_review t else rv)"
  by (simp_all add: moved_def)

lemma move_task_ok: "store_ok s \<Longrightarrow> store_ok (snd (move_task now tid st rv actor reason s))"
proof -
  assume ok: "store_ok s"
  obtain r s1 where g: "get_task tid s = (r, s1)" by fastforce
  note spec = get_task_spec [OF ok g]
  show ?thesis
  proof (cases "r = None \<or> st \<noteq> [] \<and> st \<notin> set valid_statuses
      \<or> rv \<noteq> [] \<and> rv \<notin> set valid_review_states")
    case True
    then show ?thesis using g spec(1) by (auto simp: move_task_def split: option.split)
  next
    case False
    then obtain t where r: "r = Some t" and st: "st = [] \<or> st \<in> set valid_statuses" by auto
    have "task_ok tid (moved now st rv t)"
      using spec(5) [OF r] st by (auto simp: task_ok_def)
    moreover have "map_of (ts_cache s1) tid = Some t" using spec(4) r by simp
    ultimately have "store_ok (store_task tid (moved now st rv t) s1)"
      using store_cached_ok [OF spec(1)] by simp
    then show ?thesis using g r False by (auto simp: move_task_def Let_def intro: append_history_ok)
  qed
qed

section \<open>The worker queue\<close>

lemma deps_loop_spec:
  assumes "store_ok s" "deps_loop ds s = (b, s')"
  shows "store_ok s' \<and> ts_conn s' = ts_conn s \<and> ts_lazy s' = ts_lazy s \<and>
    (\<forall>db. ts_conn s = Some db \<longrightarrow> ts_lazy s \<longrightarrow> (b \<longleftrightarrow> (\<forall>d \<in> set ds.
       \<exists>r. map_of (td_rows db) d = Some r \<and> t_status r = ''completed'')))"
  using assms
proof (induction ds arbitrary: s)
  case Nil
  then show ?case by simp
next
  case (Cons d ds)
  obtain r s1 where g: "get_task d s = (r, s1)" by fastforce
  note spec = get_task_spec [OF Cons.prems(1) g]
  show ?case
  proof (cases "\<exists>t. r = Some t \<and> t_status t = ''completed''")
    case True
    then obtain t where r: "r = Some t" and st: "t_status t = ''completed''" by blast
    have "deps_loop ds s1 = (b, s')" using Cons.prems(2) g r st by simp
    note ih = Cons.IH [OF spec(1) this]
    have "\<exists>q. map_of (td_rows db) d = Some q \<and> t_status q = ''completed''"
      if "ts_conn s = Some db" for db
      using spec(7) [OF that r] st from_row_eqD(2) by metis
    then show ?thesis using ih spec(2,3) by auto
  next
    case False
    then have b: "\<not> b" "s' = s1" using Cons.prems(2) g by (auto split: option.splits if_splits)
    have "\<not> (\<exists>q. map_of (td_rows db) d = Some q \<and> t_status q = ''completed'')"
      if "ts_conn s = Some db" "ts_lazy s" for db
    proof
      assume "\<exists>q. map_of (td_rows db) d = Some q \<and> t_status q = ''completed''"
      then obtain q where q: "map_of (td_rows db) d = Some q" "t_status q = ''completed''" by blast
      with spec(6) [OF that] obtain t where "r = Some t" "from_row t = from_row q" by auto
      then show False using False q(2) from_row_eqD(2) by metis
    qed
    then show ?thesis using b spec(1,2,3) by auto
  qed
qed

lemma deps_met_spec:
  assumes ok: "store_ok s" and d: "deps_met tid s = (b, s')"
  shows "store_ok s' \<and> ts_conn s' = ts_conn s \<and> ts_lazy s' = ts_lazy s"
    and "\<And>db r. ts_conn s = Some db \<Longrightarrow> ts_lazy s \<Longrightarrow> map_of (td_rows db) tid = Some r \<Longrightarrow>
      b \<longleftrightarrow> (\<forall>d \<in> set (t_depends r). \<exists>q. map_of (td_rows db) d = Some q \<and> t_status q = ''completed'')"
proof -
  obtain f s1 where g: "get_task tid s = (f, s1)" by fastforce
  note spec = get_task_spec [OF ok g]
  show "store_ok s' \<and> ts_conn s' = ts_conn s \<and> ts_lazy s' = ts_lazy s"
    using d g spec(1-3) deps_loop_spec [OF spec(1)] by (auto simp: deps_met_def split: option.splits)
  fix db r
  assume db: "ts_conn s = Some db" "ts_lazy s" "map_of (td_rows db) tid = Some r"
  then obtain t where t: "f = Some t" "from_row t = from_row r"
    using spec(6) by fastforce
  then have "deps_loop (t_depends r) s1 = (b, s')"
    using d g from_row_eqD(4) [OF t(2)] by (simp add: deps_met_def)
  then show "b \<longleftrightarrow> (\<forall>d \<in> set (t_depends r).
      \<exists>q. map_of (td_rows db) d = Some q \<and> t_status q = ''completed'')"
    using deps_loop_spec [OF spec(1)] spec(2,3) db by simp
qed

lemma claim_row_conn:
  assumes "ts_conn s = Some db"
  shows "\<exists>db'. ts_conn (claim_row now owner token tid s) = Some db' \<and>
    td_rows db' = update_rows (\<lambda>r. t_id r = tid \<and> t_status r = ''pending'')
      (claimed now owner token) (td_rows db)"
  and "ts_cache (claim_row now owner token tid s) = ts_cache s"
  and "ts_lazy (claim_row now owner token tid s) = ts_lazy s"
  using assms by (simp_all add: claim_row_def append_history_def)

lemma claim_row_ok:
  assumes ok: "store_ok s" and db: "ts_conn s = Some db"
  shows "store_ok (pop_cache tid (claim_row now owner token tid s))"
proof -
  obtain db' where db': "ts_conn (claim_row now owner token tid s) = Some db'"
      "td_rows db' = update_rows (\<lambda>r. t_id r = tid \<and> t_status r = ''pending'')
        (claimed now owner token) (td_rows db)"
    using claim_row_conn(1) [OF db] by blast
  show ?thesis
    by (rule bypass_update_ok [OF ok db _ db'(2), where ids = "[tid]"])
      (simp_all add: pop_cache_def db'(1) claim_row_conn(2) [OF db])
qed

lemma revert_claim_simps:
  assumes "ts_conn s = Some db"
  shows "ts_conn (revert_claim now tid s) = Some (db\<lparr>td_rows :=
      update_rows (\<lambda>r. t_id r = tid \<and> t_status r = ''running'') (unclaimed now) (td_rows db)\<rparr>)"
  and "ts_lazy (revert_claim now tid s) = ts_lazy s"
  using assms by (simp_all add: revert_claim_def pop_cache_def)

lemma revert_claim_ok: "store_ok s \<Longrightarrow> store_ok (revert_claim now tid s)"
proof -
  assume ok: "store_ok s"
  show ?thesis
  proof (cases "ts_conn s")
    case None
    then show ?thesis using pop_cache_ok [OF ok, of tid] by (simp add: revert_claim_def)
  next
    case (Some db)
    show ?thesis
      by (rule bypass_update_ok [OF ok Some revert_claim_simps(1) [OF Some],
            where ids = "[tid]" and P = "\<lambda>r. t_id r = tid \<and> t_status r = ''running''"
            and f = "unclaimed now"])
        (simp_all add: revert_claim_def pop_cache_def Some)
  qed
qed

lemma dequeue_ok: "store_ok s \<Longrightarrow> store_ok (snd (dequeue now token team owner s))"
proof -
  assume ok: "store_ok s"
  show ?thesis
  proof (cases "ts_conn s")
    case None
    then show ?thesis using ok by (simp add: dequeue_def)
  next
    case (Some db)
    note db = this
    let ?team = "if team = [] then ''default'' else team"
    show ?thesis
    proof (cases "owner = [] \<or> next_claim ?team (td_rows db) = None")
      case True
      then show ?thesis using ok db by (auto simp: dequeue_def)
    next
      case False
      then obtain tid where tid: "next_claim ?team (td_rows db) = Some tid" "owner \<noteq> []" by auto
      obtain f s1 where g: "get_task tid (pop_cache tid (claim_row now owner token tid s)) = (f, s1)"
        by fastforce
      note s1 = get_task_spec(1) [OF claim_row_ok [OF ok db] g]
      show ?thesis
      proof (cases f)
        case None
        then show ?thesis using db tid g s1 by (simp add: dequeue_def)
      next
        case (Some t)
        obtain b s2 where d: "deps_met (t_id t) s1 = (b, s2)" by fastforce
        then show ?thesis
          using db tid g Some deps_met_spec(1) [OF s1 d] revert_claim_ok
          by (auto simp: dequeue_def)
      qed
    qed
  qed
qed

lemma fold_history_simps [simp]:
  "ts_cache (fold (\<lambda>tid. append_history now tid a b c d e f) ids s) = ts_cache s"
  "map_option td_rows (ts_conn (fold (\<lambda>tid. append_history now tid a b c d e f) ids s))
    = map_option td_rows (ts_conn s)"
  "ts_lazy (fold (\<lambda>tid. append_history now tid a b c d e f) ids s) = ts_lazy s"
  by (induction ids arbitrary: s) simp_all

definition orphan_ids :: "str \<Rightarrow> (str, task) dict \<Rightarrow> str list" where
  "orphan_ids owner tbl = map fst (filter (\<lambda>(k, r). orphan owner r) tbl)"

lemma orphan_ids_iff:
  assumes "tasks_ok tbl"
  shows "k \<in> set (orphan_ids owner tbl) \<longleftrightarrow> (\<exists>r. map_of tbl k = Some r \<and> orphan owner r)"
  using dict_mem_iff [OF tasks_okD(1) [OF assms]] by (force simp: orphan_ids_def)

text \<open>The effect of \<open>reset_orphans\<close> on rows and cache.\<close>

lemma reset_orphans_spec:
  assumes ok: "store_ok s" and db: "ts_conn s = Some db" and owner: "owner \<noteq> []"
  shows "\<exists>db'. ts_conn (snd (reset_orphans now owner s)) = Some db'
    \<and> td_rows db' = update_rows (orphan owner) (unclaimed now) (td_rows db)"
  and "ts_cache (snd (reset_orphans now owner s))
    = fold AList.delete (orphan_ids owner (td_rows db)) (ts_cache s)"
  and "fst (reset_orphans now owner s) = int (length (orphan_ids owner (td_rows db)))"
proof -
  let ?ids = "orphan_ids owner (td_rows db)"
  let ?s1 = "s\<lparr>ts_conn := Some (db\<lparr>td_rows :=
      update_rows (orphan owner) (unclaimed now) (td_rows db)\<rparr>)\<rparr>"
  let ?s2 = "fold (\<lambda>tid. append_history now tid ''running'' ''pending'' ''none'' ''none''
      owner ''orphan reset'') ?ids ?s1"
  have "map_option td_rows (ts_conn ?s2) = Some (update_rows (orphan owner) (unclaimed now) (td_rows db))"
    by simp
  then obtain db2 where db2: "ts_conn ?s2 = Some db2"
      "td_rows db2 = update_rows (orphan owner) (unclaimed now) (td_rows db)"
    unfolding map_option_eq_Some by blast
  have "\<not> orphan owner r" if "?ids = []" "(k, r) \<in> set (td_rows db)" for k r
    using that by (force simp: orphan_ids_def filter_empty_conv)
  then have none: "update_rows (orphan owner) (unclaimed now) (td_rows db) = td_rows db"
    if "?ids = []" using that by (force simp: update_rows_def intro: map_idI)
  have r: "reset_orphans now owner s = (if ?ids = [] then (0, s)
      else (int (length ?ids), ?s2\<lparr>ts_cache := fold AList.delete ?ids (ts_cache ?s2)\<rparr>))"
    using db owner unfolding reset_orphans_def orphan_ids_def [symmetric] by (simp add: Let_def)
  show "\<exists>db'. ts_conn (snd (reset_orphans now owner s)) = Some db'
    \<and> td_rows db' = update_rows (orphan owner) (unclaimed now) (td_rows db)"
    using r db2 none db by auto
  show "ts_cache (snd (reset_orphans now owner s)) = fold AList.delete ?ids (ts_cache s)"
    "fst (reset_orphans now owner s) = int (length ?ids)"
    using r by auto
qed

lemma reset_orphans_ok: "store_ok s \<Longrightarrow> store_ok (snd (reset_orphans now owner s))"
proof -
  assume ok: "store_ok s"
  show ?thesis
  proof (cases "ts_conn s = None \<or> owner = []")
    case True
    then show ?thesis using ok by (auto simp: reset_orphans_def split: option.split)
  next
    case False
    then obtain db where db: "ts_conn s = Some db" and owner: "owner \<noteq> []" by auto
    note tbl = store_okD(2) [OF ok db]
    obtain db' where db': "ts_conn (snd (reset_orphans now owner s)) = Some db'"
        "td_rows db' = update_rows (orphan owner) (unclaimed now) (td_rows db)"
      using reset_orphans_spec(1) [OF ok db owner] by blast
    show ?thesis
      by (rule bypass_update_ok [OF ok db db' reset_orphans_spec(2) [OF ok db owner]])
        (auto simp: orphan_ids_iff [OF tbl])
  qed
qed

end
