(* ===== verification/TaskProps.thy ===== *)
theory TaskProps
  imports TaskOpsOk
begin

text \<open>
  The properties of the task store: the cache never disagrees with the table along any
  run; the worker queue claims the best ready task, at most once; a blocked task at the
  head of the queue blocks the tasks behind it; submission is idempotent; orphan reset,
  cancellation and the board.
\<close>

section \<open>Runs\<close>

text \<open>The state-changing calls of a client, with the clock readings and tokens they take.\<close>

datatype task_op =
    OpReap pyfloat pyfloat
  | OpSubmit pyfloat pyfloat task
  | OpGet str
  | OpList pyfloat pyfloat str str str int str
  | OpUpdate pyfloat str str "jobj option" str "int option"
  | OpCancel pyfloat str
  | OpRerun pyfloat str
  | OpArtifacts pyfloat str "str list"
  | OpDelete str
  | OpDequeue pyfloat str str str
  | OpDepsMet str
  | OpRequeue pyfloat str str str
  | OpReset pyfloat str
  | OpMove pyfloat str str str str str
  | OpEvidence pyfloat str str
  | OpReview pyfloat str str
  | OpLease pyfloat str str
  | OpFind str
  | OpClose

fun run_op :: "task_op \<Rightarrow> task_store \<Rightarrow> task_store" where
  "run_op (OpReap ttl now) s = snd (reap_expired ttl now s)"
| "run_op (OpSubmit ttl now t) s = snd (submit ttl now t s)"
| "run_op (OpGet tid) s = snd (get_task tid s)"
| "run_op (OpList ttl now st ag pr n tm) s = snd (task_list ttl now st ag pr n tm s)"
| "run_op (OpUpdate now tid st r e n) s = snd (update_status now tid st r e n s)"
| "run_op (OpCancel now tid) s = snd (cancel now tid s)"
| "run_op (OpRerun now tid) s = snd (rerun now tid s)"
| "run_op (OpArtifacts now tid ids) s = snd (add_artifacts now tid ids s)"
| "run_op (OpDelete tid) s = snd (task_delete tid s)"
| "run_op (OpDequeue now token team owner) s = snd (dequeue now token team owner s)"
| "run_op (OpDepsMet tid) s = snd (deps_met tid s)"
| "run_op (OpRequeue now tid actor reason) s = snd (requeue now tid actor reason s)"
| "run_op (OpReset now owner) s = snd (reset_orphans now owner s)"
| "run_op (OpMove now tid st rv actor reason) s = snd (move_task now tid st rv actor reason s)"
| "run_op (OpEvidence now tid ref) s = snd (set_evidence now tid ref s)"
| "run_op (OpReview now tid rv) s = snd (set_review_state now tid rv s)"
| "run_op (OpLease now tid lid) s = snd (claim_lease now tid lid s)"
| "run_op (OpFind key) s = snd (find_by_idempotency key s)"
| "run_op OpClose s = task_close s"

lemma snd_get_ok: "store_ok s \<Longrightarrow> store_ok (snd (get_task tid s))"
  by (metis get_task_spec(1) prod.collapse)

lemma snd_deps_ok: "store_ok s \<Longrightarrow> store_ok (snd (deps_met tid s))"
  by (metis deps_met_spec(1) prod.collapse)

lemma task_list_ok: "store_ok s \<Longrightarrow> store_ok (snd (task_list ttl now st ag pr n tm s))"
  by (simp add: task_list_def list_tasks_def Let_def reap_ok split: option.split prod.split)

lemma find_by_idempotency_ok: "store_ok s \<Longrightarrow> store_ok (snd (find_by_idempotency key s))"
  by (simp add: find_by_idempotency_def snd_get_ok split: option.split)

lemma close_ok: "store_ok s \<Longrightarrow> store_ok (task_close s)"
  by (simp add: store_ok_def task_close_def)

lemmas task_ops_ok = reap_ok submit_ok snd_get_ok task_list_ok update_status_ok cancel_ok
  modify_ops_ok delete_ok dequeue_ok snd_deps_ok reset_orphans_ok move_task_ok
  find_by_idempotency_ok close_ok

lemma run_op_ok: "store_ok s \<Longrightarrow> store_ok (run_op op s)"
  by (cases op) (simp_all add: task_ops_ok)

lemma run_ops_ok: "store_ok s \<Longrightarrow> store_ok (fold run_op ops s)"
  by (induction ops arbitrary: s) (simp_all add: run_op_ok)

lemma load_coherent:
  assumes ok: "tasks_ok tbl" and sub: "set rows \<subseteq> set tbl"
    and c: "cache_coherent c tbl" "\<And>k t. map_of c k = Some t \<Longrightarrow> task_ok k t"
  shows "cache_coherent (fold (\<lambda>(k, r) c. AList.update (t_id (from_row r)) (from_row r) c) rows c) tbl
    \<and> (\<forall>k t. map_of (fold (\<lambda>(k, r) c. AList.update (t_id (from_row r)) (from_row r) c) rows c) k
         = Some t \<longrightarrow> task_ok k t)"
  using sub c
proof (induction rows arbitrary: c)
  case Nil
  then show ?case by simp
next
  case (Cons p rows)
  obtain k r where p: "p = (k, r)" by (cases p)
  have kr: "map_of tbl k = Some r"
    using Cons.prems(1) p dict_mem_iff [OF tasks_okD(1) [OF ok]] by auto
  have id: "t_id r = k" "task_ok k r" by (rule tasks_okD(4,3) [OF ok kr])+
  have "cache_coherent (AList.update k (from_row r) c) tbl"
    by (rule task_table.coherent_fill [OF Cons.prems(2) kr]) simp
  then have a: "cache_coherent (AList.update (t_id (from_row r)) (from_row r) c) tbl"
    by (simp add: id)
  have b: "task_ok j t" if "map_of (AList.update (t_id (from_row r)) (from_row r) c) j = Some t" for j t
    using that Cons.prems(3) id by (auto split: if_splits)
  have "set rows \<subseteq> set tbl" using Cons.prems(1) by simp
  from Cons.IH [OF this a b] show ?case by (simp add: p)
qed

lemma init_ok:
  assumes "\<And>db. conn = Some db \<Longrightarrow> tasks_ok (td_rows db)"
  shows "store_ok (task_store_init conn lazy)"
proof (cases conn)
  case None
  then show ?thesis by (simp add: task_store_init_def store_ok_def)
next
  case (Some db)
  note tbl = assms [OF Some]
  show ?thesis
  proof (cases lazy)
    case True
    then show ?thesis using Some tbl
      by (simp add: task_store_init_def store_ok_def task_table.coherent_empty)
  next
    case False
    then show ?thesis
      using Some tbl load_coherent [OF tbl subset_refl task_table.coherent_empty]
      by (simp add: task_store_init_def store_ok_def Let_def)
  qed
qed

text \<open>
  C3: Open the task store on a database whose rows have distinct ids, valid statuses and
  distinct non-empty idempotency keys, in either loading mode, and run any sequence of
  store operations. Then the table still has these properties, and every task in the cache
  agrees with its row: no operation leaves a stale or an orphaned task in the cache.\<close>

theorem cache_never_stale:
  assumes "tasks_ok (td_rows db0)"
    and "ts_conn (fold run_op ops (task_store_init (Some db0) lazy)) = Some db"
  shows "tasks_ok (td_rows db) \<and>
    cache_coherent (ts_cache (fold run_op ops (task_store_init (Some db0) lazy))) (td_rows db)"
  using store_okD(2,3) [OF run_ops_ok [OF init_ok] assms(2)] assms(1) by blast

definition empty_task_db :: task_db where
  "empty_task_db = \<lparr>td_rows = [], td_history = [], td_index = []\<rparr>"

lemma empty_tasks_ok: "tasks_ok (td_rows empty_task_db)"
  by (simp add: empty_task_db_def tasks_ok_def)

text \<open>A small run that the witnesses share: two tasks, the more urgent one waits for a third.\<close>

definition sample_tasks :: "task_op list" where
  "sample_tasks = [
     OpSubmit 0 1 (new_task\<lparr>t_id := ''a'', t_priority := 5, t_depends := [''c''], t_idem_key := ''k''\<rparr>),
     OpSubmit 0 2 (new_task\<lparr>t_id := ''b'', t_priority := 1\<rparr>)]"

definition sample_store :: task_store where
  "sample_store = fold run_op sample_tasks (task_store_init (Some empty_task_db) True)"

lemma sample_ok: "store_ok sample_store"
  unfolding sample_store_def by (intro run_ops_ok init_ok) (simp add: empty_tasks_ok)


section \<open>The worker queue\<close>

definition ready :: "(str, task) dict \<Rightarrow> task \<Rightarrow> bool" where
  "ready tbl r \<longleftrightarrow> (\<forall>d \<in> set (t_depends r).
     \<exists>q. map_of tbl d = Some q \<and> t_status q = ''completed'')"

definition team_name :: "str \<Rightarrow> str" where
  "team_name team = (if team = [] then ''default'' else team)"

lemma next_claim_SomeD:
  assumes ok: "tasks_ok tbl" and n: "next_claim team tbl = Some tid"
  shows "\<exists>r. map_of tbl tid = Some r \<and> claimable team r \<and>
    (\<forall>k q. map_of tbl k = Some q \<longrightarrow> claimable team q \<longrightarrow>
       (- t_priority r, t_created_at r) \<le> (- t_priority q, t_created_at q))"
proof -
  let ?xs = "filter (\<lambda>(k, r). claimable team r) tbl"
  have ne: "?xs \<noteq> []" using n by (auto simp: next_claim_def)
  define p where "p = hd (sort_key oldest_first ?xs)"
  obtain r where p: "p = (tid, r)"
    using n ne p_def unfolding next_claim_def first_opt_def
    by (cases "sort_key oldest_first ?xs") (auto simp: prod_eq_iff)
  have mem: "(tid, r) \<in> set ?xs" using hd_sort_key_in [OF ne] p p_def by metis
  have "oldest_first (tid, r) \<le> oldest_first (k, q)"
    if "map_of tbl k = Some q" "claimable team q" for k q
  proof -
    have "(k, q) \<in> set ?xs" using that map_of_SomeD by force
    then show ?thesis using hd_sort_key_min p p_def by metis
  qed
  then show ?thesis
    using mem dict_mem_iff [OF tasks_okD(1) [OF ok]] by (auto simp: oldest_first_def)
qed

abbreviation claim_rows ::
    "pyfloat \<Rightarrow> str \<Rightarrow> str \<Rightarrow> str \<Rightarrow> (str, task) dict \<Rightarrow> (str, task) dict" where
  "claim_rows now owner token tid \<equiv>
     update_rows (\<lambda>r. t_id r = tid \<and> t_status r = ''pending'') (claimed now owner token)"

abbreviation revert_rows :: "pyfloat \<Rightarrow> str \<Rightarrow> (str, task) dict \<Rightarrow> (str, task) dict" where
  "revert_rows now tid \<equiv> update_rows (\<lambda>r. t_id r = tid \<and> t_status r = ''running'') (unclaimed now)"

lemma claimableD: "claimable team r \<Longrightarrow> t_status r = ''pending'' \<and> t_owner r = []"
  by (simp add: claimable_def)

lemma map_of_claim_rows:
  assumes ok: "tasks_ok tbl" and r: "map_of tbl tid = Some r" "t_status r = ''pending''"
  shows "map_of (claim_rows now owner token tid tbl) = (map_of tbl)(tid \<mapsto> claimed now owner token r)"
proof
  fix j
  show "map_of (claim_rows now owner token tid tbl) j
      = ((map_of tbl)(tid \<mapsto> claimed now owner token r)) j"
    using r tasks_okD(4) [OF ok] by (cases "map_of tbl j") (auto simp: map_of_update_rows)
qed

lemma ready_claimed:
  assumes ok: "tasks_ok tbl" and r: "map_of tbl tid = Some r" "t_status r = ''pending''"
  shows "ready (claim_rows now owner token tid tbl) (claimed now owner token r) = ready tbl r"
  unfolding ready_def map_of_claim_rows [OF ok r] using r by (auto split: if_splits)

text \<open>Every outcome of \<open>dequeue\<close> on a store with a database.\<close>

lemma dequeue_outcomes:
  assumes ok: "store_ok s" and db: "ts_conn s = Some db"
    and deq: "dequeue now token team owner s = (res, s')"
  obtains
    (idle) "res = None" "s' = s" "owner = [] \<or> next_claim (team_name team) (td_rows db) = None"
  | (claim) tid r db' where "ts_lazy s" "owner \<noteq> []"
      "next_claim (team_name team) (td_rows db) = Some tid"
      "map_of (td_rows db) tid = Some r" "claimable (team_name team) r" "ready (td_rows db) r"
      "res = Some (from_row (claimed now owner token r))"
      "ts_conn s' = Some db'" "td_rows db' = claim_rows now owner token tid (td_rows db)" "ts_lazy s'"
  | (blocked) tid r db' where "ts_lazy s" "owner \<noteq> []"
      "next_claim (team_name team) (td_rows db) = Some tid"
      "map_of (td_rows db) tid = Some r" "claimable (team_name team) r" "\<not> ready (td_rows db) r"
      "res = None" "ts_conn s' = Some db'" "ts_lazy s'"
      "td_rows db' = revert_rows now tid (claim_rows now owner token tid (td_rows db))"
  | (lost) tid r db' where "\<not> ts_lazy s" "owner \<noteq> []"
      "next_claim (team_name team) (td_rows db) = Some tid"
      "map_of (td_rows db) tid = Some r" "claimable (team_name team) r"
      "res = None" "ts_conn s' = Some db'" "\<not> ts_lazy s'" "map_of (ts_cache s') tid = None"
      "td_rows db' = claim_rows now owner token tid (td_rows db)"
proof (cases "owner = [] \<or> next_claim (team_name team) (td_rows db) = None")
  case True
  then show thesis using idle deq db unfolding dequeue_def team_name_def [symmetric]
    by (cases "owner = []") auto
next
  case False
  then obtain tid where tid: "next_claim (team_name team) (td_rows db) = Some tid" "owner \<noteq> []"
    by auto
  note tbl = store_okD(2) [OF ok db]
  obtain r where r: "map_of (td_rows db) tid = Some r" "claimable (team_name team) r"
    using next_claim_SomeD [OF tbl tid(1)] by blast
  have pend: "t_status r = ''pending''" using claimableD [OF r(2)] by simp
  let ?s1 = "pop_cache tid (claim_row now owner token tid s)"
  obtain db1 where db1: "ts_conn ?s1 = Some db1"
      "td_rows db1 = claim_rows now owner token tid (td_rows db)"
    using claim_row_conn(1) [OF db, of now owner token tid] by (auto simp: pop_cache_def)
  have lz: "ts_lazy ?s1 = ts_lazy s" using claim_row_conn(3) [OF db] by (simp add: pop_cache_def)
  have ok1: "store_ok ?s1" by (rule claim_row_ok [OF ok db])
  have none: "map_of (ts_cache ?s1) tid = None" by (simp add: pop_cache_def)
  have row1: "map_of (td_rows db1) tid = Some (claimed now owner token r)"
    by (simp add: db1 map_of_claim_rows [OF tbl r(1) pend])
  show thesis
  proof (cases "ts_lazy s")
    case False
    then have "get_task tid ?s1 = (None, ?s1)" using db1 none lz by (simp add: get_task_def)
    then have "res = None" "s' = ?s1"
      using deq db tid unfolding dequeue_def team_name_def [symmetric] by auto
    then show thesis using lost [OF False tid(2,1) r] db1 False lz none by simp
  next
    case True
    let ?t = "from_row (claimed now owner token r)"
    obtain s2 where g: "get_task tid ?s1 = (Some ?t, s2)"
      using db1 none lz row1 True by (simp add: get_task_def)
    note spec = get_task_spec [OF ok1 g]
    obtain b s3 where d: "deps_met tid s2 = (b, s3)" by fastforce
    have id: "t_id ?t = tid" using tasks_okD(4) [OF tbl r(1)] by simp
    have s3: "ts_conn s3 = Some db1" "ts_lazy s3"
      using deps_met_spec(1) [OF spec(1) d] spec(2,3) db1 lz True by simp_all
    have b: "b = ready (td_rows db) r"
      using deps_met_spec(2) [OF spec(1) d _ _ row1] spec(2,3) db1 lz True
        ready_claimed [OF tbl r(1) pend, of now owner token] by (simp add: ready_def)
    have res: "res = (if b then Some ?t else None)" "s' = (if b then s3 else revert_claim now tid s3)"
      using deq db tid g id d unfolding dequeue_def team_name_def [symmetric] by auto
    show thesis
    proof (cases b)
      case True
      then show thesis using claim [OF \<open>ts_lazy s\<close> tid(2,1) r] b res s3 db1 by simp
    next
      case False
      then show thesis
        using blocked [OF \<open>ts_lazy s\<close> tid(2,1) r] b res s3 db1 revert_claim_simps [OF s3(1)]
        by simp
    qed
  qed
qed


text \<open>
  C4: When \<open>dequeue\<close> returns a task (the store loads tasks on demand), the task was
  pending, unowned and not a schedule placeholder, belonged to the team asked for, and all
  its dependencies were completed; no other claimable row has a higher priority, or the
  same priority and an earlier creation time. The table now holds it as running, owned by
  the caller and with the caller's token, and no other row has changed.\<close>

theorem dequeue_claims_best:
  assumes "store_ok s" "ts_conn s = Some db"
    and "dequeue now token team owner s = (Some t, s')"
  shows "\<exists>r db'. map_of (td_rows db) (t_id t) = Some r
    \<and> t_status r = ''pending'' \<and> t_owner r = '''' \<and> t_cron r = '''' \<and> t_run_at r = 0
    \<and> (team = ''*'' \<or> t_team r = (if team = '''' then ''default'' else team))
    \<and> (\<forall>d \<in> set (t_depends r). \<exists>q. map_of (td_rows db) d = Some q \<and> t_status q = ''completed'')
    \<and> (\<forall>k q. map_of (td_rows db) k = Some q \<longrightarrow> claimable (team_name team) q \<longrightarrow>
         (- t_priority r, t_created_at r) \<le> (- t_priority q, t_created_at q))
    \<and> t = from_row (r\<lparr>t_status := ''running'', t_owner := owner, t_token := token,
                        t_updated_at := now, t_last_run_at := now\<rparr>)
    \<and> ts_conn s' = Some db'
    \<and> map_of (td_rows db') = (map_of (td_rows db))(t_id t \<mapsto>
        r\<lparr>t_status := ''running'', t_owner := owner, t_token := token,
          t_updated_at := now, t_last_run_at := now\<rparr>)"
  using assms(1-3)
proof (cases rule: dequeue_outcomes)
  case (claim tid r db')
  note tbl = store_okD(2) [OF assms(1,2)]
  have "t_id t = tid" using claim tasks_okD(4) [OF tbl claim(4)] by simp
  moreover have "t_status r = ''pending''" using claimableD [OF claim(5)] by simp
  ultimately show ?thesis
    using claim next_claim_SomeD [OF tbl claim(3)] map_of_claim_rows [OF tbl claim(4)]
    by (auto simp: claimable_def ready_def claimed_def team_name_def split: if_splits)
qed simp_all

text \<open>A series of claims, by any workers for any teams, and the tasks they obtained.\<close>

fun deq_run ::
    "(pyfloat \<times> str \<times> str \<times> str) list \<Rightarrow> task_store \<Rightarrow> task list \<times> task_store" where
  "deq_run [] s = ([], s)"
| "deq_run ((now, token, team, owner) # cs) s =
     (let (r, s1) = dequeue now token team owner s; (ts, s2) = deq_run cs s1
      in ((case r of None \<Rightarrow> ts | Some t \<Rightarrow> t # ts), s2))"

lemma dequeue_keeps_taken:
  assumes ok: "store_ok s" and db: "ts_conn s = Some db"
    and deq: "dequeue now token team owner s = (res, s')"
    and q: "map_of (td_rows db) k = Some q" "\<And>tm. \<not> claimable tm q"
  shows "\<exists>db'. ts_conn s' = Some db' \<and> map_of (td_rows db') k = Some q"
  using ok db deq
proof (cases rule: dequeue_outcomes)
  case idle
  then show ?thesis using db q by simp
next
  case (claim tid r db')
  then have "tid \<noteq> k" using q by auto
  moreover have "t_id q = k" by (rule tasks_okD(4) [OF store_okD(2) [OF ok db] q(1)])
  ultimately show ?thesis using q(1) claim by (auto simp: map_of_update_rows)
next
  case (blocked tid r db')
  then have "tid \<noteq> k" using q by auto
  moreover have "t_id q = k" by (rule tasks_okD(4) [OF store_okD(2) [OF ok db] q(1)])
  ultimately show ?thesis using q(1) blocked by (auto simp: map_of_update_rows)
next
  case (lost tid r db')
  then have "tid \<noteq> k" using q by auto
  moreover have "t_id q = k" by (rule tasks_okD(4) [OF store_okD(2) [OF ok db] q(1)])
  ultimately show ?thesis using q(1) lost by (auto simp: map_of_update_rows)
qed

lemma dequeue_no_db: "ts_conn s = None \<Longrightarrow> dequeue now token team owner s = (None, s)"
  by (simp add: dequeue_def)

lemma snd_dequeue_ok: "store_ok s \<Longrightarrow> dequeue now token team owner s = (r, s1) \<Longrightarrow> store_ok s1"
  by (metis dequeue_ok snd_conv)

lemma deq_run_not_taken:
  assumes "store_ok s" "ts_conn s = Some db" "map_of (td_rows db) k = Some q"
    and "\<And>tm. \<not> claimable tm q"
  shows "k \<notin> set (map t_id (fst (deq_run cs s)))"
  using assms
proof (induction cs arbitrary: s db)
  case Nil
  then show ?case by simp
next
  case (Cons c cs)
  obtain now token team owner where c: "c = (now, token, team, owner)" by (cases c)
  obtain r s1 where d: "dequeue now token team owner s = (r, s1)" by fastforce
  obtain db1 where db1: "ts_conn s1 = Some db1" "map_of (td_rows db1) k = Some q"
    using dequeue_keeps_taken [OF Cons.prems(1,2) d Cons.prems(3,4)] by blast
  have ih: "k \<notin> set (map t_id (fst (deq_run cs s1)))"
    by (rule Cons.IH [OF snd_dequeue_ok [OF Cons.prems(1) d] db1 Cons.prems(4)])
  have "t_id t \<noteq> k" if r: "r = Some t" for t
  proof -
    have "\<exists>q tm. map_of (td_rows db) (t_id t) = Some q \<and> claimable tm q"
      using Cons.prems(1,2) d r
    proof (cases rule: dequeue_outcomes)
      case (claim tid p db')
      then show ?thesis
        using tasks_okD(4) [OF store_okD(2) [OF Cons.prems(1,2)] claim(4)] by (auto simp: r)
    qed (simp_all add: r)
    then show ?thesis using Cons.prems(3,4) by auto
  qed
  then show ?case using ih d c by (auto simp: split_beta split: option.split)
qed

text \<open>
  C7: No task is claimed twice: in any series of \<open>dequeue\<close> calls, by any workers for any
  teams, on a well-formed store, the tasks that the calls return have distinct ids.\<close>

theorem claimed_once:
  assumes "store_ok s"
  shows "distinct (map t_id (fst (deq_run calls s)))"
  using assms
proof (induction calls arbitrary: s)
  case Nil
  then show ?case by simp
next
  case (Cons c cs)
  obtain now token team owner where c: "c = (now, token, team, owner)" by (cases c)
  obtain r s1 where d: "dequeue now token team owner s = (r, s1)" by fastforce
  have s1: "store_ok s1" by (rule snd_dequeue_ok [OF Cons.prems d])
  have "t_id t \<notin> set (map t_id (fst (deq_run cs s1)))" if r: "r = Some t" for t
  proof (cases "ts_conn s")
    case None
    then show ?thesis using d r by (simp add: dequeue_no_db)
  next
    case (Some db)
    from Cons.prems Some d r show ?thesis
    proof (cases rule: dequeue_outcomes)
      case (claim tid p db')
      have "t_id t = tid"
        using claim(7) r tasks_okD(4) [OF store_okD(2) [OF Cons.prems Some] claim(4)] by simp
      moreover have "map_of (td_rows db') tid = Some (claimed now owner token p)"
        using claim map_of_claim_rows [OF store_okD(2) [OF Cons.prems Some] claim(4)]
          claimableD [OF claim(5)] by simp
      moreover have "\<not> claimable tm (claimed now owner token p)" for tm
        by (simp add: claimable_def)
      ultimately show ?thesis using deq_run_not_taken [OF s1 claim(8)] by simp
    qed (simp_all add: r)
  qed
  then show ?case using Cons.IH [OF s1] d c by (auto simp: split_beta split: option.split)
qed

section \<open>A blocked task at the head of the queue\<close>

lemma sort_key_map_same:
  "(\<And>x. x \<in> set xs \<Longrightarrow> f (g x) = f x) \<Longrightarrow> sort_key f (map g xs) = map g (sort_key f xs)"
proof (induction xs)
  case Nil
  then show ?case by simp
next
  case (Cons x xs)
  have "insort_key f (g x) (map g ys) = map g (insort_key f x ys)" if "set ys \<subseteq> set xs" for ys
    using that Cons.prems by (induction ys) auto
  then show ?case using Cons by simp
qed

lemma next_claim_map_same:
  assumes "\<And>k q. (k, q) \<in> set tbl \<Longrightarrow> claimable team (g k q) = claimable team q
    \<and> t_priority (g k q) = t_priority q \<and> t_created_at (g k q) = t_created_at q"
  shows "next_claim team (map (\<lambda>(k, q). (k, g k q)) tbl) = next_claim team tbl"
proof -
  let ?h = "\<lambda>(k, q). (k, g k q)" and ?P = "\<lambda>(k, r). claimable team r"
  have f: "filter ?P (map ?h tbl) = map ?h (filter ?P tbl)"
    using assms by (induction tbl) auto
  have "sort_key oldest_first (map ?h (filter ?P tbl)) = map ?h (sort_key oldest_first (filter ?P tbl))"
    by (rule sort_key_map_same) (use assms in \<open>auto simp: oldest_first_def\<close>)
  then show ?thesis
    by (simp add: next_claim_def f first_opt_def split: list.split prod.split)
qed

text \<open>A blocked claim changes nothing that the queue looks at.\<close>

lemma blocked_again:
  assumes ok: "tasks_ok tbl" and n: "next_claim team tbl = Some tid"
    and r: "map_of tbl tid = Some r" "claimable team r" "\<not> ready tbl r"
    and tbl': "tbl' = revert_rows now tid (claim_rows now owner token tid tbl)"
  shows "next_claim team tbl' = Some tid"
    and "map_of tbl' tid = Some (unclaimed now (claimed now owner token r))"
    and "\<not> ready tbl' (unclaimed now (claimed now owner token r))"
proof -
  let ?u = "unclaimed now (claimed now owner token r)"
  have pend: "t_status r = ''pending''" "t_owner r = []" using claimableD [OF r(2)] by simp_all
  have u: "claimable team ?u = claimable team r" "t_priority ?u = t_priority r"
    "t_created_at ?u = t_created_at r" "t_depends ?u = t_depends r"
    using pend by (simp_all add: claimable_def unclaimed_def claimed_def)
  have row: "q = r" if "(k, q) \<in> set tbl" "t_id q = tid" for k q
    using that dict_mem_iff [OF tasks_okD(1) [OF ok]] tasks_okD(4) [OF ok] r(1) by force
  have "tbl' = map (\<lambda>(k, q). (k, if t_id q = tid then ?u else q)) tbl"
    unfolding tbl' update_rows_def map_map
  proof (rule map_cong [OF refl], clarify)
    fix k q
    assume "(k, q) \<in> set tbl"
    then show "((\<lambda>(k, r). (k, if t_id r = tid \<and> t_status r = ''running'' then unclaimed now r else r))
        \<circ> (\<lambda>(k, r). (k, if t_id r = tid \<and> t_status r = ''pending'' then claimed now owner token r
              else r))) (k, q) = (k, if t_id q = tid then ?u else q)"
      using row pend by (auto dest: row)
  qed
  moreover have "next_claim team (map (\<lambda>(k, q). (k, if t_id q = tid then ?u else q)) tbl)
      = next_claim team tbl"
  proof (rule next_claim_map_same)
    fix k q
    assume kq: "(k, q) \<in> set tbl"
    let ?q = "if t_id q = tid then ?u else q"
    show "claimable team ?q = claimable team q \<and> t_priority ?q = t_priority q
        \<and> t_created_at ?q = t_created_at q"
    proof (cases "t_id q = tid")
      case True
      then have "q = r" using row kq by blast
      then show ?thesis using True u by simp
    qed simp
  qed
  ultimately have "next_claim team tbl' = next_claim team tbl" by simp
  then show "next_claim team tbl' = Some tid" using n by simp
  show m: "map_of tbl' tid = Some ?u"
    using r(1) pend tasks_okD(4) [OF ok r(1)] by (simp add: tbl' map_of_update_rows)
  have "map_option t_status (map_of tbl' d) = map_option t_status (map_of tbl d)" for d
    using r(1) pend tasks_okD(4) [OF ok] 
    by (cases "map_of tbl d") (auto simp: tbl' map_of_update_rows)
  then have "map_option t_status (map_of tbl' d) = Some ''completed''
      \<longleftrightarrow> map_option t_status (map_of tbl d) = Some ''completed''" for d by simp
  then have "(\<exists>q. map_of tbl' d = Some q \<and> t_status q = ''completed'')
      \<longleftrightarrow> (\<exists>q. map_of tbl d = Some q \<and> t_status q = ''completed'')" for d
    unfolding map_option_eq_Some by blast
  then have "ready tbl' ?u = ready tbl r" unfolding ready_def u by simp
  then show "\<not> ready tbl' ?u" using r(3) by simp
qed

text \<open>
  C36: If the claimable task that sorts first for a team waits for a dependency, then no
  series of \<open>dequeue\<close> calls for that team returns any task, although other tasks of
  the team may be claimable and ready: the claim picks the task before it looks at the
  dependencies, and puts it back in the same place.\<close>

theorem head_of_line_blocking:
  assumes "store_ok s" "ts_conn s = Some db" "ts_lazy s"
    and "next_claim (team_name team) (td_rows db) = Some tid"
    and "map_of (td_rows db) tid = Some r" "\<not> ready (td_rows db) r"
  shows "fst (deq_run (map (\<lambda>(now, token, owner). (now, token, team, owner)) calls) s) = []"
  using assms
proof (induction calls arbitrary: s db r)
  case Nil
  then show ?case by simp
next
  case (Cons c cs)
  obtain now token owner where c: "c = (now, token, owner)" by (cases c)
  obtain res s1 where d: "dequeue now token team owner s = (res, s1)" by fastforce
  have "res = None \<and> fst (deq_run (map (\<lambda>(now, token, owner). (now, token, team, owner)) cs) s1) = []"
    using Cons.prems(1,2) d
  proof (cases rule: dequeue_outcomes)
    case idle
    then show ?thesis using Cons.IH Cons.prems by simp
  next
    case (blocked tid' r' db')
    then have r': "r' = r" "tid' = tid" using Cons.prems(4,5) by auto
    note again = blocked_again [OF store_okD(2) [OF Cons.prems(1,2)] blocked(3-6,10)]
    show ?thesis
      using Cons.IH [OF snd_dequeue_ok [OF Cons.prems(1) d] blocked(8,9)] again blocked(7)
      by (simp add: r')
  qed (use Cons.prems in auto)
  then show ?case using d c by (simp split: prod.split)
qed

text \<open>
  When the store is not in on-demand mode, a \<open>dequeue\<close> that finds a claimable task
  marks its row as running and owned by the caller, but returns None, and the task is then
  unknown to the store: a lookup by its id finds nothing.\<close>

theorem eager_dequeue_loses:
  assumes "store_ok s" "ts_conn s = Some db" "\<not> ts_lazy s" "owner \<noteq> []"
    and "next_claim (team_name team) (td_rows db) = Some tid"
    and "dequeue now token team owner s = (res, s')"
  shows "res = None \<and> fst (get_task tid s') = None
    \<and> (\<exists>db' r. ts_conn s' = Some db' \<and> map_of (td_rows db') tid = Some r
         \<and> t_status r = ''running'' \<and> t_owner r = owner)"
  using assms(1,2,6)
proof (cases rule: dequeue_outcomes)
  case (lost tid' r db')
  have "tid' = tid" using lost(3) assms(5) by simp
  then show ?thesis
    using lost map_of_claim_rows [OF store_okD(2) [OF assms(1,2)] lost(4)] claimableD [OF lost(5)]
    by (simp add: get_task_def)
qed (use assms in auto)

section \<open>Recovery, cancellation, submission\<close>

text \<open>
  After \<open>reset_orphans\<close> for a worker, every task that was running under that worker
  is pending, unowned and without a claim token, and it is not in the cache; every other
  row is unchanged; the result is the number of tasks reset. In particular no task is
  running under that worker any more.\<close>

theorem reset_orphans_exact:
  assumes "store_ok s" "ts_conn s = Some db" "owner \<noteq> []"
  shows "\<exists>db'. ts_conn (snd (reset_orphans now owner s)) = Some db'
    \<and> (\<forall>k. map_of (td_rows db') k = map_option (\<lambda>r. if orphan owner r
          then r\<lparr>t_status := ''pending'', t_owner := '''', t_token := '''', t_updated_at := now\<rparr>
          else r) (map_of (td_rows db) k))
    \<and> (\<forall>k r. map_of (td_rows db) k = Some r \<longrightarrow> orphan owner r \<longrightarrow>
          map_of (ts_cache (snd (reset_orphans now owner s))) k = None)
    \<and> fst (reset_orphans now owner s) = int (count_vals (orphan owner) (td_rows db))
    \<and> count_vals (orphan owner) (td_rows db') = 0"
proof -
  note spec = reset_orphans_spec [OF assms, of now]
  note tbl = store_okD(2) [OF assms(1,2)]
  obtain db' where db': "ts_conn (snd (reset_orphans now owner s)) = Some db'"
      "td_rows db' = update_rows (orphan owner) (unclaimed now) (td_rows db)"
    using spec(1) by blast
  have "length (orphan_ids owner rows) = count_vals (orphan owner) rows" for rows
    by (induction rows) (auto simp: orphan_ids_def)
  moreover have "count_vals (orphan owner) (update_rows (orphan owner) (unclaimed now) rows) = 0" for rows
    by (induction rows) (auto simp: update_rows_def orphan_def)
  moreover have "map_of (td_rows db') k = map_option (\<lambda>r. if orphan owner r
      then r\<lparr>t_status := ''pending'', t_owner := '''', t_token := '''', t_updated_at := now\<rparr> else r)
      (map_of (td_rows db) k)" for k
    by (cases "map_of (td_rows db) k") (simp_all add: db'(2) map_of_update_rows unclaimed_def)
  ultimately show ?thesis
    using db' spec(2,3)
    by (auto simp: map_of_fold_delete orphan_ids_iff [OF tbl])
qed

lemma get_cached: "map_of (ts_cache s) tid = Some t \<Longrightarrow> get_task tid s = (Some t, s)"
  by (simp add: get_task_def)

text \<open>
  \<open>cancel\<close> succeeds exactly when the task exists and is neither completed nor
  canceled; a failed task can be canceled. Then the task is canceled, and otherwise the
  table is unchanged.\<close>

theorem cancel_exact:
  assumes "store_ok s" "cancel now tid s = (b, s')"
  shows "(b \<longleftrightarrow> (\<exists>t. fst (get_task tid s) = Some t \<and> t_status t \<noteq> ''completed''
             \<and> t_status t \<noteq> ''canceled''))
    \<and> (b \<longrightarrow> (\<exists>t. fst (get_task tid s) = Some t \<and> fst (get_task tid s')
             = Some (t\<lparr>t_status := ''canceled'', t_updated_at := now\<rparr>)))
    \<and> (\<not> b \<longrightarrow> ts_conn s' = ts_conn s)"
proof -
  obtain r s1 where g: "get_task tid s = (r, s1)" by fastforce
  note spec = get_task_spec [OF assms(1) g]
  show ?thesis
  proof (cases r)
    case None
    then show ?thesis using assms(2) g spec(2) by (simp add: cancel_def)
  next
    case (Some t)
    then have again: "get_task tid s1 = (Some t, s1)" using spec(4) get_cached by metis
    show ?thesis
    proof (cases "t_status t \<in> {''completed'', ''canceled''}")
      case True
      then show ?thesis using assms(2) g spec(2) Some by (auto simp: cancel_def)
    next
      case False
      then have "b \<and> s' = store_task tid (with_status now ''canceled'' None '''' None t) s1"
        using assms(2) g again Some by (auto simp: cancel_def update_status_def)
      then show ?thesis using g Some False
        by (simp add: get_cached with_status_def)
    qed
  qed
qed

end
