(* ===== verification/TaskBoard.thy ===== *)
theory TaskBoard
  imports TaskProps
begin

text \<open>
  Idempotent submission, the board columns, and concrete runs of the task store that
  exercise the theorems of the queue.
\<close>

section \<open>Idempotent submission\<close>

lemma put_row_self: "map_of (put_row k r tbl) k = Some r"
proof -
  have "k \<notin> fst ` set (filter (\<lambda>(j, q). \<not> conflicts k r j q) tbl)"
    by (auto simp: conflicts_def)
  then have "map_of (filter (\<lambda>(j, q). \<not> conflicts k r j q) tbl) k = None"
    by (simp add: map_of_eq_None_iff)
  then show ?thesis by (simp add: put_row_def map_add_def)
qed

text \<open>What \<open>submit\<close> returns is in the table, under the key that was asked for.\<close>

lemma submit_row:
  assumes ok: "store_ok s" and db: "ts_conn s = Some db"
    and sub: "submit ttl now a s = (t, s')" and key: "t_idem_key a \<noteq> []"
  shows "\<exists>db' r. ts_conn s' = Some db' \<and> map_of (td_rows db') (t_id t) = Some r
    \<and> from_row r = from_row t \<and> t_idem_key t = t_idem_key a"
proof -
  let ?s = "snd (reap_expired ttl now s)"
  obtain db0 where db0: "ts_conn ?s = Some db0" using db reap_simps(1) by fastforce
  obtain found s1 where f: "find_by_idempotency_key (t_idem_key a) ?s = (found, s1)" by fastforce
  note spec = find_key_spec [OF reap_ok [OF ok] f]
  show ?thesis
  proof (cases found)
    case (Some old)
    then have "t = old" "s' = s1\<lparr>ts_deduped := True\<rparr>"
      using sub f key by (auto simp: submit_def Let_def)
    moreover obtain db1 r where "ts_conn ?s = Some db1" "map_of (td_rows db1) (t_id old) = Some r"
        "old = from_row r" "t_idem_key old = t_idem_key a"
      using spec Some by blast
    ultimately show ?thesis using spec by auto
  next
    case None
    then have new: "submit_new now (prepare_task now a) s1 = (t, s')"
      using sub f key by (auto simp: submit_def Let_def)
    note ns = submit_new_spec [OF new]
    let ?s2 = "store_task (t_id t) t (s1\<lparr>ts_deduped := False,
      ts_seq := (if t_id (prepare_task now a) = [] then ts_seq s1 + 1 else ts_seq s1)\<rparr>)"
    have "ts_conn s1 = Some db0" using spec db0 by simp
    then have "map_option td_rows (ts_conn s') = Some (put_row (t_id t) (to_row t) (td_rows db0))"
      using ns by (simp add: store_task_conn)
    then obtain db' where "ts_conn s' = Some db'"
        "td_rows db' = put_row (t_id t) (to_row t) (td_rows db0)" by auto
    moreover have "t_idem_key t = t_idem_key a" using ns by (simp add: assigned_def)
    ultimately show ?thesis by (simp add: put_row_self)
  qed
qed

text \<open>
  Submitting a task under an idempotency key that an earlier submission used gives
  back the earlier task, as long as that one is still open (a finished one may have been
  reaped): the second call reports the duplicate, returns the same task and adds no row.\<close>

theorem submit_idempotent:
  assumes "store_ok s" "ts_conn s = Some db"
    and "submit ttl1 now1 a s = (t1, s1)" "submit ttl2 now2 b s1 = (t2, s2)"
    and "t_idem_key a \<noteq> []" "t_idem_key b = t_idem_key a"
    and "t_status t1 \<notin> set done_statuses"
  shows "t_id t2 = t_id t1 \<and> from_row t2 = from_row t1 \<and> ts_deduped s2
    \<and> (\<exists>db1 db2. ts_conn s1 = Some db1 \<and> ts_conn s2 = Some db2
         \<and> map_of (td_rows db2) \<subseteq>\<^sub>m map_of (td_rows db1))"
proof -
  have ok1: "store_ok s1" using submit_ok [OF assms(1)] assms(3) by (metis snd_conv)
  obtain db1 r1 where r1: "ts_conn s1 = Some db1" "map_of (td_rows db1) (t_id t1) = Some r1"
      "from_row r1 = from_row t1" "t_idem_key t1 = t_idem_key a"
    using submit_row [OF assms(1,2,3,5)] by blast
  let ?s = "snd (reap_expired ttl2 now2 s1)"
  let ?ids = "expired_ids (now2 - ttl2) (td_rows db1)"
  have ok: "store_ok ?s" by (rule reap_ok [OF ok1])
  note tbl = store_okD(2) [OF ok1 r1(1)]
  have "r1 = q" if "(t_id t1, q) \<in> set (td_rows db1)" for q
    using that dict_mem_iff [OF tasks_okD(1) [OF tbl]] r1(2) by auto
  then have live: "t_id t1 \<notin> set ?ids"
    using assms(7) from_row_eqD(2) [OF r1(3)] by (auto simp: expired_ids_def)
  have "\<exists>db0. ts_conn ?s = Some db0 \<and> map_of (td_rows db0) \<subseteq>\<^sub>m map_of (td_rows db1)
      \<and> map_of (td_rows db0) (t_id t1) = Some r1"
    using r1(1,2) live by (auto simp: reap_expired_def Let_def map_of_fold_delete map_le_def dom_def)
  then obtain db0 where db0: "ts_conn ?s = Some db0"
      "map_of (td_rows db0) \<subseteq>\<^sub>m map_of (td_rows db1)" "map_of (td_rows db0) (t_id t1) = Some r1"
    by blast
  obtain found s3 where f: "find_by_idempotency_key (t_idem_key b) ?s = (found, s3)" by fastforce
  note spec = find_key_spec [OF ok f]
  have key: "t_idem_key r1 = t_idem_key b" "t_idem_key b \<noteq> []"
    using from_row_eqD(3) [OF r1(3)] r1(4) assms(5,6) by simp_all
  then obtain old where old: "found = Some old" using spec db0 by (cases found) auto
  then obtain r2 where r2: "map_of (td_rows db0) (t_id old) = Some r2" "old = from_row r2"
      "t_idem_key old = t_idem_key b"
    using spec db0(1) by auto
  have "row_fits (td_rows db0) (t_id old) r2"
    by (rule tasks_okD(2) [OF store_okD(2) [OF ok db0(1)] r2(1)])
  then have same: "t_id t1 = t_id old" using db0(3) key r2 unfolding row_fits_def by (metis from_row_simps(3))
  then have "r2 = r1" using r2(1) db0(3) by simp
  have t2: "t2 = old" "s2 = s3\<lparr>ts_deduped := True\<rparr>"
    using assms(4) f old key(2) by (simp_all add: submit_def Let_def)
  have "from_row t2 = from_row t1"
    unfolding t2(1) r2(2) \<open>r2 = r1\<close> using r1(3) by simp
  moreover have "t_id t2 = t_id t1" unfolding t2(1) same ..
  moreover have "ts_conn s2 = Some db0" "ts_deduped s2" using spec db0(1) t2(2) by simp_all
  ultimately show ?thesis using r1(1) db0(2) by blast
qed

section \<open>The board\<close>

lemma derive_column_range: "derive_column t \<in> set board_columns \<longleftrightarrow> t_status t \<noteq> ''canceled''"
  by (simp add: derive_column_def board_columns_def)

lemma derive_column_archived: "derive_column t = ''archived'' \<longleftrightarrow> t_status t = ''canceled''"
  by (simp add: derive_column_def)

lemma map_of_cols: "map_of (map (\<lambda>c. (c, f c)) cols) c = (if c \<in> set cols then Some (f c) else None)"
  by (induction cols) auto

lemma update_cols:
  "distinct cols \<Longrightarrow> c \<in> set cols \<Longrightarrow>
    AList.update c v (map (\<lambda>c. (c, f c)) cols) = map (\<lambda>d. (d, if d = c then v else f d)) cols"
  by (induction cols) (auto intro: map_cong)

lemma fold_board_add:
  "fold board_add ts (map (\<lambda>c. (c, f c)) board_columns)
    = map (\<lambda>c. (c, f c @ filter (\<lambda>t. derive_column t = c) ts)) board_columns"
proof (induction ts arbitrary: f)
  case Nil
  then show ?case by simp
next
  case (Cons t ts)
  have d: "distinct board_columns" by (simp add: board_columns_def)
  show ?case
  proof (cases "t_status t = ''canceled''")
    case True
    then have a: "derive_column t = ''archived''" by (simp add: derive_column_archived)
    then have "''archived'' \<notin> set board_columns" by (simp add: board_columns_def)
    then show ?thesis using Cons.IH [of f] a by (auto simp: board_add_def)
  next
    case False
    then have c: "derive_column t \<in> set board_columns" "derive_column t \<noteq> ''archived''"
      by (simp_all add: derive_column_range derive_column_archived)
    have "board_add t (map (\<lambda>c. (c, f c)) board_columns)
        = map (\<lambda>d. (d, if d = derive_column t then f d @ [t] else f d)) board_columns"
      using c by (auto simp: board_add_def Let_def dict_get_def map_of_cols update_cols [OF d c(1)])
    then show ?thesis using Cons.IH [of "\<lambda>d. if d = derive_column t then f d @ [t] else f d"]
      by auto
  qed
qed

text \<open>
  \<open>list_by_column\<close> gives the four columns of the board, in a fixed order, each with
  exactly the team's tasks that derive to it, most urgent and newest first; a task is on
  the board exactly when it is not canceled.\<close>

theorem board_partition:
  "list_by_column team s = map (\<lambda>c. (c, sort_key newest_first
       (filter (\<lambda>t. derive_column t = c) (board_tasks (team_name team) s)))) board_columns
   \<and> (\<forall>t. t_status t \<noteq> ''canceled'' \<longleftrightarrow> derive_column t \<in> set board_columns)"
  unfolding list_by_column_def team_name_def [symmetric] fold_board_add
  by (simp add: derive_column_range)

section \<open>Concrete runs\<close>

definition sample_a :: task where
  "sample_a = new_task\<lparr>t_id := ''a'', t_priority := 5, t_depends := [''c''],
     t_idem_key := ''k'', t_created_at := 1, t_updated_at := 1\<rparr>"

definition sample_b :: task where
  "sample_b = new_task\<lparr>t_id := ''b'', t_priority := 1, t_created_at := 2, t_updated_at := 2\<rparr>"

definition sample_db :: task_db where
  "sample_db = \<lparr>td_rows = [(''a'', sample_a), (''b'', sample_b)], td_history = [],
     td_index = [(''k'', (''a'', 1))]\<rparr>"

lemmas sample_defs = sample_a_def sample_b_def new_task_def sample_db_def empty_task_db_def

lemma sample_store_eq:
  "sample_store = \<lparr>ts_cache = [(''a'', sample_a), (''b'', sample_b)], ts_conn = Some sample_db,
     ts_seq = 0, ts_deduped = False, ts_lazy = True\<rparr>"
  by (simp add: sample_store_def sample_tasks_def sample_defs task_store_init_def submit_def
      prepare_task_def reap_expired_def find_by_idempotency_key_def submit_new_def index_task_def
      store_task_def save_task_def put_row_def to_row_def conflicts_def valid_triggers_def
      valid_statuses_def Let_def)

lemmas run_defs = sample_store_eq sample_defs claimable_def oldest_first_def next_claim_def
  team_name_def ready_def

text \<open>The same store after the missing dependency has been submitted as completed.\<close>

definition ready_store :: task_store where
  "ready_store = run_op (OpSubmit 0 3 (new_task\<lparr>t_id := ''c'', t_status := ''completed''\<rparr>)) sample_store"

lemma ready_ok: "store_ok ready_store"
  unfolding ready_store_def by (rule run_op_ok [OF sample_ok])

definition ready_db :: task_db where
  "ready_db = sample_db\<lparr>td_rows := td_rows sample_db @ [(''c'', new_task\<lparr>t_id := ''c'',
     t_status := ''completed'', t_created_at := 3, t_updated_at := 3\<rparr>)]\<rparr>"

lemma ready_store_eq: "ts_conn ready_store = Some ready_db" "ts_lazy ready_store"
  "map_of (ts_cache ready_store) ''c'' = map_of (td_rows ready_db) ''c''"
  "map_of (ts_cache ready_store) ''a'' = Some sample_a"
  by (simp_all add: ready_store_def ready_db_def sample_store_eq sample_defs submit_def
      prepare_task_def reap_expired_def find_by_idempotency_key_def submit_new_def index_task_def
      store_task_def save_task_def put_row_def to_row_def conflicts_def valid_triggers_def
      valid_statuses_def Let_def)

lemma ready_dequeue:
  "fst (dequeue 4 ''tok'' '''' ''w'' ready_store) = Some (claimed 4 ''w'' ''tok'' sample_a)"
  by (simp add: dequeue_def ready_store_eq next_claim_def ready_db_def sample_defs claimable_def
      oldest_first_def claim_row_def append_history_def pop_cache_def get_task_def update_rows_def
      claimed_def from_row_def deps_met_def)

theorem cache_never_stale_witness:
  "tasks_ok (td_rows sample_db) \<and> cache_coherent (ts_cache sample_store) (td_rows sample_db)"
  using cache_never_stale [OF empty_tasks_ok, of sample_tasks True sample_db]
  unfolding sample_store_def [symmetric] by (simp add: sample_store_eq)

theorem dequeue_claims_best_witness:
  "\<exists>r db'. map_of (td_rows ready_db) ''a'' = Some r \<and> t_owner r = ''''
    \<and> ts_conn (snd (dequeue 4 ''tok'' '''' ''w'' ready_store)) = Some db'
    \<and> map_of (td_rows db') ''a'' = Some (claimed 4 ''w'' ''tok'' r)"
proof -
  have d: "dequeue 4 ''tok'' '''' ''w'' ready_store = (Some (claimed 4 ''w'' ''tok'' sample_a),
      snd (dequeue 4 ''tok'' '''' ''w'' ready_store))"
    using ready_dequeue by (metis prod.collapse)
  have "t_id (claimed 4 ''w'' ''tok'' sample_a) = ''a''" by (simp add: sample_defs)
  then show ?thesis
    using dequeue_claims_best [OF ready_ok ready_store_eq(1) d]
    unfolding claimed_def by fastforce
qed

theorem claimed_once_witness:
  "distinct (map t_id (fst (deq_run [(4, ''t1'', '''', ''w1''), (5, ''t2'', '''', ''w2'')] ready_store)))"
  by (rule claimed_once [OF ready_ok])

theorem head_of_line_blocking_witness:
  "fst (deq_run (map (\<lambda>(now, token, owner). (now, token, '''', owner))
      [(4, ''t1'', ''w1''), (5, ''t2'', ''w2'')]) sample_store) = []
   \<and> claimable ''default'' sample_b \<and> ready (td_rows sample_db) sample_b"
proof -
  have c: "ts_conn sample_store = Some sample_db" "ts_lazy sample_store" by (simp_all add: sample_store_eq)
  have n: "next_claim (team_name '''') (td_rows sample_db) = Some ''a''"
    "map_of (td_rows sample_db) ''a'' = Some sample_a" "\<not> ready (td_rows sample_db) sample_a"
    by (simp_all add: run_defs)
  show ?thesis
    using head_of_line_blocking [OF sample_ok c n, of "[(4, ''t1'', ''w1''), (5, ''t2'', ''w2'')]"]
    by (simp add: run_defs)
qed

text \<open>The store of the sample opened without on-demand loading.\<close>

definition eager_store :: task_store where
  "eager_store = task_store_init (Some sample_db) False"

lemma eager_ok: "store_ok eager_store"
  unfolding eager_store_def
  using store_okD(2) [OF sample_ok] by (intro init_ok) (simp add: sample_store_eq)

theorem eager_dequeue_loses_witness:
  "fst (dequeue 4 ''t'' '''' ''w'' eager_store) = None
   \<and> fst (get_task ''a'' (snd (dequeue 4 ''t'' '''' ''w'' eager_store))) = None"
proof -
  have c: "ts_conn eager_store = Some sample_db" "\<not> ts_lazy eager_store"
    by (simp_all add: eager_store_def task_store_init_def Let_def)
  have n: "next_claim (team_name '''') (td_rows sample_db) = Some ''a''" by (simp add: run_defs)
  show ?thesis
    using eager_dequeue_loses [OF eager_ok c _ n, of "''w''" 4 "''t''"]
    by (metis list.distinct(1) prod.collapse)
qed

theorem reset_orphans_exact_witness:
  "fst (reset_orphans 9 ''w'' (snd (dequeue 4 ''tok'' '''' ''w'' ready_store))) = 1"
proof -
  let ?s = "snd (dequeue 4 ''tok'' '''' ''w'' ready_store)"
  let ?rows = "claim_rows 4 ''w'' ''tok'' ''a'' (td_rows ready_db)"
  have "\<exists>db. ts_conn ?s = Some db \<and> td_rows db = ?rows"
    by (simp add: dequeue_def ready_store_eq next_claim_def ready_db_def sample_defs claimable_def
      oldest_first_def claim_row_def append_history_def pop_cache_def get_task_def update_rows_def
      claimed_def from_row_def deps_met_def)
  then obtain db where db: "ts_conn ?s = Some db" "td_rows db = ?rows" by blast
  have "count_vals (orphan ''w'') ?rows = 1"
    by (simp add: update_rows_def ready_db_def sample_defs orphan_def claimed_def)
  moreover have "fst (reset_orphans 9 ''w'' ?s) = int (count_vals (orphan ''w'') (td_rows db))"
    using reset_orphans_exact [OF dequeue_ok [OF ready_ok] db(1), of "''w''" 9] by blast
  ultimately show ?thesis using db(2) by simp
qed

theorem cancel_exact_witness: "fst (cancel 5 ''a'' sample_store)"
  using cancel_exact [OF sample_ok, of 5 "''a''" "fst (cancel 5 ''a'' sample_store)"
      "snd (cancel 5 ''a'' sample_store)"]
  by (simp add: get_task_def sample_store_eq sample_defs)

theorem submit_idempotent_witness:
  "ts_deduped (snd (submit 0 9 (new_task\<lparr>t_idem_key := ''k''\<rparr>)
     (snd (submit 0 1 (new_task\<lparr>t_id := ''a'', t_idem_key := ''k''\<rparr>)
        (task_store_init (Some empty_task_db) True)))))"
proof -
  let ?s = "task_store_init (Some empty_task_db) True"
  let ?a = "new_task\<lparr>t_id := ''a'', t_idem_key := ''k''\<rparr>"
  let ?b = "new_task\<lparr>t_idem_key := ''k''\<rparr>"
  have s: "store_ok ?s" "ts_conn ?s = Some empty_task_db"
    by (intro init_ok) (simp_all add: empty_tasks_ok task_store_init_def)
  have "t_status (fst (submit 0 1 ?a ?s)) \<notin> set done_statuses"
    by (simp add: task_store_init_def submit_def prepare_task_def reap_expired_def empty_task_db_def
        find_by_idempotency_key_def submit_new_def done_statuses_def new_task_def Let_def
        valid_statuses_def)
  then show ?thesis
    using submit_idempotent [OF s, of 0 1 ?a _ _ 0 9 ?b] by (metis (no_types, lifting) list.discI
      prod.collapse task.select_convs(22) task.surjective task.update_convs(22))
qed

section \<open>Corner cases\<close>

text \<open>
  The idempotency index keeps the first task of a key for good: after a deletion and a new
  submission under the same key, the index lookup finds no task although one exists.
\<close>

lemma stale_index:
  "let s = run_op (OpSubmit 0 5 (new_task\<lparr>t_id := ''d'', t_idem_key := ''k''\<rparr>))
             (run_op (OpDelete ''a'') sample_store)
   in fst (find_by_idempotency ''k'' s) = None
      \<and> map_option t_id (fst (find_by_idempotency_key ''k'' s)) = Some ''d''"
  by (simp add: sample_store_eq sample_defs submit_def prepare_task_def reap_expired_def
      find_by_idempotency_key_def submit_new_def index_task_def store_task_def save_task_def
      put_row_def to_row_def conflicts_def valid_triggers_def valid_statuses_def task_delete_def
      delete_task_def pop_cache_def find_by_idempotency_def get_task_def from_row_def Let_def)

text \<open>Without a database, a legal \<open>move_task\<close> changes the task and then raises.\<close>

lemma move_task_no_db:
  "ts_conn s = None \<Longrightarrow> map_of (ts_cache s) tid = Some t \<Longrightarrow> st \<in> set valid_statuses \<Longrightarrow>
    fst (move_task now tid st '''' actor reason s) = Inl AttributeError
    \<and> map_of (ts_cache (snd (move_task now tid st '''' actor reason s))) tid
        = Some (moved now st '''' t)"
  by (simp add: move_task_def get_task_def Let_def)

end
