(* ===== verification/RateLimit.thy ===== *)
theory RateLimit
  imports Prelude
begin

text \<open>
  Rate limiting: \<open>agent_runtime/rate_limiter.py\<close>. Token buckets, the limiter with one
  bucket per API key and per agent, and the decision of the HTTP middleware. Clock
  readings (\<open>time.monotonic\<close>) are arguments; the readings that one call takes are the
  same.
\<close>

section \<open>Token buckets\<close>

definition mask_key :: "str \<Rightarrow> str" where
  "mask_key k = (if length k \<le> 8 then ''***'' else take 4 k @ ''...'' @ drop (length k - 4) k)"

record token_bucket =
  tb_rate :: pyfloat
  tb_capacity :: pyfloat
  tb_tokens :: pyfloat
  tb_last_refill :: pyfloat
  tb_last_used :: pyfloat

definition bucket_init :: "pyfloat \<Rightarrow> pyfloat \<Rightarrow> pyfloat \<Rightarrow> token_bucket" where
  "bucket_init now rate capacity = \<lparr>tb_rate = rate, tb_capacity = capacity, tb_tokens = capacity,
     tb_last_refill = now, tb_last_used = now\<rparr>"

definition refill :: "pyfloat \<Rightarrow> token_bucket \<Rightarrow> token_bucket" where
  "refill now b = b\<lparr>
     tb_tokens := min (tb_capacity b) (tb_tokens b + (now - tb_last_refill b) * tb_rate b),
     tb_last_refill := now\<rparr>"

definition consume :: "pyfloat \<Rightarrow> pyfloat \<Rightarrow> token_bucket \<Rightarrow> bool \<times> token_bucket" where
  "consume now n b0 =
     (let b = (refill now b0)\<lparr>tb_last_used := now\<rparr>
      in if n \<le> tb_tokens b then (True, b\<lparr>tb_tokens := tb_tokens b - n\<rparr>) else (False, b))"

definition get_wait_time :: "pyfloat \<Rightarrow> token_bucket \<Rightarrow> pyfloat \<times> token_bucket" where
  "get_wait_time now b0 =
     (let b = refill now b0
      in (if 1 \<le> tb_tokens b then 0
          else if 0 < tb_rate b then (1 - tb_tokens b) / tb_rate b else 0, b))"

section \<open>The limiter\<close>

record rate_limiter =
  rl_keys :: "(str, token_bucket) dict"
  rl_agents :: "(str, token_bucket) dict"

definition rate_limiter_init :: rate_limiter where
  "rate_limiter_init = \<lparr>rl_keys = [], rl_agents = []\<rparr>"

definition cleanup_threshold :: pyfloat where
  "cleanup_threshold = 3600"

text \<open>Both checks create a missing bucket and take one token from it.\<close>

definition take_token ::
    "pyfloat \<Rightarrow> str \<Rightarrow> pyfloat \<Rightarrow> pyfloat \<Rightarrow> (str, token_bucket) dict
      \<Rightarrow> bool \<times> (str, token_bucket) dict" where
  "take_token now k rate capacity bs =
     (let (ok, b) = consume now 1 (dict_get bs k (bucket_init now rate capacity))
      in (ok, AList.update k b bs))"

definition check_key ::
    "pyfloat \<Rightarrow> str \<Rightarrow> pyfloat \<Rightarrow> pyfloat \<Rightarrow> rate_limiter \<Rightarrow> bool \<times> rate_limiter" where
  "check_key now k rate capacity l =
     (let (ok, bs) = take_token now k rate capacity (rl_keys l) in (ok, l\<lparr>rl_keys := bs\<rparr>))"

definition check_agent ::
    "pyfloat \<Rightarrow> str \<Rightarrow> pyfloat \<Rightarrow> pyfloat \<Rightarrow> rate_limiter \<Rightarrow> bool \<times> rate_limiter" where
  "check_agent now a rate capacity l =
     (if rate \<le> 0 \<or> capacity \<le> 0 then (True, l)
      else let (ok, bs) = take_token now a rate capacity (rl_agents l) in (ok, l\<lparr>rl_agents := bs\<rparr>))"

definition cleanup_expired :: "pyfloat \<Rightarrow> rate_limiter \<Rightarrow> rate_limiter" where
  "cleanup_expired now l = l\<lparr>
     rl_keys := filter (\<lambda>(k, b). \<not> cleanup_threshold < now - tb_last_used b) (rl_keys l),
     rl_agents := filter (\<lambda>(k, b). \<not> cleanup_threshold < now - tb_last_used b) (rl_agents l)\<rparr>"

section \<open>The middleware\<close>

text \<open>\<open>path.split("/")\<close>, and the part after the first \<open>agents\<close> that has a successor.\<close>

fun agent_of_parts :: "str list \<Rightarrow> str" where
  "agent_of_parts (p # q # ps) = (if p = ''agents'' then q else agent_of_parts (q # ps))"
| "agent_of_parts _ = ''''"

text \<open>The request is passed on, or answered with status 429 and a waiting time.\<close>

datatype verdict = Forward | KeyLimited pyfloat | AgentLimited pyfloat

definition bucket_wait :: "pyfloat \<Rightarrow> str \<Rightarrow> (str, token_bucket) dict \<Rightarrow> pyfloat \<times> (str, token_bucket) dict" where
  "bucket_wait now k bs = (case map_of bs k of
     None \<Rightarrow> (0, bs)
   | Some b \<Rightarrow> (let (w, b') = get_wait_time now b in (w, AList.update k b' bs)))"

definition middleware ::
    "pyfloat \<Rightarrow> bool \<Rightarrow> str \<Rightarrow> str \<Rightarrow> rate_limiter \<Rightarrow> verdict \<times> rate_limiter" where
  "middleware now is_http api_key path l =
     (if \<not> is_http then (Forward, l)
      else
        let agent = agent_of_parts (split_on (CHR ''/'') path);
            (key_ok, l1) = (if api_key = [] then (True, l) else check_key now api_key 10 20 l)
        in if \<not> key_ok
           then (let (w, bs) = bucket_wait now api_key (rl_keys l1) in (KeyLimited w, l1\<lparr>rl_keys := bs\<rparr>))
           else
             let (agent_ok, l2) = (if agent = [] then (True, l1) else check_agent now agent 0 0 l1)
             in if \<not> agent_ok
                then (let (w, bs) = bucket_wait now agent (rl_agents l2)
                      in (AgentLimited w, l2\<lparr>rl_agents := bs\<rparr>))
                else (Forward, l2))"

section \<open>Correctness of a bucket\<close>

text \<open>
  Between calls a bucket holds between nothing and its capacity, and at least what it has
  gained since it was last used.
\<close>

definition bucket_ok :: "pyfloat \<Rightarrow> token_bucket \<Rightarrow> bool" where
  "bucket_ok now b \<longleftrightarrow> tb_rate b = 10 \<and> tb_capacity b = 20
     \<and> 0 \<le> tb_tokens b \<and> tb_tokens b \<le> 20
     \<and> tb_last_used b \<le> tb_last_refill b \<and> tb_last_refill b \<le> now
     \<and> min 20 (10 * (tb_last_refill b - tb_last_used b)) \<le> tb_tokens b"

definition avail :: "pyfloat \<Rightarrow> str \<Rightarrow> rate_limiter \<Rightarrow> pyfloat" where
  "avail now k l = (case map_of (rl_keys l) k of
     None \<Rightarrow> 20
   | Some b \<Rightarrow> min 20 (tb_tokens b + 10 * (now - tb_last_refill b)))"

definition limiter_ok :: "pyfloat \<Rightarrow> rate_limiter \<Rightarrow> bool" where
  "limiter_ok now l \<longleftrightarrow> dict_ok (rl_keys l) \<and> (\<forall>k b. map_of (rl_keys l) k = Some b \<longrightarrow> bucket_ok now b)"

lemma avail_later:
  "limiter_ok t l \<Longrightarrow> t \<le> t' \<Longrightarrow> avail t' k l \<le> avail t k l + 10 * (t' - t)"
  by (auto simp: avail_def min_def algebra_simps split: option.split)

lemma limiter_ok_later: "limiter_ok t l \<Longrightarrow> t \<le> t' \<Longrightarrow> limiter_ok t' l"
  unfolding limiter_ok_def bucket_ok_def by (meson order_trans)

lemma avail_nonneg: "limiter_ok t l \<Longrightarrow> 0 \<le> avail t k l"
  by (auto simp: avail_def limiter_ok_def bucket_ok_def split: option.split)

lemma consume_bucket:
  assumes b: "bucket_ok now b" and c: "consume now 1 b = (ok, b')"
  shows "bucket_ok now b'"
    and "(if ok then 1 else 0) + tb_tokens b' = min 20 (tb_tokens b + 10 * (now - tb_last_refill b))"
    and "tb_last_refill b' = now"
proof -
  let ?m = "min 20 (tb_tokens b + (now - tb_last_refill b) * 10)"
  have m: "0 \<le> ?m" "?m \<le> 20" using b by (auto simp: bucket_ok_def min_def)
  have b': "b' = b\<lparr>tb_tokens := (if 1 \<le> ?m then ?m - 1 else ?m), tb_last_refill := now,
      tb_last_used := now\<rparr>" "ok = (1 \<le> ?m)"
    using c b by (auto simp: consume_def refill_def Let_def bucket_ok_def split: if_splits)
  show "bucket_ok now b'" using b m by (auto simp: b' bucket_ok_def)
  show "(if ok then 1 else 0) + tb_tokens b' = min 20 (tb_tokens b + 10 * (now - tb_last_refill b))"
    by (simp add: b' mult.commute)
  show "tb_last_refill b' = now" by (simp add: b')
qed

lemma bucket_init_ok: "bucket_ok now (bucket_init now 10 20)"
  by (simp add: bucket_ok_def bucket_init_def)

lemma refill_ok:
  assumes b: "bucket_ok now b" "tb_last_refill b = now"
  shows "refill now b = b"
  using b by (simp add: refill_def bucket_ok_def)

section \<open>The middleware on its own keys\<close>

text \<open>What the key check of the middleware does to the tokens available to each key.\<close>

lemma check_key_step:
  assumes l: "limiter_ok now l" and c: "check_key now k 10 20 l = (ok, l')"
  shows "limiter_ok now l'" and "rl_agents l' = rl_agents l"
    and "(if ok then 1 else 0) + avail now k l' = avail now k l"
    and "\<And>j. j \<noteq> k \<Longrightarrow> avail now j l' = avail now j l"
    and "\<exists>b. map_of (rl_keys l') k = Some b \<and> bucket_ok now b \<and> tb_last_refill b = now"
proof -
  let ?b = "dict_get (rl_keys l) k (bucket_init now 10 20)"
  have b: "bucket_ok now ?b"
    using l bucket_init_ok by (auto simp: dict_get_def limiter_ok_def split: option.split)
  obtain b' where c': "consume now 1 ?b = (ok, b')" and l': "l' = l\<lparr>rl_keys := AList.update k b' (rl_keys l)\<rparr>"
    using c by (auto simp: check_key_def take_token_def split: prod.splits)
  note cb = consume_bucket [OF b c']
  show "limiter_ok now l'" using l cb(1) by (simp add: l' limiter_ok_def)
  show "rl_agents l' = rl_agents l" by (simp add: l')
  have "avail now k l = min 20 (tb_tokens ?b + 10 * (now - tb_last_refill ?b))"
    by (simp add: avail_def dict_get_def bucket_init_def split: option.split)
  moreover have "avail now k l' = tb_tokens b'"
    using cb(1,3) by (simp add: avail_def l' bucket_ok_def min_def)
  ultimately show "(if ok then 1 else 0) + avail now k l' = avail now k l" using cb(2) by simp
  show "avail now j l' = avail now j l" if "j \<noteq> k" for j
    using that by (simp add: avail_def l')
  show "\<exists>b. map_of (rl_keys l') k = Some b \<and> bucket_ok now b \<and> tb_last_refill b = now"
    using cb(1,3) by (simp add: l')
qed

lemma middleware_cases:
  assumes l: "limiter_ok now l" and m: "middleware now is_http key path l = (v, l')"
  obtains (pass) "v = Forward" "l' = l" "\<not> is_http \<or> key = []"
  | (checked) "is_http" "key \<noteq> []" "v = Forward" "check_key now key 10 20 l = (True, l')"
  | (limited) w where "is_http" "key \<noteq> []" "v = KeyLimited w" "map_of (rl_keys l') = map_of (rl_keys (snd (check_key now key 10 20 l)))"
      "fst (check_key now key 10 20 l) = False" "rl_agents l' = rl_agents l" "limiter_ok now l'"
proof -
  obtain ok l1 where c: "check_key now key 10 20 l = (ok, l1)" by fastforce
  note step = check_key_step [OF l c]
  obtain b where b: "map_of (rl_keys l1) key = Some b" "bucket_ok now b" "tb_last_refill b = now"
    using step(5) by blast
  have wait: "snd (bucket_wait now key (rl_keys l1)) = AList.update key b (rl_keys l1)"
    by (simp add: bucket_wait_def b(1) get_wait_time_def refill_ok [OF b(2,3)] Let_def)
  have upd: "(map_of (rl_keys l1))(key \<mapsto> b) = map_of (rl_keys l1)" using b(1) by auto
  have lim: "limiter_ok now (l1\<lparr>rl_keys := AList.update key b (rl_keys l1)\<rparr>)"
    using step(1) upd by (simp add: limiter_ok_def)
  show thesis
  proof (cases "\<not> is_http \<or> key = []")
    case True
    then show thesis using pass m by (auto simp: middleware_def check_agent_def Let_def split: if_splits)
  next
    case False
    show thesis
    proof (cases ok)
      case True
      then show thesis using checked m c False
        by (auto simp: middleware_def check_agent_def Let_def split: if_splits)
    next
      case no: False
      then have "v = KeyLimited (fst (bucket_wait now key (rl_keys l1)))"
        "l' = l1\<lparr>rl_keys := AList.update key b (rl_keys l1)\<rparr>"
        using m c False wait by (auto simp: middleware_def Let_def split_beta)
      then show thesis using limited [of "fst (bucket_wait now key (rl_keys l1))"] False no c upd lim step(2) by simp
    qed
  qed
qed

section \<open>Runs\<close>

text \<open>HTTP requests with a key and a path, and sweeps of idle buckets.\<close>

datatype rl_event = HttpRequest str str | Sweep

fun rl_step :: "pyfloat \<Rightarrow> rl_event \<Rightarrow> rate_limiter \<Rightarrow> verdict \<times> rate_limiter" where
  "rl_step now (HttpRequest key path) l = middleware now True key path l"
| "rl_step now Sweep l = (Forward, cleanup_expired now l)"

text \<open>How many requests with the key \<open>k\<close> a run passes on.\<close>

fun admitted :: "str \<Rightarrow> (pyfloat \<times> rl_event) list \<Rightarrow> rate_limiter \<Rightarrow> nat" where
  "admitted k [] l = 0"
| "admitted k ((now, e) # es) l =
     (let (v, l') = rl_step now e l
      in (case e of HttpRequest key path \<Rightarrow> (if key = k \<and> v = Forward then 1 else 0) | Sweep \<Rightarrow> 0)
         + admitted k es l')"

lemma avail_cong: "map_of (rl_keys l) = map_of (rl_keys l') \<Longrightarrow> avail now k l = avail now k l'"
  by (simp add: avail_def)

lemma cleanup_step:
  assumes l: "limiter_ok now l"
  shows "limiter_ok now (cleanup_expired now l)" and "avail now k (cleanup_expired now l) = avail now k l"
proof -
  have d: "dict_ok (rl_keys l)" using l by (simp add: limiter_ok_def)
  show "limiter_ok now (cleanup_expired now l)"
    using l by (auto simp: limiter_ok_def cleanup_expired_def dict_ok_filter map_of_filter_dict [OF d]
        split: option.splits if_splits)
  show "avail now k (cleanup_expired now l) = avail now k l"
  proof (cases "map_of (rl_keys l) k")
    case None
    then show ?thesis by (simp add: avail_def cleanup_expired_def map_of_filter_dict [OF d])
  next
    case (Some b)
    then have b: "bucket_ok now b" using l by (simp add: limiter_ok_def)
    have "20 \<le> tb_tokens b + 10 * (now - tb_last_refill b)" if "3600 < now - tb_last_used b"
    proof -
      have "20 \<le> tb_tokens b \<or> 10 * (tb_last_refill b - tb_last_used b) \<le> tb_tokens b"
        using b by (auto simp: bucket_ok_def min_def split: if_splits)
      then show ?thesis using that b unfolding bucket_ok_def by (auto simp: algebra_simps)
    qed
    then show ?thesis
      using Some by (auto simp: avail_def cleanup_expired_def map_of_filter_dict [OF d] cleanup_threshold_def)
  qed
qed

lemma rl_step_avail:
  assumes l: "limiter_ok now l" and k: "k \<noteq> []" and s: "rl_step now e l = (v, l')"
  shows "limiter_ok now l'"
    and "(case e of HttpRequest key path \<Rightarrow> (if key = k \<and> v = Forward then 1 else 0) | Sweep \<Rightarrow> 0)
      + avail now k l' = avail now k l"
proof -
  have "limiter_ok now l' \<and>
    (case e of HttpRequest key path \<Rightarrow> (if key = k \<and> v = Forward then 1 else 0) | Sweep \<Rightarrow> 0)
      + avail now k l' = avail now k l"
  proof (cases e)
    case Sweep
    then show ?thesis using s cleanup_step [OF l] by simp
  next
    case (HttpRequest key path)
    then have "middleware now True key path l = (v, l')" using s by simp
    with l show ?thesis
    proof (cases rule: middleware_cases)
      case pass
      then show ?thesis using l k HttpRequest by simp
    next
      case checked
      note c = check_key_step [OF l checked(4)]
      show ?thesis using c checked HttpRequest by (cases "key = k") auto
    next
      case (limited w)
      obtain l1 where c1: "check_key now key 10 20 l = (False, l1)"
        using limited(5) by (metis prod.collapse)
      note c = check_key_step [OF l c1]
      have "avail now k l' = avail now k l1" using limited(4) c1 by (intro avail_cong) simp
      then show ?thesis using c limited HttpRequest by (cases "key = k") auto
    qed
  qed
  then show "limiter_ok now l'" and "(case e of HttpRequest key path \<Rightarrow>
      (if key = k \<and> v = Forward then 1 else 0) | Sweep \<Rightarrow> 0) + avail now k l' = avail now k l"
    by simp_all
qed

lemma admitted_bound:
  assumes "limiter_ok t l" "k \<noteq> []" "sorted (t # map fst es)"
  shows "of_nat (admitted k es l) \<le> avail t k l + 10 * (last (t # map fst es) - t)"
  using assms
proof (induction es arbitrary: t l)
  case Nil
  then show ?case using avail_nonneg by simp
next
  case (Cons p es)
  obtain now e where p: "p = (now, e)" by (cases p)
  obtain v l' where s: "rl_step now e l = (v, l')" by fastforce
  have le: "t \<le> now" using Cons.prems(3) p by simp
  have ok: "limiter_ok now l" by (rule limiter_ok_later [OF Cons.prems(1) le])
  note step = rl_step_avail [OF ok Cons.prems(2) s]
  have "of_nat (admitted k es l') \<le> avail now k l' + 10 * (last (now # map fst es) - now)"
    using Cons.IH [OF step(1) Cons.prems(2)] Cons.prems(3) p by simp
  moreover have "avail now k l \<le> avail t k l + 10 * (now - t)"
    by (rule avail_later [OF Cons.prems(1) le])
  moreover have "of_nat (admitted k (p # es) l)
      = (case e of HttpRequest key path \<Rightarrow> (if key = k \<and> v = Forward then 1 else 0) | Sweep \<Rightarrow> 0)
        + (of_nat (admitted k es l') :: rat)"
    using s p by (simp split: rl_event.split)
  ultimately show ?case using step(2) p by (simp add: algebra_simps)
qed

text \<open>
  C27: Over any series of requests and sweeps at non-decreasing times, the middleware
  passes on at most 20 requests with a given API key plus 10 for every second that the
  series takes. Sweeping idle buckets does not weaken the bound.\<close>

theorem admission_bound:
  assumes "sorted (t # map fst es)" "k \<noteq> []"
  shows "of_nat (admitted k es rate_limiter_init) \<le> (20 + 10 * (last (t # map fst es) - t) :: rat)"
  using admitted_bound [OF _ assms(2,1), of rate_limiter_init]
  by (simp add: limiter_ok_def rate_limiter_init_def avail_def)

theorem admission_bound_witness:
  "of_nat (admitted ''key'' (replicate 30 (7, HttpRequest ''key'' ''/agents/a'')) rate_limiter_init)
     \<le> (20 :: rat)"
proof -
  have "sorted (7 # map fst (replicate 30 (7 :: pyfloat, HttpRequest ''key'' ''/agents/a'')))"
    by (simp add: sorted_replicate)
  moreover have "last (7 # map fst (replicate 30 (7 :: pyfloat, HttpRequest ''key'' ''/agents/a''))) = 7"
    by simp
  ultimately show ?thesis
    using admission_bound [of 7 "replicate 30 (7, HttpRequest ''key'' ''/agents/a'')" "''key''"]
    by simp
qed

text \<open>
  The middleware never limits an agent, whatever the request: it asks for the agent
  check with rate 0, which always passes, so no agent bucket is ever created. A request is
  refused exactly when it is an HTTP request with a key that has no token left.\<close>

theorem agents_never_limited:
  "rl_agents (snd (middleware now is_http key path l)) = rl_agents l
   \<and> ((\<exists>w. fst (middleware now is_http key path l) = KeyLimited w)
       \<longleftrightarrow> is_http \<and> key \<noteq> [] \<and> \<not> fst (check_key now key 10 20 l))
   \<and> fst (middleware now is_http key path l) \<noteq> AgentLimited w"
  by (auto simp: middleware_def check_agent_def check_key_def Let_def split: prod.split)

end
