(* ===== verification/TokenBudget.thy ===== *)
theory TokenBudget
  imports Json
begin

text \<open>
  Token budgets: \<open>agent_runtime/token_budget.py\<close>. Spending counters of a session, a day
  and a graph against three caps, a cap of 0 or less meaning no cap. The current day
  (\<open>time.strftime("%Y-%m-%d")\<close>) is an argument.
\<close>

section \<open>State\<close>

type_synonym rates = "(str, pyfloat) dict"

definition default_rates :: rates where
  "default_rates = [(''prompt_per_1k'', 0), (''completion_per_1k'', 0)]"

definition default_pricing :: "(str, rates) dict" where
  "default_pricing = [(''default'', default_rates)]"

record token_budget =
  bg_max :: int
  bg_spent :: int
  bg_prompt :: int
  bg_completion :: int
  bg_reasoning :: int
  bg_pricing :: "(str, rates) dict"
  bg_day_max :: int
  bg_day_spent :: int
  bg_day_key :: str
  bg_graph_max :: int
  bg_graph_spent :: "(str, int) dict"

definition budget_init :: "int \<Rightarrow> int \<Rightarrow> int \<Rightarrow> token_budget" where
  "budget_init m d g = \<lparr>bg_max = m, bg_spent = 0, bg_prompt = 0, bg_completion = 0,
     bg_reasoning = 0, bg_pricing = default_pricing, bg_day_max = d, bg_day_spent = 0,
     bg_day_key = '''', bg_graph_max = g, bg_graph_spent = []\<rparr>"

text \<open>
  A document with the fields of \<open>to_dict\<close>; a field may be absent. \<open>from_dict\<close>
  gives an absent field its default, and an absent or empty graph map the empty one.
\<close>

record budget_doc =
  bd_max :: "int option"
  bd_spent :: "int option"
  bd_prompt :: "int option"
  bd_completion :: "int option"
  bd_reasoning :: "int option"
  bd_pricing :: "(str, rates) dict option"
  bd_day_max :: "int option"
  bd_day_spent :: "int option"
  bd_day_key :: "str option"
  bd_graph_max :: "int option"
  bd_graph_spent :: "(str, int) dict option"

definition opt_get :: "'a option \<Rightarrow> 'a \<Rightarrow> 'a" where
  "opt_get x d = (case x of None \<Rightarrow> d | Some v \<Rightarrow> v)"

definition budget_to_doc :: "token_budget \<Rightarrow> budget_doc" where
  "budget_to_doc b = \<lparr>bd_max = Some (bg_max b), bd_spent = Some (bg_spent b),
     bd_prompt = Some (bg_prompt b), bd_completion = Some (bg_completion b),
     bd_reasoning = Some (bg_reasoning b), bd_pricing = Some (bg_pricing b),
     bd_day_max = Some (bg_day_max b), bd_day_spent = Some (bg_day_spent b),
     bd_day_key = Some (bg_day_key b), bd_graph_max = Some (bg_graph_max b),
     bd_graph_spent = Some (bg_graph_spent b)\<rparr>"

definition budget_from_doc :: "budget_doc \<Rightarrow> token_budget" where
  "budget_from_doc d = \<lparr>bg_max = opt_get (bd_max d) 0, bg_spent = opt_get (bd_spent d) 0,
     bg_prompt = opt_get (bd_prompt d) 0, bg_completion = opt_get (bd_completion d) 0,
     bg_reasoning = opt_get (bd_reasoning d) 0,
     bg_pricing = opt_get (bd_pricing d) default_pricing,
     bg_day_max = opt_get (bd_day_max d) 0, bg_day_spent = opt_get (bd_day_spent d) 0,
     bg_day_key = opt_get (bd_day_key d) '''', bg_graph_max = opt_get (bd_graph_max d) 0,
     bg_graph_spent = opt_get (bd_graph_spent d) []\<rparr>"

section \<open>Operations\<close>

definition roll_day :: "str \<Rightarrow> token_budget \<Rightarrow> token_budget" where
  "roll_day today b = (if bg_day_key b \<noteq> today
     then b\<lparr>bg_day_key := today, bg_day_spent := 0\<rparr> else b)"

definition record_usage :: "str \<Rightarrow> int \<Rightarrow> int \<Rightarrow> str \<Rightarrow> int \<Rightarrow> token_budget \<Rightarrow> token_budget" where
  "record_usage today p c g r b =
     (let total = p + c;
          b1 = b\<lparr>bg_prompt := bg_prompt b + p, bg_completion := bg_completion b + c,
                 bg_reasoning := bg_reasoning b + r\<rparr>;
          b2 = roll_day today (b1\<lparr>bg_spent := bg_prompt b1 + bg_completion b1\<rparr>);
          b3 = b2\<lparr>bg_day_spent := bg_day_spent b2 + total\<rparr>
      in if g = [] then b3
         else b3\<lparr>bg_graph_spent :=
                AList.update g (dict_get (bg_graph_spent b3) g 0 + total) (bg_graph_spent b3)\<rparr>)"

definition is_exceeded :: "str \<Rightarrow> str \<Rightarrow> token_budget \<Rightarrow> bool \<times> token_budget" where
  "is_exceeded today g b0 = (let b = roll_day today b0 in
     (if 0 < bg_max b \<and> bg_max b \<le> bg_spent b then True
      else if 0 < bg_day_max b \<and> bg_day_max b \<le> bg_day_spent b then True
      else if g \<noteq> [] \<and> 0 < bg_graph_max b \<and> bg_graph_max b \<le> dict_get (bg_graph_spent b) g 0
        then True
      else False, b))"

fun min_list0 :: "int list \<Rightarrow> int" where
  "min_list0 [] = 0"
| "min_list0 [x] = x"
| "min_list0 (x # y # ys) = min x (min_list0 (y # ys))"

definition remaining :: "str \<Rightarrow> str \<Rightarrow> token_budget \<Rightarrow> int \<times> token_budget" where
  "remaining today g b0 =
     (let run = (if 0 < bg_max b0 then [bg_max b0 - bg_spent b0] else []);
          b = (if 0 < bg_day_max b0 then roll_day today b0 else b0);
          day = (if 0 < bg_day_max b0 then [bg_day_max b - bg_day_spent b] else []);
          graph = (if g \<noteq> [] \<and> 0 < bg_graph_max b
                   then [bg_graph_max b - dict_get (bg_graph_spent b) g 0] else []);
          caps = run @ day @ graph
      in (if caps = [] then - 1 else max 0 (min_list0 caps), b))"

definition estimate_cost :: "str \<Rightarrow> token_budget \<Rightarrow> pyfloat" where
  "estimate_cost model b =
     (let rates = dict_get (bg_pricing b) model (dict_get (bg_pricing b) ''default'' default_rates)
      in of_int (bg_prompt b) / 1000 * dict_get rates ''prompt_per_1k'' 0
         + of_int (bg_completion b) / 1000 * dict_get rates ''completion_per_1k'' 0)"

record budget_status =
  st_budget :: token_budget
  st_remaining :: int
  st_exceeded :: bool
  st_cost :: pyfloat

definition budget_status_of :: "str \<Rightarrow> str \<Rightarrow> str \<Rightarrow> token_budget \<Rightarrow> budget_status \<times> token_budget" where
  "budget_status_of today model g b0 =
     (let b = roll_day today b0;
          (rem, b1) = remaining today g b;
          (exc, b2) = is_exceeded today g b1
      in (\<lparr>st_budget = b2, st_remaining = rem, st_exceeded = exc, st_cost = estimate_cost model b2\<rparr>, b2))"

section \<open>The caps\<close>

lemma roll_day_simps [simp]:
  "bg_max (roll_day today b) = bg_max b" "bg_spent (roll_day today b) = bg_spent b"
  "bg_prompt (roll_day today b) = bg_prompt b" "bg_completion (roll_day today b) = bg_completion b"
  "bg_reasoning (roll_day today b) = bg_reasoning b"
  "bg_day_max (roll_day today b) = bg_day_max b" "bg_graph_max (roll_day today b) = bg_graph_max b"
  "bg_graph_spent (roll_day today b) = bg_graph_spent b" "bg_day_key (roll_day today b) = today"
  "bg_pricing (roll_day today b) = bg_pricing b"
  by (simp_all add: roll_day_def)

text \<open>
  \<open>remaining\<close> is -1 exactly when no cap applies, and then the budget is not
  exceeded; otherwise it is never negative, and it is 0 exactly when \<open>is_exceeded\<close>
  answers True for the same day and graph.\<close>

theorem remaining_zero_iff_exceeded:
  "(fst (remaining today g b) = - 1
      \<longleftrightarrow> bg_max b \<le> 0 \<and> bg_day_max b \<le> 0 \<and> (g = [] \<or> bg_graph_max b \<le> 0))
   \<and> - 1 \<le> fst (remaining today g b)
   \<and> (fst (remaining today g b) = 0 \<longleftrightarrow> fst (is_exceeded today g b))"
  by (auto simp: remaining_def is_exceeded_def Let_def min_def max_def)

section \<open>Accounting\<close>

text \<open>A reported usage: day, prompt and completion tokens, graph, reasoning tokens.\<close>

type_synonym usage = "str \<times> int \<times> int \<times> str \<times> int"

definition use :: "usage \<Rightarrow> token_budget \<Rightarrow> token_budget" where
  "use u b = (case u of (day, p, c, g, r) \<Rightarrow> record_usage day p c g r b)"

definition usage_total :: "usage \<Rightarrow> int" where
  "usage_total u = (case u of (day, p, c, g, r) \<Rightarrow> p + c)"

definition same_day_suffix :: "usage list \<Rightarrow> usage list" where
  "same_day_suffix us = (case rev us of [] \<Rightarrow> []
     | u # _ \<Rightarrow> takeWhile (\<lambda>v. fst v = fst u) (rev us))"

lemma use_fields:
  "bg_prompt (use (d, p, c, g, r) b) = bg_prompt b + p"
  "bg_completion (use (d, p, c, g, r) b) = bg_completion b + c"
  "bg_reasoning (use (d, p, c, g, r) b) = bg_reasoning b + r"
  "bg_spent (use (d, p, c, g, r) b) = bg_prompt b + p + (bg_completion b + c)"
  "bg_day_key (use (d, p, c, g, r) b) = d"
  "bg_day_spent (use (d, p, c, g, r) b) = (if bg_day_key b = d then bg_day_spent b else 0) + (p + c)"
  "dict_get (bg_graph_spent (use (d, p, c, g, r) b)) h 0
    = dict_get (bg_graph_spent b) h 0 + (if g = h \<and> g \<noteq> [] then p + c else 0)"
  by (simp_all add: use_def record_usage_def Let_def dict_get_update roll_day_def)

lemma usage_total_simp: "usage_total (day, p, c, g, r) = p + c"
  by (simp add: usage_total_def)

lemma same_day_suffix_Nil: "same_day_suffix [] = []"
  by (simp add: same_day_suffix_def)

lemma fold_append_snoc: "fold f (xs @ [x]) s = f x (fold f xs s)"
  by simp

text \<open>
  Starting from a fresh budget, after any list of usage reports: the prompt,
  completion and reasoning counters are the sums of what was reported, the spent total is
  prompt plus completion, each graph is charged exactly the usage reported for it, and the
  day counter is the total of the last run of reports of one day.\<close>

theorem usage_accounting:
  "bg_prompt (fold use us (budget_init m d g)) = sum_list (map (\<lambda>(_, p, _). p) us)
   \<and> bg_completion (fold use us (budget_init m d g)) = sum_list (map (\<lambda>(_, _, c, _). c) us)
   \<and> bg_reasoning (fold use us (budget_init m d g)) = sum_list (map (\<lambda>(_, _, _, _, r). r) us)
   \<and> bg_spent (fold use us (budget_init m d g)) = sum_list (map usage_total us)
   \<and> dict_get (bg_graph_spent (fold use us (budget_init m d g))) h 0
       = sum_list (map usage_total (filter (\<lambda>(_, _, _, k, _). k = h \<and> h \<noteq> []) us))
   \<and> bg_day_spent (fold use us (budget_init m d g)) = sum_list (map usage_total (same_day_suffix us))
   \<and> bg_day_key (fold use us (budget_init m d g)) = (if us = [] then '''' else fst (last us))"
proof (induction us rule: rev_induct)
  case Nil
  then show ?case by (simp add: budget_init_def dict_get_def same_day_suffix_def)
next
  case (snoc u us)
  obtain day p c k r where u: "u = (day, p, c, k, r)" by (metis prod_cases5)
  have sd: "same_day_suffix (us @ [u])
      = u # (if us \<noteq> [] \<and> fst (last us) = day then same_day_suffix us else [])"
    by (cases us rule: rev_cases) (auto simp: same_day_suffix_def u)
  have tot: "sum_list (map usage_total us) = sum_list (map (\<lambda>(_, p, _). p) us)
      + sum_list (map (\<lambda>(_, _, c, _). c) us)"
    by (induction us) (auto simp: usage_total_def)
  show ?case
    using snoc.IH unfolding fold_append_snoc sd
    by (auto simp: u use_fields usage_total_simp tot same_day_suffix_Nil)
qed

lemma budget_roundtrip [simp]: "budget_from_doc (budget_to_doc b) = b"
  by (simp add: budget_from_doc_def budget_to_doc_def opt_get_def)

end
