(* ===== verification/FmpRouter.thy ===== *)
theory FmpRouter
  imports Json
begin

text \<open>
  The Fusion Message Protocol: \<open>agent_runtime/fmp_router.py\<close>. Agents and messages, the
  per-agent circuit breaker, the duplicate filter, the turn manager, mentions, and the
  routing of a received message. Clock readings and fresh identifiers are arguments; the
  clock readings of one call are the same.
\<close>

section \<open>Agents and messages\<close>

record agent_info =
  ai_id :: str
  ai_name :: str
  ai_capabilities :: "str list"
  ai_priority :: int
  ai_status :: str
  ai_last_active :: pyfloat

definition agent_info_init :: "str \<Rightarrow> pyfloat \<Rightarrow> agent_info \<Rightarrow> agent_info" where
  "agent_info_init fresh now a = a\<lparr>ai_id := (if ai_id a = [] then fresh else ai_id a),
     ai_last_active := (if ai_last_active a = 0 then now else ai_last_active a)\<rparr>"

definition agent_info_to_dict :: "agent_info \<Rightarrow> jobj" where
  "agent_info_to_dict a = [(''id'', JStr (ai_id a)), (''name'', JStr (ai_name a)),
     (''capabilities'', JList (map JStr (ai_capabilities a))),
     (''priority'', JInt (ai_priority a)), (''status'', JStr (ai_status a)),
     (''last_active'', JFloat (ai_last_active a))]"

definition agent_info_from_dict :: "str \<Rightarrow> pyfloat \<Rightarrow> jobj \<Rightarrow> agent_info option" where
  "agent_info_from_dict fresh now d = do {
     i \<leftarrow> field as_str d ''id'' '''';
     n \<leftarrow> field as_str d ''name'' '''';
     cs \<leftarrow> field as_strs d ''capabilities'' [];
     p \<leftarrow> field as_int d ''priority'' 5;
     st \<leftarrow> field as_str d ''status'' ''online'';
     la \<leftarrow> field as_num d ''last_active'' 0;
     Some (agent_info_init fresh now \<lparr>ai_id = i, ai_name = n, ai_capabilities = cs,
       ai_priority = p, ai_status = st, ai_last_active = la\<rparr>)}"

record fmp_message =
  fm_id :: str
  fm_sender :: str
  fm_recipient :: str
  fm_type :: str
  fm_payload :: jobj
  fm_round :: int
  fm_timestamp :: pyfloat
  fm_mentions :: "str list"
  fm_priority :: int
  fm_reply_to :: str

definition fmp_message_init :: "str \<Rightarrow> pyfloat \<Rightarrow> fmp_message \<Rightarrow> fmp_message" where
  "fmp_message_init fresh now msg = msg\<lparr>fm_id := (if fm_id msg = [] then fresh else fm_id msg),
     fm_timestamp := (if fm_timestamp msg = 0 then now else fm_timestamp msg)\<rparr>"

definition fmp_message_to_dict :: "fmp_message \<Rightarrow> jobj" where
  "fmp_message_to_dict msg = [(''message_id'', JStr (fm_id msg)), (''sender'', JStr (fm_sender msg)),
     (''recipient'', JStr (fm_recipient msg)), (''message_type'', JStr (fm_type msg)),
     (''payload'', JObj (fm_payload msg)), (''round_number'', JInt (fm_round msg)),
     (''timestamp'', JFloat (fm_timestamp msg)),
     (''mention_targets'', JList (map JStr (fm_mentions msg))),
     (''priority'', JInt (fm_priority msg)), (''reply_to'', JStr (fm_reply_to msg))]"

definition fmp_message_from_dict :: "str \<Rightarrow> pyfloat \<Rightarrow> jobj \<Rightarrow> fmp_message option" where
  "fmp_message_from_dict fresh now d = do {
     i \<leftarrow> field as_str d ''message_id'' '''';
     se \<leftarrow> field as_str d ''sender'' '''';
     re \<leftarrow> field as_str d ''recipient'' '''';
     ty \<leftarrow> field as_str d ''message_type'' ''request'';
     pl \<leftarrow> field as_obj d ''payload'' [];
     rn \<leftarrow> field as_int d ''round_number'' 0;
     ts \<leftarrow> field as_num d ''timestamp'' 0;
     ms \<leftarrow> field as_strs d ''mention_targets'' [];
     p \<leftarrow> field as_int d ''priority'' 5;
     rt \<leftarrow> field as_str d ''reply_to'' '''';
     Some (fmp_message_init fresh now \<lparr>fm_id = i, fm_sender = se, fm_recipient = re,
       fm_type = ty, fm_payload = pl, fm_round = rn, fm_timestamp = ts, fm_mentions = ms,
       fm_priority = p, fm_reply_to = rt\<rparr>)}"

section \<open>Circuit breaker\<close>

record breaker =
  br_threshold :: int
  br_reset :: pyfloat
  br_failures :: "(str, int) dict"
  br_trips :: "(str, pyfloat) dict"

definition breaker_init :: breaker where
  "breaker_init = \<lparr>br_threshold = 3, br_reset = 30, br_failures = [], br_trips = []\<rparr>"

definition record_success :: "str \<Rightarrow> breaker \<Rightarrow> breaker" where
  "record_success a b = b\<lparr>br_failures := AList.delete a (br_failures b),
     br_trips := AList.delete a (br_trips b)\<rparr>"

definition record_failure :: "pyfloat \<Rightarrow> str \<Rightarrow> breaker \<Rightarrow> breaker" where
  "record_failure now a b =
     (let count = dict_get (br_failures b) a 0 + 1;
          b1 = b\<lparr>br_failures := AList.update a count (br_failures b)\<rparr>
      in if br_threshold b \<le> count then b1\<lparr>br_trips := AList.update a now (br_trips b1)\<rparr> else b1)"

text \<open>\<open>is_open\<close> also forgets the failures of an agent whose isolation has run out.\<close>

definition is_open :: "pyfloat \<Rightarrow> str \<Rightarrow> breaker \<Rightarrow> bool \<times> breaker" where
  "is_open now a b = (case map_of (br_trips b) a of
     None \<Rightarrow> (False, b)
   | Some t \<Rightarrow> if br_reset b \<le> now - t then (False, record_success a b) else (True, b))"

section \<open>Duplicate filter, turns, mentions\<close>

definition dedup_window :: pyfloat where
  "dedup_window = 60"

definition is_duplicate :: "pyfloat \<Rightarrow> str \<Rightarrow> (str, pyfloat) dict \<Rightarrow> bool \<times> (str, pyfloat) dict" where
  "is_duplicate now mid seen0 =
     (let seen = filter (\<lambda>(k, ts). \<not> dedup_window < now - ts) seen0
      in if map_of seen mid \<noteq> None then (True, seen)
         else (False, AList.update mid now seen))"

record turns =
  tm_order :: "str list"
  tm_index :: nat

definition set_order :: "str list \<Rightarrow> turns \<Rightarrow> turns" where
  "set_order ids tm = tm\<lparr>tm_order := ids, tm_index := 0\<rparr>"

fun turn_loop :: "nat \<Rightarrow> str list \<Rightarrow> str list \<Rightarrow> nat \<Rightarrow> str option \<times> nat" where
  "turn_loop 0 order excluded i = (None, i)"
| "turn_loop (Suc n) order excluded i =
     (let a = order ! (i mod length order)
      in if a \<notin> set excluded then (Some a, i + 1) else turn_loop n order excluded (i + 1))"

definition next_turn :: "str list \<Rightarrow> turns \<Rightarrow> str option \<times> turns" where
  "next_turn excluded tm =
     (if tm_order tm = [] then (None, tm)
      else let (r, i) = turn_loop (length (tm_order tm)) (tm_order tm) excluded (tm_index tm)
           in (r, tm\<lparr>tm_index := i\<rparr>))"

definition turns_reset :: "turns \<Rightarrow> turns" where
  "turns_reset tm = tm\<lparr>tm_index := 0\<rparr>"

definition parse_mentions :: "str \<Rightarrow> str list" where
  "parse_mentions text = map (drop 1) (filter (\<lambda>w. starts_with w ''@'') (py_split text))"

definition find_mention :: "(str, agent_info) dict \<Rightarrow> str \<Rightarrow> str option" where
  "find_mention agents mention =
     map_option fst (List.find (\<lambda>(aid, a). ai_name a = mention \<or> aid = mention) agents)"

definition resolve_mentions :: "(str, agent_info) dict \<Rightarrow> str list \<Rightarrow> str list" where
  "resolve_mentions agents ms = List.map_filter (find_mention agents) ms"

text \<open>\<open>text.split()\<close> raises when the text of the payload is not a string.\<close>

definition route_by_mention :: "fmp_message \<Rightarrow> (str, agent_info) dict \<Rightarrow> py_exn + str list" where
  "route_by_mention msg agents =
     (let targets = resolve_mentions agents (fm_mentions msg)
      in if targets \<noteq> [] then Inr targets
         else (case as_str (jget (fm_payload msg) ''text'' (JStr '''')) of
             None \<Rightarrow> Inl AttributeError
           | Some text \<Rightarrow> Inr (resolve_mentions agents (parse_mentions text))))"

section \<open>The protocol\<close>

record fmp_stats =
  fs_sent :: nat
  fs_received :: nat
  fs_dropped :: nat
  fs_blocked :: nat
  fs_routed :: nat

record fmp =
  fp_local :: str
  fp_breaker :: breaker
  fp_seen :: "(str, pyfloat) dict"
  fp_turns :: turns
  fp_agents :: "(str, agent_info) dict"
  fp_log :: "fmp_message list"
  fp_stats :: fmp_stats

definition fmp_init :: "str \<Rightarrow> str \<Rightarrow> fmp" where
  "fmp_init fresh local_id = \<lparr>fp_local = (if local_id = [] then fresh else local_id),
     fp_breaker = breaker_init, fp_seen = [], fp_turns = \<lparr>tm_order = [], tm_index = 0\<rparr>,
     fp_agents = [], fp_log = [],
     fp_stats = \<lparr>fs_sent = 0, fs_received = 0, fs_dropped = 0, fs_blocked = 0, fs_routed = 0\<rparr>\<rparr>"

definition register_agent :: "agent_info \<Rightarrow> fmp \<Rightarrow> fmp" where
  "register_agent a f = (let ags = AList.update (ai_id a) a (fp_agents f)
     in f\<lparr>fp_agents := ags, fp_turns := set_order (map fst ags) (fp_turns f)\<rparr>)"

definition unregister_agent :: "str \<Rightarrow> fmp \<Rightarrow> fmp" where
  "unregister_agent aid f = (let ags = AList.delete aid (fp_agents f)
     in f\<lparr>fp_agents := ags, fp_turns := set_order (map fst ags) (fp_turns f)\<rparr>)"

definition fmp_send ::
    "str \<Rightarrow> pyfloat \<Rightarrow> str \<Rightarrow> str \<Rightarrow> jobj \<Rightarrow> str list \<Rightarrow> int \<Rightarrow> int \<Rightarrow> str \<Rightarrow> fmp
      \<Rightarrow> fmp_message \<times> fmp" where
  "fmp_send fresh now recipient ty payload mentions prio rnd reply f =
     (let msg = fmp_message_init fresh now \<lparr>fm_id = '''', fm_sender = fp_local f,
            fm_recipient = recipient, fm_type = ty, fm_payload = payload, fm_round = rnd,
            fm_timestamp = 0, fm_mentions = mentions, fm_priority = prio, fm_reply_to = reply\<rparr>
      in (msg, f\<lparr>fp_log := fp_log f @ [msg],
                 fp_stats := (fp_stats f)\<lparr>fs_sent := fs_sent (fp_stats f) + 1\<rparr>\<rparr>))"

text \<open>The agents that are online and whose breaker is closed; the breaker is asked only for online ones.\<close>

fun online_agents ::
    "pyfloat \<Rightarrow> (str, agent_info) dict \<Rightarrow> breaker \<Rightarrow> (str, agent_info) dict \<times> breaker" where
  "online_agents now [] b = ([], b)"
| "online_agents now ((aid, a) # as) b =
     (if ai_status a = ''online''
      then let (opened, b1) = is_open now aid b; (rest, b2) = online_agents now as b1
           in (if opened then rest else (aid, a) # rest, b2)
      else online_agents now as b)"

fun open_agents :: "pyfloat \<Rightarrow> str list \<Rightarrow> breaker \<Rightarrow> str list \<times> breaker" where
  "open_agents now [] b = ([], b)"
| "open_agents now (aid # as) b =
     (let (opened, b1) = is_open now aid b; (rest, b2) = open_agents now as b1
      in (if opened then aid # rest else rest, b2))"

definition route_turn :: "pyfloat \<Rightarrow> (str, agent_info) dict \<Rightarrow> fmp \<Rightarrow> str list \<times> fmp" where
  "route_turn now online f =
     (let (excluded, b) = open_agents now (map fst (fp_agents f)) (fp_breaker f);
          (next, tm) = next_turn excluded (fp_turns f);
          f' = f\<lparr>fp_breaker := b, fp_turns := tm\<rparr>
      in (case next of
            Some a \<Rightarrow> if a \<noteq> [] \<and> map_of online a \<noteq> None then [a] else take 1 (map fst online)
          | None \<Rightarrow> take 1 (map fst online), f'))"

definition route_direct :: "pyfloat \<Rightarrow> fmp_message \<Rightarrow> (str, agent_info) dict \<Rightarrow> fmp \<Rightarrow> str list \<times> fmp" where
  "route_direct now msg online f =
     (if fm_recipient msg \<noteq> [] \<and> fm_recipient msg \<noteq> ''broadcast''
      then if map_of online (fm_recipient msg) \<noteq> None then ([fm_recipient msg], f)
           else ([], f\<lparr>fp_stats := (fp_stats f)\<lparr>fs_blocked := fs_blocked (fp_stats f) + 1\<rparr>\<rparr>)
      else route_turn now online f)"

definition route :: "pyfloat \<Rightarrow> fmp_message \<Rightarrow> fmp \<Rightarrow> (py_exn + str list) \<times> fmp" where
  "route now msg f0 =
     (let (online, b) = online_agents now (fp_agents f0) (fp_breaker f0);
          f = f0\<lparr>fp_breaker := b\<rparr>
      in if online = [] then (Inr [], f)
         else if fm_mentions msg \<noteq> []
         then (case route_by_mention msg online of
                 Inl e \<Rightarrow> (Inl e, f)
               | Inr targets \<Rightarrow> if targets \<noteq> [] then (Inr targets, f)
                   else (let (ts, f') = route_direct now msg online f in (Inr ts, f')))
         else (let (ts, f') = route_direct now msg online f in (Inr ts, f')))"

datatype action = Drop str | Route "str list"

definition max_rounds :: int where
  "max_rounds = 3"

definition receive :: "pyfloat \<Rightarrow> fmp_message \<Rightarrow> fmp \<Rightarrow> (py_exn + action) \<times> fmp" where
  "receive now msg f0 =
     (let (dup, seen) = is_duplicate now (fm_id msg) (fp_seen f0);
          f = f0\<lparr>fp_seen := seen\<rparr>;
          dropped = f\<lparr>fp_stats := (fp_stats f)\<lparr>fs_dropped := fs_dropped (fp_stats f) + 1\<rparr>\<rparr>
      in if dup then (Inr (Drop ''duplicate''), dropped)
         else if max_rounds \<le> fm_round msg then (Inr (Drop ''max_rounds_exceeded''), dropped)
         else (case route now msg f of
             (Inl e, f1) \<Rightarrow> (Inl e, f1)
           | (Inr targets, f1) \<Rightarrow>
              (let f2 = f1\<lparr>fp_stats := (fp_stats f1)\<lparr>fs_received := fs_received (fp_stats f1) + 1\<rparr>\<rparr>
               in if targets = [] then (Inr (Drop ''no_available_targets''), f2)
                  else (Inr (Route targets),
                        f2\<lparr>fp_stats := (fp_stats f2)\<lparr>fs_routed := fs_routed (fp_stats f2) + 1\<rparr>\<rparr>))))"

end
