(* ===== verification/Swarm.thy ===== *)
theory Swarm
  imports FmpRouter
begin

text \<open>
  The swarm router: \<open>agent_runtime/swarm_router.py\<close> on the swarm tables of
  \<open>agent_runtime/persistence.py\<close>. Agents, delegations, hand-offs with a hop limit,
  evaluation and escalation. The verdict of the safety gateway is a function argument;
  fresh identifiers and clock readings are arguments. Failures of the store, which the
  code logs and ignores, are not modelled.
\<close>

section \<open>Records\<close>

definition default_max_hops :: int where
  "default_max_hops = 3"

record swarm_agent =
  sa_id :: str
  sa_name :: str
  sa_capabilities :: "str list"
  sa_targets :: "str list"
  sa_max_hops :: int
  sa_status :: str
  sa_metadata :: jobj

definition swarm_agent_init :: "str \<Rightarrow> swarm_agent \<Rightarrow> swarm_agent" where
  "swarm_agent_init fresh a = a\<lparr>sa_id := (if sa_id a = [] then fresh else sa_id a)\<rparr>"

definition swarm_agent_to_dict :: "swarm_agent \<Rightarrow> jobj" where
  "swarm_agent_to_dict a = [(''id'', JStr (sa_id a)), (''name'', JStr (sa_name a)),
     (''capabilities'', JList (map JStr (sa_capabilities a))),
     (''handoff_targets'', JList (map JStr (sa_targets a))),
     (''max_hops'', JInt (sa_max_hops a)), (''status'', JStr (sa_status a)),
     (''metadata'', JObj (sa_metadata a))]"

definition swarm_agent_from_dict :: "str \<Rightarrow> jobj \<Rightarrow> swarm_agent option" where
  "swarm_agent_from_dict fresh d = do {
     i \<leftarrow> field as_str d ''id'' '''';
     n \<leftarrow> field as_str d ''name'' '''';
     cs \<leftarrow> field as_strs d ''capabilities'' [];
     ts \<leftarrow> field as_strs d ''handoff_targets'' [];
     h \<leftarrow> field as_int d ''max_hops'' default_max_hops;
     st \<leftarrow> field as_str d ''status'' ''online'';
     md \<leftarrow> field as_obj d ''metadata'' [];
     Some (swarm_agent_init fresh \<lparr>sa_id = i, sa_name = n, sa_capabilities = cs, sa_targets = ts,
       sa_max_hops = h, sa_status = st, sa_metadata = md\<rparr>)}"

record delegation =
  dg_id :: str
  dg_task :: str
  dg_delegator :: str
  dg_delegatee :: str
  dg_trigger :: str
  dg_deliverable :: str
  dg_status :: str
  dg_hops :: int
  dg_created :: pyfloat
  dg_completed :: pyfloat
  dg_result :: jobj

definition delegation_init :: "str \<Rightarrow> pyfloat \<Rightarrow> delegation \<Rightarrow> delegation" where
  "delegation_init fresh now d = d\<lparr>dg_id := (if dg_id d = [] then fresh else dg_id d),
     dg_created := (if dg_created d = 0 then now else dg_created d)\<rparr>"

definition delegation_to_dict :: "delegation \<Rightarrow> jobj" where
  "delegation_to_dict d = [(''id'', JStr (dg_id d)), (''task'', JStr (dg_task d)),
     (''delegator'', JStr (dg_delegator d)), (''delegatee'', JStr (dg_delegatee d)),
     (''trigger_condition'', JStr (dg_trigger d)), (''deliverable'', JStr (dg_deliverable d)),
     (''status'', JStr (dg_status d)), (''hop_count'', JInt (dg_hops d)),
     (''created_at'', JFloat (dg_created d)), (''completed_at'', JFloat (dg_completed d)),
     (''result'', JObj (dg_result d))]"

definition delegation_from_dict :: "str \<Rightarrow> pyfloat \<Rightarrow> jobj \<Rightarrow> delegation option" where
  "delegation_from_dict fresh now d = do {
     i \<leftarrow> field as_str d ''id'' '''';
     t \<leftarrow> field as_str d ''task'' '''';
     f \<leftarrow> field as_str d ''delegator'' '''';
     e \<leftarrow> field as_str d ''delegatee'' '''';
     tr \<leftarrow> field as_str d ''trigger_condition'' '''';
     de \<leftarrow> field as_str d ''deliverable'' '''';
     st \<leftarrow> field as_str d ''status'' ''pending'';
     h \<leftarrow> field as_int d ''hop_count'' 0;
     ca \<leftarrow> field as_num d ''created_at'' 0;
     co \<leftarrow> field as_num d ''completed_at'' 0;
     r \<leftarrow> field as_obj d ''result'' [];
     Some (delegation_init fresh now \<lparr>dg_id = i, dg_task = t, dg_delegator = f,
       dg_delegatee = e, dg_trigger = tr, dg_deliverable = de, dg_status = st, dg_hops = h,
       dg_created = ca, dg_completed = co, dg_result = r\<rparr>)}"

record handoff_context =
  hc_conversation :: "jobj list"
  hc_metadata :: jobj
  hc_hops :: int
  hc_task :: str

definition handoff_context_to_dict :: "handoff_context \<Rightarrow> jobj" where
  "handoff_context_to_dict c = [(''conversation'', JList (map JObj (hc_conversation c))),
     (''metadata'', JObj (hc_metadata c)), (''hop_count'', JInt (hc_hops c)),
     (''task_id'', JStr (hc_task c))]"

definition handoff_context_from_dict :: "jobj \<Rightarrow> handoff_context option" where
  "handoff_context_from_dict d = do {
     c \<leftarrow> field as_objs d ''conversation'' [];
     md \<leftarrow> field as_obj d ''metadata'' [];
     h \<leftarrow> field as_int d ''hop_count'' 0;
     t \<leftarrow> field as_str d ''task_id'' '''';
     Some \<lparr>hc_conversation = c, hc_metadata = md, hc_hops = h, hc_task = t\<rparr>}"

section \<open>Tables\<close>

text \<open>
  The delegation table has no columns for the trigger condition and the deliverable. A
  conflicting insert updates the columns that the statement names.
\<close>

record swarm_store =
  ss_agents :: "(str, swarm_agent) dict"
  ss_delegs :: "(str, delegation) dict"

definition delegation_row :: "delegation \<Rightarrow> delegation" where
  "delegation_row d = d\<lparr>dg_trigger := '''', dg_deliverable := ''''\<rparr>"

definition upsert_delegation :: "delegation \<Rightarrow> delegation \<Rightarrow> delegation" where
  "upsert_delegation old d = old\<lparr>dg_status := dg_status d, dg_hops := dg_hops d,
     dg_completed := dg_completed d, dg_result := dg_result d\<rparr>"

definition save_swarm_agent :: "swarm_agent \<Rightarrow> swarm_store \<Rightarrow> swarm_store" where
  "save_swarm_agent a st = st\<lparr>ss_agents := AList.update (sa_id a) a (ss_agents st)\<rparr>"

definition delete_swarm_agent :: "str \<Rightarrow> swarm_store \<Rightarrow> swarm_store" where
  "delete_swarm_agent aid st = st\<lparr>ss_agents := AList.delete aid (ss_agents st)\<rparr>"

definition save_swarm_delegation :: "delegation \<Rightarrow> swarm_store \<Rightarrow> swarm_store" where
  "save_swarm_delegation d st = st\<lparr>ss_delegs := AList.update (dg_id d)
     (case map_of (ss_delegs st) (dg_id d) of
        None \<Rightarrow> delegation_row d | Some old \<Rightarrow> upsert_delegation old d) (ss_delegs st)\<rparr>"

section \<open>The router\<close>

record handoff_entry =
  he_from :: str
  he_to :: str
  he_hops :: int
  he_task :: str
  he_time :: pyfloat

record swarm =
  sw_max_hops :: int
  sw_agents :: "(str, swarm_agent) dict"
  sw_delegs :: "(str, delegation) dict"
  sw_log :: "handoff_entry list"
  sw_fmp :: fmp
  sw_store :: "swarm_store option"

text \<open>The constructor loads agents and delegations from the store; ids and times of rows are set.\<close>

definition swarm_init :: "int \<Rightarrow> fmp \<Rightarrow> swarm_store option \<Rightarrow> swarm" where
  "swarm_init hops f st = \<lparr>sw_max_hops = hops,
     sw_agents = (case st of None \<Rightarrow> [] | Some s \<Rightarrow>
        fold (\<lambda>(k, a). AList.update k a) (ss_agents s) []),
     sw_delegs = (case st of None \<Rightarrow> [] | Some s \<Rightarrow>
        fold (\<lambda>(k, d). AList.update k d) (ss_delegs s) []),
     sw_log = [], sw_fmp = f, sw_store = st\<rparr>"

definition persist_agent :: "swarm_agent \<Rightarrow> swarm \<Rightarrow> swarm" where
  "persist_agent a s = s\<lparr>sw_store := map_option (save_swarm_agent a) (sw_store s)\<rparr>"

definition persist_delegation :: "delegation \<Rightarrow> swarm \<Rightarrow> swarm" where
  "persist_delegation d s = s\<lparr>sw_store := map_option (save_swarm_delegation d) (sw_store s)\<rparr>"

definition swarm_register :: "swarm_agent \<Rightarrow> swarm \<Rightarrow> swarm" where
  "swarm_register a s = persist_agent a (s\<lparr>sw_agents := AList.update (sa_id a) a (sw_agents s)\<rparr>)"

definition swarm_unregister :: "str \<Rightarrow> swarm \<Rightarrow> bool \<times> swarm" where
  "swarm_unregister aid s =
     (if map_of (sw_agents s) aid = None then (False, s)
      else (True, s\<lparr>sw_agents := AList.delete aid (sw_agents s),
                    sw_store := map_option (delete_swarm_agent aid) (sw_store s)\<rparr>))"

definition ensure_fmp_agent :: "str \<Rightarrow> pyfloat \<Rightarrow> swarm_agent \<Rightarrow> swarm \<Rightarrow> swarm" where
  "ensure_fmp_agent fresh now a s =
     (if map_of (fp_agents (sw_fmp s)) (sa_id a) \<noteq> None then s
      else s\<lparr>sw_fmp := register_agent (agent_info_init fresh now
             \<lparr>ai_id = sa_id a, ai_name = sa_name a, ai_capabilities = sa_capabilities a,
              ai_priority = 5, ai_status = ''online'', ai_last_active = 0\<rparr>) (sw_fmp s)\<rparr>)"

definition find_agent_by_capability :: "str \<Rightarrow> str list \<Rightarrow> swarm \<Rightarrow> swarm_agent option" where
  "find_agent_by_capability cap excluded s =
     first_opt (filter (\<lambda>a. sa_status a = ''online'' \<and> cap \<in> set (sa_capabilities a)
        \<and> sa_id a \<notin> set excluded) (map snd (sw_agents s)))"

definition pick_target :: "swarm_agent \<Rightarrow> swarm \<Rightarrow> swarm_agent option" where
  "pick_target delegator s =
     (case first_opt (filter (\<lambda>t. case map_of (sw_agents s) t of
           None \<Rightarrow> False | Some a \<Rightarrow> sa_status a = ''online'') (sa_targets delegator)) of
        None \<Rightarrow> None
      | Some t \<Rightarrow> map_of (sw_agents s) t)"

definition delegate ::
    "str \<Rightarrow> str \<Rightarrow> pyfloat \<Rightarrow> str \<Rightarrow> str \<Rightarrow> str \<Rightarrow> str \<Rightarrow> str \<Rightarrow> swarm \<Rightarrow> delegation option \<times> swarm" where
  "delegate fresh fresh_msg now delegator_id tsk cap trigger deliverable s =
     (case map_of (sw_agents s) delegator_id of
        None \<Rightarrow> (None, s)
      | Some delegator \<Rightarrow>
         (case (if cap \<noteq> [] then find_agent_by_capability cap [delegator_id] s
                else pick_target delegator s) of
            None \<Rightarrow> (None, s)
          | Some e \<Rightarrow>
             (let d = delegation_init fresh now \<lparr>dg_id = '''', dg_task = tsk,
                    dg_delegator = delegator_id, dg_delegatee = sa_id e, dg_trigger = trigger,
                    dg_deliverable = deliverable, dg_status = ''pending'', dg_hops = 1,
                    dg_created = 0, dg_completed = 0, dg_result = []\<rparr>;
                  s1 = persist_delegation d (s\<lparr>sw_delegs := AList.update (dg_id d) d (sw_delegs s)\<rparr>);
                  s2 = ensure_fmp_agent fresh_msg now e s1
              in (Some d, s2\<lparr>sw_fmp := snd (fmp_send fresh_msg now (sa_id e) ''delegation''
                    [(''task'', JStr tsk), (''delegation_id'', JStr (dg_id d)),
                     (''deliverable'', JStr deliverable)] [] 5 0 '''' (sw_fmp s2))\<rparr>))))"

definition effective_max :: "swarm_agent \<Rightarrow> swarm_agent \<Rightarrow> swarm \<Rightarrow> int" where
  "effective_max a b s = min (min (sa_max_hops a) (sa_max_hops b)) (sw_max_hops s)"

definition handoff ::
    "str \<Rightarrow> pyfloat \<Rightarrow> str \<Rightarrow> str \<Rightarrow> handoff_context \<Rightarrow> swarm \<Rightarrow> handoff_context option \<times> swarm" where
  "handoff fresh_msg now from to ctx s =
     (case (map_of (sw_agents s) from, map_of (sw_agents s) to) of
        (Some a, Some b) \<Rightarrow>
          (let hop = hc_hops ctx + 1 in
           if effective_max a b s < hop then (None, s)
           else
             let ctx' = \<lparr>hc_conversation = hc_conversation ctx,
                   hc_metadata = AList.update ''handed_off_at'' (JFloat now)
                     (AList.update ''handed_off_from'' (JStr from) (hc_metadata ctx)),
                   hc_hops = hop, hc_task = hc_task ctx\<rparr>;
                 s1 = ensure_fmp_agent fresh_msg now b (s\<lparr>sw_log := sw_log s @
                   [\<lparr>he_from = from, he_to = to, he_hops = hop, he_task = hc_task ctx, he_time = now\<rparr>]\<rparr>)
             in (Some ctx', s1\<lparr>sw_fmp := snd (fmp_send fresh_msg now to ''handoff''
                   [(''hop_count'', JInt hop), (''task_id'', JStr (hc_task ctx))] [] 5 0 '''' (sw_fmp s1))\<rparr>))
      | _ \<Rightarrow> (None, s))"

definition put_delegation :: "delegation \<Rightarrow> swarm \<Rightarrow> swarm" where
  "put_delegation d s = persist_delegation d (s\<lparr>sw_delegs := AList.update (dg_id d) d (sw_delegs s)\<rparr>)"

definition evaluate :: "pyfloat \<Rightarrow> str \<Rightarrow> jobj \<Rightarrow> swarm \<Rightarrow> delegation option \<times> swarm" where
  "evaluate now tid result s = (case map_of (sw_delegs s) tid of
     None \<Rightarrow> (None, s)
   | Some d \<Rightarrow> (let d' = d\<lparr>dg_status := ''completed'', dg_result := result, dg_completed := now\<rparr>
       in (Some d', put_delegation d' s)))"

text \<open>What the escalation reads of a verdict of \<open>SafetyGateway.evaluate_action\<close>.\<close>

record safety_verdict =
  sv_action :: str
  sv_requires_approval :: bool
  sv_action_id :: str

type_synonym safety_gate = "str \<Rightarrow> str \<Rightarrow> str \<Rightarrow> safety_verdict"

definition escalation_result :: "safety_verdict \<Rightarrow> str \<Rightarrow> jobj" where
  "escalation_result v reason = [(''escalated'', JBool True), (''reason'', JStr reason),
     (''safety_action'', JStr (sv_action v)), (''requires_approval'', JBool (sv_requires_approval v)),
     (''action_id'', JStr (sv_action_id v))]"

definition escalate ::
    "safety_gate \<Rightarrow> pyfloat \<Rightarrow> str \<Rightarrow> str \<Rightarrow> swarm \<Rightarrow> delegation option \<times> swarm" where
  "escalate gate now tid reason s = (case map_of (sw_delegs s) tid of
     None \<Rightarrow> (None, s)
   | Some d \<Rightarrow> (let v = gate ''shell_exec'' reason tid;
                    d' = d\<lparr>dg_status := ''escalated'', dg_result := escalation_result v reason,
                           dg_completed := now\<rparr>
       in (Some d', put_delegation d' s)))"

definition auto_escalate :: "safety_gate \<Rightarrow> pyfloat \<Rightarrow> str \<Rightarrow> swarm \<Rightarrow> delegation option \<times> swarm" where
  "auto_escalate gate now tid s = (case map_of (sw_delegs s) tid of
     None \<Rightarrow> (None, s)
   | Some d \<Rightarrow> (case map_of (sw_agents s) (dg_delegatee d) of
       None \<Rightarrow> escalate gate now tid ''delegatee_agent_offline'' s
     | Some a \<Rightarrow>
        if sa_status a \<noteq> ''online'' then escalate gate now tid ''delegatee_agent_offline'' s
        else if sa_max_hops a \<le> dg_hops d \<or> sw_max_hops s \<le> dg_hops d
        then escalate gate now tid ''max_hops_exceeded'' s
        else (None, s)))"

definition list_delegations :: "str \<Rightarrow> swarm \<Rightarrow> delegation list" where
  "list_delegations status s =
     filter (\<lambda>d. status = [] \<or> dg_status d = status) (map snd (sw_delegs s))"

text \<open>Python's \<open>xs[-n:]\<close>: the last \<open>n\<close> elements, but all of them for \<open>n = 0\<close>.\<close>

definition last_slice :: "int \<Rightarrow> 'a list \<Rightarrow> 'a list" where
  "last_slice n xs = (if 0 < n then drop (length xs - nat n) xs else drop (nat (- n)) xs)"

definition get_handoff_log :: "int \<Rightarrow> swarm \<Rightarrow> handoff_entry list" where
  "get_handoff_log lmt s = last_slice lmt (sw_log s)"

record swarm_stats =
  ws_agents :: nat
  ws_delegations :: nat
  ws_pending :: nat
  ws_completed :: nat
  ws_escalated :: nat
  ws_handoffs :: nat

definition get_stats :: "swarm \<Rightarrow> swarm_stats" where
  "get_stats s = \<lparr>ws_agents = length (sw_agents s), ws_delegations = length (sw_delegs s),
     ws_pending = count_vals (\<lambda>d. dg_status d = ''pending'') (sw_delegs s),
     ws_completed = count_vals (\<lambda>d. dg_status d = ''completed'') (sw_delegs s),
     ws_escalated = count_vals (\<lambda>d. dg_status d = ''escalated'') (sw_delegs s),
     ws_handoffs = length (sw_log s)\<rparr>"

end
