(* ===== verification/SwarmProps.thy ===== *)
theory SwarmProps
  imports Swarm
begin

text \<open>
  Properties of the swarm router: hand-offs respect the hop limit, delegation picks an
  able agent, escalation at the limit and of finished work, and what a restart restores.
\<close>

section \<open>Hand-offs\<close>

lemma ensure_fmp_agent_simps [simp]:
  "sw_agents (ensure_fmp_agent fr now a s) = sw_agents s"
  "sw_delegs (ensure_fmp_agent fr now a s) = sw_delegs s"
  "sw_max_hops (ensure_fmp_agent fr now a s) = sw_max_hops s"
  "sw_store (ensure_fmp_agent fr now a s) = sw_store s"
  "sw_log (ensure_fmp_agent fr now a s) = sw_log s"
  by (simp_all add: ensure_fmp_agent_def)

lemma handoff_frame:
  "sw_agents (snd (handoff fr now src dst ctx s)) = sw_agents s"
  "sw_delegs (snd (handoff fr now src dst ctx s)) = sw_delegs s"
  "sw_max_hops (snd (handoff fr now src dst ctx s)) = sw_max_hops s"
  "sw_store (snd (handoff fr now src dst ctx s)) = sw_store s"
  by (simp_all add: handoff_def Let_def split: option.split)

text \<open>
  A hand-off happens exactly when both agents are registered and one more hop is
  within the limits of the sender, the receiver and the router. Then it adds one hop, is
  logged, and reaches the receiver's message queue; otherwise nothing changes.\<close>

theorem handoff_exact:
  "(case fst (handoff fr now src dst ctx s) of
      None \<Rightarrow> snd (handoff fr now src dst ctx s) = s
        \<and> list_all (\<lambda>(a, b). effective_max a b s \<le> hc_hops ctx)
            (case (map_of (sw_agents s) src, map_of (sw_agents s) dst) of
               (Some a, Some b) \<Rightarrow> [(a, b)] | _ \<Rightarrow> [])
    | Some ctx' \<Rightarrow> hc_hops ctx' = hc_hops ctx + 1 \<and> hc_task ctx' = hc_task ctx
        \<and> hc_conversation ctx' = hc_conversation ctx
        \<and> (\<exists>a b. map_of (sw_agents s) src = Some a \<and> map_of (sw_agents s) dst = Some b
             \<and> hc_hops ctx' \<le> effective_max a b s)
        \<and> sw_log (snd (handoff fr now src dst ctx s)) = sw_log s
            @ [\<lparr>he_from = src, he_to = dst, he_hops = hc_hops ctx', he_task = hc_task ctx, he_time = now\<rparr>]
        \<and> (\<exists>ms m. fp_log (sw_fmp (snd (handoff fr now src dst ctx s))) = ms @ [m]
             \<and> fm_recipient m = dst \<and> fm_type m = ''handoff''))"
  by (auto simp: handoff_def Let_def fmp_send_def fmp_message_init_def split: option.split)

text \<open>A chain of attempted hand-offs of one context; refused ones leave the context as it is.\<close>

fun run_handoffs ::
    "(str \<times> pyfloat \<times> str \<times> str) list \<Rightarrow> handoff_context \<Rightarrow> swarm \<Rightarrow> handoff_context \<times> nat \<times> swarm" where
  "run_handoffs [] ctx s = (ctx, 0, s)"
| "run_handoffs ((fr, now, src, dst) # hs) ctx s =
     (case handoff fr now src dst ctx s of
        (None, s1) \<Rightarrow> run_handoffs hs ctx s1
      | (Some ctx1, s1) \<Rightarrow> (let (c, n, s2) = run_handoffs hs ctx1 s1 in (c, Suc n, s2)))"

lemma handoff_SomeD:
  "handoff fr now src dst ctx s = (Some ctx', s') \<Longrightarrow>
    hc_hops ctx' = hc_hops ctx + 1 \<and> hc_hops ctx' \<le> sw_max_hops s"
  by (auto simp: handoff_def effective_max_def Let_def split: option.splits if_splits)

text \<open>
  However many hand-offs of a context are attempted, between whichever agents, the hop
  count grows by exactly the number of successful ones, and once one succeeds the count is
  within the router's limit: a context that starts at hop 0 is handed off at most
  \<open>max_hops\<close> times.\<close>

theorem handoff_chain_bounded:
  "case run_handoffs hs ctx s of (ctx', n, s') \<Rightarrow>
     hc_hops ctx' = hc_hops ctx + int n \<and> (n = 0 \<or> hc_hops ctx' \<le> sw_max_hops s)
     \<and> sw_max_hops s' = sw_max_hops s"
proof (induction hs arbitrary: ctx s)
  case Nil
  then show ?case by simp
next
  case (Cons h hs)
  obtain fr now src dst where h: "h = (fr, now, src, dst)" by (cases h)
  obtain r s1 where r: "handoff fr now src dst ctx s = (r, s1)" by fastforce
  have mh: "sw_max_hops s1 = sw_max_hops s" using handoff_frame(3) [of fr now src dst ctx s] r by simp
  show ?case
  proof (cases r)
    case None
    then show ?thesis using Cons.IH [of ctx s1] r mh by (simp add: h)
  next
    case (Some ctx1)
    have b: "hc_hops ctx1 = hc_hops ctx + 1" "hc_hops ctx1 \<le> sw_max_hops s"
      using handoff_SomeD [OF r [unfolded Some]] by auto
    obtain c n s2 where n: "run_handoffs hs ctx1 s1 = (c, n, s2)" by (metis prod_cases3)
    then show ?thesis using Cons.IH [of ctx1 s1] r Some mh b by (auto simp: h)
  qed
qed

section \<open>Delegation\<close>

text \<open>
  A delegation is made exactly when the delegator is registered and has a delegatee:
  with a capability, some other online agent that has it; without one, an online hand-off
  target. The delegation is stored as pending at hop 1 and announced to the delegatee.\<close>

theorem delegate_picks_able:
  assumes "delegate fr fm now src tsk cap trig deliv s = (Some d, s')"
    and "\<And>k a. (k, a) \<in> set (sw_agents s) \<Longrightarrow> sa_id a = k"
  shows "\<exists>delegator e. map_of (sw_agents s) src = Some delegator
    \<and> (dg_delegatee d, e) \<in> set (sw_agents s) \<and> sa_status e = ''online''
    \<and> (if cap \<noteq> [] then cap \<in> set (sa_capabilities e) \<and> dg_delegatee d \<noteq> src
       else dg_delegatee d \<in> set (sa_targets delegator))
    \<and> dg_delegator d = src \<and> dg_status d = ''pending'' \<and> dg_hops d = 1
    \<and> map_of (sw_delegs s') (dg_id d) = Some d
    \<and> (\<exists>ms m. fp_log (sw_fmp s') = ms @ [m] \<and> fm_recipient m = dg_delegatee d)"
proof -
  obtain delegator e where
      del: "map_of (sw_agents s) src = Some delegator"
    and e: "(if cap \<noteq> [] then find_agent_by_capability cap [src] s else pick_target delegator s) = Some e"
    using assms(1) by (auto simp: delegate_def split: option.splits)
  have mem: "(sa_id e, e) \<in> set (sw_agents s) \<and> sa_status e = ''online''
      \<and> (if cap \<noteq> [] then cap \<in> set (sa_capabilities e) \<and> sa_id e \<noteq> src
         else sa_id e \<in> set (sa_targets delegator))"
  proof (cases "cap = []")
    case False
    then have "first_opt (filter (\<lambda>a. sa_status a = ''online'' \<and> cap \<in> set (sa_capabilities a)
        \<and> sa_id a \<notin> set [src]) (map snd (sw_agents s))) = Some e"
      using e by (simp add: find_agent_by_capability_def)
    from first_opt_filter_SomeD [OF this] show ?thesis using False assms(2) by auto
  next
    case True
    then obtain t where t: "first_opt (filter (\<lambda>t. case map_of (sw_agents s) t of
           None \<Rightarrow> False | Some a \<Rightarrow> sa_status a = ''online'') (sa_targets delegator)) = Some t"
        "map_of (sw_agents s) t = Some e"
      using e by (auto simp: pick_target_def split: option.splits)
    from first_opt_filter_SomeD [OF t(1)] show ?thesis
      using True t(2) assms(2) map_of_SomeD by fastforce
  qed
  have d: "d = delegation_init fr now \<lparr>dg_id = '''', dg_task = tsk, dg_delegator = src,
      dg_delegatee = sa_id e, dg_trigger = trig, dg_deliverable = deliv, dg_status = ''pending'',
      dg_hops = 1, dg_created = 0, dg_completed = 0, dg_result = []\<rparr>"
    and s': "map_of (sw_delegs s') (dg_id d) = Some d"
      "\<exists>ms m. fp_log (sw_fmp s') = ms @ [m] \<and> fm_recipient m = sa_id e"
    using assms(1) del e
    by (auto simp: delegate_def Let_def persist_delegation_def fmp_send_def fmp_message_init_def
        split: if_splits)
  show ?thesis
    using del mem s' by (intro exI [of _ delegator] exI [of _ e]) (auto simp: d delegation_init_def)
qed

section \<open>Escalation\<close>

text \<open>
  \<open>auto_escalate_if_needed\<close> escalates a delegation exactly when its delegatee is
  unknown or offline, or its hop count has reached (not only exceeded) the limit of the
  delegatee or of the router, whatever the status of the delegation.\<close>

theorem auto_escalate_exact:
  "fst (auto_escalate gate now tid s) = None \<longleftrightarrow>
     (case map_of (sw_delegs s) tid of
        None \<Rightarrow> True
      | Some d \<Rightarrow> (case map_of (sw_agents s) (dg_delegatee d) of
           None \<Rightarrow> False
         | Some a \<Rightarrow> sa_status a = ''online'' \<and> dg_hops d < sa_max_hops a \<and> dg_hops d < sw_max_hops s))"
  by (auto simp: auto_escalate_def escalate_def Let_def split: option.split)

text \<open>
  Auto-escalation does not spare finished work: a completed delegation whose delegatee
  is no longer registered becomes escalated, and the recorded result is replaced by the
  escalation notice.\<close>

theorem completed_result_lost:
  assumes "map_of (sw_delegs s) tid = Some d" "dg_status d = ''completed''" "dg_id d = tid"
    and "map_of (sw_agents s) (dg_delegatee d) = None"
  shows "\<exists>d'. map_of (sw_delegs (snd (auto_escalate gate now tid s))) tid = Some d'
    \<and> dg_status d' = ''escalated''
    \<and> dg_result d' = escalation_result (gate ''shell_exec'' ''delegatee_agent_offline'' tid)
        ''delegatee_agent_offline''"
  using assms by (simp add: auto_escalate_def escalate_def put_delegation_def
      persist_delegation_def Let_def)

section \<open>Restart\<close>

datatype swarm_op =
    SwRegister swarm_agent
  | SwUnregister str
  | SwDelegate str str pyfloat str str str str str
  | SwHandoff str pyfloat str str handoff_context
  | SwEvaluate pyfloat str jobj
  | SwEscalate safety_gate pyfloat str str
  | SwAuto safety_gate pyfloat str

fun swarm_step :: "swarm_op \<Rightarrow> swarm \<Rightarrow> swarm" where
  "swarm_step (SwRegister a) s = swarm_register a s"
| "swarm_step (SwUnregister aid) s = snd (swarm_unregister aid s)"
| "swarm_step (SwDelegate fr fm now src tsk cap trig deliv) s =
     snd (delegate fr fm now src tsk cap trig deliv s)"
| "swarm_step (SwHandoff fr now src dst ctx) s = snd (handoff fr now src dst ctx s)"
| "swarm_step (SwEvaluate now tid r) s = snd (evaluate now tid r s)"
| "swarm_step (SwEscalate gate now tid reason) s = snd (escalate gate now tid reason s)"
| "swarm_step (SwAuto gate now tid) s = snd (auto_escalate gate now tid s)"

text \<open>The fresh delegation ids that a run draws.\<close>

fun drawn_ids :: "swarm_op list \<Rightarrow> str list" where
  "drawn_ids [] = []"
| "drawn_ids (SwDelegate fr fm now src tsk cap trig deliv # ops) = fr # drawn_ids ops"
| "drawn_ids (_ # ops) = drawn_ids ops"

definition saved_rows :: "(str, delegation) dict \<Rightarrow> (str, delegation) dict" where
  "saved_rows ds = map (\<lambda>(k, d). (k, delegation_row d)) ds"

text \<open>The store mirrors the router, up to the two columns that the table does not have.\<close>

definition mirrored :: "swarm \<Rightarrow> bool" where
  "mirrored s \<longleftrightarrow> dict_ok (sw_agents s) \<and> dict_ok (sw_delegs s)
     \<and> (\<forall>k d. map_of (sw_delegs s) k = Some d \<longrightarrow> dg_id d = k)
     \<and> sw_store s = Some \<lparr>ss_agents = sw_agents s, ss_delegs = saved_rows (sw_delegs s)\<rparr>"

lemma saved_rows_update:
  "saved_rows (AList.update k d ds) = AList.update k (delegation_row d) (saved_rows ds)"
  by (induction ds) (auto simp: saved_rows_def)

lemma map_of_saved_rows: "map_of (saved_rows ds) k = map_option delegation_row (map_of ds k)"
  by (induction ds) (auto simp: saved_rows_def)

lemma put_new_mirrored:
  assumes "mirrored s" "map_of (sw_delegs s) (dg_id d) = None"
  shows "mirrored (put_delegation d s)"
  using assms
  by (auto simp: mirrored_def put_delegation_def persist_delegation_def save_swarm_delegation_def
      saved_rows_update map_of_saved_rows)

lemma put_changed_mirrored:
  assumes "mirrored s" "map_of (sw_delegs s) k = Some d"
  shows "mirrored (put_delegation (d\<lparr>dg_status := st, dg_result := r, dg_completed := c\<rparr>) s)"
proof -
  have "dg_id d = k" using assms by (simp add: mirrored_def)
  then show ?thesis
    using assms by (auto simp: mirrored_def put_delegation_def persist_delegation_def
        save_swarm_delegation_def saved_rows_update map_of_saved_rows upsert_delegation_def
        delegation_row_def intro!: arg_cong [where f = "\<lambda>x. AList.update k x (saved_rows (sw_delegs s))"])
qed

lemma put_delegation_keys:
  "fst ` set (sw_delegs (put_delegation d s)) = insert (dg_id d) (fst ` set (sw_delegs s))"
proof -
  have "dom (map_of (AList.update (dg_id d) d (sw_delegs s))) = insert (dg_id d) (dom (map_of (sw_delegs s)))"
    by simp
  then show ?thesis unfolding put_delegation_def persist_delegation_def dom_map_of_conv_image_fst by simp
qed

lemma escalate_mirrored:
  "mirrored s \<Longrightarrow> mirrored (snd (escalate gate now tid reason s))"
  "mirrored s \<Longrightarrow> fst ` set (sw_delegs (snd (escalate gate now tid reason s))) = fst ` set (sw_delegs s)"
proof -
  assume m: "mirrored s"
  show "mirrored (snd (escalate gate now tid reason s))"
    using m put_changed_mirrored [OF m] by (auto simp: escalate_def Let_def split: option.split)
  have "tid \<in> fst ` set (sw_delegs s) \<and> dg_id d = tid" if "map_of (sw_delegs s) tid = Some d" for d
    using that m map_of_SomeD by (force simp: mirrored_def)
  then show "fst ` set (sw_delegs (snd (escalate gate now tid reason s))) = fst ` set (sw_delegs s)"
    by (auto simp: escalate_def Let_def put_delegation_keys split: option.split)
qed

lemma evaluate_mirrored:
  "mirrored s \<Longrightarrow> mirrored (snd (evaluate now tid r s))"
  "mirrored s \<Longrightarrow> fst ` set (sw_delegs (snd (evaluate now tid r s))) = fst ` set (sw_delegs s)"
proof -
  assume m: "mirrored s"
  show "mirrored (snd (evaluate now tid r s))"
    using m put_changed_mirrored [OF m] by (auto simp: evaluate_def Let_def split: option.split)
  have "tid \<in> fst ` set (sw_delegs s) \<and> dg_id d = tid" if "map_of (sw_delegs s) tid = Some d" for d
    using that m map_of_SomeD by (force simp: mirrored_def)
  then show "fst ` set (sw_delegs (snd (evaluate now tid r s))) = fst ` set (sw_delegs s)"
    by (auto simp: evaluate_def Let_def put_delegation_keys split: option.split)
qed

lemma auto_escalate_cases:
  "snd (auto_escalate gate now tid s) = s
   \<or> (\<exists>reason. snd (auto_escalate gate now tid s) = snd (escalate gate now tid reason s))"
  by (auto simp: auto_escalate_def split: option.split)

lemma mirrored_cong:
  "mirrored s \<Longrightarrow> sw_agents s' = sw_agents s \<Longrightarrow> sw_delegs s' = sw_delegs s \<Longrightarrow>
    sw_store s' = sw_store s \<Longrightarrow> mirrored s'"
  by (simp add: mirrored_def)

text \<open>A delegation either changes nothing or puts one new delegation.\<close>

lemma delegate_effect:
  "\<exists>t. (t = s \<or> (\<exists>d. dg_id d = fr \<and> t = put_delegation d s))
     \<and> sw_agents (snd (delegate fr fm now src tsk cap trig deliv s)) = sw_agents t
     \<and> sw_delegs (snd (delegate fr fm now src tsk cap trig deliv s)) = sw_delegs t
     \<and> sw_store (snd (delegate fr fm now src tsk cap trig deliv s)) = sw_store t"
proof (cases "fst (delegate fr fm now src tsk cap trig deliv s)")
  case None
  then have "snd (delegate fr fm now src tsk cap trig deliv s) = s"
    by (auto simp: delegate_def Let_def split: option.splits)
  then show ?thesis by auto
next
  case (Some d)
  then have "dg_id d = fr \<and> (\<exists>e. snd (delegate fr fm now src tsk cap trig deliv s)
      = (ensure_fmp_agent fm now e (put_delegation d s))\<lparr>sw_fmp :=
          sw_fmp (snd (delegate fr fm now src tsk cap trig deliv s))\<rparr>)"
    by (auto simp: delegate_def Let_def put_delegation_def delegation_init_def split: option.splits)
  then obtain e where id: "dg_id d = fr" and e: "snd (delegate fr fm now src tsk cap trig deliv s)
      = (ensure_fmp_agent fm now e (put_delegation d s))\<lparr>sw_fmp :=
          sw_fmp (snd (delegate fr fm now src tsk cap trig deliv s))\<rparr>" by blast
  show ?thesis
    by (rule exI [of _ "put_delegation d s"], subst (1 2 3) e) (use id in auto)
qed


lemma swarm_step_mirrored:
  assumes m: "mirrored s"
    and fresh: "set (drawn_ids [op]) \<inter> fst ` set (sw_delegs s) = {}"
  shows "mirrored (swarm_step op s)"
    and "fst ` set (sw_delegs (swarm_step op s)) \<subseteq> fst ` set (sw_delegs s) \<union> set (drawn_ids [op])"
proof -
  have "mirrored (swarm_step op s) \<and>
    fst ` set (sw_delegs (swarm_step op s)) \<subseteq> fst ` set (sw_delegs s) \<union> set (drawn_ids [op])"
  proof (cases op)
    case (SwRegister a)
    then show ?thesis using m
      by (simp add: mirrored_def swarm_register_def persist_agent_def save_swarm_agent_def)
  next
    case (SwUnregister aid)
    then show ?thesis using m
      by (simp add: mirrored_def swarm_unregister_def delete_swarm_agent_def)
  next
    case (SwDelegate fr fm now src tsk cap trig deliv)
    obtain t where t: "t = s \<or> (\<exists>d. dg_id d = fr \<and> t = put_delegation d s)"
      and eq: "sw_agents (swarm_step op s) = sw_agents t" "sw_delegs (swarm_step op s) = sw_delegs t"
        "sw_store (swarm_step op s) = sw_store t"
      using delegate_effect [of s fr fm now src tsk cap trig deliv] SwDelegate by auto
    have fr: "fr \<notin> fst ` set (sw_delegs s)" using fresh SwDelegate by simp
    then have "mirrored t" using t put_new_mirrored [OF m] m by (auto simp: map_of_eq_None_iff)
    then have "mirrored (swarm_step op s)" using mirrored_cong eq by blast
    moreover have "fst ` set (sw_delegs t) \<subseteq> insert fr (fst ` set (sw_delegs s))"
      using t put_delegation_keys by blast
    ultimately show ?thesis using eq SwDelegate by simp
  next
    case (SwHandoff fr now src dst ctx)
    then show ?thesis using mirrored_cong [OF m] handoff_frame by simp
  next
    case (SwEvaluate now tid r)
    then show ?thesis using evaluate_mirrored [OF m] by simp
  next
    case (SwEscalate gate now tid reason)
    then show ?thesis using escalate_mirrored [OF m] by simp
  next
    case (SwAuto gate now tid)
    consider "swarm_step op s = s" | reason where
        "swarm_step op s = snd (escalate gate now tid reason s)"
      using auto_escalate_cases [of gate now tid s] SwAuto by auto
    then show ?thesis using m escalate_mirrored [OF m] by cases simp_all
  qed
  then show "mirrored (swarm_step op s)"
    and "fst ` set (sw_delegs (swarm_step op s)) \<subseteq> fst ` set (sw_delegs s) \<union> set (drawn_ids [op])"
    by simp_all
qed

lemma drawn_ids_Cons: "drawn_ids (op # ops) = drawn_ids [op] @ drawn_ids ops"
  by (cases op) simp_all

lemma swarm_run_mirrored:
  assumes "mirrored s" "distinct (drawn_ids ops)" "set (drawn_ids ops) \<inter> fst ` set (sw_delegs s) = {}"
  shows "mirrored (fold swarm_step ops s)"
  using assms
proof (induction ops arbitrary: s)
  case Nil
  then show ?case by simp
next
  case (Cons op ops)
  have d: "distinct (drawn_ids [op] @ drawn_ids ops)"
    "set (drawn_ids [op] @ drawn_ids ops) \<inter> fst ` set (sw_delegs s) = {}"
    using Cons.prems(2,3) by (simp_all only: drawn_ids_Cons [of op ops])
  have "set (drawn_ids [op]) \<inter> fst ` set (sw_delegs s) = {}" using d(2) by auto
  note step = swarm_step_mirrored [OF Cons.prems(1) this]
  have "set (drawn_ids ops) \<inter> fst ` set (sw_delegs (swarm_step op s)) = {}"
    using step(2) d by auto
  then show ?case using Cons.IH [OF step(1)] d(1) by simp
qed

lemma fold_update_id:
  "distinct (map fst xs) \<Longrightarrow> set (map fst xs) \<inter> fst ` set acc = {} \<Longrightarrow>
    fold (\<lambda>(k, v). AList.update k v) xs acc = acc @ xs"
proof (induction xs arbitrary: acc)
  case Nil
  then show ?case by simp
next
  case (Cons p xs)
  obtain k v where p: "p = (k, v)" by (cases p)
  have "AList.update k v acc = acc @ [(k, v)]" if "k \<notin> fst ` set acc"
    using that by (induction acc) auto
  then have "AList.update k v acc = acc @ [(k, v)]" using Cons.prems p by auto
  then show ?case using Cons.IH [of "acc @ [(k, v)]"] Cons.prems p by auto
qed

text \<open>
  After any run of router operations on a fresh store (delegations drawing distinct
  ids), a router that is built anew on that store has exactly the same agents, and the
  same delegations in the same order except that their trigger condition and deliverable
  are empty.\<close>

theorem restart_restores:
  assumes "distinct (drawn_ids ops)"
    and "s = fold swarm_step ops (swarm_init hops f (Some \<lparr>ss_agents = [], ss_delegs = []\<rparr>))"
  shows "sw_agents (swarm_init hops' f' (sw_store s)) = sw_agents s
    \<and> sw_delegs (swarm_init hops' f' (sw_store s))
        = map (\<lambda>(k, d). (k, d\<lparr>dg_trigger := '''', dg_deliverable := ''''\<rparr>)) (sw_delegs s)"
proof -
  have "mirrored (swarm_init hops f (Some \<lparr>ss_agents = [], ss_delegs = []\<rparr>))"
    by (simp add: mirrored_def swarm_init_def saved_rows_def)
  then have m: "mirrored s"
    unfolding assms(2) by (rule swarm_run_mirrored) (use assms(1) in \<open>simp_all add: swarm_init_def\<close>)
  have "map fst (saved_rows (sw_delegs s)) = map fst (sw_delegs s)"
    by (simp add: saved_rows_def comp_def split_def)
  then have "distinct (map fst (saved_rows (sw_delegs s)))" "distinct (map fst (sw_agents s))"
    using m by (simp_all add: mirrored_def dict_ok_def)
  then show ?thesis
    using m by (simp add: mirrored_def swarm_init_def fold_update_id saved_rows_def delegation_row_def)
qed

lemma roundtrips:
  "swarm_agent_from_dict fresh (swarm_agent_to_dict a) = Some (swarm_agent_init fresh a)"
  "delegation_from_dict fresh now (delegation_to_dict d) = Some (delegation_init fresh now d)"
  "handoff_context_from_dict (handoff_context_to_dict c) = Some c"
  by (cases a, cases d, simp add: swarm_agent_from_dict_def swarm_agent_to_dict_def
      delegation_from_dict_def delegation_to_dict_def handoff_context_from_dict_def
      handoff_context_to_dict_def swarm_agent_init_def delegation_init_def)+

section \<open>Concrete runs\<close>

definition worker :: "str \<Rightarrow> swarm_agent" where
  "worker i = \<lparr>sa_id = i, sa_name = i, sa_capabilities = [''code''], sa_targets = [],
     sa_max_hops = 3, sa_status = ''online'', sa_metadata = []\<rparr>"

definition sample_ops :: "swarm_op list" where
  "sample_ops = [SwRegister (worker ''a''), SwRegister (worker ''b''),
     SwDelegate ''d1'' ''m1'' 1 ''a'' ''fix it'' ''code'' ''ci red'' ''patch'']"

definition sample_swarm :: swarm where
  "sample_swarm = fold swarm_step sample_ops
     (swarm_init 3 (fmp_init ''x'' ''swarm_router'') (Some \<lparr>ss_agents = [], ss_delegs = []\<rparr>))"

theorem restart_restores_witness:
  "map (\<lambda>(k, d). (dg_delegatee d, dg_trigger d))
     (sw_delegs (swarm_init 3 (fmp_init ''y'' ''swarm_router'') (sw_store sample_swarm)))
   = [(''b'', '''')]"
proof -
  have "distinct (drawn_ids sample_ops)" by (simp add: sample_ops_def)
  from restart_restores [OF this sample_swarm_def]
  have r: "sw_delegs (swarm_init 3 (fmp_init ''y'' ''swarm_router'') (sw_store sample_swarm))
      = map (\<lambda>(k, d). (k, d\<lparr>dg_trigger := '''', dg_deliverable := ''''\<rparr>)) (sw_delegs sample_swarm)"
    by blast
  have "map (\<lambda>(k, d). dg_delegatee d) (sw_delegs sample_swarm) = [''b'']" by code_simp
  then show ?thesis unfolding r by (cases "sw_delegs sample_swarm") auto
qed

theorem delegate_picks_able_witness:
  "\<exists>e. (''b'', e) \<in> set (sw_agents sample_swarm) \<and> ''code'' \<in> set (sa_capabilities e)"
proof -
  let ?r = "delegate ''d2'' ''m2'' 2 ''a'' ''again'' ''code'' '''' '''' sample_swarm"
  have i: "list_all (\<lambda>(k, a). sa_id a = k) (sw_agents sample_swarm)" by code_simp
  have "map_option dg_delegatee (fst ?r) = Some ''b''" by code_simp
  then obtain d where d: "fst ?r = Some d" "dg_delegatee d = ''b''"
    unfolding map_option_eq_Some by blast
  have r: "?r = (Some d, snd ?r)" by (rule prod_eqI) (simp_all add: d(1))
  have k: "sa_id a = k" if "(k, a) \<in> set (sw_agents sample_swarm)" for k a
    using i that by (auto simp: list_all_iff)
  show ?thesis using delegate_picks_able [OF r k] d(2) by auto
qed

theorem completed_result_lost_witness:
  "map_option dg_status (map_of (sw_delegs (snd (auto_escalate
       (\<lambda>c r t. \<lparr>sv_action = ''confirm'', sv_requires_approval = True, sv_action_id = ''x''\<rparr>) 9 ''d1''
       (fold swarm_step [SwEvaluate 5 ''d1'' [(''ok'', JBool True)], SwUnregister ''b''] sample_swarm))))
     ''d1'') = Some ''escalated''"
proof -
  let ?s = "fold swarm_step [SwEvaluate 5 ''d1'' [(''ok'', JBool True)], SwUnregister ''b''] sample_swarm"
  have "map_option (\<lambda>d. (dg_status d, dg_id d, map_of (sw_agents ?s) (dg_delegatee d) = None))
      (map_of (sw_delegs ?s) ''d1'') = Some (''completed'', ''d1'', True)"
    by code_simp
  then obtain d where "map_of (sw_delegs ?s) ''d1'' = Some d" "dg_status d = ''completed''"
      "dg_id d = ''d1''" "map_of (sw_agents ?s) (dg_delegatee d) = None"
    unfolding map_option_eq_Some by auto
  from completed_result_lost [OF this, of _ 9] show ?thesis by auto
qed

end
