(* ===== verification/FmpProps.thy ===== *)
theory FmpProps
  imports FmpRouter
begin

text \<open>
  Properties of the message protocol: routed targets are available, the breaker isolates an
  agent after three failures for thirty seconds, a message is accepted once per window,
  turns go round the order, and documents round trip.
\<close>

section \<open>Availability of targets\<close>

lemma is_open_simps:
  "fst (is_open now a b) \<longleftrightarrow> (\<exists>t. map_of (br_trips b) a = Some t \<and> now - t < br_reset b)"
  by (auto simp: is_open_def split: option.split)

text \<open>Asking for one agent does not change the answer for any agent at the same time.\<close>

lemma is_open_stable:
  "fst (is_open now a (snd (is_open now c b))) = fst (is_open now a b)"
  "br_reset (snd (is_open now c b)) = br_reset b"
  by (auto simp: is_open_def record_success_def split: option.split)

lemma online_agents_mem:
  "set (fst (online_agents now as b))
     = {(aid, a). (aid, a) \<in> set as \<and> ai_status a = ''online'' \<and> \<not> fst (is_open now aid b)}"
proof (induction as arbitrary: b)
  case Nil
  then show ?case by simp
next
  case (Cons p as)
  obtain aid a where p: "p = (aid, a)" by (cases p)
  obtain opened b1 where o: "is_open now aid b = (opened, b1)" by fastforce
  have "fst (is_open now x b1) = fst (is_open now x b)" for x
    using is_open_stable(1) [of now x aid b] o by simp
  then show ?case using Cons.IH [of b] Cons.IH [of b1] o
    by (auto simp: p split_beta)
qed

lemma online_agents_breaker:
  "fst (is_open now x (snd (online_agents now as b))) = fst (is_open now x b)"
proof (induction as arbitrary: b)
  case Nil
  then show ?case by simp
next
  case (Cons p as)
  then show ?case
    by (cases p) (simp add: split_beta is_open_stable(1))
qed

definition available :: "pyfloat \<Rightarrow> fmp \<Rightarrow> str \<Rightarrow> bool" where
  "available now f t \<longleftrightarrow> (\<exists>a. (t, a) \<in> set (fp_agents f) \<and> ai_status a = ''online''
     \<and> \<not> fst (is_open now t (fp_breaker f)))"

lemma find_mention_mem: "find_mention ags m = Some t \<Longrightarrow> t \<in> fst ` set ags"
  by (induction ags) (auto simp: find_mention_def split: if_splits)

lemma resolve_mentions_mem: "set (resolve_mentions ags ms) \<subseteq> fst ` set ags"
  by (auto simp: resolve_mentions_def List.map_filter_def dest: find_mention_mem)

lemma route_by_mention_mem: "route_by_mention msg ags = Inr ts \<Longrightarrow> set ts \<subseteq> fst ` set ags"
  using resolve_mentions_mem
  by (auto simp: route_by_mention_def Let_def split: if_splits option.splits)

lemma map_of_mem_key: "map_of d k \<noteq> None \<Longrightarrow> k \<in> fst ` set d"
  by (metis map_of_eq_None_iff)

lemma route_turn_mem: "set (fst (route_turn now ags f)) \<subseteq> fst ` set ags"
proof -
  obtain ex b where o: "open_agents now (map fst (fp_agents f)) (fp_breaker f) = (ex, b)" by fastforce
  obtain nx tm where n: "next_turn ex (fp_turns f) = (nx, tm)" by fastforce
  have t: "set (take 1 (map fst ags)) \<subseteq> fst ` set ags"
    using set_take_subset [of 1 "map fst ags"] by simp
  show ?thesis
  proof (cases nx)
    case None
    then show ?thesis using o n t by (simp add: route_turn_def)
  next
    case (Some a)
    then show ?thesis using o n t map_of_mem_key [of ags a] by (auto simp: route_turn_def)
  qed
qed

lemma route_direct_mem: "route_direct now msg ags f = (ts, f') \<Longrightarrow> set ts \<subseteq> fst ` set ags"
  using route_turn_mem [of now ags f]
  by (auto simp: route_direct_def split: if_splits dest: map_of_SomeD intro: rev_image_eqI)

lemma route_targets:
  assumes r: "route now msg f = (Inr ts, f')"
  shows "set ts \<subseteq> {t. available now f t}"
proof -
  obtain online b where o: "online_agents now (fp_agents f) (fp_breaker f) = (online, b)"
    by fastforce
  have "fst ` set online \<subseteq> {t. available now f t}"
    using online_agents_mem [of now "fp_agents f" "fp_breaker f"] o
    by (force simp: available_def)
  moreover have "set ts \<subseteq> fst ` set online"
  proof (cases "online = []")
    case True
    then show ?thesis using r o by (simp add: route_def)
  next
    case False
    obtain us g where d: "route_direct now msg online (f\<lparr>fp_breaker := b\<rparr>) = (us, g)" by fastforce
    show ?thesis
      using r o False d route_by_mention_mem [of msg online] route_direct_mem [OF d]
      by (auto simp: route_def Let_def split: if_splits sum.splits)
  qed
  ultimately show ?thesis by blast
qed

lemma is_open_frame: "fp_breaker (f\<lparr>fp_seen := s\<rparr>) = fp_breaker f"
  by simp

text \<open>
  C34: When \<open>receive\<close> decides to route a message, there is at least one target, the
  message is below the round limit, and every target is a registered agent that is online
  and that the circuit breaker does not isolate at that moment.\<close>

theorem routed_targets_available:
  assumes "receive now msg f = (Inr (Route ts), f')"
  shows "ts \<noteq> [] \<and> fm_round msg < 3 \<and> (\<forall>t \<in> set ts. \<exists>a. (t, a) \<in> set (fp_agents f)
    \<and> ai_status a = ''online'' \<and> \<not> fst (is_open now t (fp_breaker f)))"
proof -
  obtain dup seen where d: "is_duplicate now (fm_id msg) (fp_seen f) = (dup, seen)" by fastforce
  have "\<exists>f1. route now msg (f\<lparr>fp_seen := seen\<rparr>) = (Inr ts, f1) \<and> ts \<noteq> [] \<and> fm_round msg < 3"
    using assms d by (auto simp: receive_def max_rounds_def Let_def split: if_splits prod.splits sum.splits)
  then show ?thesis using route_targets by (fastforce simp: available_def)
qed

text \<open>A protocol with two online agents, one of them isolated.\<close>

definition sample_fmp :: fmp where
  "sample_fmp =
     (let a = \<lparr>ai_id = ''a'', ai_name = ''ann'', ai_capabilities = [], ai_priority = 5,
               ai_status = ''online'', ai_last_active = 1\<rparr>;
          f = register_agent (a\<lparr>ai_id := ''b'', ai_name := ''bob''\<rparr>)
                (register_agent a (fmp_init ''x'' ''me''))
      in f\<lparr>fp_breaker := fold (\<lambda>t. record_failure t ''a'') [1, 2, 3] (fp_breaker f)\<rparr>)"

definition sample_message :: fmp_message where
  "sample_message = \<lparr>fm_id = ''m1'', fm_sender = ''me'', fm_recipient = '''', fm_type = ''request'',
     fm_payload = [(''text'', JStr ''hi @ann'')], fm_round = 0, fm_timestamp = 4, fm_mentions = [],
     fm_priority = 5, fm_reply_to = ''''\<rparr>"

theorem routed_targets_available_witness:
  "fst (receive 5 sample_message sample_fmp) = Inr (Route [''b''])
   \<and> \<not> fst (is_open 5 ''b'' (fp_breaker sample_fmp)) \<and> fst (is_open 5 ''a'' (fp_breaker sample_fmp))"
proof -
  have r: "fst (receive 5 sample_message sample_fmp) = Inr (Route [''b''])" by code_simp
  then have e: "receive 5 sample_message sample_fmp
      = (Inr (Route [''b'']), snd (receive 5 sample_message sample_fmp))" by (metis prod.collapse)
  have "\<not> fst (is_open 5 ''b'' (fp_breaker sample_fmp))"
    using routed_targets_available [OF e] by auto
  moreover have "fst (is_open 5 ''a'' (fp_breaker sample_fmp))" by code_simp
  ultimately show ?thesis using r by blast
qed

text \<open>
  The text of a message without explicit mention targets plays no part in its routing:
  an \<open>@name\<close> in the payload is looked at only when the message has mention targets
  and none of them resolves.\<close>

theorem text_mentions_ignored:
  "receive now (msg\<lparr>fm_mentions := [], fm_payload := p\<rparr>) f
     = receive now (msg\<lparr>fm_mentions := [], fm_payload := q\<rparr>) f"
proof -
  have r: "route now (msg\<lparr>fm_mentions := [], fm_payload := p\<rparr>) g
      = route now (msg\<lparr>fm_mentions := [], fm_payload := q\<rparr>) g" for g
    by (cases "online_agents now (fp_agents g) (fp_breaker g)")
      (simp add: route_def route_direct_def Let_def)
  show ?thesis
    by (cases "is_duplicate now (fm_id msg) (fp_seen f)") (simp add: receive_def r Let_def)
qed

section \<open>The circuit breaker\<close>

lemma record_failure_simps [simp]:
  "br_threshold (record_failure t a b) = br_threshold b"
  "br_reset (record_failure t a b) = br_reset b"
  "map_of (br_failures (record_failure t a b))
     = (map_of (br_failures b))(a \<mapsto> dict_get (br_failures b) a 0 + 1)"
  "map_of (br_trips (record_failure t a b))
     = (if br_threshold b \<le> dict_get (br_failures b) a 0 + 1
        then (map_of (br_trips b))(a \<mapsto> t) else map_of (br_trips b))"
  by (simp_all add: record_failure_def Let_def)

lemma failures_from_scratch:
  assumes "map_of (br_failures b) a = None" "map_of (br_trips b) a = None" "0 < br_threshold b"
  shows "dict_get (br_failures (fold (\<lambda>t. record_failure t a) ts b)) a 0 = int (length ts)
    \<and> map_of (br_trips (fold (\<lambda>t. record_failure t a) ts b)) a
        = (if br_threshold b \<le> int (length ts) then Some (last ts) else None)
    \<and> br_threshold (fold (\<lambda>t. record_failure t a) ts b) = br_threshold b
    \<and> br_reset (fold (\<lambda>t. record_failure t a) ts b) = br_reset b"
proof (induction ts rule: rev_induct)
  case Nil
  then show ?case using assms by (simp add: dict_get_def)
next
  case (snoc t ts)
  then show ?case by (auto simp: dict_get_def)
qed

text \<open>
  Count the failures of an agent since its last success: it is isolated exactly when
  there were at least three and the last one is less than thirty seconds old. When the
  isolation has run out, asking clears the counter, so the next failure counts as the
  first.\<close>

theorem breaker_isolates_after_three:
  assumes "br_threshold b = 3" "br_reset b = 30"
    and "b' = fold (\<lambda>t. record_failure t a) ts (record_success a b)"
  shows "(fst (is_open now a b') \<longleftrightarrow> 3 \<le> length ts \<and> now - last ts < 30)
    \<and> (3 \<le> length ts \<and> 30 \<le> now - last ts \<longrightarrow>
         dict_get (br_failures (snd (is_open now a b'))) a 0 = 0)"
proof -
  have s: "map_of (br_failures (record_success a b)) a = None"
    "map_of (br_trips (record_success a b)) a = None" "0 < br_threshold (record_success a b)"
    using assms by (simp_all add: record_success_def)
  have k: "br_threshold (record_success a b) = 3" "br_reset (record_success a b) = 30"
    using assms by (simp_all add: record_success_def)
  note f = failures_from_scratch [OF s, of ts]
  show ?thesis
    unfolding assms(3) using f k
    by (auto simp: is_open_simps is_open_def record_success_def dict_get_def)
qed

theorem breaker_isolates_after_three_witness:
  "fst (is_open 10 ''a'' (fold (\<lambda>t. record_failure t ''a'') [1, 2, 3] (record_success ''a'' breaker_init)))"
proof -
  have b: "br_threshold breaker_init = 3" "br_reset breaker_init = 30"
    by (simp_all add: breaker_init_def)
  show ?thesis using breaker_isolates_after_three [OF b refl, of 10 "''a''" "[1, 2, 3]"] by simp
qed

section \<open>The duplicate filter\<close>

text \<open>The arrivals, as time and message id, that the filter accepts.\<close>

fun accepted :: "(pyfloat \<times> str) list \<Rightarrow> (str, pyfloat) dict \<Rightarrow> (pyfloat \<times> str) list" where
  "accepted [] seen = []"
| "accepted ((now, mid) # es) seen =
     (let (dup, seen') = is_duplicate now mid seen
      in if dup then accepted es seen' else (now, mid) # accepted es seen')"

lemma is_duplicate_spec:
  assumes ok: "dict_ok seen" and d: "is_duplicate now mid seen = (dup, seen')"
  shows "dict_ok seen'"
    and "dup \<longleftrightarrow> (\<exists>ts. map_of seen mid = Some ts \<and> now - ts \<le> 60)"
    and "\<And>k ts. map_of seen' k = Some ts \<Longrightarrow> map_of seen k = Some ts \<or> k = mid \<and> ts = now \<and> \<not> dup"
    and "\<And>k ts. map_of seen k = Some ts \<Longrightarrow> now - ts \<le> 60 \<Longrightarrow> map_of seen' k = Some ts"
    and "\<not> dup \<Longrightarrow> map_of seen' mid = Some now"
proof -
  note f = map_of_filter_dict [OF ok]
  have dup: "dup \<longleftrightarrow> (\<exists>ts. map_of seen mid = Some ts \<and> now - ts \<le> 60)"
    using d by (auto simp: is_duplicate_def Let_def f dedup_window_def split: if_splits option.splits)
  show "dup \<longleftrightarrow> (\<exists>ts. map_of seen mid = Some ts \<and> now - ts \<le> 60)" by (rule dup)
  show "dict_ok seen'" "\<not> dup \<Longrightarrow> map_of seen' mid = Some now"
    using d ok by (auto simp: is_duplicate_def Let_def dict_ok_filter split: if_splits)
  show "map_of seen k = Some ts \<or> k = mid \<and> ts = now \<and> \<not> dup" if "map_of seen' k = Some ts" for k ts
    using that d by (auto simp: is_duplicate_def Let_def f split: if_splits option.splits)
  show "map_of seen' k = Some ts" if "map_of seen k = Some ts" "now - ts \<le> 60" for k ts
    using that d dup
    by (auto simp: is_duplicate_def Let_def f dedup_window_def split: if_splits option.splits)
qed

lemma accepted_subset: "set (accepted es seen) \<subseteq> set es"
proof (induction es arbitrary: seen)
  case Nil
  then show ?case by simp
next
  case (Cons e es)
  obtain now mid where e: "e = (now, mid)" by (cases e)
  have "set (accepted es (snd (is_duplicate now mid seen))) \<subseteq> set es" by (rule Cons.IH)
  then show ?case by (auto simp: e split_beta split: if_splits)
qed

lemma accepted_after:
  assumes "dict_ok seen" "sorted (t # map fst es)" "map_of seen mid = Some ts" "ts \<le> t"
    "(now, mid) \<in> set (accepted es seen)"
  shows "60 < now - ts"
  using assms
proof (induction es arbitrary: seen t)
  case Nil
  then show ?case by simp
next
  case (Cons e es)
  obtain n m where e: "e = (n, m)" by (cases e)
  obtain dup seen' where d: "is_duplicate n m seen = (dup, seen')" by fastforce
  note spec = is_duplicate_spec [OF Cons.prems(1) d]
  have srt: "sorted (n # map fst es)" "t \<le> n" using Cons.prems(2) e by auto
  have later: "n \<le> now"
  proof -
    have "(now, mid) = (n, m) \<or> (now, mid) \<in> set es"
      using Cons.prems(5) e d accepted_subset by (auto split: if_splits)
    then show ?thesis using srt by (force simp: rev_image_eqI)
  qed
  show ?case
  proof (cases "60 < n - ts")
    case True
    then show ?thesis using later by simp
  next
    case False
    then have keep: "map_of seen' mid = Some ts" using spec(4) Cons.prems(3) by simp
    have "(now, mid) \<in> set (accepted es seen')"
    proof (cases "m = mid")
      case True
      then have dup using spec(2) Cons.prems(3) False by auto
      then show ?thesis using Cons.prems(5) e d by simp
    next
      case False
      then show ?thesis using Cons.prems(5) e d by (auto split: if_splits)
    qed
    then show ?thesis
      using Cons.IH [OF spec(1) srt(1) keep] Cons.prems(4) srt(2) by simp
  qed
qed

text \<open>
  However often a message id arrives, the filter accepts it at most once per window:
  two accepted arrivals of the same id are more than sixty seconds apart.\<close>

theorem accepted_once_per_window:
  assumes "sorted (map fst es)"
  shows "sorted_wrt (\<lambda>(t, i) (t', j). i = j \<longrightarrow> 60 < t' - t) (accepted es [])"
proof -
  have "sorted_wrt (\<lambda>(t, i) (t', j). i = j \<longrightarrow> 60 < t' - t) (accepted es seen)"
    if "dict_ok seen" "sorted (map fst es)" for seen
    using that
  proof (induction es arbitrary: seen)
    case Nil
    then show ?case by simp
  next
    case (Cons e es)
    obtain n m where e: "e = (n, m)" by (cases e)
    obtain dup seen' where d: "is_duplicate n m seen = (dup, seen')" by fastforce
    note spec = is_duplicate_spec [OF Cons.prems(1) d]
    have "sorted (n # map fst es)" using Cons.prems(2) e by simp
    then have "60 < now - n" if "\<not> dup" "(now, m) \<in> set (accepted es seen')" for now
      using accepted_after [OF spec(1) _ spec(5) [OF that(1)] order_refl that(2)] by simp
    then show ?case using Cons.IH [OF spec(1)] Cons.prems(2) e d by auto
  qed
  then show ?thesis using assms by simp
qed

theorem accepted_once_per_window_witness:
  "sorted_wrt (\<lambda>(t, i) (t', j). i = j \<longrightarrow> 60 < t' - t)
     (accepted [(1, ''m''), (2, ''n''), (50, ''m''), (62, ''m'')] [])
   \<and> accepted [(1, ''m''), (2, ''n''), (50, ''m''), (62, ''m'')] []
       = [(1, ''m''), (2, ''n''), (62, ''m'')]"
  using accepted_once_per_window [of "[(1, ''m''), (2, ''n''), (50, ''m''), (62, ''m'')]"]
  by (simp add: is_duplicate_def dedup_window_def)

section \<open>Turns\<close>

text \<open>The order as seen from an index on, once around.\<close>

definition from_index :: "str list \<Rightarrow> nat \<Rightarrow> str list" where
  "from_index order i = map (\<lambda>j. order ! ((i + j) mod length order)) [0..<length order]"

lemma turn_loop_find:
  "fst (turn_loop n order excluded i)
     = List.find (\<lambda>a. a \<notin> set excluded) (map (\<lambda>j. order ! ((i + j) mod length order)) [0..<n])"
proof (induction n arbitrary: i)
  case 0
  then show ?case by simp
next
  case (Suc n)
  have "map (\<lambda>j. order ! ((i + j) mod length order)) [0..<Suc n]
      = order ! (i mod length order) # map (\<lambda>j. order ! ((Suc i + j) mod length order)) [0..<n]"
    unfolding map_upt_Suc by simp
  then show ?case using Suc.IH [of "i + 1"] by (simp add: Let_def)
qed

lemma set_from_index: "order \<noteq> [] \<Longrightarrow> set (from_index order i) = set order"
proof -
  assume ne: "order \<noteq> []"
  let ?n = "length order"
  have "\<exists>j < ?n. k = (i + j) mod ?n" if "k < ?n" for k
  proof -
    have "(i + (k + (?n - i mod ?n)) mod ?n) mod ?n = (i + (k + (?n - i mod ?n))) mod ?n"
      by (simp add: mod_add_right_eq)
    also have "\<dots> = (i mod ?n + (k + (?n - i mod ?n))) mod ?n" by (simp add: mod_add_left_eq)
    also have "i mod ?n + (k + (?n - i mod ?n)) = k + ?n"
    proof -
      have "i mod ?n < ?n" using ne by simp
      then show ?thesis by linarith
    qed
    also have "(k + ?n) mod ?n = k" using that by simp
    finally show ?thesis using ne by (metis length_greater_0_conv mod_less_divisor)
  qed
  then have "a \<in> set (from_index order i)" if "a \<in> set order" for a
    using that by (fastforce simp: from_index_def in_set_conv_nth)
  moreover have "set (from_index order i) \<subseteq> set order"
    using ne by (auto simp: from_index_def)
  ultimately show ?thesis by blast
qed

text \<open>
  \<open>next_turn\<close> gives the first agent, going round the order from the current index,
  that is not excluded; it gives None exactly when every agent of the order is excluded.\<close>

theorem next_turn_exact:
  "fst (next_turn excluded tm)
     = List.find (\<lambda>a. a \<notin> set excluded) (from_index (tm_order tm) (tm_index tm))
   \<and> (fst (next_turn excluded tm) = None \<longleftrightarrow> set (tm_order tm) \<subseteq> set excluded)"
proof (cases "tm_order tm = []")
  case True
  then show ?thesis by (simp add: next_turn_def from_index_def)
next
  case False
  have f: "fst (next_turn excluded tm)
      = List.find (\<lambda>a. a \<notin> set excluded) (from_index (tm_order tm) (tm_index tm))"
    using False turn_loop_find by (simp add: next_turn_def from_index_def split_beta)
  then show ?thesis using set_from_index [OF False] by (auto simp: find_None_iff)
qed

section \<open>Documents\<close>

text \<open>
  Messages and agents survive the trip through a document, up to the identifier and time
  that the constructor fills in when they are missing.
\<close>

lemma fmp_message_roundtrip:
  "fmp_message_from_dict fresh now (fmp_message_to_dict msg) = Some (fmp_message_init fresh now msg)"
  by (cases msg) (simp add: fmp_message_from_dict_def fmp_message_to_dict_def fmp_message_init_def)

lemma agent_info_roundtrip:
  "agent_info_from_dict fresh now (agent_info_to_dict a) = Some (agent_info_init fresh now a)"
  by (cases a) (simp add: agent_info_from_dict_def agent_info_to_dict_def agent_info_init_def)

end
