(* ===== verification/Cron.thy ===== *)
theory Cron
  imports Prelude
begin

text \<open>
  Cron expressions: \<open>_matches_field\<close> and \<open>_compute_next_run\<close> of
  \<open>agent_runtime/triggers.py\<close>. Times are civil times of the configured time zone, in
  the proleptic Gregorian calendar of Python's \<open>datetime\<close>; the conversion to a
  timestamp, which depends on the zone, is an argument. The search runs for at most
  525600 steps, as in the code.
\<close>

section \<open>Calendar\<close>

record datetime =
  dt_year :: nat
  dt_month :: nat
  dt_day :: nat
  dt_hour :: nat
  dt_minute :: nat

definition is_leap :: "nat \<Rightarrow> bool" where
  "is_leap y \<longleftrightarrow> y mod 4 = 0 \<and> (y mod 100 \<noteq> 0 \<or> y mod 400 = 0)"

definition days_in_month :: "nat \<Rightarrow> nat \<Rightarrow> nat" where
  "days_in_month y m = (if m = 2 then (if is_leap y then 29 else 28)
     else if m \<in> {4, 6, 9, 11} then 30 else 31)"

definition days_before_year :: "nat \<Rightarrow> nat" where
  "days_before_year y = (y - 1) * 365 + (y - 1) div 4 - (y - 1) div 100 + (y - 1) div 400"

definition days_before_month :: "nat \<Rightarrow> nat \<Rightarrow> nat" where
  "days_before_month y m = sum_list (map (days_in_month y) [1..<m])"

text \<open>\<open>toordinal()\<close>, and \<open>isoweekday() % 7\<close>, where 0 is Sunday.\<close>

definition ordinal :: "datetime \<Rightarrow> nat" where
  "ordinal t = days_before_year (dt_year t) + days_before_month (dt_year t) (dt_month t) + dt_day t"

definition weekday :: "datetime \<Rightarrow> nat" where
  "weekday t = ordinal t mod 7"

definition valid_time :: "datetime \<Rightarrow> bool" where
  "valid_time t \<longleftrightarrow> 1 \<le> dt_year t \<and> 1 \<le> dt_month t \<and> dt_month t \<le> 12 \<and> 1 \<le> dt_day t
     \<and> dt_day t \<le> days_in_month (dt_year t) (dt_month t) \<and> dt_hour t < 24 \<and> dt_minute t < 60"

text \<open>Adding \<open>timedelta\<close>s of a day, an hour and a minute; without the limit of the year 9999.\<close>

definition add_day :: "datetime \<Rightarrow> datetime" where
  "add_day t =
     (if dt_day t < days_in_month (dt_year t) (dt_month t) then t\<lparr>dt_day := dt_day t + 1\<rparr>
      else if dt_month t < 12 then t\<lparr>dt_month := dt_month t + 1, dt_day := 1\<rparr>
      else t\<lparr>dt_year := dt_year t + 1, dt_month := 1, dt_day := 1\<rparr>)"

definition add_hour :: "datetime \<Rightarrow> datetime" where
  "add_hour t = (if dt_hour t < 23 then t\<lparr>dt_hour := dt_hour t + 1\<rparr>
     else (add_day t)\<lparr>dt_hour := 0\<rparr>)"

definition add_minute :: "datetime \<Rightarrow> datetime" where
  "add_minute t = (if dt_minute t < 59 then t\<lparr>dt_minute := dt_minute t + 1\<rparr>
     else (add_hour t)\<lparr>dt_minute := 0\<rparr>)"

section \<open>Fields\<close>

text \<open>One part of a field, between commas. None stands for the exceptions that end the match.\<close>

definition part_match :: "str \<Rightarrow> int \<Rightarrow> int \<Rightarrow> bool option" where
  "part_match part v min_val =
     (if CHR ''/'' \<in> set part then
        let (range_part, step_str) = split_first (CHR ''/'') part in
        (case py_int step_str of
           None \<Rightarrow> None
         | Some step \<Rightarrow>
            (case (if range_part = ''*'' then Some min_val else py_int range_part) of
               None \<Rightarrow> None
             | Some start \<Rightarrow>
                if start \<le> v then (if step = 0 then None else Some ((v - start) mod step = 0))
                else Some False))
      else if CHR ''-'' \<in> set part then
        let (low, high) = split_first (CHR ''-'') part in
        (case py_int low of
           None \<Rightarrow> None
         | Some l \<Rightarrow>
            if l \<le> v then map_option (\<lambda>h. v \<le> h) (py_int high) else Some False)
      else map_option (\<lambda>n. n = v) (py_int part))"

fun parts_match :: "str list \<Rightarrow> int \<Rightarrow> int \<Rightarrow> bool option" where
  "parts_match [] v min_val = Some False"
| "parts_match (p # ps) v min_val = (case part_match p v min_val of
     None \<Rightarrow> None
   | Some True \<Rightarrow> Some True
   | Some False \<Rightarrow> parts_match ps v min_val)"

definition matches_field :: "str \<Rightarrow> nat \<Rightarrow> nat \<Rightarrow> bool" where
  "matches_field spec v min_val \<longleftrightarrow>
     spec = ''*'' \<or> parts_match (split_on (CHR '','') spec) (int v) (int min_val) = Some True"

section \<open>The search\<close>

record cron_spec =
  cs_minute :: str
  cs_hour :: str
  cs_dom :: str
  cs_month :: str
  cs_dow :: str

definition parse_spec :: "str \<Rightarrow> cron_spec option" where
  "parse_spec expr = (case py_split (py_strip expr) of
     [mi, h, md, mo, wd] \<Rightarrow>
       Some \<lparr>cs_minute = mi, cs_hour = h, cs_dom = md, cs_month = mo, cs_dow = wd\<rparr>
   | _ \<Rightarrow> None)"

definition day_ok :: "cron_spec \<Rightarrow> datetime \<Rightarrow> bool" where
  "day_ok sp t =
     (let md = matches_field (cs_dom sp) (dt_day t) 1;
          wd = matches_field (cs_dow sp) (weekday t) 0
      in if cs_dom sp \<noteq> ''*'' \<and> cs_dow sp \<noteq> ''*'' then md \<or> wd else md \<and> wd)"

text \<open>The first day of the next month: back to the first, 32 days on, back to the first.\<close>

definition next_month :: "datetime \<Rightarrow> datetime" where
  "next_month t = ((add_day ^^ 32) (t\<lparr>dt_day := 1, dt_hour := 0, dt_minute := 0\<rparr>))
     \<lparr>dt_day := 1, dt_hour := 0, dt_minute := 0\<rparr>"

definition next_day :: "datetime \<Rightarrow> datetime" where
  "next_day t = (add_day t)\<lparr>dt_hour := 0, dt_minute := 0\<rparr>"

definition next_hour :: "datetime \<Rightarrow> datetime" where
  "next_hour t = (add_hour t)\<lparr>dt_minute := 0\<rparr>"

text \<open>One pass of the loop: the next candidate, or the candidate itself when it matches.\<close>

datatype search_step = Found | Advance datetime

definition search_step :: "cron_spec \<Rightarrow> datetime \<Rightarrow> search_step" where
  "search_step sp t =
     (if \<not> matches_field (cs_month sp) (dt_month t) 1 then Advance (next_month t)
      else if \<not> day_ok sp t then Advance (next_day t)
      else if \<not> matches_field (cs_hour sp) (dt_hour t) 0 then Advance (next_hour t)
      else if \<not> matches_field (cs_minute sp) (dt_minute t) 0 then Advance (add_minute t)
      else Found)"

text \<open>A year beyond 9999 raises OverflowError in Python, which ends the search.\<close>

fun cron_loop :: "nat \<Rightarrow> cron_spec \<Rightarrow> datetime \<Rightarrow> datetime option" where
  "cron_loop 0 sp t = None"
| "cron_loop (Suc n) sp t = (case search_step sp t of
     Found \<Rightarrow> Some t
   | Advance t' \<Rightarrow> if 9999 < dt_year t' then None else cron_loop n sp t')"

definition max_iterations :: nat where
  "max_iterations = 525600"

definition cron_search :: "cron_spec \<Rightarrow> datetime \<Rightarrow> datetime option" where
  "cron_search sp current =
     (let t = add_minute current in if 9999 < dt_year t then None else cron_loop max_iterations sp t)"

text \<open>Every failure, a wrong number of fields included, schedules the job an hour from now.\<close>

definition compute_next_run ::
    "pyfloat \<Rightarrow> datetime \<Rightarrow> (datetime \<Rightarrow> pyfloat) \<Rightarrow> str \<Rightarrow> pyfloat" where
  "compute_next_run now current stamp expr = (case parse_spec expr of
     None \<Rightarrow> now + 3600
   | Some sp \<Rightarrow> (case cron_search sp current of
       None \<Rightarrow> now + 3600
     | Some c \<Rightarrow> stamp c))"

section \<open>Stepping minute by minute\<close>

text \<open>
  \<open>skips P t u\<close>: going on minute by minute, \<open>u\<close> comes after \<open>t\<close>, and \<open>P\<close>
  holds from \<open>t\<close> up to the minute before \<open>u\<close>.
\<close>

definition skips :: "(datetime \<Rightarrow> bool) \<Rightarrow> datetime \<Rightarrow> datetime \<Rightarrow> bool" where
  "skips P t u \<longleftrightarrow> (\<exists>i. 0 < i \<and> u = (add_minute ^^ i) t \<and> (\<forall>j < i. P ((add_minute ^^ j) t)))"

lemma skips_trans: "skips P t u \<Longrightarrow> skips P u v \<Longrightarrow> skips P t v"
proof -
  assume "skips P t u" "skips P u v"
  then obtain i k where i: "0 < i" "u = (add_minute ^^ i) t" "\<And>j. j < i \<Longrightarrow> P ((add_minute ^^ j) t)"
    and k: "0 < k" "v = (add_minute ^^ k) u" "\<And>j. j < k \<Longrightarrow> P ((add_minute ^^ j) u)"
    unfolding skips_def by blast
  have "v = (add_minute ^^ (i + k)) t"
    using i(2) k(2) by (metis add.commute comp_apply funpow_add)
  moreover have "P ((add_minute ^^ j) t)" if "j < i + k" for j
  proof (cases "j < i")
    case False
    then have "(add_minute ^^ j) t = (add_minute ^^ (j - i)) u"
      using i(2) by (metis comp_apply funpow_add le_add_diff_inverse2 not_less)
    moreover have "j - i < k" using False that by simp
    ultimately show ?thesis using k(3) by simp
  qed (use i(3) in simp)
  ultimately show ?thesis unfolding skips_def using i(1) by (metis add_gr_0)
qed

lemma skips_one: "P t \<Longrightarrow> skips P t (add_minute t)"
  unfolding skips_def by (intro exI [of _ 1]) simp

lemma skips_mono: "skips P t u \<Longrightarrow> (\<And>x. P x \<Longrightarrow> Q x) \<Longrightarrow> skips Q t u"
  unfolding skips_def by blast

lemma add_day_fields [simp]:
  "dt_hour (add_day t) = dt_hour t" "dt_minute (add_day t) = dt_minute t"
  by (simp_all add: add_day_def)

definition same_day :: "datetime \<Rightarrow> datetime \<Rightarrow> bool" where
  "same_day t x \<longleftrightarrow> dt_year x = dt_year t \<and> dt_month x = dt_month t \<and> dt_day x = dt_day t"

lemma skips_to_hour:
  assumes "dt_minute t < 60"
  shows "skips (\<lambda>x. same_day t x \<and> dt_hour x = dt_hour t) t (next_hour t)"
  using assms
proof (induction "59 - dt_minute t" arbitrary: t)
  case 0
  then have m: "dt_minute t = 59" by simp
  then have "next_hour t = add_minute t" by (simp add: next_hour_def add_minute_def)
  then show ?case using skips_one by (simp add: same_day_def)
next
  case (Suc n)
  then have m: "dt_minute t < 59" by simp
  let ?u = "t\<lparr>dt_minute := dt_minute t + 1\<rparr>"
  have u: "add_minute t = ?u" using m by (simp add: add_minute_def)
  have "skips (\<lambda>x. same_day ?u x \<and> dt_hour x = dt_hour ?u) ?u (next_hour ?u)"
    by (rule Suc.hyps(1)) (use Suc m in simp_all)
  moreover have "next_hour ?u = next_hour t"
    by (simp add: next_hour_def add_hour_def add_day_def)
  ultimately have "skips (\<lambda>x. same_day t x \<and> dt_hour x = dt_hour t) ?u (next_hour t)"
    by (simp add: same_day_def)
  moreover have "skips (\<lambda>x. same_day t x \<and> dt_hour x = dt_hour t) t ?u"
    using skips_one [of "\<lambda>x. same_day t x \<and> dt_hour x = dt_hour t" t] u by (simp add: same_day_def)
  ultimately show ?case using skips_trans by blast
qed

lemma skips_to_day:
  assumes "dt_minute t < 60" "dt_hour t < 24"
  shows "skips (same_day t) t (next_day t)"
  using assms
proof (induction "23 - dt_hour t" arbitrary: t)
  case 0
  then have h: "dt_hour t = 23" by simp
  then have "next_day t = next_hour t"
    by (simp add: next_hour_def next_day_def add_hour_def)
  then show ?case using skips_mono [OF skips_to_hour [OF 0(2)]] by simp
next
  case (Suc n)
  then have h: "dt_hour t < 23" by simp
  let ?u = "t\<lparr>dt_hour := dt_hour t + 1, dt_minute := 0\<rparr>"
  have u: "next_hour t = ?u" using h by (simp add: next_hour_def add_hour_def)
  have "skips (same_day ?u) ?u (next_day ?u)"
    by (rule Suc.hyps(1)) (use Suc h in simp_all)
  moreover have "next_day ?u = next_day t" by (simp add: next_day_def add_day_def)
  moreover have "same_day ?u = same_day t" by (auto simp: same_day_def fun_eq_iff)
  ultimately have "skips (same_day t) ?u (next_day t)" by simp
  moreover have "skips (same_day t) t ?u"
    using skips_mono [OF skips_to_hour [OF Suc.prems(1)]] u by simp
  ultimately show ?case using skips_trans by blast
qed

definition same_month :: "datetime \<Rightarrow> datetime \<Rightarrow> bool" where
  "same_month t x \<longleftrightarrow> dt_year x = dt_year t \<and> dt_month x = dt_month t"

definition first_of_next :: "datetime \<Rightarrow> datetime" where
  "first_of_next t = (if dt_month t < 12 then t\<lparr>dt_month := dt_month t + 1, dt_day := 1,
       dt_hour := 0, dt_minute := 0\<rparr>
     else t\<lparr>dt_year := dt_year t + 1, dt_month := 1, dt_day := 1, dt_hour := 0, dt_minute := 0\<rparr>)"

lemma skips_to_month:
  assumes "dt_minute t < 60" "dt_hour t < 24" "dt_day t \<le> days_in_month (dt_year t) (dt_month t)"
  shows "skips (same_month t) t (first_of_next t)"
  using assms
proof (induction "days_in_month (dt_year t) (dt_month t) - dt_day t" arbitrary: t)
  case 0
  then have "next_day t = first_of_next t"
    by (simp add: next_day_def add_day_def first_of_next_def)
  then show ?case using skips_mono [OF skips_to_day [OF 0(2,3)]]
    by (simp add: same_day_def same_month_def)
next
  case (Suc n)
  then have d: "dt_day t < days_in_month (dt_year t) (dt_month t)" by simp
  let ?u = "t\<lparr>dt_day := dt_day t + 1, dt_hour := 0, dt_minute := 0\<rparr>"
  have u: "next_day t = ?u" using d by (simp add: next_day_def add_day_def)
  have "skips (same_month ?u) ?u (first_of_next ?u)"
    by (rule Suc.hyps(1)) (use Suc d in simp_all)
  moreover have "first_of_next ?u = first_of_next t" by (simp add: first_of_next_def)
  moreover have "same_month ?u = same_month t" by (auto simp: same_month_def fun_eq_iff)
  ultimately have "skips (same_month t) ?u (first_of_next t)" by simp
  moreover have "skips (same_month t) t ?u"
    using skips_mono [OF skips_to_day [OF Suc.prems(1,2)]] u by (simp add: same_day_def same_month_def)
  ultimately show ?case using skips_trans by blast
qed

lemma days_in_month_range: "28 \<le> days_in_month y m" "days_in_month y m \<le> 31"
  by (simp_all add: days_in_month_def)

lemma add_days_within:
  "dt_day t + n \<le> days_in_month (dt_year t) (dt_month t) \<Longrightarrow>
    (add_day ^^ n) t = t\<lparr>dt_day := dt_day t + n\<rparr>"
  by (induction n) (simp_all add: add_day_def)

text \<open>Thirty-two days after the first of a month lie in the next month.\<close>

lemma next_month_first: "dt_month t \<le> 12 \<Longrightarrow> next_month t = first_of_next t"
proof -
  assume m12: "dt_month t \<le> 12"
  let ?t = "t\<lparr>dt_day := 1, dt_hour := 0, dt_minute := 0\<rparr>"
  let ?n = "days_in_month (dt_year t) (dt_month t)"
  have n: "28 \<le> ?n" "?n \<le> 31" by (rule days_in_month_range)+
  have a: "(add_day ^^ (?n - 1)) ?t = ?t\<lparr>dt_day := ?n\<rparr>"
    using add_days_within [of ?t "?n - 1"] n by simp
  let ?f = "first_of_next t"
  have b: "add_day (?t\<lparr>dt_day := ?n\<rparr>) = ?f"
    by (simp add: add_day_def first_of_next_def)
  have c: "(add_day ^^ (32 - ?n)) ?f = ?f\<lparr>dt_day := 1 + (32 - ?n)\<rparr>"
  proof -
    have f1: "dt_day ?f = 1" by (simp add: first_of_next_def)
    then have "dt_day ?f + (32 - ?n) \<le> days_in_month (dt_year ?f) (dt_month ?f)"
      using n days_in_month_range(1) [of "dt_year ?f" "dt_month ?f"] by linarith
    then show ?thesis using add_days_within [of ?f "32 - ?n"] f1 by simp
  qed
  have "32 = (32 - ?n) + Suc (?n - 1)" using n by simp
  then have "(add_day ^^ 32) ?t = (add_day ^^ (32 - ?n)) (add_day ((add_day ^^ (?n - 1)) ?t))"
    by (metis comp_apply funpow.simps(2) funpow_add)
  also have "\<dots> = ?f\<lparr>dt_day := 1 + (32 - ?n)\<rparr>" unfolding a b c ..
  finally show ?thesis
    by (simp add: next_month_def first_of_next_def)
qed

end
