(* ===== verification/CronProps.thy ===== *)
theory CronProps
  imports Cron
begin

text \<open>
  The cron search is exact: what it returns is the first matching minute after the current
  one, and it misses none within its bound. Expressions that it cannot satisfy.
\<close>

section \<open>Matching times\<close>

definition fires :: "cron_spec \<Rightarrow> datetime \<Rightarrow> bool" where
  "fires sp t \<longleftrightarrow> matches_field (cs_month sp) (dt_month t) 1 \<and> day_ok sp t
     \<and> matches_field (cs_hour sp) (dt_hour t) 0 \<and> matches_field (cs_minute sp) (dt_minute t) 0"

lemma valid_add_day: "valid_time t \<Longrightarrow> valid_time (add_day t)"
  using days_in_month_range(1) [of "dt_year t" "dt_month t + 1"] days_in_month_range(1) [of "dt_year t + 1" 1]
  by (auto simp: valid_time_def add_day_def)

lemma valid_add_minute: "valid_time t \<Longrightarrow> valid_time (add_minute t)"
  using valid_add_day [of t] by (auto simp: add_minute_def add_hour_def valid_time_def)

lemma valid_iterate: "valid_time t \<Longrightarrow> valid_time ((add_minute ^^ k) t)"
  by (induction k) (simp_all add: valid_add_minute)

lemma year_add_minute: "dt_year t \<le> dt_year (add_minute t)"
  by (simp add: add_minute_def add_hour_def add_day_def)

lemma year_iterate: "dt_year t \<le> dt_year ((add_minute ^^ k) t)"
proof (induction k)
  case (Suc k)
  then show ?case using year_add_minute [of "(add_minute ^^ k) t"] by simp
qed simp

lemma skips_valid: "skips P t u \<Longrightarrow> valid_time t \<Longrightarrow> valid_time u"
  unfolding skips_def using valid_iterate by blast

section \<open>The search\<close>

lemma day_ok_same_day: "same_day t x \<Longrightarrow> day_ok sp x = day_ok sp t"
  by (simp add: same_day_def day_ok_def weekday_def ordinal_def)

lemma search_step_skips:
  assumes v: "valid_time t" and s: "search_step sp t = Advance u"
  shows "skips (\<lambda>x. \<not> fires sp x) t u"
proof -
  have b: "dt_minute t < 60" "dt_hour t < 24" "dt_day t \<le> days_in_month (dt_year t) (dt_month t)"
    "dt_month t \<le> 12" using v by (simp_all add: valid_time_def)
  consider (month) "\<not> matches_field (cs_month sp) (dt_month t) 1" "u = next_month t"
    | (day) "\<not> day_ok sp t" "u = next_day t"
    | (hour) "\<not> matches_field (cs_hour sp) (dt_hour t) 0" "u = next_hour t"
    | (minute) "\<not> matches_field (cs_minute sp) (dt_minute t) 0" "u = add_minute t"
    using s unfolding search_step_def by (auto split: if_splits)
  then show ?thesis
  proof cases
    case month
    then have "skips (same_month t) t u" using skips_to_month b next_month_first by simp
    then show ?thesis by (rule skips_mono) (use month in \<open>simp add: same_month_def fires_def\<close>)
  next
    case day
    then have "skips (same_day t) t u" using skips_to_day b by simp
    then show ?thesis by (rule skips_mono) (use day day_ok_same_day in \<open>simp add: fires_def\<close>)
  next
    case hour
    then have "skips (\<lambda>x. same_day t x \<and> dt_hour x = dt_hour t) t u" using skips_to_hour b by simp
    then show ?thesis by (rule skips_mono) (use hour in \<open>simp add: fires_def\<close>)
  next
    case minute
    then show ?thesis using skips_one [of "\<lambda>x. \<not> fires sp x" t] by (simp add: fires_def)
  qed
qed

lemma search_step_Found: "search_step sp t = Found \<longleftrightarrow> fires sp t"
  by (simp add: search_step_def fires_def)

lemma cron_loop_sound:
  "valid_time t \<Longrightarrow> cron_loop n sp t = Some c \<Longrightarrow>
    \<exists>k. c = (add_minute ^^ k) t \<and> fires sp c \<and> (\<forall>j < k. \<not> fires sp ((add_minute ^^ j) t))"
proof (induction n arbitrary: t)
  case 0
  then show ?case by simp
next
  case (Suc n)
  show ?case
  proof (cases "search_step sp t")
    case Found
    then have "fires sp t" "c = t" using Suc.prems(2) search_step_Found [of sp t] by simp_all
    then show ?thesis by (intro exI [of _ 0]) simp
  next
    case (Advance u)
    have sk: "skips (\<lambda>x. \<not> fires sp x) t u" by (rule search_step_skips [OF Suc.prems(1) Advance])
    have "cron_loop n sp u = Some c" using Suc.prems(2) Advance by (simp split: if_splits)
    from Suc.IH [OF skips_valid [OF sk Suc.prems(1)] this]
    obtain k where k: "c = (add_minute ^^ k) u" "fires sp c" "\<And>j. j < k \<Longrightarrow> \<not> fires sp ((add_minute ^^ j) u)"
      by blast
    show ?thesis
    proof (cases k)
      case 0
      then show ?thesis using sk k unfolding skips_def by auto
    next
      case (Suc m)
      then have "skips (\<lambda>x. \<not> fires sp x) u c" unfolding skips_def using k by blast
      then show ?thesis using skips_trans [OF sk] k(2) unfolding skips_def by blast
    qed
  qed
qed

lemma cron_loop_complete:
  "valid_time t \<Longrightarrow> m < n \<Longrightarrow> fires sp ((add_minute ^^ m) t) \<Longrightarrow>
    dt_year ((add_minute ^^ m) t) \<le> 9999 \<Longrightarrow> cron_loop n sp t \<noteq> None"
proof (induction n arbitrary: t m)
  case 0
  then show ?case by simp
next
  case (Suc n)
  show ?case
  proof (cases "search_step sp t")
    case Found
    then show ?thesis by simp
  next
    case (Advance u)
    have sk: "skips (\<lambda>x. \<not> fires sp x) t u" by (rule search_step_skips [OF Suc.prems(1) Advance])
    then obtain i where i: "0 < i" "u = (add_minute ^^ i) t" "\<And>j. j < i \<Longrightarrow> \<not> fires sp ((add_minute ^^ j) t)"
      unfolding skips_def by blast
    have "i \<le> m" using i(3) Suc.prems(3) by (meson not_le)
    then have mu: "(add_minute ^^ m) t = (add_minute ^^ (m - i)) u"
      using i(2) by (metis comp_apply funpow_add le_add_diff_inverse2)
    then have "dt_year u \<le> 9999" using year_iterate [of u "m - i"] Suc.prems(4) by simp
    moreover have "m - i < n" using i(1) Suc.prems(2) \<open>i \<le> m\<close> by linarith
    then have "cron_loop n sp u \<noteq> None"
      using Suc.IH [OF skips_valid [OF sk Suc.prems(1)]] Suc.prems(3,4) mu by simp
    ultimately show ?thesis using Advance by simp
  qed
qed

text \<open>
  C37: The cron search gives the first minute after the current one at which all fields of
  the expression match; it fails only if none of the next 525600 minutes (up to the end of
  the year 9999) matches.\<close>

theorem cron_search_exact:
  assumes "valid_time current"
  shows "(case cron_search sp current of
      Some c \<Rightarrow> \<exists>k > 0. c = (add_minute ^^ k) current \<and> fires sp c
        \<and> (\<forall>j. 0 < j \<and> j < k \<longrightarrow> \<not> fires sp ((add_minute ^^ j) current))
    | None \<Rightarrow> \<forall>k. 0 < k \<and> k \<le> 525600 \<and> dt_year ((add_minute ^^ k) current) \<le> 9999 \<longrightarrow>
        \<not> fires sp ((add_minute ^^ k) current))"
proof (cases "cron_search sp current")
  case (Some c)
  let ?t = "add_minute current"
  have v: "valid_time ?t" by (rule valid_add_minute [OF assms])
  have "cron_loop max_iterations sp ?t = Some c"
    using Some by (simp add: cron_search_def Let_def split: if_splits)
  from cron_loop_sound [OF v this]
  obtain k where k: "c = (add_minute ^^ k) ?t" "fires sp c" "\<And>j. j < k \<Longrightarrow> \<not> fires sp ((add_minute ^^ j) ?t)"
    by blast
  have sh: "(add_minute ^^ Suc j) current = (add_minute ^^ j) ?t" for j
    by (simp add: funpow_swap1)
  have "\<not> fires sp ((add_minute ^^ j) current)" if "0 < j" "j < Suc k" for j
    using that k(3) [of "j - 1"] sh [of "j - 1"] by simp
  then show ?thesis using Some k(1,2) sh [of k] by (auto intro!: exI [of _ "Suc k"])
next
  case None
  have "\<not> fires sp ((add_minute ^^ k) current)"
    if k: "0 < k" "k \<le> 525600" "dt_year ((add_minute ^^ k) current) \<le> 9999" for k
  proof
    assume f: "fires sp ((add_minute ^^ k) current)"
    let ?t = "add_minute current"
    have sh: "(add_minute ^^ (k - 1)) ?t = (add_minute ^^ k) current"
      using k(1) by (metis Suc_diff_1 comp_apply funpow.simps(2) funpow_swap1)
    have "dt_year ?t \<le> 9999" using year_iterate [of ?t "k - 1"] sh k(3) by simp
    then have "cron_loop max_iterations sp ?t = None"
      using None by (simp add: cron_search_def Let_def split: if_splits)
    moreover have "k - 1 < max_iterations" unfolding max_iterations_def using k(1,2) by linarith
    ultimately show False
      using cron_loop_complete [OF valid_add_minute [OF assms], of "k - 1" max_iterations sp]
      by (simp only: sh f k(3) simp_thms)
  qed
  then show ?thesis using None by simp
qed

text \<open>Half past nine every day, asked at nine on the last day of a leap February.\<close>

theorem cron_search_exact_witness:
  "cron_search \<lparr>cs_minute = ''30'', cs_hour = ''9'', cs_dom = ''*'', cs_month = ''*'', cs_dow = ''*''\<rparr>
     \<lparr>dt_year = 2024, dt_month = 2, dt_day = 29, dt_hour = 9, dt_minute = 29\<rparr>
   \<noteq> None"
proof -
  let ?sp = "\<lparr>cs_minute = ''30'', cs_hour = ''9'', cs_dom = ''*'', cs_month = ''*'', cs_dow = ''*''\<rparr>"
  let ?c = "\<lparr>dt_year = 2024, dt_month = 2, dt_day = 29, dt_hour = 9, dt_minute = 29\<rparr>"
  have v: "valid_time ?c" by (simp add: valid_time_def days_in_month_def is_leap_def)
  have f: "fires ?sp (add_minute ?c)"
    by (simp add: fires_def day_ok_def matches_field_def part_match_def py_int_def add_minute_def)
  have y: "dt_year (add_minute ?c) \<le> 9999" by (simp add: add_minute_def)
  show ?thesis
  proof
    assume "cron_search ?sp ?c = None"
    then show False using cron_search_exact [OF v, of ?sp] f y
      by (auto dest: spec [where x = 1])
  qed
qed

section \<open>Expressions without a match\<close>

lemma never_fires_loop: "(\<And>t. \<not> fires sp t) \<Longrightarrow> cron_loop n sp t = None"
proof (induction n arbitrary: t)
  case (Suc n)
  then have "search_step sp t \<noteq> Found" by (simp add: search_step_Found)
  then show ?case using Suc by (auto split: search_step.split)
qed simp

lemma never_fires_hourly:
  assumes "parse_spec e = Some sp" "\<And>t. \<not> fires sp t"
  shows "compute_next_run now current stamp e = now + 3600"
  using assms never_fires_loop [OF assms(2)]
  by (simp add: compute_next_run_def cron_search_def Let_def)

text \<open>
  Common forms of cron expressions are not supported, and instead of being refused
  they run the job every hour, whatever the time and the zone: a range with a step, a name
  of a weekday, 7 for Sunday, and a text that is no cron expression at all.\<close>

theorem unsupported_fire_hourly:
  "compute_next_run now current stamp ''0 9-17/2 * * *'' = now + 3600
   \<and> compute_next_run now current stamp ''0 9 * * MON'' = now + 3600
   \<and> compute_next_run now current stamp ''0 9 * * 7'' = now + 3600
   \<and> compute_next_run now current stamp ''every monday'' = now + 3600"
proof (intro conjI)
  have p: "parse_spec ''0 9-17/2 * * *'' = Some \<lparr>cs_minute = ''0'', cs_hour = ''9-17/2'',
      cs_dom = ''*'', cs_month = ''*'', cs_dow = ''*''\<rparr>"
    "parse_spec ''0 9 * * MON'' = Some \<lparr>cs_minute = ''0'', cs_hour = ''9'',
      cs_dom = ''*'', cs_month = ''*'', cs_dow = ''MON''\<rparr>"
    "parse_spec ''0 9 * * 7'' = Some \<lparr>cs_minute = ''0'', cs_hour = ''9'',
      cs_dom = ''*'', cs_month = ''*'', cs_dow = ''7''\<rparr>"
    "parse_spec ''every monday'' = None"
    by code_simp+
  have "\<not> matches_field ''9-17/2'' v k" "\<not> matches_field ''MON'' v k" for v k
    by (simp_all add: matches_field_def part_match_def split_first_def py_int_def)
  moreover have "\<not> matches_field ''7'' (weekday t) 0" for t
  proof -
    have "weekday t < 7" by (simp add: weekday_def)
    then show ?thesis by (simp add: matches_field_def part_match_def py_int_def)
  qed
  ultimately show "compute_next_run now current stamp ''0 9-17/2 * * *'' = now + 3600"
    "compute_next_run now current stamp ''0 9 * * MON'' = now + 3600"
    "compute_next_run now current stamp ''0 9 * * 7'' = now + 3600"
    "compute_next_run now current stamp ''every monday'' = now + 3600"
    using never_fires_hourly [OF p(1)] never_fires_hourly [OF p(2)] never_fires_hourly [OF p(3)] p(4)
    by (simp_all add: fires_def day_ok_def compute_next_run_def)
qed

end
