(* ===== verification/CronJobs.thy ===== *)
theory CronJobs
  imports Cron Json
begin

text \<open>
  Scheduled jobs: \<open>CronManager\<close> of \<open>agent_runtime/triggers.py\<close> with its tables.
  Loop modes, registration, the tick of the run loop, retries, iteration and token caps,
  one-shot jobs, stop. The outcome of a handler is an argument of the run; the jobs of one
  tick, which the code runs concurrently, are run one after the other, since a run touches
  only its own job. Clock, civil time and zone conversion are one argument.
\<close>

section \<open>Jobs\<close>

definition loop_modes :: "str list" where
  "loop_modes = [''cron'', ''continuous'', ''interval'', ''event_driven'']"

definition dash_to_underscore :: "str \<Rightarrow> str" where
  "dash_to_underscore s = map (\<lambda>c. if c = CHR ''-'' then CHR ''_'' else c) s"

definition normalize_loop_mode :: "str \<Rightarrow> str" where
  "normalize_loop_mode raw =
     (let mode = dash_to_underscore (py_lower (py_strip (if raw = [] then ''cron'' else raw)))
      in if mode \<in> set loop_modes then mode else ''cron'')"

record cron_job =
  cj_id :: str
  cj_name :: str
  cj_expression :: str
  cj_graph :: str
  cj_enabled :: bool
  cj_last_run :: pyfloat
  cj_next_run :: pyfloat
  cj_created_at :: pyfloat
  cj_input :: str
  cj_max_retries :: int
  cj_retry_count :: int
  cj_one_shot :: bool
  cj_loop_mode :: str
  cj_interval :: int
  cj_max_iterations :: int
  cj_iterations :: int
  cj_token_budget :: int
  cj_tokens_used :: int
  cj_permission_mode :: str
  cj_stop_reason :: str

definition new_cron_job :: "str \<Rightarrow> str \<Rightarrow> str \<Rightarrow> cron_job" where
  "new_cron_job i n e = \<lparr>cj_id = i, cj_name = n, cj_expression = e, cj_graph = '''',
     cj_enabled = True, cj_last_run = 0, cj_next_run = 0, cj_created_at = 0, cj_input = '''',
     cj_max_retries = 0, cj_retry_count = 0, cj_one_shot = False, cj_loop_mode = ''cron'',
     cj_interval = 60, cj_max_iterations = 0, cj_iterations = 0, cj_token_budget = 0,
     cj_tokens_used = 0, cj_permission_mode = '''', cj_stop_reason = ''''\<rparr>"

definition cron_job_to_dict :: "cron_job \<Rightarrow> jobj" where
  "cron_job_to_dict j = [(''id'', JStr (cj_id j)), (''name'', JStr (cj_name j)),
     (''expression'', JStr (cj_expression j)), (''graph_id'', JStr (cj_graph j)),
     (''enabled'', JBool (cj_enabled j)), (''last_run'', JFloat (cj_last_run j)),
     (''next_run'', JFloat (cj_next_run j)), (''created_at'', JFloat (cj_created_at j)),
     (''input_data'', JStr (cj_input j)), (''max_retries'', JInt (cj_max_retries j)),
     (''retry_count'', JInt (cj_retry_count j)), (''one_shot'', JBool (cj_one_shot j)),
     (''loop_mode'', JStr (cj_loop_mode j)), (''interval_seconds'', JInt (cj_interval j)),
     (''max_iterations'', JInt (cj_max_iterations j)),
     (''iteration_count'', JInt (cj_iterations j)), (''token_budget'', JInt (cj_token_budget j)),
     (''tokens_used'', JInt (cj_tokens_used j)), (''permission_mode'', JStr (cj_permission_mode j)),
     (''loop_stop_reason'', JStr (cj_stop_reason j))]"

text \<open>\<open>int(v or 0)\<close> on a document value; None for TypeError and ValueError.\<close>

fun int_conv :: "json \<Rightarrow> int option" where
  "int_conv JNull = Some 0"
| "int_conv (JBool b) = Some (if b then 1 else 0)"
| "int_conv (JInt i) = Some i"
| "int_conv (JFloat q) = Some (trunc q)"
| "int_conv (JStr s) = (if s = [] then Some 0 else py_int (py_strip s))"
| "int_conv (JList xs) = (if xs = [] then Some 0 else None)"
| "int_conv (JObj d) = (if d = [] then Some 0 else None)"

fun first_positive :: "jobj \<Rightarrow> str list \<Rightarrow> int option" where
  "first_positive u [] = None"
| "first_positive u (k # ks) = (case int_conv (jget u k JNull) of
     None \<Rightarrow> first_positive u ks
   | Some v \<Rightarrow> if 0 < v then Some v else first_positive u ks)"

definition total_tokens :: "jobj \<Rightarrow> int" where
  "total_tokens d = (case int_conv (jget d ''total_tokens'' JNull) of None \<Rightarrow> 0 | Some v \<Rightarrow> v)"

definition extract_loop_tokens :: "json \<Rightarrow> int" where
  "extract_loop_tokens result = (case as_obj result of
     None \<Rightarrow> 0
   | Some d \<Rightarrow> (case as_obj (jget d ''usage'' JNull) of
       None \<Rightarrow> total_tokens d
     | Some u \<Rightarrow> (case first_positive u [''total_tokens'', ''completion_tokens'', ''prompt_tokens''] of
         None \<Rightarrow> total_tokens d
       | Some v \<Rightarrow> v)))"

section \<open>Executions, tables, manager\<close>

record cron_execution =
  ce_id :: str
  ce_job :: str
  ce_started :: pyfloat
  ce_finished :: pyfloat
  ce_status :: str
  ce_error :: str
  ce_preview :: str

definition cron_execution_to_dict :: "cron_execution \<Rightarrow> jobj" where
  "cron_execution_to_dict e = [(''id'', JStr (ce_id e)), (''job_id'', JStr (ce_job e)),
     (''started_at'', JFloat (ce_started e)), (''finished_at'', JFloat (ce_finished e)),
     (''status'', JStr (ce_status e)), (''error'', JStr (ce_error e)),
     (''result_preview'', JStr (ce_preview e))]"

definition cron_execution_from_dict :: "jobj \<Rightarrow> cron_execution option" where
  "cron_execution_from_dict d = do {
     i \<leftarrow> field as_str d ''id'' '''';
     j \<leftarrow> field as_str d ''job_id'' '''';
     s \<leftarrow> field as_num d ''started_at'' 0;
     f \<leftarrow> field as_num d ''finished_at'' 0;
     st \<leftarrow> field as_str d ''status'' '''';
     e \<leftarrow> field as_str d ''error'' '''';
     p \<leftarrow> field as_str d ''result_preview'' '''';
     Some \<lparr>ce_id = i, ce_job = j, ce_started = s, ce_finished = f, ce_status = st, ce_error = e,
       ce_preview = p\<rparr>}"

record cron_db =
  cd_jobs :: "(str, cron_job) dict"
  cd_executions :: "(str, cron_execution) dict"

record cron_manager =
  cm_jobs :: "(str, cron_job) dict"
  cm_handlers :: "str list"
  cm_default_handler :: bool
  cm_running :: bool
  cm_db :: "cron_db option"

record clock =
  ck_now :: pyfloat
  ck_civil :: datetime
  ck_stamp :: "datetime \<Rightarrow> pyfloat"

text \<open>\<open>INSERT OR REPLACE\<close> on a table with a primary key only.\<close>

definition replace_row :: "str \<Rightarrow> 'v \<Rightarrow> (str, 'v) dict \<Rightarrow> (str, 'v) dict" where
  "replace_row k v tbl = AList.delete k tbl @ [(k, v)]"

definition load_job :: "cron_job \<Rightarrow> cron_job" where
  "load_job r = r\<lparr>cj_loop_mode := normalize_loop_mode (cj_loop_mode r)\<rparr>"

definition load_jobs :: "cron_db \<Rightarrow> (str, cron_job) dict" where
  "load_jobs db = fold (\<lambda>(k, r) js. AList.update (cj_id (load_job r)) (load_job r) js) (cd_jobs db) []"

definition cron_manager_init :: "bool \<Rightarrow> cron_db option \<Rightarrow> cron_manager" where
  "cron_manager_init dflt db = \<lparr>cm_jobs = (case db of None \<Rightarrow> [] | Some d \<Rightarrow> load_jobs d),
     cm_handlers = [], cm_default_handler = dflt, cm_running = False, cm_db = db\<rparr>"

definition save_job :: "cron_job \<Rightarrow> cron_manager \<Rightarrow> cron_manager" where
  "save_job j m = m\<lparr>cm_db := map_option
     (\<lambda>db. db\<lparr>cd_jobs := replace_row (cj_id j) j (cd_jobs db)\<rparr>) (cm_db m)\<rparr>"

definition delete_job :: "str \<Rightarrow> cron_manager \<Rightarrow> cron_manager" where
  "delete_job jid m = m\<lparr>cm_db := map_option
     (\<lambda>db. db\<lparr>cd_jobs := AList.delete jid (cd_jobs db)\<rparr>) (cm_db m)\<rparr>"

definition execution_ttl :: pyfloat where
  "execution_ttl = 7 * 24 * 3600"

definition save_execution :: "pyfloat \<Rightarrow> cron_execution \<Rightarrow> cron_manager \<Rightarrow> cron_manager" where
  "save_execution now e m = m\<lparr>cm_db := map_option
     (\<lambda>db. db\<lparr>cd_executions := filter (\<lambda>(k, r). \<not> ce_started r < now - execution_ttl)
        (replace_row (ce_id e) e (cd_executions db))\<rparr>) (cm_db m)\<rparr>"

text \<open>A job object is changed in place and saved.\<close>

definition put_job :: "cron_job \<Rightarrow> cron_manager \<Rightarrow> cron_manager" where
  "put_job j m = save_job j (m\<lparr>cm_jobs := AList.update (cj_id j) j (cm_jobs m)\<rparr>)"

definition next_run_for :: "clock \<Rightarrow> cron_job \<Rightarrow> pyfloat" where
  "next_run_for ck j =
     (if cj_one_shot j \<or> cj_loop_mode j = ''cron''
      then compute_next_run (ck_now ck) (ck_civil ck) (ck_stamp ck) (cj_expression j)
      else if cj_loop_mode j = ''interval''
      then ck_now ck + of_int (if cj_interval j < 1 then 60 else cj_interval j)
      else if cj_loop_mode j = ''continuous'' then ck_now ck
      else 0)"

definition trigger_event :: "pyfloat \<Rightarrow> str \<Rightarrow> cron_manager \<Rightarrow> bool \<times> cron_manager" where
  "trigger_event now jid m = (case map_of (cm_jobs m) jid of
     None \<Rightarrow> (False, m)
   | Some j \<Rightarrow>
      if \<not> cj_enabled j \<or> cj_loop_mode j \<noteq> ''event_driven'' then (False, m)
      else (True, put_job (j\<lparr>cj_next_run := now\<rparr>) m))"

definition add_handler :: "bool \<Rightarrow> str \<Rightarrow> cron_manager \<Rightarrow> cron_manager" where
  "add_handler given jid m = (if given then m\<lparr>cm_handlers := List.insert jid (cm_handlers m)\<rparr> else m)"

definition cron_register :: "clock \<Rightarrow> cron_job \<Rightarrow> bool \<Rightarrow> cron_manager \<Rightarrow> cron_manager" where
  "cron_register ck j0 handler m =
     (let j1 = j0\<lparr>cj_loop_mode := normalize_loop_mode (cj_loop_mode j0), cj_stop_reason := ''''\<rparr>;
          j2 = j1\<lparr>cj_next_run := next_run_for ck j1,
                  cj_created_at := (if cj_created_at j1 = 0 then ck_now ck else cj_created_at j1)\<rparr>
      in put_job j2 (add_handler handler (cj_id j2) m))"

definition build_once_job ::
    "pyfloat \<Rightarrow> int \<Rightarrow> pyfloat \<Rightarrow> str \<Rightarrow> str \<Rightarrow> str \<Rightarrow> str \<Rightarrow> cron_job" where
  "build_once_job now salt run_at graph input jid name =
     (let i = (if jid = [] then ''once_'' @ str_of_int (trunc (now * 1000)) @ ''_'' @ str_of_int salt
               else jid)
      in (new_cron_job i (if name = [] then i else name) ''@once'')
           \<lparr>cj_graph := graph, cj_input := input,
            cj_next_run := (if 0 < run_at then run_at else now), cj_created_at := now,
            cj_one_shot := True\<rparr>)"

definition register_once ::
    "pyfloat \<Rightarrow> int \<Rightarrow> pyfloat \<Rightarrow> str \<Rightarrow> str \<Rightarrow> str \<Rightarrow> str \<Rightarrow> bool \<Rightarrow> cron_manager
      \<Rightarrow> cron_job \<times> cron_manager" where
  "register_once now salt run_at graph input jid name handler m =
     (let j = build_once_job now salt run_at graph input jid name
      in (j, put_job j (add_handler handler (cj_id j) m)))"

definition forget_job :: "str \<Rightarrow> cron_manager \<Rightarrow> cron_manager" where
  "forget_job jid m = delete_job jid (m\<lparr>cm_jobs := AList.delete jid (cm_jobs m),
     cm_handlers := removeAll jid (cm_handlers m)\<rparr>)"

definition cron_unregister :: "str \<Rightarrow> cron_manager \<Rightarrow> cron_manager" where
  "cron_unregister jid m = forget_job jid m"

definition list_executions :: "str \<Rightarrow> int \<Rightarrow> cron_manager \<Rightarrow> cron_execution list" where
  "list_executions jid lmt m = (case cm_db m of
     None \<Rightarrow> []
   | Some db \<Rightarrow>
      (let es = sort_key (\<lambda>e. - ce_started e)
                  (filter (\<lambda>e. jid = [] \<or> ce_job e = jid) (map snd (cd_executions db)))
       in if lmt < 0 then es else take (nat lmt) es))"

section \<open>Running\<close>

text \<open>How a handler ends: with a result and its text, or with the text of a timeout or an exception.\<close>

datatype outcome = Success json str | TimedOut str | Raised str

definition handle_retry :: "cron_job \<Rightarrow> cron_job" where
  "handle_retry j = (if cj_retry_count j < cj_max_retries j
     then j\<lparr>cj_retry_count := cj_retry_count j + 1\<rparr> else j\<lparr>cj_enabled := False\<rparr>)"

definition run_result :: "outcome option \<Rightarrow> json" where
  "run_result out = (case out of Some (Success r _) \<Rightarrow> r | _ \<Rightarrow> JNull)"

definition run_outcome :: "outcome option \<Rightarrow> cron_job \<Rightarrow> cron_job" where
  "run_outcome out j = (case out of
     None \<Rightarrow> j
   | Some (Success _ _) \<Rightarrow> j\<lparr>cj_retry_count := 0\<rparr>
   | Some _ \<Rightarrow> handle_retry j)"

definition run_execution :: "clock \<Rightarrow> outcome option \<Rightarrow> cron_job \<Rightarrow> cron_execution" where
  "run_execution ck out j =
     (let e = \<lparr>ce_id = ''exe_'' @ cj_id j @ ''_'' @ str_of_int (trunc (ck_now ck)), ce_job = cj_id j,
              ce_started = ck_now ck, ce_finished = ck_now ck, ce_status = '''', ce_error = '''',
              ce_preview = ''''\<rparr>
      in case out of
           None \<Rightarrow> e\<lparr>ce_status := ''no_handler''\<rparr>
         | Some (Success r text) \<Rightarrow> e\<lparr>ce_status := ''success'',
             ce_preview := (if truthy r then take 200 text else '''')\<rparr>
         | Some (TimedOut msg) \<Rightarrow> e\<lparr>ce_status := ''failed'', ce_error := msg\<rparr>
         | Some (Raised msg) \<Rightarrow> e\<lparr>ce_status := ''failed'', ce_error := take 500 msg\<rparr>)"

definition accounted :: "json \<Rightarrow> cron_job \<Rightarrow> cron_job" where
  "accounted r j = j\<lparr>cj_iterations := cj_iterations j + 1,
     cj_tokens_used := cj_tokens_used j + extract_loop_tokens r\<rparr>"

definition loop_stop :: "cron_job \<Rightarrow> str" where
  "loop_stop j =
     (if 0 < cj_token_budget j \<and> cj_token_budget j \<le> cj_tokens_used j then ''budget_exceeded''
      else if 0 < cj_max_iterations j \<and> cj_max_iterations j \<le> cj_iterations j then ''max_iterations''
      else '''')"

definition reschedule :: "clock \<Rightarrow> cron_job \<Rightarrow> cron_job" where
  "reschedule ck j =
     (if loop_stop j \<noteq> [] then j\<lparr>cj_enabled := False, cj_stop_reason := loop_stop j\<rparr>
      else if cj_loop_mode j = ''event_driven'' then j\<lparr>cj_next_run := 0\<rparr>
      else j\<lparr>cj_next_run := next_run_for ck j\<rparr>)"

definition run_single_job :: "clock \<Rightarrow> outcome \<Rightarrow> cron_job \<Rightarrow> cron_manager \<Rightarrow> cron_manager" where
  "run_single_job ck handled j0 m =
     (let j1 = (if cj_stop_reason j0 = ''cancelled'' then j0\<lparr>cj_stop_reason := ''''\<rparr> else j0);
          out = (if cj_id j0 \<in> set (cm_handlers m) \<or> cm_default_handler m then Some handled else None);
          j2 = (run_outcome out j1)\<lparr>cj_last_run := ck_now ck\<rparr>;
          m1 = save_execution (ck_now ck) (run_execution ck out j1) m
      in if cj_one_shot j2 then forget_job (cj_id j2) m1
         else put_job (reschedule ck (accounted (run_result out) j2)) m1)"

definition due_jobs :: "pyfloat \<Rightarrow> cron_manager \<Rightarrow> cron_job list" where
  "due_jobs now m = filter (\<lambda>j. cj_enabled j \<and> 0 < cj_next_run j \<and> cj_next_run j \<le> now)
     (map snd (cm_jobs m))"

definition cron_tick :: "clock \<Rightarrow> (str \<Rightarrow> outcome) \<Rightarrow> cron_manager \<Rightarrow> cron_manager" where
  "cron_tick ck outcomes m =
     fold (\<lambda>j. run_single_job ck (outcomes (cj_id j)) j) (due_jobs (ck_now ck) m) m"

definition cron_start :: "cron_manager \<Rightarrow> cron_manager" where
  "cron_start m = m\<lparr>cm_running := True\<rparr>"

definition cron_stop :: "cron_manager \<Rightarrow> cron_manager" where
  "cron_stop m =
     fold (\<lambda>j. put_job (j\<lparr>cj_stop_reason := ''cancelled''\<rparr>))
       (filter (\<lambda>j. cj_enabled j \<and> \<not> cj_one_shot j) (map snd (cm_jobs m)))
       (m\<lparr>cm_running := False\<rparr>)"

definition cron_close :: "cron_manager \<Rightarrow> cron_manager" where
  "cron_close m = (cron_stop m)\<lparr>cm_db := None\<rparr>"

end
