(* ===== verification/CronJobsProps.thy ===== *)
theory CronJobsProps
  imports CronJobs
begin

text \<open>
  Properties of the cron manager along any sequence of its operations: the caps on
  iterations and tokens, and the agreement of the job table with the jobs in memory.
\<close>

section \<open>Invariants\<close>

interpretation cron_rows: keyed_store
  "map_of :: (str, 'v) dict \<Rightarrow> str \<Rightarrow> 'v option" replace_row AList.delete dict_ok "\<lambda>_ _ _. True"
proof unfold_locales
  fix s :: "(str, 'v) dict" and k v
  assume ok: "dict_ok s"
  have none: "map_of (AList.delete k s) k = None" by simp
  show "map_of (replace_row k v s) = (map_of s)(k \<mapsto> v)"
    using none by (auto simp: replace_row_def map_add_def fun_eq_iff simp del: map_of_delete
        split: option.split)
  have "k \<notin> fst ` set (AList.delete k s)" using none unfolding map_of_eq_None_iff .
  then show "dict_ok (replace_row k v s)"
    using dict_ok_delete [OF ok, of k] by (simp add: replace_row_def dict_ok_def)
qed simp_all

text \<open>
  The caps: a job never exceeds its cap on iterations, and a job that is still enabled has
  both caps ahead of it.
\<close>

definition caps_ok :: "cron_job \<Rightarrow> bool" where
  "caps_ok j \<longleftrightarrow>
     (0 < cj_max_iterations j \<longrightarrow> cj_iterations j \<le> cj_max_iterations j
        \<and> (cj_enabled j \<longrightarrow> cj_iterations j < cj_max_iterations j))
     \<and> (0 < cj_token_budget j \<longrightarrow> cj_enabled j \<longrightarrow> cj_tokens_used j < cj_token_budget j)"

definition job_ok :: "str \<Rightarrow> cron_job \<Rightarrow> bool" where
  "job_ok k j \<longleftrightarrow> cj_id j = k \<and> cj_loop_mode j \<in> set loop_modes \<and> caps_ok j"

definition manager_ok :: "cron_manager \<Rightarrow> bool" where
  "manager_ok m \<longleftrightarrow> dict_ok (cm_jobs m) \<and> (\<forall>k j. map_of (cm_jobs m) k = Some j \<longrightarrow> job_ok k j)
     \<and> (\<forall>db. cm_db m = Some db \<longrightarrow> dict_ok (cd_jobs db) \<and> map_of (cd_jobs db) = map_of (cm_jobs m))"

lemma normalize_in: "normalize_loop_mode raw \<in> set loop_modes"
  by (simp add: normalize_loop_mode_def loop_modes_def Let_def)

lemma normalize_id: "mode \<in> set loop_modes \<Longrightarrow> normalize_loop_mode mode = mode"
proof -
  have "list_all (\<lambda>mode. normalize_loop_mode mode = mode) loop_modes" by code_simp
  then show "mode \<in> set loop_modes \<Longrightarrow> normalize_loop_mode mode = mode" by (simp add: list_all_iff)
qed

lemma put_job_ok:
  assumes m: "manager_ok m" and j: "job_ok (cj_id j) j"
  shows "manager_ok (put_job j m)"
  using m j by (auto simp: manager_ok_def put_job_def save_job_def cron_rows.look_put cron_rows.ok_put
      split: if_splits)

lemma manager_ok_cong:
  "manager_ok m \<Longrightarrow> cm_jobs m' = cm_jobs m \<Longrightarrow>
    map_option cd_jobs (cm_db m') = map_option cd_jobs (cm_db m) \<Longrightarrow> manager_ok m'"
  unfolding manager_ok_def by (metis map_option_eq_Some)

lemma add_handler_simps [simp]:
  "cm_jobs (add_handler g jid m) = cm_jobs m" "cm_db (add_handler g jid m) = cm_db m"
  by (simp_all add: add_handler_def)

lemma add_handler_ok: "manager_ok m \<Longrightarrow> manager_ok (add_handler g jid m)"
  by (erule manager_ok_cong) simp_all

lemma save_execution_simps [simp]:
  "cm_jobs (save_execution now e m) = cm_jobs m"
  "map_option cd_jobs (cm_db (save_execution now e m)) = map_option cd_jobs (cm_db m)"
  by (simp_all add: save_execution_def option.map_comp comp_def)

lemma forget_job_ok: "manager_ok m \<Longrightarrow> manager_ok (forget_job jid m)"
  by (auto simp: manager_ok_def forget_job_def delete_job_def split: if_splits)

text \<open>No operation opens or closes the database.\<close>

lemma db_kept [simp]:
  "cm_db (put_job j m) = None \<longleftrightarrow> cm_db m = None"
  "cm_db (save_execution now e m) = None \<longleftrightarrow> cm_db m = None"
  "cm_db (forget_job jid m) = None \<longleftrightarrow> cm_db m = None"
  by (simp_all add: put_job_def save_job_def save_execution_def forget_job_def delete_job_def)

lemma run_single_db [simp]: "cm_db (run_single_job ck out j m) = None \<longleftrightarrow> cm_db m = None"
  by (simp add: run_single_job_def Let_def)

lemma fold_db: "(\<And>j m. cm_db (f j m) = None \<longleftrightarrow> cm_db m = None) \<Longrightarrow>
    cm_db (fold f js m) = None \<longleftrightarrow> cm_db m = None" for m :: cron_manager
  by (induction js arbitrary: m) simp_all

section \<open>Operations\<close>

lemma caps_cong:
  "cj_max_iterations j' = cj_max_iterations j \<Longrightarrow> cj_iterations j' = cj_iterations j \<Longrightarrow>
    cj_token_budget j' = cj_token_budget j \<Longrightarrow> cj_tokens_used j' = cj_tokens_used j \<Longrightarrow>
    (cj_enabled j' \<Longrightarrow> cj_enabled j) \<Longrightarrow> caps_ok j \<Longrightarrow> caps_ok j'"
  by (auto simp: caps_ok_def)

lemma register_ok: "manager_ok m \<Longrightarrow> caps_ok j \<Longrightarrow> manager_ok (cron_register ck j h m)"
  unfolding cron_register_def Let_def
  by (rule put_job_ok, erule add_handler_ok)
    (auto simp: job_ok_def normalize_in elim: caps_cong [rotated 5])

lemma once_ok: "manager_ok m \<Longrightarrow> manager_ok (snd (register_once now salt r g i jid n h m))"
  unfolding register_once_def Let_def snd_conv
  by (rule put_job_ok, erule add_handler_ok)
    (simp add: build_once_job_def new_cron_job_def job_ok_def caps_ok_def loop_modes_def Let_def)

lemma trigger_ok: "manager_ok m \<Longrightarrow> manager_ok (snd (trigger_event now jid m))"
proof -
  assume m: "manager_ok m"
  show ?thesis
  proof (cases "map_of (cm_jobs m) jid")
    case None
    then show ?thesis using m by (simp add: trigger_event_def)
  next
    case (Some j)
    then have "job_ok jid j" using m by (simp add: manager_ok_def)
    then have "job_ok (cj_id j) (j\<lparr>cj_next_run := now\<rparr>)"
      by (auto simp: job_ok_def elim: caps_cong [rotated 5])
    then show ?thesis using Some m put_job_ok [OF m] by (simp add: trigger_event_def)
  qed
qed

lemma run_outcome_fields [simp]:
  "cj_id (run_outcome out j) = cj_id j" "cj_loop_mode (run_outcome out j) = cj_loop_mode j"
  "cj_iterations (run_outcome out j) = cj_iterations j"
  "cj_tokens_used (run_outcome out j) = cj_tokens_used j"
  "cj_max_iterations (run_outcome out j) = cj_max_iterations j"
  "cj_token_budget (run_outcome out j) = cj_token_budget j"
  "cj_one_shot (run_outcome out j) = cj_one_shot j"
  by (auto simp: run_outcome_def handle_retry_def split: option.split outcome.split)

lemma reschedule_accounted_ok:
  assumes j: "job_ok k j0" and en: "cj_enabled j0"
    and f: "cj_id j = cj_id j0" "cj_loop_mode j = cj_loop_mode j0" "cj_iterations j = cj_iterations j0"
      "cj_max_iterations j = cj_max_iterations j0" "cj_token_budget j = cj_token_budget j0"
  shows "job_ok k (reschedule ck (accounted r j))"
  using assms by (auto simp: job_ok_def caps_ok_def reschedule_def accounted_def loop_stop_def)

lemma run_single_ok:
  assumes m: "manager_ok m" and j: "job_ok (cj_id j) j" "cj_enabled j"
  shows "manager_ok (run_single_job ck out j m)"
proof -
  have e: "manager_ok (save_execution now x m)" for now x
    by (rule manager_ok_cong [OF m]) simp_all
  let ?j1 = "if cj_stop_reason j = ''cancelled'' then j\<lparr>cj_stop_reason := ''''\<rparr> else j"
  let ?out = "if cj_id ?j1 \<in> set (cm_handlers m) \<or> cm_default_handler m then Some out else None"
  have "cj_id ?j1 = cj_id j" by simp
  define j2 where "j2 = (run_outcome (if cj_id j \<in> set (cm_handlers m) \<or> cm_default_handler m
      then Some out else None) ?j1)\<lparr>cj_last_run := ck_now ck\<rparr>"
  have f: "cj_id j2 = cj_id j" "cj_loop_mode j2 = cj_loop_mode j" "cj_iterations j2 = cj_iterations j"
    "cj_max_iterations j2 = cj_max_iterations j" "cj_token_budget j2 = cj_token_budget j"
    by (simp_all add: j2_def)
  have r: "job_ok (cj_id j) (reschedule ck (accounted res j2))" for res
    by (rule reschedule_accounted_ok [OF j f])
  then have "job_ok (cj_id (reschedule ck (accounted res j2))) (reschedule ck (accounted res j2))" for res
    by (simp add: job_ok_def)
  then show ?thesis
    unfolding run_single_job_def Let_def j2_def [symmetric]
    by (simp add: forget_job_ok put_job_ok e)
qed

lemma fold_jobs_ok:
  assumes "manager_ok m" "\<And>j. j \<in> set js \<Longrightarrow> P j"
    and "\<And>j m. P j \<Longrightarrow> manager_ok m \<Longrightarrow> manager_ok (f j m)"
  shows "manager_ok (fold f js m)"
  using assms by (induction js arbitrary: m) simp_all

lemma job_of_vals:
  "manager_ok m \<Longrightarrow> j \<in> snd ` set (cm_jobs m) \<Longrightarrow> job_ok (cj_id j) j"
  unfolding manager_ok_def using in_vals_iff by (metis job_ok_def)

lemma tick_ok: "manager_ok m \<Longrightarrow> manager_ok (cron_tick ck outs m)"
  unfolding cron_tick_def
  by (rule fold_jobs_ok [where P = "\<lambda>j. job_ok (cj_id j) j \<and> cj_enabled j"])
    (auto simp: due_jobs_def intro: run_single_ok dest: job_of_vals)

lemma stop_ok: "manager_ok m \<Longrightarrow> manager_ok (cron_stop m)"
  unfolding cron_stop_def
proof (rule fold_jobs_ok [where P = "\<lambda>j. job_ok (cj_id j) j"])
  assume m: "manager_ok m"
  show "manager_ok (m\<lparr>cm_running := False\<rparr>)" by (rule manager_ok_cong [OF m]) simp_all
  show "job_ok (cj_id j) j"
    if "j \<in> set (filter (\<lambda>j. cj_enabled j \<and> \<not> cj_one_shot j) (map snd (cm_jobs m)))" for j
    using that job_of_vals [OF m] by auto
  show "manager_ok (put_job (j\<lparr>cj_stop_reason := ''cancelled''\<rparr>) m')"
    if "job_ok (cj_id j) j" "manager_ok m'" for j m'
    by (rule put_job_ok [OF that(2)]) (use that(1) in \<open>auto simp: job_ok_def elim: caps_cong [rotated 5]\<close>)
qed

section \<open>Runs\<close>

datatype cron_event =
    CeRegister clock cron_job bool
  | CeOnce pyfloat int pyfloat str str str str bool
  | CeUnregister str
  | CeTrigger pyfloat str
  | CeTick clock "str \<Rightarrow> outcome"
  | CeStart
  | CeStop

fun cron_step :: "cron_event \<Rightarrow> cron_manager \<Rightarrow> cron_manager" where
  "cron_step (CeRegister ck j h) m = cron_register ck j h m"
| "cron_step (CeOnce now salt r g i jid n h) m = snd (register_once now salt r g i jid n h m)"
| "cron_step (CeUnregister jid) m = cron_unregister jid m"
| "cron_step (CeTrigger now jid) m = snd (trigger_event now jid m)"
| "cron_step (CeTick ck outs) m = cron_tick ck outs m"
| "cron_step CeStart m = cron_start m"
| "cron_step CeStop m = cron_stop m"

fun fresh_event :: "cron_event \<Rightarrow> bool" where
  "fresh_event (CeRegister ck j h) = caps_ok j"
| "fresh_event _ = True"

lemma cron_step_ok: "manager_ok m \<Longrightarrow> fresh_event e \<Longrightarrow> manager_ok (cron_step e m)"
proof (cases e)
  case CeStart
  then show "manager_ok m \<Longrightarrow> fresh_event e \<Longrightarrow> manager_ok (cron_step e m)"
    by (auto simp: cron_start_def elim: manager_ok_cong)
qed (simp_all add: register_ok once_ok trigger_ok tick_ok stop_ok cron_unregister_def forget_job_ok)

lemma cron_step_db: "cm_db (cron_step e m) = None \<longleftrightarrow> cm_db m = None"
  by (cases e) (simp_all add: cron_register_def Let_def register_once_def cron_unregister_def
      trigger_event_def cron_tick_def cron_start_def cron_stop_def fold_db split: option.split)

lemma cron_run_ok:
  "manager_ok m \<Longrightarrow> list_all fresh_event es \<Longrightarrow> manager_ok (fold cron_step es m)"
  by (induction es arbitrary: m) (simp_all add: cron_step_ok)

definition empty_cron_db :: cron_db where
  "empty_cron_db = \<lparr>cd_jobs = [], cd_executions = []\<rparr>"

lemma cron_init_ok: "manager_ok (cron_manager_init dflt (Some empty_cron_db))"
  by (simp add: cron_manager_init_def empty_cron_db_def load_jobs_def manager_ok_def)

text \<open>
  In every state that registrations (of jobs whose caps are still ahead), one-shot
  registrations, removals, events, ticks and stops can reach, whatever the handlers
  return: a job with a cap on iterations has run at most that often, and a job that is
  enabled has reached neither its iteration cap nor its token budget.\<close>

theorem caps_respected:
  assumes "list_all fresh_event es"
    and "map_of (cm_jobs (fold cron_step es (cron_manager_init dflt (Some empty_cron_db)))) jid = Some j"
  shows "(0 < cj_max_iterations j \<longrightarrow> cj_iterations j \<le> cj_max_iterations j)
    \<and> (cj_enabled j \<longrightarrow> (0 < cj_max_iterations j \<longrightarrow> cj_iterations j < cj_max_iterations j)
         \<and> (0 < cj_token_budget j \<longrightarrow> cj_tokens_used j < cj_token_budget j))"
  using cron_run_ok [OF cron_init_ok assms(1), of dflt] assms(2)
  by (auto simp: manager_ok_def job_ok_def caps_ok_def)

lemma fold_load:
  assumes "dict_ok rows" "\<And>k r. (k, r) \<in> set rows \<Longrightarrow> cj_id r = k \<and> cj_loop_mode r \<in> set loop_modes"
  shows "map_of (fold (\<lambda>(k, r) js. AList.update (cj_id (load_job r)) (load_job r) js) rows acc) k
    = (case map_of rows k of None \<Rightarrow> map_of acc k | Some r \<Rightarrow> Some r)"
  using assms
proof (induction rows arbitrary: acc)
  case Nil
  then show ?case by simp
next
  case (Cons p rows)
  obtain i r where p: "p = (i, r)" by (cases p)
  have r: "load_job r = r" "cj_id r = i"
    using Cons.prems(2) [of i r] p by (simp_all add: load_job_def normalize_id)
  have d: "dict_ok rows" "i \<notin> fst ` set rows" using Cons.prems(1) p by (simp_all add: dict_ok_def)
  have "map_of rows i = None" using d(2) by (simp add: map_of_eq_None_iff)
  moreover have "cj_id q = l \<and> cj_loop_mode q \<in> set loop_modes" if "(l, q) \<in> set rows" for l q
    using Cons.prems(2) [of l q] that by simp
  note ih = Cons.IH [OF d(1) this, of "AList.update i r acc"]
  ultimately show ?case
    by (cases "k = i") (simp_all add: p r ih split: option.split)
qed

text \<open>
  A manager that is opened anew on the database of such a run has exactly the jobs
  that the run left in memory: every operation writes what it changes.\<close>

theorem jobs_survive_restart:
  assumes "list_all fresh_event es"
    and "m = fold cron_step es (cron_manager_init dflt (Some empty_cron_db))"
  shows "map_of (cm_jobs (cron_manager_init dflt' (cm_db m))) = map_of (cm_jobs m)
    \<and> cm_db m \<noteq> None"
proof -
  have m: "manager_ok m" unfolding assms(2) by (rule cron_run_ok [OF cron_init_ok assms(1)])
  have "cm_db (fold cron_step es m0) = None \<longleftrightarrow> cm_db m0 = None" for m0
    by (rule fold_db) (rule cron_step_db)
  then have some: "cm_db m \<noteq> None" unfolding assms(2) by (simp add: cron_manager_init_def)
  then obtain db where db: "cm_db m = Some db" by blast
  have rows: "dict_ok (cd_jobs db)" "map_of (cd_jobs db) = map_of (cm_jobs m)"
    using m db by (simp_all add: manager_ok_def)
  have "cj_id r = k \<and> cj_loop_mode r \<in> set loop_modes" if "(k, r) \<in> set (cd_jobs db)" for k r
    using that m rows dict_mem_iff [OF rows(1)] by (auto simp: manager_ok_def job_ok_def)
  then have "map_of (cm_jobs (cron_manager_init dflt' (cm_db m))) k = map_of (cm_jobs m) k" for k
    using fold_load [OF rows(1)] rows(2)
    by (auto simp: cron_manager_init_def db load_jobs_def split: option.split)
  then show ?thesis using some by auto
qed

section \<open>One-shot jobs\<close>

text \<open>
  A one-shot job is forgotten after its run whatever the outcome, so its retries are never
  used.
\<close>

lemma forget_job_gone: "map_of (cm_jobs (forget_job k m)) k = None"
  by (simp add: forget_job_def delete_job_def)

lemma one_shot_forgotten:
  "cj_one_shot j \<Longrightarrow> map_of (cm_jobs (run_single_job ck out j m)) (cj_id j) = None"
  by (cases "cj_stop_reason j = ''cancelled''")
    (simp_all add: run_single_job_def Let_def forget_job_gone del: map_of_delete)

section \<open>Concrete runs\<close>

definition sample_clock :: "pyfloat \<Rightarrow> clock" where
  "sample_clock now = \<lparr>ck_now = now, ck_civil = \<lparr>dt_year = 2024, dt_month = 2, dt_day = 29,
     dt_hour = 9, dt_minute = 0\<rparr>, ck_stamp = (\<lambda>t. 0)\<rparr>"

definition sample_events :: "cron_event list" where
  "sample_events =
     [CeRegister (sample_clock 1) ((new_cron_job ''j'' ''job'' '''')\<lparr>cj_loop_mode := ''continuous'',
        cj_max_iterations := 1\<rparr>) True,
      CeTick (sample_clock 2) (\<lambda>i. Success (JObj [(''total_tokens'', JInt 7)]) ''ok''),
      CeTick (sample_clock 3) (\<lambda>i. Success (JObj []) ''ok'')]"

definition sample_manager :: cron_manager where
  "sample_manager = fold cron_step sample_events (cron_manager_init False (Some empty_cron_db))"

lemma sample_fresh: "list_all fresh_event sample_events"
  by (simp add: sample_events_def caps_ok_def new_cron_job_def)

lemma sample_job: "map_option (\<lambda>j. (cj_iterations j, cj_enabled j, cj_tokens_used j, cj_max_iterations j))
  (map_of (cm_jobs sample_manager) ''j'') = Some (1, False, 7, 1)"
  by code_simp

theorem caps_respected_witness:
  "\<exists>j. map_of (cm_jobs sample_manager) ''j'' = Some j \<and> cj_iterations j \<le> cj_max_iterations j
    \<and> cj_iterations j = 1 \<and> \<not> cj_enabled j"
proof -
  obtain j where j: "map_of (cm_jobs sample_manager) ''j'' = Some j"
      "cj_iterations j = 1" "\<not> cj_enabled j" "cj_max_iterations j = 1"
    using sample_job by auto
  have "0 < cj_max_iterations j \<longrightarrow> cj_iterations j \<le> cj_max_iterations j"
    using caps_respected [OF sample_fresh j(1) [unfolded sample_manager_def]] by blast
  then show ?thesis using j by simp
qed

theorem jobs_survive_restart_witness:
  "map_of (cm_jobs (cron_manager_init True (cm_db sample_manager))) = map_of (cm_jobs sample_manager)
   \<and> map_of (cm_jobs sample_manager) ''j'' \<noteq> None"
  using jobs_survive_restart [OF sample_fresh sample_manager_def, of True] sample_job by auto

end
