(* ===== verification/Webhooks.thy ===== *)
theory Webhooks
  imports Json
begin

text \<open>
  Webhooks: \<open>WebhookManager\<close> of \<open>agent_runtime/triggers.py\<close>. Hooks, their JSON file,
  the rate limit, the idempotency window, signatures and the handling of a call. The keyed
  hash (HMAC-SHA256) and the canonical JSON text are function arguments, fresh identifiers
  and clock readings are arguments. The file holds what \<open>_save\<close> writes.
\<close>

section \<open>State\<close>

record webhook =
  wh_id :: str
  wh_name :: str
  wh_secret :: str
  wh_graph :: str
  wh_enabled :: bool
  wh_created_at :: pyfloat
  wh_rate :: int
  wh_invoke_count :: int
  wh_last_invoked :: pyfloat

definition webhook_to_dict :: "bool \<Rightarrow> webhook \<Rightarrow> jobj" where
  "webhook_to_dict include_secret w =
    [(''id'', JStr (wh_id w)), (''name'', JStr (wh_name w)), (''graph_id'', JStr (wh_graph w)),
     (''enabled'', JBool (wh_enabled w)), (''created_at'', JFloat (wh_created_at w)),
     (''rate_limit_per_min'', JInt (wh_rate w)), (''invoke_count'', JInt (wh_invoke_count w)),
     (''last_invoked_at'', JFloat (wh_last_invoked w))]
    @ (if include_secret then [(''secret'', JStr (wh_secret w))] else [])"

record webhook_manager =
  wm_hooks :: "(str, webhook) dict"
  wm_handlers :: "str list"
  wm_buckets :: "(str, pyfloat \<times> pyfloat) dict"
  wm_idempotency :: "(str, str \<times> pyfloat) dict"
  wm_file :: "(str, jobj) dict option"

definition as_bool :: "json \<Rightarrow> bool option" where
  "as_bool j = Some (truthy j)"

text \<open>
  One entry of the file. The code skips an entry whose numbers it cannot convert; the model
  skips every entry with a field of another type, which \<open>_save\<close> never writes.
\<close>

definition webhook_of_entry :: "str \<Rightarrow> jobj \<Rightarrow> webhook option" where
  "webhook_of_entry wid d = (case field as_str d ''id'' wid of
     None \<Rightarrow> None
   | Some i \<Rightarrow> (case (field as_str d ''name'' '''', field as_str d ''secret'' '''',
                      field as_str d ''graph_id'' '''', field as_bool d ''enabled'' True,
                      field as_num d ''created_at'' 0, field as_int d ''rate_limit_per_min'' 30,
                      field as_int d ''invoke_count'' 0, field as_num d ''last_invoked_at'' 0) of
        (Some n, Some s, Some g, Some e, Some c, Some r, Some ic, Some li) \<Rightarrow>
          Some \<lparr>wh_id = i, wh_name = n, wh_secret = s, wh_graph = g, wh_enabled = e,
            wh_created_at = c, wh_rate = r, wh_invoke_count = ic, wh_last_invoked = li\<rparr>
      | _ \<Rightarrow> None))"

definition load_hooks :: "(str, jobj) dict \<Rightarrow> (str, webhook) dict" where
  "load_hooks file = fold (\<lambda>(wid, d) hs. case webhook_of_entry wid d of
     None \<Rightarrow> hs | Some w \<Rightarrow> AList.update wid w hs) file []"

definition webhook_manager_init :: "(str, jobj) dict option \<Rightarrow> webhook_manager" where
  "webhook_manager_init file = \<lparr>wm_hooks = (case file of None \<Rightarrow> [] | Some f \<Rightarrow> load_hooks f),
     wm_handlers = [], wm_buckets = [], wm_idempotency = [], wm_file = file\<rparr>"

definition save_hooks :: "webhook_manager \<Rightarrow> webhook_manager" where
  "save_hooks m = m\<lparr>wm_file := (case wm_file m of
     None \<Rightarrow> None
   | Some _ \<Rightarrow> Some (fold (\<lambda>(k, w) f. AList.update (wh_id w) (webhook_to_dict True w) f) (wm_hooks m) []))\<rparr>"

section \<open>Operations\<close>

definition webhook_create ::
    "str \<Rightarrow> str \<Rightarrow> pyfloat \<Rightarrow> str \<Rightarrow> str \<Rightarrow> str \<Rightarrow> bool \<Rightarrow> int \<Rightarrow> webhook_manager
      \<Rightarrow> webhook \<times> webhook_manager" where
  "webhook_create fresh_id fresh_secret now name graph secret enabled rate m =
     (let wid = ''wh-'' @ fresh_id;
          w = \<lparr>wh_id = wid, wh_name = name, wh_secret = (if secret = [] then fresh_secret else secret),
               wh_graph = graph, wh_enabled = enabled, wh_created_at = now, wh_rate = max 1 rate,
               wh_invoke_count = 0, wh_last_invoked = 0\<rparr>
      in (w, save_hooks (m\<lparr>wm_hooks := AList.update wid w (wm_hooks m)\<rparr>)))"

definition webhook_delete :: "str \<Rightarrow> webhook_manager \<Rightarrow> bool \<times> webhook_manager" where
  "webhook_delete wid m =
     (if map_of (wm_hooks m) wid = None then (False, m)
      else (True, save_hooks (m\<lparr>wm_hooks := AList.delete wid (wm_hooks m),
              wm_handlers := removeAll wid (wm_handlers m),
              wm_buckets := AList.delete wid (wm_buckets m)\<rparr>)))"

definition set_enabled :: "str \<Rightarrow> bool \<Rightarrow> webhook_manager \<Rightarrow> webhook option \<times> webhook_manager" where
  "set_enabled wid enabled m = (case map_of (wm_hooks m) wid of
     None \<Rightarrow> (None, m)
   | Some w \<Rightarrow> (let w' = w\<lparr>wh_enabled := enabled\<rparr>
       in (Some w', save_hooks (m\<lparr>wm_hooks := AList.update wid w' (wm_hooks m)\<rparr>))))"

definition webhook_register :: "webhook \<Rightarrow> bool \<Rightarrow> webhook_manager \<Rightarrow> webhook_manager" where
  "webhook_register w handler m = save_hooks (m\<lparr>wm_hooks := AList.update (wh_id w) w (wm_hooks m),
     wm_handlers := (if handler then List.insert (wh_id w) (wm_handlers m) else wm_handlers m)\<rparr>)"

definition webhook_unregister :: "str \<Rightarrow> webhook_manager \<Rightarrow> webhook_manager" where
  "webhook_unregister wid m = save_hooks (m\<lparr>wm_hooks := AList.delete wid (wm_hooks m),
     wm_handlers := removeAll wid (wm_handlers m)\<rparr>)"

type_synonym keyed_hash = "str \<Rightarrow> str \<Rightarrow> str"

definition verify_signature :: "keyed_hash \<Rightarrow> webhook \<Rightarrow> str \<Rightarrow> str \<Rightarrow> bool" where
  "verify_signature mac w raw_body signature \<longleftrightarrow>
     wh_secret w \<noteq> [] \<and> signature \<noteq> [] \<and> mac (wh_secret w) raw_body = py_lower (py_strip signature)"

definition check_rate_limit :: "pyfloat \<Rightarrow> webhook \<Rightarrow> webhook_manager \<Rightarrow> bool \<times> webhook_manager" where
  "check_rate_limit now w m =
     (let rate = of_int (max 1 (wh_rate w)) in
      case map_of (wm_buckets m) (wh_id w) of
        None \<Rightarrow> (True, m\<lparr>wm_buckets := AList.update (wh_id w) (rate - 1, now) (wm_buckets m)\<rparr>)
      | Some (tokens0, prev) \<Rightarrow>
         (let tokens = min rate (tokens0 + (now - prev) * (rate / 60)) in
          if tokens < 1
          then (False, m\<lparr>wm_buckets := AList.update (wh_id w) (tokens, now) (wm_buckets m)\<rparr>)
          else (True, m\<lparr>wm_buckets := AList.update (wh_id w) (tokens - 1, now) (wm_buckets m)\<rparr>)))"

definition idempotency_window :: pyfloat where
  "idempotency_window = 600"

definition idempotent_run_id :: "pyfloat \<Rightarrow> str \<Rightarrow> webhook_manager \<Rightarrow> str \<times> webhook_manager" where
  "idempotent_run_id now key m = (case map_of (wm_idempotency m) key of
     None \<Rightarrow> ('''', m)
   | Some (run, ts) \<Rightarrow>
      if idempotency_window < now - ts
      then ('''', m\<lparr>wm_idempotency := AList.delete key (wm_idempotency m)\<rparr>)
      else (run, m))"

definition record_idempotency :: "pyfloat \<Rightarrow> str \<Rightarrow> str \<Rightarrow> webhook_manager \<Rightarrow> webhook_manager" where
  "record_idempotency now key run m = m\<lparr>wm_idempotency := AList.update key (run, now)
     (filter (\<lambda>(k, (r, ts)). \<not> idempotency_window < now - ts) (wm_idempotency m))\<rparr>"

definition record_invoke :: "pyfloat \<Rightarrow> webhook \<Rightarrow> webhook_manager \<Rightarrow> webhook_manager" where
  "record_invoke now w m = save_hooks (m\<lparr>wm_hooks := AList.update (wh_id w)
     (w\<lparr>wh_invoke_count := wh_invoke_count w + 1, wh_last_invoked := now\<rparr>) (wm_hooks m)\<rparr>)"

text \<open>
  A call: refused, passed to the handler of the hook, or acknowledged. The headers may be
  absent. The text that is signed is the canonical JSON of the payload.
\<close>

datatype hook_reply = NotFoundOrDisabled | InvalidSignature | RunsHandler | Received

definition webhook_handle ::
    "keyed_hash \<Rightarrow> (jobj \<Rightarrow> str) \<Rightarrow> str \<Rightarrow> jobj \<Rightarrow> (str, str) dict option \<Rightarrow> webhook_manager
      \<Rightarrow> hook_reply" where
  "webhook_handle mac canonical wid payload headers m = (case map_of (wm_hooks m) wid of
     None \<Rightarrow> NotFoundOrDisabled
   | Some w \<Rightarrow>
      if \<not> wh_enabled w then NotFoundOrDisabled
      else
        let hs = (case headers of None \<Rightarrow> [] | Some h \<Rightarrow> h);
            received = dict_get hs ''x-webhook-signature'' '''';
            accept = (if wid \<in> set (wm_handlers m) then RunsHandler else Received)
        in if wh_secret w \<noteq> [] \<and> hs \<noteq> []
           then (if mac (wh_secret w) (canonical payload) \<noteq> received then InvalidSignature else accept)
           else accept)"

section \<open>Properties\<close>

text \<open>Within the window a recorded key finds its run; after it, nothing.\<close>

lemma idempotency_window_exact:
  "fst (idempotent_run_id later key (record_idempotency now key run m))
     = (if later - now \<le> 600 then run else '''')"
  by (simp add: idempotent_run_id_def record_idempotency_def idempotency_window_def)

text \<open>
  A call to a webhook is refused exactly when the hook is unknown or disabled, or the
  hook has a secret, some header is present and the signature does not match. In particular
  a call without any headers is accepted by an enabled hook whatever its secret.\<close>

theorem handle_exact:
  "(webhook_handle mac canonical wid payload headers m \<in> {RunsHandler, Received}
      \<longleftrightarrow> (\<exists>w. map_of (wm_hooks m) wid = Some w \<and> wh_enabled w
            \<and> (wh_secret w = [] \<or> headers = None \<or> headers = Some []
               \<or> mac (wh_secret w) (canonical payload)
                   = dict_get (the headers) ''x-webhook-signature'' '''')))
   \<and> (webhook_handle mac canonical wid payload None m = RunsHandler
      \<longleftrightarrow> (\<exists>w. map_of (wm_hooks m) wid = Some w \<and> wh_enabled w) \<and> wid \<in> set (wm_handlers m))"
  by (auto simp: webhook_handle_def Let_def split: option.splits)

end
