(* ===== verification/Workflow.thy ===== *)
theory Workflow
  imports Json
begin

text \<open>
  Workflow phases: the phase patterns of \<open>agent_runtime/workflow_engine.py\<close>.
  A phase runs agents (\<open>_run_agent\<close>) in one of six patterns; \<open>exec_phase\<close> is the
  dispatch of \<open>_execute_phases\<close> with its \<open>try/except\<close>. The model gateway, the
  admission funnel (another package) and the graph runtime are arguments that thread an
  arbitrary world \<open>'w\<close>; every answer may depend on everything that happened before.
  \<open>asyncio.gather\<close> is modelled as running its tasks in list order: the tasks share
  nothing but the world and a token accumulator that only collects. Fields of agent
  configurations are strings; a pipeline item is a string. Configuration numbers are read
  before a loop starts. The text of an exception matters only for being empty or not.
\<close>

section \<open>Agents\<close>

text \<open>What the gateway and the graph runtime can answer.\<close>

datatype chat_reply =
    ChatRaised str
  | ChatErrored str
  | ChatReply str "jobj option"

datatype graph_reply =
    GraphRaised str
  | GraphRan "(str \<times> str) list" "(str \<times> str) list" "jobj option"

record 'w services =
  sv_clock :: "'w \<Rightarrow> pyfloat"
  sv_orchestrator :: bool
  sv_llm :: bool
  sv_soul :: "str \<Rightarrow> str \<Rightarrow> str"
  sv_graph :: "str \<Rightarrow> str \<Rightarrow> str \<Rightarrow> 'w \<Rightarrow> graph_reply \<times> 'w"
  sv_funnel :: "str \<Rightarrow> (str \<times> str) list \<Rightarrow> 'w \<Rightarrow> (str + (str \<times> str) list) \<times> 'w"
  sv_chat :: "(str \<times> str) list \<Rightarrow> 'w \<Rightarrow> chat_reply \<times> 'w"
  sv_post :: "str \<Rightarrow> jobj option \<Rightarrow> str \<Rightarrow> 'w \<Rightarrow> 'w"
  sv_loads :: "str \<Rightarrow> json option"
  sv_max_branches :: str

definition cfg_str :: "jobj \<Rightarrow> str \<Rightarrow> str \<Rightarrow> str" where
  "cfg_str cfg k v = (case jget cfg k (JStr v) of JStr s \<Rightarrow> s | _ \<Rightarrow> '''')"

text \<open>
  \<open>_record_tokens\<close>: the accumulator is None when the caller passed none. Python's
  \<open>not token_acc\<close> also holds for an empty list.
\<close>

definition token_count :: "jobj \<Rightarrow> str \<Rightarrow> int" where
  "token_count u k = (case jget u k (JInt 0) of JInt i \<Rightarrow> i | _ \<Rightarrow> 0)"

definition record_tokens :: "jobj option \<Rightarrow> int list option \<Rightarrow> int list option" where
  "record_tokens usage acc =
     (case (acc, usage) of
        (Some (t # ts), Some u) \<Rightarrow>
          (let n = token_count u ''prompt_tokens'' + token_count u ''completion_tokens''
           in if 0 < n then Some ((t # ts) @ [n]) else acc)
      | _ \<Rightarrow> acc)"

text \<open>The output of a graph run: its last non-empty thought, else its last assistant message.\<close>

definition graph_output :: "(str \<times> str) list \<Rightarrow> (str \<times> str) list \<Rightarrow> str" where
  "graph_output events messages =
     (case List.find (\<lambda>(t, c). t = ''think'' \<and> c \<noteq> []) (rev events) of
        Some (_, c) \<Rightarrow> c
      | None \<Rightarrow>
         (case List.find (\<lambda>(r, c). r = ''assistant'') (rev messages) of
            Some (_, c) \<Rightarrow> c
          | None \<Rightarrow> ''''))"

definition agent_prompt :: "'w services \<Rightarrow> jobj \<Rightarrow> str" where
  "agent_prompt sv cfg =
     (let prompt = cfg_str cfg ''system_prompt'' ''''; aid = cfg_str cfg ''agent_id'' '''';
          soul = sv_soul sv aid prompt
      in if aid \<noteq> [] \<and> soul \<noteq> [] then soul else prompt)"

definition run_llm ::
    "'w services \<Rightarrow> str \<Rightarrow> str \<Rightarrow> str \<Rightarrow> int list option \<Rightarrow> 'w \<Rightarrow> (str + str) \<times> int list option \<times> 'w" where
  "run_llm sv name prompt inp acc w =
     (let ms = (if prompt = [] then [] else [(''system'', prompt)]) @ [(''user'', inp)];
          (gate, w1) = sv_funnel sv name ms w
      in case gate of
           Inl reason \<Rightarrow> (Inl (''LLM funnel blocked: '' @ reason), acc, w1)
         | Inr ms' \<Rightarrow>
            (case sv_chat sv ms' w1 of
               (ChatRaised e, w2) \<Rightarrow> (Inl e, acc, w2)
             | (ChatErrored e, w2) \<Rightarrow> (Inl (''LLM gateway error: '' @ e), acc, w2)
             | (ChatReply content usage, w2) \<Rightarrow>
                 (Inr content, record_tokens usage acc, sv_post sv name usage content w2)))"

definition run_agent ::
    "'w services \<Rightarrow> jobj \<Rightarrow> str \<Rightarrow> int list option \<Rightarrow> 'w \<Rightarrow> (str + str) \<times> int list option \<times> 'w" where
  "run_agent sv cfg inp acc w =
     (if cfg = [] then (Inr inp, acc, w)
      else
        let graph = cfg_str cfg ''graph_id'' ''''; prompt = agent_prompt sv cfg
        in if graph \<noteq> [] \<and> sv_orchestrator sv then
             (case sv_graph sv graph prompt inp w of
                (GraphRaised e, w1) \<Rightarrow> (Inl e, acc, w1)
              | (GraphRan events messages usage, w1) \<Rightarrow>
                  (Inr (graph_output events messages), record_tokens usage acc, w1))
           else if sv_llm sv then run_llm sv (cfg_str cfg ''name'' ''unknown'') prompt inp acc w
           else (Inr inp, acc, w))"

text \<open>\<open>asyncio.gather(*tasks, return_exceptions=True)\<close>.\<close>

fun gather ::
    "'w services \<Rightarrow> (jobj \<times> str) list \<Rightarrow> int list option \<Rightarrow> 'w
      \<Rightarrow> (str + str) list \<times> int list option \<times> 'w" where
  "gather sv [] acc w = ([], acc, w)"
| "gather sv ((cfg, inp) # cs) acc w =
     (let (r, acc1, w1) = run_agent sv cfg inp acc w;
          (rs, acc2, w2) = gather sv cs acc1 w1
      in (r # rs, acc2, w2))"

section \<open>Phases\<close>

datatype wf_pattern =
    Pipeline | ParallelBarrier | LoopUntilDry | LoopUntilBudget | AdversarialVerify | JudgePanel

record wf_phase =
  wp_name :: str
  wp_pattern :: wf_pattern
  wp_agents :: "jobj list"
  wp_config :: jobj

text \<open>The exceptions of a phase: Python's own, or one that an agent raised, with its text.\<close>

datatype wf_error = PyErr py_exn | AgentErr str

fun error_text :: "wf_error \<Rightarrow> str" where
  "error_text (PyErr KeyError) = ''KeyError''"
| "error_text (PyErr IndexError) = ''IndexError''"
| "error_text (PyErr TypeError) = ''TypeError''"
| "error_text (PyErr ValueError) = ''ValueError''"
| "error_text (PyErr AttributeError) = ''AttributeError''"
| "error_text (PyErr RuntimeError) = ''RuntimeError''"
| "error_text (AgentErr e) = e"

text \<open>The keys besides \<open>output\<close> that the patterns put into their result.\<close>

datatype phase_detail =
    NoDetail
  | StageResults "(str \<times> nat \<times> str) list"
  | AgentResults "(json \<times> (str + str)) list"
  | DryResults nat nat
  | BudgetResults nat pyfloat pyfloat bool
  | VoteResults bool nat nat "(bool \<times> str option) list"
  | PanelResults "(json \<times> str) list" int str

record phase_result =
  pr_phase :: str
  pr_output :: str
  pr_error :: "str option"
  pr_detail :: phase_detail
  pr_duration :: pyfloat

text \<open>The result as the dict that the pattern builds.\<close>

definition vote_doc :: "nat \<Rightarrow> bool \<times> str option \<Rightarrow> json" where
  "vote_doc i v = JObj ([(''voter'', JInt (int i)),
       (''verdict'', JStr (if fst v then ''refuted'' else ''survived''))]
     @ (case snd v of None \<Rightarrow> [] | Some e \<Rightarrow> [(''error'', JStr e)]))"

fun detail_doc :: "phase_detail \<Rightarrow> jobj" where
  "detail_doc NoDetail = []"
| "detail_doc (StageResults rs) = [(''stage_results'', JList (map (\<lambda>(item, i, out).
     JObj [(''item'', JStr item), (''stage'', JInt (int i)), (''output'', JStr out)]) rs))]"
| "detail_doc (AgentResults rs) = [(''agent_results'', JList (map (\<lambda>(name, r).
     JObj [(''agent'', name), (case r of Inl e \<Rightarrow> (''error'', JStr e) | Inr out \<Rightarrow> (''output'', JStr out))]) rs))]"
| "detail_doc (DryResults i n) = [(''iterations'', JInt (int i)), (''total_findings'', JInt (int n))]"
| "detail_doc (BudgetResults i used cap est) = [(''iterations'', JInt (int i)),
     (''budget_used'', JFloat used), (''budget_total'', JFloat cap), (''estimated_budget'', JBool est)]"
| "detail_doc (VoteResults passes s r vs) = [(''passes'', JBool passes), (''survived'', JInt (int s)),
     (''refuted'', JInt (int r)), (''votes'', JList (map2 vote_doc [0..<length vs] vs))]"
| "detail_doc (PanelResults as i verdict) = [(''approaches'', JList (map (\<lambda>(name, out).
     JObj [(''agent'', name), (''output'', JStr out)]) as)), (''winner_index'', JInt i),
     (''judge_output'', JStr verdict)]"

definition result_doc :: "phase_result \<Rightarrow> jobj" where
  "result_doc r = [(''output'', JStr (pr_output r))] @ detail_doc (pr_detail r)
     @ (case pr_error r of None \<Rightarrow> [] | Some e \<Rightarrow> [(''error'', JStr e)])
     @ [(''phase'', JStr (pr_phase r)), (''duration'', JFloat (pr_duration r))]"

text \<open>Numbers of a phase configuration; Python compares an int, a float and a bool alike.\<close>

fun num_of :: "json \<Rightarrow> pyfloat option" where
  "num_of (JInt i) = Some (of_int i)"
| "num_of (JFloat q) = Some q"
| "num_of (JBool b) = Some (if b then 1 else 0)"
| "num_of _ = None"

definition conf_num :: "jobj \<Rightarrow> str \<Rightarrow> pyfloat \<Rightarrow> wf_error + pyfloat" where
  "conf_num c k v = (case num_of (jget c k (JFloat v)) of None \<Rightarrow> Inl (PyErr TypeError) | Some q \<Rightarrow> Inr q)"

text \<open>\<open>int(v)\<close> of a JSON value.\<close>

fun int_of :: "json \<Rightarrow> wf_error + int" where
  "int_of (JInt i) = Inr i"
| "int_of (JFloat q) = Inr (trunc q)"
| "int_of (JBool b) = Inr (if b then 1 else 0)"
| "int_of (JStr s) = (case py_int (py_strip s) of None \<Rightarrow> Inl (PyErr ValueError) | Some i \<Rightarrow> Inr i)"
| "int_of _ = Inl (PyErr TypeError)"

definition blank_line :: str where
  "blank_line = [CHR 0x0A, CHR 0x0A]"

type_synonym 'w phase_run = "(wf_error + (str \<times> phase_detail)) \<times> 'w"

subsection \<open>Pipeline\<close>

fun run_stages ::
    "'w services \<Rightarrow> str \<Rightarrow> nat \<Rightarrow> jobj list \<Rightarrow> str \<Rightarrow> 'w \<Rightarrow> (str + (str \<times> nat \<times> str) list) \<times> 'w" where
  "run_stages sv item i [] inp w = (Inr [], w)"
| "run_stages sv item i (cfg # cfgs) inp w =
     (case run_agent sv cfg inp None w of
        (Inl e, _, w1) \<Rightarrow> (Inl e, w1)
      | (Inr out, _, w1) \<Rightarrow>
         (case run_stages sv item (Suc i) cfgs out w1 of
            (Inl e, w2) \<Rightarrow> (Inl e, w2)
          | (Inr rs, w2) \<Rightarrow> (Inr ((item, i, out) # rs), w2)))"

fun run_items ::
    "'w services \<Rightarrow> jobj list \<Rightarrow> str list \<Rightarrow> 'w \<Rightarrow> (str + (str \<times> nat \<times> str) list) \<times> 'w" where
  "run_items sv cfgs [] w = (Inr [], w)"
| "run_items sv cfgs (item # items) w =
     (case run_stages sv item 0 cfgs item w of
        (Inl e, w1) \<Rightarrow> (Inl e, w1)
      | (Inr rs, w1) \<Rightarrow>
         (case run_items sv cfgs items w1 of
            (Inl e, w2) \<Rightarrow> (Inl e, w2)
          | (Inr rs', w2) \<Rightarrow> (Inr (rs @ rs'), w2)))"

text \<open>Iterating over \<open>config.get("items", [input])\<close>: a string gives its characters, a dict its keys.\<close>

definition pipeline_items :: "jobj \<Rightarrow> str \<Rightarrow> str list option" where
  "pipeline_items c inp = (case jget c ''items'' (JList [JStr inp]) of
     JStr s \<Rightarrow> Some (map (\<lambda>ch. [ch]) s)
   | JObj d \<Rightarrow> Some (map fst d)
   | j \<Rightarrow> as_strs j)"

definition exec_pipeline :: "'w services \<Rightarrow> wf_phase \<Rightarrow> str \<Rightarrow> 'w \<Rightarrow> 'w phase_run" where
  "exec_pipeline sv p inp w =
     (if wp_agents p = [] then (Inr (inp, NoDetail), w)
      else case pipeline_items (wp_config p) inp of
          None \<Rightarrow> (Inl (PyErr TypeError), w)
        | Some items \<Rightarrow>
           (case run_items sv (wp_agents p) items w of
              (Inl e, w1) \<Rightarrow> (Inl (AgentErr e), w1)
            | (Inr rs, w1) \<Rightarrow>
               (Inr (if rs = [] then inp else snd (snd (last rs)), StageResults rs), w1)))"

subsection \<open>Parallel barrier\<close>

definition max_branches :: "'w services \<Rightarrow> jobj \<Rightarrow> wf_error + int" where
  "max_branches sv c = bindE (int_of (jget c ''max_branches'' (JInt 0)))
     (\<lambda>n. if n \<noteq> 0 then Inr n else int_of (JStr (sv_max_branches sv)))"

definition branch_name :: "nat \<Rightarrow> jobj \<Rightarrow> json" where
  "branch_name i cfg = jget cfg ''name'' (JStr (''agent_'' @ str_of_nat i))"

fun successes :: "(str + str) list \<Rightarrow> str list" where
  "successes [] = []"
| "successes (Inl _ # rs) = successes rs"
| "successes (Inr out # rs) = out # successes rs"

definition exec_parallel_barrier :: "'w services \<Rightarrow> wf_phase \<Rightarrow> str \<Rightarrow> 'w \<Rightarrow> 'w phase_run" where
  "exec_parallel_barrier sv p inp w =
     (if wp_agents p = [] then (Inr (inp, NoDetail), w)
      else case max_branches sv (wp_config p) of
          Inl e \<Rightarrow> (Inl e, w)
        | Inr cap \<Rightarrow>
           (let cfgs = (if 0 < cap \<and> cap < int (length (wp_agents p))
                        then take (nat cap) (wp_agents p) else wp_agents p);
                (outs, _, w1) = gather sv (map (\<lambda>cfg. (cfg, inp)) cfgs) None w
            in (Inr (py_join blank_line (successes outs),
                  AgentResults (zip (map2 branch_name [0..<length cfgs] cfgs) outs)), w1)))"

subsection \<open>Loop until dry\<close>

record dry_state =
  dr_dry :: nat
  dr_iter :: nat
  dr_seen :: "str list"
  dr_results :: "str list"
  dr_input :: str

text \<open>One round: the successful outputs whose first 100 characters are new.\<close>

definition take_finding :: "str \<Rightarrow> str list \<times> str list \<Rightarrow> str list \<times> str list" where
  "take_finding out st = (case st of (seen, fresh) \<Rightarrow>
     if take 100 out \<in> set seen then (seen, fresh)
     else (take 100 out # seen, fresh @ [out]))"

definition dry_round :: "str list \<Rightarrow> dry_state \<Rightarrow> dry_state" where
  "dry_round outs s =
     (let (seen, fresh) = fold take_finding outs (dr_seen s, [])
      in if fresh = [] then s\<lparr>dr_dry := dr_dry s + 1\<rparr>
         else s\<lparr>dr_dry := 0, dr_seen := seen, dr_results := dr_results s @ fresh,
                dr_input := py_join [CHR 0x0A] fresh\<rparr>)"

lemma dr_iter_dry_round [simp]: "dr_iter (dry_round outs s) = dr_iter s"
  by (simp add: dry_round_def split: prod.split)

lemma below_bound: "rat_of_nat n < q \<Longrightarrow> nat \<lceil>q\<rceil> - Suc n < nat \<lceil>q\<rceil> - n"
proof -
  assume "rat_of_nat n < q"
  then have "int n < \<lceil>q\<rceil>" by (metis less_ceiling_iff of_int_of_nat_eq)
  then show ?thesis by simp
qed

function dry_loop ::
    "'w services \<Rightarrow> jobj list \<Rightarrow> pyfloat \<Rightarrow> pyfloat \<Rightarrow> dry_state \<Rightarrow> 'w \<Rightarrow> dry_state \<times> 'w" where
  "dry_loop sv cfgs max_dry max_it s w =
     (if of_nat (dr_dry s) < max_dry \<and> of_nat (dr_iter s) < max_it
      then let s1 = s\<lparr>dr_iter := dr_iter s + 1\<rparr>
           in if cfgs = [] then (s1, w)
              else let (outs, _, w1) = gather sv (map (\<lambda>cfg. (cfg, dr_input s1)) cfgs) None w
                   in dry_loop sv cfgs max_dry max_it (dry_round (successes outs) s1) w1
      else (s, w))"
  by pat_completeness auto

termination
  by (relation "measure (\<lambda>(_, _, _, max_it, s, _). nat \<lceil>max_it\<rceil> - dr_iter s)")
    (simp_all add: below_bound)

declare dry_loop.simps [simp del]

definition exec_loop_until_dry :: "'w services \<Rightarrow> wf_phase \<Rightarrow> str \<Rightarrow> 'w \<Rightarrow> 'w phase_run" where
  "exec_loop_until_dry sv p inp w =
     (case (conf_num (wp_config p) ''dry_threshold'' 2, conf_num (wp_config p) ''max_iterations'' 10) of
        (Inr max_dry, Inr max_it) \<Rightarrow>
          (let (s, w1) = dry_loop sv (wp_agents p) max_dry max_it
                 \<lparr>dr_dry = 0, dr_iter = 0, dr_seen = [], dr_results = [], dr_input = inp\<rparr> w
           in (Inr (py_join blank_line (dr_results s), DryResults (dr_iter s) (length (dr_results s))), w1))
      | _ \<Rightarrow> (Inl (PyErr TypeError), w))"

subsection \<open>Loop until budget\<close>

record budget_state =
  bl_iter :: nat
  bl_used :: pyfloat
  bl_results :: "str list"
  bl_input :: str
  bl_estimated :: bool

definition budget_round :: "pyfloat \<Rightarrow> (str + str) list \<Rightarrow> int list \<Rightarrow> budget_state \<Rightarrow> budget_state" where
  "budget_round cost outs acc s =
     (let results = bl_results s @ successes outs
      in s\<lparr>bl_results := results,
           bl_input := (if results = [] then bl_input s else last results),
           bl_used := bl_used s + (if acc \<noteq> [] then of_int (sum_list acc) else cost),
           bl_estimated := (bl_estimated s \<or> acc = [])\<rparr>)"

lemma bl_iter_budget_round [simp]: "bl_iter (budget_round cost outs acc s) = bl_iter s"
  by (simp add: budget_round_def Let_def)

function budget_loop ::
    "'w services \<Rightarrow> jobj list \<Rightarrow> pyfloat \<Rightarrow> pyfloat \<Rightarrow> pyfloat \<Rightarrow> budget_state \<Rightarrow> 'w
      \<Rightarrow> budget_state \<times> 'w" where
  "budget_loop sv cfgs max_it budget cost s w =
     (if of_nat (bl_iter s) < max_it \<and> bl_used s < budget
      then let s1 = s\<lparr>bl_iter := bl_iter s + 1\<rparr>
           in if cfgs = [] then (s1, w)
              else let (outs, acc, w1) = gather sv (map (\<lambda>cfg. (cfg, bl_input s1)) cfgs) (Some []) w
                   in budget_loop sv cfgs max_it budget cost
                        (budget_round cost outs (case acc of None \<Rightarrow> [] | Some ts \<Rightarrow> ts) s1) w1
      else (s, w))"
  by pat_completeness auto

termination
  by (relation "measure (\<lambda>(_, _, max_it, _, _, s, _). nat \<lceil>max_it\<rceil> - bl_iter s)")
    (simp_all add: below_bound)

declare budget_loop.simps [simp del]

definition exec_loop_until_budget ::
    "'w services \<Rightarrow> wf_phase \<Rightarrow> str \<Rightarrow> int option \<Rightarrow> pyfloat \<Rightarrow> 'w \<Rightarrow> 'w phase_run" where
  "exec_loop_until_budget sv p inp budget used w =
     (case (conf_num (wp_config p) ''max_iterations'' 50,
            conf_num (wp_config p) ''cost_per_iteration'' 5000,
            case budget of Some b \<Rightarrow> Inr (of_int b)
            | None \<Rightarrow> conf_num (wp_config p) ''default_budget'' 50000) of
        (Inr max_it, Inr cost, Inr b) \<Rightarrow>
          (let (s, w1) = budget_loop sv (wp_agents p) max_it b cost
                 \<lparr>bl_iter = 0, bl_used = used, bl_results = [], bl_input = inp, bl_estimated = False\<rparr> w
           in (Inr (if bl_results s = [] then bl_input s else py_join blank_line (bl_results s),
                    BudgetResults (bl_iter s) (bl_used s) b (bl_estimated s)), w1))
      | _ \<Rightarrow> (Inl (PyErr TypeError), w))"

subsection \<open>Adversarial verification\<close>

definition skeptic_prompt :: "nat \<Rightarrow> str" where
  "skeptic_prompt i = ''You are skeptic #'' @ str_of_nat (i + 1)
     @ ''. Try to REFUTE the following claim. ''"

definition is_refute :: "str + str \<Rightarrow> bool" where
  "is_refute vote = (case vote of
     Inl _ \<Rightarrow> True
   | Inr v \<Rightarrow> py_contains ''refuted'' (py_lower v) \<or> py_contains ''false'' (py_lower v))"

definition vote_detail :: "str + str \<Rightarrow> bool \<times> str option" where
  "vote_detail vote = (is_refute vote, case vote of Inl e \<Rightarrow> Some e | Inr _ \<Rightarrow> None)"

definition voter_cfg :: "jobj list \<Rightarrow> nat \<Rightarrow> jobj" where
  "voter_cfg cfgs i = (if cfgs = [] then [] else cfgs ! (i mod length cfgs))"

text \<open>\<open>range(voter_count)\<close> needs an int (a bool is one).\<close>

definition voter_count :: "jobj \<Rightarrow> wf_error + nat" where
  "voter_count c = (case jget c ''voter_count'' (JInt 3) of
     JInt i \<Rightarrow> Inr (nat i)
   | JBool b \<Rightarrow> Inr (if b then 1 else 0)
   | _ \<Rightarrow> Inl (PyErr TypeError))"

definition exec_adversarial_verify :: "'w services \<Rightarrow> wf_phase \<Rightarrow> str \<Rightarrow> 'w \<Rightarrow> 'w phase_run" where
  "exec_adversarial_verify sv p inp w =
     (case (voter_count (wp_config p), conf_num (wp_config p) ''threshold'' (6 / 10)) of
        (Inr n, thr) \<Rightarrow>
          (let (votes, _, w1) = gather sv
                 (map (\<lambda>i. (voter_cfg (wp_agents p) i, skeptic_prompt i @ inp)) [0..<n]) None w;
               refuted = length (filter is_refute votes);
               survived = length (filter (\<lambda>v. \<not> is_refute v) votes)
           in case thr of
                Inl e \<Rightarrow> (Inl e, w1)
              | Inr t \<Rightarrow>
                 (let passes = t \<le> of_nat survived / of_nat (max n 1)
                  in (Inr (if passes then inp else '''',
                           VoteResults passes survived refuted (map vote_detail votes)), w1)))
      | (Inl e, _) \<Rightarrow> (Inl e, w))"

subsection \<open>Judge panel\<close>

fun run_approaches ::
    "'w services \<Rightarrow> jobj list \<Rightarrow> str \<Rightarrow> 'w \<Rightarrow> (str + (json \<times> str) list) \<times> 'w" where
  "run_approaches sv [] inp w = (Inr [], w)"
| "run_approaches sv (cfg # cfgs) inp w =
     (case run_agent sv cfg inp None w of
        (Inl e, _, w1) \<Rightarrow> (Inl e, w1)
      | (Inr out, _, w1) \<Rightarrow>
         (case run_approaches sv cfgs inp w1 of
            (Inl e, w2) \<Rightarrow> (Inl e, w2)
          | (Inr as, w2) \<Rightarrow> (Inr ((jget cfg ''name'' (JStr ''''), out) # as), w2)))"

definition scoring_prompt :: "(json \<times> str) list \<Rightarrow> str" where
  "scoring_prompt as =
     ''Score the following approaches on a 0-10 scale. Return JSON: ''
     @ ''{\"scores\": [{\"index\": 0, \"score\": N, \"reason\": \"...\"}], \"winner\": 0}'' @ blank_line
     @ concat (map2 (\<lambda>i (_, out). ''Approach '' @ str_of_nat i @ '': '' @ take 500 out @ blank_line)
         [0..<length as] as)"

text \<open>
  The index the judge names: an answer that is not JSON counts as 0; JSON that is not an
  object has no \<open>get\<close>. \<open>min(winner, n - 1)\<close> then needs a number and indexing an
  int; a negative index counts from the end of the list.
\<close>

definition judge_index :: "'w services \<Rightarrow> str \<Rightarrow> wf_error + json" where
  "judge_index sv out = (case sv_loads sv out of
     None \<Rightarrow> Inr (JInt 0)
   | Some (JObj d) \<Rightarrow> Inr (jget d ''winner'' (JInt 0))
   | Some _ \<Rightarrow> Inl (PyErr AttributeError))"

definition clamp_index :: "nat \<Rightarrow> json \<Rightarrow> wf_error + int" where
  "clamp_index n j = (case j of
     JInt i \<Rightarrow> Inr (min i (int n - 1))
   | JBool b \<Rightarrow> Inr (min (if b then 1 else 0) (int n - 1))
   | JFloat q \<Rightarrow> if of_int (int n - 1) < q then Inr (int n - 1) else Inl (PyErr TypeError)
   | _ \<Rightarrow> Inl (PyErr TypeError))"

definition py_index :: "'a list \<Rightarrow> int \<Rightarrow> wf_error + 'a" where
  "py_index xs i =
     (if 0 \<le> i \<and> i < int (length xs) then Inr (xs ! nat i)
      else if i < 0 \<and> - int (length xs) \<le> i then Inr (xs ! nat (int (length xs) + i))
      else Inl (PyErr IndexError))"

definition judge_cfg :: "wf_phase \<Rightarrow> wf_error + jobj" where
  "judge_cfg p = (case map_of (wp_config p) ''judge_agent'' of
     None \<Rightarrow> Inr (hd (wp_agents p))
   | Some (JObj d) \<Rightarrow> Inr d
   | Some j \<Rightarrow> if truthy j then Inl (PyErr AttributeError) else Inr [])"

definition exec_judge_panel :: "'w services \<Rightarrow> wf_phase \<Rightarrow> str \<Rightarrow> 'w \<Rightarrow> 'w phase_run" where
  "exec_judge_panel sv p inp w =
     (if wp_agents p = [] then (Inr (inp, NoDetail), w)
      else case run_approaches sv (wp_agents p) inp w of
          (Inl e, w1) \<Rightarrow> (Inl (AgentErr e), w1)
        | (Inr as, w1) \<Rightarrow>
           (case judge_cfg p of
              Inl e \<Rightarrow> (Inl e, w1)
            | Inr jc \<Rightarrow>
               (case run_agent sv jc (scoring_prompt as) None w1 of
                  (Inl e, _, w2) \<Rightarrow> (Inl (AgentErr e), w2)
                | (Inr verdict, _, w2) \<Rightarrow>
                   (bindE (judge_index sv verdict) (\<lambda>j.
                    bindE (clamp_index (length as) j) (\<lambda>i.
                    bindE (py_index as i) (\<lambda>(_, out).
                      Inr (out, PanelResults as i verdict)))), w2))))"

subsection \<open>One phase\<close>

definition exec_pattern ::
    "'w services \<Rightarrow> wf_phase \<Rightarrow> str \<Rightarrow> int option \<Rightarrow> pyfloat \<Rightarrow> 'w \<Rightarrow> 'w phase_run" where
  "exec_pattern sv p inp budget used w =
     (case wp_pattern p of
        Pipeline \<Rightarrow> exec_pipeline sv p inp w
      | ParallelBarrier \<Rightarrow> exec_parallel_barrier sv p inp w
      | LoopUntilDry \<Rightarrow> exec_loop_until_dry sv p inp w
      | LoopUntilBudget \<Rightarrow> exec_loop_until_budget sv p inp budget used w
      | AdversarialVerify \<Rightarrow> exec_adversarial_verify sv p inp w
      | JudgePanel \<Rightarrow> exec_judge_panel sv p inp w)"

definition exec_phase ::
    "'w services \<Rightarrow> wf_phase \<Rightarrow> str \<Rightarrow> int option \<Rightarrow> pyfloat \<Rightarrow> 'w \<Rightarrow> phase_result \<times> 'w" where
  "exec_phase sv p inp budget used w =
     (let (r, w1) = exec_pattern sv p inp budget used w;
          d = sv_clock sv w1 - sv_clock sv w
      in (case r of
            Inl e \<Rightarrow> \<lparr>pr_phase = wp_name p, pr_output = '''', pr_error = Some (error_text e),
                      pr_detail = NoDetail, pr_duration = d\<rparr>
          | Inr (out, det) \<Rightarrow> \<lparr>pr_phase = wp_name p, pr_output = out, pr_error = None,
                      pr_detail = det, pr_duration = d\<rparr>, w1))"

end
