(* ===== verification/PhaseProps.thy ===== *)
theory PhaseProps
  imports Workflow
begin

text \<open>
  What the phase patterns compute: the pipeline as a composition of agents, the bounds and
  the bookkeeping of the two loops, the vote count, and the choice of the judge panel. All
  statements hold for every behaviour of the gateway, the funnel and the graph runtime.
\<close>

section \<open>Pipeline\<close>

text \<open>The reference: each agent gets the answer of the one before, the first error stops.\<close>

definition feed ::
    "'w services \<Rightarrow> jobj \<Rightarrow> (str + str) \<times> 'w \<Rightarrow> (str + str) \<times> 'w" where
  "feed sv cfg s = (case s of
     (Inl e, w) \<Rightarrow> (Inl e, w)
   | (Inr x, w) \<Rightarrow> (case run_agent sv cfg x None w of (r, _, w1) \<Rightarrow> (r, w1)))"

lemma feed_Inr: "run_agent sv cfg x None w = (r, acc, w1) \<Longrightarrow> feed sv cfg (Inr x, w) = (r, w1)"
  by (simp add: feed_def)

lemma feed_Inl [simp]: "feed sv cfg (Inl e, w) = (Inl e, w)"
  by (simp add: feed_def)

lemma fold_feed_Inl [simp]: "fold (feed sv) cfgs (Inl e, w) = (Inl e, w)"
  by (induction cfgs) simp_all

lemma run_stages_fold:
  "(case run_stages sv item i cfgs x w of
      (Inl e, w1) \<Rightarrow> fold (feed sv) cfgs (Inr x, w) = (Inl e, w1)
    | (Inr rs, w1) \<Rightarrow> length rs = length cfgs
        \<and> fold (feed sv) cfgs (Inr x, w) = (Inr (if rs = [] then x else snd (snd (last rs))), w1))"
proof (induction cfgs arbitrary: i x w)
  case Nil
  then show ?case by simp
next
  case (Cons cfg cfgs)
  obtain r acc w1 where r: "run_agent sv cfg x None w = (r, acc, w1)" by (metis prod_cases3)
  show ?case
  proof (cases r)
    case (Inl e)
    then show ?thesis using r by (simp add: feed_Inr)
  next
    case (Inr out)
    then show ?thesis using r Cons.IH [where i = "Suc i" and x = out and w = w1]
      by (auto simp: feed_Inr split: prod.splits sum.splits)
  qed
qed

lemma run_items_one: "run_items sv cfgs [x] w = run_stages sv x 0 cfgs x w"
  by (simp split: prod.split sum.split)

lemma pipeline_default_items:
  "map_of (wp_config p) ''items'' = None \<Longrightarrow> pipeline_items (wp_config p) inp = Some [inp]"
  by (simp add: pipeline_items_def jget_def dict_get_def)

text \<open>
  A pipeline phase without \<open>items\<close> is the composition of its agents: its output is
  the answer of the last one, fed through all in order, and it fails exactly with the first
  error of an agent; on success there is one stage result per agent.\<close>

theorem pipeline_composes:
  assumes "wp_agents p \<noteq> []" and "map_of (wp_config p) ''items'' = None"
  shows "(case exec_pipeline sv p inp w of
      (Inl e, w1) \<Rightarrow> \<exists>msg. e = AgentErr msg
        \<and> fold (feed sv) (wp_agents p) (Inr inp, w) = (Inl msg, w1)
    | (Inr (out, det), w1) \<Rightarrow> (\<exists>rs. det = StageResults rs \<and> length rs = length (wp_agents p))
        \<and> fold (feed sv) (wp_agents p) (Inr inp, w) = (Inr out, w1))"
  using run_stages_fold [where item = inp and i = 0 and x = inp and cfgs = "wp_agents p" and sv = sv and w = w] assms
  by (auto simp: exec_pipeline_def pipeline_default_items run_items_one
      simp del: run_items.simps split: prod.splits sum.splits)

section \<open>Parallel runs\<close>

lemma gather_length: "length (fst (gather sv cs acc w)) = length cs"
proof (induction cs arbitrary: acc w)
  case Nil
  then show ?case by simp
next
  case (Cons c cs)
  then show ?case by (cases c) (simp add: case_prod_beta Let_def)
qed

lemma length_successes: "length (successes rs) \<le> length rs"
  by (induction rs rule: successes.induct) simp_all

lemma record_tokens_empty [simp]: "record_tokens u (Some []) = Some []"
  by (simp add: record_tokens_def)

lemma run_agent_empty_acc: "fst (snd (run_agent sv cfg inp (Some []) w)) = Some []"
  by (auto simp: run_agent_def run_llm_def Let_def split: prod.split graph_reply.split
      chat_reply.split sum.split)

text \<open>No call ever gets a number into an accumulator that starts empty.\<close>

lemma gather_empty_acc: "fst (snd (gather sv cs (Some []) w)) = Some []"
proof (induction cs arbitrary: w)
  case Nil
  then show ?case by simp
next
  case (Cons c cs)
  obtain cfg inp where c: "c = (cfg, inp)" by (cases c)
  obtain r acc w1 where r: "run_agent sv cfg inp (Some []) w = (r, acc, w1)" by (metis prod_cases3)
  then have "acc = Some []" using run_agent_empty_acc [of sv cfg inp w] by simp
  then show ?case using r c Cons.IH [of w1] by (simp add: case_prod_beta)
qed

section \<open>Loop until budget\<close>

lemma budget_loop_exact:
  assumes "budget_loop sv cfgs max_it budget cost s w = (s', w')" and "cfgs \<noteq> []"
  shows "\<exists>n. bl_iter s' = bl_iter s + n \<and> bl_used s' = bl_used s + of_nat n * cost
    \<and> (bl_estimated s' \<longleftrightarrow> bl_estimated s \<or> 0 < n)
    \<and> (\<forall>k < n. of_nat (bl_iter s + k) < max_it \<and> bl_used s + of_nat k * cost < budget)
    \<and> (max_it \<le> of_nat (bl_iter s') \<or> budget \<le> bl_used s')"
  using assms
proof (induction sv cfgs max_it budget cost s w rule: budget_loop.induct)
  case (1 sv cfgs max_it budget cost s w)
  show ?case
  proof (cases "of_nat (bl_iter s) < max_it \<and> bl_used s < budget")
    case False
    then show ?thesis using 1 by (intro exI [of _ 0]) (auto simp: budget_loop.simps)
  next
    case True
    define s1 where "s1 = s\<lparr>bl_iter := bl_iter s + 1\<rparr>"
    obtain outs acc w1 where g: "gather sv (map (\<lambda>cfg. (cfg, bl_input s1)) cfgs) (Some []) w = (outs, acc, w1)"
      by (metis prod_cases3)
    then have acc: "acc = Some []"
      using gather_empty_acc [of sv "map (\<lambda>cfg. (cfg, bl_input s1)) cfgs" w] by simp
    define s2 where "s2 = budget_round cost outs [] s1"
    have s2: "bl_iter s2 = bl_iter s + 1" "bl_used s2 = bl_used s + cost" "bl_estimated s2"
      by (simp_all add: s2_def s1_def budget_round_def Let_def)
    have "budget_loop sv cfgs max_it budget cost s2 w1 = (s', w')"
      using 1(2,3) True g [unfolded s1_def] acc
      by (subst (asm) budget_loop.simps) (simp add: s1_def s2_def)
    then obtain n where n: "bl_iter s' = bl_iter s2 + n" "bl_used s' = bl_used s2 + of_nat n * cost"
        "bl_estimated s'"
        "\<forall>k < n. of_nat (bl_iter s2 + k) < max_it \<and> bl_used s2 + of_nat k * cost < budget"
        "max_it \<le> of_nat (bl_iter s') \<or> budget \<le> bl_used s'"
      using 1(1) [OF True s1_def \<open>cfgs \<noteq> []\<close> g [symmetric] refl] acc s2 1(3)
      by (auto simp: s2_def)
    have "of_nat (bl_iter s + k) < max_it \<and> bl_used s + of_nat k * cost < budget" if "k < Suc n" for k
    proof (cases k)
      case 0
      then show ?thesis using True by simp
    next
      case (Suc j)
      then show ?thesis using n(4) that s2 by (auto simp: algebra_simps)
    qed
    then show ?thesis using n s2 by (intro exI [of _ "Suc n"]) (auto simp: algebra_simps)
  qed
qed

text \<open>
  The budget loop never counts a token that was used. Whatever the agents report, the
  budget it says it used is the start value plus \<open>cost_per_iteration\<close> for each round, it
  says that this is an estimate as soon as there was a round, and the number of rounds is
  determined by the configuration alone: the least at which the iteration cap or the budget
  is reached.\<close>

theorem budget_loop_estimates_only:
  assumes "exec_loop_until_budget sv p inp budget used w = (Inr (out, BudgetResults n spent b est), w')"
    and "wp_agents p \<noteq> []"
  shows "\<exists>max_it cost. conf_num (wp_config p) ''max_iterations'' 50 = Inr max_it
    \<and> conf_num (wp_config p) ''cost_per_iteration'' 5000 = Inr cost
    \<and> spent = used + of_nat n * cost \<and> (est \<longleftrightarrow> 0 < n)
    \<and> (\<forall>k < n. of_nat k < max_it \<and> used + of_nat k * cost < b)
    \<and> (max_it \<le> of_nat n \<or> b \<le> spent)"
proof -
  obtain max_it cost s' where conf: "conf_num (wp_config p) ''max_iterations'' 50 = Inr max_it"
      "conf_num (wp_config p) ''cost_per_iteration'' 5000 = Inr cost"
    and run: "budget_loop sv (wp_agents p) max_it b cost
      \<lparr>bl_iter = 0, bl_used = used, bl_results = [], bl_input = inp, bl_estimated = False\<rparr> w = (s', w')"
    and s': "n = bl_iter s'" "spent = bl_used s'" "est = bl_estimated s'"
    using assms(1)
    by (auto simp: exec_loop_until_budget_def Let_def split: sum.splits prod.splits)
  show ?thesis
    using budget_loop_exact [OF run assms(2)] conf s' by auto
qed

section \<open>Loop until dry\<close>

text \<open>The findings have distinct keys, which are among the keys seen.\<close>

definition dry_ok :: "dry_state \<Rightarrow> bool" where
  "dry_ok s \<longleftrightarrow> distinct (map (take 100) (dr_results s))
     \<and> set (map (take 100) (dr_results s)) \<subseteq> set (dr_seen s)"

lemma take_finding_simps:
  "take 100 out \<in> set seen \<Longrightarrow> take_finding out (seen, fresh) = (seen, fresh)"
  "take 100 out \<notin> set seen \<Longrightarrow> take_finding out (seen, fresh) = (take 100 out # seen, fresh @ [out])"
  by (simp_all add: take_finding_def)

lemma fold_take_finding:
  assumes "fold take_finding outs (seen, fresh) = (seen', fresh')"
  shows "\<exists>new. fresh' = fresh @ new \<and> length new \<le> length outs
    \<and> set seen' = set seen \<union> set (map (take 100) new)
    \<and> distinct (map (take 100) new) \<and> set (map (take 100) new) \<inter> set seen = {}"
  using assms
proof (induction outs arbitrary: seen fresh)
  case Nil
  then show ?case by simp
next
  case (Cons out outs)
  show ?case
  proof (cases "take 100 out \<in> set seen")
    case True
    then have "fold take_finding outs (seen, fresh) = (seen', fresh')"
      using Cons.prems by (simp add: take_finding_simps)
    from Cons.IH [OF this] show ?thesis by auto
  next
    case False
    then have "fold take_finding outs (take 100 out # seen, fresh @ [out]) = (seen', fresh')"
      using Cons.prems by (simp add: take_finding_simps)
    from Cons.IH [OF this] obtain new where "fresh' = fresh @ [out] @ new" "length new \<le> length outs"
      "set seen' = set (take 100 out # seen) \<union> set (map (take 100) new)"
      "distinct (map (take 100) new)" "set (map (take 100) new) \<inter> set (take 100 out # seen) = {}"
      by auto
    then show ?thesis using False by (intro exI [of _ "out # new"]) auto
  qed
qed

lemma dry_round_cases:
  assumes "dry_ok s"
  obtains "dry_round outs s = s\<lparr>dr_dry := dr_dry s + 1\<rparr>"
  | new where "new \<noteq> []" "length new \<le> length outs" "dr_dry (dry_round outs s) = 0"
      "dr_results (dry_round outs s) = dr_results s @ new" "dry_ok (dry_round outs s)"
proof -
  obtain seen fresh where f: "fold take_finding outs (dr_seen s, []) = (seen, fresh)"
    by (metis prod.collapse)
  from fold_take_finding [OF f] have new: "length fresh \<le> length outs"
    "set seen = set (dr_seen s) \<union> set (map (take 100) fresh)"
    "distinct (map (take 100) fresh)" "set (map (take 100) fresh) \<inter> set (dr_seen s) = {}" by auto
  show ?thesis
  proof (cases "fresh = []")
    case True
    then show ?thesis using f that(1) by (simp add: dry_round_def)
  next
    case False
    have "dry_ok (dry_round outs s)"
      using assms new False f by (auto simp: dry_round_def dry_ok_def)
    then show ?thesis using that(2) [OF False new(1)] f False by (simp add: dry_round_def)
  qed
qed

text \<open>Every streak of dry rounds is shorter than the threshold, so findings pay for rounds.\<close>

lemma dry_loop_bounds:
  assumes "dry_loop sv cfgs max_dry max_it s w = (s', w')" and "dry_ok s"
    and "int (dr_iter s) \<le> int (length (dr_results s)) * \<lceil>max_dry\<rceil> + int (dr_dry s)"
    and "int (length (dr_results s)) \<le> int (dr_iter s) * int (length cfgs)"
    and "int (dr_dry s) \<le> max 0 \<lceil>max_dry\<rceil>" and "int (dr_iter s) \<le> max 0 \<lceil>max_it\<rceil>"
  shows "dry_ok s' \<and> int (dr_iter s') \<le> int (length (dr_results s')) * \<lceil>max_dry\<rceil> + max 0 \<lceil>max_dry\<rceil>
    \<and> int (length (dr_results s')) \<le> int (dr_iter s') * int (length cfgs)
    \<and> int (dr_iter s') \<le> max 0 \<lceil>max_it\<rceil>"
  using assms
proof (induction sv cfgs max_dry max_it s w rule: dry_loop.induct)
  case (1 sv cfgs max_dry max_it s w)
  show ?case
  proof (cases "of_nat (dr_dry s) < max_dry \<and> of_nat (dr_iter s) < max_it")
    case False
    then have "s' = s" using 1(2) by (auto simp: dry_loop.simps)
    then show ?thesis using 1(3-) by auto
  next
    case True
    define s1 where "s1 = s\<lparr>dr_iter := dr_iter s + 1\<rparr>"
    have D: "int (dr_dry s) < \<lceil>max_dry\<rceil>" "int (dr_iter s) < \<lceil>max_it\<rceil>"
      using True by (metis less_ceiling_iff of_int_of_nat_eq)+
    show ?thesis
    proof (cases "cfgs = []")
      case True
      then have "s' = s1"
        using 1(2) \<open>_ \<and> _\<close> by (simp add: dry_loop.simps s1_def)
      then show ?thesis using 1(3-) D by (auto simp: s1_def dry_ok_def True)
    next
      case False
      obtain outs acc w1 where g: "gather sv (map (\<lambda>cfg. (cfg, dr_input s1)) cfgs) None w = (outs, acc, w1)"
        by (metis prod_cases3)
      define s2 where "s2 = dry_round (successes outs) s1"
      have len: "length (successes outs) \<le> length cfgs"
        using length_successes [of outs] gather_length [of sv "map (\<lambda>cfg. (cfg, dr_input s1)) cfgs" None w] g
        by simp
      have run: "dry_loop sv cfgs max_dry max_it s2 w1 = (s', w')"
        using 1(2) \<open>_ \<and> _\<close> False g [unfolded s1_def]
        by (subst (asm) dry_loop.simps) (simp add: s1_def s2_def)
      have s1: "dry_ok s1" "dr_iter s1 = dr_iter s + 1" "dr_dry s1 = dr_dry s"
        "dr_results s1 = dr_results s" using 1(3) by (simp_all add: s1_def dry_ok_def)
      note IH = 1(1) [OF \<open>_ \<and> _\<close> s1_def False g [symmetric] refl refl, folded s2_def, OF run]
      from s1(1) show ?thesis
      proof (cases rule: dry_round_cases [where outs = "successes outs"])
        case 1
        then have "s2 = s1\<lparr>dr_dry := dr_dry s + 1\<rparr>" by (simp add: s2_def s1)
        then show ?thesis using IH s1 D "1.prems" by (auto simp: dry_ok_def algebra_simps)
      next
        case (2 new)
        have nn: "0 \<le> \<lceil>max_dry\<rceil> * int (length (tl new))"
          using le_less_trans [OF of_nat_0_le_iff D(1)] by simp
        have "int (dr_iter s) + 1 \<le> int (length (dr_results s)) * \<lceil>max_dry\<rceil> + \<lceil>max_dry\<rceil>"
          using "1.prems" D by simp
        also have "\<dots> \<le> int (length (dr_results s2)) * \<lceil>max_dry\<rceil>"
          using 2 D s1 nn by (cases new) (auto simp: s2_def algebra_simps)
        finally have b1: "int (dr_iter s2) \<le> int (length (dr_results s2)) * \<lceil>max_dry\<rceil> + int (dr_dry s2)"
          by (simp add: s2_def s1 2)
        have b2: "int (length (dr_results s2)) \<le> int (dr_iter s2) * int (length cfgs)"
          using "1.prems" 2 s1 len by (simp add: s2_def algebra_simps)
        show ?thesis by (rule IH) (use 2 b1 b2 D s1 in \<open>auto simp: s2_def\<close>)
      qed
    qed
  qed
qed

text \<open>
  C32: The dry loop ends: after at most \<open>max_iterations\<close> rounds, and after at most
  \<open>dry_threshold\<close> rounds for each finding plus as many. Its output joins the findings,
  whose first hundred characters are pairwise distinct; the reported count is their number,
  at most one per agent and round.\<close>

theorem dry_loop_findings:
  assumes "exec_loop_until_dry sv p inp w = (Inr (out, DryResults n k), w')"
  shows "\<exists>fs max_dry max_it. conf_num (wp_config p) ''dry_threshold'' 2 = Inr max_dry
    \<and> conf_num (wp_config p) ''max_iterations'' 10 = Inr max_it
    \<and> out = py_join blank_line fs \<and> k = length fs \<and> distinct (map (take 100) fs)
    \<and> k \<le> n * length (wp_agents p)
    \<and> int n \<le> max 0 \<lceil>max_it\<rceil> \<and> int n \<le> int k * \<lceil>max_dry\<rceil> + max 0 \<lceil>max_dry\<rceil>"
proof -
  obtain max_dry max_it s' where conf: "conf_num (wp_config p) ''dry_threshold'' 2 = Inr max_dry"
      "conf_num (wp_config p) ''max_iterations'' 10 = Inr max_it"
    and run: "dry_loop sv (wp_agents p) max_dry max_it
      \<lparr>dr_dry = 0, dr_iter = 0, dr_seen = [], dr_results = [], dr_input = inp\<rparr> w = (s', w')"
    and s': "out = py_join blank_line (dr_results s')" "n = dr_iter s'" "k = length (dr_results s')"
    using assms by (auto simp: exec_loop_until_dry_def Let_def split: sum.splits prod.splits)
  have "dry_ok s' \<and> int n \<le> int k * \<lceil>max_dry\<rceil> + max 0 \<lceil>max_dry\<rceil>
      \<and> int k \<le> int n * int (length (wp_agents p)) \<and> int n \<le> max 0 \<lceil>max_it\<rceil>"
    unfolding s' by (rule dry_loop_bounds [OF run]) (simp_all add: dry_ok_def)
  moreover from this have "int k \<le> int (n * length (wp_agents p))" by simp
  then have "k \<le> n * length (wp_agents p)" by (simp only: of_nat_le_iff)
  ultimately show ?thesis using conf s' by (auto simp: dry_ok_def)
qed

section \<open>Adversarial verification\<close>

lemma filter_split_length: "length (filter P xs) + length (filter (\<lambda>x. \<not> P x) xs) = length xs"
  by (induction xs) simp_all

text \<open>
  An adversarial phase asks exactly the configured number of voters; every vote counts
  once, a voter that failed counts as a refutation, the claim passes exactly when the
  surviving share reaches the threshold, and then it is the output, which is otherwise empty.\<close>

theorem verify_counts_votes:
  assumes "exec_adversarial_verify sv p inp w = (Inr (out, VoteResults passes s r vs), w')"
  shows "\<exists>thr. conf_num (wp_config p) ''threshold'' (6 / 10) = Inr thr
    \<and> voter_count (wp_config p) = Inr (length vs) \<and> s + r = length vs
    \<and> r = length (filter fst vs) \<and> (\<forall>v \<in> set vs. snd v \<noteq> None \<longrightarrow> fst v)
    \<and> (passes \<longleftrightarrow> thr * of_nat (max (length vs) 1) \<le> of_nat s)
    \<and> out = (if passes then inp else '''')"
proof -
  obtain n thr votes where n: "voter_count (wp_config p) = Inr n"
    and thr: "conf_num (wp_config p) ''threshold'' (6 / 10) = Inr thr"
    and votes: "votes = fst (gather sv
      (map (\<lambda>i. (voter_cfg (wp_agents p) i, skeptic_prompt i @ inp)) [0..<n]) None w)"
    and res: "vs = map vote_detail votes" "s = length (filter (\<lambda>v. \<not> is_refute v) votes)"
      "r = length (filter is_refute votes)" "passes = (thr \<le> of_nat s / of_nat (max n 1))"
      "out = (if passes then inp else '''')"
    using assms
    by (auto simp: exec_adversarial_verify_def Let_def split: sum.splits prod.splits)
  have len: "length votes = n" by (simp add: votes gather_length)
  have "length (filter fst vs) = r"
    by (simp add: res vote_detail_def filter_map o_def)
  moreover have "\<forall>v \<in> set vs. snd v \<noteq> None \<longrightarrow> fst v"
    by (auto simp: res vote_detail_def is_refute_def split: sum.splits)
  moreover have "passes \<longleftrightarrow> thr * of_nat (max n 1) \<le> of_nat s"
    by (simp add: res(4) pos_le_divide_eq)
  ultimately show ?thesis
    using n thr len res filter_split_length [of is_refute votes] by auto
qed

section \<open>Judge panel\<close>

lemma run_approaches_length:
  "run_approaches sv cfgs inp w = (Inr as, w') \<Longrightarrow> length as = length cfgs"
  by (induction cfgs arbitrary: as w) (fastforce split: prod.splits sum.splits)+

text \<open>
  The output of a judge panel is one of its approaches. The index that is reported is
  the one the judge named, cut at the top only: a negative index counts from the end of the
  list, so it is between minus the number of approaches and that number.\<close>

theorem judge_picks_approach:
  assumes "exec_judge_panel sv p inp w = (Inr (out, PanelResults as i verdict), w')"
  shows "length as = length (wp_agents p) \<and> - int (length as) \<le> i \<and> i < int (length as)
    \<and> out = snd (as ! nat (i mod int (length as)))
    \<and> (\<forall>j. judge_index sv verdict = Inr (JInt j) \<longrightarrow> i = min j (int (length as) - 1))"
proof -
  obtain w1 j name where as: "run_approaches sv (wp_agents p) inp w = (Inr as, w1)"
    and j: "judge_index sv verdict = Inr j" "clamp_index (length as) j = Inr i"
    and out: "py_index as i = Inr (name, out)"
    using assms
    by (auto simp: exec_judge_panel_def bindE_Inr_iff split: if_splits sum.splits prod.splits)
  from out have "(0 \<le> i \<and> i < int (length as) \<and> as ! nat i = (name, out))
      \<or> (i < 0 \<and> - int (length as) \<le> i \<and> as ! nat (int (length as) + i) = (name, out))"
    by (auto simp: py_index_def split: if_splits)
  moreover have "i mod int (length as) = int (length as) + i" if "i < 0" "- int (length as) \<le> i"
  proof -
    have "i mod int (length as) = (i + int (length as)) mod int (length as)" by simp
    also have "\<dots> = i + int (length as)" using that by (intro mod_pos_pos_trivial) simp_all
    finally show ?thesis by simp
  qed
  ultimately show ?thesis
    using run_approaches_length [OF as] j by (auto simp: clamp_index_def)
qed

end
