(* ===== verification/WorkflowRuns.thy ===== *)
theory WorkflowRuns
  imports Workflow
begin

text \<open>
  Workflow definitions and runs: \<open>WorkflowEngine\<close> of \<open>agent_runtime/workflow_engine.py\<close>
  with the two tables it keeps in the agent store. A run is a coroutine; a step of the model
  is what happens between two points at which the coroutine is suspended: waiting for the
  pause event, or inside a phase. A cancellation request is delivered at the next resumption.
  The concurrency semaphore only delays the start of a run and is left out; store errors,
  which the code logs and ignores, too.
\<close>

section \<open>Workflows\<close>

fun pattern_value :: "wf_pattern \<Rightarrow> str" where
  "pattern_value Pipeline = ''pipeline''"
| "pattern_value ParallelBarrier = ''parallel_barrier''"
| "pattern_value LoopUntilDry = ''loop_until_dry''"
| "pattern_value LoopUntilBudget = ''loop_until_budget''"
| "pattern_value AdversarialVerify = ''adversarial_verify''"
| "pattern_value JudgePanel = ''judge_panel''"

definition all_patterns :: "wf_pattern list" where
  "all_patterns = [Pipeline, ParallelBarrier, LoopUntilDry, LoopUntilBudget, AdversarialVerify, JudgePanel]"

definition pattern_of_value :: "str \<Rightarrow> wf_pattern option" where
  "pattern_of_value s = List.find (\<lambda>p. pattern_value p = s) all_patterns"

definition phase_to_dict :: "wf_phase \<Rightarrow> jobj" where
  "phase_to_dict p = [(''name'', JStr (wp_name p)), (''pattern'', JStr (pattern_value (wp_pattern p))),
     (''agent_configs'', JList (map JObj (wp_agents p))), (''config'', JObj (wp_config p))]"

text \<open>None: a field of another type. \<open>Inl ValueError\<close>: an unknown pattern.\<close>

definition phase_from_dict :: "jobj \<Rightarrow> (py_exn + wf_phase) option" where
  "phase_from_dict d = do {
     name \<leftarrow> field as_str d ''name'' '''';
     pat \<leftarrow> field as_str d ''pattern'' ''pipeline'';
     agents \<leftarrow> field as_objs d ''agent_configs'' [];
     conf \<leftarrow> field as_obj d ''config'' [];
     Some (case pattern_of_value pat of
         None \<Rightarrow> Inl ValueError
       | Some p \<Rightarrow> Inr \<lparr>wp_name = name, wp_pattern = p, wp_agents = agents, wp_config = conf\<rparr>)
   }"

record workflow =
  wf_id :: str
  wf_name :: str
  wf_phases :: "wf_phase list"
  wf_input_schema :: jobj
  wf_output_schema :: jobj
  wf_created_at :: pyfloat
  wf_metadata :: jobj

text \<open>\<open>__post_init__\<close> draws an id and a creation time where they are missing.\<close>

definition workflow_init :: "str \<Rightarrow> pyfloat \<Rightarrow> workflow \<Rightarrow> workflow" where
  "workflow_init uid now flow = flow\<lparr>wf_id := (if wf_id flow = [] then ''wf_'' @ uid else wf_id flow),
     wf_created_at := (if wf_created_at flow = 0 then now else wf_created_at flow)\<rparr>"

definition workflow_to_dict :: "workflow \<Rightarrow> jobj" where
  "workflow_to_dict flow = [(''id'', JStr (wf_id flow)), (''name'', JStr (wf_name flow)),
     (''phases'', JList (map (JObj \<circ> phase_to_dict) (wf_phases flow))),
     (''input_schema'', JObj (wf_input_schema flow)), (''output_schema'', JObj (wf_output_schema flow)),
     (''created_at'', JFloat (wf_created_at flow)), (''metadata'', JObj (wf_metadata flow))]"

fun phases_from :: "jobj list \<Rightarrow> (py_exn + wf_phase list) option" where
  "phases_from [] = Some (Inr [])"
| "phases_from (d # ds) = do {
     p \<leftarrow> phase_from_dict d;
     case p of
       Inl e \<Rightarrow> Some (Inl e)
     | Inr ph \<Rightarrow> do { ps \<leftarrow> phases_from ds; Some (bindE ps (\<lambda>phs. Inr (ph # phs))) }
   }"

definition workflow_from_dict :: "str \<Rightarrow> pyfloat \<Rightarrow> jobj \<Rightarrow> (py_exn + workflow) option" where
  "workflow_from_dict uid now d = do {
     ds \<leftarrow> field as_objs d ''phases'' [];
     phases \<leftarrow> phases_from ds;
     wid \<leftarrow> field as_str d ''id'' '''';
     name \<leftarrow> field as_str d ''name'' '''';
     inp \<leftarrow> field as_obj d ''input_schema'' [];
     out \<leftarrow> field as_obj d ''output_schema'' [];
     created \<leftarrow> field as_num d ''created_at'' 0;
     meta \<leftarrow> field as_obj d ''metadata'' [];
     Some (bindE phases (\<lambda>ps. Inr (workflow_init uid now
       \<lparr>wf_id = wid, wf_name = name, wf_phases = ps, wf_input_schema = inp,
        wf_output_schema = out, wf_created_at = created, wf_metadata = meta\<rparr>)))
   }"

section \<open>Runs\<close>

datatype wf_status = WfPending | WfRunning | WfPaused | WfCompleted | WfFailed | WfCancelled

record wf_final =
  wn_output :: str
  wn_phases :: "phase_result list"
  wn_total :: nat
  wn_tokens :: pyfloat

text \<open>\<open>wr_go\<close> is the state of the pause event: set (True) or cleared.\<close>

record wf_run =
  wr_id :: str
  wr_workflow :: str
  wr_status :: wf_status
  wr_current :: nat
  wr_results :: "phase_result list"
  wr_final :: "wf_final option"
  wr_created_at :: pyfloat
  wr_started_at :: pyfloat
  wr_finished_at :: pyfloat
  wr_error :: str
  wr_metadata :: jobj
  wr_go :: bool
  wr_cancel :: bool

definition new_run :: "str \<Rightarrow> pyfloat \<Rightarrow> str \<Rightarrow> wf_run" where
  "new_run uid now wid = \<lparr>wr_id = ''wf_run_'' @ uid, wr_workflow = wid, wr_status = WfRunning,
     wr_current = 0, wr_results = [], wr_final = None, wr_created_at = now, wr_started_at = now,
     wr_finished_at = 0, wr_error = '''', wr_metadata = [], wr_go = True, wr_cancel = False\<rparr>"

text \<open>
  The stored document of a run holds everything but the control signals: what is loaded
  again is the run with the pause event set and no cancel flag.
\<close>

definition run_document :: "wf_run \<Rightarrow> wf_run" where
  "run_document r = r\<lparr>wr_go := True, wr_cancel := False\<rparr>"

text \<open>
  The coroutine of a run: the local variables of \<open>_execute_phases\<close>, where it is
  suspended, and whether \<open>task.cancel()\<close> was called.
\<close>

datatype wf_place = WaitingToGo | InPhase

record wf_task =
  tk_place :: wf_place
  tk_workflow :: workflow
  tk_idx :: nat
  tk_input :: str
  tk_results :: "phase_result list"
  tk_tokens :: pyfloat
  tk_budget :: "int option"
  tk_cancelled :: bool

record wf_store =
  wd_workflows :: "(str, workflow) dict"
  wd_runs :: "(str, wf_run) dict"

record wf_engine =
  we_workflows :: "(str, workflow) dict"
  we_runs :: "(str, wf_run) dict"
  we_tasks :: "(str, wf_task) dict"
  we_store :: "wf_store option"

definition engine_init :: "wf_store option \<Rightarrow> wf_engine" where
  "engine_init st = \<lparr>we_workflows = [], we_runs = [], we_tasks = [], we_store = st\<rparr>"

subsection \<open>Workflows of an engine\<close>

definition put_workflow :: "workflow \<Rightarrow> wf_engine \<Rightarrow> wf_engine" where
  "put_workflow flow e = e\<lparr>we_workflows := AList.update (wf_id flow) flow (we_workflows e),
     we_store := map_option (\<lambda>st. st\<lparr>wd_workflows := AList.update (wf_id flow) flow (wd_workflows st)\<rparr>)
       (we_store e)\<rparr>"

definition create_workflow ::
    "str \<Rightarrow> pyfloat \<Rightarrow> str \<Rightarrow> jobj list \<Rightarrow> jobj \<Rightarrow> jobj \<Rightarrow> jobj \<Rightarrow> wf_engine
      \<Rightarrow> ((py_exn + workflow) \<times> wf_engine) option" where
  "create_workflow uid now name phases inp out meta e = map_option (\<lambda>ps. case ps of
       Inl x \<Rightarrow> (Inl x, e)
     | Inr phs \<Rightarrow>
        (let flow = workflow_init uid now \<lparr>wf_id = '''', wf_name = name, wf_phases = phs,
              wf_input_schema = inp, wf_output_schema = out, wf_created_at = 0, wf_metadata = meta\<rparr>
         in (Inr flow, put_workflow flow e))) (phases_from phases)"

definition get_workflow :: "str \<Rightarrow> wf_engine \<Rightarrow> workflow option \<times> wf_engine" where
  "get_workflow wid e = (case map_of (we_workflows e) wid of
     Some flow \<Rightarrow> (Some flow, e)
   | None \<Rightarrow> (case we_store e of
        None \<Rightarrow> (None, e)
      | Some st \<Rightarrow> (case map_of (wd_workflows st) wid of
           None \<Rightarrow> (None, e)
         | Some flow \<Rightarrow> (Some flow, e\<lparr>we_workflows := AList.update wid flow (we_workflows e)\<rparr>))))"

definition delete_workflow :: "str \<Rightarrow> wf_engine \<Rightarrow> bool \<times> wf_engine" where
  "delete_workflow wid e =
     (map_of (we_workflows e) wid \<noteq> None
        \<or> (case we_store e of None \<Rightarrow> False | Some st \<Rightarrow> map_of (wd_workflows st) wid \<noteq> None),
      e\<lparr>we_workflows := AList.delete wid (we_workflows e),
        we_store := map_option (\<lambda>st. st\<lparr>wd_workflows := AList.delete wid (wd_workflows st)\<rparr>)
          (we_store e)\<rparr>)"

subsection \<open>Runs of an engine\<close>

definition put_run :: "wf_run \<Rightarrow> wf_engine \<Rightarrow> wf_engine" where
  "put_run r e = e\<lparr>we_runs := AList.update (wr_id r) r (we_runs e)\<rparr>"

definition persist_run :: "wf_run \<Rightarrow> wf_engine \<Rightarrow> wf_engine" where
  "persist_run r e = e\<lparr>we_store := map_option
     (\<lambda>st. st\<lparr>wd_runs := AList.update (wr_id r) (run_document r) (wd_runs st)\<rparr>) (we_store e)\<rparr>"

definition restore_run :: "str \<Rightarrow> wf_engine \<Rightarrow> wf_run option \<times> wf_engine" where
  "restore_run rid e = (case map_of (we_runs e) rid of
     Some r \<Rightarrow> (Some r, e)
   | None \<Rightarrow> (case we_store e of
        None \<Rightarrow> (None, e)
      | Some st \<Rightarrow> (case map_of (wd_runs st) rid of
           None \<Rightarrow> (None, e)
         | Some r \<Rightarrow> (Some r, e\<lparr>we_runs := AList.update rid r (we_runs e)\<rparr>))))"

definition set_task :: "str \<Rightarrow> wf_task \<Rightarrow> wf_engine \<Rightarrow> wf_engine" where
  "set_task rid t e = e\<lparr>we_tasks := AList.update rid t (we_tasks e)\<rparr>"

text \<open>The end of \<open>_execute_workflow_inner\<close>: the task goes, the run is stored.\<close>

definition finish_run :: "wf_run \<Rightarrow> wf_engine \<Rightarrow> wf_engine" where
  "finish_run r e = persist_run r (put_run r (e\<lparr>we_tasks := AList.delete (wr_id r) (we_tasks e)\<rparr>))"

definition complete_run :: "pyfloat \<Rightarrow> wf_task \<Rightarrow> wf_run \<Rightarrow> wf_run" where
  "complete_run now t r = r\<lparr>wr_status := WfCompleted, wr_finished_at := now,
     wr_final := Some \<lparr>wn_output = tk_input t, wn_phases = tk_results t,
       wn_total = length (wf_phases (tk_workflow t)), wn_tokens = tk_tokens t\<rparr>\<rparr>"

definition cancel_done :: "pyfloat \<Rightarrow> wf_run \<Rightarrow> wf_run" where
  "cancel_done now r = r\<lparr>wr_status := WfCancelled, wr_finished_at := now\<rparr>"

definition fail_run :: "pyfloat \<Rightarrow> str \<Rightarrow> wf_run \<Rightarrow> wf_run" where
  "fail_run now msg r = r\<lparr>wr_status := WfFailed, wr_error := msg, wr_finished_at := now\<rparr>"

text \<open>
  The loop of \<open>_execute_phases\<close> from its head to the next suspension point. A phase is
  entered once the pause event is set; the cancel flag is looked at before the wait only.
\<close>

definition enter_phase :: "wf_task \<Rightarrow> wf_run \<Rightarrow> wf_engine \<Rightarrow> wf_engine" where
  "enter_phase t r e =
     set_task (wr_id r) (t\<lparr>tk_place := InPhase\<rparr>) (put_run (r\<lparr>wr_current := tk_idx t\<rparr>) e)"

definition loop_head :: "pyfloat \<Rightarrow> wf_task \<Rightarrow> wf_run \<Rightarrow> wf_engine \<Rightarrow> wf_engine" where
  "loop_head now t r e =
     (if length (wf_phases (tk_workflow t)) \<le> tk_idx t then finish_run (complete_run now t r) e
      else if wr_cancel r then finish_run (cancel_done now r) e
      else if \<not> wr_go r then set_task (wr_id r) (t\<lparr>tk_place := WaitingToGo\<rparr>) (put_run r e)
      else enter_phase t r e)"

definition execute_workflow ::
    "str \<Rightarrow> pyfloat \<Rightarrow> str \<Rightarrow> str \<Rightarrow> int option \<Rightarrow> wf_engine \<Rightarrow> (py_exn + str) \<times> wf_engine" where
  "execute_workflow uid now wid inp budget e =
     (case get_workflow wid e of
        (None, e1) \<Rightarrow> (Inl ValueError, e1)
      | (Some flow, e1) \<Rightarrow>
         (let r = new_run uid now wid;
              t = \<lparr>tk_place = InPhase, tk_workflow = flow, tk_idx = 0, tk_input = inp, tk_results = [],
                   tk_tokens = 0, tk_budget = budget, tk_cancelled = False\<rparr>
          in (Inr (wr_id r), loop_head now t r (persist_run r (put_run r e1)))))"

text \<open>Resumptions: the pause event was set, the phase has returned, the cancellation arrives.\<close>

definition wake_run :: "str \<Rightarrow> wf_engine \<Rightarrow> wf_engine" where
  "wake_run rid e = (case (map_of (we_tasks e) rid, map_of (we_runs e) rid) of
     (Some t, Some r) \<Rightarrow>
       if tk_place t = WaitingToGo \<and> \<not> tk_cancelled t \<and> wr_go r then enter_phase t r e else e
   | _ \<Rightarrow> e)"

definition phase_failure :: "wf_phase \<Rightarrow> phase_result \<Rightarrow> str option" where
  "phase_failure p res =
     (case pr_error res of
        None \<Rightarrow> None
      | Some msg \<Rightarrow>
          if msg \<noteq> [] \<and> \<not> truthy (jget (wp_config p) ''continue_on_error'' JNull)
          then Some (''Phase '' @ [CHR 0x27] @ wp_name p @ [CHR 0x27] @ '' failed: '' @ msg) else None)"

text \<open>\<open>result.get("tokens", 0)\<close>.\<close>

definition result_tokens :: "phase_result \<Rightarrow> pyfloat" where
  "result_tokens res = (case num_of (jget (result_doc res) ''tokens'' (JInt 0)) of
     None \<Rightarrow> 0 | Some q \<Rightarrow> q)"

definition after_phase :: "phase_result \<Rightarrow> wf_task \<Rightarrow> wf_task" where
  "after_phase res t = t\<lparr>tk_idx := tk_idx t + 1, tk_results := tk_results t @ [res],
     tk_input := (if pr_output res \<noteq> [] then pr_output res else tk_input t),
     tk_tokens := tk_tokens t + result_tokens res\<rparr>"

definition phase_done ::
    "'w services \<Rightarrow> pyfloat \<Rightarrow> str \<Rightarrow> wf_engine \<times> 'w \<Rightarrow> wf_engine \<times> 'w" where
  "phase_done sv now rid s = (case s of (e, w) \<Rightarrow>
     (case (map_of (we_tasks e) rid, map_of (we_runs e) rid) of
        (Some t, Some r) \<Rightarrow>
          if tk_place t = InPhase \<and> \<not> tk_cancelled t then
            (let p = wf_phases (tk_workflow t) ! tk_idx t;
                 (res, w1) = exec_phase sv p (tk_input t) (tk_budget t) (tk_tokens t) w;
                 r1 = r\<lparr>wr_results := wr_results r @ [res]\<rparr>;
                 e1 = persist_run r1 (put_run r1 e)
             in (case phase_failure p res of
                   Some msg \<Rightarrow> finish_run (fail_run now msg r1) e1
                 | None \<Rightarrow> loop_head now (after_phase res t) r1 e1, w1))
          else s
      | _ \<Rightarrow> s))"

definition deliver_cancel :: "pyfloat \<Rightarrow> str \<Rightarrow> wf_engine \<Rightarrow> wf_engine" where
  "deliver_cancel now rid e = (case (map_of (we_tasks e) rid, map_of (we_runs e) rid) of
     (Some t, Some r) \<Rightarrow> if tk_cancelled t then finish_run (cancel_done now r) e else e
   | _ \<Rightarrow> e)"

text \<open>The operations of the RPC surface.\<close>

definition pause_run :: "str \<Rightarrow> wf_engine \<Rightarrow> bool \<times> wf_engine" where
  "pause_run rid e = (case restore_run rid e of
     (Some r, e1) \<Rightarrow>
       if wr_status r \<noteq> WfRunning then (False, e1)
       else let r1 = r\<lparr>wr_go := False, wr_status := WfPaused\<rparr>
            in (True, persist_run r1 (put_run r1 e1))
   | (None, e1) \<Rightarrow> (False, e1))"

definition resume_run :: "str \<Rightarrow> wf_engine \<Rightarrow> bool \<times> wf_engine" where
  "resume_run rid e = (case restore_run rid e of
     (Some r, e1) \<Rightarrow>
       if wr_status r \<noteq> WfPaused then (False, e1)
       else let r1 = r\<lparr>wr_go := True, wr_status := WfRunning\<rparr>
            in (True, persist_run r1 (put_run r1 e1))
   | (None, e1) \<Rightarrow> (False, e1))"

definition cancel_run :: "pyfloat \<Rightarrow> str \<Rightarrow> wf_engine \<Rightarrow> bool \<times> wf_engine" where
  "cancel_run now rid e = (case restore_run rid e of
     (Some r, e1) \<Rightarrow>
       if wr_status r \<notin> {WfRunning, WfPaused} then (False, e1)
       else let r1 = r\<lparr>wr_cancel := True, wr_go := (wr_go r \<or> wr_status r = WfPaused),
                      wr_status := WfCancelled, wr_finished_at := now\<rparr>;
                e2 = put_run r1 e1;
                e3 = (case map_of (we_tasks e2) rid of
                        None \<Rightarrow> e2 | Some t \<Rightarrow> set_task rid (t\<lparr>tk_cancelled := True\<rparr>) e2)
            in (True, persist_run r1 e3)
   | (None, e1) \<Rightarrow> (False, e1))"

definition get_run_status :: "str \<Rightarrow> wf_engine \<Rightarrow> wf_run option \<times> wf_engine" where
  "get_run_status rid e = restore_run rid e"

text \<open>The process is restarted: only the store is left.\<close>

definition restart_engine :: "wf_engine \<Rightarrow> wf_engine" where
  "restart_engine e = engine_init (we_store e)"

text \<open>
  Listings go through the same look-up, row by row, newest row first (rows are created at
  increasing times), so they fill the memory of the engine.
\<close>

fun look_all :: "(str \<Rightarrow> wf_engine \<Rightarrow> 'a option \<times> wf_engine) \<Rightarrow> str list \<Rightarrow> wf_engine \<Rightarrow> 'a list \<times> wf_engine" where
  "look_all f [] e = ([], e)"
| "look_all f (k # ks) e =
     (let (r, e1) = f k e; (rs, e2) = look_all f ks e1
      in ((case r of None \<Rightarrow> rs | Some x \<Rightarrow> x # rs), e2))"

definition list_workflows :: "wf_engine \<Rightarrow> workflow list \<times> wf_engine" where
  "list_workflows e = (case we_store e of
     None \<Rightarrow> (map snd (we_workflows e), e)
   | Some st \<Rightarrow> look_all get_workflow (rev (map fst (wd_workflows st))) e)"

definition of_workflow :: "str \<Rightarrow> wf_run \<Rightarrow> bool" where
  "of_workflow wid r \<longleftrightarrow> wid = [] \<or> wr_workflow r = wid"

definition list_runs :: "str \<Rightarrow> wf_engine \<Rightarrow> wf_run list \<times> wf_engine" where
  "list_runs wid e = (case we_store e of
     None \<Rightarrow> (filter (of_workflow wid) (map snd (we_runs e)), e)
   | Some st \<Rightarrow>
       look_all restore_run (map fst (filter (\<lambda>(_, r). of_workflow wid r) (rev (wd_runs st)))) e)"

end
