(* ===== verification/WorkflowProps.thy ===== *)
theory WorkflowProps
  imports PhaseProps WorkflowRuns
begin

text \<open>
  Documents of workflows, and the life of a run: an invariant of the engine over all
  interleavings of running phases, pause, resume, cancellation and restart, from which
  follow what a completed run holds, that terminal runs are final, what a restart keeps,
  and that a run that was in progress at a restart never goes on.
\<close>

section \<open>Documents\<close>

lemma pattern_roundtrip [simp]: "pattern_of_value (pattern_value p) = Some p"
  by (cases p) (simp_all add: pattern_of_value_def all_patterns_def)

lemma phase_roundtrip [simp]: "phase_from_dict (phase_to_dict p) = Some (Inr p)"
  by (simp add: phase_from_dict_def phase_to_dict_def)

lemma phase_bad_pattern:
  "pattern_of_value pat = None \<Longrightarrow> phase_from_dict [(''pattern'', JStr pat)] = Some (Inl ValueError)"
  by (simp add: phase_from_dict_def)

lemma phases_roundtrip [simp]: "phases_from (map phase_to_dict ps) = Some (Inr ps)"
  by (induction ps) simp_all

lemma workflow_init_id [simp]:
  "wf_id flow \<noteq> [] \<Longrightarrow> wf_created_at flow \<noteq> 0 \<Longrightarrow> workflow_init uid now flow = flow"
  by (simp add: workflow_init_def)

text \<open>
  A workflow that was created (it has an id and a creation time) is read back from its
  document as it was; a document with an unknown phase pattern is refused with ValueError.\<close>

theorem workflow_roundtrip:
  assumes "wf_id flow \<noteq> []" and "wf_created_at flow \<noteq> 0"
  shows "workflow_from_dict uid now (workflow_to_dict flow) = Some (Inr flow)
    \<and> (pattern_of_value pat = None \<longrightarrow>
        phases_from [phase_to_dict p, [(''pattern'', JStr pat)]] = Some (Inl ValueError))"
proof -
  have "map (JObj \<circ> phase_to_dict) ps = map JObj (map phase_to_dict ps)" for ps by simp
  then show ?thesis
    using assms by (simp add: workflow_from_dict_def workflow_to_dict_def phase_bad_pattern
        del: map_map)
qed

section \<open>Steps\<close>

abbreviation run_at :: "wf_engine \<Rightarrow> str \<Rightarrow> wf_run option" where
  "run_at e \<equiv> map_of (we_runs e)"

abbreviation task_at :: "wf_engine \<Rightarrow> str \<Rightarrow> wf_task option" where
  "task_at e \<equiv> map_of (we_tasks e)"

definition doc_at :: "wf_engine \<Rightarrow> str \<Rightarrow> wf_run option" where
  "doc_at e = (case we_store e of None \<Rightarrow> Map.empty | Some st \<Rightarrow> map_of (wd_runs st))"

inductive wf_step :: "'w services \<Rightarrow> wf_engine \<times> 'w \<Rightarrow> wf_engine \<times> 'w \<Rightarrow> bool" for sv where
  start: "run_at e (''wf_run_'' @ uid) = None \<Longrightarrow> doc_at e (''wf_run_'' @ uid) = None \<Longrightarrow>
    wf_step sv (e, w) (snd (execute_workflow uid now wid inp budget e), w)"
| wake: "wf_step sv (e, w) (wake_run rid e, w)"
| phase: "wf_step sv (e, w) (phase_done sv now rid (e, w))"
| interrupt: "wf_step sv (e, w) (deliver_cancel now rid e, w)"
| pause: "wf_step sv (e, w) (snd (pause_run rid e), w)"
| resume: "wf_step sv (e, w) (snd (resume_run rid e), w)"
| cancel: "wf_step sv (e, w) (snd (cancel_run now rid e), w)"
| status: "wf_step sv (e, w) (snd (get_run_status rid e), w)"
| create: "create_workflow uid now name phases a b c e = Some (r, e') \<Longrightarrow> wf_step sv (e, w) (e', w)"
| forget: "wf_step sv (e, w) (snd (delete_workflow wid e), w)"
| restart: "wf_step sv (e, w) (restart_engine e, w)"

abbreviation wf_steps :: "'w services \<Rightarrow> wf_engine \<times> 'w \<Rightarrow> wf_engine \<times> 'w \<Rightarrow> bool" where
  "wf_steps sv \<equiv> (wf_step sv)\<^sup>*\<^sup>*"

section \<open>Invariant\<close>

definition run_ok :: "wf_run \<Rightarrow> bool" where
  "run_ok r \<longleftrightarrow> (wr_status r = WfCompleted \<longrightarrow> (\<exists>f. wr_final r = Some f
     \<and> wn_phases f = wr_results r \<and> length (wr_results r) = wn_total f \<and> wn_tokens f = 0))"

definition task_ok :: "wf_task \<Rightarrow> wf_run \<Rightarrow> bool" where
  "task_ok t r \<longleftrightarrow>
     (if tk_cancelled t then wr_status r = WfCancelled
      else wr_status r \<in> {WfRunning, WfPaused} \<and> \<not> wr_cancel r \<and> (wr_go r \<longleftrightarrow> wr_status r = WfRunning))
     \<and> wr_results r = tk_results t \<and> length (tk_results t) = tk_idx t
     \<and> tk_idx t < length (wf_phases (tk_workflow t)) \<and> tk_tokens t = 0
     \<and> map pr_phase (tk_results t) = map wp_name (take (tk_idx t) (wf_phases (tk_workflow t)))"

definition same_run :: "wf_run \<Rightarrow> wf_run \<Rightarrow> bool" where
  "same_run d r \<longleftrightarrow> wr_status d = wr_status r \<and> wr_results d = wr_results r
     \<and> wr_final d = wr_final r \<and> wr_error d = wr_error r"

definition slot_ok :: "bool \<Rightarrow> str \<Rightarrow> wf_run option \<Rightarrow> wf_task option \<Rightarrow> wf_run option \<Rightarrow> bool" where
  "slot_ok stored rid ro to so \<longleftrightarrow>
     (\<forall>r. ro = Some r \<longrightarrow> wr_id r = rid \<and> run_ok r \<and> (stored \<longrightarrow> (\<exists>d. so = Some d \<and> same_run d r)))
     \<and> (\<forall>d. so = Some d \<longrightarrow> wr_id d = rid \<and> run_ok d)
     \<and> (\<forall>t. to = Some t \<longrightarrow> (\<exists>r. ro = Some r \<and> task_ok t r))"

definition engine_ok :: "wf_engine \<Rightarrow> bool" where
  "engine_ok e \<longleftrightarrow> (\<forall>rid. slot_ok (we_store e \<noteq> None) rid (run_at e rid) (task_at e rid) (doc_at e rid))"

lemma engine_parts [simp]:
  "we_runs (put_run r e) = AList.update (wr_id r) r (we_runs e)"
  "we_tasks (put_run r e) = we_tasks e" "we_store (put_run r e) = we_store e"
  "we_runs (persist_run r e) = we_runs e" "we_tasks (persist_run r e) = we_tasks e"
  "we_runs (set_task rid t e) = we_runs e" "we_store (set_task rid t e) = we_store e"
  "we_tasks (set_task rid t e) = AList.update rid t (we_tasks e)"
  "we_store (persist_run r e) = None \<longleftrightarrow> we_store e = None"
  by (simp_all add: put_run_def persist_run_def set_task_def)

lemma doc_at_parts [simp]:
  "doc_at (put_run r e) = doc_at e" "doc_at (set_task rid t e) = doc_at e"
  "doc_at (persist_run r e) =
     (if we_store e = None then doc_at e else (doc_at e)(wr_id r \<mapsto> run_document r))"
  by (auto simp: doc_at_def put_run_def set_task_def persist_run_def split: option.split)

lemma run_document_parts [simp]:
  "wr_id (run_document r) = wr_id r" "run_ok (run_document r) = run_ok r"
  "same_run (run_document r) r"
  by (simp_all add: run_document_def run_ok_def same_run_def)

lemma engine_okD:
  assumes "engine_ok e"
  shows "run_at e rid = Some r \<Longrightarrow> wr_id r = rid" "run_at e rid = Some r \<Longrightarrow> run_ok r"
    "doc_at e rid = Some d \<Longrightarrow> wr_id d = rid" "doc_at e rid = Some d \<Longrightarrow> run_ok d"
    "run_at e rid = Some r \<Longrightarrow> we_store e \<noteq> None \<Longrightarrow> \<exists>d. doc_at e rid = Some d \<and> same_run d r"
    "task_at e rid = Some t \<Longrightarrow> run_at e rid = Some r \<Longrightarrow> task_ok t r"
    "task_at e rid = Some t \<Longrightarrow> run_at e rid \<noteq> None"
proof -
  have *: "slot_ok (we_store e \<noteq> None) rid (run_at e rid) (task_at e rid) (doc_at e rid)"
    using assms by (simp add: engine_ok_def)
  show "run_at e rid = Some r \<Longrightarrow> wr_id r = rid" "run_at e rid = Some r \<Longrightarrow> run_ok r"
    "doc_at e rid = Some d \<Longrightarrow> wr_id d = rid" "doc_at e rid = Some d \<Longrightarrow> run_ok d"
    "run_at e rid = Some r \<Longrightarrow> we_store e \<noteq> None \<Longrightarrow> \<exists>d. doc_at e rid = Some d \<and> same_run d r"
    "task_at e rid = Some t \<Longrightarrow> run_at e rid = Some r \<Longrightarrow> task_ok t r"
    "task_at e rid = Some t \<Longrightarrow> run_at e rid \<noteq> None"
    using * by (auto simp: slot_ok_def)
qed

text \<open>An operation on one run only has to keep the slot of that run.\<close>

lemma engine_ok_slot:
  assumes "engine_ok e" and "we_store e' = None \<longleftrightarrow> we_store e = None"
    and "\<And>j. j \<noteq> rid \<Longrightarrow> run_at e' j = run_at e j \<and> task_at e' j = task_at e j \<and> doc_at e' j = doc_at e j"
    and "slot_ok (we_store e \<noteq> None) rid (run_at e' rid) (task_at e' rid) (doc_at e' rid)"
  shows "engine_ok e'"
  unfolding engine_ok_def
proof
  fix j
  show "slot_ok (we_store e' \<noteq> None) j (run_at e' j) (task_at e' j) (doc_at e' j)"
    using assms by (cases "j = rid") (auto simp: engine_ok_def)
qed

text \<open>Two engines that agree on everything but one run.\<close>

definition agree_off :: "str \<Rightarrow> wf_engine \<Rightarrow> wf_engine \<Rightarrow> bool" where
  "agree_off rid e0 e \<longleftrightarrow> (we_store e = None \<longleftrightarrow> we_store e0 = None)
     \<and> (\<forall>j. j \<noteq> rid \<longrightarrow> run_at e j = run_at e0 j \<and> task_at e j = task_at e0 j \<and> doc_at e j = doc_at e0 j)"

lemma agree_off_refl [simp]: "agree_off rid e e"
  by (simp add: agree_off_def)

lemma agree_off_put [simp]: "wr_id r = rid \<Longrightarrow> agree_off rid e0 (put_run r e) = agree_off rid e0 e"
  by (auto simp: agree_off_def)

lemma agree_off_persist [simp]:
  "wr_id r = rid \<Longrightarrow> agree_off rid e0 (persist_run r e) = agree_off rid e0 e"
  by (auto simp: agree_off_def)

lemma agree_off_set_task [simp]: "agree_off rid e0 (set_task rid t e) = agree_off rid e0 e"
  by (auto simp: agree_off_def)

lemma agree_off_drop_task [simp]:
  "agree_off rid e0 (e\<lparr>we_tasks := AList.delete rid (we_tasks e)\<rparr>) = agree_off rid e0 e"
  by (auto simp: agree_off_def doc_at_def)

lemma engine_ok_agree:
  assumes "engine_ok e0" and "agree_off rid e0 e"
    and "slot_ok (we_store e0 \<noteq> None) rid (run_at e rid) (task_at e rid) (doc_at e rid)"
  shows "engine_ok e"
  by (rule engine_ok_slot [OF assms(1), where rid = rid])
    (use assms(2,3) in \<open>auto simp: agree_off_def\<close>)

lemma doc_at_drop_task [simp]: "doc_at (e\<lparr>we_tasks := ts\<rparr>) = doc_at e"
  by (simp add: doc_at_def)

lemma doc_at_no_store [simp]: "we_store e = None \<Longrightarrow> doc_at e = Map.empty"
  by (simp add: doc_at_def)

lemma engine_ok_doc:
  assumes "engine_ok e" and "run_at e rid = Some r"
  shows "doc_at e rid = Some d \<Longrightarrow> wr_id d = rid \<and> run_ok d \<and> same_run d r"
    and "we_store e \<noteq> None \<Longrightarrow> doc_at e rid \<noteq> None"
proof -
  show "doc_at e rid = Some d \<Longrightarrow> wr_id d = rid \<and> run_ok d \<and> same_run d r"
    using engine_okD(3,4) [OF assms(1)] engine_okD(5) [OF assms] by (cases "we_store e") auto
  show "we_store e \<noteq> None \<Longrightarrow> doc_at e rid \<noteq> None"
    using engine_okD(5) [OF assms] by auto
qed

lemma finish_run_ok:
  assumes "engine_ok e0" "agree_off rid e0 e" "wr_id r = rid" "run_ok r"
  shows "engine_ok (finish_run r e)"
proof (rule engine_ok_agree [OF assms(1)])
  show "agree_off rid e0 (finish_run r e)" using assms by (simp add: finish_run_def)
  have "we_store e = None \<longleftrightarrow> we_store e0 = None" using assms(2) by (simp add: agree_off_def)
  then show "slot_ok (we_store e0 \<noteq> None) rid (run_at (finish_run r e) rid)
      (task_at (finish_run r e) rid) (doc_at (finish_run r e) rid)"
    using assms by (auto simp: slot_ok_def finish_run_def)
qed

text \<open>A run with its task, in memory and in the store.\<close>

lemma place_ok:
  assumes "engine_ok e0" "agree_off rid e0 e" "wr_id r = rid" "run_ok r" "task_ok t r"
    and "\<And>d. doc_at e rid = Some d \<Longrightarrow> wr_id d = rid \<and> run_ok d \<and> same_run d r"
    and "we_store e0 \<noteq> None \<Longrightarrow> doc_at e rid \<noteq> None"
  shows "engine_ok (set_task rid t (put_run r e))"
  by (rule engine_ok_agree [OF assms(1)])
    (use assms in \<open>auto simp: slot_ok_def\<close>)

definition head_ok :: "wf_task \<Rightarrow> wf_run \<Rightarrow> bool" where
  "head_ok t r \<longleftrightarrow> \<not> tk_cancelled t \<and> wr_status r \<in> {WfRunning, WfPaused} \<and> \<not> wr_cancel r
     \<and> (wr_go r \<longleftrightarrow> wr_status r = WfRunning)
     \<and> wr_results r = tk_results t \<and> length (tk_results t) = tk_idx t
     \<and> tk_idx t \<le> length (wf_phases (tk_workflow t)) \<and> tk_tokens t = 0
     \<and> map pr_phase (tk_results t) = map wp_name (take (tk_idx t) (wf_phases (tk_workflow t)))"

lemma head_ok_task:
  "head_ok t r \<Longrightarrow> tk_idx t < length (wf_phases (tk_workflow t)) \<Longrightarrow>
    task_ok (t\<lparr>tk_place := pl\<rparr>) r \<and> task_ok (t\<lparr>tk_place := pl\<rparr>) (r\<lparr>wr_current := c\<rparr>)"
  by (auto simp: head_ok_def task_ok_def)

lemma same_run_parts [simp]:
  "same_run d (r\<lparr>wr_current := c\<rparr>) = same_run d r" "run_ok (r\<lparr>wr_current := c\<rparr>) = run_ok r"
  by (simp_all add: same_run_def run_ok_def)

lemma run_ok_ends:
  "head_ok t r \<Longrightarrow> tk_idx t = length (wf_phases (tk_workflow t)) \<Longrightarrow> run_ok (complete_run now t r)"
  "run_ok (cancel_done now r)" "run_ok (fail_run now msg r)"
  by (simp_all add: run_ok_def complete_run_def cancel_done_def fail_run_def head_ok_def)

lemma run_ok_live: "wr_status r \<noteq> WfCompleted \<Longrightarrow> run_ok r"
  by (simp add: run_ok_def)

lemma loop_head_ok:
  assumes "engine_ok e0" "agree_off rid e0 e" "wr_id r = rid" "head_ok t r"
    and doc: "\<And>d. doc_at e rid = Some d \<Longrightarrow> wr_id d = rid \<and> run_ok d \<and> same_run d r"
    and "we_store e0 \<noteq> None \<Longrightarrow> doc_at e rid \<noteq> None"
  shows "engine_ok (loop_head now t r e)"
proof (cases "tk_idx t < length (wf_phases (tk_workflow t))")
  case False
  then have "tk_idx t = length (wf_phases (tk_workflow t))" using assms(4) by (simp add: head_ok_def)
  moreover have "wr_id (complete_run now t r) = rid" using assms(3) by (simp add: complete_run_def)
  ultimately show ?thesis
    using finish_run_ok [OF assms(1,2)] run_ok_ends(1) [OF assms(4)] by (simp add: loop_head_def)
next
  case True
  have live: "run_ok r" "\<not> wr_cancel r" using assms(4) by (auto simp: head_ok_def run_ok_def)
  note tk = head_ok_task [OF assms(4) True]
  show ?thesis
  proof (cases "wr_go r")
    case go: True
    show ?thesis using True live go assms(3) tk
      by (simp add: loop_head_def enter_phase_def)
        (rule place_ok [OF assms(1,2)], use assms live tk in auto)
  next
    case False
    show ?thesis using True live False assms(3) tk
      by (simp add: loop_head_def)
        (rule place_ok [OF assms(1,2)], use assms live tk in auto)
  qed
qed

section \<open>Every step keeps the invariant\<close>

lemma get_workflow_same [simp]:
  "we_runs (snd (get_workflow wid e)) = we_runs e" "we_tasks (snd (get_workflow wid e)) = we_tasks e"
  "we_store (snd (get_workflow wid e)) = we_store e"
  by (simp_all add: get_workflow_def split: option.split)

lemma doc_at_cong: "we_store e = we_store e' \<Longrightarrow> doc_at e = doc_at e'"
  by (simp add: doc_at_def)

lemma execute_workflow_ok:
  assumes "engine_ok e" "run_at e (''wf_run_'' @ uid) = None" "doc_at e (''wf_run_'' @ uid) = None"
  shows "engine_ok (snd (execute_workflow uid now wid inp budget e))"
proof -
  obtain fl e1 where g: "get_workflow wid e = (fl, e1)" by (cases "get_workflow wid e")
  have same: "we_runs e1 = we_runs e" "we_tasks e1 = we_tasks e" "we_store e1 = we_store e"
    using get_workflow_same [of wid e] g by simp_all
  have ok: "engine_ok e1" using assms(1) same doc_at_cong [OF same(3)] by (simp add: engine_ok_def)
  define r where "r = new_run uid now wid"
  have r: "wr_id r = ''wf_run_'' @ uid" "wr_status r = WfRunning" by (simp_all add: r_def new_run_def)
  have "engine_ok (loop_head now t r (persist_run r (put_run r e1)))"
    if "t = \<lparr>tk_place = InPhase, tk_workflow = flow, tk_idx = 0, tk_input = inp, tk_results = [],
      tk_tokens = 0, tk_budget = budget, tk_cancelled = False\<rparr>" for t flow
  proof (rule loop_head_ok [OF ok _ r(1)])
    show "head_ok t r" by (simp add: that head_ok_def r_def new_run_def)
  qed (auto simp: r run_ok_live split: if_splits)
  then show ?thesis using g ok by (auto simp: execute_workflow_def Let_def r_def split: option.split)
qed

lemma wake_run_ok:
  assumes "engine_ok e"
  shows "engine_ok (wake_run rid e)"
proof (cases "task_at e rid")
  case None
  then show ?thesis using assms by (simp add: wake_run_def)
next
  case (Some t)
  then obtain r where r: "run_at e rid = Some r" using engine_okD(7) [OF assms] by blast
  note ok = engine_okD(1,2) [OF assms r] engine_okD(6) [OF assms Some r]
  have task: "task_ok (t\<lparr>tk_place := InPhase\<rparr>) (r\<lparr>wr_current := c\<rparr>)" for c
    using ok(3) by (auto simp: task_ok_def split: if_splits)
  have "engine_ok (enter_phase t r e)"
    unfolding enter_phase_def ok(1)
    by (rule place_ok [OF assms agree_off_refl])
      (use ok task engine_ok_doc [OF assms r] in auto)
  then show ?thesis using Some r assms by (simp add: wake_run_def)
qed

lemma exec_phase_name: "pr_phase (fst (exec_phase sv p inp budget used w)) = wp_name p"
  by (simp add: exec_phase_def Let_def split: prod.split sum.split)

lemma detail_doc_no_tokens: "map_of (detail_doc d) ''tokens'' = None"
  by (cases d) simp_all

lemma result_tokens_zero: "result_tokens r = 0"
  using detail_doc_no_tokens [of "pr_detail r"]
  by (simp add: result_tokens_def result_doc_def jget_def dict_get_def map_add_def split: option.split)

lemma after_phase_head:
  assumes "task_ok t r" "\<not> tk_cancelled t" "pr_phase res = wp_name (wf_phases (tk_workflow t) ! tk_idx t)"
  shows "head_ok (after_phase res t) (r\<lparr>wr_results := wr_results r @ [res]\<rparr>)"
  using assms by (auto simp: task_ok_def head_ok_def after_phase_def result_tokens_zero take_Suc_conv_app_nth)

lemma phase_done_ok:
  assumes "engine_ok e"
  shows "engine_ok (fst (phase_done sv now rid (e, w)))"
proof (cases "task_at e rid")
  case None
  then show ?thesis using assms by (simp add: phase_done_def)
next
  case (Some t)
  then obtain r where r: "run_at e rid = Some r" using engine_okD(7) [OF assms] by blast
  note ok = engine_okD(1,2) [OF assms r] engine_okD(6) [OF assms Some r]
  show ?thesis
  proof (cases "tk_place t = InPhase \<and> \<not> tk_cancelled t")
    case False
    then show ?thesis using Some r assms by (auto simp: phase_done_def)
  next
    case True
    define p where "p = wf_phases (tk_workflow t) ! tk_idx t"
    obtain res w1 where x: "exec_phase sv p (tk_input t) (tk_budget t) (tk_tokens t) w = (res, w1)"
      by (metis prod.collapse)
    define r1 where "r1 = r\<lparr>wr_results := wr_results r @ [res]\<rparr>"
    define e1 where "e1 = persist_run r1 (put_run r1 e)"
    have r1: "wr_id r1 = rid" "run_ok r1" "agree_off rid e e1"
      using ok True by (auto simp: r1_def e1_def run_ok_def task_ok_def)
    have "pr_phase res = wp_name p" using exec_phase_name [of sv p "tk_input t"] x by (metis fst_conv)
    then have head: "head_ok (after_phase res t) r1"
      using after_phase_head [OF ok(3)] True by (simp add: r1_def p_def)
    have "engine_ok (loop_head now (after_phase res t) r1 e1)"
      by (rule loop_head_ok [OF assms r1(3,1) head]) (use r1 in \<open>auto simp: e1_def split: if_splits\<close>)
    moreover have "engine_ok (finish_run (fail_run now msg r1) e1)" for msg
      by (rule finish_run_ok [OF assms r1(3)]) (use r1 in \<open>simp_all add: fail_run_def run_ok_def\<close>)
    ultimately show ?thesis
      using Some r True x
      by (simp add: phase_done_def Let_def p_def [symmetric] r1_def e1_def split: option.split)
  qed
qed

lemma deliver_cancel_ok:
  assumes "engine_ok e"
  shows "engine_ok (deliver_cancel now rid e)"
proof -
  have "engine_ok (finish_run (cancel_done now r) e)" if "run_at e rid = Some r" for r
    by (rule finish_run_ok [OF assms agree_off_refl])
      (use engine_okD(1) [OF assms that] in \<open>simp_all add: cancel_done_def run_ok_def\<close>)
  then show ?thesis using assms by (auto simp: deliver_cancel_def split: option.split)
qed

text \<open>The requests of the RPC surface first look the run up, in memory or in the store.\<close>

lemma restore_run_None: "restore_run rid e = (None, e1) \<Longrightarrow> e1 = e"
  by (auto simp: restore_run_def split: option.splits)

lemma restore_run_Some:
  assumes "engine_ok e" "restore_run rid e = (Some r, e1)"
  shows "engine_ok e1 \<and> run_at e1 rid = Some r \<and> wr_id r = rid
    \<and> we_tasks e1 = we_tasks e \<and> we_store e1 = we_store e"
proof (cases "run_at e rid")
  case (Some r0)
  then show ?thesis using assms engine_okD(1) [OF assms(1)] by (simp add: restore_run_def)
next
  case None
  then obtain st where st: "we_store e = Some st" "map_of (wd_runs st) rid = Some r"
      "e1 = e\<lparr>we_runs := AList.update rid r (we_runs e)\<rparr>"
    using assms(2) by (auto simp: restore_run_def split: option.splits)
  then have d: "doc_at e rid = Some r" by (simp add: doc_at_def)
  have no_task: "task_at e rid = None" using engine_okD(7) [OF assms(1), where rid = rid] None by (cases "task_at e rid") auto
  have doc: "doc_at e1 = doc_at e" using st by (simp add: doc_at_def)
  have "engine_ok e1"
    by (rule engine_ok_slot [OF assms(1), where rid = rid])
      (use st doc d no_task engine_okD(3,4) [OF assms(1) d] in \<open>auto simp: slot_ok_def same_run_def\<close>)
  then show ?thesis using st engine_okD(3) [OF assms(1) d] by simp
qed

lemma commit_ok:
  assumes "engine_ok e" "wr_id r = rid" "run_ok r" "\<And>t. task_at e rid = Some t \<Longrightarrow> task_ok t r"
  shows "engine_ok (persist_run r (put_run r e))"
  by (rule engine_ok_agree [OF assms(1), where rid = rid])
    (use assms in \<open>auto simp: slot_ok_def\<close>)

lemma pause_run_ok:
  assumes "engine_ok e"
  shows "engine_ok (snd (pause_run rid e))"
proof (cases "restore_run rid e")
  case (Pair ro e1)
  show ?thesis
  proof (cases ro)
    case None
    then show ?thesis using Pair assms restore_run_None by (auto simp: pause_run_def)
  next
    case (Some r)
    note r = restore_run_Some [OF assms Pair [unfolded Some]]
    have "engine_ok (persist_run r1 (put_run r1 e1))"
      if "wr_status r = WfRunning" "r1 = r\<lparr>wr_go := False, wr_status := WfPaused\<rparr>" for r1
      by (rule commit_ok) (use that r engine_okD(6) [of e1] in \<open>auto simp: run_ok_def task_ok_def split: if_splits\<close>)
    then show ?thesis using Pair Some r by (simp add: pause_run_def Let_def)
  qed
qed

lemma resume_run_ok:
  assumes "engine_ok e"
  shows "engine_ok (snd (resume_run rid e))"
proof (cases "restore_run rid e")
  case (Pair ro e1)
  show ?thesis
  proof (cases ro)
    case None
    then show ?thesis using Pair assms restore_run_None by (auto simp: resume_run_def)
  next
    case (Some r)
    note r = restore_run_Some [OF assms Pair [unfolded Some]]
    have "engine_ok (persist_run r1 (put_run r1 e1))"
      if "wr_status r = WfPaused" "r1 = r\<lparr>wr_go := True, wr_status := WfRunning\<rparr>" for r1
      by (rule commit_ok) (use that r engine_okD(6) [of e1] in \<open>auto simp: run_ok_def task_ok_def split: if_splits\<close>)
    then show ?thesis using Pair Some r by (simp add: resume_run_def Let_def)
  qed
qed

lemma task_ok_cancel:
  "task_ok t r \<Longrightarrow> wr_status r1 = WfCancelled \<Longrightarrow> wr_results r1 = wr_results r \<Longrightarrow>
    task_ok (t\<lparr>tk_cancelled := True\<rparr>) r1"
  by (simp add: task_ok_def)

lemma cancel_run_ok:
  assumes "engine_ok e"
  shows "engine_ok (snd (cancel_run now rid e))"
proof (cases "restore_run rid e")
  case (Pair ro e1)
  show ?thesis
  proof (cases ro)
    case None
    then show ?thesis using Pair assms restore_run_None by (auto simp: cancel_run_def)
  next
    case (Some r)
    note r = restore_run_Some [OF assms Pair [unfolded Some]]
    then have ok1: "engine_ok e1" "run_at e1 rid = Some r" by simp_all
    have tk: "task_at e1 rid = Some t \<Longrightarrow> task_ok t r" for t
      using engine_okD(6) [OF ok1(1) _ ok1(2)] .
    have "engine_ok (persist_run r1 (case task_at e1 rid of None \<Rightarrow> put_run r1 e1
        | Some t \<Rightarrow> set_task rid (t\<lparr>tk_cancelled := True\<rparr>) (put_run r1 e1)))"
      if "wr_id r1 = rid" "wr_status r1 = WfCancelled" "wr_results r1 = wr_results r" for r1
      by (rule engine_ok_agree [OF ok1(1), where rid = rid])
        (use that tk in \<open>auto simp: slot_ok_def run_ok_live task_ok_cancel split: option.split\<close>)
    then show ?thesis using Pair Some r by (simp add: cancel_run_def Let_def)
  qed
qed

lemma get_run_status_ok:
  assumes "engine_ok e"
  shows "engine_ok (snd (get_run_status rid e))"
proof (cases "restore_run rid e")
  case (Pair ro e1)
  show ?thesis
  proof (cases ro)
    case None
    then show ?thesis using Pair assms restore_run_None by (auto simp: get_run_status_def)
  next
    case (Some r)
    then show ?thesis using restore_run_Some [OF assms Pair [unfolded Some]] Pair
      by (simp add: get_run_status_def)
  qed
qed

lemma other_fields_ok:
  "engine_ok e \<Longrightarrow> we_runs e' = we_runs e \<Longrightarrow> we_tasks e' = we_tasks e \<Longrightarrow> doc_at e' = doc_at e \<Longrightarrow>
    (we_store e' = None \<longleftrightarrow> we_store e = None) \<Longrightarrow> engine_ok e'"
  by (simp add: engine_ok_def)

lemma put_workflow_ok: "engine_ok e \<Longrightarrow> engine_ok (put_workflow flow e)"
  by (rule other_fields_ok [of e]) (simp_all add: put_workflow_def doc_at_def split: option.split)

lemma create_workflow_ok:
  "engine_ok e \<Longrightarrow> create_workflow uid now name phases a b c e = Some (r, e') \<Longrightarrow> engine_ok e'"
  by (cases "phases_from phases"; cases "the (phases_from phases)")
    (auto simp: create_workflow_def Let_def put_workflow_ok)

lemma delete_workflow_ok: "engine_ok e \<Longrightarrow> engine_ok (snd (delete_workflow wid e))"
  by (rule other_fields_ok [of e]) (simp_all add: delete_workflow_def doc_at_def split: option.split)

lemma restart_parts [simp]:
  "we_runs (restart_engine e) = []" "we_tasks (restart_engine e) = []"
  "we_store (restart_engine e) = we_store e" "doc_at (restart_engine e) = doc_at e"
  by (simp_all add: restart_engine_def engine_init_def doc_at_def)

lemma restart_engine_ok:
  assumes "engine_ok e"
  shows "engine_ok (restart_engine e)"
  unfolding engine_ok_def slot_ok_def using engine_okD(3,4) [OF assms] by simp

lemmas engine_steps_ok = execute_workflow_ok wake_run_ok phase_done_ok deliver_cancel_ok pause_run_ok
  resume_run_ok cancel_run_ok get_run_status_ok delete_workflow_ok restart_engine_ok

lemma wf_step_ok: "wf_step sv s s' \<Longrightarrow> engine_ok (fst s) \<Longrightarrow> engine_ok (fst s')"
proof (induction rule: wf_step.induct)
  case (create uid now name phases a b c e r e' w)
  then show ?case using create_workflow_ok [OF _ create(1)] by simp
qed (simp_all add: engine_steps_ok)

lemma wf_steps_ok: "wf_steps sv s s' \<Longrightarrow> engine_ok (fst s) \<Longrightarrow> engine_ok (fst s')"
  by (induction rule: rtranclp_induct) (simp_all add: wf_step_ok)

section \<open>What a client sees of a run\<close>

text \<open>The look-up of \<open>_restore_run\<close>.\<close>

definition view :: "wf_engine \<Rightarrow> str \<Rightarrow> wf_run option" where
  "view e rid = (case run_at e rid of None \<Rightarrow> doc_at e rid | Some r \<Rightarrow> Some r)"

lemma view_is_status: "fst (get_run_status rid e) = view e rid"
  by (simp add: get_run_status_def restore_run_def view_def doc_at_def split: option.split)

definition terminal_status :: "wf_status \<Rightarrow> bool" where
  "terminal_status s \<longleftrightarrow> s \<in> {WfCompleted, WfFailed, WfCancelled}"

lemma same_run_refl [simp]: "same_run r r"
  by (simp add: same_run_def)

lemma same_run_trans: "same_run a b \<Longrightarrow> same_run b c \<Longrightarrow> same_run a c"
  by (simp add: same_run_def)

lemma agree_off_view:
  "agree_off k e e' \<Longrightarrow> j \<noteq> k \<Longrightarrow> view e' j = view e j \<and> task_at e' j = task_at e j"
  by (simp add: agree_off_def view_def split: option.split)

lemma finish_run_agree [simp]:
  "wr_id r = rid \<Longrightarrow> agree_off rid e0 (finish_run r e) = agree_off rid e0 e"
  by (simp add: finish_run_def)

lemma run_ends_id [simp]:
  "wr_id (complete_run now t r) = wr_id r" "wr_id (cancel_done now r) = wr_id r"
  "wr_id (fail_run now msg r) = wr_id r"
  by (simp_all add: complete_run_def cancel_done_def fail_run_def)

lemma loop_head_agree [simp]:
  "wr_id r = rid \<Longrightarrow> agree_off rid e0 (loop_head now t r e) = agree_off rid e0 e"
  by (simp add: loop_head_def enter_phase_def)

lemma restore_agree: "restore_run rid e = (ro, e1) \<Longrightarrow> agree_off rid e e1"
  by (auto simp: restore_run_def agree_off_def doc_at_def split: option.splits)

text \<open>Every step touches one run only.\<close>

lemma execute_workflow_agree:
  "agree_off (''wf_run_'' @ uid) e (snd (execute_workflow uid now wid inp budget e))"
proof -
  obtain fl e1 where g: "get_workflow wid e = (fl, e1)" by (cases "get_workflow wid e")
  have "agree_off k e e1" for k
    using get_workflow_same [of wid e] g doc_at_cong [of e1 e] by (simp add: agree_off_def)
  then show ?thesis using g
    by (simp add: execute_workflow_def Let_def new_run_def split: option.split)
qed

lemma task_steps_agree:
  assumes "engine_ok e"
  shows "agree_off rid e (wake_run rid e)" "agree_off rid e (fst (phase_done sv now rid (e, w)))"
    "agree_off rid e (deliver_cancel now rid e)"
  using engine_okD(1) [OF assms]
  by (auto simp: wake_run_def phase_done_def deliver_cancel_def enter_phase_def Let_def
      split: option.split prod.split)

lemma request_agree:
  assumes "engine_ok e"
  shows "agree_off rid e (snd (pause_run rid e))" "agree_off rid e (snd (resume_run rid e))"
    "agree_off rid e (snd (cancel_run now rid e))" "agree_off rid e (snd (get_run_status rid e))"
proof -
  obtain ro e1 where p: "restore_run rid e = (ro, e1)" by (cases "restore_run rid e")
  note a = restore_agree [OF p]
  have r: "wr_id r = rid" if "ro = Some r" for r
    using restore_run_Some [OF assms] p that by blast
  show "agree_off rid e (snd (pause_run rid e))" "agree_off rid e (snd (resume_run rid e))"
    "agree_off rid e (snd (cancel_run now rid e))" "agree_off rid e (snd (get_run_status rid e))"
    using p a r
    by (auto simp: pause_run_def resume_run_def cancel_run_def get_run_status_def Let_def
        split: option.split)
qed

lemma workflow_steps_same:
  "create_workflow uid now name phases a b c e = Some (r, e') \<Longrightarrow>
    view e' j = view e j \<and> task_at e' j = task_at e j"
  "view (snd (delete_workflow wid e)) j = view e j
    \<and> task_at (snd (delete_workflow wid e)) j = task_at e j"
  by (cases "phases_from phases"; cases "the (phases_from phases)";
      auto simp: create_workflow_def Let_def put_workflow_def view_def doc_at_def split: option.split)
    (simp add: delete_workflow_def view_def doc_at_def split: option.split)

text \<open>What a step can do to a run that is stored: nothing, or one of these.\<close>

lemma step_on_run:
  assumes "wf_step sv s s'" "engine_ok (fst s)" "view (fst s) j \<noteq> None"
  obtains (other) "view (fst s') j = view (fst s) j" "task_at (fst s') j = task_at (fst s) j"
  | (wake) "fst s' = wake_run j (fst s)"
  | (phase) now where "fst s' = fst (phase_done sv now j s)"
  | (interrupt) now where "fst s' = deliver_cancel now j (fst s)"
  | (pause) "fst s' = snd (pause_run j (fst s))"
  | (resume) "fst s' = snd (resume_run j (fst s))"
  | (cancel) now where "fst s' = snd (cancel_run now j (fst s))"
  | (status) "fst s' = snd (get_run_status j (fst s))"
  | (restart) "fst s' = restart_engine (fst s)"
  using assms(1)
proof cases
  case (start e uid w now wid inp budget)
  then have "view (fst s) (''wf_run_'' @ uid) = None" by (simp add: view_def)
  then have "j \<noteq> ''wf_run_'' @ uid" using assms(3) by metis
  then show ?thesis
    using other agree_off_view [OF execute_workflow_agree [of uid e now wid inp budget]] start by simp
next
  case (wake e w rid)
  then show ?thesis
    using agree_off_view [OF task_steps_agree(1) [of e rid], of j] assms(2) that(1,2)
    by (cases "j = rid") simp_all
next
  case (phase e w now rid)
  then show ?thesis
    using agree_off_view [OF task_steps_agree(2) [of e rid sv now w], of j] assms(2) that(1,3)
    by (cases "j = rid") simp_all
next
  case (interrupt e w now rid)
  then show ?thesis
    using agree_off_view [OF task_steps_agree(3) [of e rid now], of j] assms(2) that(1,4)
    by (cases "j = rid") simp_all
next
  case (pause e w rid)
  then show ?thesis
    using agree_off_view [OF request_agree(1) [of e rid], of j] assms(2) that(1,5)
    by (cases "j = rid") simp_all
next
  case (resume e w rid)
  then show ?thesis
    using agree_off_view [OF request_agree(2) [of e rid], of j] assms(2) that(1,6)
    by (cases "j = rid") simp_all
next
  case (cancel e w now rid)
  then show ?thesis
    using agree_off_view [OF request_agree(3) [of e rid now], of j] assms(2) that(1,7)
    by (cases "j = rid") simp_all
next
  case (status e w rid)
  then show ?thesis
    using agree_off_view [OF request_agree(4) [of e rid], of j] assms(2) that(1,8)
    by (cases "j = rid") simp_all
next
  case (create uid now name phases a b c e r e' w)
  then show ?thesis using other workflow_steps_same(1) by simp
next
  case (forget e w wid)
  then show ?thesis using other workflow_steps_same(2) by simp
next
  case (restart e w)
  then show ?thesis using that(9) by simp
qed

lemma agree_off_store: "agree_off k e e' \<Longrightarrow> we_store e' = None \<longleftrightarrow> we_store e = None"
  by (simp add: agree_off_def)

lemma step_store:
  assumes "wf_step sv s s'" "engine_ok (fst s)"
  shows "we_store (fst s') = None \<longleftrightarrow> we_store (fst s) = None"
  using assms
proof cases
  case (start e uid w now wid inp budget)
  then show ?thesis
    using execute_workflow_agree [of uid e now wid inp budget] by (simp add: agree_off_def)
next
  case (create uid now name phases a b c e r e' w)
  then show ?thesis
    by (cases "phases_from phases"; cases "the (phases_from phases)")
      (auto simp: create_workflow_def Let_def put_workflow_def)
qed (use assms(2) in \<open>simp_all add: delete_workflow_def agree_off_store [OF task_steps_agree(1)]
    agree_off_store [OF task_steps_agree(2)] agree_off_store [OF task_steps_agree(3)]
    agree_off_store [OF request_agree(1)] agree_off_store [OF request_agree(2)]
    agree_off_store [OF request_agree(3)] agree_off_store [OF request_agree(4)]\<close>)

lemma wf_steps_store:
  "wf_steps sv s s' \<Longrightarrow> engine_ok (fst s) \<Longrightarrow> we_store (fst s') = None \<longleftrightarrow> we_store (fst s) = None"
  by (induction rule: rtranclp_induct) (simp_all add: step_store wf_steps_ok)

lemma restore_run_view:
  assumes "engine_ok e" "view e j = Some r"
  obtains e1 where "restore_run j e = (Some r, e1)" "view e1 j = Some r" "engine_ok e1"
    "task_at e1 j = task_at e j" "run_at e1 j = Some r"
proof -
  obtain e1 where e1: "restore_run j e = (Some r, e1)"
    using assms(2) view_is_status [of j e] by (metis get_run_status_def prod.collapse)
  then show ?thesis using that [OF e1] restore_run_Some [OF assms(1) e1] by (simp add: view_def)
qed

text \<open>A run that is not going on has no task, or one whose cancellation is on its way.\<close>

lemma terminal_task:
  assumes "engine_ok e" "view e j = Some r" "terminal_status (wr_status r)" "task_at e j = Some t"
  shows "tk_cancelled t \<and> run_at e j = Some r"
proof -
  obtain r0 where r0: "run_at e j = Some r0" using engine_okD(7) [OF assms(1,4)] by auto
  then have "r0 = r" using assms(2) by (simp add: view_def)
  then show ?thesis
    using engine_okD(6) [OF assms(1,4) r0] assms(3) r0
    by (auto simp: task_ok_def terminal_status_def split: if_splits)
qed

lemma terminal_step:
  assumes "wf_step sv s s'" "engine_ok (fst s)" "we_store (fst s) \<noteq> None"
    and v: "view (fst s) j = Some r" and t: "terminal_status (wr_status r)"
  shows "\<exists>r'. view (fst s') j = Some r' \<and> same_run r' r"
proof -
  note tt = terminal_task [OF assms(2) v t]
  obtain e1 where e1: "restore_run j (fst s) = (Some r, e1)" "view e1 j = Some r"
    using restore_run_view [OF assms(2) v] by metis
  have st: "wr_status r \<noteq> WfRunning" "wr_status r \<noteq> WfPaused"
    using t by (auto simp: terminal_status_def)
  have "view (fst s) j \<noteq> None" using v by simp
  from assms(1,2) this show ?thesis
  proof (cases rule: step_on_run)
    case wake
    then have "fst s' = fst s" using tt by (auto simp: wake_run_def split: option.split)
    then show ?thesis using v by simp
  next
    case (phase now)
    then have "fst s' = fst s" using tt
      by (cases s) (auto simp: phase_done_def split: option.split)
    then show ?thesis using v by simp
  next
    case (interrupt now)
    show ?thesis
    proof (cases "task_at (fst s) j")
      case None
      then show ?thesis using interrupt v by (simp add: deliver_cancel_def)
    next
      case (Some tk)
      note rk = tt [OF Some] engine_okD(1,6) [OF assms(2)] Some
      then have "wr_status r = WfCancelled" by (auto simp: task_ok_def split: if_splits)
      then have "same_run (cancel_done now r) r" by (simp add: same_run_def cancel_done_def)
      then show ?thesis using interrupt rk by (auto simp: deliver_cancel_def finish_run_def view_def)
    qed
  next
    case restart
    obtain d where "doc_at (fst s) j = Some d \<and> same_run d r"
      using v engine_okD(5) [OF assms(2) _ assms(3)] by (auto simp: view_def split: option.splits)
    then show ?thesis using restart by (simp add: view_def)
  qed (use v e1 st in \<open>auto simp: pause_run_def resume_run_def cancel_run_def get_run_status_def\<close>)
qed

lemma terminal_steps:
  assumes "wf_steps sv s s'" "engine_ok (fst s)" "we_store (fst s) \<noteq> None"
    and "view (fst s) j = Some r" "terminal_status (wr_status r)"
  shows "\<exists>r'. view (fst s') j = Some r' \<and> same_run r' r"
  using assms(1)
proof (induction rule: rtranclp_induct)
  case base
  then show ?case using assms(4) by simp
next
  case (step s1 s2)
  then obtain r1 where r1: "view (fst s1) j = Some r1" "same_run r1 r" by blast
  then have "terminal_status (wr_status r1)"
    using assms(5) by (simp add: same_run_def terminal_status_def)
  moreover have "engine_ok (fst s1)" "we_store (fst s1) \<noteq> None"
    using wf_steps_ok [OF step(1)] wf_steps_store [OF step(1)] assms(2,3) by simp_all
  ultimately show ?case using terminal_step [OF step(2)] r1 same_run_trans by blast
qed

section \<open>Properties of runs\<close>

definition fresh_engine :: wf_engine where
  "fresh_engine = engine_init (Some \<lparr>wd_workflows = [], wd_runs = []\<rparr>)"

lemma fresh_engine_ok: "engine_ok fresh_engine"
  by (simp add: fresh_engine_def engine_init_def engine_ok_def slot_ok_def doc_at_def)

text \<open>
  C9: In every state that any interleaving of phases, pauses, resumptions, cancellations and
  restarts can reach, the results of a run in progress are those of the first phases of its
  workflow, in order and one each; a completed run has one result per phase, its final result
  repeats them, and the number of tokens it reports is 0 whatever the phases used.\<close>

theorem run_results_in_order:
  assumes "wf_steps sv (fresh_engine, w0) (e, w)" and "run_at e rid = Some r"
  shows "(\<forall>t. task_at e rid = Some t \<longrightarrow>
      map pr_phase (wr_results r) = map wp_name (take (tk_idx t) (wf_phases (tk_workflow t)))
      \<and> tk_idx t < length (wf_phases (tk_workflow t)) \<and> wr_status r \<noteq> WfCompleted \<and> wr_status r \<noteq> WfFailed)
    \<and> (wr_status r = WfCompleted \<longrightarrow> (\<exists>f. wr_final r = Some f \<and> wn_phases f = wr_results r
         \<and> wn_total f = length (wr_results r) \<and> wn_tokens f = 0))"
proof -
  have ok: "engine_ok e" using wf_steps_ok [OF assms(1)] fresh_engine_ok by simp
  show ?thesis
    using engine_okD(2) [OF ok assms(2)] engine_okD(6) [OF ok _ assms(2)]
    by (auto simp: run_ok_def task_ok_def split: if_splits)
qed

text \<open>
  C20: With a store, a completed, failed or cancelled run is final: no later operation, and no
  restart, changes its status, its phase results, its final result or its error.\<close>

theorem terminal_runs_final:
  assumes "wf_steps sv (fresh_engine, w0) (e, w)" and "wf_steps sv (e, w) (e', w')"
    and "view e rid = Some r" and "wr_status r \<in> {WfCompleted, WfFailed, WfCancelled}"
  shows "\<exists>r'. view e' rid = Some r' \<and> wr_status r' = wr_status r \<and> wr_results r' = wr_results r
    \<and> wr_final r' = wr_final r \<and> wr_error r' = wr_error r"
proof -
  have "engine_ok e \<and> we_store e \<noteq> None"
    using wf_steps_ok [OF assms(1)] wf_steps_store [OF assms(1)] fresh_engine_ok
    by (simp add: fresh_engine_def engine_init_def)
  then show ?thesis
    using terminal_steps [OF assms(2) _ _ _ , of rid r] assms(3,4)
    by (auto simp: terminal_status_def same_run_def)
qed

text \<open>The state of a run whose coroutine is gone although it never ended.\<close>

definition stuck :: "str \<Rightarrow> phase_result list \<Rightarrow> wf_engine \<Rightarrow> bool" where
  "stuck j rs e \<longleftrightarrow> task_at e j = None \<and> (\<exists>r. view e j = Some r \<and> wr_results r = rs
     \<and> wr_status r \<in> {WfRunning, WfPaused, WfCancelled})"

lemma stuck_step:
  assumes "wf_step sv s s'" "engine_ok (fst s)" "we_store (fst s) \<noteq> None" "stuck j rs (fst s)"
  shows "stuck j rs (fst s')"
proof -
  obtain r where r: "view (fst s) j = Some r" "wr_results r = rs" "task_at (fst s) j = None"
      "wr_status r \<in> {WfRunning, WfPaused, WfCancelled}"
    using assms(4) by (auto simp: stuck_def)
  obtain e1 where e1: "restore_run j (fst s) = (Some r, e1)" "view e1 j = Some r"
      "task_at e1 j = None" "run_at e1 j = Some r" "wr_id r = j"
    using restore_run_view [OF assms(2) r(1)] engine_okD(1) r(3) by metis
  have "view (fst s) j \<noteq> None" using r by simp
  from assms(1,2) this show ?thesis
  proof (cases rule: step_on_run)
    case other
    then show ?thesis using r by (simp add: stuck_def)
  next
    case wake
    then show ?thesis using r by (simp add: stuck_def wake_run_def)
  next
    case (phase now)
    then show ?thesis using r by (cases s) (simp add: stuck_def phase_done_def)
  next
    case (interrupt now)
    then show ?thesis using r by (simp add: stuck_def deliver_cancel_def)
  next
    case restart
    obtain d where "doc_at (fst s) j = Some d \<and> same_run d r"
      using r(1) engine_okD(5) [OF assms(2) _ assms(3)] by (auto simp: view_def split: option.splits)
    then show ?thesis using restart r by (simp add: stuck_def view_def same_run_def)
  next
    case pause
    then show ?thesis using r e1 by (auto simp: stuck_def pause_run_def view_def Let_def)
  next
    case resume
    then show ?thesis using r e1 by (auto simp: stuck_def resume_run_def view_def Let_def)
  next
    case (cancel now)
    then show ?thesis using r e1 by (auto simp: stuck_def cancel_run_def view_def Let_def)
  next
    case status
    then show ?thesis using r e1 by (auto simp: stuck_def get_run_status_def)
  qed
qed

lemma stuck_steps:
  assumes "wf_steps sv s s'" "engine_ok (fst s)" "we_store (fst s) \<noteq> None" "stuck j rs (fst s)"
  shows "stuck j rs (fst s')"
  using assms(1)
proof (induction rule: rtranclp_induct)
  case base
  then show ?case using assms(4) .
next
  case (step s1 s2)
  then show ?case
    using stuck_step [OF step(2)] wf_steps_ok [OF step(1)] wf_steps_store [OF step(1)] assms(2,3)
    by simp
qed

text \<open>
  A run that was in progress when the process was restarted is never taken up again: it
  has no coroutine, keeps the phase results it had, and stays running or paused for ever
  unless it is cancelled; resuming it reports success and changes nothing else.\<close>

theorem interrupted_runs_stuck:
  assumes "wf_steps sv (fresh_engine, w0) (e, w)" and "view e rid = Some r"
    and "wr_status r = WfRunning \<or> wr_status r = WfPaused"
    and "wf_steps sv (restart_engine e, w) (e', w')"
  shows "task_at e' rid = None \<and> (\<exists>r'. view e' rid = Some r' \<and> wr_results r' = wr_results r
    \<and> wr_status r' \<in> {WfRunning, WfPaused, WfCancelled})"
proof -
  have ok: "engine_ok e" "we_store e \<noteq> None"
    using wf_steps_ok [OF assms(1)] wf_steps_store [OF assms(1)] fresh_engine_ok
    by (simp_all add: fresh_engine_def engine_init_def)
  obtain d where "doc_at e rid = Some d \<and> same_run d r"
    using assms(2) engine_okD(5) [OF ok(1) _ ok(2)] by (auto simp: view_def split: option.splits)
  then have "stuck rid (wr_results r) (restart_engine e)"
    using assms(3) by (auto simp: stuck_def view_def same_run_def)
  then show ?thesis
    using stuck_steps [OF assms(4)] restart_engine_ok [OF ok(1)] ok(2) by (simp add: stuck_def)
qed

lemma finish_run_run: "run_at (finish_run r e) (wr_id r) = Some r"
  by (simp add: finish_run_def)

lemma loop_head_run:
  "wr_id r = rid \<Longrightarrow> \<not> wr_cancel r \<Longrightarrow> run_at (loop_head now t r e) rid = Some
     (if length (wf_phases (tk_workflow t)) \<le> tk_idx t then complete_run now t r
      else if wr_go r then r\<lparr>wr_current := tk_idx t\<rparr> else r)"
  using finish_run_run [of "complete_run now t r" e] by (simp add: loop_head_def enter_phase_def)

text \<open>
  Whether a failing phase fails the run depends on the text of the exception: the run fails
  exactly when the phase raised an exception with a non-empty text and \<open>continue_on_error\<close>
  is off. After one with an empty text the run goes on with the input of the failed phase, and
  it completes with that as its output when the phase was the last.\<close>

theorem phase_failure_needs_text:
  assumes "wf_steps sv (fresh_engine, w0) (e, w)"
    and "task_at e rid = Some t" and "tk_place t = InPhase" and "\<not> tk_cancelled t"
    and "wf_phases (tk_workflow t) ! tk_idx t = p"
    and "fst (exec_pattern sv p (tk_input t) (tk_budget t) (tk_tokens t) w) = x"
  shows "\<exists>r'. run_at (fst (phase_done sv now rid (e, w))) rid = Some r'
    \<and> (wr_status r' = WfFailed \<longleftrightarrow> (\<exists>err. x = Inl err \<and> error_text err \<noteq> []
          \<and> \<not> truthy (jget (wp_config p) ''continue_on_error'' JNull)))
    \<and> (x = Inl (AgentErr '''') \<and> tk_idx t + 1 = length (wf_phases (tk_workflow t)) \<longrightarrow>
          wr_status r' = WfCompleted \<and> map_option wn_output (wr_final r') = Some (tk_input t))"
proof -
  have ok: "engine_ok e" using wf_steps_ok [OF assms(1)] fresh_engine_ok by simp
  obtain r where r: "run_at e rid = Some r" using engine_okD(7) [OF ok assms(2)] by auto
  note tk = engine_okD(1) [OF ok r] engine_okD(6) [OF ok assms(2) r]
  obtain res w1 where u: "exec_phase sv p (tk_input t) (tk_budget t) (tk_tokens t) w = (res, w1)"
    by (metis prod.collapse)
  have res: "pr_error res = (case x of Inl err \<Rightarrow> Some (error_text err) | Inr _ \<Rightarrow> None)"
    "x = Inl err \<Longrightarrow> pr_output res = ''''" for err
    using assms(6) u by (auto simp: exec_phase_def Let_def split: prod.splits sum.splits)
  define r1 where "r1 = r\<lparr>wr_results := wr_results r @ [res]\<rparr>"
  define e1 where "e1 = persist_run r1 (put_run r1 e)"
  have r1: "wr_id r1 = rid" "\<not> wr_cancel r1" "wr_status r1 \<noteq> WfFailed"
    using tk assms(4) by (auto simp: r1_def task_ok_def)
  have fin: "fst (phase_done sv now rid (e, w)) = (case phase_failure p res of
      Some msg \<Rightarrow> finish_run (fail_run now msg r1) e1
    | None \<Rightarrow> loop_head now (after_phase res t) r1 e1)"
    using assms(2-5) r u by (simp add: phase_done_def r1_def e1_def Let_def split: option.split)
  show ?thesis
  proof (cases "phase_failure p res")
    case None
    then have ng: "\<not> (\<exists>err. x = Inl err \<and> error_text err \<noteq> []
        \<and> \<not> truthy (jget (wp_config p) ''continue_on_error'' JNull))"
      by (auto simp: phase_failure_def res split: if_splits)
    show ?thesis
      using fin None loop_head_run [OF r1(1,2), of now "after_phase res t" e1] r1(3) ng res(2)
      by (auto simp: after_phase_def complete_run_def)
  next
    case (Some msg)
    then have "\<exists>err. x = Inl err \<and> error_text err \<noteq> []
        \<and> \<not> truthy (jget (wp_config p) ''continue_on_error'' JNull)"
      by (auto simp: phase_failure_def res split: if_splits sum.splits)
    then show ?thesis using fin Some r1 finish_run_run [of "fail_run now msg r1" e1]
      by (auto simp: fail_run_def)
  qed
qed

end
