(* ===== verification/WorkflowDemo.thy ===== *)
theory WorkflowDemo
  imports WorkflowProps
begin

text \<open>
  Concrete services, phases and engines at which the properties of workflows apply.
\<close>

section \<open>Phases\<close>

definition agent_a :: jobj where
  "agent_a = [(''name'', JStr ''a'')]"

text \<open>A gateway that repeats the prompt and reports twelve tokens, and a judge that answers -1.\<close>

definition echo :: "unit services" where
  "echo = \<lparr>sv_clock = (\<lambda>_. 0), sv_orchestrator = False, sv_llm = True, sv_soul = (\<lambda>_ _. ''''),
     sv_graph = (\<lambda>_ _ _ w. (GraphRaised ''none'', w)), sv_funnel = (\<lambda>_ ms w. (Inr ms, w)),
     sv_chat = (\<lambda>ms w. (ChatReply (''re '' @ snd (last ms))
        (Some [(''prompt_tokens'', JInt 7), (''completion_tokens'', JInt 5)]), w)),
     sv_post = (\<lambda>_ _ _ w. w), sv_loads = (\<lambda>_. Some (JObj [(''winner'', JInt (- 1))])), sv_max_branches = ''32''\<rparr>"

definition demo_phase :: "wf_pattern \<Rightarrow> jobj \<Rightarrow> wf_phase" where
  "demo_phase pat conf = \<lparr>wp_name = ''p'', wp_pattern = pat, wp_agents = [agent_a, agent_a], wp_config = conf\<rparr>"

lemma echo_agent: "run_agent echo agent_a inp acc w =
    (Inr (''re '' @ inp), record_tokens (Some [(''prompt_tokens'', JInt 7), (''completion_tokens'', JInt 5)]) acc, w)"
  by (simp add: run_agent_def run_llm_def echo_def agent_a_def cfg_str_def agent_prompt_def Let_def)

lemmas demo_defs = demo_phase_def echo_agent conf_num_def jget_def dict_get_def blank_line_def

theorem pipeline_composes_witness:
  "fold (feed echo) [agent_a, agent_a] (Inr ''x'', ()) = (Inr ''re re x'', ())"
proof -
  let ?p = "demo_phase Pipeline []"
  have "exec_pipeline echo ?p ''x'' () = (Inr (''re re x'', StageResults
      [(''x'', 0, ''re x''), (''x'', 1, ''re re x'')]), ())"
    by (simp add: exec_pipeline_def pipeline_items_def demo_defs)
  then show ?thesis
    using pipeline_composes [of ?p echo "''x''" "()"] by (simp add: demo_phase_def)
qed

theorem budget_loop_estimates_only_witness:
  "\<exists>n. snd (the (case fst (exec_loop_until_budget echo
      (demo_phase LoopUntilBudget [(''max_iterations'', JInt 1)]) ''x'' None 0 ()) of Inr r \<Rightarrow> Some r | _ \<Rightarrow> None))
    = BudgetResults n (0 + of_nat n * 5000) 50000 (0 < n) \<and> n = 1"
proof -
  let ?p = "demo_phase LoopUntilBudget [(''max_iterations'', JInt 1)]"
  obtain out est where x: "exec_loop_until_budget echo ?p ''x'' None 0 ()
      = (Inr (out, BudgetResults 1 5000 50000 est), ())"
    by (simp add: exec_loop_until_budget_def budget_loop.simps budget_round_def Let_def demo_defs)
  have "est \<longleftrightarrow> (0 :: nat) < 1"
    using budget_loop_estimates_only [OF x] by (auto simp: demo_phase_def)
  then show ?thesis using x by simp
qed

theorem dry_loop_findings_witness:
  "\<exists>n k. fst (exec_loop_until_dry echo (demo_phase LoopUntilDry [(''max_iterations'', JInt 1)]) ''x'' ())
      = Inr (''re x'', DryResults n k) \<and> int n \<le> int k * 2 + 2"
proof -
  let ?p = "demo_phase LoopUntilDry [(''max_iterations'', JInt 1)]"
  have x: "exec_loop_until_dry echo ?p ''x'' () = (Inr (''re x'', DryResults 1 1), ())"
    by (simp add: exec_loop_until_dry_def dry_loop.simps dry_round_def take_finding_def Let_def demo_defs)
  show ?thesis
    using dry_loop_findings [OF x] x by (auto simp: demo_defs)
qed

text \<open>A gateway whose calls raise an exception without a text, as a time-out does.\<close>

definition silent :: "unit services" where
  "silent = echo\<lparr>sv_chat := \<lambda>_ w. (ChatRaised '''', w)\<rparr>"

lemma silent_agent: "run_agent silent agent_a inp acc w = (Inl '''', acc, w)"
  by (simp add: run_agent_def run_llm_def silent_def echo_def agent_a_def cfg_str_def agent_prompt_def Let_def)

theorem verify_counts_votes_witness:
  "\<exists>vs. fst (exec_adversarial_verify silent (demo_phase AdversarialVerify []) ''x'' ())
      = Inr ('''', VoteResults False 0 3 vs) \<and> length vs = 3 \<and> length (filter fst vs) = 3"
proof -
  let ?p = "demo_phase AdversarialVerify []"
  have "voter_cfg [agent_a, agent_a] i = agent_a" for i
    using mod_less_divisor [of 2 i] by (auto simp: voter_cfg_def nth_Cons' numeral_2_eq_2 less_Suc_eq)
  then obtain vs where x: "exec_adversarial_verify silent ?p ''x'' ()
      = (Inr ('''', VoteResults False 0 3 vs), ())"
    by (simp add: exec_adversarial_verify_def voter_count_def numeral_3_eq_3 Let_def
        demo_phase_def silent_agent conf_num_def jget_def dict_get_def is_refute_def)
  show ?thesis
    using verify_counts_votes [OF x] x by (auto simp: demo_defs voter_count_def)
qed

theorem judge_picks_approach_witness:
  "fst (exec_judge_panel echo (demo_phase JudgePanel []) ''x'' ())
    = Inr (''re x'', PanelResults [(JStr ''a'', ''re x''), (JStr ''a'', ''re x'')] (- 1)
        (''re '' @ scoring_prompt [(JStr ''a'', ''re x''), (JStr ''a'', ''re x'')]))
    \<and> (- 1 :: int) = min (- 1) (int 2 - 1)"
proof -
  let ?p = "demo_phase JudgePanel []"
  let ?as = "[(JStr ''a'', ''re x''), (JStr ''a'', ''re x'')]"
  have j: "judge_index echo v = Inr (JInt (- 1))" for v
    by (simp add: judge_index_def echo_def jget_def dict_get_def)
  have x: "exec_judge_panel echo ?p ''x'' () = (Inr (''re x'',
      PanelResults ?as (- 1) (''re '' @ scoring_prompt ?as)), ())"
    by (simp add: exec_judge_panel_def judge_cfg_def j clamp_index_def py_index_def demo_phase_def echo_agent)
      (simp add: agent_a_def jget_def dict_get_def)
  show ?thesis
    using judge_picks_approach [OF x] j x by simp
qed

section \<open>Runs\<close>

definition demo_flow :: workflow where
  "demo_flow = \<lparr>wf_id = ''wf_1'', wf_name = ''demo'', wf_phases = [demo_phase Pipeline []],
     wf_input_schema = [], wf_output_schema = [], wf_created_at = 5, wf_metadata = []\<rparr>"

theorem workflow_roundtrip_witness:
  "workflow_from_dict ''u'' 9 (workflow_to_dict demo_flow) = Some (Inr demo_flow)
    \<and> pattern_of_value ''tree'' = None"
  using workflow_roundtrip [of demo_flow "''u''" 9 "''tree''" "demo_phase Pipeline []"]
  by (simp add: demo_flow_def pattern_of_value_def all_patterns_def)

text \<open>The engine after \<open>create_workflow\<close> and \<open>execute_workflow\<close>: the first phase is running.\<close>

definition created :: wf_engine where
  "created = put_workflow demo_flow fresh_engine"

definition started :: wf_engine where
  "started = snd (execute_workflow ''r'' 6 ''wf_1'' ''x'' None created)"

lemma created_reached: "wf_steps sv (fresh_engine, w) (created, w)"
proof -
  have "create_workflow ''1'' 5 ''demo'' [phase_to_dict (demo_phase Pipeline [])] [] [] [] fresh_engine
      = Some (Inr demo_flow, created)"
    using phases_roundtrip [of "[demo_phase Pipeline []]"]
    by (simp add: create_workflow_def workflow_init_def demo_flow_def created_def Let_def)
  then show ?thesis by (blast intro: wf_step.create)
qed

lemma started_reached: "wf_steps sv (fresh_engine, w) (started, w)"
proof -
  have "wf_step sv (created, w) (started, w)"
    unfolding started_def
    by (rule wf_step.start)
      (simp_all add: created_def put_workflow_def fresh_engine_def engine_init_def doc_at_def)
  then show ?thesis using created_reached by (rule rtranclp.rtrancl_into_rtrancl [rotated])
qed

definition demo_run :: wf_run where
  "demo_run = new_run ''r'' 6 ''wf_1''"

definition demo_task :: wf_task where
  "demo_task = \<lparr>tk_place = InPhase, tk_workflow = demo_flow, tk_idx = 0, tk_input = ''x'', tk_results = [],
     tk_tokens = 0, tk_budget = None, tk_cancelled = False\<rparr>"

lemma demo_run_id [simp]: "wr_id demo_run = ''wf_run_r''" "wr_status demo_run = WfRunning"
  "wr_go demo_run" "wr_results demo_run = []" "\<not> wr_cancel demo_run"
  by (simp_all add: demo_run_def new_run_def)

lemma started_eq:
  "run_at started ''wf_run_r'' = Some demo_run" "task_at started ''wf_run_r'' = Some demo_task"
proof -
  have "get_workflow ''wf_1'' created = (Some demo_flow, created)"
    by (simp add: get_workflow_def created_def put_workflow_def demo_flow_def)
  then have "started = loop_head 6 demo_task demo_run (persist_run demo_run (put_run demo_run created))"
    by (simp add: started_def execute_workflow_def Let_def demo_run_def demo_task_def)
  moreover have "loop_head 6 demo_task demo_run e = enter_phase demo_task demo_run e" for e
    by (simp add: loop_head_def) (simp add: demo_task_def demo_flow_def)
  ultimately have st: "started = enter_phase demo_task demo_run (persist_run demo_run (put_run demo_run created))"
    by simp
  show "run_at started ''wf_run_r'' = Some demo_run"
    unfolding st enter_phase_def by (simp add: demo_task_def demo_run_def new_run_def)
  show "task_at started ''wf_run_r'' = Some demo_task"
    unfolding st enter_phase_def by (simp add: demo_task_def)
qed

lemma started_view: "view started ''wf_run_r'' = Some demo_run"
  by (simp add: view_def started_eq)

theorem run_results_in_order_witness:
  "map pr_phase (wr_results demo_run) = map wp_name (take 0 (wf_phases demo_flow)) \<and> tk_idx demo_task < 1"
  using run_results_in_order [OF started_reached started_eq(1)] started_eq(2)
  by (auto simp: demo_task_def demo_flow_def)

theorem interrupted_runs_stuck_witness:
  "task_at (snd (resume_run ''wf_run_r'' (restart_engine started))) ''wf_run_r'' = None"
proof -
  have steps: "wf_steps echo (restart_engine started, ()) (snd (resume_run ''wf_run_r'' (restart_engine started)), ())"
    by (blast intro: wf_step.resume)
  show ?thesis
    using interrupted_runs_stuck [OF started_reached started_view _ steps] demo_run_id(2) by simp
qed

theorem phase_failure_needs_text_witness:
  "\<exists>r'. run_at (fst (phase_done silent 7 ''wf_run_r'' (started, ()))) ''wf_run_r'' = Some r'
    \<and> wr_status r' = WfCompleted \<and> map_option wn_output (wr_final r') = Some ''x''"
proof -
  have "fst (exec_pattern silent (demo_phase Pipeline []) ''x'' None 0 ()) = Inl (AgentErr '''')"
    by (simp add: exec_pattern_def exec_pipeline_def pipeline_items_def demo_phase_def silent_agent
        jget_def dict_get_def)
  then show ?thesis
    using phase_failure_needs_text [OF started_reached started_eq(2), where p = "demo_phase Pipeline []"
        and sv = silent and w = "()" and now = 7]
    by (auto simp: demo_task_def demo_flow_def)
qed

text \<open>The run after it was cancelled, and again after a restart.\<close>

theorem terminal_runs_final_witness:
  "\<exists>r'. view (restart_engine (snd (cancel_run 7 ''wf_run_r'' started))) ''wf_run_r'' = Some r'
    \<and> wr_status r' = WfCancelled"
proof -
  let ?e = "snd (cancel_run 7 ''wf_run_r'' started)"
  have reach: "wf_steps echo (fresh_engine, ()) (?e, ())"
    using started_reached wf_step.cancel by (rule rtranclp.rtrancl_into_rtrancl)
  have step: "wf_steps echo (?e, ()) (restart_engine ?e, ())"
    by (blast intro: wf_step.restart)
  obtain r where r: "view ?e ''wf_run_r'' = Some r" "wr_status r = WfCancelled"
    by (simp add: cancel_run_def restore_run_def started_eq view_def Let_def)
  then show ?thesis using terminal_runs_final [OF reach step r(1)] by auto
qed

end
