(* ===== verification/RunRegistry.thy ===== *)
theory RunRegistry
  imports Json
begin

text \<open>
  Managed runs (\<open>run_registry.py\<close>) and the server-sent event stream that reads them
  (\<open>v1_execute_graph_stream\<close> and \<open>_execute_managed_run\<close> in \<open>api_server.py\<close>). The
  execution of a graph runs in the background and publishes frames into a replay buffer
  and a queue; a client reads the buffer by position and, when it is used up, the queue;
  a client that lost its connection resumes after the last sequence number it saw.

  A frame is a JSON object. The reader is a generator: one \<open>read_step\<close> is one round of
  its loop up to the next yield or wait. Waiting on an empty queue ends with the
  15 second timeout, so a step from there stands for that timeout.
\<close>

section \<open>Runs\<close>

text \<open>A task as the registry sees it: still running, asked to cancel, or finished.\<close>

datatype task_state = TaskActive | TaskCancelRequested | TaskFinished

record managed_run =
  mr_id :: str
  mr_graph :: str
  mr_buffer :: "jobj list"
  mr_next_seq :: int
  mr_queue :: "jobj list"
  mr_task :: "task_state option"
  mr_cancelled :: bool
  mr_done :: bool
  mr_created :: pyfloat

definition run_ttl_seconds :: pyfloat where "run_ttl_seconds = 300"
definition max_runs :: nat where "max_runs = 50"
definition max_buffer :: nat where "max_buffer = 5000"

text \<open>\<open>uid\<close> is the fresh hexadecimal id and \<open>now\<close> the clock.\<close>

definition managed_run_init :: "str \<Rightarrow> pyfloat \<Rightarrow> str \<Rightarrow> managed_run" where
  "managed_run_init uid now graph_id =
     \<lparr>mr_id = ''run-'' @ uid, mr_graph = graph_id, mr_buffer = [], mr_next_seq = 0,
      mr_queue = [], mr_task = None, mr_cancelled = False, mr_done = False,
      mr_created = now\<rparr>"

definition publish :: "jobj \<Rightarrow> managed_run \<Rightarrow> managed_run" where
  "publish frame r =
     (let frame = AList.update ''seq'' (JInt (mr_next_seq r)) frame;
          buf = mr_buffer r @ [frame];
          buf = (if max_buffer < length buf then tl buf else buf)
      in r\<lparr>mr_next_seq := mr_next_seq r + 1, mr_buffer := buf,
           mr_queue := mr_queue r @ [frame]\<rparr>)"

section \<open>The registry\<close>

type_synonym run_registry = "(str, managed_run) dict"

definition run_expired :: "pyfloat \<Rightarrow> managed_run \<Rightarrow> bool" where
  "run_expired now r \<longleftrightarrow> mr_done r \<and> run_ttl_seconds < now - mr_created r"

definition reap :: "pyfloat \<Rightarrow> run_registry \<Rightarrow> run_registry" where
  "reap now reg =
     (let expired = map fst (filter (\<lambda>(rid, r). run_expired now r) reg);
          reg = fold AList.delete expired reg
      in if max_runs < length reg
         then let finished = sort_key mr_created (filter mr_done (map snd reg))
              in fold AList.delete (map mr_id (take (length reg - max_runs) finished)) reg
         else reg)"

definition create_run :: "str \<Rightarrow> pyfloat \<Rightarrow> str \<Rightarrow> run_registry \<Rightarrow> run_registry \<times> managed_run" where
  "create_run uid now graph_id reg =
     (let reg = reap now reg; run = managed_run_init uid now graph_id
      in (AList.update (mr_id run) run reg, run))"

definition get_run :: "str \<Rightarrow> run_registry \<Rightarrow> managed_run option" where
  "get_run rid reg = map_of reg rid"

definition cancel_managed :: "str \<Rightarrow> run_registry \<Rightarrow> run_registry \<times> bool" where
  "cancel_managed rid reg =
     (case map_of reg rid of
        None \<Rightarrow> (reg, False)
      | Some r \<Rightarrow>
          let r = r\<lparr>mr_cancelled := True\<rparr>;
              r = (case mr_task r of
                     None \<Rightarrow> r
                   | Some t \<Rightarrow> if t = TaskFinished then r
                             else r\<lparr>mr_task := Some TaskCancelRequested\<rparr>)
          in (AList.update rid r reg, True))"

text \<open>The cancel route: the run has to belong to the graph named in the path.\<close>

definition cancel_route :: "str \<Rightarrow> str \<Rightarrow> run_registry \<Rightarrow> run_registry \<times> bool" where
  "cancel_route graph_id rid reg =
     (case get_run rid reg of
        None \<Rightarrow> (reg, False)
      | Some r \<Rightarrow> if mr_graph r \<noteq> graph_id then (reg, False)
                else (fst (cancel_managed rid reg), True))"

section \<open>The background execution\<close>

definition frame_type :: "jobj \<Rightarrow> str \<Rightarrow> bool" where
  "frame_type f t \<longleftrightarrow> map_of f ''type'' = Some (JStr t)"

definition stop_types :: "str list" where
  "stop_types = [''result'', ''tool_result'', ''end'', ''error'', ''verify'']"

definition is_breakpoint :: "str \<Rightarrow> jobj \<Rightarrow> bool" where
  "is_breakpoint stop_after ev \<longleftrightarrow> stop_after \<noteq> [] \<and>
     map_of ev ''node_id'' = Some (JStr stop_after) \<and> (\<exists>t\<in>set stop_types. frame_type ev t)"

text \<open>One event of the graph: the pump stops on cancellation and after a breakpoint.\<close>

definition pump_event :: "str \<Rightarrow> jobj \<Rightarrow> managed_run \<Rightarrow> managed_run \<times> bool" where
  "pump_event stop_after ev r =
     (if mr_cancelled r then (r, False)
      else let r = publish ev r in (r, \<not> is_breakpoint stop_after ev))"

fun pump :: "str \<Rightarrow> jobj list \<Rightarrow> managed_run \<Rightarrow> managed_run \<times> bool" where
  "pump stop_after [] r = (r, True)"
| "pump stop_after (ev # evs) r =
     (case pump_event stop_after ev r of
        (r, True) \<Rightarrow> pump stop_after evs r
      | (r, False) \<Rightarrow> (r, False))"

text \<open>
  How the graph's event stream ends: of itself, by the cancellation of the task, or by an
  exception with the given text. A pump that stopped early closes the stream and ends
  normally.
\<close>

datatype stream_outcome = RanOut | TaskCancelled | RunFailed str

definition pump_ended :: "stream_outcome \<Rightarrow> managed_run \<Rightarrow> managed_run" where
  "pump_ended oc r =
     (case oc of
        RanOut \<Rightarrow> r
      | TaskCancelled \<Rightarrow> publish [(''type'', JStr ''cancelled''), (''message'', JStr ''run canceled'')]
                          (r\<lparr>mr_cancelled := True\<rparr>)
      | RunFailed msg \<Rightarrow> publish [(''type'', JStr ''error''), (''message'', JStr msg)] r)"

definition finish_managed :: "managed_run \<Rightarrow> managed_run" where
  "finish_managed r =
     (let r = r\<lparr>mr_done := True\<rparr>
      in if mr_buffer r = [] \<or> \<not> frame_type (last (mr_buffer r)) ''done''
         then publish [(''type'', JStr ''done'')] r else r)"

definition execute_managed_run ::
    "str \<Rightarrow> jobj list \<Rightarrow> stream_outcome \<Rightarrow> managed_run \<Rightarrow> managed_run" where
  "execute_managed_run stop_after evs oc r =
     (case pump stop_after evs r of
        (r, True) \<Rightarrow> finish_managed (pump_ended oc r)
      | (r, False) \<Rightarrow> finish_managed r)"

section \<open>The reader\<close>

datatype reader_pc = AtTop | Waiting | Ended | ReaderRaised

datatype sse_line = RunStarted str | Frame jobj | Keepalive

record reader =
  rd_resumed :: bool
  rd_skip_below :: int
  rd_next :: int
  rd_pc :: reader_pc
  rd_lines :: "sse_line list"

definition reader_init :: "str \<Rightarrow> int option \<Rightarrow> reader" where
  "reader_init rid resume =
     (case resume of
        None \<Rightarrow> \<lparr>rd_resumed = False, rd_skip_below = -1, rd_next = 0, rd_pc = AtTop,
                 rd_lines = [RunStarted rid]\<rparr>
      | Some last_seq \<Rightarrow> \<lparr>rd_resumed = True, rd_skip_below = last_seq, rd_next = last_seq + 1,
                 rd_pc = AtTop, rd_lines = []\<rparr>)"

text \<open>\<open>frame.get("seq", 0)\<close>: every published frame carries an integer.\<close>

definition frame_seq :: "jobj \<Rightarrow> int" where
  "frame_seq f = (case map_of f ''seq'' of Some (JInt n) \<Rightarrow> n | _ \<Rightarrow> 0)"

text \<open>\<open>run.buffer[next_seq]\<close>: a negative position counts from the end.\<close>

definition buffer_at :: "jobj list \<Rightarrow> int \<Rightarrow> jobj option" where
  "buffer_at buf i =
     (if 0 \<le> i \<and> i < int (length buf) then Some (buf ! nat i)
      else if i < 0 \<and> - int (length buf) \<le> i then Some (buf ! nat (int (length buf) + i))
      else None)"

text \<open>The common end of both branches: skip old frames, send the others, stop after done.\<close>

definition send_frame :: "jobj \<Rightarrow> reader \<Rightarrow> reader" where
  "send_frame frame rd =
     (if frame_seq frame \<le> rd_skip_below rd then rd\<lparr>rd_pc := AtTop\<rparr>
      else let out = (if rd_resumed rd then AList.update ''replay'' (JBool True) frame else frame)
           in rd\<lparr>rd_lines := rd_lines rd @ [Frame out],
                 rd_pc := (if frame_type frame ''done'' then Ended else AtTop)\<rparr>)"

definition exhausted :: "managed_run \<Rightarrow> reader \<Rightarrow> bool" where
  "exhausted r rd \<longleftrightarrow> mr_done r \<and> int (length (mr_buffer r)) \<le> rd_next rd"

definition read_step :: "managed_run \<times> reader \<Rightarrow> managed_run \<times> reader" where
  "read_step s = (case s of (r, rd) \<Rightarrow>
     (case rd_pc rd of
        AtTop \<Rightarrow>
          if rd_next rd < int (length (mr_buffer r))
          then (case buffer_at (mr_buffer r) (rd_next rd) of
                  None \<Rightarrow> (r, rd\<lparr>rd_pc := ReaderRaised\<rparr>)
                | Some frame \<Rightarrow> (r, send_frame frame (rd\<lparr>rd_next := rd_next rd + 1\<rparr>)))
          else if exhausted r rd then (r, rd\<lparr>rd_pc := Ended\<rparr>)
          else (r, rd\<lparr>rd_pc := Waiting\<rparr>)
      | Waiting \<Rightarrow>
          (case mr_queue r of
             frame # q \<Rightarrow> (r\<lparr>mr_queue := q\<rparr>, send_frame frame rd)
           | [] \<Rightarrow> if exhausted r rd then (r, rd\<lparr>rd_pc := Ended\<rparr>)
                   else (r, rd\<lparr>rd_lines := rd_lines rd @ [Keepalive], rd_pc := AtTop\<rparr>))
      | _ \<Rightarrow> (r, rd)))"

text \<open>What can happen while one client reads: a frame is published, the client's
  generator takes a step, the run finishes.\<close>

datatype sse_event = Published jobj | ReadStep | RunDone

fun sse_step :: "sse_event \<Rightarrow> managed_run \<times> reader \<Rightarrow> managed_run \<times> reader" where
  "sse_step (Published f) (r, rd) = (publish f r, rd)"
| "sse_step ReadStep s = read_step s"
| "sse_step RunDone (r, rd) = (finish_managed r, rd)"

definition sse_steps :: "sse_event list \<Rightarrow> managed_run \<times> reader \<Rightarrow> managed_run \<times> reader" where
  "sse_steps evs s = fold sse_step evs s"

end
