(* ===== verification/RunRegistryProps.thy ===== *)
theory RunRegistryProps
  imports RunRegistry "HOL-Library.Multiset"
begin

text \<open>
  The properties of managed runs: what a reader delivers, what is lost once the replay
  buffer has been trimmed, that every stream of a finished run ends, and what the reaper
  removes.
\<close>

section \<open>Frames and the invariant of a run\<close>

definition sent_seqs :: "reader \<Rightarrow> int list" where
  "sent_seqs rd = concat (map (\<lambda>l. case l of Frame f \<Rightarrow> [frame_seq f] | _ \<Rightarrow> []) (rd_lines rd))"

lemma sent_seqs_snoc [simp]:
  "sent_seqs (rd\<lparr>rd_lines := ls @ [Frame f], rd_pc := pc\<rparr>) =
     sent_seqs (rd\<lparr>rd_lines := ls\<rparr>) @ [frame_seq f]"
  "sent_seqs (rd\<lparr>rd_lines := ls @ [Keepalive], rd_pc := pc\<rparr>) = sent_seqs (rd\<lparr>rd_lines := ls\<rparr>)"
  by (simp_all add: sent_seqs_def)

lemma sent_seqs_upd [simp]:
  "sent_seqs (rd\<lparr>rd_pc := pc\<rparr>) = sent_seqs rd" "sent_seqs (rd\<lparr>rd_next := n\<rparr>) = sent_seqs rd"
  "sent_seqs (reader_init rid res) = []"
  by (simp_all add: sent_seqs_def reader_init_def split: option.split)

lemma frame_seq_update [simp]:
  "frame_seq (AList.update ''seq'' (JInt n) f) = n"
  "frame_seq (AList.update ''replay'' v f) = frame_seq f"
  by (simp_all add: frame_seq_def)

lemma frame_type_update [simp]:
  "frame_type (AList.update ''seq'' v f) t = frame_type f t"
  by (simp add: frame_type_def)

text \<open>
  A run holds the frames of consecutive numbers that end before the next one: the last
  5000 in the buffer, the ones nobody took yet in the queue.
\<close>

definition run_ok :: "managed_run \<Rightarrow> bool" where
  "run_ok r \<longleftrightarrow> 0 \<le> mr_next_seq r
     \<and> int (length (mr_buffer r)) = min (mr_next_seq r) (int max_buffer)
     \<and> map frame_seq (mr_buffer r) = [mr_next_seq r - int (length (mr_buffer r))..mr_next_seq r - 1]
     \<and> int (length (mr_queue r)) \<le> mr_next_seq r
     \<and> map frame_seq (mr_queue r) = [mr_next_seq r - int (length (mr_queue r))..mr_next_seq r - 1]"

lemma run_ok_init: "run_ok (managed_run_init uid now g)"
  by (simp add: run_ok_def managed_run_init_def max_buffer_def)

lemma upto_tl: "tl [i..j] = [i + 1..j]"
  by (cases "i \<le> j") (simp_all add: upto_rec1)

lemma max_buffer_pos: "0 < max_buffer"
  by (simp add: max_buffer_def)

lemma run_ok_publish:
  assumes ok: "run_ok r"
  shows "run_ok (publish f r)"
proof -
  let ?n = "mr_next_seq r" and ?b = "mr_buffer r" and ?q = "mr_queue r"
  let ?f = "AList.update ''seq'' (JInt ?n) f"
  have n: "0 \<le> ?n" and lb: "int (length ?b) = min ?n (int max_buffer)"
    and b: "map frame_seq ?b = [?n - int (length ?b)..?n - 1]"
    and lq: "int (length ?q) \<le> ?n" and q: "map frame_seq ?q = [?n - int (length ?q)..?n - 1]"
    using ok by (simp_all add: run_ok_def)
  have app: "map frame_seq (xs @ [?f]) = [?n - int (length xs)..?n]"
    if "map frame_seq xs = [?n - int (length xs)..?n - 1]" for xs
    using that by (simp add: upto_rec2 [of "?n - int (length xs)" ?n])
  have tl: "map frame_seq (tl (?b @ [?f])) = [?n + 1 - int (length ?b)..?n]"
    using app [OF b] upto_tl [of "?n - int (length ?b)" ?n] by (simp add: map_tl add.commute add_diff_eq)
  show ?thesis
  proof (cases "max_buffer < Suc (length ?b)")
    case True
    with lb have "length ?b = max_buffer" "int max_buffer \<le> ?n" by auto
    then show ?thesis
      using n lq app [OF q] tl True max_buffer_pos
      by (simp add: run_ok_def publish_def Let_def)
  next
    case False
    with lb have "int (length ?b) = ?n" "?n < int max_buffer" by auto
    then show ?thesis
      using n lq app [OF b] app [OF q] False by (simp add: run_ok_def publish_def Let_def)
  qed
qed

lemma run_ok_upd [simp]:
  "run_ok (r\<lparr>mr_done := d\<rparr>) = run_ok r" "run_ok (r\<lparr>mr_cancelled := d\<rparr>) = run_ok r"
  by (simp_all add: run_ok_def)

lemma run_ok_finish: "run_ok r \<Longrightarrow> run_ok (finish_managed r)"
  by (simp add: finish_managed_def Let_def run_ok_publish)

lemma run_ok_take:
  assumes "run_ok r" "mr_queue r = f # q"
  shows "run_ok (r\<lparr>mr_queue := q\<rparr>)"
    "frame_seq f = mr_next_seq r - int (length (mr_queue r))"
proof -
  from assms have "frame_seq f # map frame_seq q = [mr_next_seq r - 1 - int (length q)..mr_next_seq r - 1]"
    by (simp add: run_ok_def algebra_simps)
  then have "frame_seq f = mr_next_seq r - 1 - int (length q)"
    and "map frame_seq q = [mr_next_seq r - int (length q)..mr_next_seq r - 1]"
    using upto_tl [of "mr_next_seq r - 1 - int (length q)" "mr_next_seq r - 1"]
    by (metis add.commute diff_add_cancel list.inject list.sel(3) list.simps(3) upto_Nil upto_rec1 not_le,
        metis add.commute add_diff_eq diff_add_cancel list.sel(3) diff_diff_eq2 add_uminus_conv_diff diff_diff_add)
  then show "run_ok (r\<lparr>mr_queue := q\<rparr>)"
    "frame_seq f = mr_next_seq r - int (length (mr_queue r))"
    using assms by (simp_all add: run_ok_def)
qed

section \<open>The reader\<close>

lemma buffer_at_seq:
  assumes "run_ok r" "0 \<le> i" "i < int (length (mr_buffer r))"
  shows "\<exists>f. buffer_at (mr_buffer r) i = Some f \<and>
    frame_seq f = mr_next_seq r - int (length (mr_buffer r)) + i \<and> f = mr_buffer r ! nat i"
proof -
  have "map frame_seq (mr_buffer r) ! nat i = [mr_next_seq r - int (length (mr_buffer r))..mr_next_seq r - 1] ! nat i"
    using assms(1) by (simp add: run_ok_def)
  then have "frame_seq (mr_buffer r ! nat i) = mr_next_seq r - int (length (mr_buffer r)) + i"
    using assms(2,3) by (simp add: nth_upto nat_less_iff)
  then show ?thesis using assms(2,3) by (simp add: buffer_at_def)
qed

lemma send_frame_fields [simp]:
  "rd_next (send_frame f rd) = rd_next rd" "rd_skip_below (send_frame f rd) = rd_skip_below rd"
  "rd_resumed (send_frame f rd) = rd_resumed rd"
  by (simp_all add: send_frame_def Let_def)

lemma send_frame_seqs:
  "sent_seqs (send_frame f rd) =
     sent_seqs rd @ (if rd_skip_below rd < frame_seq f then [frame_seq f] else [])"
  by (simp add: send_frame_def Let_def sent_seqs_def)

lemma send_frame_pc: "rd_pc (send_frame f rd) \<in> {AtTop, Ended}"
  by (simp add: send_frame_def Let_def)

text \<open>
  The numbers below the ones still in the queue have been taken from it. Without
  trimming a reader that started after \<open>skip\<close> with \<open>q0\<close> frames already taken has sent
  what it read from the buffer and, once more, what it took from the queue.
\<close>

definition taken :: "managed_run \<Rightarrow> int" where
  "taken r = mr_next_seq r - int (length (mr_queue r))"

definition accounts :: "int \<Rightarrow> int \<Rightarrow> managed_run \<times> reader \<Rightarrow> bool" where
  "accounts skip q0 s = (case s of (r, rd) \<Rightarrow>
     run_ok r \<and> rd_skip_below rd = skip \<and> -1 \<le> skip \<and> skip < rd_next rd
     \<and> rd_next rd \<le> max (skip + 1) (mr_next_seq r) \<and> q0 \<le> taken r \<and> rd_pc rd \<noteq> ReaderRaised
     \<and> mset (sent_seqs rd) = mset [skip + 1..rd_next rd - 1] + mset (filter ((<) skip) [q0..taken r - 1]))"

lemma accounts_start:
  assumes "run_ok r" "-1 \<le> skip" "resume = None \<and> skip = -1 \<or> resume = Some skip"
  shows "accounts skip (taken r) (r, reader_init rid resume)"
  using assms by (auto simp: accounts_def) (auto simp: reader_init_def)

lemma taken_simps [simp]:
  "taken (publish f r) = taken r" "taken (r\<lparr>mr_done := d\<rparr>) = taken r"
  "taken (finish_managed r) = taken r"
  by (simp_all add: taken_def publish_def finish_managed_def Let_def)

lemma publish_next [simp]: "mr_next_seq (publish f r) = mr_next_seq r + 1"
  by (simp add: publish_def Let_def)

lemma finish_next: "mr_next_seq r \<le> mr_next_seq (finish_managed r)"
  by (simp add: finish_managed_def Let_def)

lemma accounts_publish:
  assumes "accounts skip q0 (r, rd)"
  shows "accounts skip q0 (publish f r, rd)"
  using assms by (auto simp: accounts_def run_ok_publish)

lemma accounts_finish:
  assumes "accounts skip q0 (r, rd)"
  shows "accounts skip q0 (finish_managed r, rd)"
proof -
  note finish_next [of r]
  then show ?thesis using assms by (auto simp: accounts_def run_ok_finish)
qed

lemma accounts_read:
  assumes acc: "accounts skip q0 (r, rd)" and few: "mr_next_seq r \<le> int max_buffer"
  shows "accounts skip q0 (read_step (r, rd))"
proof (cases "rd_pc rd")
  case AtTop
  have ok: "run_ok r" and n0: "0 \<le> rd_next rd" using acc by (auto simp: accounts_def)
  have len: "int (length (mr_buffer r)) = mr_next_seq r"
    using ok few by (simp add: run_ok_def)
  show ?thesis
  proof (cases "rd_next rd < int (length (mr_buffer r))")
    case True
    from buffer_at_seq [OF ok n0 True] len obtain f where
      f: "buffer_at (mr_buffer r) (rd_next rd) = Some f" "frame_seq f = rd_next rd"
      by auto
    have "mset [skip + 1..rd_next rd] = mset [skip + 1..rd_next rd - 1] + {#rd_next rd#}"
      using acc upto_rec2 [of "skip + 1" "rd_next rd"] by (simp add: accounts_def)
    then show ?thesis
      using acc True AtTop f len send_frame_pc [of f "rd\<lparr>rd_next := rd_next rd + 1\<rparr>"]
      by (auto simp: accounts_def read_step_def send_frame_seqs)
  next
    case False
    then show ?thesis using acc AtTop by (auto simp: accounts_def read_step_def)
  qed
next
  case Waiting
  show ?thesis
  proof (cases "mr_queue r")
    case Nil
    then show ?thesis using acc Waiting
      by (auto simp: accounts_def read_step_def) (simp_all add: sent_seqs_def)
  next
    case (Cons f q)
    have ok: "run_ok r" using acc by (simp add: accounts_def)
    note t = run_ok_take(1) [OF ok Cons]
    have fs: "frame_seq f = taken r" using run_ok_take(2) [OF ok Cons] by (simp add: taken_def)
    have tk: "taken (r\<lparr>mr_queue := q\<rparr>) = taken r + 1" using Cons by (simp add: taken_def)
    have "[q0..taken r] = [q0..taken r - 1] @ [taken r]"
      using acc upto_rec2 [of q0 "taken r"] by (simp add: accounts_def)
    then show ?thesis
      using acc Waiting Cons t tk fs send_frame_pc [of f rd]
      by (auto simp: accounts_def read_step_def send_frame_seqs)
  qed
qed (use acc in \<open>auto simp: accounts_def read_step_def\<close>)

lemma next_read_step [simp]: "mr_next_seq (fst (read_step s)) = mr_next_seq (fst s)"
  by (cases s) (auto simp: read_step_def split: reader_pc.splits option.splits list.splits)

lemma next_sse_step: "mr_next_seq (fst s) \<le> mr_next_seq (fst (sse_step e s))"
  by (cases "(e, s)" rule: sse_step.cases) (auto simp: finish_next)

lemma next_sse_steps: "mr_next_seq (fst s) \<le> mr_next_seq (fst (sse_steps evs s))"
proof (induction evs arbitrary: s)
  case Nil
  then show ?case by (simp add: sse_steps_def)
next
  case (Cons e evs)
  from Cons [of "sse_step e s"] next_sse_step [of s e] show ?case by (simp add: sse_steps_def)
qed

lemma accounts_steps:
  assumes "accounts skip q0 s" "mr_next_seq (fst (sse_steps evs s)) \<le> int max_buffer"
  shows "accounts skip q0 (sse_steps evs s)"
  using assms
proof (induction evs arbitrary: s)
  case Nil
  then show ?case by (simp add: sse_steps_def)
next
  case (Cons e evs)
  obtain r rd where s: "s = (r, rd)" by (cases s)
  have "mr_next_seq r \<le> int max_buffer"
    using Cons.prems(2) next_sse_steps [of s "e # evs"] s by simp
  then have "accounts skip q0 (sse_step e s)"
    using Cons.prems(1) s by (cases e) (simp_all add: accounts_publish accounts_finish accounts_read)
  with Cons show ?case by (simp add: sse_steps_def)
qed

text \<open>A live client: everything so far has been sent and taken, and it waits.\<close>

definition caught_up :: "int \<Rightarrow> managed_run \<times> reader \<Rightarrow> bool" where
  "caught_up n s = (case s of (r, rd) \<Rightarrow>
     run_ok r \<and> mr_queue r = [] \<and> mr_next_seq r = n \<and> rd_next rd = n \<and> rd_pc rd = Waiting
     \<and> \<not> rd_resumed rd \<and> rd_skip_below rd = -1)"

lemma live_round:
  assumes up: "caught_up n (r, rd)" and few: "n < int max_buffer"
    and notdone: "\<not> frame_type f ''done''" and running: "\<not> mr_done r"
  defines "s \<equiv> sse_steps [Published f, ReadStep, ReadStep, ReadStep] (r, rd)"
  shows "caught_up (n + 1) s \<and> sent_seqs (snd s) = sent_seqs rd @ [n, n] \<and> \<not> mr_done (fst s)"
proof -
  let ?f = "AList.update ''seq'' (JInt n) f"
  have n: "0 \<le> n" "int (length (mr_buffer r)) = n"
    using up few by (auto simp: caught_up_def run_ok_def)
  then have len: "length (mr_buffer r) = nat n" "\<not> max_buffer < Suc (nat n)" using few by auto
  have ok: "run_ok ((publish f r)\<lparr>mr_queue := []\<rparr>)"
    using run_ok_publish [of r f] up
    by (auto simp: caught_up_def run_ok_def publish_def Let_def split: if_splits)
  have b: "buffer_at (mr_buffer r @ [?f]) n = Some ?f"
    using n(1) len(1) by (simp add: buffer_at_def nth_append)
  show ?thesis
    using up ok len n(1) b notdone running unfolding s_def sse_steps_def
    by (simp add: caught_up_def read_step_def publish_def send_frame_def exhausted_def sent_seqs_def Let_def)
qed

lemma live_rounds:
  assumes "caught_up n s" "n + int (length fs) \<le> int max_buffer"
    "\<And>f. f \<in> set fs \<Longrightarrow> \<not> frame_type f ''done''" "\<not> mr_done (fst s)"
  shows "sent_seqs (snd (sse_steps (concat (map (\<lambda>f. [Published f, ReadStep, ReadStep, ReadStep]) fs)) s)) =
    sent_seqs (snd s) @ concat (map (\<lambda>i. [i, i]) [n..n + int (length fs) - 1])"
  using assms
proof (induction fs arbitrary: n s)
  case Nil
  then show ?case by (simp add: sse_steps_def)
next
  case (Cons f fs)
  let ?s = "sse_steps [Published f, ReadStep, ReadStep, ReadStep] s"
  obtain r rd where s: "s = (r, rd)" by (cases s)
  have one: "caught_up (n + 1) ?s" "sent_seqs (snd ?s) = sent_seqs (snd s) @ [n, n]" "\<not> mr_done (fst ?s)"
    using live_round [of n r rd f] Cons.prems s by auto
  have "sse_steps (concat (map (\<lambda>f. [Published f, ReadStep, ReadStep, ReadStep]) (f # fs))) s =
      sse_steps (concat (map (\<lambda>f. [Published f, ReadStep, ReadStep, ReadStep]) fs)) ?s"
    by (simp add: sse_steps_def)
  moreover have "[n..n + int (length (f # fs)) - 1] = n # [n + 1..n + 1 + int (length fs) - 1]"
    using upto_rec1 [of n "n + int (length fs)"] by (simp add: algebra_simps)
  ultimately show ?case
    using Cons.IH [OF one(1) _ _ one(3)] Cons.prems one(2) by simp
qed

section \<open>Reading from the buffer\<close>

text \<open>Steps of a reader that only reads: once it is at the top with frames before it, it takes them.\<close>

definition reads :: "nat \<Rightarrow> managed_run \<times> reader \<Rightarrow> managed_run \<times> reader" where
  "reads n s = sse_steps (replicate n ReadStep) s"

lemma reads_simps [simp]: "reads 0 s = s" "reads (Suc n) s = reads n (read_step s)"
  by (simp_all add: reads_def sse_steps_def)

lemma reads_Ended: "rd_pc rd = Ended \<Longrightarrow> reads n (r, rd) = (r, rd)"
  by (induction n) (simp_all add: read_step_def)

lemma reads_add: "reads (m + n) s = reads n (reads m s)"
  by (induction m arbitrary: s) simp_all

text \<open>From the top of its loop a client of a finished run ends after the frames left.\<close>

lemma reads_end_top:
  assumes "mr_done r" "rd_pc rd = AtTop" "- int (length (mr_buffer r)) \<le> rd_next rd"
    "n > nat (int (length (mr_buffer r)) - rd_next rd)"
  shows "rd_pc (snd (reads n (r, rd))) = Ended"
  using assms
proof (induction n arbitrary: rd)
  case 0
  then show ?case by simp
next
  case (Suc n)
  show ?case
  proof (cases "rd_next rd < int (length (mr_buffer r))")
    case True
    then obtain f where f: "buffer_at (mr_buffer r) (rd_next rd) = Some f"
      using Suc.prems(3) by (cases "0 \<le> rd_next rd") (auto simp: buffer_at_def)
    let ?rd = "send_frame f (rd\<lparr>rd_next := rd_next rd + 1\<rparr>)"
    have step: "read_step (r, rd) = (r, ?rd)" using True f Suc.prems(2) by (simp add: read_step_def)
    show ?thesis
    proof (cases "rd_pc ?rd = Ended")
      case True
      then show ?thesis using step by (simp add: reads_Ended)
    next
      case False
      then have "rd_pc ?rd = AtTop" using send_frame_pc [of f "rd\<lparr>rd_next := rd_next rd + 1\<rparr>"] by auto
      then show ?thesis using Suc.IH [of ?rd] Suc.prems True step by simp
    qed
  next
    case False
    then have "read_step (r, rd) = (r, rd\<lparr>rd_pc := Ended\<rparr>)"
      using Suc.prems(1,2) by (simp add: read_step_def exhausted_def)
    then show ?thesis by (simp add: reads_Ended)
  qed
qed

lemma reads_end:
  assumes d: "mr_done r" and pc: "rd_pc rd \<noteq> ReaderRaised"
    and nx: "- int (length (mr_buffer r)) \<le> rd_next rd"
  shows "rd_pc (snd (reads (nat (int (length (mr_buffer r)) - rd_next rd) + 2) (r, rd))) = Ended"
proof (cases "rd_pc rd")
  case AtTop
  show ?thesis by (rule reads_end_top [OF d AtTop nx]) simp
next
  case Waiting
  obtain r2 rd2 where s: "read_step (r, rd) = (r2, rd2)" by (cases "read_step (r, rd)")
  then have keep: "mr_done r2" "mr_buffer r2 = mr_buffer r" "rd_next rd2 = rd_next rd" "rd_pc rd2 \<in> {AtTop, Ended}"
    using Waiting d send_frame_pc [of _ rd] by (auto simp: read_step_def split: list.splits if_splits)
  let ?m = "Suc (nat (int (length (mr_buffer r)) - rd_next rd))"
  have "rd_pc (snd (reads ?m (r2, rd2))) = Ended"
  proof (cases "rd_pc rd2 = Ended")
    case True
    then show ?thesis by (simp only: reads_Ended snd_conv)
  next
    case False
    then show ?thesis using keep nx by (intro reads_end_top) auto
  qed
  then show ?thesis using s by simp
next
  case Ended
  show ?thesis using Ended by (simp only: reads_Ended snd_conv)
qed (use pc in simp)

lemma reads_all:
  assumes "run_ok r" "rd_pc rd = AtTop" "0 \<le> rd_next rd"
    "rd_skip_below rd < mr_next_seq r - int (length (mr_buffer r)) + rd_next rd"
    "\<And>i. rd_next rd \<le> int i \<Longrightarrow> Suc i < length (mr_buffer r) \<Longrightarrow> \<not> frame_type (mr_buffer r ! i) ''done''"
    "int m = int (length (mr_buffer r)) - rd_next rd"
  shows "\<exists>rd'. reads m (r, rd) = (r, rd') \<and> rd_pc rd' \<in> {AtTop, Ended} \<and>
    rd_next rd' = int (length (mr_buffer r)) \<and> sent_seqs rd' = sent_seqs rd @
    [mr_next_seq r - int (length (mr_buffer r)) + rd_next rd..mr_next_seq r - 1]"
  using assms
proof (induction m arbitrary: rd)
  case 0
  then show ?case by simp
next
  case (Suc m)
  let ?base = "mr_next_seq r - int (length (mr_buffer r))"
  have lt: "rd_next rd < int (length (mr_buffer r))" using Suc.prems(6) by simp
  from buffer_at_seq [OF Suc.prems(1,3) lt] obtain f where
    f: "buffer_at (mr_buffer r) (rd_next rd) = Some f" "frame_seq f = ?base + rd_next rd"
      "f = mr_buffer r ! nat (rd_next rd)" by auto
  let ?rd = "send_frame f (rd\<lparr>rd_next := rd_next rd + 1\<rparr>)"
  have step: "reads (Suc m) (r, rd) = reads m (r, ?rd)"
    using lt f(1) Suc.prems(2) by (simp add: read_step_def)
  have sent: "sent_seqs ?rd = sent_seqs rd @ [?base + rd_next rd]"
    using Suc.prems(4) f(2) by (simp add: send_frame_seqs)
  have up: "[?base + rd_next rd..mr_next_seq r - 1] = (?base + rd_next rd) # [?base + (rd_next rd + 1)..mr_next_seq r - 1]"
    using upto_rec1 [of "?base + rd_next rd" "mr_next_seq r - 1"] lt by (simp add: algebra_simps)
  show ?case
  proof (cases m)
    case 0
    have "[?base + rd_next rd..mr_next_seq r - 1] = [?base + rd_next rd]"
      using up 0 Suc.prems(6) by simp
    then show ?thesis using step sent 0 Suc.prems(6) send_frame_pc [of f] by auto
  next
    case (Suc k)
    have "\<not> frame_type f ''done''"
      using Suc.prems(5) [of "nat (rd_next rd)"] Suc.prems(3,6) f(3) Suc by simp
    then have pc: "rd_pc ?rd = AtTop"
      by (simp add: send_frame_def Let_def)
    have nd: "\<not> frame_type (mr_buffer r ! i) ''done''"
      if "rd_next ?rd \<le> int i" "Suc i < length (mr_buffer r)" for i
      using Suc.prems(5) that by simp
    from Suc.IH [OF Suc.prems(1) pc _ _ nd] show ?thesis
      using step sent up Suc.prems(3,4,6) by simp
  qed
qed

section \<open>The reaper\<close>

lemma reap_step: "reap now reg =
   (let kept = filter (\<lambda>p. fst p \<notin> set (map fst (filter (\<lambda>(rid, r). run_expired now r) reg))) reg
    in if max_runs < length kept
       then filter (\<lambda>p. fst p \<notin> set (map mr_id (take (length kept - max_runs)
              (sort_key mr_created (filter mr_done (map snd kept)))))) kept
       else kept)"
  unfolding reap_def Let_def fold_delete by simp

definition registry_ok :: "run_registry \<Rightarrow> bool" where
  "registry_ok reg \<longleftrightarrow> dict_ok reg \<and> (\<forall>(rid, r) \<in> set reg. mr_id r = rid)"

lemma registry_ok_filter: "registry_ok reg \<Longrightarrow> registry_ok (filter P reg)"
  by (auto simp: registry_ok_def dict_ok_filter)

lemma filter_expired:
  assumes "registry_ok reg"
  shows "filter (\<lambda>p. fst p \<notin> set (map fst (filter (\<lambda>(rid, r). run_expired now r) reg))) reg =
    filter (\<lambda>p. \<not> run_expired now (snd p)) reg"
proof (rule filter_cong [OF refl])
  fix p assume p: "p \<in> set reg"
  have "q = p" if "q \<in> set reg" "fst q = fst p" for q
    using assms p that by (metis dict_mem_iff option.inject prod.collapse registry_ok_def)
  then have "p \<in> set reg \<Longrightarrow> fst p \<in> fst ` {x \<in> set reg. run_expired now (snd x)} \<longleftrightarrow> run_expired now (snd p)"
    using p by force
  then show "(fst p \<notin> set (map fst (filter (\<lambda>(rid, r). run_expired now r) reg))) = (\<not> run_expired now (snd p))"
    using p by (simp add: case_prod_unfold)
qed

lemma filter_capped:
  fixes n :: nat
  assumes ok: "registry_ok kept"
  defines "old \<equiv> take n (sort_key mr_created (filter mr_done (map snd kept)))"
  shows "filter (\<lambda>p. fst p \<notin> set (map mr_id old)) kept = filter (\<lambda>p. snd p \<notin> set old) kept"
proof (rule filter_cong [OF refl])
  fix p assume p: "p \<in> set kept"
  have sub: "set old \<subseteq> snd ` set kept"
    using set_take_subset [of n "sort_key mr_created (filter mr_done (map snd kept))"]
    by (auto simp: old_def)
  have inj: "snd q = snd p" if "q \<in> set kept" "mr_id (snd q) = fst p" for q
  proof -
    have "fst q = fst p" using ok that by (cases q) (auto simp: registry_ok_def)
    then show ?thesis using ok p that(1) by (metis dict_mem_iff option.inject prod.collapse registry_ok_def)
  qed
  have "mr_id (snd p) = fst p" using ok p by (cases p) (auto simp: registry_ok_def)
  then have "fst p \<in> mr_id ` set old \<longleftrightarrow> snd p \<in> set old"
    using sub inj by (smt (verit) image_iff subsetD)
  then show "(fst p \<notin> set (map mr_id old)) = (snd p \<notin> set old)" by simp
qed

lemma sorted_take_le:
  assumes "x \<in> set (take n (sort_key f xs))" "y \<in> set xs" "y \<notin> set (take n (sort_key f xs))"
  shows "f x \<le> f y"
proof -
  let ?s = "sort_key f xs"
  have "y \<in> set (drop n ?s)"
    using assms(2,3) by (metis UnE append_take_drop_id set_append set_sort)
  moreover have "sorted (map f (take n ?s) @ map f (drop n ?s))"
    by (metis append_take_drop_id map_append sorted_sort_key)
  ultimately show ?thesis using assms(1) by (auto simp: sorted_append)
qed

lemma distinct_runs: "registry_ok reg \<Longrightarrow> distinct (map snd reg)"
  by (induction reg) (force simp: registry_ok_def dict_ok_def)+

lemma length_capped:
  fixes n m :: nat
  assumes ok: "registry_ok kept" and n: "n = length kept - m"
  defines "old \<equiv> take n (sort_key mr_created (filter mr_done (map snd kept)))"
  defines "new \<equiv> filter (\<lambda>p. snd p \<notin> set old) kept"
  shows "length new \<le> m \<or> (\<forall>p \<in> set new. \<not> mr_done (snd p))"
proof (cases "n \<le> length (filter mr_done (map snd kept))")
  case True
  have d: "distinct (map snd kept)" using ok by (rule distinct_runs)
  have "length (filter (\<lambda>p. snd p \<in> set old) kept) = length (filter (\<lambda>r. r \<in> set old) (map snd kept))"
    by (simp add: filter_map o_def)
  also have "\<dots> = card (set old)"
  proof -
    have "set old \<subseteq> snd ` set kept"
      using set_take_subset [of n "sort_key mr_created (filter mr_done (map snd kept))"]
      by (auto simp: old_def)
    then have "set (filter (\<lambda>r. r \<in> set old) (map snd kept)) = set old" by auto
    then show ?thesis using d by (metis distinct_card distinct_filter)
  qed
  also have "\<dots> = n"
  proof -
    have "distinct old" using d by (simp add: old_def)
    then show ?thesis using True by (simp add: distinct_card) (simp add: old_def)
  qed
  finally have "length new = length kept - n"
    using sum_length_filter_compl [of "\<lambda>p. snd p \<in> set old" kept] by (simp add: new_def)
  then show ?thesis using n by auto
next
  case False
  then have "set old = set (filter mr_done (map snd kept))" by (simp add: old_def)
  then show ?thesis by (auto simp: new_def)
qed

section \<open>Properties\<close>

text \<open>
  C19: As long as at most 5000 frames have been published, a client has sent exactly: each
  frame after its starting point up to its position in the buffer, and once more each of
  those frames that it took from the queue. This holds for a new client and for one that
  resumes after a lost connection, in every order of publishing, finishing and reading.
\<close>

theorem stream_accounting:
  assumes "r = fst (sse_steps evs (managed_run_init uid now g, reader_init rid None))"
    and "(r', rd) = sse_steps evs' (r, reader_init rid resume)"
    and "skip = (case resume of None \<Rightarrow> -1 | Some k \<Rightarrow> k)" "-1 \<le> skip"
    and "mr_next_seq r' \<le> int max_buffer"
  shows "mset (sent_seqs rd) =
      mset [skip + 1..rd_next rd - 1] + mset (filter ((<) skip) [taken r..taken r' - 1])
    \<and> rd_next rd \<le> max (skip + 1) (mr_next_seq r') \<and> rd_pc rd \<noteq> ReaderRaised"
proof -
  let ?i = "(managed_run_init uid now g, reader_init rid None)"
  have n: "mr_next_seq r \<le> int max_buffer"
    using assms(2,5) next_sse_steps [of "(r, reader_init rid resume)" evs'] by (metis fst_conv order_trans)
  have "accounts (-1) (taken (managed_run_init uid now g)) ?i"
    by (rule accounts_start) (simp_all add: run_ok_init)
  then have "accounts (-1) (taken (managed_run_init uid now g)) (sse_steps evs ?i)"
    using n assms(1) by (intro accounts_steps) simp_all
  then have ok: "run_ok r" using assms(1) by (auto simp: accounts_def)
  have "accounts skip (taken r) (r, reader_init rid resume)"
    using assms(3,4) by (intro accounts_start ok) (auto split: option.splits)
  then have "accounts skip (taken r) (r', rd)"
    unfolding assms(2) using assms(5) assms(2) [symmetric] by (intro accounts_steps) simp_all
  then show ?thesis by (auto simp: accounts_def)
qed

text \<open>
  A client that reads a run while it is being produced, one frame at a time, receives
  every frame twice: once from the queue and once from the buffer.
\<close>

theorem live_frames_twice:
  assumes "\<And>f. f \<in> set fs \<Longrightarrow> \<not> frame_type f ''done''" "length fs \<le> max_buffer"
  shows "sent_seqs (snd (sse_steps
      (ReadStep # concat (map (\<lambda>f. [Published f, ReadStep, ReadStep, ReadStep]) fs))
      (managed_run_init uid now g, reader_init rid None))) =
    concat (map (\<lambda>i. [i, i]) [0..int (length fs) - 1])"
proof -
  let ?s = "read_step (managed_run_init uid now g, reader_init rid None)"
  have "caught_up 0 ?s" "sent_seqs (snd ?s) = []" "\<not> mr_done (fst ?s)"
    by (simp_all add: caught_up_def read_step_def managed_run_init_def reader_init_def
        exhausted_def run_ok_def max_buffer_def sent_seqs_def)
  from live_rounds [OF this(1) _ _ this(3), of fs] this(2) assms
  show ?thesis by (simp add: sse_steps_def)
qed

text \<open>
  Once more than 5000 frames have been published, a position in the buffer is no longer a
  sequence number: a client that resumes a finished run after frame \<open>s\<close> misses as many
  frames as have been dropped, also when all the frames it asks for are still in the
  buffer.
\<close>

theorem resume_skips_frames:
  assumes "run_ok r" "int max_buffer < mr_next_seq r" "mr_queue r = []" "mr_done r"
    and "-1 \<le> s" "s < int max_buffer"
    and "\<And>f. f \<in> set (butlast (mr_buffer r)) \<Longrightarrow> \<not> frame_type f ''done''"
    and "(r', rd) = reads (nat (int max_buffer - s + 1)) (r, reader_init rid (Some s))"
  shows "sent_seqs rd = [s + 1 + (mr_next_seq r - int max_buffer)..mr_next_seq r - 1]
    \<and> rd_pc rd = Ended"
proof -
  let ?rd = "reader_init rid (Some s)" and ?m = "nat (int max_buffer - (s + 1))"
  have len: "int (length (mr_buffer r)) = int max_buffer"
    using assms(1,2) by (simp add: run_ok_def)
  have nd: "\<not> frame_type (mr_buffer r ! i) ''done''" if "Suc i < length (mr_buffer r)" for i
  proof -
    have "i < length (butlast (mr_buffer r))" using that by simp
    then show ?thesis using assms(7) by (metis nth_butlast nth_mem)
  qed
  have "\<exists>rd'. reads ?m (r, ?rd) = (r, rd') \<and> rd_pc rd' \<in> {AtTop, Ended} \<and>
      rd_next rd' = int (length (mr_buffer r)) \<and> sent_seqs rd' = sent_seqs ?rd @
      [mr_next_seq r - int (length (mr_buffer r)) + rd_next ?rd..mr_next_seq r - 1]"
    using assms(1,2,5,6) len nd by (intro reads_all) (simp_all add: reader_init_def)
  then obtain rd' where rd': "reads ?m (r, ?rd) = (r, rd')" "rd_pc rd' \<in> {AtTop, Ended}"
      "rd_next rd' = int (length (mr_buffer r))"
      "sent_seqs rd' = [s + 1 + (mr_next_seq r - int max_buffer)..mr_next_seq r - 1]"
    using len by (auto simp: reader_init_def sent_seqs_def algebra_simps)
  have "nat (int max_buffer - s + 1) = ?m + 2" using assms(6) by simp
  then have "(r', rd) = reads 2 (r, rd')"
    using assms(8) rd'(1) by (simp only: reads_add)
  moreover have "rd_pc rd' = Ended \<or> read_step (r, rd') = (r, rd'\<lparr>rd_pc := Ended\<rparr>)"
    using rd'(2,3) assms(4) by (auto simp: read_step_def exhausted_def)
  ultimately show ?thesis
    using rd'(4) by (auto simp: numeral_2_eq_2 reads_Ended) (simp_all add: reads_Ended read_step_def)
qed

text \<open>
  The background execution always leaves a finished run whose last frame is a done frame,
  and a client of it, new or resumed after any frame, ends within as many steps as there
  are frames left, plus two.
\<close>

theorem streams_end:
  assumes "r = execute_managed_run stop_after evs oc r0"
    and "rd_pc rd \<noteq> ReaderRaised" "0 \<le> rd_next rd"
  shows "mr_done r \<and> mr_buffer r \<noteq> [] \<and> frame_type (last (mr_buffer r)) ''done''
    \<and> rd_pc (snd (reads (nat (int (length (mr_buffer r)) - rd_next rd) + 2) (r, rd))) = Ended"
proof -
  have fin: "mr_done (finish_managed q) \<and> mr_buffer (finish_managed q) \<noteq> [] \<and>
      frame_type (last (mr_buffer (finish_managed q))) ''done''" for q
  proof -
    have "last (tl (xs @ [x])) = x \<and> tl (xs @ [x]) \<noteq> []" if "max_buffer < Suc (length xs)"
      for xs :: "jobj list" and x
      using that max_buffer_pos by (cases xs) auto
    then show ?thesis
      using max_buffer_pos by (auto simp: finish_managed_def publish_def Let_def frame_type_def)
  qed
  have "\<exists>q. r = finish_managed q"
    using assms(1) by (auto simp: execute_managed_run_def split: prod.splits bool.splits)
  with fin have r: "mr_done r" "mr_buffer r \<noteq> []" "frame_type (last (mr_buffer r)) ''done''"
    by blast+
  show ?thesis using r reads_end [OF r(1) assms(2)] assms(3) by simp
qed

text \<open>
  The reaper keeps every run that is still going, removes every finished run older than
  300 seconds, leaves at most 50 runs or no finished one, and drops only the oldest of the
  finished runs to get there.
\<close>

theorem reap_exact:
  assumes "registry_ok reg"
  shows "registry_ok (reap now reg) \<and> set (reap now reg) \<subseteq> set reg
    \<and> (\<forall>(rid, r) \<in> set reg. \<not> mr_done r \<longrightarrow> (rid, r) \<in> set (reap now reg))
    \<and> (\<forall>(rid, r) \<in> set (reap now reg). \<not> run_expired now r)
    \<and> (length (reap now reg) \<le> max_runs \<or> (\<forall>(rid, r) \<in> set (reap now reg). \<not> mr_done r))
    \<and> (\<forall>p \<in> set reg - set (reap now reg). \<forall>p' \<in> set (reap now reg).
         \<not> run_expired now (snd p) \<and> mr_done (snd p') \<longrightarrow> mr_created (snd p) \<le> mr_created (snd p'))"
proof -
  define kept where "kept = filter (\<lambda>p. \<not> run_expired now (snd p)) reg"
  define old where "old = take (length kept - max_runs) (sort_key mr_created (filter mr_done (map snd kept)))"
  have kept: "registry_ok kept" using assms by (simp add: kept_def registry_ok_filter)
  have reap: "reap now reg = filter (\<lambda>p. snd p \<notin> set old) kept"
  proof (cases "max_runs < length kept")
    case True
    then show ?thesis
      using reap_step [of now reg] filter_expired [OF assms, of now]
        filter_capped [OF kept, of "length kept - max_runs"]
      by (simp add: kept_def [symmetric] old_def [symmetric])
  next
    case False
    then have "old = []" by (simp add: old_def)
    then show ?thesis
      using False reap_step [of now reg] filter_expired [OF assms, of now] by (simp add: kept_def [symmetric])
  qed
  have done_old: "mr_done x" if "x \<in> set old" for x
    using that set_take_subset [of "length kept - max_runs" "sort_key mr_created (filter mr_done (map snd kept))"]
    by (auto simp: old_def)
  have "mr_created (snd p) \<le> mr_created (snd p')"
    if "p \<in> set reg - set (reap now reg)" "\<not> run_expired now (snd p)"
      "p' \<in> set (reap now reg)" "mr_done (snd p')" for p p'
  proof -
    have "snd p \<in> set old" using that(1,2) by (auto simp: reap kept_def)
    moreover have "snd p' \<in> set (filter mr_done (map snd kept))" "snd p' \<notin> set old"
      using that(3,4) by (auto simp: reap)
    ultimately show ?thesis unfolding old_def by (rule sorted_take_le)
  qed
  moreover have "length (reap now reg) \<le> max_runs \<or> (\<forall>(rid, r) \<in> set (reap now reg). \<not> mr_done r)"
    using length_capped [OF kept refl, of max_runs] by (auto simp: reap old_def)
  moreover have "registry_ok (reap now reg)" using kept by (simp add: reap registry_ok_filter)
  ultimately show ?thesis
    using done_old by (auto simp: reap kept_def run_expired_def)
qed

section \<open>Examples\<close>

definition demo_frame :: jobj where
  "demo_frame = [(''type'', JStr ''token'')]"

definition done_frame :: jobj where
  "done_frame = [(''type'', JStr ''done'')]"

lemmas demo_run_defs = demo_frame_def done_frame_def managed_run_init_def reader_init_def
  sse_steps_def read_step_def publish_def send_frame_def frame_type_def frame_seq_def
  buffer_at_def exhausted_def finish_managed_def sent_seqs_def max_buffer_def Let_def

lemma stream_accounting_witness:
  "mset (sent_seqs (snd (sse_steps [ReadStep, ReadStep] (fst (sse_steps [Published demo_frame, Published demo_frame]
      (managed_run_init ''a'' 0 ''g'', reader_init ''run-a'' None)), reader_init ''run-a'' (Some 0))))) = {#1#}"
proof -
  define r where "r = fst (sse_steps [Published demo_frame, Published demo_frame]
      (managed_run_init ''a'' 0 ''g'', reader_init ''run-a'' None))"
  define s where "s = sse_steps [ReadStep, ReadStep] (r, reader_init ''run-a'' (Some 0))"
  have s: "rd_next (snd s) = 2" "taken (fst s) = 0" "taken r = 0" "mr_next_seq (fst s) = 2"
    by (simp_all add: s_def r_def demo_run_defs taken_def)
  show ?thesis
    using stream_accounting [OF r_def, where r' = "fst s" and rd = "snd s" and evs' = "[ReadStep, ReadStep]"
        and resume = "Some 0" and skip = 0] r_def s_def s
    by (simp add: max_buffer_def)
qed

lemma live_frames_twice_witness:
  "sent_seqs (snd (sse_steps
      (ReadStep # concat (map (\<lambda>f. [Published f, ReadStep, ReadStep, ReadStep]) [demo_frame, demo_frame]))
      (managed_run_init ''a'' 0 ''g'', reader_init ''run-a'' None))) = [0, 0, 1, 1]"
proof -
  have "[0..int (length [demo_frame, demo_frame]) - 1] = [0, 1]" by (simp add: upto.simps)
  then show ?thesis
    using live_frames_twice [of "[demo_frame, demo_frame]" "''a''" 0 "''g''" "''run-a''"]
    by (simp add: demo_frame_def frame_type_def max_buffer_def)
qed

text \<open>A run with \<open>n\<close> frames and a final done frame, all taken from the queue.\<close>

definition filled :: "nat \<Rightarrow> managed_run" where
  "filled n = (finish_managed ((publish demo_frame ^^ n) (managed_run_init ''a'' 0 ''g'')))\<lparr>mr_queue := []\<rparr>"

lemma filled_ok:
  "run_ok ((publish demo_frame ^^ n) (managed_run_init ''a'' 0 ''g''))"
  "mr_next_seq ((publish demo_frame ^^ n) (managed_run_init ''a'' 0 ''g'')) = int n"
  "f \<in> set (mr_buffer ((publish demo_frame ^^ n) (managed_run_init ''a'' 0 ''g''))) \<Longrightarrow>
     \<not> frame_type f ''done''"
proof (induction n arbitrary: f)
  case 0
  { case 1 show ?case by (simp add: run_ok_init) }
  { case 2 show ?case by (simp add: managed_run_init_def) }
  { case 3 then show ?case by (simp add: managed_run_init_def) }
next
  case (Suc n)
  { case 1 show ?case using Suc by (simp add: run_ok_publish) }
  { case 2 show ?case using Suc by simp }
  { case 3
    have "set (tl xs) \<subseteq> set xs" for xs :: "jobj list" by (cases xs) auto
    then show ?case
      using 3 Suc.IH(3) by (force simp: publish_def Let_def demo_frame_def frame_type_def split: if_splits) }
qed

lemma filled_fields:
  assumes "0 < n"
  shows "run_ok (filled n)" "mr_next_seq (filled n) = int n + 1" "mr_queue (filled n) = []"
    "mr_done (filled n)" "f \<in> set (butlast (mr_buffer (filled n))) \<Longrightarrow> \<not> frame_type f ''done''"
proof -
  let ?q = "(publish demo_frame ^^ n) (managed_run_init ''a'' 0 ''g'')"
  have ne: "mr_buffer ?q \<noteq> []"
    using filled_ok(1,2) [of n] assms by (auto simp: run_ok_def max_buffer_def)
  then have "\<not> frame_type (last (mr_buffer ?q)) ''done''"
    by (intro filled_ok(3) [where n = n] last_in_set)
  then have f: "finish_managed ?q = publish done_frame (?q\<lparr>mr_done := True\<rparr>)"
    by (simp add: finish_managed_def done_frame_def Let_def)
  show "run_ok (filled n)"
    using run_ok_publish [of "?q\<lparr>mr_done := True\<rparr>" done_frame] filled_ok(1) [of n] f
    by (simp add: filled_def run_ok_def)
  show "mr_next_seq (filled n) = int n + 1" "mr_queue (filled n) = []"
    using filled_ok(2) [of n] f by (simp_all add: filled_def)
  show "mr_done (filled n)" using f by (simp add: filled_def publish_def Let_def)
  have bl: "set (butlast (tl xs)) \<subseteq> set (butlast xs)" for xs :: "jobj list"
    by (cases xs) (auto split: if_splits)
  assume "f \<in> set (butlast (mr_buffer (filled n)))"
  then have "f \<in> set (mr_buffer ?q)"
    using f bl by (force simp: filled_def publish_def Let_def split: if_splits)
  then show "\<not> frame_type f ''done''" by (rule filled_ok(3))
qed

lemma resume_skips_frames_witness:
  "sent_seqs (snd (reads 4991 (filled 5000, reader_init ''run-a'' (Some 10)))) = [12..5000]"
proof -
  define s where "s = reads 4991 (filled 5000, reader_init ''run-a'' (Some 10))"
  have nat: "nat (int max_buffer - 10 + 1) = 4991" by (simp add: max_buffer_def)
  have nx: "mr_next_seq (filled 5000) = 5001" using filled_fields(2) [of 5000] by simp
  have s: "(fst s, snd s) = reads (nat (int max_buffer - 10 + 1)) (filled 5000, reader_init ''run-a'' (Some 10))"
    unfolding nat s_def by (rule prod.collapse)
  have "sent_seqs (snd s) = [10 + 1 + (mr_next_seq (filled 5000) - int max_buffer)..mr_next_seq (filled 5000) - 1]"
    by (rule conjunct1 [OF resume_skips_frames [OF filled_fields(1) _ filled_fields(3,4) _ _ filled_fields(5) s]])
      (simp_all add: nx max_buffer_def)
  then show ?thesis by (simp add: nx max_buffer_def s_def [symmetric] del: upto_rec_numeral)
qed

lemma streams_end_witness:
  "let r = execute_managed_run [] [demo_frame] (RunFailed ''boom'') (managed_run_init ''a'' 0 ''g'')
   in map (\<lambda>f. map_of f ''type'') (mr_buffer r) = [Some (JStr ''token''), Some (JStr ''error''), Some (JStr ''done'')]
    \<and> rd_pc (snd (reads 4 (r, reader_init ''run-a'' (Some 0)))) = Ended"
proof -
  define r where "r = execute_managed_run [] [demo_frame] (RunFailed ''boom'') (managed_run_init ''a'' 0 ''g'')"
  have b: "map (\<lambda>f. map_of f ''type'') (mr_buffer r) = [Some (JStr ''token''), Some (JStr ''error''), Some (JStr ''done'')]"
    by (simp add: r_def execute_managed_run_def pump_event_def is_breakpoint_def pump_ended_def demo_run_defs)
  from arg_cong [OF b, of length] have "length (mr_buffer r) = 3" by simp
  then show ?thesis
    using streams_end [OF r_def, of "reader_init ''run-a'' (Some 0)"] b
    by (simp add: Let_def r_def [symmetric] reader_init_def del: reads_simps)
qed

definition demo_registry :: run_registry where
  "demo_registry = [(''run-a'', (managed_run_init ''a'' 0 ''g'')\<lparr>mr_done := True\<rparr>),
     (''run-b'', managed_run_init ''b'' 0 ''g''),
     (''run-c'', (managed_run_init ''c'' 100 ''g'')\<lparr>mr_done := True\<rparr>)]"

lemma reap_exact_witness: "map fst (reap 301 demo_registry) = [''run-b'', ''run-c'']
   \<and> registry_ok (reap 301 demo_registry)"
proof -
  have "registry_ok demo_registry"
    by (simp add: registry_ok_def demo_registry_def managed_run_init_def dict_ok_def)
  from reap_exact [OF this, of 301] show ?thesis
    by (simp add: reap_def demo_registry_def managed_run_init_def run_expired_def run_ttl_seconds_def
        max_runs_def Let_def)
qed

end
