(* ===== verification/Undo.thy ===== *)
theory Undo
  imports Json
begin

text \<open>
  The undo history of the canvas (\<open>undo_manager.py\<close>): two stacks of snapshots with a
  bounded depth, and its specification as one timeline with a cursor. A snapshot holds
  copies of the node and edge dictionaries; the copies are one level deep, so a caller that
  changes a nested value in place changes the snapshot too, which is outside the model.
\<close>

section \<open>The stacks\<close>

record canvas_snapshot =
  cs_nodes :: "(str, jobj) dict"
  cs_edges :: "jobj list"
  cs_selected :: str

text \<open>The top of a stack is the last element of its list.\<close>

record undo_manager =
  um_undo :: "canvas_snapshot list"
  um_redo :: "canvas_snapshot list"
  um_max_history :: int

definition undo_init :: "int \<Rightarrow> undo_manager" where
  "undo_init max_history = \<lparr>um_undo = [], um_redo = [], um_max_history = max_history\<rparr>"

definition record_snapshot ::
    "(str, jobj) dict \<Rightarrow> jobj list \<Rightarrow> str \<Rightarrow> undo_manager \<Rightarrow> undo_manager" where
  "record_snapshot nodes edges selected u =
     (let snap = \<lparr>cs_nodes = nodes, cs_edges = edges, cs_selected = selected\<rparr>;
          stack = um_undo u @ [snap];
          stack = (if um_max_history u < int (length stack) then tl stack else stack)
      in u\<lparr>um_undo := stack, um_redo := []\<rparr>)"

definition undo :: "undo_manager \<Rightarrow> undo_manager \<times> canvas_snapshot option" where
  "undo u =
     (if length (um_undo u) < 2 then (u, None)
      else let current = last (um_undo u); rest = butlast (um_undo u)
           in (u\<lparr>um_undo := rest, um_redo := um_redo u @ [current]\<rparr>, Some (last rest)))"

definition redo :: "undo_manager \<Rightarrow> undo_manager \<times> canvas_snapshot option" where
  "redo u =
     (if um_redo u = [] then (u, None)
      else let state = last (um_redo u)
           in (u\<lparr>um_undo := um_undo u @ [state], um_redo := butlast (um_redo u)\<rparr>, Some state))"

definition can_undo :: "undo_manager \<Rightarrow> bool" where
  "can_undo u \<longleftrightarrow> 2 \<le> length (um_undo u)"

definition can_redo :: "undo_manager \<Rightarrow> bool" where
  "can_redo u \<longleftrightarrow> 0 < length (um_redo u)"

definition clear_history :: "undo_manager \<Rightarrow> undo_manager" where
  "clear_history u = u\<lparr>um_undo := [], um_redo := []\<rparr>"

definition undo_count :: "undo_manager \<Rightarrow> nat" where "undo_count u = length (um_undo u)"
definition redo_count :: "undo_manager \<Rightarrow> nat" where "redo_count u = length (um_redo u)"

text \<open>The operations as commands, each with the snapshot that it hands back.\<close>

datatype undo_cmd =
    Record "(str, jobj) dict" "jobj list" str
  | Undo
  | Redo
  | Clear

fun undo_step :: "undo_cmd \<Rightarrow> undo_manager \<Rightarrow> undo_manager \<times> canvas_snapshot option" where
  "undo_step (Record ns es sel) u = (record_snapshot ns es sel u, None)"
| "undo_step Undo u = undo u"
| "undo_step Redo u = redo u"
| "undo_step Clear u = (clear_history u, None)"

fun undo_steps :: "undo_cmd list \<Rightarrow> undo_manager \<Rightarrow> undo_manager \<times> canvas_snapshot option list" where
  "undo_steps [] u = (u, [])"
| "undo_steps (c # cs) u =
     (let (u, out) = undo_step c u; (u, outs) = undo_steps cs u in (u, out # outs))"

section \<open>The timeline\<close>

text \<open>
  The specification: a timeline of recorded states and a cursor behind the current one.
  Recording forgets what lies after the cursor and, beyond the limit, the oldest state;
  undo and redo move the cursor.
\<close>

record timeline =
  tl_states :: "canvas_snapshot list"
  tl_cursor :: nat
  tl_limit :: int

definition tl_record :: "canvas_snapshot \<Rightarrow> timeline \<Rightarrow> timeline" where
  "tl_record s t =
     (let states = take (tl_cursor t) (tl_states t) @ [s];
          states = (if tl_limit t < int (length states) then drop 1 states else states)
      in t\<lparr>tl_states := states, tl_cursor := length states\<rparr>)"

definition tl_move :: "nat \<Rightarrow> timeline \<Rightarrow> timeline \<times> canvas_snapshot option" where
  "tl_move c t = (if 1 \<le> c \<and> c \<le> length (tl_states t)
     then (t\<lparr>tl_cursor := c\<rparr>, Some (tl_states t ! (c - 1))) else (t, None))"

fun tl_cmd :: "undo_cmd \<Rightarrow> timeline \<Rightarrow> timeline \<times> canvas_snapshot option" where
  "tl_cmd (Record ns es sel) t =
     (tl_record \<lparr>cs_nodes = ns, cs_edges = es, cs_selected = sel\<rparr> t, None)"
| "tl_cmd Undo t = tl_move (tl_cursor t - 1) t"
| "tl_cmd Redo t = tl_move (tl_cursor t + 1) t"
| "tl_cmd Clear t = (t\<lparr>tl_states := [], tl_cursor := 0\<rparr>, None)"

fun tl_cmds :: "undo_cmd list \<Rightarrow> timeline \<Rightarrow> timeline \<times> canvas_snapshot option list" where
  "tl_cmds [] t = (t, [])"
| "tl_cmds (c # cs) t = (let (t, out) = tl_cmd c t; (t, outs) = tl_cmds cs t in (t, out # outs))"

definition timeline_of :: "undo_manager \<Rightarrow> timeline" where
  "timeline_of u = \<lparr>tl_states = um_undo u @ rev (um_redo u), tl_cursor = length (um_undo u),
     tl_limit = um_max_history u\<rparr>"

lemmas undo_ops = record_snapshot_def undo_def redo_def clear_history_def timeline_of_def
  tl_record_def tl_move_def Let_def

declare undo_ops [op_defs]

section \<open>The stacks implement the timeline\<close>

lemma last_butlast_nth: "2 \<le> length xs \<Longrightarrow> last (butlast xs) = xs ! (length xs - 2)"
  by (simp add: last_conv_nth nth_butlast numeral_2_eq_2 flip: length_greater_0_conv)

lemma cmd_refines:
  "(timeline_of (fst (undo_step c u)), snd (undo_step c u)) = tl_cmd c (timeline_of u)"
proof (cases c)
  case (Record ns es sel)
  have "tl (um_undo u @ [x]) = drop 1 (um_undo u @ [x])" for x
    by (cases "um_undo u") simp_all
  then show ?thesis using Record by (simp add: undo_ops del: drop_append)
next
  case Undo
  show ?thesis
  proof (cases "2 \<le> length (um_undo u)")
    case True
    then obtain xs x where x: "um_undo u = xs @ [x]" "xs \<noteq> []"
      by (cases "um_undo u" rule: rev_cases) (auto, metis list.size(3) not_one_le_zero One_nat_def)
    then obtain ys y where "xs = ys @ [y]" by (cases xs rule: rev_cases) auto
    with x Undo show ?thesis by (simp add: undo_ops nth_append butlast_append)
  qed (use Undo in \<open>auto simp: undo_ops\<close>)
next
  case Redo
  show ?thesis
  proof (cases "um_redo u" rule: rev_cases)
    case (snoc xs x)
    then show ?thesis using Redo by (simp add: undo_ops nth_append)
  qed (use Redo in \<open>simp add: undo_ops\<close>)
next
  case Clear
  then show ?thesis by (simp add: undo_ops)
qed

lemma max_history_step [simp]: "um_max_history (fst (undo_step c u)) = um_max_history u"
  by (cases c) (auto simp: undo_ops)

lemma steps_refine:
  "(timeline_of (fst (undo_steps cs u)), snd (undo_steps cs u)) = tl_cmds cs (timeline_of u)"
proof (induction cs arbitrary: u)
  case Nil
  then show ?case by simp
next
  case (Cons c cs)
  then show ?case using cmd_refines [of c u]
    by (auto simp: Let_def case_prod_unfold prod_eq_iff)
qed

definition bounded_history :: "undo_manager \<Rightarrow> bool" where
  "bounded_history u \<longleftrightarrow> int (length (um_undo u) + length (um_redo u)) \<le> max 0 (um_max_history u)"

lemma bounded_step:
  assumes "bounded_history u"
  shows "bounded_history (fst (undo_step c u))"
  using assms by (cases c; cases "um_redo u") (auto simp: bounded_history_def undo_ops)

lemma bounded_steps: "bounded_history u \<Longrightarrow> bounded_history (fst (undo_steps cs u))"
  by (induction cs arbitrary: u) (auto simp: Let_def case_prod_unfold dest: bounded_step)

lemma max_history_steps: "um_max_history (fst (undo_steps cs u)) = um_max_history u"
  by (induction cs arbitrary: u) (auto simp: Let_def case_prod_unfold)

text \<open>Recording a list of snapshots keeps the latest of them.\<close>

definition record_cmd :: "canvas_snapshot \<Rightarrow> undo_cmd" where
  "record_cmd s = Record (cs_nodes s) (cs_edges s) (cs_selected s)"

lemma records_stack:
  assumes "2 \<le> um_max_history u" "um_undo u = drop (length xs - nat (um_max_history u)) xs"
  shows "um_undo (fst (undo_steps (map record_cmd ss) u)) =
    drop (length (xs @ ss) - nat (um_max_history u)) (xs @ ss)"
  using assms
proof (induction ss arbitrary: u xs)
  case Nil
  then show ?case by simp
next
  case (Cons s ss)
  let ?m = "nat (um_max_history u)" and ?u = "fst (undo_step (record_cmd s) u)"
  have snap: "\<lparr>cs_nodes = cs_nodes s, cs_edges = cs_edges s, cs_selected = cs_selected s\<rparr> = s" by simp
  have "um_undo ?u = drop (length (xs @ [s]) - ?m) (xs @ [s])"
  proof (cases "?m \<le> length xs")
    case True
    then have "tl (drop (length xs - ?m) xs @ [s]) = drop (Suc (length xs) - ?m) (xs @ [s])"
      using Cons.prems(1) by (cases "drop (length xs - ?m) xs") (auto simp: Suc_diff_le drop_Suc drop_tl)
    then show ?thesis
      using True Cons.prems snap by (simp add: record_cmd_def record_snapshot_def Let_def)
  next
    case False
    then have "\<not> um_max_history u < 1 + int (length xs)" by linarith
    then show ?thesis
      using False Cons.prems snap by (simp add: record_cmd_def record_snapshot_def Let_def)
  qed
  from Cons.IH [OF _ this [folded max_history_step [of "record_cmd s" u]]] Cons.prems(1) show ?case
    by (simp add: Let_def case_prod_unfold)
qed

section \<open>Properties\<close>

text \<open>
  C23: The two stacks implement the timeline: every sequence of operations returns the same
  snapshots and ends in the stacks of the timeline's final state.
\<close>

theorem undo_refines_timeline:
  "timeline_of (fst (undo_steps cs u)) = fst (tl_cmds cs (timeline_of u))
    \<and> snd (undo_steps cs u) = snd (tl_cmds cs (timeline_of u))
    \<and> can_undo u = (2 \<le> tl_cursor (timeline_of u))
    \<and> can_redo u = (tl_cursor (timeline_of u) < length (tl_states (timeline_of u)))"
  using steps_refine [of cs u] by (auto simp: prod_eq_iff can_undo_def can_redo_def timeline_of_def)

text \<open>
  The history never holds more snapshots than its limit, on both stacks together.
\<close>

theorem undo_depth_bounded:
  "int (undo_count (fst (undo_steps cs (undo_init m))) + redo_count (fst (undo_steps cs (undo_init m))))
     \<le> max 0 m"
proof -
  have "bounded_history (undo_init m)" by (simp add: bounded_history_def undo_init_def)
  then have "bounded_history (fst (undo_steps cs (undo_init m)))" by (rule bounded_steps)
  then show ?thesis
    by (simp add: bounded_history_def max_history_steps undo_init_def undo_count_def redo_count_def)
qed

text \<open>
  A client that records the canvas before each mutation, as the documentation says, cannot
  go back to the state before the last mutation: undo returns the snapshot before that
  one, and nothing at all after a single mutation.
\<close>

theorem undo_skips_last_mutation:
  assumes "2 \<le> m"
  shows "snd (undo (fst (undo_steps (map record_cmd ss) (undo_init m)))) =
    (if length ss < 2 then None else Some (ss ! (length ss - 2)))"
proof -
  have st: "um_undo (fst (undo_steps (map record_cmd ss) (undo_init m))) = drop (length ss - nat m) ss"
    using records_stack [of "undo_init m" "[]" ss] assms by (simp add: undo_init_def)
  have "last (butlast (drop (length ss - nat m) ss)) = ss ! (length ss - 2)" if "2 \<le> length ss"
    using that assms last_butlast_nth [of "drop (length ss - nat m) ss"] by (simp add: nth_drop)
  moreover have "length ss - (length ss - nat m) < 2 \<longleftrightarrow> length ss < 2" using assms by linarith
  ultimately show ?thesis using st by (simp add: undo_def Let_def)
qed

definition demo_snapshot :: "str \<Rightarrow> canvas_snapshot" where
  "demo_snapshot sel = \<lparr>cs_nodes = [(''n'', [(''type'', JStr ''llm'')])], cs_edges = [], cs_selected = sel\<rparr>"

lemma undo_skips_last_mutation_witness:
  "snd (undo (fst (undo_steps (map record_cmd [demo_snapshot ''a'', demo_snapshot ''b'']) (undo_init 50))))
     = Some (demo_snapshot ''a'')
   \<and> snd (undo (fst (undo_steps (map record_cmd [demo_snapshot ''a'']) (undo_init 50)))) = None"
  using undo_skips_last_mutation [of 50 "[demo_snapshot ''a'', demo_snapshot ''b'']"]
    undo_skips_last_mutation [of 50 "[demo_snapshot ''a'']"] by simp

end
