(* ===== verification/GraphSearch.thy ===== *)
theory GraphSearch
  imports Graph
begin

text \<open>
  The searches of the visual graph editor (\<open>graph_editor.py\<close>): the adjacency lists between
  existing nodes, the cycle test by depth-first search with three colours, and the nodes
  reachable from the start nodes. The cycle test is a recursive Python function: its depth
  is limited by the interpreter, and a deeper search raises RecursionError, here None.
\<close>

section \<open>Adjacency\<close>

text \<open>Edges whose two ends are nodes; the others are skipped everywhere.\<close>

definition node_edges :: "agent_graph \<Rightarrow> (str \<times> str) list" where
  "node_edges g = map (\<lambda>e. (e_source e, e_target e))
     (filter (\<lambda>e. map_of (g_nodes g) (e_source e) \<noteq> None \<and> map_of (g_nodes g) (e_target e) \<noteq> None) (g_edges g))"

fun build_adj :: "(str \<times> str) list \<Rightarrow> (str, str list) dict \<Rightarrow> (str, str list) dict" where
  "build_adj [] adj = adj"
| "build_adj ((s, t) # es) adj = build_adj es (AList.update s (dict_get adj s [] @ [t]) adj)"

definition adjacency :: "agent_graph \<Rightarrow> (str, str list) dict" where
  "adjacency g = build_adj (node_edges g) (map (\<lambda>(nid, c). (nid, [])) (g_nodes g))"

lemma build_adj_get:
  "dict_get (build_adj es adj) k [] = dict_get adj k [] @ map snd (filter (\<lambda>e. fst e = k) es)"
  by (induction es adj rule: build_adj.induct) (auto simp: dict_get_update)

lemma dict_get_empty_lists [simp]: "dict_get (map (\<lambda>(nid, c). (nid, [])) ns) k [] = []"
  by (induction ns) (auto simp: dict_get_def)

lemma adjacency_get:
  "dict_get (adjacency g) k [] = map snd (filter (\<lambda>e. fst e = k) (node_edges g))"
  by (simp add: adjacency_def build_adj_get)

lemma node_edges_ends:
  "(s, t) \<in> set (node_edges g) \<Longrightarrow> s \<in> fst ` set (g_nodes g) \<and> t \<in> fst ` set (g_nodes g)"
  by (auto simp: node_edges_def map_of_eq_None_iff)

section \<open>The cycle test\<close>

datatype colour = White | Gray | Black

type_synonym colouring = "(str, colour) dict"

text \<open>
  \<open>dfs\<close> and its loop over the neighbours. The first argument bounds the depth of the
  recursion. The result carries the colours because the dictionary is shared by all calls.
\<close>

function (sequential) dfs_node :: "nat \<Rightarrow> (str, str list) dict \<Rightarrow> str \<Rightarrow> colouring \<Rightarrow> (colouring \<times> bool) option"
and dfs_scan :: "nat \<Rightarrow> (str, str list) dict \<Rightarrow> str \<Rightarrow> str list \<Rightarrow> colouring \<Rightarrow> (colouring \<times> bool) option"
where
  "dfs_node 0 adj node col = None"
| "dfs_node (Suc n) adj node col =
     dfs_scan n adj node (dict_get adj node []) (AList.update node Gray col)"
| "dfs_scan n adj node [] col = Some (AList.update node Black col, False)"
| "dfs_scan n adj node (nb # nbs) col =
     (if map_of col nb = Some Gray then Some (col, True)
      else if map_of col nb = Some White then
        (case dfs_node n adj nb col of
           None \<Rightarrow> None
         | Some (col, True) \<Rightarrow> Some (col, True)
         | Some (col, False) \<Rightarrow> dfs_scan n adj node nbs col)
      else dfs_scan n adj node nbs col)"
  by pat_completeness auto
termination
  by (relation "measures
      [\<lambda>c. case c of Inl (n, adj, node, col) \<Rightarrow> 2 * n | Inr (n, adj, node, nbs, col) \<Rightarrow> 2 * n + 1,
       \<lambda>c. case c of Inl (n, adj, node, col) \<Rightarrow> 0 | Inr (n, adj, node, nbs, col) \<Rightarrow> length nbs]")
    auto

fun dfs_all :: "nat \<Rightarrow> (str, str list) dict \<Rightarrow> str list \<Rightarrow> colouring \<Rightarrow> bool option" where
  "dfs_all n adj [] col = Some False"
| "dfs_all n adj (nid # nids) col =
     (if map_of col nid = Some White then
        (case dfs_node n adj nid col of
           None \<Rightarrow> None
         | Some (col, True) \<Rightarrow> Some True
         | Some (col, False) \<Rightarrow> dfs_all n adj nids col)
      else dfs_all n adj nids col)"

definition has_cycle :: "nat \<Rightarrow> agent_graph \<Rightarrow> bool option" where
  "has_cycle depth g = dfs_all depth (adjacency g) (map fst (g_nodes g))
     (map (\<lambda>(nid, c). (nid, White)) (g_nodes g))"

subsection \<open>Correctness of the colouring\<close>

definition coloured :: "colouring \<Rightarrow> colour \<Rightarrow> str set" where
  "coloured col c = {x. map_of col x = Some c}"

lemma coloured_update [simp]:
  "coloured (AList.update k c col) c' = (if c = c' then insert k (coloured col c') else coloured col c' - {k})"
  by (auto simp: coloured_def)

lemma coloured_disjoint: "x \<in> coloured col c \<Longrightarrow> x \<in> coloured col c' \<Longrightarrow> c = c'"
  by (simp add: coloured_def)

text \<open>
  Black nodes are finished: their successors are black and none lies on a cycle. Every
  node with an edge into it has a colour.
\<close>

definition col_ok :: "(str \<times> str) set \<Rightarrow> colouring \<Rightarrow> bool" where
  "col_ok E col \<longleftrightarrow> (\<forall>x y. x \<in> coloured col Black \<longrightarrow> (x, y) \<in> E \<longrightarrow> y \<in> coloured col Black)
     \<and> (\<forall>x \<in> coloured col Black. (x, x) \<notin> E\<^sup>+)
     \<and> snd ` E \<subseteq> fst ` set col"

definition dfs_post :: "(str \<times> str) set \<Rightarrow> str set \<Rightarrow> str \<Rightarrow> colouring \<Rightarrow> colouring \<times> bool \<Rightarrow> bool" where
  "dfs_post E grays node col res =
     (case res of
        (col', True) \<Rightarrow> (\<exists>x. (x, x) \<in> E\<^sup>+)
      | (col', False) \<Rightarrow> col_ok E col' \<and> coloured col' Gray = grays
          \<and> insert node (coloured col Black) \<subseteq> coloured col' Black
          \<and> coloured col' White \<subseteq> coloured col White)"

lemma keys_update: "fst ` set (AList.update k v d) = insert k (fst ` set d)"
  by (simp add: dom_update flip: dom_map_of_conv_image_fst)

lemma black_closed: "(x, y) \<in> E\<^sup>* \<Longrightarrow> col_ok E col \<Longrightarrow> x \<in> coloured col Black \<Longrightarrow> y \<in> coloured col Black"
  by (induction rule: rtrancl_induct) (auto simp: col_ok_def)

lemma finish_node:
  assumes ok: "col_ok E col" and gray: "node \<in> coloured col Gray"
    and succ: "\<And>y. (node, y) \<in> E \<Longrightarrow> y \<in> coloured col Black"
  shows "col_ok E (AList.update node Black col)"
proof -
  have "(node, node) \<notin> E\<^sup>+"
  proof
    assume "(node, node) \<in> E\<^sup>+"
    then obtain y where "(node, y) \<in> E" "(y, node) \<in> E\<^sup>*" by (meson tranclD)
    then have "node \<in> coloured col Black" using succ black_closed [OF _ ok] by blast
    then show False using gray coloured_disjoint by blast
  qed
  then show ?thesis using ok succ by (auto simp: col_ok_def keys_update)
qed

lemma gray_step:
  assumes "col_ok E col" "node \<in> coloured col White"
  shows "col_ok E (AList.update node Gray col)"
  using assms by (auto simp: col_ok_def keys_update dest: coloured_disjoint)

text \<open>The edges that the adjacency lists stand for.\<close>

definition adj_rel :: "(str, str list) dict \<Rightarrow> (str \<times> str) set" where
  "adj_rel adj = {(x, y). y \<in> set (dict_get adj x [])}"

lemma adj_rel_iff: "(x, y) \<in> adj_rel adj \<longleftrightarrow> y \<in> set (dict_get adj x [])"
  by (simp add: adj_rel_def)

lemma dfs_correct:
  "dfs_node n adj node col = Some res \<Longrightarrow> col_ok (adj_rel adj) col \<Longrightarrow> node \<in> coloured col White \<Longrightarrow>
      (\<And>x. x \<in> coloured col Gray \<Longrightarrow> (x, node) \<in> (adj_rel adj)\<^sup>*) \<Longrightarrow>
      dfs_post (adj_rel adj) (coloured col Gray) node col res"
  "dfs_scan n adj node nbs col = Some res \<Longrightarrow> col_ok (adj_rel adj) col \<Longrightarrow> node \<in> coloured col Gray \<Longrightarrow>
      (\<And>x. x \<in> coloured col Gray \<Longrightarrow> (x, node) \<in> (adj_rel adj)\<^sup>*) \<Longrightarrow>
      (\<And>y. y \<in> set nbs \<Longrightarrow> (node, y) \<in> adj_rel adj) \<Longrightarrow>
      (\<And>y. (node, y) \<in> adj_rel adj \<Longrightarrow> y \<in> set nbs \<or> y \<in> coloured col Black) \<Longrightarrow>
      dfs_post (adj_rel adj) (coloured col Gray - {node}) node col res"
proof (induction n adj node col and n adj node nbs col arbitrary: res and res
    rule: dfs_node_dfs_scan.induct)
  case (1 adj node col)
  then show ?case by simp
next
  case (2 n adj node col)
  let ?col = "AList.update node Gray col"
  have white: "node \<notin> coloured col Gray" "node \<notin> coloured col Black"
    using "2.prems"(3) coloured_disjoint by blast+
  have "dfs_post (adj_rel adj) (coloured ?col Gray - {node}) node ?col res"
    using "2.prems" by (intro "2.IH") (auto simp: gray_step adj_rel_iff)
  then show ?case using white "2.prems"(3)
    by (auto simp: dfs_post_def split: prod.splits bool.splits)
next
  case (3 n adj node col)
  then have "col_ok (adj_rel adj) (AList.update node Black col)" by (intro finish_node) auto
  then show ?case using 3(1) by (auto simp: dfs_post_def)
next
  case (4 n adj node nb nbs col)
  have edge: "(node, nb) \<in> adj_rel adj" using "4.prems"(5) by simp
  show ?case
  proof (cases "map_of col nb")
    case None
    then have "nb \<notin> fst ` set col" by (simp add: map_of_eq_None_iff)
    moreover have "nb \<in> snd ` adj_rel adj" using edge by (rule image_eqI [rotated]) simp
    ultimately show ?thesis using "4.prems"(2) unfolding col_ok_def by blast
  next
    case (Some c)
    show ?thesis
    proof (cases c)
      case Gray
      then have "(nb, node) \<in> (adj_rel adj)\<^sup>*" using "4.prems"(4) Some by (simp add: coloured_def)
      then have "(node, node) \<in> (adj_rel adj)\<^sup>+" using edge by (rule rtrancl_into_trancl2 [rotated])
      then show ?thesis using "4.prems"(1) Some Gray by (auto simp: dfs_post_def)
    next
      case Black
      have "dfs_scan n adj node nbs col = Some res" using "4.prems"(1) Some Black by simp
      then show ?thesis
        using "4.prems" Some Black by (intro "4.IH"(3)) (auto simp: coloured_def)
    next
      case White
      then have w: "nb \<in> coloured col White" using Some by (simp add: coloured_def)
      have to_nb: "(x, nb) \<in> (adj_rel adj)\<^sup>*" if "x \<in> coloured col Gray" for x
        using "4.prems"(4) [OF that] edge by (rule rtrancl_into_rtrancl)
      from "4.prems"(1) Some White obtain col' b where d: "dfs_node n adj nb col = Some (col', b)"
        by (auto split: option.splits)
      have post: "dfs_post (adj_rel adj) (coloured col Gray) nb col (col', b)"
        by (rule "4.IH"(1)) (use Some White d "4.prems"(2) w to_nb in auto)
      show ?thesis
      proof (cases b)
        case True
        then show ?thesis using post d "4.prems"(1) Some White by (auto simp: dfs_post_def)
      next
        case False
        then have p: "col_ok (adj_rel adj) col'" "coloured col' Gray = coloured col Gray"
            "insert nb (coloured col Black) \<subseteq> coloured col' Black"
            "coloured col' White \<subseteq> coloured col White"
          using post by (auto simp: dfs_post_def)
        have succ: "y \<in> set nbs \<or> y \<in> coloured col' Black" if "(node, y) \<in> adj_rel adj" for y
          using "4.prems"(6) [OF that] p(3) by auto
        have "dfs_scan n adj node nbs col' = Some res" using d False "4.prems"(1) Some White by simp
        then have "dfs_post (adj_rel adj) (coloured col' Gray - {node}) node col' res"
          using "4.prems" Some White d False p succ by (intro "4.IH"(2)) auto
        then show ?thesis using p by (auto simp: dfs_post_def split: prod.splits bool.splits)
      qed
    qed
  qed
qed

text \<open>A depth of one call per white node is enough: every call paints one.\<close>

definition whites :: "colouring \<Rightarrow> nat" where
  "whites col = card (coloured col White)"

lemma finite_coloured [simp]: "finite (coloured col c)"
  by (rule finite_subset [of _ "fst ` set col"]) (auto simp: coloured_def dest: map_of_SomeD intro: rev_image_eqI)

lemma dfs_white:
  "dfs_node n adj node col = Some (col', b) \<Longrightarrow> coloured col' White \<subseteq> coloured col White"
  "dfs_scan n adj node nbs col = Some (col', b) \<Longrightarrow> coloured col' White \<subseteq> coloured col White"
  by (induction n adj node col and n adj node nbs col arbitrary: col' b and col' b
      rule: dfs_node_dfs_scan.induct)
    (auto split: if_splits option.splits bool.splits, blast+)

lemma dfs_enough:
  "node \<in> coloured col White \<Longrightarrow> whites col \<le> n \<Longrightarrow> dfs_node n adj node col \<noteq> None"
  "whites col \<le> n \<Longrightarrow> dfs_scan n adj node nbs col \<noteq> None"
proof (induction n adj node col and n adj node nbs col rule: dfs_node_dfs_scan.induct)
  case (1 adj node col)
  then show ?case by (auto simp: whites_def)
next
  case (2 n adj node col)
  have "whites (AList.update node Gray col) < whites col"
    using 2(2) unfolding whites_def by (intro psubset_card_mono) auto
  then show ?case using 2 by simp
next
  case (3 n adj node col)
  then show ?case by simp
next
  case (4 n adj node nb nbs col)
  have mono: "whites col' \<le> n" if "dfs_node n adj nb col = Some (col', b)" for col' b
    using dfs_white(1) [OF that] 4(4) unfolding whites_def by (meson card_mono finite_coloured order_trans)
  show ?case
    using 4(1,4) 4(2) 4(3) mono
    by (auto simp: coloured_def split: option.splits bool.splits)
qed

lemma dfs_domain:
  "dfs_node n adj node col = Some (col', b) \<Longrightarrow> map_of col x \<noteq> None \<Longrightarrow> map_of col' x \<noteq> None"
  "dfs_scan n adj node nbs col = Some (col', b) \<Longrightarrow> map_of col x \<noteq> None \<Longrightarrow> map_of col' x \<noteq> None"
proof (induction n adj node col and n adj node nbs col arbitrary: col' b and col' b
      rule: dfs_node_dfs_scan.induct)
  case (4 n adj node nb nbs col)
  then show ?case
    by (cases "map_of col nb = Some White") (fastforce split: if_splits option.splits bool.splits)+
qed (simp_all split: if_splits)

lemma dfs_keys: "dfs_node n adj node col = Some (col', b) \<Longrightarrow> fst ` set col \<subseteq> fst ` set col'"
  using dfs_domain(1) by (metis map_of_eq_None_iff subsetI)

lemma coloured_key: "x \<in> fst ` set col \<Longrightarrow> coloured col Gray = {} \<Longrightarrow>
    x \<in> coloured col White \<union> coloured col Black"
  using map_of_eq_None_iff [of col x] by (cases "map_of col x") (auto simp: coloured_def, metis colour.exhaust)

lemma dfs_all_correct:
  assumes "dfs_all n adj nids col = Some b" "col_ok (adj_rel adj) col" "coloured col Gray = {}"
    "\<And>x y. (x, y) \<in> adj_rel adj \<Longrightarrow> x \<in> set nids \<union> coloured col Black"
    "set nids \<subseteq> fst ` set col"
  shows "b \<longleftrightarrow> (\<exists>x. (x, x) \<in> (adj_rel adj)\<^sup>+)"
  using assms
proof (induction n adj nids col rule: dfs_all.induct)
  case (1 n adj col)
  then have "x \<in> coloured col Black" if "(x, y) \<in> adj_rel adj" for x y using that by auto
  then have "(x, x) \<notin> (adj_rel adj)\<^sup>+" for x
    using "1.prems"(2) by (meson col_ok_def tranclD)
  then show ?case using "1.prems"(1) by simp
next
  case (2 n adj nid nids col)
  show ?case
  proof (cases "map_of col nid = Some White")
    case True
    with "2.prems"(1) obtain col' c where d: "dfs_node n adj nid col = Some (col', c)"
      by (auto split: option.splits)
    have post: "dfs_post (adj_rel adj) {} nid col (col', c)"
      using dfs_correct(1) [OF d "2.prems"(2)] True "2.prems"(3) by (auto simp: coloured_def)
    show ?thesis
    proof (cases c)
      case True
      then show ?thesis using post d \<open>map_of col nid = Some White\<close> "2.prems"(1) by (auto simp: dfs_post_def)
    next
      case False
      then have p: "col_ok (adj_rel adj) col'" "coloured col' Gray = {}"
          "insert nid (coloured col Black) \<subseteq> coloured col' Black"
        using post by (auto simp: dfs_post_def)
      have "dfs_all n adj nids col' = Some b"
        using "2.prems"(1) d False True by simp
      moreover have "x \<in> set nids \<union> coloured col' Black" if "(x, y) \<in> adj_rel adj" for x y
        using "2.prems"(4) [OF that] p(3) by auto
      moreover have "set nids \<subseteq> fst ` set col'" using "2.prems"(5) dfs_keys [OF d] by auto
      ultimately show ?thesis
        using "2.IH"(1) [of "(col', c)" col' c] True d False p by simp
    qed
  next
    case False
    then have "nid \<in> coloured col Black"
      using coloured_key [of nid col] "2.prems"(3,5) by (auto simp: coloured_def)
    then show ?thesis using False "2.prems" by (intro "2.IH"(2)) auto
  qed
qed

lemma dfs_all_enough: "whites col \<le> n \<Longrightarrow> dfs_all n adj nids col \<noteq> None"
proof (induction n adj nids col rule: dfs_all.induct)
  case (2 n adj nid nids col)
  have mono: "whites col' \<le> n" if "dfs_node n adj nid col = Some (col', b)" for col' b
    using dfs_white(1) [OF that] 2(3) unfolding whites_def by (meson card_mono finite_coloured order_trans)
  show ?case
    using 2 mono dfs_enough(1) [of nid col n adj]
    by (auto simp: coloured_def split: option.splits bool.splits)
qed simp

lemma adj_rel_adjacency: "adj_rel (adjacency g) = set (node_edges g)"
  by (auto simp: adj_rel_def adjacency_get intro: rev_image_eqI)

lemma map_of_const: "map_of (map (\<lambda>(k, v). (k, c)) d) k = map_option (\<lambda>_. c) (map_of d k)"
  by (induction d) auto

text \<open>With enough depth the search decides whether the edges between nodes have a cycle.\<close>

lemma has_cycle_correct:
  "has_cycle depth g = Some b \<Longrightarrow> b \<longleftrightarrow> (\<exists>x. (x, x) \<in> (set (node_edges g))\<^sup>+)"
  unfolding has_cycle_def adj_rel_adjacency [symmetric]
proof (rule dfs_all_correct)
  let ?col = "map (\<lambda>(nid, c). (nid, White)) (g_nodes g)"
  have keys: "fst ` set ?col = fst ` set (g_nodes g)" by force
  have cols: "coloured ?col Gray = {}" "coloured ?col Black = {}"
    by (auto simp: coloured_def map_of_const)
  show "coloured ?col Gray = {}" by (rule cols)
  show "col_ok (adj_rel (adjacency g)) ?col"
    using node_edges_ends [of _ _ g] unfolding col_ok_def cols keys adj_rel_adjacency by fastforce
  show "x \<in> set (map fst (g_nodes g)) \<union> coloured ?col Black" if "(x, y) \<in> adj_rel (adjacency g)" for x y
    using that node_edges_ends [of x y g] by (simp add: adj_rel_adjacency)
  show "set (map fst (g_nodes g)) \<subseteq> fst ` set ?col" using keys by simp
qed

lemma has_cycle_enough:
  assumes "length (g_nodes g) \<le> depth"
  shows "has_cycle depth g \<noteq> None"
  unfolding has_cycle_def
proof (rule dfs_all_enough)
  let ?col = "map (\<lambda>(nid, c). (nid, White)) (g_nodes g)"
  have "coloured ?col White \<subseteq> set (map fst (g_nodes g))"
    by (auto simp: coloured_def map_of_const dest: map_of_SomeD intro: rev_image_eqI)
  then have "card (coloured ?col White) \<le> card (set (map fst (g_nodes g)))"
    by (rule card_mono [rotated]) simp
  also have "\<dots> \<le> length (g_nodes g)" by (metis card_length length_map)
  finally show "whites ?col \<le> depth" using assms by (simp add: whites_def)
qed

section \<open>Nodes reachable from the start nodes\<close>

text \<open>
  The worklist is a stack; here its top is the head of the list, so that the neighbours
  of a node, pushed one after the other, appear in reverse.
\<close>

abbreviation all_targets :: "(str, str list) dict \<Rightarrow> str set" where
  "all_targets adj \<equiv> \<Union> (set ` snd ` set adj)"

lemma dict_get_targets: "set (dict_get adj k []) \<subseteq> all_targets adj"
  using map_of_SomeD [of adj k] by (force simp: dict_get_def split: option.splits)

function stack_search :: "(str, str list) dict \<Rightarrow> str set \<Rightarrow> str list \<Rightarrow> str set" where
  "stack_search adj visited [] = visited"
| "stack_search adj visited (node # stack) =
     (if node \<in> visited then stack_search adj visited stack
      else let visited = insert node visited
           in stack_search adj visited
                (rev (filter (\<lambda>n. n \<notin> visited) (dict_get adj node [])) @ stack))"
  by pat_completeness auto

termination
proof (relation "measures [\<lambda>(adj, v, q). card ((set q \<union> all_targets adj) - v), \<lambda>(adj, v, q). length q]",
    goal_cases)
  case 1
  show ?case by simp
next
  case (2 adj v c q)
  then have "(set (c # q) \<union> all_targets adj) - v = (set q \<union> all_targets adj) - v" by auto
  then show ?case by simp
next
  case (3 adj v c q v')
  let ?q = "rev (filter (\<lambda>n. n \<notin> v') (dict_get adj c [])) @ q"
  have "(set ?q \<union> all_targets adj) - v' \<subset> (set (c # q) \<union> all_targets adj) - v"
    using 3 dict_get_targets [of adj c] by auto
  then have "card ((set ?q \<union> all_targets adj) - v') < card ((set (c # q) \<union> all_targets adj) - v)"
    by (intro psubset_card_mono) auto
  then show ?case by simp
qed

definition start_ids :: "agent_graph \<Rightarrow> str list" where
  "start_ids g = map fst (filter (\<lambda>(nid, c). nc_type c = JStr ''start'') (g_nodes g))"

definition editor_reachable :: "agent_graph \<Rightarrow> str set" where
  "editor_reachable g = stack_search (adjacency g) {} (rev (start_ids g))"

lemma stack_search_sound:
  "\<lbrakk>\<And>x. x \<in> v \<union> set q \<Longrightarrow> \<exists>a \<in> A. (a, x) \<in> (adj_rel adj)\<^sup>*; x \<in> stack_search adj v q\<rbrakk>
    \<Longrightarrow> \<exists>a \<in> A. (a, x) \<in> (adj_rel adj)\<^sup>*"
proof (induction adj v q rule: stack_search.induct)
  case (1 adj v)
  then show ?case by simp
next
  case (2 adj v c q)
  show ?case
  proof (cases "c \<in> v")
    case True
    with 2 show ?thesis by simp
  next
    case False
    obtain a where a: "a \<in> A" "(a, c) \<in> (adj_rel adj)\<^sup>*" using "2.prems"(1) [of c] by auto
    have "\<exists>a \<in> A. (a, y) \<in> (adj_rel adj)\<^sup>*" if "y \<in> set (dict_get adj c [])" for y
      using that a by (meson adj_rel_iff rtrancl.rtrancl_into_rtrancl)
    then show ?thesis using "2.IH"(2) [OF False refl] "2.prems" False by (auto simp: Let_def)
  qed
qed

lemma stack_search_complete:
  "(\<And>x y. x \<in> v \<Longrightarrow> (x, y) \<in> adj_rel adj \<Longrightarrow> y \<in> v \<union> set q) \<Longrightarrow>
   v \<union> set q \<subseteq> stack_search adj v q \<and>
   (\<forall>x y. x \<in> stack_search adj v q \<longrightarrow> (x, y) \<in> adj_rel adj \<longrightarrow> y \<in> stack_search adj v q)"
proof (induction adj v q rule: stack_search.induct)
  case (1 adj v)
  then show ?case by auto
next
  case (2 adj v c q)
  show ?case
  proof (cases "c \<in> v")
    case True
    with 2 show ?thesis by auto
  next
    case False
    let ?v = "insert c v"
    let ?q = "rev (filter (\<lambda>n. n \<notin> ?v) (dict_get adj c [])) @ q"
    have "y \<in> ?v \<union> set ?q" if "x \<in> ?v" and xy: "(x, y) \<in> adj_rel adj" for x y
      using that "2.prems" [of x y] by (auto simp: adj_rel_iff)
    from "2.IH"(2) [OF False refl this] False show ?thesis by (auto simp: Let_def)
  qed
qed

lemma editor_reachable_eq:
  "editor_reachable g = (set (node_edges g))\<^sup>* `` set (start_ids g)"
proof -
  let ?S = "editor_reachable g"
  have c: "set (start_ids g) \<subseteq> ?S"
      "\<And>x y. x \<in> ?S \<Longrightarrow> (x, y) \<in> adj_rel (adjacency g) \<Longrightarrow> y \<in> ?S"
    using stack_search_complete [of "{}" "adjacency g" "rev (start_ids g)"]
    unfolding editor_reachable_def by auto
  have "y \<in> ?S" if "(x, y) \<in> (adj_rel (adjacency g))\<^sup>*" "x \<in> set (start_ids g)" for x y
    using that c by (induction rule: rtrancl_induct) auto
  moreover have "\<exists>a \<in> set (start_ids g). (a, x) \<in> (adj_rel (adjacency g))\<^sup>*" if "x \<in> ?S" for x
    using that unfolding editor_reachable_def by (rule stack_search_sound [rotated]) auto
  ultimately show ?thesis unfolding adj_rel_adjacency by blast
qed

end
