(* ===== verification/GraphLayout.thy ===== *)
theory GraphLayout
  imports GraphSearch "HOL-Library.Multiset" "HOL-Library.List_Lexorder" "HOL-Library.Char_ord"
begin

text \<open>
  \<open>auto_layout\<close> of \<open>graph_editor.py\<close>: the layers of a graph by repeated removal of the
  nodes without remaining predecessors, nodes on or behind a cycle in a last layer, and
  the positions computed from the layers. Widths and gaps are rationals.
\<close>

section \<open>Layers\<close>

text \<open>
  In-degrees count an edge as often as it occurs. \<open>relax\<close> is the inner loop over the
  neighbours of one node, with the dictionary access that could raise KeyError.
\<close>

type_synonym degrees = "(str, int) dict"

fun count_in :: "(str \<times> str) list \<Rightarrow> degrees \<Rightarrow> degrees" where
  "count_in [] deg = deg"
| "count_in ((s, t) # es) deg = count_in es (AList.update t (dict_get deg t 0 + 1) deg)"

definition in_degrees :: "agent_graph \<Rightarrow> degrees" where
  "in_degrees g = count_in (node_edges g) (map (\<lambda>(nid, c). (nid, 0)) (g_nodes g))"

fun relax :: "str list \<Rightarrow> degrees \<times> str list \<Rightarrow> py_exn + (degrees \<times> str list)" where
  "relax [] (rem, nq) = Inr (rem, nq)"
| "relax (n # ns) (rem, nq) =
     (case map_of rem n of
        None \<Rightarrow> Inl KeyError
      | Some d \<Rightarrow> relax ns (AList.update n (d - 1) rem, if d - 1 = 0 then nq @ [n] else nq))"

fun relax_layer ::
    "(str, str list) dict \<Rightarrow> str list \<Rightarrow> degrees \<times> str list \<Rightarrow> py_exn + (degrees \<times> str list)" where
  "relax_layer adj [] s = Inr s"
| "relax_layer adj (nid # nids) s = bindE (relax (dict_get adj nid []) s) (relax_layer adj nids)"

text \<open>The nodes that still have predecessors; each pass of the loop removes some of them or is the last.\<close>

definition pending :: "degrees \<Rightarrow> str set" where
  "pending rem = {n. \<exists>d. map_of rem n = Some d \<and> 0 < d}"

lemma finite_pending [simp]: "finite (pending rem)"
  by (rule finite_subset [of _ "fst ` set rem"])
    (auto simp: pending_def dest!: map_of_SomeD intro: rev_image_eqI)

lemma pending_update:
  "pending (AList.update n d rem) = (if 0 < d then insert n (pending rem) else pending rem - {n})"
  by (auto simp: pending_def)

lemma relax_pending:
  "relax ns (rem, nq) = Inr (rem', nq') \<Longrightarrow>
   pending rem' \<subseteq> pending rem \<and> (\<exists>z. nq' = nq @ z \<and> set z \<subseteq> pending rem - pending rem')"
proof (induction ns arbitrary: rem nq)
  case Nil
  then show ?case by simp
next
  case (Cons n ns)
  then obtain d where d: "map_of rem n = Some d" by (auto split: option.splits)
  let ?rem = "AList.update n (d - 1) rem"
  have sub: "pending ?rem \<subseteq> pending rem" using d by (auto simp: pending_update) (auto simp: pending_def)
  have "pending rem' \<subseteq> pending ?rem \<and> (\<exists>z. nq' = (if d - 1 = 0 then nq @ [n] else nq) @ z \<and> set z \<subseteq> pending ?rem - pending rem')"
    using Cons.prems d by (intro Cons.IH) simp
  then obtain z where z: "pending rem' \<subseteq> pending ?rem" "nq' = (if d - 1 = 0 then nq @ [n] else nq) @ z"
      "set z \<subseteq> pending ?rem - pending rem'" by blast
  show ?case
  proof (cases "d = 1")
    case True
    then have "n \<in> pending rem - pending rem'" using d z(1) by (auto simp: pending_update) (auto simp: pending_def)
    then show ?thesis using z sub True by (intro conjI exI [of _ "n # z"]) auto
  next
    case False
    then show ?thesis using z sub by (intro conjI exI [of _ z]) auto
  qed
qed

lemma relax_layer_pending:
  "relax_layer adj nids (rem, nq) = Inr (rem', nq') \<Longrightarrow>
   pending rem' \<subseteq> pending rem \<and> (\<exists>z. nq' = nq @ z \<and> set z \<subseteq> pending rem - pending rem')"
proof (induction nids arbitrary: rem nq)
  case Nil
  then show ?case by simp
next
  case (Cons nid nids)
  then obtain rem1 nq1 where r: "relax (dict_get adj nid []) (rem, nq) = Inr (rem1, nq1)"
      "relax_layer adj nids (rem1, nq1) = Inr (rem', nq')"
    by (auto simp: bindE_Inr_iff)
  from relax_pending [OF r(1)] Cons.IH [OF r(2)] show ?case by fastforce
qed

function kahn :: "(str, str list) dict \<Rightarrow> str list \<Rightarrow> degrees \<Rightarrow> str list list \<Rightarrow> py_exn + (str list list \<times> degrees)" where
  "kahn adj queue rem layers =
     (if queue = [] then Inr (layers, rem)
      else (case relax_layer adj (sort queue) (rem, []) of
              Inl e \<Rightarrow> Inl e
            | Inr (rem, next_queue) \<Rightarrow> kahn adj next_queue rem (layers @ [sort queue])))"
  by pat_completeness auto
termination
proof (relation "measure (\<lambda>(adj, queue, rem, layers). 2 * card (pending rem) + (if queue = [] then 0 else 1))",
    goal_cases)
  case 1
  show ?case by simp
next
  case (2 adj queue rem layers res rem' nq)
  then have r: "relax_layer adj (sort queue) (rem, []) = Inr (rem', nq)" by simp
  have sub: "pending rem' \<subseteq> pending rem" "set nq \<subseteq> pending rem - pending rem'"
    using relax_layer_pending [OF r] by auto
  show ?case
  proof (cases nq)
    case Nil
    then show ?thesis using 2(1) card_mono [OF finite_pending sub(1)] by simp
  next
    case (Cons n ns)
    then have "pending rem' \<subset> pending rem" using sub by auto
    then have "card (pending rem') < card (pending rem)" by (intro psubset_card_mono) auto
    then show ?thesis by simp
  qed
qed

declare kahn.simps [simp del]

section \<open>Positions\<close>

record node_position =
  np_node_id :: str
  np_x :: pyfloat
  np_y :: pyfloat
  np_width :: pyfloat
  np_height :: pyfloat

definition place_layer :: "pyfloat \<Rightarrow> pyfloat \<Rightarrow> nat \<times> str list \<Rightarrow> node_position list" where
  "place_layer layer_gap node_gap il = (case il of (layer_idx, layer) \<Rightarrow>
     (let total_width = of_nat (length layer) * node_gap;
          start_x = - total_width / 2 + node_gap / 2
      in map (\<lambda>(node_idx, nid). \<lparr>np_node_id = nid, np_x = start_x + of_nat node_idx * node_gap,
                np_y = of_nat layer_idx * layer_gap, np_width = 200, np_height = 80\<rparr>)
           (enumerate 0 layer)))"

definition layout_layers :: "agent_graph \<Rightarrow> py_exn + str list list" where
  "layout_layers g =
     bindE (kahn (adjacency g) (map fst (filter (\<lambda>(nid, d). d = 0) (in_degrees g))) (in_degrees g) [])
       (\<lambda>(layers, rem).
          let remaining = map fst (filter (\<lambda>(nid, d). 0 < d) rem)
          in Inr (if remaining \<noteq> [] then layers @ [sort remaining] else layers))"

definition auto_layout :: "pyfloat \<Rightarrow> pyfloat \<Rightarrow> agent_graph \<Rightarrow> py_exn + node_position list" where
  "auto_layout layer_gap node_gap g =
     bindE (layout_layers g) (\<lambda>layers.
       Inr (concat (map (place_layer layer_gap node_gap) (enumerate 0 layers))))"

end
