(* ===== verification/GraphLayoutOk.thy ===== *)
theory GraphLayoutOk
  imports GraphLayout
begin

text \<open>
  Correctness of the layered layout: the layers hold every node once, every edge into a
  node that was reached leads from an earlier layer, and the dictionary accesses cannot
  fail.
\<close>

section \<open>Remaining in-degrees\<close>

text \<open>How many edges lead into a node from nodes outside \<open>D\<close>.\<close>

definition indeg :: "(str \<times> str) list \<Rightarrow> str set \<Rightarrow> str \<Rightarrow> int" where
  "indeg es D n = int (length (filter (\<lambda>(s, t). t = n \<and> s \<notin> D) es))"

definition out_list :: "(str \<times> str) list \<Rightarrow> str \<Rightarrow> str list" where
  "out_list es s = map snd (filter (\<lambda>e. fst e = s) es)"

lemma indeg_nonneg: "0 \<le> indeg es D n"
  by (simp add: indeg_def)

lemma indeg_insert:
  assumes "s \<notin> D"
  shows "indeg es (insert s D) n = indeg es D n - int (count_list (out_list es s) n)"
  using assms by (induction es) (auto simp: indeg_def out_list_def)

lemma indeg_zero_iff: "indeg es D n = 0 \<longleftrightarrow> (\<forall>s. (s, n) \<in> set es \<longrightarrow> s \<in> D)"
  by (auto simp: indeg_def filter_empty_conv)

lemma indeg_mono: "D \<subseteq> D' \<Longrightarrow> indeg es D' n \<le> indeg es D n"
  by (induction es) (auto simp: indeg_def)

lemma update_keys: "map_of d k \<noteq> None \<Longrightarrow> map fst (AList.update k v d) = map fst d"
  by (induction d) auto

lemma count_list_pos: "n \<in> set ns \<longleftrightarrow> 0 < count_list ns n"
  by (metis count_list_0_iff gr0I less_numeral_extra(3))

text \<open>The inner loop subtracts the number of occurrences; a node is queued when its degree ends at zero.\<close>

lemma relax_result:
  assumes "\<And>n. n \<in> set ns \<Longrightarrow> \<exists>d. map_of rem n = Some d \<and> int (count_list ns n) \<le> d"
  shows "\<exists>rem' z. relax ns (rem, nq) = Inr (rem', nq @ z) \<and> map fst rem' = map fst rem
    \<and> (\<forall>n. map_of rem' n = map_option (\<lambda>d. d - int (count_list ns n)) (map_of rem n))
    \<and> distinct z \<and> set z = {n \<in> set ns. map_of rem n = Some (int (count_list ns n))}"
  using assms
proof (induction ns arbitrary: rem nq)
  case Nil
  show ?case by (simp add: option.map_ident)
next
  case (Cons n ns)
  obtain d where d: "map_of rem n = Some d" "int (count_list (n # ns) n) \<le> d"
    using Cons.prems [of n] by auto
  let ?rem = "AList.update n (d - 1) rem" and ?nq = "if d - 1 = 0 then nq @ [n] else nq"
  have "\<exists>e. map_of ?rem m = Some e \<and> int (count_list ns m) \<le> e" if "m \<in> set ns" for m
    using Cons.prems [of m] that d by auto
  then obtain rem' z where r: "relax ns (?rem, ?nq) = Inr (rem', ?nq @ z)" "map fst rem' = map fst ?rem"
      "\<And>m. map_of rem' m = map_option (\<lambda>d. d - int (count_list ns m)) (map_of ?rem m)"
      "distinct z" "set z = {m \<in> set ns. map_of ?rem m = Some (int (count_list ns m))}"
    using Cons.IH [of ?rem ?nq] by blast
  show ?case
  proof (intro exI [of _ rem'] exI [of _ "if d - 1 = 0 then n # z else z"] conjI allI)
    show "relax (n # ns) (rem, nq) = Inr (rem', nq @ (if d - 1 = 0 then n # z else z))"
      using d r(1) by simp
    show "map fst rem' = map fst rem" using r(2) d by (simp add: update_keys)
    show "map_of rem' m = map_option (\<lambda>d. d - int (count_list (n # ns) m)) (map_of rem m)" for m
      using r(3) [of m] d by simp
    have none: "n \<notin> set ns" if "d - 1 = 0"
      using d(2) that by (simp add: count_list_pos)
    then show "distinct (if d - 1 = 0 then n # z else z)" using r(4,5) by auto
    show "set (if d - 1 = 0 then n # z else z) = {m \<in> set (n # ns). map_of rem m = Some (int (count_list (n # ns) m))}"
    proof (rule set_eqI)
      fix m
      show "m \<in> set (if d - 1 = 0 then n # z else z) \<longleftrightarrow>
          m \<in> {m \<in> set (n # ns). map_of rem m = Some (int (count_list (n # ns) m))}"
      proof (cases "m = n")
        case True
        have "n \<in> set z \<longleftrightarrow> n \<in> set ns \<and> d - 1 = int (count_list ns n)" unfolding r(5) by simp
        moreover have "n \<notin> set ns \<Longrightarrow> count_list ns n = 0" by (simp add: count_list_0_iff)
        ultimately show ?thesis using True d none by (cases "n \<in> set ns") auto
      next
        case False
        then show ?thesis unfolding r(5) [symmetric] using r(5) by simp
      qed
    qed
  qed
qed

section \<open>One layer\<close>

definition degrees_ok :: "(str \<times> str) list \<Rightarrow> str list \<Rightarrow> str set \<Rightarrow> degrees \<Rightarrow> bool" where
  "degrees_ok es N D rem \<longleftrightarrow> map fst rem = N \<and> (\<forall>n \<in> set N. map_of rem n = Some (indeg es D n))"

definition freed :: "(str \<times> str) list \<Rightarrow> str set \<Rightarrow> str set \<Rightarrow> str \<Rightarrow> bool" where
  "freed es D D' n \<longleftrightarrow> 0 < indeg es D n \<and> indeg es D' n = 0"

lemma out_list_targets: "n \<in> set (out_list es s) \<longleftrightarrow> (s, n) \<in> set es"
  by (auto simp: out_list_def intro: rev_image_eqI)

lemma relax_node:
  assumes ok: "degrees_ok es N D rem" and s: "s \<notin> D" and ends: "snd ` set es \<subseteq> set N"
  shows "\<exists>rem' z. relax (out_list es s) (rem, nq) = Inr (rem', nq @ z) \<and> degrees_ok es N (insert s D) rem'
    \<and> distinct z \<and> set z = {n \<in> set N. freed es D (insert s D) n}"
proof -
  have mem: "n \<in> set N" if "n \<in> set (out_list es s)" for n
    using that ends by (auto simp: out_list_targets)
  have "\<exists>d. map_of rem n = Some d \<and> int (count_list (out_list es s) n) \<le> d" if "n \<in> set (out_list es s)" for n
    using ok mem [OF that] indeg_insert [OF s, of es n] indeg_nonneg [of es "insert s D" n]
    by (auto simp: degrees_ok_def)
  from relax_result [OF this, of nq] obtain rem' z where
    r: "relax (out_list es s) (rem, nq) = Inr (rem', nq @ z)" "map fst rem' = map fst rem"
      "\<And>n. map_of rem' n = map_option (\<lambda>d. d - int (count_list (out_list es s) n)) (map_of rem n)"
      "distinct z" "set z = {n \<in> set (out_list es s). map_of rem n = Some (int (count_list (out_list es s) n))}"
    by blast
  have ok': "degrees_ok es N (insert s D) rem'"
    using ok r(2,3) by (auto simp: degrees_ok_def indeg_insert [OF s])
  have "n \<in> set z \<longleftrightarrow> n \<in> set N \<and> freed es D (insert s D) n" for n
  proof -
    have "map_of rem n = Some (indeg es D n)" if "n \<in> set N" using ok that by (simp add: degrees_ok_def)
    then have "map_of rem n = Some (int (count_list (out_list es s) n)) \<longleftrightarrow> indeg es (insert s D) n = 0" if "n \<in> set N"
      using that indeg_insert [OF s, of es n] by simp
    moreover have "0 < indeg es D n \<and> indeg es (insert s D) n = 0 \<Longrightarrow> n \<in> set (out_list es s)"
      using indeg_insert [OF s, of es n] by (simp add: count_list_pos)
    moreover have "n \<in> set (out_list es s) \<Longrightarrow> indeg es (insert s D) n < indeg es D n"
      using indeg_insert [OF s, of es n] by (simp add: count_list_pos)
    ultimately show ?thesis
      using r(5) mem [of n] indeg_nonneg [of es "insert s D" n] unfolding freed_def by force
  qed
  then have "set z = {n \<in> set N. freed es D (insert s D) n}" by blast
  then show ?thesis using r(1,4) ok' by blast
qed

lemma relax_layer_result:
  assumes "degrees_ok es N D rem" "distinct nids" "set nids \<inter> D = {}" "snd ` set es \<subseteq> set N"
    "\<And>k. dict_get adj k [] = out_list es k"
  shows "\<exists>rem' z. relax_layer adj nids (rem, nq) = Inr (rem', nq @ z) \<and> degrees_ok es N (D \<union> set nids) rem'
    \<and> distinct z \<and> set z = {n \<in> set N. freed es D (D \<union> set nids) n}"
  using assms
proof (induction nids arbitrary: D rem nq)
  case Nil
  then show ?case by (auto simp: freed_def)
next
  case (Cons s nids)
  from Cons.prems(3) have s: "s \<notin> D" by simp
  obtain rem1 z1 where r: "relax (out_list es s) (rem, nq) = Inr (rem1, nq @ z1)"
      "degrees_ok es N (insert s D) rem1" "distinct z1" "set z1 = {n \<in> set N. freed es D (insert s D) n}"
    using relax_node [OF Cons.prems(1) s Cons.prems(4), of nq] by blast
  have "set nids \<inter> insert s D = {}" "distinct nids" using Cons.prems(2,3) by auto
  then obtain rem2 z2 where r2: "relax_layer adj nids (rem1, nq @ z1) = Inr (rem2, (nq @ z1) @ z2)"
      "degrees_ok es N (insert s D \<union> set nids) rem2" "distinct z2"
      "set z2 = {n \<in> set N. freed es (insert s D) (insert s D \<union> set nids) n}"
    using Cons.IH [OF r(2) _ _ Cons.prems(4,5), of "nq @ z1"] by blast
  have mono: "indeg es (insert s D \<union> set nids) n \<le> indeg es (insert s D) n" "indeg es (insert s D) n \<le> indeg es D n" for n
    by (intro indeg_mono; auto)+
  have "freed es D (insert s D) n \<or> freed es (insert s D) (insert s D \<union> set nids) n \<longleftrightarrow>
      freed es D (insert s D \<union> set nids) n" for n
    using mono [of n] indeg_nonneg [of es "insert s D \<union> set nids" n] indeg_nonneg [of es "insert s D" n]
    by (auto simp: freed_def)
  then have "set (z1 @ z2) = {n \<in> set N. freed es D (insert s D \<union> set nids) n}" using r(4) r2(4) by auto
  moreover have "distinct (z1 @ z2)" using r(3,4) r2(3,4) by (auto simp: freed_def)
  moreover have "insert s D \<union> set nids = D \<union> set (s # nids)" by auto
  ultimately show ?case using r r2 Cons.prems(5)
    by (intro exI [of _ rem2] exI [of _ "z1 @ z2"]) simp
qed

section \<open>All layers\<close>

text \<open>
  The state of the outer loop: the layers built so far hold nodes whose predecessors lie
  in earlier layers, and they and the queue are exactly the nodes without predecessors
  outside the layers.
\<close>

definition layered :: "(str \<times> str) list \<Rightarrow> str list list \<Rightarrow> bool" where
  "layered es layers \<longleftrightarrow> (\<forall>s t j. (s, t) \<in> set es \<longrightarrow> j < length layers \<longrightarrow>
     t \<in> set (layers ! j) \<longrightarrow> (\<exists>i < j. s \<in> set (layers ! i)))"

definition kahn_ok :: "(str \<times> str) list \<Rightarrow> str list \<Rightarrow> str list \<Rightarrow> degrees \<Rightarrow> str list list \<Rightarrow> bool" where
  "kahn_ok es N queue rem layers \<longleftrightarrow>
     (let D = set (concat layers)
      in distinct (concat layers @ queue) \<and> degrees_ok es N D rem \<and> layered es layers
         \<and> set (concat layers @ queue) = {n \<in> set N. indeg es D n = 0})"

lemma layered_snoc:
  assumes "layered es layers" "\<And>s t. (s, t) \<in> set es \<Longrightarrow> t \<in> set layer \<Longrightarrow> s \<in> set (concat layers)"
  shows "layered es (layers @ [layer])"
  unfolding layered_def
proof safe
  fix s t j assume e: "(s, t) \<in> set es" and j: "j < length (layers @ [layer])" and t: "t \<in> set ((layers @ [layer]) ! j)"
  show "\<exists>i<j. s \<in> set ((layers @ [layer]) ! i)"
  proof (cases "j < length layers")
    case True
    then obtain i where "i < j" "s \<in> set (layers ! i)"
      using assms(1) e t by (fastforce simp: layered_def nth_append)
    then show ?thesis using True by (auto simp: nth_append intro!: exI [of _ i])
  next
    case False
    then have "s \<in> set (concat layers)" using assms(2) [OF e] t j by (simp add: nth_append)
    then obtain ls where "ls \<in> set layers" "s \<in> set ls" by auto
    then obtain i where "i < length layers" "s \<in> set (layers ! i)" by (metis in_set_conv_nth)
    then show ?thesis using False by (auto simp: nth_append intro!: exI [of _ i])
  qed
qed

lemma kahn_step:
  assumes ok: "kahn_ok es N queue rem layers" and ends: "snd ` set es \<subseteq> set N"
    and adj: "\<And>k. dict_get adj k [] = out_list es k"
  shows "\<exists>rem' nq. relax_layer adj (sort queue) (rem, []) = Inr (rem', nq)
    \<and> kahn_ok es N nq rem' (layers @ [sort queue])"
proof -
  let ?D = "set (concat layers)"
  have d: "degrees_ok es N ?D rem" "distinct (sort queue)" "set (sort queue) \<inter> ?D = {}"
    using ok by (auto simp: kahn_ok_def Let_def)
  obtain rem' z where r: "relax_layer adj (sort queue) (rem, []) = Inr (rem', z)"
      "degrees_ok es N (?D \<union> set (sort queue)) rem'" "distinct z"
      "set z = {n \<in> set N. freed es ?D (?D \<union> set (sort queue)) n}"
    using relax_layer_result [OF d ends adj, of "[]"] by auto
  have D': "set (concat (layers @ [sort queue])) = ?D \<union> set (sort queue)" by simp
  have z: "?D \<union> set queue = {n \<in> set N. indeg es ?D n = 0}"
    using ok by (simp add: kahn_ok_def Let_def)
  have mono: "indeg es (?D \<union> set (sort queue)) n \<le> indeg es ?D n" for n by (rule indeg_mono) auto
  have mem: "n \<in> set z \<longleftrightarrow> n \<in> set N \<and> indeg es (?D \<union> set queue) n = 0 \<and> n \<notin> ?D \<union> set queue" for n
    using r(4) z indeg_nonneg [of es ?D n] by (auto simp: freed_def)
  have old: "indeg es (?D \<union> set queue) n = 0" if "n \<in> ?D \<union> set queue" for n
  proof -
    have "indeg es ?D n = 0" using that z by blast
    then show ?thesis using mono [of n] indeg_nonneg [of es "?D \<union> set queue" n] by simp
  qed
  have "layered es (layers @ [sort queue])"
  proof (rule layered_snoc)
    show "layered es layers" using ok by (simp add: kahn_ok_def Let_def)
    fix s t assume "(s, t) \<in> set es" "t \<in> set (sort queue)"
    then show "s \<in> ?D" using z indeg_zero_iff [of es ?D t] by auto
  qed
  moreover have "distinct (concat (layers @ [sort queue]) @ z)"
    using ok r(3) mem by (auto simp: kahn_ok_def Let_def)
  moreover have "set (concat (layers @ [sort queue]) @ z) = {n \<in> set N. indeg es (?D \<union> set (sort queue)) n = 0}"
    using mem old z by auto
  ultimately have "kahn_ok es N z rem' (layers @ [sort queue])"
    unfolding kahn_ok_def Let_def D' using r(2) by blast
  then show ?thesis using r(1) by blast
qed

lemma kahn_result:
  assumes "kahn_ok es N queue rem layers" "snd ` set es \<subseteq> set N" "\<And>k. dict_get adj k [] = out_list es k"
  shows "\<exists>layers' rem'. kahn adj queue rem layers = Inr (layers', rem') \<and> kahn_ok es N [] rem' layers'"
  using assms
proof (induction adj queue rem layers rule: kahn.induct)
  case (1 adj queue rem layers)
  show ?case
  proof (cases "queue = []")
    case True
    then show ?thesis using "1.prems"(1) by (simp add: kahn.simps)
  next
    case False
    obtain rem' nq where r: "relax_layer adj (sort queue) (rem, []) = Inr (rem', nq)"
        "kahn_ok es N nq rem' (layers @ [sort queue])"
      using kahn_step [OF "1.prems"] by blast
    from "1.IH" [OF False r(1) refl r(2) "1.prems"(2,3)] show ?thesis
      using False r(1) by (simp add: kahn.simps [of adj queue])
  qed
qed

section \<open>The layers of a graph\<close>

lemma node_edges_out: "dict_get (adjacency g) k [] = out_list (node_edges g) k"
  by (simp add: adjacency_get out_list_def)

lemma count_in_get:
  assumes "snd ` set es \<subseteq> fst ` set deg"
  shows "map fst (count_in es deg) = map fst deg \<and>
    (\<forall>n. map_of (count_in es deg) n = map_option (\<lambda>d. d + indeg es {} n) (map_of deg n))"
  using assms
proof (induction es deg rule: count_in.induct)
  case (1 deg)
  show ?case by (simp add: indeg_def option.map_ident)
next
  case (2 s t es deg)
  have t: "map_of deg t \<noteq> None" using "2.prems" by (auto simp: map_of_eq_None_iff)
  let ?deg = "AList.update t (dict_get deg t 0 + 1) deg"
  have k: "map fst ?deg = map fst deg" using t by (rule update_keys)
  then have "fst ` set ?deg = fst ` set deg" by (metis list.set_map)
  then have "snd ` set es \<subseteq> fst ` set ?deg" using "2.prems" by auto
  from "2.IH" [OF this] k t show ?case by (auto simp: indeg_def dict_get_def)
qed

lemma in_degrees_ok:
  "degrees_ok (node_edges g) (map fst (g_nodes g)) {} (in_degrees g)"
proof -
  let ?d = "map (\<lambda>(nid, c). (nid, 0)) (g_nodes g) :: degrees"
  have k: "map fst ?d = map fst (g_nodes g)" by (induction "g_nodes g") auto
  have keys: "fst ` set ?d = fst ` set (g_nodes g)" by force
  have "snd ` set (node_edges g) \<subseteq> fst ` set ?d"
    unfolding keys using node_edges_ends [of _ _ g] by force
  from count_in_get [OF this] k keys show ?thesis
    unfolding degrees_ok_def in_degrees_def
    by (auto simp: map_of_const image_iff map_of_eq_None_iff dest: weak_map_of_SomeI)
qed

lemma keys_filter_degrees:
  assumes "map fst rem = N" "distinct N" "\<forall>n \<in> set N. map_of rem n = Some (f n)"
  shows "map fst (filter (\<lambda>(n, d). P d) rem) = filter (\<lambda>n. P (f n)) N"
proof -
  have "P (snd p) = P (f (fst p))" if "p \<in> set rem" for p
    using assms that by (metis image_eqI list.set_map map_of_eq_Some_iff option.inject prod.collapse)
  then have "filter (\<lambda>(n, d). P d) rem = filter (\<lambda>p. P (f (fst p))) rem"
    by (intro filter_cong) auto
  then show ?thesis using assms(1) by (simp add: filter_map o_def flip: assms(1))
qed

lemma acyclic_reach:
  assumes ac: "\<forall>x. (x, x) \<notin> E\<^sup>+" and fin: "finite E"
    and closed: "\<And>t. t \<in> R \<Longrightarrow> \<exists>s \<in> R. (s, t) \<in> E"
  shows "R = {}"
proof -
  have "acyclic E" using ac by (simp add: acyclic_def)
  then have w: "wf E" using fin finite_acyclic_wf by blast
  show ?thesis
  proof (rule ccontr)
    assume "R \<noteq> {}"
    then obtain z where "z \<in> R" "\<forall>y. (y, z) \<in> E \<longrightarrow> y \<notin> R" using w by (meson wfE_min ex_in_conv)
    then show False using closed by blast
  qed
qed

text \<open>
  The computed layers: no KeyError, every node in one place, edges into all but the nodes
  of a last, cyclic layer go forward; without a cycle there is no such layer.
\<close>

lemma layout_layers_ok:
  assumes nodes: "dict_ok (g_nodes g)"
  shows "\<exists>layers. layout_layers g = Inr layers \<and> distinct (concat layers)
    \<and> set (concat layers) = fst ` set (g_nodes g)
    \<and> ((\<forall>x. (x, x) \<notin> (set (node_edges g))\<^sup>+) \<longrightarrow> layered (node_edges g) layers)"
proof -
  let ?es = "node_edges g" and ?N = "map fst (g_nodes g)"
  let ?q = "map fst (filter (\<lambda>(nid, d). d = 0) (in_degrees g))"
  have N: "distinct ?N" using nodes by (simp add: dict_ok_def)
  have ends: "snd ` set ?es \<subseteq> set ?N" using node_edges_ends [of _ _ g] by force
  have q: "?q = filter (\<lambda>n. indeg ?es {} n = 0) ?N"
    by (rule keys_filter_degrees [OF _ N]) (use in_degrees_ok [of g] in \<open>unfold degrees_ok_def, blast+\<close>)
  have "kahn_ok ?es ?N ?q (in_degrees g) []"
    unfolding kahn_ok_def Let_def q using N in_degrees_ok [of g] by (auto simp: layered_def)
  then obtain layers rem where k: "kahn (adjacency g) ?q (in_degrees g) [] = Inr (layers, rem)"
      "kahn_ok ?es ?N [] rem layers"
    using kahn_result [OF _ ends node_edges_out] by blast
  let ?D = "set (concat layers)"
  define rest where "rest = map fst (filter (\<lambda>(nid, d). 0 < d) rem)"
  have rem: "degrees_ok ?es ?N ?D rem" "distinct (concat layers)" "layered ?es layers"
      "?D = {n \<in> set ?N. indeg ?es ?D n = 0}"
    using k(2) by (auto simp: kahn_ok_def Let_def)
  have rest: "rest = filter (\<lambda>n. 0 < indeg ?es ?D n) ?N"
    unfolding rest_def using rem(1) N by (intro keys_filter_degrees) (auto simp: degrees_ok_def)
  have Drest: "?D \<inter> set rest = {}" "?D \<union> set rest = set ?N" "distinct rest"
    using rem(4) rest N indeg_nonneg [of ?es ?D] by (auto simp: order_less_le)
  have none: "rest = []" if "\<forall>x. (x, x) \<notin> (set ?es)\<^sup>+"
  proof -
    have "\<exists>s \<in> set rest. (s, t) \<in> set ?es" if "t \<in> set rest" for t
    proof -
      have "indeg ?es ?D t \<noteq> 0" using that rest by auto
      then obtain s where s: "(s, t) \<in> set ?es" "s \<notin> ?D" by (auto simp: indeg_zero_iff)
      then have "s \<in> set ?N" using node_edges_ends by force
      then show ?thesis using s Drest(2) by blast
    qed
    then have "set rest = {}" using that by (intro acyclic_reach [of "set ?es"]) auto
    then show ?thesis by simp
  qed
  let ?layers = "if rest \<noteq> [] then layers @ [sort rest] else layers"
  have "layout_layers g = Inr ?layers" by (simp add: layout_layers_def k(1) rest_def Let_def)
  moreover have "distinct (concat ?layers)" "set (concat ?layers) = fst ` set (g_nodes g)"
    using Drest rem(2) by auto
  moreover have "(\<forall>x. (x, x) \<notin> (set ?es)\<^sup>+) \<longrightarrow> layered ?es ?layers"
    using none rem(3) by simp
  ultimately show ?thesis by blast
qed

section \<open>Positions\<close>

definition layer_start :: "pyfloat \<Rightarrow> str list \<Rightarrow> pyfloat" where
  "layer_start node_gap layer = - (of_nat (length layer) * node_gap) / 2 + node_gap / 2"

definition position_at :: "pyfloat \<Rightarrow> pyfloat \<Rightarrow> str list list \<Rightarrow> nat \<Rightarrow> nat \<Rightarrow> node_position" where
  "position_at layer_gap node_gap layers i j =
     \<lparr>np_node_id = layers ! i ! j, np_x = layer_start node_gap (layers ! i) + of_nat j * node_gap,
      np_y = of_nat i * layer_gap, np_width = 200, np_height = 80\<rparr>"

lemma enumerate_0: "enumerate 0 xs = map (\<lambda>i. (i, xs ! i)) [0..<length xs]"
  by (rule nth_equalityI) (simp_all add: nth_enumerate_eq)

lemma place_layer_eq:
  "place_layer lg ng (i, layer) = map (\<lambda>j. \<lparr>np_node_id = layer ! j,
     np_x = layer_start ng layer + of_nat j * ng, np_y = of_nat i * lg, np_width = 200, np_height = 80\<rparr>)
     [0..<length layer]"
  by (simp add: place_layer_def layer_start_def Let_def enumerate_0)

lemma place_layer_ids: "map np_node_id (place_layer lg ng (i, layer)) = layer"
  by (simp add: place_layer_eq o_def map_nth)

lemma placed_ids:
  "map np_node_id (concat (map (place_layer lg ng) (enumerate k layers))) = concat layers"
  by (induction layers arbitrary: k) (simp_all add: place_layer_ids)

lemma placed_iff:
  "p \<in> set (concat (map (place_layer lg ng) (enumerate 0 layers))) \<longleftrightarrow>
   (\<exists>i j. i < length layers \<and> j < length (layers ! i) \<and> p = position_at lg ng layers i j)"
proof -
  have "place_layer lg ng (i, layers ! i) = map (position_at lg ng layers i) [0..<length (layers ! i)]" for i
    by (simp add: place_layer_eq position_at_def)
  then have "map (place_layer lg ng) (enumerate 0 layers) =
      map (\<lambda>i. map (position_at lg ng layers i) [0..<length (layers ! i)]) [0..<length layers]"
    by (simp add: enumerate_0)
  then show ?thesis by (simp del: enumerate_simps) (fastforce simp: image_iff)
qed

text \<open>Boxes that do not overlap.\<close>

definition apart :: "node_position \<Rightarrow> node_position \<Rightarrow> bool" where
  "apart p q \<longleftrightarrow> np_x p + np_width p \<le> np_x q \<or> np_x q + np_width q \<le> np_x p
     \<or> np_y p + np_height p \<le> np_y q \<or> np_y q + np_height q \<le> np_y p"

lemma grid_gap: "i < (i' :: nat) \<Longrightarrow> w \<le> g \<Longrightarrow> 0 \<le> w \<Longrightarrow> of_nat i * g + w \<le> of_nat i' * (g :: rat)"
proof -
  assume a: "i < i'" "w \<le> g" "0 \<le> w"
  then have "of_nat (Suc i) * g \<le> of_nat i' * g"
    by (intro mult_right_mono) auto
  then show ?thesis using a(2) by (simp add: algebra_simps)
qed

lemma positions_apart:
  assumes "200 \<le> ng" "80 \<le> lg" "(i, j) \<noteq> (i', j')"
  shows "apart (position_at lg ng layers i j) (position_at lg ng layers i' j')"
proof (cases "i = i'")
  case True
  then have "j < j' \<or> j' < j" using assms(3) by auto
  then show ?thesis
    using True grid_gap [of j j' 200 ng] grid_gap [of j' j 200 ng] assms(1)
    by (auto simp: apart_def position_at_def algebra_simps)
next
  case False
  then have "i < i' \<or> i' < i" by auto
  then show ?thesis
    using grid_gap [of i i' 80 lg] grid_gap [of i' i 80 lg] assms(2)
    by (auto simp: apart_def position_at_def)
qed

lemma distinct_concat_disjoint:
  "distinct (concat xs) \<Longrightarrow> i < length xs \<Longrightarrow> j < length xs \<Longrightarrow> i \<noteq> j \<Longrightarrow> set (xs ! i) \<inter> set (xs ! j) = {}"
proof (induction xs arbitrary: i j)
  case Nil
  then show ?case by simp
next
  case (Cons x xs)
  have sub: "set (xs ! k) \<subseteq> set (concat xs)" if "k < length xs" for k
    using that by (metis UN_upper nth_mem set_concat)
  have x: "set x \<inter> set (concat xs) = {}" "distinct (concat xs)" using Cons.prems(1) by simp_all
  show ?case
  proof (cases i)
    case 0
    then obtain k where "j = Suc k" "k < length xs" using Cons.prems by (cases j) auto
    then show ?thesis using 0 sub x(1) by auto
  next
    case (Suc k)
    show ?thesis
    proof (cases j)
      case 0
      then show ?thesis using Suc sub [of k] x(1) Cons.prems(2) by auto
    next
      case (Suc l)
      then show ?thesis using \<open>i = Suc k\<close> Cons.IH [OF x(2), of k l] Cons.prems(2-4) by simp
    qed
  qed
qed

lemma auto_layout_ok:
  assumes "dict_ok (g_nodes g)"
  shows "\<exists>ps. auto_layout lg ng g = Inr ps \<and> distinct (map np_node_id ps)
    \<and> set (map np_node_id ps) = fst ` set (g_nodes g)
    \<and> (200 \<le> ng \<and> 80 \<le> lg \<longrightarrow> (\<forall>p \<in> set ps. \<forall>q \<in> set ps. p \<noteq> q \<longrightarrow> apart p q))
    \<and> (0 < lg \<and> (\<forall>x. (x, x) \<notin> (set (node_edges g))\<^sup>+) \<longrightarrow>
        (\<forall>p \<in> set ps. \<forall>q \<in> set ps. (np_node_id p, np_node_id q) \<in> set (node_edges g) \<longrightarrow> np_y p < np_y q))"
proof -
  obtain layers where l: "layout_layers g = Inr layers" "distinct (concat layers)"
      "set (concat layers) = fst ` set (g_nodes g)"
      "(\<forall>x. (x, x) \<notin> (set (node_edges g))\<^sup>+) \<longrightarrow> layered (node_edges g) layers"
    using layout_layers_ok [OF assms] by blast
  let ?ps = "concat (map (place_layer lg ng) (enumerate 0 layers))"
  have ids: "map np_node_id ?ps = concat layers" by (rule placed_ids)
  have ap: "apart p q"  if h: "200 \<le> ng" "80 \<le> lg" "p \<in> set ?ps" "q \<in> set ?ps" "p \<noteq> q" for p q
  proof -
    obtain i j i' j' where "p = position_at lg ng layers i j" "q = position_at lg ng layers i' j'"
      using h(3,4) unfolding placed_iff by blast
    then show ?thesis using positions_apart [OF h(1,2), of i j i' j'] h(5) by auto
  qed
  have fwd: "np_y p < np_y q" if h: "0 < lg" "layered (node_edges g) layers" "p \<in> set ?ps" "q \<in> set ?ps"
      "(np_node_id p, np_node_id q) \<in> set (node_edges g)" for p q
  proof -
    obtain i j i' j' where p: "i < length layers" "j < length (layers ! i)" "p = position_at lg ng layers i j"
      and q: "i' < length layers" "j' < length (layers ! i')" "q = position_at lg ng layers i' j'"
      using h(3,4) unfolding placed_iff by blast
    obtain i2 where i2: "i2 < i'" "layers ! i ! j \<in> set (layers ! i2)"
      using h(2,5) p(3) q unfolding layered_def position_at_def by (metis node_position.select_convs(1) nth_mem)
    have "i2 = i"
    proof (rule ccontr)
      assume "i2 \<noteq> i"
      then have "set (layers ! i2) \<inter> set (layers ! i) = {}"
        using i2(1) q(1) p(1) by (intro distinct_concat_disjoint [OF l(2)]) auto
      then show False using i2(2) p(2) by auto
    qed
    then show ?thesis using i2(1) h(1) p(3) q(3) by (simp add: position_at_def)
  qed
  have "auto_layout lg ng g = Inr ?ps" by (simp add: auto_layout_def l(1))
  moreover have "distinct (map np_node_id ?ps)" using l(2) unfolding ids .
  moreover have "set (map np_node_id ?ps) = fst ` set (g_nodes g)" using l(3) unfolding ids .
  ultimately show ?thesis using ap fwd l(4) by blast
qed

end
