(* ===== verification/GraphEditor.thy ===== *)
theory GraphEditor
  imports GraphLayoutOk GraphSerial
begin

text \<open>
  The backend of the visual editor (\<open>graph_editor.py\<close>): structural validation of a
  graph, and the store of graph documents with its operations. The argument \<open>depth\<close> is the
  recursion depth that the interpreter allows to the cycle test; \<open>so\<close> is the order in
  which Python iterates over a set that holds the given elements.
\<close>

section \<open>Validation\<close>

definition valid_transitions :: "(str, str list) dict" where
  "valid_transitions =
     [(''start'', [''llm'', ''tool'', ''condition'', ''end'']),
      (''llm'', [''llm'', ''tool'', ''condition'', ''end'', ''error_handler'']),
      (''tool'', [''llm'', ''tool'', ''condition'', ''end'', ''error_handler'']),
      (''condition'', [''llm'', ''tool'', ''condition'', ''loop'', ''end'']),
      (''loop'', [''llm'', ''tool'', ''condition'', ''end'']),
      (''error_handler'', [''llm'', ''tool'', ''end'']),
      (''end'', [])]"

datatype severity = SevError | SevWarning | SevInfo

text \<open>The issues by their message; an issue of a document names the document.\<close>

datatype editor_issue =
    EdNoStart
  | EdMultipleStart str
  | EdNoEnd
  | EdSourceMissing str
  | EdTargetMissing str
  | EdUnusualTransition str json json
  | EdCycle
  | EdUnreachable str
  | EdFewConditionEdges str
  | EdNoDocument str

fun issue_severity :: "editor_issue \<Rightarrow> severity" where
  "issue_severity EdNoStart = SevError"
| "issue_severity (EdMultipleStart _) = SevError"
| "issue_severity (EdSourceMissing _) = SevError"
| "issue_severity (EdTargetMissing _) = SevError"
| "issue_severity EdCycle = SevError"
| "issue_severity (EdNoDocument _) = SevError"
| "issue_severity _ = SevWarning"

record validation_result =
  vr_valid :: bool
  vr_issues :: "editor_issue list"

text \<open>The exceptions of the editor: those of the graph model, and a recursion that is too deep.\<close>

datatype editor_error = EdRaised py_exn | RecursionError

definition ids_of_type :: "str \<Rightarrow> agent_graph \<Rightarrow> str list" where
  "ids_of_type ty g = map fst (filter (\<lambda>(nid, c). nc_type c = JStr ty) (g_nodes g))"

definition start_issues :: "agent_graph \<Rightarrow> editor_issue list" where
  "start_issues g = (case ids_of_type ''start'' g of
     [] \<Rightarrow> [EdNoStart]
   | [s] \<Rightarrow> []
   | s1 # s2 # ss \<Rightarrow> [EdMultipleStart s2])"

definition end_issues :: "agent_graph \<Rightarrow> editor_issue list" where
  "end_issues g = (if ids_of_type ''end'' g = [] then [EdNoEnd] else [])"

text \<open>\<open>VALID_TRANSITIONS.get(src_type, set())\<close> and the membership test hash both types.\<close>

definition transition_ok :: "json \<Rightarrow> json \<Rightarrow> py_exn + bool" where
  "transition_ok src tgt =
     (if \<not> hashable src \<or> \<not> hashable tgt then Inl TypeError
      else Inr (case (src, tgt) of
                  (JStr s, JStr t) \<Rightarrow> t \<in> set (dict_get valid_transitions s [])
                | _ \<Rightarrow> False))"

definition edge_issue :: "agent_graph \<Rightarrow> edge \<Rightarrow> py_exn + editor_issue list" where
  "edge_issue g e =
     (case map_of (g_nodes g) (e_source e) of
        None \<Rightarrow> Inr [EdSourceMissing (e_source e)]
      | Some src \<Rightarrow>
          (case map_of (g_nodes g) (e_target e) of
             None \<Rightarrow> Inr [EdTargetMissing (e_target e)]
           | Some tgt \<Rightarrow> bindE (transition_ok (nc_type src) (nc_type tgt)) (\<lambda>ok.
               Inr (if ok then [] else [EdUnusualTransition (e_source e) (nc_type src) (nc_type tgt)]))))"

definition orphan_issues :: "(str list \<Rightarrow> str list) \<Rightarrow> agent_graph \<Rightarrow> editor_issue list" where
  "orphan_issues so g =
     (let orphans = so (filter (\<lambda>nid. nid \<notin> editor_reachable g) (map fst (g_nodes g)))
      in map EdUnreachable (filter (\<lambda>nid. nid \<notin> set (ids_of_type ''start'' g)) orphans))"

definition condition_issues :: "agent_graph \<Rightarrow> editor_issue list" where
  "condition_issues g = map EdFewConditionEdges
     (filter (\<lambda>nid. length (filter (\<lambda>e. e_source e = nid) (g_edges g)) < 2) (ids_of_type ''condition'' g))"

definition validate_graph ::
    "(str list \<Rightarrow> str list) \<Rightarrow> nat \<Rightarrow> agent_graph \<Rightarrow> editor_error + validation_result" where
  "validate_graph so depth g =
     (case concatE (edge_issue g) (g_edges g) of
        Inl e \<Rightarrow> Inl (EdRaised e)
      | Inr edge_is \<Rightarrow>
          (case has_cycle depth g of
             None \<Rightarrow> Inl RecursionError
           | Some cyc \<Rightarrow>
               let issues = start_issues g @ end_issues g @ edge_is
                              @ (if cyc then [EdCycle] else []) @ orphan_issues so g @ condition_issues g
               in Inr \<lparr>vr_valid = \<not> list_ex (\<lambda>i. issue_severity i = SevError) issues, vr_issues = issues\<rparr>))"

section \<open>Documents\<close>

record graph_document =
  gm_id :: str
  gm_name :: str
  gm_description :: str
  gm_graph :: graph_doc
  gm_positions :: "node_position list"
  gm_tags :: "str list"
  gm_version :: int

type_synonym graph_editor = "(str, graph_document) dict"

definition empty_doc :: graph_doc where
  "empty_doc = \<lparr>gd_id = None, gd_name = None, gd_description = None, gd_nodes = None,
     gd_edges = None, gd_start = None, gd_version = None, gd_agent_id = None,
     gd_plan_mode = None, gd_stop_on_tool_error = None, gd_policy = None\<rparr>"

text \<open>\<open>graph_data or {"nodes": [], "edges": []}\<close>; \<open>uid\<close> is the first part of a fresh uuid.\<close>

definition create_document ::
    "str \<Rightarrow> str \<Rightarrow> str \<Rightarrow> graph_doc option \<Rightarrow> graph_editor \<Rightarrow> graph_editor \<times> graph_document" where
  "create_document uid name description graph_data ed =
     (let blank = empty_doc\<lparr>gd_nodes := Some (NodesList []), gd_edges := Some []\<rparr>;
          data = (case graph_data of None \<Rightarrow> blank | Some d \<Rightarrow> if d = empty_doc then blank else d);
          doc = \<lparr>gm_id = uid, gm_name = name, gm_description = description, gm_graph = data,
                 gm_positions = [], gm_tags = [], gm_version = 1\<rparr>
      in (AList.update uid doc ed, doc))"

definition get_document :: "str \<Rightarrow> graph_editor \<Rightarrow> graph_document option" where
  "get_document did ed = map_of ed did"

definition list_documents :: "graph_editor \<Rightarrow> graph_document list" where
  "list_documents ed = map snd ed"

text \<open>A keyword argument of \<open>update\<close>; names that are no attribute are ignored.\<close>

datatype doc_update =
    SetId str | SetName str | SetDescription str | SetGraph graph_doc
  | SetPositions "node_position list" | SetTags "str list" | SetVersion int | SetUnknown str

fun set_attr :: "doc_update \<Rightarrow> graph_document \<Rightarrow> graph_document" where
  "set_attr (SetId v) d = d\<lparr>gm_id := v\<rparr>"
| "set_attr (SetName v) d = d\<lparr>gm_name := v\<rparr>"
| "set_attr (SetDescription v) d = d\<lparr>gm_description := v\<rparr>"
| "set_attr (SetGraph v) d = d\<lparr>gm_graph := v\<rparr>"
| "set_attr (SetPositions v) d = d\<lparr>gm_positions := v\<rparr>"
| "set_attr (SetTags v) d = d\<lparr>gm_tags := v\<rparr>"
| "set_attr (SetVersion v) d = d\<lparr>gm_version := v\<rparr>"
| "set_attr (SetUnknown k) d = d"

definition update_document ::
    "str \<Rightarrow> doc_update list \<Rightarrow> graph_editor \<Rightarrow> graph_editor \<times> graph_document option" where
  "update_document did kwargs ed =
     (case map_of ed did of
        None \<Rightarrow> (ed, None)
      | Some doc \<Rightarrow>
          let doc = fold set_attr kwargs doc; doc = doc\<lparr>gm_version := gm_version doc + 1\<rparr>
          in (AList.update did doc ed, Some doc))"

definition delete_document :: "str \<Rightarrow> graph_editor \<Rightarrow> graph_editor \<times> bool" where
  "delete_document did ed = (AList.delete did ed, map_of ed did \<noteq> None)"

definition validate_document ::
    "(str list \<Rightarrow> str list) \<Rightarrow> nat \<Rightarrow> str \<Rightarrow> str \<Rightarrow> graph_editor \<Rightarrow> editor_error + validation_result" where
  "validate_document so depth uid did ed =
     (case map_of ed did of
        None \<Rightarrow> Inr \<lparr>vr_valid = False, vr_issues = [EdNoDocument did]\<rparr>
      | Some doc \<Rightarrow>
          (case graph_from_doc uid (gm_graph doc) of
             Inl e \<Rightarrow> Inl (EdRaised e)
           | Inr g \<Rightarrow> validate_graph so depth g))"

definition compute_layout ::
    "str \<Rightarrow> str \<Rightarrow> graph_editor \<Rightarrow> py_exn + (graph_editor \<times> node_position list)" where
  "compute_layout uid did ed =
     (case map_of ed did of
        None \<Rightarrow> Inr (ed, [])
      | Some doc \<Rightarrow>
          bindE (graph_from_doc uid (gm_graph doc)) (\<lambda>g.
          bindE (auto_layout 150 250 g) (\<lambda>ps.
            Inr (AList.update did (doc\<lparr>gm_positions := ps\<rparr>) ed, ps))))"

definition duplicate_document ::
    "str \<Rightarrow> str \<Rightarrow> str \<Rightarrow> graph_editor \<Rightarrow> graph_editor \<times> graph_document option" where
  "duplicate_document uid did new_name ed =
     (case map_of ed did of
        None \<Rightarrow> (ed, None)
      | Some doc \<Rightarrow>
          let copy = doc\<lparr>gm_id := uid, gm_version := 1,
                         gm_name := (if new_name \<noteq> [] then new_name else gm_name doc @ '' (copy)'')\<rparr>
          in (AList.update uid copy ed, Some copy))"

end
