(* ===== verification/GraphEditorProps.thy ===== *)
theory GraphEditorProps
  imports GraphEditor GraphProps
begin

text \<open>
  The properties of the visual editor: the cycle test decides cyclicity, validation has
  exactly the errors it documents, and the automatic layout is complete, free of overlaps
  and respects the direction of the edges.
\<close>

section \<open>Issues\<close>

lemma concatE_ok:
  assumes "\<And>x. x \<in> set xs \<Longrightarrow> \<exists>ys. f x = Inr ys"
  shows "concatE f xs = Inr (concat (map (\<lambda>x. projr (f x)) xs))"
proof -
  have "mapE f xs = Inr (map (\<lambda>x. projr (f x)) xs)"
    by (rule mapE_Inr) (use assms in force)
  then show ?thesis by (simp add: concatE_def)
qed

lemma edge_issue_ok:
  assumes "\<forall>c \<in> snd ` set (g_nodes g). hashable (nc_type c)"
  shows "\<exists>is. edge_issue g e = Inr is \<and> set is \<subseteq>
      {i. issue_severity i = SevWarning \<and> i \<noteq> EdCycle \<and> (\<forall>n. i \<noteq> EdUnreachable n)} \<union> {EdSourceMissing (e_source e), EdTargetMissing (e_target e)}
    \<and> ((\<exists>i \<in> set is. issue_severity i = SevError) \<longleftrightarrow>
        \<not> (map_of (g_nodes g) (e_source e) \<noteq> None \<and> map_of (g_nodes g) (e_target e) \<noteq> None))"
proof -
  have "hashable (nc_type c)" if "map_of (g_nodes g) n = Some c" for n c
    using assms map_of_SomeD [OF that] by force
  then show ?thesis
    by (auto simp: edge_issue_def transition_ok_def split: option.splits)
qed

lemma issues_of_start:
  "(\<exists>i \<in> set (start_issues g). issue_severity i = SevError) \<longleftrightarrow> length (ids_of_type ''start'' g) \<noteq> 1"
  "EdUnreachable n \<notin> set (start_issues g)"
  by (cases "ids_of_type ''start'' g" rule: remdups_adj.cases; auto simp: start_issues_def)+

lemma issues_of_rest:
  "i \<in> set (end_issues g) \<Longrightarrow> i = EdNoEnd" "i \<in> set (condition_issues g) \<Longrightarrow> \<exists>n. i = EdFewConditionEdges n"
  "i \<in> set (orphan_issues so g) \<Longrightarrow> \<exists>n. i = EdUnreachable n"
  by (auto simp: end_issues_def condition_issues_def orphan_issues_def split: if_splits)

section \<open>Properties\<close>

text \<open>
  C15: The depth-first cycle test answers within a recursion depth of one call per node, and it
  answers whether the edges between existing nodes contain a cycle.
\<close>

theorem has_cycle_exact:
  assumes "length (g_nodes g) \<le> depth"
  shows "has_cycle depth g = Some (\<exists>x. (x, x) \<in> (set (node_edges g))\<^sup>+)"
  using has_cycle_enough [OF assms] has_cycle_correct [of depth g] by blast

text \<open>
  Validation in the editor passes exactly the graphs with one start node, without dangling
  edges and without a cycle; it warns about exactly the nodes that are not start nodes and
  that no start node reaches.
\<close>

theorem validate_graph_exact:
  assumes "length (g_nodes g) \<le> depth"
    and "\<forall>c \<in> snd ` set (g_nodes g). hashable (nc_type c)"
    and "\<And>xs. set (so xs) = set xs"
  shows "\<exists>r. validate_graph so depth g = Inr r
    \<and> (vr_valid r \<longleftrightarrow> length (ids_of_type ''start'' g) = 1
        \<and> (\<forall>e \<in> set (g_edges g). map_of (g_nodes g) (e_source e) \<noteq> None \<and> map_of (g_nodes g) (e_target e) \<noteq> None)
        \<and> (\<forall>x. (x, x) \<notin> (set (node_edges g))\<^sup>+))
    \<and> (\<forall>nid. EdUnreachable nid \<in> set (vr_issues r) \<longleftrightarrow>
        nid \<in> fst ` set (g_nodes g) \<and> nid \<notin> set (ids_of_type ''start'' g)
        \<and> (\<forall>s \<in> set (ids_of_type ''start'' g). (s, nid) \<notin> (set (node_edges g))\<^sup>*))"
proof -
  let ?f = "\<lambda>e. projr (edge_issue g e)"
  note ei = edge_issue_ok [of g, OF assms(2)]
  have e1: "concatE (edge_issue g) (g_edges g) = Inr (concat (map ?f (g_edges g)))"
    using ei by (intro concatE_ok) blast
  obtain cyc where c: "has_cycle depth g = Some cyc" "cyc \<longleftrightarrow> (\<exists>x. (x, x) \<in> (set (node_edges g))\<^sup>+)"
    using has_cycle_enough [OF assms(1)] has_cycle_correct [of depth g] by blast
  have edges: "(\<exists>i \<in> set (?f e). issue_severity i = SevError) \<longleftrightarrow>
      \<not> (map_of (g_nodes g) (e_source e) \<noteq> None \<and> map_of (g_nodes g) (e_target e) \<noteq> None)"
    "EdUnreachable n \<notin> set (?f e)" for e n
    using ei [of e] by (auto dest: subsetD)
  let ?is = "start_issues g @ end_issues g @ concat (map ?f (g_edges g))
      @ (if cyc then [EdCycle] else []) @ orphan_issues so g @ condition_issues g"
  have r: "validate_graph so depth g = Inr \<lparr>vr_valid = \<not> list_ex (\<lambda>i. issue_severity i = SevError) ?is, vr_issues = ?is\<rparr>"
    by (simp add: validate_graph_def e1 c(1) Let_def)
  have none: "\<not> (\<exists>i \<in> set (end_issues g). issue_severity i = SevError)"
      "\<not> (\<exists>i \<in> set (condition_issues g). issue_severity i = SevError)"
      "\<not> (\<exists>i \<in> set (orphan_issues so g). issue_severity i = SevError)"
    using issues_of_rest by fastforce+
  have "list_ex (\<lambda>i. issue_severity i = SevError) ?is \<longleftrightarrow>
      (\<exists>i \<in> set (start_issues g). issue_severity i = SevError) \<or>
      (\<exists>e \<in> set (g_edges g). \<exists>i \<in> set (?f e). issue_severity i = SevError) \<or> cyc"
    using none unfolding list_ex_iff by fastforce
  moreover have "EdUnreachable nid \<in> set ?is \<longleftrightarrow> EdUnreachable nid \<in> set (orphan_issues so g)" for nid
    using edges(2) issues_of_start(2) issues_of_rest(1,2) by fastforce
  moreover have "EdUnreachable nid \<in> set (orphan_issues so g) \<longleftrightarrow>
      nid \<in> fst ` set (g_nodes g) \<and> nid \<notin> set (ids_of_type ''start'' g)
        \<and> (\<forall>s \<in> set (ids_of_type ''start'' g). (s, nid) \<notin> (set (node_edges g))\<^sup>*)" for nid
  proof -
    have "set (orphan_issues so g) = EdUnreachable ` {n \<in> fst ` set (g_nodes g).
        n \<notin> editor_reachable g \<and> n \<notin> set (ids_of_type ''start'' g)}"
      unfolding orphan_issues_def Let_def set_map set_filter assms(3) by blast
    moreover have "nid \<in> editor_reachable g \<longleftrightarrow> (\<exists>s \<in> set (ids_of_type ''start'' g). (s, nid) \<in> (set (node_edges g))\<^sup>*)"
      unfolding editor_reachable_eq start_ids_def ids_of_type_def by blast
    ultimately show ?thesis by blast
  qed
  ultimately show ?thesis
    unfolding r using edges(1) issues_of_start(1) c(2) by simp
qed

text \<open>
  The automatic layout places every node exactly once; with the gaps the editor uses no
  two boxes overlap, and in a graph without a cycle every edge leads to a lower row.
\<close>

theorem auto_layout_places:
  assumes "dict_ok (g_nodes g)"
  shows "\<exists>ps. auto_layout 150 250 g = Inr ps \<and> distinct (map np_node_id ps)
    \<and> set (map np_node_id ps) = fst ` set (g_nodes g)
    \<and> (\<forall>p \<in> set ps. \<forall>q \<in> set ps. p \<noteq> q \<longrightarrow> apart p q)
    \<and> ((\<forall>x. (x, x) \<notin> (set (node_edges g))\<^sup>+) \<longrightarrow>
        (\<forall>p \<in> set ps. \<forall>q \<in> set ps. (np_node_id p, np_node_id q) \<in> set (node_edges g) \<longrightarrow> np_y p < np_y q))"
  using auto_layout_ok [OF assms, of 150 250] by auto

section \<open>Examples\<close>

definition loop_graph :: agent_graph where
  "loop_graph = add_edge ''end'' ''start'' [] demo_graph"

lemma loop_graph_fields:
  "map fst (g_nodes loop_graph) = [''start'', ''llm_1'', ''end'']"
  "map (nc_type \<circ> snd) (g_nodes loop_graph) = [JStr ''start'', JStr ''llm'', JStr ''end'']"
  by (simp_all add: loop_graph_def add_edge_def demo_graph_fields)

lemma loop_graph_edges:
  "set (node_edges loop_graph) = {(''start'', ''llm_1''), (''llm_1'', ''end''), (''end'', ''start'')}"
proof -
  have keys: "fst ` set (g_nodes loop_graph) = {''start'', ''llm_1'', ''end''}"
    using loop_graph_fields(1) by (metis list.set_map list.simps(15) set_empty2)
  have "g_edges loop_graph = [\<lparr>e_source = ''start'', e_target = ''llm_1'', e_label = []\<rparr>,
     \<lparr>e_source = ''llm_1'', e_target = ''end'', e_label = []\<rparr>,
     \<lparr>e_source = ''end'', e_target = ''start'', e_label = []\<rparr>]"
    by (simp add: loop_graph_def add_edge_def demo_graph_fields)
  then show ?thesis by (auto simp: node_edges_def map_of_eq_None_iff keys)
qed

lemma loop_graph_cyclic: "(''start'', ''start'') \<in> (set (node_edges loop_graph))\<^sup>+"
proof -
  have "(''start'', ''end'') \<in> (set (node_edges loop_graph))\<^sup>+"
    by (rule trancl_into_trancl [OF r_into_trancl, of _ "''llm_1''"]) (simp_all add: loop_graph_edges)
  then show ?thesis by (rule trancl_into_trancl) (simp add: loop_graph_edges)
qed

lemma loop_graph_size: "length (g_nodes loop_graph) = 3"
  using arg_cong [OF loop_graph_fields(1), of length] by simp

lemma has_cycle_exact_witness: "has_cycle 3 loop_graph = Some True"
  using has_cycle_exact [of loop_graph 3] loop_graph_size loop_graph_cyclic by auto

lemma validate_graph_exact_witness:
  "\<exists>r. validate_graph rev 3 loop_graph = Inr r \<and> \<not> vr_valid r"
proof -
  have "(nc_type \<circ> snd) ` set (g_nodes loop_graph) = {JStr ''start'', JStr ''llm'', JStr ''end''}"
    using loop_graph_fields(2) by (metis list.set_map list.simps(15) set_empty2)
  moreover have "nc_type c \<in> (nc_type \<circ> snd) ` set (g_nodes loop_graph)" if "c \<in> snd ` set (g_nodes loop_graph)" for c
    using that by auto
  ultimately have h: "\<forall>c \<in> snd ` set (g_nodes loop_graph). hashable (nc_type c)"
    by fastforce
  have "length (g_nodes loop_graph) \<le> 3" by (simp add: loop_graph_size)
  from validate_graph_exact [OF this h, of rev] obtain r where r: "validate_graph rev 3 loop_graph = Inr r"
      "vr_valid r \<longrightarrow> (\<forall>x. (x, x) \<notin> (set (node_edges loop_graph))\<^sup>+)"
    by auto
  then show ?thesis using loop_graph_cyclic by blast
qed

lemma auto_layout_places_witness:
  "\<exists>ps. auto_layout 150 250 loop_graph = Inr ps \<and> set (map np_node_id ps) = {''start'', ''llm_1'', ''end''}"
proof -
  have "dict_ok (g_nodes loop_graph)" by (simp add: dict_ok_def loop_graph_fields)
  from auto_layout_places [OF this] obtain ps where "auto_layout 150 250 loop_graph = Inr ps"
      "set (map np_node_id ps) = fst ` set (g_nodes loop_graph)" by blast
  moreover have "fst ` set (g_nodes loop_graph) = {''start'', ''llm_1'', ''end''}"
    using loop_graph_fields(1) by (metis list.set_map list.simps(15) set_empty2)
  ultimately show ?thesis by metis
qed

end
