(* ===== verification/EventTree.thy ===== *)
theory EventTree
  imports Json
begin

text \<open>
  The event tree of runs (\<open>event_tree.py\<close>): an event log per run with parent links, run
  metadata, forks that copy the path to an event into a new run, and branches of a family
  of runs with one active branch.

  The three SQL tables are the fields of one state. \<open>INSERT OR REPLACE\<close> removes the row with
  the same primary key and adds the new one at the end of the table. An event is a JSON
  object; its type and identifiers are strings (\<open>AgentEvent.to_dict\<close> writes strings), and a
  field of another type counts as absent. Encoding to JSON text and back is left out, and
  with it the branches for undecodable rows.
\<close>

section \<open>Tables\<close>

record event_row =
  ev_run :: str
  ev_id :: str
  ev_parent :: str
  ev_seq :: int
  ev_json :: jobj
  ev_messages :: "json list"
  ev_created :: pyfloat

record run_meta =
  rm_run :: str
  rm_graph :: str
  rm_session :: str
  rm_task :: str
  rm_team :: str
  rm_root :: str
  rm_parent :: str
  rm_fork_event :: str
  rm_created :: pyfloat

record branch_row =
  br_id :: str
  br_run :: str
  br_root :: str
  br_parent :: str
  br_fork_event :: str
  br_title :: str
  br_active :: bool
  br_created :: pyfloat

record tree_db =
  td_log :: "event_row list"
  td_meta :: "run_meta list"
  td_branches :: "branch_row list"

definition tree_init :: tree_db where
  "tree_init = \<lparr>td_log = [], td_meta = [], td_branches = []\<rparr>"

definition put_event :: "event_row \<Rightarrow> event_row list \<Rightarrow> event_row list" where
  "put_event r evs = filter (\<lambda>x. \<not> (ev_run x = ev_run r \<and> ev_id x = ev_id r)) evs @ [r]"

definition put_meta :: "run_meta \<Rightarrow> run_meta list \<Rightarrow> run_meta list" where
  "put_meta m ms = filter (\<lambda>x. rm_run x \<noteq> rm_run m) ms @ [m]"

definition put_branch :: "branch_row \<Rightarrow> branch_row list \<Rightarrow> branch_row list" where
  "put_branch b bs = filter (\<lambda>x. br_id x \<noteq> br_id b) bs @ [b]"

section \<open>Runs\<close>

definition get_run_meta :: "str \<Rightarrow> tree_db \<Rightarrow> run_meta option" where
  "get_run_meta rid db = first_opt (filter (\<lambda>m. rm_run m = rid) (td_meta db))"

definition root_of :: "str \<Rightarrow> str \<Rightarrow> str \<Rightarrow> tree_db \<Rightarrow> str" where
  "root_of rid parent rt db =
     (if rt \<noteq> [] then rt
      else if parent \<noteq> [] then
        (case get_run_meta parent db of
           None \<Rightarrow> parent
         | Some m \<Rightarrow> if rm_root m \<noteq> [] then rm_root m else parent)
      else rid)"

definition register_run ::
    "pyfloat \<Rightarrow> str \<Rightarrow> str \<Rightarrow> str \<Rightarrow> str \<Rightarrow> str \<Rightarrow> str \<Rightarrow> str \<Rightarrow> str \<Rightarrow> tree_db \<Rightarrow> tree_db" where
  "register_run now rid graph session task team parent rt fork_event db =
     db\<lparr>td_meta := put_meta \<lparr>rm_run = rid, rm_graph = graph, rm_session = session, rm_task = task,
          rm_team = team, rm_root = root_of rid parent rt db, rm_parent = parent,
          rm_fork_event = fork_event, rm_created = now\<rparr> (td_meta db)\<rparr>"

text \<open>\<open>ORDER BY created_at DESC LIMIT 1\<close>: the first row of a stable sort.\<close>

definition resolve_run :: "str \<Rightarrow> tree_db \<Rightarrow> run_meta option" where
  "resolve_run rid db =
     (case get_run_meta rid db of
        Some m \<Rightarrow> Some m
      | None \<Rightarrow> first_opt (sort_key (\<lambda>m. - rm_created m) (filter (\<lambda>m. rm_task m = rid) (td_meta db))))"

section \<open>Events\<close>

definition ev_text :: "jobj \<Rightarrow> str \<Rightarrow> str" where
  "ev_text e k = (case map_of e k of Some (JStr s) \<Rightarrow> s | _ \<Rightarrow> [])"

definition skipped_types :: "str list" where
  "skipped_types = [''token'', ''thinking_token'']"

definition run_rows :: "str \<Rightarrow> event_row list \<Rightarrow> event_row list" where
  "run_rows rid evs = filter (\<lambda>r. ev_run r = rid) evs"

definition next_event_seq :: "str \<Rightarrow> event_row list \<Rightarrow> int" where
  "next_event_seq rid evs = fold max (map ev_seq (run_rows rid evs)) (- 1) + 1"

text \<open>\<open>uid\<close> is the identifier drawn for an event that has none.\<close>

definition append_event ::
    "str \<Rightarrow> pyfloat \<Rightarrow> str \<Rightarrow> jobj \<Rightarrow> json list \<Rightarrow> tree_db \<Rightarrow> tree_db" where
  "append_event uid now rid event msgs db =
     (if ev_text event ''type'' \<in> set skipped_types then db
      else let eid = (if ev_text event ''event_id'' \<noteq> [] then ev_text event ''event_id'' else uid);
               parent = ev_text event ''parent_id'';
               payload = AList.update ''parent_id'' (JStr parent) (AList.update ''event_id'' (JStr eid) event)
           in db\<lparr>td_log := put_event \<lparr>ev_run = rid, ev_id = eid, ev_parent = parent,
                   ev_seq = next_event_seq rid (td_log db), ev_json = payload, ev_messages = msgs,
                   ev_created = now\<rparr> (td_log db)\<rparr>)"

definition ordered_rows :: "str \<Rightarrow> tree_db \<Rightarrow> event_row list" where
  "ordered_rows rid db = sort_key ev_seq (run_rows rid (td_log db))"

definition list_events :: "str \<Rightarrow> tree_db \<Rightarrow> jobj list" where
  "list_events rid db = map ev_json (ordered_rows rid db)"

text \<open>
  \<open>path_to_root\<close>: \<open>by_id\<close> is a dict comprehension over the events, so the last event of
  an id wins; the walk stops at an unknown, empty or repeated id.
\<close>

definition events_by_id :: "jobj list \<Rightarrow> (str, jobj) dict" where
  "events_by_id es = fold (\<lambda>e d. AList.update (ev_text e ''event_id'') e d) es []"

function walk_up :: "(str, jobj) dict \<Rightarrow> str \<Rightarrow> str set \<Rightarrow> jobj list" where
  "walk_up by_id current seen =
     (if current = [] \<or> current \<in> seen then []
      else case map_of by_id current of
             None \<Rightarrow> []
           | Some e \<Rightarrow> e # walk_up by_id (ev_text e ''parent_id'') (insert current seen))"
  by pat_completeness auto
termination
proof (relation "measure (\<lambda>(by_id, current, seen). card (fst ` set by_id - seen))", goal_cases)
  case 1
  show ?case by simp
next
  case (2 by_id current seen e)
  then have "current \<in> fst ` set by_id" by (auto dest: map_of_SomeD intro: rev_image_eqI)
  then have "fst ` set by_id - insert current seen \<subset> fst ` set by_id - seen" using 2(1) by auto
  then have "card (fst ` set by_id - insert current seen) < card (fst ` set by_id - seen)"
    by (intro psubset_card_mono) auto
  then show ?case by simp
qed

declare walk_up.simps [simp del]

definition path_to_root :: "str \<Rightarrow> str \<Rightarrow> tree_db \<Rightarrow> jobj list option" where
  "path_to_root rid eid db =
     (let by_id = events_by_id (list_events rid db)
      in if map_of by_id eid = None then None else Some (rev (walk_up by_id eid {})))"

definition messages_at :: "str \<Rightarrow> str \<Rightarrow> tree_db \<Rightarrow> json list option" where
  "messages_at rid eid db =
     (let rows = (if eid \<noteq> [] then filter (\<lambda>r. ev_id r = eid) (run_rows rid (td_log db))
                  else sort_key (\<lambda>r. - ev_seq r) (run_rows rid (td_log db)))
      in map_option ev_messages (first_opt rows))"

section \<open>Forks and branches\<close>

definition messages_for :: "str \<Rightarrow> str \<Rightarrow> tree_db \<Rightarrow> json list" where
  "messages_for rid eid db =
     (case first_opt (filter (\<lambda>r. ev_id r = eid) (run_rows rid (td_log db))) of
        None \<Rightarrow> [] | Some r \<Rightarrow> ev_messages r)"

text \<open>\<open>uid\<close> numbers the identifiers drawn for copied events without one.\<close>

definition copy_event ::
    "(nat \<Rightarrow> str) \<Rightarrow> pyfloat \<Rightarrow> str \<Rightarrow> str \<Rightarrow> nat \<times> jobj \<Rightarrow> tree_db \<Rightarrow> tree_db" where
  "copy_event uid now source new ne db = (case ne of (seq, e) \<Rightarrow>
     (let eid = (if ev_text e ''event_id'' \<noteq> [] then ev_text e ''event_id'' else uid seq)
      in db\<lparr>td_log := put_event \<lparr>ev_run = new, ev_id = eid, ev_parent = ev_text e ''parent_id'',
           ev_seq = int seq, ev_json = e, ev_messages = messages_for source eid db,
           ev_created = now\<rparr> (td_log db)\<rparr>))"

record fork_reply =
  fk_run :: str
  fk_parent :: str
  fk_root :: str
  fk_event :: str
  fk_title :: str
  fk_copied :: nat
  fk_messages :: "json list"
  fk_graph :: str

definition fork_run ::
    "(nat \<Rightarrow> str) \<Rightarrow> str \<Rightarrow> pyfloat \<Rightarrow> str \<Rightarrow> str \<Rightarrow> str \<Rightarrow> tree_db \<Rightarrow> tree_db \<times> fork_reply option" where
  "fork_run uid new now rid at_event title db =
     (case resolve_run rid db of
        None \<Rightarrow> (db, None)
      | Some meta \<Rightarrow>
          let source = rm_run meta; events = list_events source db
          in if events = [] then (db, None)
             else case (if at_event \<noteq> [] then map_option (\<lambda>p. (p, at_event)) (path_to_root source at_event db)
                        else Some (events, ev_text (last events) ''event_id'')) of
                    None \<Rightarrow> (db, None)
                  | Some (path, ev0) \<Rightarrow>
                      let db = fold (copy_event uid now source new) (enumerate 0 path) db;
                          rt = (if rm_root meta \<noteq> [] then rm_root meta else source);
                          title = (if title \<noteq> [] then title
                                   else ''fork of '' @ source @ '' at '' @ take 12 ev0);
                          db = register_run now new (rm_graph meta) (rm_session meta) [] (rm_team meta)
                                 source rt ev0 db;
                          db = db\<lparr>td_branches := put_branch \<lparr>br_id = new, br_run = new, br_root = rt,
                                 br_parent = source, br_fork_event = ev0, br_title = title,
                                 br_active = False, br_created = now\<rparr> (td_branches db)\<rparr>
                      in (db, Some \<lparr>fk_run = new, fk_parent = source, fk_root = rt, fk_event = ev0,
                            fk_title = title, fk_copied = length path,
                            fk_messages = (case messages_at source ev0 db of None \<Rightarrow> [] | Some m \<Rightarrow> m),
                            fk_graph = rm_graph meta\<rparr>))"

record branch_listing =
  bl_root :: str
  bl_branches :: "branch_row list"
  bl_active :: str

definition list_branches :: "str \<Rightarrow> tree_db \<Rightarrow> branch_listing option" where
  "list_branches rid db =
     (case resolve_run rid db of
        None \<Rightarrow> None
      | Some meta \<Rightarrow>
          let rt = (if rm_root meta \<noteq> [] then rm_root meta else rm_run meta);
              branches = sort_key br_created (filter (\<lambda>b. br_root b = rt) (td_branches db))
          in Some \<lparr>bl_root = rt, bl_branches = branches,
                   bl_active = (case List.find br_active branches of None \<Rightarrow> [] | Some b \<Rightarrow> br_id b)\<rparr>)"

definition set_active :: "str \<Rightarrow> str \<Rightarrow> branch_row list \<Rightarrow> branch_row list" where
  "set_active rt bid bs =
     map (\<lambda>b. if br_id b = bid then b\<lparr>br_active := True\<rparr> else b)
       (map (\<lambda>b. if br_root b = rt then b\<lparr>br_active := False\<rparr> else b) bs)"

definition activate_branch :: "str \<Rightarrow> str \<Rightarrow> tree_db \<Rightarrow> tree_db \<times> (str \<times> str) option" where
  "activate_branch rid bid db =
     (case list_branches rid db of
        None \<Rightarrow> (db, None)
      | Some l \<Rightarrow>
          if \<not> list_ex (\<lambda>b. br_id b = bid) (bl_branches l) then (db, None)
          else (db\<lparr>td_branches := set_active (bl_root l) bid (td_branches db)\<rparr>, Some (bl_root l, bid)))"

end
