(* ===== verification/EventTreeProps.thy ===== *)
theory EventTreeProps
  imports EventTree
begin

text \<open>
  The properties of the event tree: the log of a run, the path to an event, forks, and the
  one active branch, in every state that the operations can reach.
\<close>

section \<open>The invariant\<close>

definition row_ok :: "event_row \<Rightarrow> bool" where
  "row_ok r \<longleftrightarrow> ev_id r \<noteq> [] \<and> ev_text (ev_json r) ''event_id'' = ev_id r
     \<and> ev_text (ev_json r) ''parent_id'' = ev_parent r \<and> 0 \<le> ev_seq r"

definition log_ok :: "event_row list \<Rightarrow> bool" where
  "log_ok evs \<longleftrightarrow> (\<forall>r \<in> set evs. row_ok r) \<and>
     (\<forall>rid. distinct (map ev_id (run_rows rid evs)) \<and> sorted_wrt (<) (map ev_seq (run_rows rid evs)))"

definition tree_ok :: "tree_db \<Rightarrow> bool" where
  "tree_ok db \<longleftrightarrow> log_ok (td_log db) \<and> distinct (map br_id (td_branches db))"

lemma run_rows_put:
  "run_rows rid (put_event r evs) =
     (if ev_run r = rid then filter (\<lambda>x. ev_id x \<noteq> ev_id r) (run_rows rid evs) @ [r] else run_rows rid evs)"
proof -
  have "filter (\<lambda>x. ev_run x = rid \<and> \<not> (ev_run x = ev_run r \<and> ev_id x = ev_id r)) evs =
      (if ev_run r = rid then filter (\<lambda>x. ev_id x \<noteq> ev_id r \<and> ev_run x = rid) evs
       else filter (\<lambda>x. ev_run x = rid) evs)"
    by (auto intro!: filter_cong)
  then show ?thesis by (auto simp: run_rows_def put_event_def conj_commute)
qed

lemma ev_text_update [simp]:
  "ev_text (AList.update k (JStr v) e) j = (if j = k then v else ev_text e j)"
  by (simp add: ev_text_def)

lemma sort_key_sorted: "sorted (map f xs) \<Longrightarrow> sort_key f xs = xs"
  by (induction xs) (simp_all add: insort_is_Cons)

lemma ordered_rows_eq: "tree_ok db \<Longrightarrow> ordered_rows rid db = run_rows rid (td_log db)"
  unfolding ordered_rows_def tree_ok_def log_ok_def
  by (intro sort_key_sorted strict_sorted_imp_sorted) blast

lemma next_event_seq_above: "r \<in> set (run_rows rid evs) \<Longrightarrow> ev_seq r < next_event_seq rid evs"
  using fold_max_ge [of "-1" "map ev_seq (run_rows rid evs)"] by (force simp: next_event_seq_def)

lemma next_event_seq_nonneg: "0 \<le> next_event_seq rid evs"
  using fold_max_ge [of "-1" "map ev_seq (run_rows rid evs)"] by (simp add: next_event_seq_def)

lemma log_ok_put:
  assumes ok: "log_ok evs" "row_ok r"
    and above: "\<And>x. x \<in> set (run_rows (ev_run r) evs) \<Longrightarrow> ev_seq x < ev_seq r"
  shows "log_ok (put_event r evs)"
  unfolding log_ok_def
proof (intro conjI allI)
  show "\<forall>x \<in> set (put_event r evs). row_ok x" using ok by (auto simp: log_ok_def put_event_def)
  fix rid
  have "distinct (map ev_id (run_rows rid evs))" "sorted_wrt (<) (map ev_seq (run_rows rid evs))"
    using ok(1) by (simp_all add: log_ok_def)
  then show "distinct (map ev_id (run_rows rid (put_event r evs)))"
      "sorted_wrt (<) (map ev_seq (run_rows rid (put_event r evs)))"
    using above by (auto simp: run_rows_put sorted_wrt_append sorted_wrt_map sorted_wrt_filter distinct_map_filter)
qed

lemma tree_ok_append: "tree_ok db \<Longrightarrow> uid \<noteq> [] \<Longrightarrow> tree_ok (append_event uid now rid e msgs db)"
  by (auto simp: tree_ok_def append_event_def Let_def row_ok_def next_event_seq_above next_event_seq_nonneg
      intro!: log_ok_put)

lemma tree_ok_meta [simp]: "tree_ok (db\<lparr>td_meta := ms\<rparr>) = tree_ok db"
  by (simp add: tree_ok_def)

lemma register_fields [simp]:
  "td_log (register_run now rid g s t tm p rt fe db) = td_log db"
  "td_branches (register_run now rid g s t tm p rt fe db) = td_branches db"
  "tree_ok (register_run now rid g s t tm p rt fe db) = tree_ok db"
  by (simp_all add: register_run_def tree_ok_def)

lemma tree_ok_branch:
  assumes "tree_ok db"
  shows "tree_ok (db\<lparr>td_branches := put_branch b (td_branches db)\<rparr>)"
  using assms by (auto simp: tree_ok_def put_branch_def distinct_map_filter)

lemma tree_ok_activate: "tree_ok db \<Longrightarrow> tree_ok (fst (activate_branch rid bid db))"
proof -
  have "br_id \<circ> (\<lambda>b. if br_id b = bid then b\<lparr>br_active := True\<rparr> else b) \<circ>
      (\<lambda>b. if br_root b = rt then b\<lparr>br_active := False\<rparr> else b) = br_id" for rt
    by (rule ext) simp
  then have "map br_id (set_active rt bid bs) = map br_id bs" for rt bs
    by (simp add: set_active_def o_assoc)
  then show "tree_ok db \<Longrightarrow> tree_ok (fst (activate_branch rid bid db))"
    by (auto simp: activate_branch_def tree_ok_def split: option.splits)
qed

section \<open>Copying events\<close>

definition no_rows :: "str \<Rightarrow> tree_db \<Rightarrow> bool" where
  "no_rows rid db \<longleftrightarrow> run_rows rid (td_log db) = []"

definition copied_row :: "pyfloat \<Rightarrow> str \<Rightarrow> str \<Rightarrow> tree_db \<Rightarrow> nat \<times> jobj \<Rightarrow> event_row" where
  "copied_row now source new db ne = (case ne of (seq, e) \<Rightarrow>
     \<lparr>ev_run = new, ev_id = ev_text e ''event_id'', ev_parent = ev_text e ''parent_id'',
      ev_seq = int seq, ev_json = e, ev_messages = messages_for source (ev_text e ''event_id'') db,
      ev_created = now\<rparr>)"

lemma copy_events:
  assumes "new \<noteq> source" "distinct (map (\<lambda>e. ev_text e ''event_id'') es)"
    "\<And>e. e \<in> set es \<Longrightarrow> ev_text e ''event_id'' \<noteq> []"
    "\<And>e. e \<in> set es \<Longrightarrow> ev_text e ''event_id'' \<notin> ev_id ` set (run_rows new (td_log db))"
  shows "td_log (fold (copy_event uid now source new) (enumerate k es) db) =
      td_log db @ map (copied_row now source new db) (enumerate k es)
    \<and> td_branches (fold (copy_event uid now source new) (enumerate k es) db) = td_branches db
    \<and> td_meta (fold (copy_event uid now source new) (enumerate k es) db) = td_meta db"
  using assms
proof (induction es arbitrary: k db)
  case Nil
  then show ?case by simp
next
  case (Cons e es)
  let ?db = "copy_event uid now source new (k, e) db"
  have ne: "ev_text e ''event_id'' \<noteq> []" using Cons.prems(3) by simp
  have fresh: "\<not> (ev_run x = new \<and> ev_id x = ev_text e ''event_id'')" if "x \<in> set (td_log db)" for x
    using Cons.prems(4) [of e] that by (auto simp: run_rows_def image_iff)
  then have put: "put_event r (td_log db) = td_log db @ [r]"
    if "ev_run r = new" "ev_id r = ev_text e ''event_id''" for r
    using that by (auto simp: put_event_def filter_id_conv)
  have db: "?db = db\<lparr>td_log := td_log db @ [copied_row now source new db (k, e)]\<rparr>"
    using ne put by (simp add: copy_event_def copied_row_def Let_def)
  have msgs: "messages_for source i ?db = messages_for source i db" for i
    using Cons.prems(1) unfolding db by (simp add: messages_for_def run_rows_def copied_row_def)
  have row: "copied_row now source new ?db = copied_row now source new db"
    by (rule ext) (simp add: copied_row_def msgs split: prod.split)
  have "td_log (fold (copy_event uid now source new) (enumerate (Suc k) es) ?db) =
      td_log ?db @ map (copied_row now source new ?db) (enumerate (Suc k) es)
    \<and> td_branches (fold (copy_event uid now source new) (enumerate (Suc k) es) ?db) = td_branches ?db
    \<and> td_meta (fold (copy_event uid now source new) (enumerate (Suc k) es) ?db) = td_meta ?db"
    using Cons.prems unfolding db
    by (intro Cons.IH) (auto simp: run_rows_def copied_row_def image_iff)
  then show ?case by (simp add: row) (simp add: db)
qed

section \<open>The walk to the root\<close>

definition ids :: "jobj list \<Rightarrow> str list" where
  "ids es = map (\<lambda>e. ev_text e ''event_id'') es"

text \<open>A dictionary that files every event under its own id.\<close>

definition filed :: "(str, jobj) dict \<Rightarrow> bool" where
  "filed d \<longleftrightarrow> (\<forall>i e. map_of d i = Some e \<longrightarrow> ev_text e ''event_id'' = i)"

lemma by_id_fold:
  "map_of (fold (\<lambda>e d. AList.update (ev_text e ''event_id'') e d) es d) i =
    (let es' = filter (\<lambda>e. ev_text e ''event_id'' = i) es in if es' = [] then map_of d i else Some (last es'))"
  by (induction es arbitrary: d) (auto simp: Let_def)

lemma by_id_eq:
  "map_of (events_by_id es) i =
    (let es' = filter (\<lambda>e. ev_text e ''event_id'' = i) es in if es' = [] then None else Some (last es'))"
  unfolding events_by_id_def by_id_fold by (simp add: Let_def)

lemma by_id_some: "map_of (events_by_id es) i = Some e \<Longrightarrow> e \<in> set es \<and> ev_text e ''event_id'' = i"
  using last_in_set [of "filter (\<lambda>e. ev_text e ''event_id'' = i) es"]
  by (auto simp: by_id_eq Let_def split: if_splits)

lemma by_id_none: "map_of (events_by_id es) i = None \<longleftrightarrow> (\<forall>e \<in> set es. ev_text e ''event_id'' \<noteq> i)"
  by (auto simp: by_id_eq Let_def filter_empty_conv)

lemma filed_by_id: "filed (events_by_id es)"
  using by_id_some by (auto simp: filed_def)

lemma walk_up_facts:
  assumes "filed d"
  shows "distinct (ids (walk_up d cur seen)) \<and> set (ids (walk_up d cur seen)) \<inter> seen = {}
    \<and> (\<forall>e \<in> set (walk_up d cur seen). map_of d (ev_text e ''event_id'') = Some e)
    \<and> (walk_up d cur seen \<noteq> [] \<longrightarrow> ev_text (hd (walk_up d cur seen)) ''event_id'' = cur)
    \<and> (\<forall>i. Suc i < length (walk_up d cur seen) \<longrightarrow>
         ev_text (walk_up d cur seen ! Suc i) ''event_id'' = ev_text (walk_up d cur seen ! i) ''parent_id'')
    \<and> (walk_up d cur seen \<noteq> [] \<longrightarrow>
         (let p = ev_text (last (walk_up d cur seen)) ''parent_id''
          in p = [] \<or> map_of d p = None \<or> p \<in> seen \<union> set (ids (walk_up d cur seen))))"
  using assms
proof (induction d cur seen rule: walk_up.induct)
  case (1 d cur seen)
  show ?case
  proof (cases "cur = [] \<or> cur \<in> seen \<or> map_of d cur = None")
    case True
    then have "walk_up d cur seen = []" by (auto simp: walk_up.simps [of d cur])
    then show ?thesis by (simp add: ids_def)
  next
    case False
    then obtain e where e: "map_of d cur = Some e" by auto
    then have id: "ev_text e ''event_id'' = cur" using 1(2) by (simp add: filed_def)
    let ?w = "walk_up d (ev_text e ''parent_id'') (insert cur seen)"
    have w: "walk_up d cur seen = e # ?w" using False e by (simp add: walk_up.simps [of d cur])
    have c: "\<not> (cur = [] \<or> cur \<in> seen)" using False by blast
    note ih = "1.IH" [OF c e "1.prems"]
    have chain: "ev_text ((e # ?w) ! Suc i) ''event_id'' = ev_text ((e # ?w) ! i) ''parent_id''"
      if "Suc i < length (e # ?w)" for i
    proof (cases i)
      case 0
      then have "?w \<noteq> []" using that by auto
      then show ?thesis using ih 0 by (simp add: hd_conv_nth)
    next
      case (Suc j)
      then show ?thesis using ih that by simp
    qed
    have last: "let p = ev_text (last (e # ?w)) ''parent_id''
        in p = [] \<or> map_of d p = None \<or> p \<in> seen \<union> set (ids (e # ?w))"
    proof (cases "?w = []")
      case True
      let ?p = "ev_text e ''parent_id''"
      have "?p = [] \<or> ?p \<in> insert cur seen \<or> map_of d ?p = None"
        using True by (auto simp: walk_up.simps [of d ?p] split: option.splits if_splits)
      then show ?thesis using True id by (auto simp: ids_def Let_def)
    next
      case False
      then show ?thesis using ih id by (auto simp: ids_def Let_def)
    qed
    show ?thesis unfolding w using ih id e c chain last by (auto simp: ids_def)
  qed
qed

text \<open>The walk only depends on the entries it visits, as long as no other id becomes known.\<close>

lemma walk_up_sub:
  assumes "\<And>e. e \<in> set (walk_up d cur seen) \<Longrightarrow> map_of d' (ev_text e ''event_id'') = map_of d (ev_text e ''event_id'')"
    "\<And>i. map_of d i = None \<Longrightarrow> map_of d' i = None" "filed d"
  shows "walk_up d' cur seen = walk_up d cur seen"
  using assms
proof (induction d cur seen rule: walk_up.induct)
  case (1 d cur seen)
  show ?case
  proof (cases "cur = [] \<or> cur \<in> seen \<or> map_of d cur = None")
    case True
    then show ?thesis using 1(3) by (auto simp: walk_up.simps [of _ cur])
  next
    case False
    then obtain e where e: "map_of d cur = Some e" by auto
    then have id: "ev_text e ''event_id'' = cur" using 1(4) by (simp add: filed_def)
    have w: "walk_up d cur seen = e # walk_up d (ev_text e ''parent_id'') (insert cur seen)"
      using False e by (simp add: walk_up.simps [of d cur])
    have "map_of d' cur = Some e" using 1(2) [of e] w e id by simp
    moreover have "walk_up d' (ev_text e ''parent_id'') (insert cur seen) = walk_up d (ev_text e ''parent_id'') (insert cur seen)"
      using False e 1(2,3,4) w by (intro "1.IH") auto
    ultimately show ?thesis using w False by (simp add: walk_up.simps [of d' cur])
  qed
qed

lemma list_events_ids:
  assumes "tree_ok db"
  shows "ids (list_events rid db) = map ev_id (run_rows rid (td_log db))"
    "\<And>e. e \<in> set (list_events rid db) \<Longrightarrow> ev_text e ''event_id'' \<noteq> []"
proof -
  have "ev_text (ev_json r) ''event_id'' = ev_id r \<and> ev_id r \<noteq> []" if "r \<in> set (run_rows rid (td_log db))" for r
    using assms that by (auto simp: tree_ok_def log_ok_def row_ok_def run_rows_def)
  then show "ids (list_events rid db) = map ev_id (run_rows rid (td_log db))"
    "\<And>e. e \<in> set (list_events rid db) \<Longrightarrow> ev_text e ''event_id'' \<noteq> []"
    by (auto simp: list_events_def ids_def ordered_rows_eq [OF assms])
qed

lemma distinct_list_events:
  "tree_ok db \<Longrightarrow> distinct (ids (list_events rid db))"
  using list_events_ids(1) [of db rid] by (simp add: tree_ok_def log_ok_def)

section \<open>Forks\<close>

definition fresh_run :: "str \<Rightarrow> tree_db \<Rightarrow> bool" where
  "fresh_run new db \<longleftrightarrow> new \<noteq> [] \<and> no_rows new db
     \<and> (\<forall>m \<in> set (td_meta db). rm_run m \<noteq> new \<and> rm_root m \<noteq> new)
     \<and> (\<forall>b \<in> set (td_branches db). br_id b \<noteq> new \<and> br_root b \<noteq> new)"

lemma first_opt_mem: "first_opt xs = Some x \<Longrightarrow> x \<in> set xs"
  by (rule first_opt_in)

lemma resolve_run_mem: "resolve_run rid db = Some m \<Longrightarrow> m \<in> set (td_meta db)"
  using first_opt_mem [of _ m] by (fastforce simp: resolve_run_def get_run_meta_def split: option.splits)

lemma path_to_root_sub:
  assumes "path_to_root rid eid db = Some p"
  shows "set p \<subseteq> set (list_events rid db)" "distinct (ids p)"
proof -
  let ?d = "events_by_id (list_events rid db)"
  have p: "p = rev (walk_up ?d eid {})" "map_of ?d eid \<noteq> None"
    using assms by (auto simp: path_to_root_def Let_def split: if_splits)
  note w = walk_up_facts [OF filed_by_id, of "list_events rid db" eid "{}"]
  show "set p \<subseteq> set (list_events rid db)" using w by_id_some unfolding p(1) by fastforce
  show "distinct (ids p)" using w unfolding p(1) by (simp add: ids_def rev_map [symmetric])
qed

text \<open>What a successful fork does to the tables.\<close>

lemma fork_tables:
  assumes ok: "tree_ok db" and new: "no_rows new db"
    and fork: "fork_run uid new now rid at_event title db = (db', Some r)"
  obtains meta path where "resolve_run rid db = Some meta" "fk_run r = new" "fk_parent r = rm_run meta"
    "path = (if at_event = [] then list_events (rm_run meta) db else the (path_to_root (rm_run meta) at_event db))"
    "at_event \<noteq> [] \<Longrightarrow> path_to_root (rm_run meta) at_event db = Some path"
    "set path \<subseteq> set (list_events (rm_run meta) db)" "distinct (ids path)" "new \<noteq> rm_run meta"
    "td_log db' = td_log db @ map (copied_row now (rm_run meta) new db) (enumerate 0 path)"
    "\<exists>t e. td_branches db' = put_branch \<lparr>br_id = new, br_run = new,
        br_root = (if rm_root meta \<noteq> [] then rm_root meta else rm_run meta), br_parent = rm_run meta,
        br_fork_event = e, br_title = t, br_active = False, br_created = now\<rparr> (td_branches db)"
proof -
  obtain meta where m: "resolve_run rid db = Some meta"
    using fork by (auto simp: fork_run_def split: option.splits)
  let ?src = "rm_run meta" and ?es = "list_events (rm_run meta) db"
  have es: "?es \<noteq> []" using fork m by (auto simp: fork_run_def Let_def split: if_splits)
  obtain path ev0 where p: "(if at_event \<noteq> [] then map_option (\<lambda>p. (p, at_event)) (path_to_root ?src at_event db)
      else Some (?es, ev_text (last ?es) ''event_id'')) = Some (path, ev0)"
    using fork m es by (auto simp: fork_run_def Let_def split: option.splits prod.splits)
  have path: "path = (if at_event = [] then ?es else the (path_to_root ?src at_event db))"
      "at_event \<noteq> [] \<Longrightarrow> path_to_root ?src at_event db = Some path"
    using p by (auto split: if_splits)
  have sub: "set path \<subseteq> set ?es" "distinct (ids path)"
  proof -
    have "set path \<subseteq> set ?es \<and> distinct (ids path)"
    proof (cases "at_event = []")
      case True
      then have "path = ?es" using path(1) by simp
      then show ?thesis using distinct_list_events [OF ok] by simp
    next
      case False
      then show ?thesis using path_to_root_sub [OF path(2)] by blast
    qed
    then show "set path \<subseteq> set ?es" "distinct (ids path)" by blast+
  qed
  have ne: "new \<noteq> ?src"
    using new es by (auto simp: no_rows_def list_events_def ordered_rows_def)
  let ?db1 = "fold (copy_event uid now ?src new) (enumerate 0 path) db"
  have c: "td_log ?db1 = td_log db @ map (copied_row now ?src new db) (enumerate 0 path)
      \<and> td_branches ?db1 = td_branches db \<and> td_meta ?db1 = td_meta db"
    using ne sub list_events_ids(2) [OF ok] new
    by (intro copy_events) (auto simp: ids_def no_rows_def)
  define rt where "rt = (if rm_root meta \<noteq> [] then rm_root meta else ?src)"
  define ttl where "ttl = (if title \<noteq> [] then title else ''fork of '' @ ?src @ '' at '' @ take 12 ev0)"
  define db2 where "db2 = register_run now new (rm_graph meta) (rm_session meta) [] (rm_team meta) ?src rt ev0 ?db1"
  define b where "b = \<lparr>br_id = new, br_run = new, br_root = rt, br_parent = ?src, br_fork_event = ev0,
      br_title = ttl, br_active = False, br_created = now\<rparr>"
  have "\<exists>ms k. fork_run uid new now rid at_event title db =
      (db2\<lparr>td_branches := put_branch b (td_branches db2)\<rparr>, Some \<lparr>fk_run = new, fk_parent = ?src, fk_root = rt,
        fk_event = ev0, fk_title = ttl, fk_copied = k, fk_messages = ms, fk_graph = rm_graph meta\<rparr>)"
    unfolding fork_run_def Let_def m option.simps if_not_P [OF es] p prod.case
    by (simp only: rt_def [symmetric] ttl_def [symmetric] db2_def [symmetric] b_def [symmetric]) blast
  then have res: "db' = db2\<lparr>td_branches := put_branch b (td_branches db2)\<rparr>" "fk_run r = new" "fk_parent r = ?src"
    using fork by auto
  show thesis
  proof (rule that [OF m res(2,3) path sub ne])
    show "td_log db' = td_log db @ map (copied_row now ?src new db) (enumerate 0 path)"
      using c by (simp add: res(1) db2_def)
    have "td_branches db' = put_branch b (td_branches db)" using c by (simp add: res(1) db2_def)
    then show "\<exists>t e. td_branches db' = put_branch \<lparr>br_id = new, br_run = new,
        br_root = (if rm_root meta \<noteq> [] then rm_root meta else ?src), br_parent = ?src,
        br_fork_event = e, br_title = t, br_active = False, br_created = now\<rparr> (td_branches db)"
      unfolding b_def rt_def by blast
  qed
qed


section \<open>Reachable states\<close>

inductive tree_step :: "tree_db \<Rightarrow> tree_db \<Rightarrow> bool" where
  step_register: "tree_step db (register_run now rid g s t tm p rt fe db)"
| step_append: "uid \<noteq> [] \<Longrightarrow> tree_step db (append_event uid now rid e msgs db)"
| step_fork: "fresh_run new db \<Longrightarrow> tree_step db (fst (fork_run uid new now rid ev0 title db))"
| step_activate: "tree_step db (fst (activate_branch rid bid db))"

inductive_cases tree_stepE: "tree_step db db'"

abbreviation tree_steps :: "tree_db \<Rightarrow> tree_db \<Rightarrow> bool" where
  "tree_steps \<equiv> tree_step\<^sup>*\<^sup>*"

lemma run_rows_fork:
  assumes "td_log db' = td_log db @ map (copied_row now src new db) (enumerate 0 path)"
  shows "run_rows rid (td_log db') = run_rows rid (td_log db) @
    (if rid = new then map (copied_row now src new db) (enumerate 0 path) else [])"
  unfolding assms by (auto simp: run_rows_def copied_row_def filter_map o_def filter_empty_conv split: prod.splits)

lemma copied_ids: "map ev_id (map (copied_row now src new db) (enumerate k path)) = ids path"
  by (induction path arbitrary: k) (simp_all add: copied_row_def ids_def)

lemma copied_seqs: "map ev_seq (map (copied_row now src new db) (enumerate k path)) = map int [k..<k + length path]"
  by (induction path arbitrary: k) (simp_all add: copied_row_def upt_conv_Cons del: upt.simps upt_Suc)

lemma copied_json: "map ev_json (map (copied_row now src new db) (enumerate k path)) = path"
  by (induction path arbitrary: k) (simp_all add: copied_row_def)

lemma sorted_int_upt: "sorted_wrt (<) (map int [i..<j])"
  by (simp add: sorted_wrt_map)

lemma tree_ok_fork:
  assumes ok: "tree_ok db" and new: "no_rows new db"
    and fork: "fork_run uid new now rid at_event title db = (db', Some r)"
  shows "tree_ok db'"
proof (rule fork_tables [OF assms])
  fix meta path
  assume f: "set path \<subseteq> set (list_events (rm_run meta) db)" "distinct (ids path)"
      "td_log db' = td_log db @ map (copied_row now (rm_run meta) new db) (enumerate 0 path)"
    and br: "\<exists>t e. td_branches db' = put_branch \<lparr>br_id = new, br_run = new,
        br_root = (if rm_root meta \<noteq> [] then rm_root meta else rm_run meta), br_parent = rm_run meta,
        br_fork_event = e, br_title = t, br_active = False, br_created = now\<rparr> (td_branches db)"
  have "row_ok x" if "x \<in> set (td_log db')" for x
  proof -
    have "row_ok x" if c: "x \<in> copied_row now (rm_run meta) new db ` set (enumerate 0 path)"
    proof -
      obtain k e where "x = copied_row now (rm_run meta) new db (k, e)" "e \<in> set path"
        using c by (auto simp: in_set_enumerate_eq)
      then show ?thesis using list_events_ids(2) [OF ok] f(1) by (auto simp: copied_row_def row_ok_def)
    qed
    then show ?thesis using \<open>x \<in> set (td_log db')\<close> f(3) ok by (auto simp: tree_ok_def log_ok_def)
  qed
  moreover have "distinct (map ev_id (run_rows rid (td_log db'))) \<and> sorted_wrt (<) (map ev_seq (run_rows rid (td_log db')))" for rid
  proof (cases "rid = new")
    case True
    then show ?thesis using new f(2) unfolding run_rows_fork [OF f(3)] no_rows_def
      by (simp add: copied_ids copied_seqs sorted_int_upt del: map_map)
  next
    case False
    then show ?thesis using ok unfolding run_rows_fork [OF f(3)] by (simp add: tree_ok_def log_ok_def)
  qed
  moreover have "distinct (map br_id (td_branches db'))"
    using br ok by (auto simp: tree_ok_def put_branch_def distinct_map_filter)
  ultimately show "tree_ok db'" by (simp add: tree_ok_def log_ok_def)
qed

lemma fork_none: "snd (fork_run uid new now rid ev0 title db) = None \<Longrightarrow> fst (fork_run uid new now rid ev0 title db) = db"
  by (auto simp: fork_run_def Let_def split: option.splits prod.splits if_splits)

lemma tree_step_ok: "tree_step db db' \<Longrightarrow> tree_ok db \<Longrightarrow> tree_ok db'"
proof (induction rule: tree_step.induct)
  case (step_fork new db uid now rid ev0 title)
  obtain db' r where f: "fork_run uid new now rid ev0 title db = (db', r)" by (cases "fork_run uid new now rid ev0 title db")
  show ?case
  proof (cases r)
    case None
    then show ?thesis using fork_none [of uid new now rid ev0 title db] f step_fork by simp
  next
    case (Some a)
    then show ?thesis using tree_ok_fork [of db new uid now rid ev0 title db' a] f step_fork
      by (simp add: fresh_run_def)
  qed
qed (auto simp: tree_ok_append tree_ok_activate)

lemma tree_ok_init: "tree_ok tree_init"
  by (simp add: tree_ok_def log_ok_def tree_init_def run_rows_def)

lemma tree_steps_ok: "tree_steps db db' \<Longrightarrow> tree_ok db \<Longrightarrow> tree_ok db'"
  by (induction rule: rtranclp_induct) (auto dest: tree_step_ok)

lemma reach_ok: "tree_steps tree_init db \<Longrightarrow> tree_ok db"
  by (rule tree_steps_ok [OF _ tree_ok_init])

text \<open>No branch is the original run of its family, and a family with an active branch keeps one.\<close>

definition branches_ok :: "tree_db \<Rightarrow> bool" where
  "branches_ok db \<longleftrightarrow> (\<forall>b \<in> set (td_branches db). br_id b \<noteq> br_root b \<and> br_id b \<noteq> [])"

definition family_active :: "str \<Rightarrow> tree_db \<Rightarrow> bool" where
  "family_active rt db \<longleftrightarrow> (\<exists>b \<in> set (td_branches db). br_root b = rt \<and> br_active b)"

lemma set_active_eq:
  "set_active rt bid bs = map (\<lambda>a. a\<lparr>br_active := (br_id a = bid \<or> br_root a \<noteq> rt \<and> br_active a)\<rparr>) bs"
proof -
  have "(if br_id c = bid then c\<lparr>br_active := True\<rparr> else c) =
      a\<lparr>br_active := (br_id a = bid \<or> br_root a \<noteq> rt \<and> br_active a)\<rparr>"
    if "c = (if br_root a = rt then a\<lparr>br_active := False\<rparr> else a)" for a c
    using that by (cases a) auto
  then show ?thesis by (simp add: set_active_def)
qed

lemma branches_ok_step: "tree_step db db' \<Longrightarrow> tree_ok db \<Longrightarrow> branches_ok db \<Longrightarrow> branches_ok db'"
proof (induction rule: tree_step.induct)
  case (step_register db now rid g s t tm p rt fe)
  then show ?case by (simp add: branches_ok_def)
next
  case (step_append uid db now rid e msgs)
  then show ?case by (simp add: branches_ok_def append_event_def Let_def)
next
  case (step_fork new db uid now rid ev0 title)
  obtain db' r where f: "fork_run uid new now rid ev0 title db = (db', r)" by (cases "fork_run uid new now rid ev0 title db")
  show ?case
  proof (cases r)
    case None
    then show ?thesis using fork_none [of uid new now rid ev0 title db] f step_fork by simp
  next
    case (Some a)
    have new: "no_rows new db" using step_fork(1) by (simp add: fresh_run_def)
    show ?thesis
    proof (rule fork_tables [OF step_fork(2) new f [unfolded Some]])
      fix meta
      assume m: "resolve_run rid db = Some meta" and ne: "new \<noteq> rm_run meta"
        and br: "\<exists>t e. td_branches db' = put_branch \<lparr>br_id = new, br_run = new,
          br_root = (if rm_root meta \<noteq> [] then rm_root meta else rm_run meta), br_parent = rm_run meta,
          br_fork_event = e, br_title = t, br_active = False, br_created = now\<rparr> (td_branches db)"
      have "rm_root meta \<noteq> new" using step_fork(1) resolve_run_mem [OF m] by (simp add: fresh_run_def)
      then show "branches_ok (fst (fork_run uid new now rid ev0 title db))"
        using br step_fork(1,3) ne f by (auto simp: branches_ok_def put_branch_def fresh_run_def split: if_splits)
    qed
  qed
next
  case (step_activate db rid bid)
  then show ?case
    by (auto simp: branches_ok_def activate_branch_def set_active_eq split: option.splits)
qed

lemma reach_branches_ok: "tree_steps tree_init db \<Longrightarrow> branches_ok db"
proof (induction rule: rtranclp_induct)
  case base
  show ?case by (simp add: branches_ok_def tree_init_def)
next
  case (step db db')
  then show ?case using branches_ok_step reach_ok by blast
qed

lemma activate_fields:
  assumes "activate_branch rid bid db = (db', Some (rt, b))"
  shows "b = bid" "db' = db\<lparr>td_branches := set_active rt bid (td_branches db)\<rparr>"
    "\<exists>x \<in> set (td_branches db). br_id x = bid \<and> br_root x = rt"
    "\<exists>l. list_branches rid db = Some l \<and> bl_root l = rt"
  using assms by (auto simp: activate_branch_def list_branches_def list_ex_iff Let_def split: option.splits if_splits)

lemma family_active_step:
  "tree_step db db' \<Longrightarrow> tree_ok db \<Longrightarrow> family_active rt db \<Longrightarrow> family_active rt db'"
proof (induction rule: tree_step.induct)
  case (step_register db now rid g s t tm p rt fe)
  then show ?case by (simp add: family_active_def)
next
  case (step_append uid db now rid e msgs)
  then show ?case by (simp add: family_active_def append_event_def Let_def)
next
  case (step_fork new db uid now rid ev0 title)
  obtain db' r where f: "fork_run uid new now rid ev0 title db = (db', r)" by (cases "fork_run uid new now rid ev0 title db")
  show ?case
  proof (cases r)
    case None
    then show ?thesis using fork_none [of uid new now rid ev0 title db] f step_fork by simp
  next
    case (Some a)
    have new: "no_rows new db" using step_fork(1) by (simp add: fresh_run_def)
    show ?thesis
    proof (rule fork_tables [OF step_fork(2) new f [unfolded Some]])
      fix meta
      assume br: "\<exists>t e. td_branches db' = put_branch \<lparr>br_id = new, br_run = new,
          br_root = (if rm_root meta \<noteq> [] then rm_root meta else rm_run meta), br_parent = rm_run meta,
          br_fork_event = e, br_title = t, br_active = False, br_created = now\<rparr> (td_branches db)"
      then show "family_active rt (fst (fork_run uid new now rid ev0 title db))"
        using step_fork(1,3) f by (auto simp: family_active_def put_branch_def fresh_run_def)
    qed
  qed
next
  case (step_activate db rid bid)
  obtain db' r where a: "activate_branch rid bid db = (db', r)" by (cases "activate_branch rid bid db")
  show ?case
  proof (cases r)
    case None
    then have "db' = db" using a by (auto simp: activate_branch_def split: option.splits if_splits)
    then show ?thesis using step_activate(2) a by simp
  next
    case (Some p)
    obtain rt' b where p: "p = (rt', b)" by (cases p)
    note f = activate_fields [OF a [unfolded Some p]]
    show ?thesis
    proof (cases "rt' = rt")
      case True
      then show ?thesis using f(2,3) a by (auto simp: family_active_def set_active_eq)
    next
      case False
      then show ?thesis using f(2) a step_activate(2) by (fastforce simp: family_active_def set_active_eq)
    qed
  qed
qed

lemma family_active_steps:
  "tree_steps db db' \<Longrightarrow> tree_ok db \<Longrightarrow> family_active rt db \<Longrightarrow> family_active rt db'"
proof (induction rule: rtranclp_induct)
  case (step y z)
  then show ?case using family_active_step tree_steps_ok by blast
qed simp

lemma find_id:
  assumes "\<forall>b \<in> set bs. br_id b \<noteq> []"
  shows "(case List.find br_active bs of None \<Rightarrow> [] | Some b \<Rightarrow> br_id b) \<noteq> [] \<longleftrightarrow> (\<exists>b \<in> set bs. br_active b)"
    "List.find br_active bs = Some b \<Longrightarrow> b \<in> set bs \<and> br_active b"
  using assms by (induction bs) (auto split: if_splits)

lemma list_branches_fields:
  assumes "list_branches rid db = Some l"
  shows "bl_branches l = sort_key br_created (filter (\<lambda>b. br_root b = bl_root l) (td_branches db))"
    "bl_active l = (case List.find br_active (bl_branches l) of None \<Rightarrow> [] | Some b \<Rightarrow> br_id b)"
  using assms by (auto simp: list_branches_def Let_def split: option.splits)

lemma listing_active:
  assumes "list_branches rid db = Some l" "branches_ok db"
  shows "bl_active l \<noteq> [] \<longleftrightarrow> family_active (bl_root l) db"
    "bl_active l \<noteq> [] \<Longrightarrow> bl_active l \<noteq> bl_root l"
proof -
  have mem: "b \<in> set (bl_branches l) \<longleftrightarrow> b \<in> set (td_branches db) \<and> br_root b = bl_root l" for b
    unfolding list_branches_fields(1) [OF assms(1)] by auto
  then have ids: "\<forall>b \<in> set (bl_branches l). br_id b \<noteq> []" using assms(2) by (simp add: branches_ok_def)
  show "bl_active l \<noteq> [] \<longleftrightarrow> family_active (bl_root l) db"
    unfolding list_branches_fields(2) [OF assms(1)] find_id(1) [OF ids] family_active_def using mem by blast
  show "bl_active l \<noteq> bl_root l" if ne: "bl_active l \<noteq> []"
  proof -
    obtain b where b: "List.find br_active (bl_branches l) = Some b" "bl_active l = br_id b"
      using ne list_branches_fields(2) [OF assms(1)] by (auto split: option.splits)
    then have "b \<in> set (td_branches db)" "br_root b = bl_root l"
      using find_id(2) [OF ids b(1)] mem by auto
    then show ?thesis using b(2) assms(2) by (auto simp: branches_ok_def)
  qed
qed

section \<open>Properties\<close>

text \<open>
  The log of a run is a list of events with distinct ids: appending an event moves it to
  the end, under its id or a fresh one, and leaves the other runs alone; token frames are
  not recorded.
\<close>

theorem append_event_exact:
  assumes "tree_steps tree_init db" "uid \<noteq> []"
    and db': "db' = append_event uid now rid e msgs db"
    and eid: "eid = (if ev_text e ''event_id'' \<noteq> [] then ev_text e ''event_id'' else uid)"
  shows "distinct (ids (list_events rid db'))
    \<and> (r \<noteq> rid \<longrightarrow> list_events r db' = list_events r db)
    \<and> list_events rid db' =
        (if ev_text e ''type'' \<in> {''token'', ''thinking_token''} then list_events rid db
         else filter (\<lambda>x. ev_text x ''event_id'' \<noteq> eid) (list_events rid db) @
           [AList.update ''parent_id'' (JStr (ev_text e ''parent_id'')) (AList.update ''event_id'' (JStr eid) e)])"
proof -
  have ok: "tree_ok db" "tree_ok db'"
    using reach_ok [OF assms(1)] assms(2) by (simp_all add: db' tree_ok_append)
  have le: "list_events r db = map ev_json (run_rows r (td_log db))" "list_events r db' = map ev_json (run_rows r (td_log db'))" for r
    by (simp_all add: list_events_def ordered_rows_eq ok)
  show ?thesis
  proof (cases "ev_text e ''type'' \<in> {''token'', ''thinking_token''}")
    case True
    then have "db' = db" by (auto simp: db' append_event_def skipped_types_def)
    then show ?thesis using True distinct_list_events [OF ok(2)] by simp
  next
    case False
    let ?r = "\<lparr>ev_run = rid, ev_id = eid, ev_parent = ev_text e ''parent_id'',
        ev_seq = next_event_seq rid (td_log db),
        ev_json = AList.update ''parent_id'' (JStr (ev_text e ''parent_id'')) (AList.update ''event_id'' (JStr eid) e),
        ev_messages = msgs, ev_created = now\<rparr>"
    have lg: "td_log db' = put_event ?r (td_log db)"
      using False by (simp add: db' append_event_def skipped_types_def Let_def eid)
    have "map ev_json (filter (\<lambda>x. ev_id x \<noteq> eid) rows) = filter (\<lambda>x. ev_text x ''event_id'' \<noteq> eid) (map ev_json rows)"
      if "\<forall>x \<in> set rows. row_ok x" for rows
      using that by (induction rows) (auto simp: row_ok_def)
    moreover have "\<forall>x \<in> set (run_rows rid (td_log db)). row_ok x"
      using ok(1) by (auto simp: tree_ok_def log_ok_def run_rows_def)
    ultimately have "list_events rid db' = filter (\<lambda>x. ev_text x ''event_id'' \<noteq> eid) (list_events rid db) @ [ev_json ?r]"
      by (simp add: le lg run_rows_put)
    moreover have "r \<noteq> rid \<longrightarrow> list_events r db' = list_events r db" by (simp add: le lg run_rows_put)
    ultimately show ?thesis
      using False distinct_list_events [OF ok(2), of rid] by simp
  qed
qed

text \<open>
  The path to an event exists exactly for the events of the run; it ends with the event,
  has no event twice, each event follows its parent, and its first event has no parent in
  the run, unless the parent links form a cycle, where the path stops.
\<close>

theorem path_to_root_chain:
  "(path_to_root rid eid db = None \<longleftrightarrow> eid \<notin> set (ids (list_events rid db)))
   \<and> (path_to_root rid eid db = Some p \<and> eid \<noteq> [] \<longrightarrow>
      p \<noteq> [] \<and> ev_text (last p) ''event_id'' = eid \<and> set p \<subseteq> set (list_events rid db) \<and> distinct (ids p)
      \<and> (\<forall>i. Suc i < length p \<longrightarrow> ev_text (p ! i) ''event_id'' = ev_text (p ! Suc i) ''parent_id'')
      \<and> (let par = ev_text (hd p) ''parent_id'' in par = [] \<or> par \<notin> set (ids (list_events rid db)) \<or> par \<in> set (ids p)))"
proof -
  let ?d = "events_by_id (list_events rid db)"
  let ?w = "walk_up ?d eid {}"
  have none: "map_of ?d i = None \<longleftrightarrow> i \<notin> set (ids (list_events rid db))" for i
    by (auto simp: by_id_none ids_def)
  note w = walk_up_facts [OF filed_by_id, of "list_events rid db" eid "{}"]
  have chain: "ev_text (p ! i) ''event_id'' = ev_text (p ! Suc i) ''parent_id''"
    if p: "p = rev ?w" and i: "Suc i < length p" for i
  proof -
    have "Suc (length ?w - Suc (Suc i)) = length ?w - Suc i" using p i by simp
    then show ?thesis using w p i by (auto simp: rev_nth) (metis diff_less length_greater_0_conv list.size(3) not_less0 zero_less_Suc)
  qed
  have ne: "?w \<noteq> []" if "map_of ?d eid \<noteq> None" "eid \<noteq> []"
    using that by (auto simp: walk_up.simps [of ?d eid])
  show ?thesis
  proof (intro conjI impI)
    show "(path_to_root rid eid db = None) = (eid \<notin> set (ids (list_events rid db)))"
      using none by (simp add: path_to_root_def Let_def)
    assume "path_to_root rid eid db = Some p \<and> eid \<noteq> []"
    then have p: "path_to_root rid eid db = Some p" "p = rev ?w" and w0: "?w \<noteq> []"
      using ne by (auto simp: path_to_root_def Let_def split: if_splits)
    show "p \<noteq> []" "ev_text (last p) ''event_id'' = eid" using w w0 by (simp_all add: p(2) last_rev)
    show "set p \<subseteq> set (list_events rid db)" "distinct (ids p)" by (rule path_to_root_sub [OF p(1)])+
    show "\<forall>i. Suc i < length p \<longrightarrow> ev_text (p ! i) ''event_id'' = ev_text (p ! Suc i) ''parent_id''"
      using chain [OF p(2)] by blast
    have "let par = ev_text (last ?w) ''parent_id'' in par = [] \<or> map_of ?d par = None \<or> par \<in> {} \<union> set (map (\<lambda>e. ev_text e ''event_id'') ?w)"
      using w w0 by (simp add: ids_def)
    then show "let par = ev_text (hd p) ''parent_id'' in par = [] \<or> par \<notin> set (ids (list_events rid db)) \<or> par \<in> set (ids p)"
      using w0 none by (simp add: p(2) hd_rev ids_def Let_def)
  qed
qed

lemma first_row_unique:
  assumes "distinct (map ev_id rows)" "r \<in> set rows" "ev_id r = i"
  shows "first_opt (filter (\<lambda>x. ev_id x = i) rows) = Some r"
  using assms by (induction rows) (auto simp: filter_empty_conv)

lemma fork_messages:
  assumes ok: "tree_ok db" "tree_ok db'" and ne: "new \<noteq> src"
    and lg: "td_log db' = td_log db @ map (copied_row now src new db) (enumerate 0 path)"
    and e: "e \<in> set path" "set path \<subseteq> set (list_events src db)" and new: "no_rows new db"
  shows "messages_at new (ev_text e ''event_id'') db' = messages_at src (ev_text e ''event_id'') db"
proof -
  let ?i = "ev_text e ''event_id''"
  have i: "?i \<noteq> []" using list_events_ids(2) [OF ok(1)] e by blast
  obtain k where k: "(k, e) \<in> set (enumerate 0 path)"
    using e(1) by (metis in_set_conv_nth in_set_enumerate_eq add.commute add_0 diff_zero fst_conv le0 snd_conv)
  have rows: "run_rows new (td_log db') = map (copied_row now src new db) (enumerate 0 path)"
    using new unfolding run_rows_fork [OF lg] no_rows_def by simp
  have "copied_row now src new db (k, e) \<in> set (run_rows new (td_log db'))" using k rows by simp
  then have a: "messages_at new ?i db' = Some (messages_for src ?i db)"
    using first_row_unique [of "run_rows new (td_log db')" "copied_row now src new db (k, e)" ?i] ok(2) i
    by (simp add: messages_at_def tree_ok_def log_ok_def copied_row_def)
  have "?i \<in> set (map ev_id (run_rows src (td_log db)))"
    using list_events_ids(1) [OF ok(1), of src] e by (auto simp: ids_def) (metis (no_types, lifting) image_eqI set_map subsetD)
  then obtain r where "r \<in> set (run_rows src (td_log db))" "ev_id r = ?i" by auto
  then have "first_opt (filter (\<lambda>x. ev_id x = ?i) (run_rows src (td_log db))) = Some r"
    using ok(1) by (intro first_row_unique) (simp_all add: tree_ok_def log_ok_def)
  then show ?thesis using a i by (simp add: messages_at_def messages_for_def)
qed

text \<open>
  C14: A fork copies the path to the chosen event into the new run, or the whole log when no
  event is named, with the conversation of every event; the path to the event is the same
  in both runs, and no other run changes.
\<close>

theorem fork_copies_path:
  assumes "tree_steps tree_init db" "fresh_run new db"
    and fork: "fork_run uid new now rid at_event title db = (db', Some r)"
  shows "fk_run r = new
    \<and> list_events new db' = (if at_event = [] then list_events (fk_parent r) db
                            else the (path_to_root (fk_parent r) at_event db))
    \<and> (at_event \<noteq> [] \<longrightarrow> path_to_root new at_event db' = path_to_root (fk_parent r) at_event db)
    \<and> (\<forall>e \<in> set (list_events new db'). messages_at new (ev_text e ''event_id'') db' =
         messages_at (fk_parent r) (ev_text e ''event_id'') db)
    \<and> (\<forall>q eid. q \<noteq> new \<longrightarrow> list_events q db' = list_events q db \<and> messages_at q eid db' = messages_at q eid db)"
proof -
  have ok: "tree_ok db" using assms(1) by (rule reach_ok)
  have new: "no_rows new db" using assms(2) by (simp add: fresh_run_def)
  have ok': "tree_ok db'" using ok new fork by (rule tree_ok_fork)
  show ?thesis
  proof (rule fork_tables [OF ok new fork])
    fix meta path
    let ?src = "rm_run meta"
    assume r: "fk_run r = new" "fk_parent r = ?src"
      and path: "path = (if at_event = [] then list_events ?src db else the (path_to_root ?src at_event db))"
        "at_event \<noteq> [] \<Longrightarrow> path_to_root ?src at_event db = Some path"
      and sub: "set path \<subseteq> set (list_events ?src db)" and ne: "new \<noteq> ?src"
      and lg: "td_log db' = td_log db @ map (copied_row now ?src new db) (enumerate 0 path)"
    have events: "list_events new db' = path"
      using new unfolding list_events_def ordered_rows_eq [OF ok'] run_rows_fork [OF lg] no_rows_def
      by (simp add: copied_json del: map_map)
    have others: "run_rows q (td_log db') = run_rows q (td_log db)" if "q \<noteq> new" for q
      using that unfolding run_rows_fork [OF lg] by simp
    have same: "path_to_root new at_event db' = path_to_root ?src at_event db" if "at_event \<noteq> []"
    proof -
      let ?d = "events_by_id (list_events ?src db)" and ?d' = "events_by_id path"
      have p: "path = rev (walk_up ?d at_event {})" "map_of ?d at_event \<noteq> None"
        using path(2) [OF that] by (auto simp: path_to_root_def Let_def split: if_splits)
      note w = walk_up_facts [OF filed_by_id, of "list_events ?src db" at_event "{}"]
      have dist: "distinct (ids path)" using path_to_root_sub(2) path(2) [OF that] by blast
      have here: "map_of ?d' (ev_text e ''event_id'') = Some e" if "e \<in> set path" for e
      proof (cases "map_of ?d' (ev_text e ''event_id'')")
        case None
        then show ?thesis using that by (auto simp: by_id_none)
      next
        case (Some e')
        then have "e' \<in> set path" "ev_text e' ''event_id'' = ev_text e ''event_id''" using by_id_some by blast+
        then have "e' = e" using dist that by (auto simp: ids_def distinct_map inj_on_def)
        then show ?thesis using Some by simp
      qed
      have "walk_up ?d' at_event {} = walk_up ?d at_event {}"
      proof (rule walk_up_sub)
        show "map_of ?d' (ev_text e ''event_id'') = map_of ?d (ev_text e ''event_id'')"
          if "e \<in> set (walk_up ?d at_event {})" for e using here [of e] w that p(1) by simp
        show "map_of ?d' i = None" if "map_of ?d i = None" for i
          using that sub by (auto simp: by_id_none)
      qed (rule filed_by_id)
      moreover have "path \<noteq> []" using p that by (auto simp: walk_up.simps [of ?d at_event])
      then have "map_of ?d' at_event \<noteq> None" using here [of "last path"] w p(1) by (simp add: last_rev)
      ultimately show ?thesis
        using p(1) path(2) [OF that] by (simp add: path_to_root_def events Let_def)
    qed
    show ?thesis
      unfolding r events
      using path same fork_messages [OF ok ok' ne lg _ sub new] others
      by (auto simp: list_events_def ordered_rows_def messages_at_def)
  qed
qed

text \<open>
  After a branch has been activated it is the one active branch of its family, and the
  other families are as before.
\<close>

theorem activate_one_branch:
  assumes "tree_steps tree_init db" "activate_branch rid bid db = (db', Some (rt, b))"
  shows "b = bid \<and> (\<exists>l. list_branches rid db' = Some l \<and> bl_root l = rt \<and> bl_active l = bid
      \<and> (\<forall>x \<in> set (bl_branches l). br_active x \<longleftrightarrow> br_id x = bid))
    \<and> (\<forall>q l. list_branches q db = Some l \<and> bl_root l \<noteq> rt \<longrightarrow> list_branches q db' = Some l)"
proof -
  have ok: "tree_ok db" "branches_ok db" using reach_ok reach_branches_ok assms(1) by blast+
  note f = activate_fields [OF assms(2)]
  have res: "resolve_run q db' = resolve_run q db" for q
    by (simp add: f(2) resolve_run_def get_run_meta_def cong: option.case_cong)
  obtain l0 where l0: "list_branches rid db = Some l0" "bl_root l0 = rt" using f(4) by blast
  let ?bs = "sort_key br_created (filter (\<lambda>x. br_root x = rt) (td_branches db'))"
  obtain l where l: "list_branches rid db' = Some l" "bl_root l = rt"
    using l0 by (auto simp: list_branches_def res Let_def split: option.splits)
  note lf = list_branches_fields [OF l(1), unfolded l(2)]
  have act: "br_active x \<longleftrightarrow> br_id x = bid" if x: "x \<in> set (bl_branches l)" for x
  proof -
    have "x \<in> set (td_branches db')" "br_root x = rt" using x unfolding lf(1) by auto
    then obtain a where "x = a\<lparr>br_active := (br_id a = bid \<or> br_root a \<noteq> rt \<and> br_active a)\<rparr>"
      by (auto simp: f(2) set_active_eq)
    then show ?thesis using \<open>br_root x = rt\<close> by (cases a) auto
  qed
  obtain x where x: "x \<in> set (td_branches db)" "br_id x = bid" "br_root x = rt" using f(3) by blast
  then have x': "x\<lparr>br_active := True\<rparr> \<in> set (bl_branches l)"
    unfolding lf(1) by (force simp: f(2) set_active_eq)
  have "bl_active l = bid"
  proof (cases "List.find br_active (bl_branches l)")
    case None
    then show ?thesis using x' by (auto simp: find_None_iff)
  next
    case (Some y)
    then have "y \<in> set (bl_branches l)" "br_active y" by (auto simp: find_Some_iff)
    then show ?thesis using act Some by (simp add: lf(2))
  qed
  moreover have "list_branches q db' = Some l" if q: "list_branches q db = Some l" "bl_root l \<noteq> rt" for q l
  proof -
    have nb: "br_id y \<noteq> bid" if "y \<in> set (td_branches db)" "br_root y \<noteq> rt" for y
    proof
      assume "br_id y = bid"
      then have "y = x" using x that(1) ok(1) by (auto simp: tree_ok_def distinct_map inj_on_def)
      then show False using that(2) x(3) by simp
    qed
    have "filter (\<lambda>b. br_root b = s) (set_active rt bid bs) = filter (\<lambda>b. br_root b = s) bs"
      if "s \<noteq> rt" "set bs \<subseteq> set (td_branches db)" for s bs
      using that nb by (induction bs) (auto simp: set_active_eq)
    then have "filter (\<lambda>b. br_root b = bl_root l) (td_branches db') = filter (\<lambda>b. br_root b = bl_root l) (td_branches db)"
      using q(2) by (simp add: f(2))
    then show ?thesis using q(1) by (auto simp: list_branches_def res Let_def split: option.splits)
  qed
  ultimately show ?thesis using f(1) l act by blast
qed

text \<open>
  Once a fork is the active branch of a family, no later operation makes the original run
  active again: the family always has an active branch, and it is never the original run.
\<close>

theorem original_not_reactivated:
  assumes "tree_steps tree_init db" "list_branches rid db = Some l" "bl_active l \<noteq> []"
    and "tree_steps db db'" "list_branches q db' = Some l'" "bl_root l' = bl_root l"
  shows "bl_active l' \<noteq> [] \<and> bl_active l' \<noteq> bl_root l' \<and> activate_branch q (bl_root l') db' = (db', None)"
proof -
  have r: "tree_steps tree_init db'" using assms(1,4) by (rule rtranclp_trans)
  note b = reach_branches_ok [OF assms(1)] reach_branches_ok [OF r]
  have "family_active (bl_root l) db" using listing_active(1) [OF assms(2) b(1)] assms(3) by blast
  then have "family_active (bl_root l) db'" using family_active_steps [OF assms(4)] reach_ok [OF assms(1)] by blast
  then have a: "bl_active l' \<noteq> []" using listing_active(1) [OF assms(5) b(2)] assms(6) by simp
  moreover have "activate_branch q (bl_root l') db' = (db', None)"
    using b(2) unfolding activate_branch_def assms(5)
    by (auto simp: list_ex_iff list_branches_fields(1) [OF assms(5)] branches_ok_def)
  ultimately show ?thesis using listing_active(2) [OF assms(5) b(2)] by blast
qed

section \<open>Examples\<close>

definition demo_event :: "str \<Rightarrow> str \<Rightarrow> jobj" where
  "demo_event i p = [(''type'', JStr ''think''), (''event_id'', JStr i), (''parent_id'', JStr p)]"

text \<open>A run with a root event and two children, and a fork at one child.\<close>

definition demo_tree :: tree_db where
  "demo_tree = append_event ''u'' 4 ''r1'' (demo_event ''c'' ''a'') [JInt 3]
     (append_event ''u'' 3 ''r1'' (demo_event ''b'' ''a'') [JInt 2]
     (append_event ''u'' 2 ''r1'' (demo_event ''a'' '''') [JInt 1]
     (register_run 1 ''r1'' ''g'' ''s'' '''' ''default'' '''' '''' '''' tree_init)))"

definition demo_fork :: "tree_db \<times> fork_reply option" where
  "demo_fork = fork_run (\<lambda>n. ''u'') ''r2'' 5 ''r1'' ''c'' '''' demo_tree"

lemmas tree_ops = append_event_def register_run_def root_of_def put_event_def put_meta_def put_branch_def
  next_event_seq_def run_rows_def ev_text_def skipped_types_def demo_event_def tree_init_def Let_def

lemma demo_tree_eq: "demo_tree =
  \<lparr>td_log = [\<lparr>ev_run = ''r1'', ev_id = ''a'', ev_parent = '''', ev_seq = 0, ev_json = demo_event ''a'' '''', ev_messages = [JInt 1], ev_created = 2\<rparr>,
      \<lparr>ev_run = ''r1'', ev_id = ''b'', ev_parent = ''a'', ev_seq = 1, ev_json = demo_event ''b'' ''a'', ev_messages = [JInt 2], ev_created = 3\<rparr>,
      \<lparr>ev_run = ''r1'', ev_id = ''c'', ev_parent = ''a'', ev_seq = 2, ev_json = demo_event ''c'' ''a'', ev_messages = [JInt 3], ev_created = 4\<rparr>],
   td_meta = [\<lparr>rm_run = ''r1'', rm_graph = ''g'', rm_session = ''s'', rm_task = '''', rm_team = ''default'',
      rm_root = ''r1'', rm_parent = '''', rm_fork_event = '''', rm_created = 1\<rparr>],
   td_branches = []\<rparr>"
  by (simp add: demo_tree_def tree_ops)

lemma reach_append: "tree_steps s db \<Longrightarrow> uid \<noteq> [] \<Longrightarrow> tree_steps s (append_event uid now rid e msgs db)"
  by (erule rtranclp.rtrancl_into_rtrancl) (rule step_append)

lemma reach_register: "tree_steps s db \<Longrightarrow> tree_steps s (register_run now rid g ss t tm p rt fe db)"
  by (erule rtranclp.rtrancl_into_rtrancl) (rule step_register)

lemma demo_tree_reach: "tree_steps tree_init demo_tree"
  unfolding demo_tree_def
  by (intro reach_append reach_register rtranclp.rtrancl_refl) simp_all

lemma demo_fork_eq: "demo_fork =
  (\<lparr>td_log = td_log demo_tree @
      [\<lparr>ev_run = ''r2'', ev_id = ''a'', ev_parent = '''', ev_seq = 0, ev_json = demo_event ''a'' '''', ev_messages = [JInt 1], ev_created = 5\<rparr>,
       \<lparr>ev_run = ''r2'', ev_id = ''c'', ev_parent = ''a'', ev_seq = 1, ev_json = demo_event ''c'' ''a'', ev_messages = [JInt 3], ev_created = 5\<rparr>],
    td_meta = td_meta demo_tree @ [\<lparr>rm_run = ''r2'', rm_graph = ''g'', rm_session = ''s'', rm_task = '''', rm_team = ''default'',
      rm_root = ''r1'', rm_parent = ''r1'', rm_fork_event = ''c'', rm_created = 5\<rparr>],
    td_branches = [\<lparr>br_id = ''r2'', br_run = ''r2'', br_root = ''r1'', br_parent = ''r1'', br_fork_event = ''c'',
      br_title = ''fork of r1 at c'', br_active = False, br_created = 5\<rparr>]\<rparr>,
   Some \<lparr>fk_run = ''r2'', fk_parent = ''r1'', fk_root = ''r1'', fk_event = ''c'', fk_title = ''fork of r1 at c'',
     fk_copied = 2, fk_messages = [JInt 3], fk_graph = ''g''\<rparr>)"
  by (simp add: demo_fork_def demo_tree_eq fork_run_def resolve_run_def get_run_meta_def list_events_def
      ordered_rows_def path_to_root_def events_by_id_def walk_up.simps copy_event_def messages_for_def
      messages_at_def tree_ops)

lemma demo_fresh: "fresh_run ''r2'' demo_tree"
  by (simp add: fresh_run_def no_rows_def run_rows_def demo_tree_eq)

lemma demo_fork_reach: "tree_steps tree_init (fst demo_fork)"
  unfolding demo_fork_def
  by (rule rtranclp.rtrancl_into_rtrancl [OF demo_tree_reach step_fork [OF demo_fresh]])

lemma append_event_exact_witness:
  "ids (list_events ''r1'' (append_event ''u'' 5 ''r1'' (demo_event ''a'' '''') [] demo_tree)) = [''b'', ''c'', ''a'']"
  using append_event_exact [OF demo_tree_reach, of "''u''" _ 5 "''r1''" "demo_event ''a'' ''''" "[]" "''a''"]
  by (simp add: list_events_def ordered_rows_def demo_tree_eq ids_def tree_ops)

lemma path_to_root_chain_witness:
  "path_to_root ''r1'' ''c'' demo_tree = Some [demo_event ''a'' '''', demo_event ''c'' ''a'']
   \<and> path_to_root ''r1'' ''z'' demo_tree = None"
  using path_to_root_chain [of "''r1''" "''z''" demo_tree]
    path_to_root_chain [of "''r1''" "''c''" demo_tree "[demo_event ''a'' '''', demo_event ''c'' ''a'']"]
  by (simp add: path_to_root_def events_by_id_def walk_up.simps list_events_def ordered_rows_def demo_tree_eq tree_ops ids_def)

lemma fork_copies_path_witness:
  "list_events ''r2'' (fst demo_fork) = the (path_to_root ''r1'' ''c'' demo_tree)"
proof -
  obtain r where r: "demo_fork = (fst demo_fork, Some r)" "fk_parent r = ''r1''" by (simp add: demo_fork_eq)
  show ?thesis
    using fork_copies_path [OF demo_tree_reach demo_fresh r(1) [unfolded demo_fork_def]] r(2)
    by (simp add: demo_fork_def)
qed

definition demo_activated :: tree_db where
  "demo_activated = fst (activate_branch ''r1'' ''r2'' (fst demo_fork))"

lemmas branch_ops = activate_branch_def list_branches_def resolve_run_def get_run_meta_def set_active_def Let_def

lemma demo_activated_eq:
  "activate_branch ''r1'' ''r2'' (fst demo_fork) = (demo_activated, Some (''r1'', ''r2''))"
  "\<exists>l. list_branches ''r2'' demo_activated = Some l \<and> bl_active l = ''r2'' \<and> bl_root l = ''r1''"
  by (simp_all add: demo_activated_def demo_fork_eq demo_tree_eq branch_ops)

lemma activate_one_branch_witness:
  "\<exists>l. list_branches ''r1'' demo_activated = Some l \<and> bl_active l = ''r2''"
  using activate_one_branch [OF demo_fork_reach demo_activated_eq(1)] by blast

lemma original_not_reactivated_witness:
  "activate_branch ''r2'' ''r1'' demo_activated = (demo_activated, None)"
proof -
  have r: "tree_steps tree_init demo_activated"
    unfolding demo_activated_def by (rule rtranclp.rtrancl_into_rtrancl [OF demo_fork_reach step_activate])
  obtain l where l: "list_branches ''r2'' demo_activated = Some l" "bl_active l = ''r2''" "bl_root l = ''r1''"
    using demo_activated_eq(2) by blast
  show ?thesis
    using original_not_reactivated [OF r l(1) _ rtranclp.rtrancl_refl l(1) refl] l(2,3) by simp
qed

end
