(* ===== verification/PyValues.thy ===== *)
theory PyValues
  imports Json
begin

text \<open>
  Built-in functions of Python on JSON values, as the runtime uses them: \<open>str\<close>,
  \<open>repr\<close>, \<open>json.dumps\<close>, \<open>int\<close>, \<open>float\<close>, indexing, \<open>==\<close> and the order comparisons.
  A float is a rational, so its decimal rendering is an argument, as are the parsers of
  float literals and of JSON text (the record \<open>pylib\<close>). Strings are ASCII.
\<close>

section \<open>Codecs\<close>

record pylib =
  pl_repr :: "pyfloat \<Rightarrow> str"
  pl_float :: "str \<Rightarrow> pyfloat option"
  pl_loads :: "str \<Rightarrow> json option"

definition hex_digit :: "nat \<Rightarrow> char" where
  "hex_digit n = (if n < 10 then char_of (48 + n) else char_of (87 + n))"

definition hex2 :: "nat \<Rightarrow> str" where
  "hex2 n = [hex_digit (n div 16), hex_digit (n mod 16)]"

text \<open>\<open>repr(s)\<close>: single quotes, unless the text has one and no double quote.\<close>

definition repr_char :: "char \<Rightarrow> char \<Rightarrow> str" where
  "repr_char q c =
     (let n = (of_char c :: nat) in
      if c = q \<or> c = CHR 0x5C then [CHR 0x5C, c]
      else if n = 9 then [CHR 0x5C, CHR ''t'']
      else if n = 10 then [CHR 0x5C, CHR ''n'']
      else if n = 13 then [CHR 0x5C, CHR ''r'']
      else if n < 32 \<or> n = 127 then [CHR 0x5C, CHR ''x''] @ hex2 n
      else [c])"

definition repr_str :: "str \<Rightarrow> str" where
  "repr_str s =
     (let q = (if CHR 0x27 \<in> set s \<and> CHR 0x22 \<notin> set s then CHR 0x22 else CHR 0x27)
      in [q] @ concat (map (repr_char q) s) @ [q])"

text \<open>\<open>json.dumps(s, ensure_ascii=False)\<close> on a string.\<close>

definition dumps_char :: "char \<Rightarrow> str" where
  "dumps_char c =
     (let n = (of_char c :: nat) in
      if n = 0x22 \<or> n = 0x5C then [CHR 0x5C, c]
      else if n = 8 then [CHR 0x5C, CHR ''b'']
      else if n = 9 then [CHR 0x5C, CHR ''t'']
      else if n = 10 then [CHR 0x5C, CHR ''n'']
      else if n = 12 then [CHR 0x5C, CHR ''f'']
      else if n = 13 then [CHR 0x5C, CHR ''r'']
      else if n < 32 then CHR 0x5C # ''u00'' @ hex2 n
      else [c])"

definition dumps_str :: "str \<Rightarrow> str" where
  "dumps_str s = [CHR 0x22] @ concat (map dumps_char s) @ [CHR 0x22]"

fun json_dumps :: "pylib \<Rightarrow> json \<Rightarrow> str" where
  "json_dumps pl JNull = ''null''"
| "json_dumps pl (JBool b) = (if b then ''true'' else ''false'')"
| "json_dumps pl (JInt i) = str_of_int i"
| "json_dumps pl (JFloat q) = pl_repr pl q"
| "json_dumps pl (JStr s) = dumps_str s"
| "json_dumps pl (JList xs) = ''['' @ py_join '', '' (map (json_dumps pl) xs) @ '']''"
| "json_dumps pl (JObj d) =
     ''{'' @ py_join '', '' (map (\<lambda>(k, v). dumps_str k @ '': '' @ json_dumps pl v) d) @ ''}''"

fun py_repr :: "pylib \<Rightarrow> json \<Rightarrow> str" where
  "py_repr pl JNull = ''None''"
| "py_repr pl (JBool b) = (if b then ''True'' else ''False'')"
| "py_repr pl (JInt i) = str_of_int i"
| "py_repr pl (JFloat q) = pl_repr pl q"
| "py_repr pl (JStr s) = repr_str s"
| "py_repr pl (JList xs) = ''['' @ py_join '', '' (map (py_repr pl) xs) @ '']''"
| "py_repr pl (JObj d) =
     ''{'' @ py_join '', '' (map (\<lambda>(k, v). repr_str k @ '': '' @ py_repr pl v) d) @ ''}''"

fun py_str :: "pylib \<Rightarrow> json \<Rightarrow> str" where
  "py_str pl (JStr s) = s"
| "py_str pl v = py_repr pl v"

section \<open>Numbers\<close>

text \<open>\<open>isinstance(v, (int, float))\<close>, which holds for a bool.\<close>

fun as_number :: "json \<Rightarrow> pyfloat option" where
  "as_number (JBool b) = Some (if b then 1 else 0)"
| "as_number (JInt i) = Some (of_int i)"
| "as_number (JFloat q) = Some q"
| "as_number _ = None"

fun py_to_int :: "json \<Rightarrow> py_exn + int" where
  "py_to_int (JBool b) = Inr (if b then 1 else 0)"
| "py_to_int (JInt i) = Inr i"
| "py_to_int (JFloat q) = Inr (trunc q)"
| "py_to_int (JStr s) = (case py_int (py_strip s) of None \<Rightarrow> Inl ValueError | Some i \<Rightarrow> Inr i)"
| "py_to_int _ = Inl TypeError"

fun py_to_float :: "pylib \<Rightarrow> json \<Rightarrow> py_exn + pyfloat" where
  "py_to_float pl (JStr s) = (case pl_float pl (py_strip s) of None \<Rightarrow> Inl ValueError | Some q \<Rightarrow> Inr q)"
| "py_to_float pl v = (case as_number v of None \<Rightarrow> Inl TypeError | Some q \<Rightarrow> Inr q)"

text \<open>\<open>xs[i]\<close>: a negative index counts from the end; None stands for IndexError.\<close>

definition list_item :: "'a list \<Rightarrow> int \<Rightarrow> 'a option" where
  "list_item xs i =
     (let n = int (length xs); j = (if i < 0 then i + n else i)
      in if 0 \<le> j \<and> j < n then Some (xs ! nat j) else None)"

lemma py_index_mem: "list_item xs i = Some x \<Longrightarrow> x \<in> set xs"
  by (auto simp: list_item_def Let_def split: if_splits)

section \<open>Comparisons\<close>

fun py_eq :: "json \<Rightarrow> json \<Rightarrow> bool" where
  "py_eq (JStr a) (JStr b) = (a = b)"
| "py_eq JNull JNull = True"
| "py_eq (JList xs) (JList ys) = list_all2 py_eq xs ys"
| "py_eq (JObj d) (JObj e) =
     (length d = length e \<and>
      (\<forall>(k, v) \<in> set d. case map_of e k of None \<Rightarrow> False | Some w \<Rightarrow> py_eq v w))"
| "py_eq v w =
     (case (as_number v, as_number w) of (Some p, Some q) \<Rightarrow> p = q | _ \<Rightarrow> False)"

datatype cmp_op = OpGe | OpLe | OpNe | OpEq | OpGt | OpLt

fun ord_op :: "cmp_op \<Rightarrow> 'a :: linorder \<Rightarrow> 'a \<Rightarrow> bool" where
  "ord_op OpGe x y = (y \<le> x)"
| "ord_op OpLe x y = (x \<le> y)"
| "ord_op OpNe x y = (x \<noteq> y)"
| "ord_op OpEq x y = (x = y)"
| "ord_op OpGt x y = (y < x)"
| "ord_op OpLt x y = (x < y)"

text \<open>Three-way comparison of strings by code point.\<close>

fun str_cmp :: "str \<Rightarrow> str \<Rightarrow> int" where
  "str_cmp [] [] = 0"
| "str_cmp [] (d # ds) = - 1"
| "str_cmp (c # cs) [] = 1"
| "str_cmp (c # cs) (d # ds) =
     (if c = d then str_cmp cs ds else if (of_char c :: nat) < of_char d then - 1 else 1)"

text \<open>
  The order comparisons. Lists compare at the first position that differs, and by length
  when there is none; any other pair that is not two numbers or two strings raises
  TypeError.
\<close>

fun py_order :: "cmp_op \<Rightarrow> json \<Rightarrow> json \<Rightarrow> py_exn + bool"
  and py_orders :: "cmp_op \<Rightarrow> json list \<Rightarrow> json list \<Rightarrow> py_exn + bool" where
  "py_order op (JStr a) (JStr b) = Inr (ord_op op (str_cmp a b) 0)"
| "py_order op (JList xs) (JList ys) = py_orders op xs ys"
| "py_order op v w =
     (case (as_number v, as_number w) of
        (Some p, Some q) \<Rightarrow> Inr (ord_op op p q)
      | _ \<Rightarrow> Inl TypeError)"
| "py_orders op (x # xs) (y # ys) = (if py_eq x y then py_orders op xs ys else py_order op x y)"
| "py_orders op xs ys = Inr (ord_op op (length xs) (length ys))"

fun py_compare :: "cmp_op \<Rightarrow> json \<Rightarrow> json \<Rightarrow> py_exn + bool" where
  "py_compare OpEq v w = Inr (py_eq v w)"
| "py_compare OpNe v w = Inr (\<not> py_eq v w)"
| "py_compare op v w = py_order op v w"

end
