(* ===== verification/Variables.thy ===== *)
theory Variables
  imports PyValues
begin

text \<open>
  The variable manager of \<open>agent_runtime/variable_manager.py\<close>: the variables of one
  execution, written by name, read by dotted path, and substituted into templates. The
  state of a \<open>VariableManager\<close> is its dict of variables.
\<close>

section \<open>Writing and reading\<close>

definition bool_words :: "str list" where
  "bool_words = [''true'', ''1'', ''yes'']"

definition coerce_var :: "pylib \<Rightarrow> str \<Rightarrow> json \<Rightarrow> py_exn + json" where
  "coerce_var pl c v =
     (if c = ''number'' then bindE (py_to_float pl v) (\<lambda>q. Inr (JFloat q))
      else if c = ''integer'' then bindE (py_to_int v) (\<lambda>i. Inr (JInt i))
      else if c = ''boolean'' then
        Inr (JBool (case v of JStr s \<Rightarrow> py_lower s \<in> set bool_words | _ \<Rightarrow> truthy v))
      else if c = ''json'' then
        (case v of JStr s \<Rightarrow> (case pl_loads pl s of None \<Rightarrow> Inl ValueError | Some j \<Rightarrow> Inr j)
         | _ \<Rightarrow> Inr v)
      else Inr v)"

definition set_var :: "str \<Rightarrow> json \<Rightarrow> jobj \<Rightarrow> jobj" where
  "set_var name v vs = AList.update name v vs"

definition set_var_coerced :: "pylib \<Rightarrow> str \<Rightarrow> json \<Rightarrow> str \<Rightarrow> jobj \<Rightarrow> py_exn + jobj" where
  "set_var_coerced pl name v c vs = bindE (coerce_var pl c v) (\<lambda>w. Inr (set_var name w vs))"

text \<open>
  \<open>_get_nested\<close>: one step into a dict by key or into a list by (possibly negative)
  index; None stands for \<open>return default\<close>.
\<close>

fun nested_step :: "json \<Rightarrow> str \<Rightarrow> json option" where
  "nested_step (JObj d) part = map_of d part"
| "nested_step (JList xs) part =
     (case py_int (py_strip part) of None \<Rightarrow> None | Some i \<Rightarrow> list_item xs i)"
| "nested_step _ _ = None"

fun get_nested :: "json \<Rightarrow> str list \<Rightarrow> json option" where
  "get_nested cur [] = Some cur"
| "get_nested cur (p # ps) = (case nested_step cur p of None \<Rightarrow> None | Some v \<Rightarrow> get_nested v ps)"

definition get_var :: "jobj \<Rightarrow> str \<Rightarrow> json \<Rightarrow> json" where
  "get_var vs name dflt =
     (if CHR ''.'' \<in> set name
      then (case get_nested (JObj vs) (split_on CHR ''.'' name) of None \<Rightarrow> dflt | Some v \<Rightarrow> v)
      else dict_get vs name dflt)"

definition delete_var :: "str \<Rightarrow> jobj \<Rightarrow> jobj" where
  "delete_var name vs = AList.delete name vs"

text \<open>\<open>load_from\<close> is \<open>dict.update\<close>.\<close>

definition load_vars :: "jobj \<Rightarrow> jobj \<Rightarrow> jobj" where
  "load_vars data vs = fold (\<lambda>(k, v). AList.update k v) data vs"

section \<open>Templates\<close>

definition render_value :: "pylib \<Rightarrow> json \<Rightarrow> str" where
  "render_value pl v =
     (case v of
        JList _ \<Rightarrow> json_dumps pl v
      | JObj _ \<Rightarrow> json_dumps pl v
      | JNull \<Rightarrow> ''null''
      | JBool b \<Rightarrow> (if b then ''true'' else ''false'')
      | _ \<Rightarrow> py_str pl v)"

text \<open>
  The pattern matches two opening braces, then a shortest non-empty run of characters other
  than a newline, then two closing braces. \<open>hole_body\<close> starts after the opening braces
  and returns the captured text and the rest of the template.
\<close>

abbreviation (input) open2 :: str where "open2 \<equiv> ''{{''"
abbreviation (input) close2 :: str where "close2 \<equiv> ''}}''"

fun hole_body :: "str \<Rightarrow> (str \<times> str) option" where
  "hole_body [] = None"
| "hole_body (c # cs) =
     (if c = CHR 0x0A then None
      else if starts_with cs close2 then Some ([c], drop 2 cs)
      else map_option (\<lambda>(b, r). (c # b, r)) (hole_body cs))"

definition match_hole :: "str \<Rightarrow> (str \<times> str) option" where
  "match_hole t = (if starts_with t open2 then hole_body (drop 2 t) else None)"

lemma hole_body_source: "hole_body t = Some (b, r) \<Longrightarrow> t = b @ close2 @ r"
proof (induction t arbitrary: b)
  case Nil
  then show ?case by simp
next
  case (Cons c cs)
  show ?case
  proof (cases "starts_with cs close2")
    case True
    then have "cs = close2 @ drop 2 cs"
      by (metis append_take_drop_id length_Cons list.size(3) numeral_2_eq_2 starts_with_def)
    then show ?thesis using Cons.prems True by (auto split: if_splits)
  next
    case False
    then show ?thesis using Cons by (auto split: if_splits)
  qed
qed

lemma match_hole_source: "match_hole t = Some (b, r) \<Longrightarrow> t = open2 @ b @ close2 @ r"
proof -
  assume m: "match_hole t = Some (b, r)"
  then have "take 2 t = open2" and "hole_body (drop 2 t) = Some (b, r)"
    by (auto simp: match_hole_def starts_with_def numeral_2_eq_2 split: if_splits)
  then show ?thesis using hole_body_source [of "drop 2 t"] by (metis append_take_drop_id)
qed

lemma match_hole_shorter: "match_hole t = Some (b, r) \<Longrightarrow> length r < length t"
  by (drule match_hole_source) simp

function interpolate :: "pylib \<Rightarrow> jobj \<Rightarrow> str \<Rightarrow> str" where
  "interpolate pl vs t =
     (case match_hole t of
        Some (b, r) \<Rightarrow> render_value pl (get_var vs (py_strip b) (JStr [])) @ interpolate pl vs r
      | None \<Rightarrow> (case t of [] \<Rightarrow> [] | c # cs \<Rightarrow> c # interpolate pl vs cs))"
  by pat_completeness auto
termination
  by (relation "measure (\<lambda>(_, _, t). length t)") (auto simp: match_hole_shorter)

declare interpolate.simps [simp del]

text \<open>
  The holes of a template, found without looking at any variable: the reference against
  which \<open>interpolate\<close> is proved.
\<close>

datatype piece = Lit char | Hole str

function pieces :: "str \<Rightarrow> piece list" where
  "pieces t =
     (case match_hole t of
        Some (b, r) \<Rightarrow> Hole b # pieces r
      | None \<Rightarrow> (case t of [] \<Rightarrow> [] | c # cs \<Rightarrow> Lit c # pieces cs))"
  by pat_completeness auto
termination
  by (relation "measure length") (auto simp: match_hole_shorter)

declare pieces.simps [simp del]

fun piece_source :: "piece \<Rightarrow> str" where
  "piece_source (Lit c) = [c]"
| "piece_source (Hole b) = open2 @ b @ close2"

fun fill_piece :: "pylib \<Rightarrow> jobj \<Rightarrow> piece \<Rightarrow> str" where
  "fill_piece pl vs (Lit c) = [c]"
| "fill_piece pl vs (Hole b) = render_value pl (get_var vs (py_strip b) (JStr []))"

lemma pieces_source: "concat (map piece_source (pieces t)) = t"
proof (induction t rule: pieces.induct)
  case (1 t)
  show ?case
  proof (cases "match_hole t")
    case None
    show ?thesis
    proof (cases t)
      case (Cons c cs)
      show ?thesis using "1.IH"(1) [OF None Cons] None Cons by (subst pieces.simps) simp
    qed (use None in \<open>simp add: pieces.simps [of "[]"]\<close>)
  next
    case (Some m)
    obtain b r where m: "m = (b, r)" by (cases m)
    show ?thesis using "1.IH"(2) [OF Some m [symmetric]] match_hole_source [of t b r] Some m
      by (subst pieces.simps) simp
  qed
qed

lemma interpolate_pieces: "interpolate pl vs t = concat (map (fill_piece pl vs) (pieces t))"
proof (induction t rule: pieces.induct)
  case (1 t)
  then show ?case
    by (auto simp: interpolate.simps [of pl vs t] pieces.simps [of t] split: option.splits list.splits)
qed

text \<open>A template without two consecutive opening braces has no hole.\<close>

lemma interpolate_plain: "\<not> py_contains open2 t \<Longrightarrow> interpolate pl vs t = t"
proof (induction t)
  case Nil
  then show ?case by (simp add: interpolate.simps [of pl vs "[]"] match_hole_def starts_with_def)
next
  case (Cons c cs)
  then show ?case by (simp add: interpolate.simps [of pl vs "c # cs"] match_hole_def)
qed

section \<open>Properties\<close>

lemma get_set_var: "CHR ''.'' \<notin> set name \<Longrightarrow> get_var (set_var name v vs) name d = v"
  by (simp add: get_var_def set_var_def dict_get_update)

lemma get_set_other:
  "CHR ''.'' \<notin> set other \<Longrightarrow> other \<noteq> name \<Longrightarrow> get_var (set_var name v vs) other d = get_var vs other d"
  by (simp add: get_var_def set_var_def dict_get_update)

lemma load_vars_lookup: "map_of (load_vars data vs) = map_of vs ++ map_of (rev data)"
  by (induction data arbitrary: vs)
    (auto simp: load_vars_def fun_eq_iff map_add_def split: option.splits)

lemma load_vars_ok: "dict_ok vs \<Longrightarrow> dict_ok (load_vars data vs)"
  by (induction data arbitrary: vs) (auto simp: load_vars_def)

end
