(* ===== verification/AgentContext.thy ===== *)
theory AgentContext
  imports Variables
begin

text \<open>
  The execution context of \<open>agent_runtime/context.py\<close>: events (\<open>AgentEvent\<close>), the
  context of one run (\<open>AgentContext\<close>), its message and event buffers with their soft
  caps, token accounting, and serialisation. The clock, fresh identifiers and the texts of
  environment variables are arguments. The durable session log that \<open>add_message\<close> also
  writes to belongs to another package and has no effect on the context.
\<close>

section \<open>Events\<close>

datatype event_type =
    Think | ToolCall | ToolResult | ResultEvent | ErrorEvent | StartEvent | EndEvent
  | TokenEvent | ThinkingToken | ToolCallStart | ToolCallEnd | SafetyApproval | SafetyTimeout
  | CheckpointEvent | VerifyEvent | BudgetExceeded | Retry | RetrySuccess | PlanModeExit
  | PlanApproval

definition type_names :: "(event_type \<times> str) list" where
  "type_names = [(Think, ''think''), (ToolCall, ''tool_call''), (ToolResult, ''tool_result''),
     (ResultEvent, ''result''), (ErrorEvent, ''error''), (StartEvent, ''start''),
     (EndEvent, ''end''), (TokenEvent, ''token''), (ThinkingToken, ''thinking_token''),
     (ToolCallStart, ''tool_call_start''), (ToolCallEnd, ''tool_call_end''),
     (SafetyApproval, ''safety_approval''), (SafetyTimeout, ''safety_timeout''),
     (CheckpointEvent, ''checkpoint''), (VerifyEvent, ''verify''),
     (BudgetExceeded, ''token_budget_exceeded''), (Retry, ''retry''),
     (RetrySuccess, ''retry_success''), (PlanModeExit, ''plan_mode_exit''),
     (PlanApproval, ''plan_approval'')]"

definition type_name :: "event_type \<Rightarrow> str" where
  "type_name t = dict_get type_names t []"

definition type_of_name :: "str \<Rightarrow> event_type option" where
  "type_of_name s = map_option fst (List.find (\<lambda>(t, n). n = s) type_names)"

lemma type_of_name_type_name [simp]: "type_of_name (type_name t) = Some t"
  by (cases t) (simp_all add: type_of_name_def type_name_def type_names_def dict_get_def)

record agent_event =
  ae_type :: event_type
  ae_content :: str
  ae_name :: str
  ae_args :: jobj
  ae_node :: str
  ae_time :: pyfloat
  ae_meta :: jobj
  ae_id :: str
  ae_parent :: str

text \<open>The generated \<open>__init__\<close> and \<open>__post_init__\<close>: a zero timestamp becomes the clock.\<close>

definition event_post_init :: "pyfloat \<Rightarrow> agent_event \<Rightarrow> agent_event" where
  "event_post_init now e = (if ae_time e = 0 then e\<lparr>ae_time := now\<rparr> else e)"

definition new_event :: "pyfloat \<Rightarrow> event_type \<Rightarrow> str \<Rightarrow> str \<Rightarrow> str \<Rightarrow> jobj \<Rightarrow> agent_event" where
  "new_event now t content name node meta =
     event_post_init now \<lparr>ae_type = t, ae_content = content, ae_name = name, ae_args = [],
       ae_node = node, ae_time = 0, ae_meta = meta, ae_id = [], ae_parent = []\<rparr>"

definition event_to_dict :: "agent_event \<Rightarrow> jobj" where
  "event_to_dict e =
     [(''type'', JStr (type_name (ae_type e))), (''content'', JStr (ae_content e)),
      (''name'', JStr (ae_name e)), (''args'', JObj (ae_args e)), (''node_id'', JStr (ae_node e)),
      (''timestamp'', JFloat (ae_time e)), (''metadata'', JObj (ae_meta e)),
      (''event_id'', JStr (ae_id e)), (''parent_id'', JStr (ae_parent e))]"

text \<open>None when a field has a type other than the declared one.\<close>

definition event_from_dict :: "pyfloat \<Rightarrow> jobj \<Rightarrow> (py_exn + agent_event) option" where
  "event_from_dict now d =
     (case map_of d ''type'' of
        None \<Rightarrow> Some (Inl KeyError)
      | Some (JStr s) \<Rightarrow>
          (case type_of_name s of
             None \<Rightarrow> Some (Inl ValueError)
           | Some t \<Rightarrow>
               do {
                 content \<leftarrow> field as_str d ''content'' [];
                 name \<leftarrow> field as_str d ''name'' [];
                 args \<leftarrow> field as_obj d ''args'' [];
                 node \<leftarrow> field as_str d ''node_id'' [];
                 time \<leftarrow> field as_num d ''timestamp'' 0;
                 meta \<leftarrow> field as_obj d ''metadata'' [];
                 eid \<leftarrow> field as_str d ''event_id'' [];
                 pid \<leftarrow> field as_str d ''parent_id'' [];
                 Some (Inr (event_post_init now
                   \<lparr>ae_type = t, ae_content = content, ae_name = name, ae_args = args,
                    ae_node = node, ae_time = time, ae_meta = meta, ae_id = eid,
                    ae_parent = pid\<rparr>))
               })
      | Some _ \<Rightarrow> Some (Inl ValueError))"

lemma event_from_to_dict:
  "event_from_dict now (event_to_dict e) = Some (Inr (event_post_init now e))"
  by (cases e) (simp add: event_from_dict_def event_to_dict_def)

section \<open>Contexts\<close>

text \<open>
  \<open>cx_pruned\<close> and \<open>cx_repeat_errors\<close> are the attributes \<open>_pruning_done\<close> and
  \<open>_repeat_tool_errors\<close> that the runtime sets on the object.
\<close>

record agent_context =
  cx_agent :: str
  cx_session :: str
  cx_graph :: str
  cx_role :: str
  cx_messages :: "jobj list"
  cx_events :: "agent_event list"
  cx_meta :: jobj
  cx_node :: str
  cx_iter :: int
  cx_max :: int
  cx_artifact_turns :: int
  cx_started :: pyfloat
  cx_finished :: pyfloat
  cx_error :: str
  cx_stop :: str
  cx_plan :: bool
  cx_chain :: int
  cx_vars :: "jobj option"
  cx_tool_configs :: "(str, jobj) dict"
  cx_ckpt_fails :: nat
  cx_persona :: jobj
  cx_pruned :: bool
  cx_repeat_errors :: "(str, nat) dict"

definition new_context :: "str \<Rightarrow> agent_context" where
  "new_context session = \<lparr>
     cx_agent = [], cx_session = session, cx_graph = [], cx_role = ''all'', cx_messages = [],
     cx_events = [], cx_meta = [], cx_node = [], cx_iter = 0, cx_max = 25,
     cx_artifact_turns = 0, cx_started = 0, cx_finished = 0, cx_error = [], cx_stop = [],
     cx_plan = False, cx_chain = 0, cx_vars = None, cx_tool_configs = [], cx_ckpt_fails = 0,
     cx_persona = [], cx_pruned = False, cx_repeat_errors = []\<rparr>"

text \<open>\<open>__post_init__\<close>: a context without a session id gets a fresh one.\<close>

definition context_post_init :: "str \<Rightarrow> agent_context \<Rightarrow> agent_context" where
  "context_post_init uid c = (if cx_session c = [] then c\<lparr>cx_session := uid\<rparr> else c)"

section \<open>Messages and events\<close>

text \<open>The caps, read from the environment: not a number or not positive means no cap.\<close>

definition env_cap :: "str \<Rightarrow> nat" where
  "env_cap raw = (case py_int (py_strip raw) of None \<Rightarrow> 0 | Some i \<Rightarrow> nat i)"

definition is_system :: "jobj \<Rightarrow> bool" where
  "is_system m \<longleftrightarrow> map_of m ''role'' = Some (JStr ''system'')"

definition new_message :: "str \<Rightarrow> str \<Rightarrow> json list \<Rightarrow> str \<Rightarrow> jobj \<Rightarrow> jobj" where
  "new_message role content calls call_id usage =
     [(''role'', JStr role), (''content'', JStr content)]
     @ (if calls = [] then [] else [(''tool_calls'', JList calls)])
     @ (if call_id = [] then [] else [(''tool_call_id'', JStr call_id)])
     @ (if usage = [] then [] else [(''usage'', JObj usage)])"

definition trim_messages :: "nat \<Rightarrow> jobj list \<Rightarrow> jobj list" where
  "trim_messages cap ms =
     (if 0 < cap \<and> cap < length ms
      then let kept = filter is_system ms;
               non_sys = filter (\<lambda>m. \<not> is_system m) ms;
               overflow = length non_sys - (cap - length kept)
           in if 0 < overflow then kept @ drop overflow non_sys else ms
      else ms)"

definition add_message ::
    "nat \<Rightarrow> str \<Rightarrow> str \<Rightarrow> json list \<Rightarrow> str \<Rightarrow> jobj \<Rightarrow> agent_context \<Rightarrow> agent_context" where
  "add_message cap role content calls call_id usage c =
     c\<lparr>cx_messages := trim_messages cap (cx_messages c @ [new_message role content calls call_id usage])\<rparr>"

definition add_event :: "nat \<Rightarrow> agent_event \<Rightarrow> agent_context \<Rightarrow> agent_context" where
  "add_event cap e c =
     (let es = cx_events c @ [e]
      in c\<lparr>cx_events := (if 0 < cap \<and> cap < length es then drop (length es - cap) es else es)\<rparr>)"

definition is_complete :: "agent_context \<Rightarrow> bool" where
  "is_complete c \<longleftrightarrow> cx_finished c \<noteq> 0 \<or> cx_error c \<noteq> []"

definition is_max_iterations_reached :: "agent_context \<Rightarrow> bool" where
  "is_max_iterations_reached c \<longleftrightarrow> cx_max c \<le> cx_iter c"

definition elapsed_seconds :: "pyfloat \<Rightarrow> agent_context \<Rightarrow> pyfloat" where
  "elapsed_seconds now c =
     (if cx_started c = 0 then 0
      else (if cx_finished c = 0 then now else cx_finished c) - cx_started c)"

section \<open>Token accounting\<close>

text \<open>\<open>a + b\<close> on numbers: an int when both are ints (or bools), else a float.\<close>

fun is_integral :: "json \<Rightarrow> bool" where
  "is_integral (JInt _) = True"
| "is_integral (JBool _) = True"
| "is_integral _ = False"

definition py_add :: "json \<Rightarrow> json \<Rightarrow> py_exn + json" where
  "py_add a b =
     (case (as_number a, as_number b) of
        (Some p, Some q) \<Rightarrow>
          Inr (if is_integral a \<and> is_integral b then JInt \<lfloor>p + q\<rfloor> else JFloat (p + q))
      | _ \<Rightarrow> Inl TypeError)"

record usage_sum =
  us_prompt :: json
  us_completion :: json
  us_reasoning :: json

definition reasoning_of :: "jobj \<Rightarrow> json" where
  "reasoning_of u =
     (let flat = jget u ''reasoning_tokens'' (JInt 0)
      in if truthy flat then flat
         else (case as_obj (jget u ''completion_tokens_details'' JNull) of
                 Some details \<Rightarrow> jget details ''reasoning_tokens'' (JInt 0)
               | None \<Rightarrow> JInt 0))"

definition add_usage :: "jobj \<Rightarrow> usage_sum \<Rightarrow> py_exn + usage_sum" where
  "add_usage msg s =
     (case as_obj (jget msg ''usage'' (JObj [])) of
        None \<Rightarrow> Inl AttributeError
      | Some u \<Rightarrow>
          bindE (py_add (us_prompt s) (jget u ''prompt_tokens'' (JInt 0))) (\<lambda>p.
          bindE (py_add (us_completion s) (jget u ''completion_tokens'' (JInt 0))) (\<lambda>c.
          bindE (py_add (us_reasoning s) (reasoning_of u)) (\<lambda>r.
            Inr \<lparr>us_prompt = p, us_completion = c, us_reasoning = r\<rparr>))))"

fun sum_usage :: "jobj list \<Rightarrow> usage_sum \<Rightarrow> py_exn + usage_sum" where
  "sum_usage [] s = Inr s"
| "sum_usage (m # ms) s = bindE (add_usage m s) (sum_usage ms)"

definition token_usage :: "agent_context \<Rightarrow> py_exn + jobj" where
  "token_usage c =
     bindE (sum_usage (cx_messages c) \<lparr>us_prompt = JInt 0, us_completion = JInt 0, us_reasoning = JInt 0\<rparr>)
       (\<lambda>s. bindE (py_add (us_prompt s) (us_completion s)) (\<lambda>total.
          Inr [(''prompt_tokens'', us_prompt s), (''completion_tokens'', us_completion s),
               (''reasoning_tokens'', us_reasoning s), (''total'', total)]))"

section \<open>Serialisation\<close>

definition context_to_dict :: "agent_context \<Rightarrow> jobj" where
  "context_to_dict c =
     [(''agent_id'', JStr (cx_agent c)), (''session_id'', JStr (cx_session c)),
      (''graph_id'', JStr (cx_graph c)), (''messages'', JList (map JObj (cx_messages c))),
      (''events'', JList (map (\<lambda>e. JObj (event_to_dict e)) (cx_events c))),
      (''metadata'', JObj (cx_meta c)), (''current_node_id'', JStr (cx_node c)),
      (''iteration_count'', JInt (cx_iter c)), (''max_iterations'', JInt (cx_max c)),
      (''artifact_turn_count'', JInt (cx_artifact_turns c)),
      (''started_at'', JFloat (cx_started c)), (''finished_at'', JFloat (cx_finished c)),
      (''error'', JStr (cx_error c)), (''stop_reason'', JStr (cx_stop c)),
      (''plan_mode'', JBool (cx_plan c)), (''tool_call_chain_count'', JInt (cx_chain c)),
      (''variables'', JObj (case cx_vars c of None \<Rightarrow> [] | Some vs \<Rightarrow> vs))]"

fun as_bool_strict :: "json \<Rightarrow> bool option" where
  "as_bool_strict (JBool b) = Some b"
| "as_bool_strict _ = None"

text \<open>\<open>from_dict\<close>; None when a field has a type other than the declared one.\<close>

fun events_from :: "pyfloat \<Rightarrow> jobj list \<Rightarrow> (py_exn + agent_event list) option" where
  "events_from now [] = Some (Inr [])"
| "events_from now (d # ds) =
     do {
       r \<leftarrow> event_from_dict now d;
       case r of
         Inl x \<Rightarrow> Some (Inl x)
       | Inr e \<Rightarrow> map_option (\<lambda>rs. bindE rs (\<lambda>es. Inr (e # es))) (events_from now ds)
     }"

definition context_from_dict :: "pyfloat \<Rightarrow> str \<Rightarrow> jobj \<Rightarrow> (py_exn + agent_context) option" where
  "context_from_dict now uid d =
     do {
       eds \<leftarrow> field as_objs d ''events'' [];
       er \<leftarrow> events_from now eds;
       case er of
         Inl x \<Rightarrow> Some (Inl x)
       | Inr es \<Rightarrow>
           do {
             agent \<leftarrow> field as_str d ''agent_id'' [];
             session \<leftarrow> field as_str d ''session_id'' [];
             graph \<leftarrow> field as_str d ''graph_id'' [];
             ms \<leftarrow> field as_objs d ''messages'' [];
             meta \<leftarrow> field as_obj d ''metadata'' [];
             node \<leftarrow> field as_str d ''current_node_id'' [];
             it \<leftarrow> field as_int d ''iteration_count'' 0;
             mx \<leftarrow> field as_int d ''max_iterations'' 25;
             turns \<leftarrow> field as_int d ''artifact_turn_count'' 0;
             started \<leftarrow> field as_num d ''started_at'' 0;
             finished \<leftarrow> field as_num d ''finished_at'' 0;
             error \<leftarrow> field as_str d ''error'' [];
             stop \<leftarrow> field as_str d ''stop_reason'' [];
             plan \<leftarrow> field as_bool_strict d ''plan_mode'' False;
             chain \<leftarrow> field as_int d ''tool_call_chain_count'' 0;
             let vs = jget d ''variables'' (JObj []);
             Some (Inr (context_post_init uid ((new_context session)
               \<lparr>cx_agent := agent, cx_graph := graph, cx_messages := ms, cx_events := es,
                cx_meta := meta, cx_node := node, cx_iter := it, cx_max := mx,
                cx_artifact_turns := turns, cx_started := started, cx_finished := finished,
                cx_error := error, cx_stop := stop, cx_plan := plan, cx_chain := chain,
                cx_vars := (if truthy vs
                            then Some (load_vars (case vs of JObj ob \<Rightarrow> ob | _ \<Rightarrow> []) [])
                            else None)\<rparr>)))
           }
     }"

end
