(* ===== verification/Confirm.thy ===== *)
theory Confirm
  imports AgentContext
begin

text \<open>
  Confirmation policies of \<open>agent_runtime/confirmation_policy.py\<close>: the tiers that decide
  whether an action waits for a human, and the deterministic risk score of a tool call.
\<close>

section \<open>Risk score\<close>

text \<open>
  The destructive patterns are sequences of literal alternatives separated by \<open>\s+\<close>,
  anchored at a word boundary in front and, but for one, at a word boundary behind; their
  first characters are word characters.
\<close>

record risk_pattern =
  rp_tokens :: "str list list"
  rp_closed :: bool

definition destructive_patterns :: "risk_pattern list" where
  "destructive_patterns =
     [\<lparr>rp_tokens = [[''rm''], [''-rf'']], rp_closed = True\<rparr>,
      \<lparr>rp_tokens = [[''drop''], [''table'', ''database'']], rp_closed = True\<rparr>,
      \<lparr>rp_tokens = [[''truncate''], [''table'']], rp_closed = True\<rparr>,
      \<lparr>rp_tokens = [[''mkfs'']], rp_closed = True\<rparr>,
      \<lparr>rp_tokens = [[''dd''], [''if='']], rp_closed = False\<rparr>,
      \<lparr>rp_tokens = [[''git''], [''push''], [''--force'']], rp_closed = True\<rparr>,
      \<lparr>rp_tokens = [[''shutdown'']], rp_closed = True\<rparr>,
      \<lparr>rp_tokens = [[''kill''], [''-9'']], rp_closed = True\<rparr>]"

definition network_hints :: "str list" where
  "network_hints = [''http://'', ''https://'', ''ftp://'', ''ws://'']"

definition write_hints :: "str list" where
  "write_hints = [''write'', ''create'', ''update'', ''delete'', ''remove'', ''exec'', ''terminal'', ''shell'']"

text \<open>The texts that may follow a match of the tokens at the start of \<open>s\<close>.\<close>

definition after_literal :: "str list \<Rightarrow> str \<Rightarrow> str list" where
  "after_literal alts s = map (\<lambda>a. drop (length a) s) (filter (starts_with s) alts)"

definition skip_spaces :: "str \<Rightarrow> str list" where
  "skip_spaces s = (case s of c # _ \<Rightarrow> if is_space c then [dropWhile is_space s] else [] | [] \<Rightarrow> [])"

fun after_tokens :: "str list list \<Rightarrow> str \<Rightarrow> str list" where
  "after_tokens [] s = [s]"
| "after_tokens [alts] s = after_literal alts s"
| "after_tokens (alts # ts) s =
     concat (map (\<lambda>r. concat (map (after_tokens ts) (skip_spaces r))) (after_literal alts s))"

definition word_ends :: "str \<Rightarrow> bool" where
  "word_ends s = (case s of [] \<Rightarrow> True | c # _ \<Rightarrow> \<not> is_word c)"

fun search_pattern :: "risk_pattern \<Rightarrow> bool \<Rightarrow> str \<Rightarrow> bool" where
  "search_pattern p pv [] = False"
| "search_pattern p pv (c # cs) =
     (\<not> pv \<and> (\<exists>r \<in> set (after_tokens (rp_tokens p) (c # cs)). rp_closed p \<longrightarrow> word_ends r)
      \<or> search_pattern p (is_word c) cs)"

fun scalar_text :: "pylib \<Rightarrow> json \<Rightarrow> str list" where
  "scalar_text pl (JStr s) = [s]"
| "scalar_text pl (JInt i) = [py_str pl (JInt i)]"
| "scalar_text pl (JFloat q) = [py_str pl (JFloat q)]"
| "scalar_text pl (JBool b) = [py_str pl (JBool b)]"
| "scalar_text pl _ = []"

definition params_text :: "pylib \<Rightarrow> jobj \<Rightarrow> str" where
  "params_text pl params = py_join '' '' (concat (map (scalar_text pl \<circ> snd) params))"

definition destructive :: "str \<Rightarrow> bool" where
  "destructive s \<longleftrightarrow> (\<exists>p \<in> set destructive_patterns. search_pattern p False s)"

definition score_tool_risk :: "pylib \<Rightarrow> str \<Rightarrow> jobj \<Rightarrow> bool option \<Rightarrow> pyfloat" where
  "score_tool_risk pl tool params readonly =
     (let text = params_text pl params in
      if destructive (py_lower (tool @ '' '' @ text)) then 9 / 10
      else if \<exists>h \<in> set network_hints. py_contains h text then 6 / 10
      else if readonly = Some True then 0
      else if \<exists>h \<in> set write_hints. py_contains h (py_lower tool) then 3 / 10
      else if readonly = Some False then 3 / 10
      else 0)"

section \<open>Policies\<close>

definition tiers :: "str list" where
  "tiers = [''always'', ''never'', ''risk'']"

record confirmation_policy =
  cp_tier :: str
  cp_threshold :: pyfloat
  cp_overrides :: "(str, str) dict"

definition policy_ok :: "confirmation_policy \<Rightarrow> bool" where
  "policy_ok p \<longleftrightarrow> cp_tier p \<in> set tiers \<and> (\<forall>(tool, t) \<in> set (cp_overrides p). t \<in> set tiers)"

text \<open>The constructor with its \<open>__post_init__\<close>.\<close>

definition new_policy :: "str \<Rightarrow> pyfloat \<Rightarrow> (str, str) dict \<Rightarrow> py_exn + confirmation_policy" where
  "new_policy t th ov =
     (let p = \<lparr>cp_tier = t, cp_threshold = th, cp_overrides = ov\<rparr>
      in if policy_ok p then Inr p else Inl ValueError)"

definition policy_to_dict :: "confirmation_policy \<Rightarrow> jobj" where
  "policy_to_dict p =
     [(''tier'', JStr (cp_tier p)), (''risk_threshold'', JFloat (cp_threshold p)),
      (''tool_overrides'', JObj (map (\<lambda>(k, v). (k, JStr v)) (cp_overrides p)))]"

text \<open>
  \<open>from_dict\<close>: a falsy value, a value that is no dict, and a dict that the constructor
  rejects all give None; overrides that are no dict make \<open>items()\<close> raise.
\<close>

definition policy_from_dict :: "pylib \<Rightarrow> json \<Rightarrow> py_exn + confirmation_policy option" where
  "policy_from_dict pl data =
     (case data of
        JObj d \<Rightarrow>
          (if d = [] then Inr None
           else case py_to_float pl (jget d ''risk_threshold'' (JFloat (1 / 2))) of
             Inl _ \<Rightarrow> Inr None
           | Inr th \<Rightarrow>
               (let ov = jget d ''tool_overrides'' JNull in
                case (if truthy ov then ov else JObj []) of
                  JObj o' \<Rightarrow>
                    (case new_policy (py_str pl (jget d ''tier'' (JStr ''risk''))) th
                            (map (\<lambda>(k, v). (k, py_str pl v)) o') of
                       Inl _ \<Rightarrow> Inr None
                     | Inr p \<Rightarrow> Inr (Some p))
                | _ \<Rightarrow> Inl AttributeError))
      | _ \<Rightarrow> Inr None)"

definition effective_tier :: "confirmation_policy \<Rightarrow> str \<Rightarrow> str" where
  "effective_tier p tool =
     (if tool = [] then cp_tier p else dict_get (cp_overrides p) tool (cp_tier p))"

datatype decision = Confirm | Auto

definition decide :: "confirmation_policy \<Rightarrow> bool \<Rightarrow> pyfloat \<Rightarrow> str \<Rightarrow> decision \<times> str \<times> pyfloat" where
  "decide p requires risk tool =
     (let t = effective_tier p tool in
      if t = ''always'' then (Confirm, t, risk)
      else if t = ''never'' then (Auto, t, risk)
      else if cp_threshold p \<le> risk then (Confirm, t, risk)
      else (Auto, t, risk))"

definition policy_from_ctx :: "pylib \<Rightarrow> agent_context \<Rightarrow> py_exn + confirmation_policy option" where
  "policy_from_ctx pl c = policy_from_dict pl (jget (cx_meta c) ''confirmation_policy'' JNull)"

section \<open>Properties\<close>

lemma policy_dict_roundtrip:
  "policy_ok p \<Longrightarrow> policy_from_dict pl (JObj (policy_to_dict p)) = Inr (Some p)"
  by (cases p; cases "cp_overrides p")
    (auto simp: policy_from_dict_def policy_to_dict_def new_policy_def comp_def split_def)

lemma effective_tier_in: "policy_ok p \<Longrightarrow> effective_tier p tool \<in> set tiers"
  by (auto simp: effective_tier_def policy_ok_def dict_get_def split: option.split dest: map_of_SomeD)

lemma score_bands: "score_tool_risk pl tool params ro \<in> {0, 3 / 10, 6 / 10, 9 / 10}"
  by (simp add: score_tool_risk_def Let_def)

lemma destructive_score:
  "destructive (py_lower (tool @ '' '' @ params_text pl params)) \<longleftrightarrow> score_tool_risk pl tool params ro = 9 / 10"
  by (auto simp: score_tool_risk_def Let_def)

text \<open>
  What a policy decides: a tool with the override (or, without one, a policy with the tier)
  \<open>always\<close> confirms, \<open>never\<close> runs, and otherwise exactly the calls whose score reaches the
  threshold confirm; a call whose text matches a destructive pattern has the top score, so
  that no threshold up to 0.9 lets it run unconfirmed.
\<close>

theorem policy_decides:
  "policy_ok p \<Longrightarrow>
    (fst (decide p requires (score_tool_risk pl tool params ro) tool) = Confirm \<longleftrightarrow>
      effective_tier p tool = ''always''
      \<or> effective_tier p tool = ''risk'' \<and> cp_threshold p \<le> score_tool_risk pl tool params ro)
    \<and> (destructive (py_lower (tool @ '' '' @ params_text pl params)) \<and> cp_threshold p \<le> 9 / 10
        \<and> effective_tier p tool \<noteq> ''never''
      \<longrightarrow> fst (decide p requires (score_tool_risk pl tool params ro) tool) = Confirm)"
  using effective_tier_in [of p tool] destructive_score [of tool pl params ro]
  by (auto simp: decide_def Let_def tiers_def)

theorem policy_decides_witness:
  "fst (decide \<lparr>cp_tier = ''risk'', cp_threshold = 1 / 2, cp_overrides = []\<rparr> False
      (score_tool_risk \<lparr>pl_repr = (\<lambda>_. []), pl_float = (\<lambda>_. None), pl_loads = (\<lambda>_. None)\<rparr>
        ''terminal'' [(''command'', JStr ''sudo rm  -rf /'')] None) ''terminal'') = Confirm"
  by (rule policy_decides [THEN conjunct2, THEN mp])
    (simp_all add: policy_ok_def tiers_def effective_tier_def dict_get_def
      params_text_def destructive_def destructive_patterns_def py_lower_def lower_char_def
      starts_with_def after_literal_def skip_spaces_def is_space_def is_word_def word_ends_def)

end
