(* ===== verification/Generators.thy ===== *)
theory Generators
  imports AgentContext
begin

text \<open>
  Asynchronous generators. A generator yields values, may return or raise, and changes the
  state while it runs; its consumer may stop iterating after a value, and then the rest of
  its body does not run. A run of a generator from a state is therefore the list of the
  values it yields, each with the state at that point, and how it ends.
\<close>

section \<open>Runs\<close>

datatype 's ending = Returned 's | Raised py_exn 's

fun end_state :: "'s ending \<Rightarrow> 's" where
  "end_state (Returned s) = s"
| "end_state (Raised e s) = s"

type_synonym ('e, 's) gen = "('e \<times> 's) list \<times> 's ending"

definition gen_return :: "'s \<Rightarrow> ('e, 's) gen" where
  "gen_return s = ([], Returned s)"

definition gen_raise :: "py_exn \<Rightarrow> 's \<Rightarrow> ('e, 's) gen" where
  "gen_raise x s = ([], Raised x s)"

definition gen_yield :: "'e \<Rightarrow> 's \<Rightarrow> ('e, 's) gen" where
  "gen_yield e s = ([(e, s)], Returned s)"

text \<open>Sequential composition: the second part runs when the first has returned.\<close>

definition gen_then :: "('e, 's) gen \<Rightarrow> ('s \<Rightarrow> ('e, 's) gen) \<Rightarrow> ('e, 's) gen" where
  "gen_then g k =
     (case snd g of
        Returned s \<Rightarrow> (fst g @ fst (k s), snd (k s))
      | Raised x s \<Rightarrow> g)"

text \<open>\<open>x = f(...)\<close> where the call may raise.\<close>

definition gen_try :: "py_exn + 'a \<Rightarrow> 's \<Rightarrow> ('a \<Rightarrow> ('e, 's) gen) \<Rightarrow> ('e, 's) gen" where
  "gen_try m s k = (case m of Inl x \<Rightarrow> gen_raise x s | Inr v \<Rightarrow> k v)"

text \<open>A generator that passes on the values of another, changed by \<open>f\<close>, in the frame \<open>h\<close>.\<close>

fun map_ending :: "('s \<Rightarrow> 't) \<Rightarrow> 's ending \<Rightarrow> 't ending" where
  "map_ending h (Returned s) = Returned (h s)"
| "map_ending h (Raised x s) = Raised x (h s)"

definition gen_map :: "('e \<Rightarrow> 'f) \<Rightarrow> ('s \<Rightarrow> 't) \<Rightarrow> ('e, 's) gen \<Rightarrow> ('f, 't) gen" where
  "gen_map f h g = (map (\<lambda>(e, s). (f e, h s)) (fst g), map_ending h (snd g))"

text \<open>
  A generator that passes on the values of another one, whose state is a part of its own,
  and continues when it is exhausted.
\<close>

definition gen_call ::
    "('f \<Rightarrow> 't \<Rightarrow> 'e) \<Rightarrow> ('t \<Rightarrow> 's) \<Rightarrow> ('f, 't) gen \<Rightarrow> ('t \<Rightarrow> ('e, 's) gen) \<Rightarrow> ('e, 's) gen" where
  "gen_call f h g k =
     (let out = map (\<lambda>(e, t). (f e t, h t)) (fst g)
      in case snd g of
           Returned t \<Rightarrow> (out @ fst (k t), snd (k t))
         | Raised x t \<Rightarrow> (out, Raised x (h t)))"

text \<open>
  \<open>async for e in g: yield e; if stop(e): return\<close>. The consumer passes on the values up to
  the first one that stops it, and abandons the generator in the state of that value.
\<close>

datatype 's drive_end = Abandoned 's | Exhausted 's | Failed py_exn 's

fun take_until :: "('e \<Rightarrow> bool) \<Rightarrow> ('e \<times> 's) list \<Rightarrow> ('e \<times> 's) list \<times> 's option" where
  "take_until stop [] = ([], None)"
| "take_until stop ((e, s) # es) =
     (if stop e then ([(e, s)], Some s)
      else let (ys, r) = take_until stop es in ((e, s) # ys, r))"

definition drive :: "('e \<Rightarrow> bool) \<Rightarrow> ('e, 's) gen \<Rightarrow> ('e \<times> 's) list \<times> 's drive_end" where
  "drive stop g =
     (let (ys, r) = take_until stop (fst g)
      in (ys, case r of
                Some s \<Rightarrow> Abandoned s
              | None \<Rightarrow> (case snd g of Returned s \<Rightarrow> Exhausted s | Raised x s \<Rightarrow> Failed x s)))"

fun drive_state :: "'s drive_end \<Rightarrow> 's" where
  "drive_state (Abandoned s) = s"
| "drive_state (Exhausted s) = s"
| "drive_state (Failed x s) = s"

text \<open>The same consumer followed by more code: after a stop it returns.\<close>

definition drive_then ::
    "('e \<Rightarrow> bool) \<Rightarrow> ('e, 's) gen \<Rightarrow> ('s \<Rightarrow> ('e, 's) gen) \<Rightarrow> ('e, 's) gen" where
  "drive_then stop g k =
     (case drive stop g of
        (ys, Abandoned s) \<Rightarrow> (ys, Returned s)
      | (ys, Failed x s) \<Rightarrow> (ys, Raised x s)
      | (ys, Exhausted s) \<Rightarrow> (ys @ fst (k s), snd (k s)))"

section \<open>Invariants of runs\<close>

text \<open>A property of the state that holds at every value and at the end.\<close>

definition gen_inv :: "('s \<Rightarrow> bool) \<Rightarrow> ('e, 's) gen \<Rightarrow> bool" where
  "gen_inv P g \<longleftrightarrow> (\<forall>(e, s) \<in> set (fst g). P s) \<and> P (end_state (snd g))"

lemma gen_inv_const [simp]: "gen_inv (\<lambda>_. c) g \<longleftrightarrow> c"
  by (auto simp: gen_inv_def)

named_theorems gen_intros \<open>introduction rules for invariants of generator runs\<close>

lemma gen_inv_return [gen_intros]: "P s \<Longrightarrow> gen_inv P (gen_return s)"
  by (simp add: gen_inv_def gen_return_def)

lemma gen_inv_raise [gen_intros]: "P s \<Longrightarrow> gen_inv P (gen_raise x s)"
  by (simp add: gen_inv_def gen_raise_def)

lemma gen_inv_yield [gen_intros]: "P s \<Longrightarrow> gen_inv P (gen_yield e s)"
  by (simp add: gen_inv_def gen_yield_def)

lemma gen_inv_then [gen_intros]:
  "gen_inv P g \<Longrightarrow> (\<And>s. P s \<Longrightarrow> gen_inv P (k s)) \<Longrightarrow> gen_inv P (gen_then g k)"
  unfolding gen_inv_def gen_then_def by (cases "snd g") fastforce+

lemma gen_inv_try [gen_intros]:
  "P s \<Longrightarrow> (\<And>v. m = Inr v \<Longrightarrow> gen_inv P (k v)) \<Longrightarrow> gen_inv P (gen_try m s k)"
  by (auto simp: gen_try_def intro: gen_inv_raise split: sum.split)

lemma end_state_map [simp]: "end_state (map_ending h x) = h (end_state x)"
  by (cases x) simp_all

lemma gen_inv_map [gen_intros]: "gen_inv (\<lambda>s. P (h s)) g \<Longrightarrow> gen_inv P (gen_map f h g)"
  by (auto simp: gen_inv_def gen_map_def)

lemma gen_inv_call [gen_intros]:
  "gen_inv (\<lambda>t. P (h t)) g \<Longrightarrow> (\<And>t. P (h t) \<Longrightarrow> gen_inv P (k t)) \<Longrightarrow> gen_inv P (gen_call f h g k)"
  unfolding gen_inv_def gen_call_def Let_def by (cases "snd g") fastforce+

lemma take_until_facts:
  "take_until stop es = (ys, r) \<Longrightarrow>
    set ys \<subseteq> set es \<and> (\<forall>s. r = Some s \<longrightarrow> (\<exists>e. (e, s) \<in> set es \<and> stop e \<and> last ys = (e, s) \<and> ys \<noteq> []))
    \<and> (r = None \<longrightarrow> ys = es \<and> (\<forall>(e, s) \<in> set es. \<not> stop e))"
proof (induction es arbitrary: ys r)
  case Nil
  then show ?case by simp
next
  case (Cons x es)
  obtain e s where x: "x = (e, s)" by (cases x)
  obtain ys' r' where t: "take_until stop es = (ys', r')" by (cases "take_until stop es")
  show ?case using Cons.prems Cons.IH [OF t] by (auto simp: x t split: if_splits)
qed

lemma drive_inv:
  "gen_inv P g \<Longrightarrow> drive stop g = (ys, d) \<Longrightarrow> (\<forall>(e, s) \<in> set ys. P s) \<and> P (drive_state d)"
proof -
  assume inv: "gen_inv P g" and d: "drive stop g = (ys, d)"
  obtain r where t: "take_until stop (fst g) = (ys, r)"
    using d by (auto simp: drive_def split: prod.splits)
  note f = take_until_facts [OF t]
  show ?thesis
    using d f inv by (auto simp: drive_def t gen_inv_def split: option.splits ending.splits)
qed

lemma gen_inv_drive_then [gen_intros]:
  "gen_inv P g \<Longrightarrow> (\<And>s. P s \<Longrightarrow> gen_inv P (k s)) \<Longrightarrow> gen_inv P (drive_then stop g k)"
proof -
  assume g: "gen_inv P g" and k: "\<And>s. P s \<Longrightarrow> gen_inv P (k s)"
  obtain ys d where d: "drive stop g = (ys, d)" by (cases "drive stop g")
  from drive_inv [OF g d] k show ?thesis
    by (cases d) (auto simp: drive_then_def d gen_inv_def)
qed

lemma gen_inv_if [gen_intros]:
  "(c \<Longrightarrow> gen_inv P g) \<Longrightarrow> (\<not> c \<Longrightarrow> gen_inv P h) \<Longrightarrow> gen_inv P (if c then g else h)"
  by simp

lemma gen_inv_conj: "gen_inv (\<lambda>s. P s \<and> Q s) g \<longleftrightarrow> gen_inv P g \<and> gen_inv Q g"
  by (auto simp: gen_inv_def)

lemma gen_inv_drive_then2:
  "gen_inv R g \<Longrightarrow> (\<And>s. R s \<Longrightarrow> P s) \<Longrightarrow> (\<And>s. R s \<Longrightarrow> gen_inv P (k s)) \<Longrightarrow> gen_inv P (drive_then stop g k)"
proof -
  assume g: "gen_inv R g" and m: "\<And>s. R s \<Longrightarrow> P s" and k: "\<And>s. R s \<Longrightarrow> gen_inv P (k s)"
  obtain ys d where d: "drive stop g = (ys, d)" by (cases "drive stop g")
  from drive_inv [OF g d] k show ?thesis
    by (cases d) (auto simp: drive_then_def d gen_inv_def intro: m)
qed

lemma gen_inv_mono: "gen_inv P g \<Longrightarrow> (\<And>s. P s \<Longrightarrow> Q s) \<Longrightarrow> gen_inv Q g"
  by (auto simp: gen_inv_def)

end
