(* ===== verification/Conditions.thy ===== *)
theory Conditions
  imports AgentContext
begin

text \<open>
  The condition language of \<open>agent_runtime/_runtime_helpers.py\<close> (\<open>ConditionEngine\<close>),
  which routes a run through the edges of a graph. The engine works on the text of an
  expression with regular expressions; each pattern is a function here that follows the
  leftmost match. An expression that contains the word \<open>or\<close> is split and its parts are
  evaluated recursively: the first argument of \<open>evaluate_expr\<close> bounds the recursion depth, as
  Python's recursion limit does, and \<open>RecursionLimit\<close> is the error when it is exhausted.
\<close>

section \<open>Patterns\<close>

text \<open>\<open>re.search(r"\b<w>\b", s)\<close>; the first argument says whether a word character precedes.\<close>

fun contains_word :: "bool \<Rightarrow> str \<Rightarrow> str \<Rightarrow> bool" where
  "contains_word p w [] = False"
| "contains_word p w (c # cs) =
     (\<not> p \<and> starts_with (c # cs) w
        \<and> (case drop (length w) (c # cs) of [] \<Rightarrow> True | d # _ \<Rightarrow> \<not> is_word d)
      \<or> contains_word (is_word c) w cs)"

text \<open>\<open>re.split(r"\s+<w>\s+", s, flags=re.IGNORECASE)\<close>.\<close>

definition spaced :: "str \<Rightarrow> bool" where
  "spaced s = (case s of [] \<Rightarrow> False | c # _ \<Rightarrow> is_space c)"

definition match_sep :: "str \<Rightarrow> str \<Rightarrow> str option" where
  "match_sep w s =
     (let r = dropWhile is_space s; r' = drop (length w) r
      in if spaced s \<and> py_lower (take (length w) r) = w \<and> spaced r'
         then Some (dropWhile is_space r') else None)"

lemma match_sep_shorter: "match_sep w s = Some r \<Longrightarrow> length r < length s"
proof -
  assume m: "match_sep w s = Some r"
  let ?d = "dropWhile is_space s"
  have r: "r = dropWhile is_space (drop (length w) ?d)" and sp: "spaced s"
    using m by (auto simp: match_sep_def Let_def split: if_splits)
  have "length r \<le> length ?d" using r length_dropWhile_le [of is_space "drop (length w) ?d"] by simp
  also have "length ?d < length s"
  proof (cases s)
    case Nil
    then show ?thesis using sp by (simp add: spaced_def)
  next
    case (Cons c cs)
    then show ?thesis using sp length_dropWhile_le [of is_space cs] by (simp add: spaced_def)
  qed
  finally show ?thesis .
qed

function split_word :: "str \<Rightarrow> str \<Rightarrow> str list" where
  "split_word w s =
     (case match_sep w s of
        Some r \<Rightarrow> [] # split_word w r
      | None \<Rightarrow>
          (case s of
             [] \<Rightarrow> [[]]
           | c # cs \<Rightarrow> (case split_word w cs of [] \<Rightarrow> [[c]] | p # ps \<Rightarrow> (c # p) # ps)))"
  by pat_completeness auto
termination
  by (relation "measure (\<lambda>(_, s). length s)") (auto simp: match_sep_shorter)

declare split_word.simps [simp del]

text \<open>\<open>re.match(r"(\w+)\s*(>=|<=|!=|==|>|<)\s*(.+)", s)\<close>: name, operator, stripped rest of line.\<close>

definition operators :: "(str \<times> cmp_op) list" where
  "operators = [(''>='', OpGe), (''<='', OpLe), (''!='', OpNe), (''=='', OpEq), (''>'', OpGt), (''<'', OpLt)]"

definition first_line :: "str \<Rightarrow> str" where
  "first_line s = takeWhile (\<lambda>c. c \<noteq> CHR 0x0A) s"

fun match_operator :: "(str \<times> cmp_op) list \<Rightarrow> str \<Rightarrow> (cmp_op \<times> str) option" where
  "match_operator [] s = None"
| "match_operator ((t, op) # ops) s =
     (let right = first_line (dropWhile is_space (drop (length t) s))
      in if starts_with s t \<and> right \<noteq> [] then Some (op, py_strip right)
         else match_operator ops s)"

definition match_comparison :: "str \<Rightarrow> (str \<times> cmp_op \<times> str) option" where
  "match_comparison s =
     (let name = takeWhile is_word s
      in if name = [] then None
         else map_option (\<lambda>(op, right). (name, op, right))
                (match_operator operators (dropWhile is_space (dropWhile is_word s))))"

text \<open>A quoted text (no newline, shortest match), then the word \<open>in\<close> and a name.\<close>

definition quote_char :: "char \<Rightarrow> bool" where
  "quote_char c \<longleftrightarrow> c = CHR 0x22 \<or> c = CHR 0x27"

definition needle_tail :: "str \<Rightarrow> str option" where
  "needle_tail s = (case s of
     [] \<Rightarrow> None
   | q # r \<Rightarrow>
       (let r' = dropWhile is_space r; r'' = drop 2 r';
            name = takeWhile is_word (dropWhile is_space r'')
        in if quote_char q \<and> spaced r \<and> starts_with r' ''in'' \<and> spaced r'' \<and> name \<noteq> []
           then Some name else None))"

fun needle_scan :: "str \<Rightarrow> (str \<times> str) option" where
  "needle_scan [] = None"
| "needle_scan (c # cs) =
     (if c = CHR 0x0A then None
      else case needle_tail cs of
             Some name \<Rightarrow> Some ([c], name)
           | None \<Rightarrow> map_option (\<lambda>(b, n). (c # b, n)) (needle_scan cs))"

definition match_in :: "str \<Rightarrow> (str \<times> str) option" where
  "match_in s = (case s of [] \<Rightarrow> None | q # r \<Rightarrow> if quote_char q then needle_scan r else None)"

section \<open>Values\<close>

definition usage_key :: "agent_context \<Rightarrow> str \<Rightarrow> py_exn + json" where
  "usage_key c k = bindE (token_usage c) (\<lambda>u. Inr (jget u k (JInt 0)))"

definition resolve_value :: "str \<Rightarrow> agent_context \<Rightarrow> jobj \<Rightarrow> py_exn + json" where
  "resolve_value name c vs =
     (if name = ''iteration'' then Inr (JInt (cx_iter c))
      else if name = ''token_count'' then usage_key c ''total''
      else if name = ''prompt_tokens'' then usage_key c ''prompt_tokens''
      else if name = ''completion_tokens'' then usage_key c ''completion_tokens''
      else if name = ''message_count'' then Inr (JInt (int (length (cx_messages c))))
      else if name = ''error'' then Inr (JStr (cx_error c))
      else case get_var vs name JNull of JNull \<Rightarrow> Inr (JInt 0) | v \<Rightarrow> Inr v)"

definition ends_with :: "str \<Rightarrow> str \<Rightarrow> bool" where
  "ends_with s p \<longleftrightarrow> starts_with (rev s) (rev p)"

definition resolve_literal :: "pylib \<Rightarrow> str \<Rightarrow> jobj \<Rightarrow> json" where
  "resolve_literal pl raw0 vs =
     (let raw = py_strip raw0; low = py_lower raw
      in if starts_with raw ''{{'' \<and> ends_with raw ''}}''
         then get_var vs (py_strip (take (length raw - 4) (drop 2 raw))) (JInt 0)
         else if starts_with raw [CHR 0x22] \<or> starts_with raw [CHR 0x27] then JStr (butlast (tl raw))
         else if low = ''true'' then JBool True
         else if low = ''false'' then JBool False
         else case py_int raw of
                Some i \<Rightarrow> JInt i
              | None \<Rightarrow> (case pl_float pl raw of Some q \<Rightarrow> JFloat q | None \<Rightarrow> JStr raw))"

text \<open>\<open>float(s) if "." in s else int(s)\<close>, the string itself on ValueError.\<close>

definition number_text :: "pylib \<Rightarrow> str \<Rightarrow> json" where
  "number_text pl s =
     (if CHR ''.'' \<in> set s
      then (case pl_float pl (py_strip s) of Some q \<Rightarrow> JFloat q | None \<Rightarrow> JStr s)
      else (case py_int (py_strip s) of Some i \<Rightarrow> JInt i | None \<Rightarrow> JStr s))"

definition bool_text :: "str \<Rightarrow> json" where
  "bool_text s =
     (let l = py_lower (py_strip s)
      in if l = ''true'' then JBool True else if l = ''false'' then JBool False else JStr s)"

fun coerce_pair :: "pylib \<Rightarrow> json \<Rightarrow> json \<Rightarrow> json \<times> json" where
  "coerce_pair pl (JBool a) (JStr s) = (JBool a, bool_text s)"
| "coerce_pair pl (JStr s) (JBool b) = (bool_text s, JBool b)"
| "coerce_pair pl (JInt i) (JStr s) = (JInt i, number_text pl s)"
| "coerce_pair pl (JFloat q) (JStr s) = (JFloat q, number_text pl s)"
| "coerce_pair pl (JStr s) (JInt i) = (number_text pl s, JInt i)"
| "coerce_pair pl (JStr s) (JFloat q) = (number_text pl s, JFloat q)"
| "coerce_pair pl v w = (v, w)"

definition truth_text :: "bool \<Rightarrow> str" where
  "truth_text b = (if b then ''true'' else ''false'')"

text \<open>\<open>_compare\<close>: a TypeError of the comparison counts as false.\<close>

definition compare_values :: "pylib \<Rightarrow> json \<Rightarrow> cmp_op \<Rightarrow> json \<Rightarrow> str" where
  "compare_values pl l op r =
     (let (v, w) = coerce_pair pl l r
      in case py_compare op v w of Inl _ \<Rightarrow> ''false'' | Inr b \<Rightarrow> truth_text b)"

section \<open>Evaluation\<close>

datatype eval_error = EvalRaised py_exn | RecursionLimit

text \<open>\<open>any(self.evaluate(p) == "true" for p in parts)\<close> and \<open>all(...)\<close>, which stop early.\<close>

fun any_true :: "('a \<Rightarrow> eval_error + str) \<Rightarrow> 'a list \<Rightarrow> eval_error + str" where
  "any_true f [] = Inr ''false''"
| "any_true f (x # xs) = bindE (f x) (\<lambda>r. if r = ''true'' then Inr ''true'' else any_true f xs)"

fun all_true :: "('a \<Rightarrow> eval_error + str) \<Rightarrow> 'a list \<Rightarrow> eval_error + str" where
  "all_true f [] = Inr ''true''"
| "all_true f (x # xs) = bindE (f x) (\<lambda>r. if r = ''true'' then all_true f xs else Inr ''false'')"

definition lift_exn :: "py_exn + 'a \<Rightarrow> eval_error + 'a" where
  "lift_exn m = (case m of Inl e \<Rightarrow> Inl (EvalRaised e) | Inr x \<Rightarrow> Inr x)"

text \<open>The atomic conditions, after the connectives have been dealt with.\<close>

definition eval_atom :: "pylib \<Rightarrow> agent_context \<Rightarrow> jobj \<Rightarrow> str \<Rightarrow> eval_error + str" where
  "eval_atom pl c vs e =
     (let low = py_lower e in
      if low = ''has_tool_calls'' then
        Inr (truth_text (\<exists>m \<in> set (cx_messages c). truthy (jget m ''tool_calls'' JNull)))
      else if low = ''has_error'' then Inr (truth_text (cx_error c \<noteq> []))
      else if low = ''has_result'' then
        Inr (truth_text (\<exists>m \<in> set (cx_messages c). map_of m ''role'' = Some (JStr ''tool'')))
      else case match_comparison e of
        Some (name, op, right) \<Rightarrow>
          lift_exn (bindE (resolve_value name c vs) (\<lambda>v.
            Inr (compare_values pl v op (resolve_literal pl right vs))))
      | None \<Rightarrow>
          (case match_in e of
             Some (needle, name) \<Rightarrow>
               lift_exn (bindE (resolve_value name c vs) (\<lambda>v.
                 Inr (truth_text (py_contains needle (py_str pl v)))))
           | None \<Rightarrow> Inr (truth_text (truthy (get_var vs e (JStr []))))))"

definition eval_step ::
    "(str \<Rightarrow> eval_error + str) \<Rightarrow> pylib \<Rightarrow> agent_context \<Rightarrow> jobj \<Rightarrow> str \<Rightarrow> eval_error + str" where
  "eval_step ev pl c vs expr =
     (let e = py_strip expr; low = py_lower e in
      if e = [] then Inr ''false''
      else if low = ''true'' then Inr ''true''
      else if low = ''false'' then Inr ''false''
      else if contains_word False ''or'' low then any_true ev (split_word ''or'' e)
      else if contains_word False ''and'' low then all_true ev (split_word ''and'' e)
      else if starts_with low ''not '' then
        bindE (ev (drop 4 e)) (\<lambda>r. Inr (truth_text (r \<noteq> ''true'')))
      else eval_atom pl c vs e)"

primrec evaluate_expr ::
    "nat \<Rightarrow> pylib \<Rightarrow> agent_context \<Rightarrow> jobj \<Rightarrow> str \<Rightarrow> eval_error + str" where
  "evaluate_expr 0 pl c vs expr = Inl RecursionLimit"
| "evaluate_expr (Suc n) pl c vs expr = eval_step (evaluate_expr n pl c vs) pl c vs expr"

end
