(* ===== verification/RuntimeBase.thy ===== *)
theory RuntimeBase
  imports Generators Conditions Confirm GraphValidate TokenBudget
begin

text \<open>
  The state of a graph execution and the parts of the engine that its node handlers share:
  \<open>agent_runtime/runtime.py\<close> (\<open>AgentRuntime\<close>), \<open>_runtime_checkpoint.py\<close> (saving)
  and \<open>_runtime_safety.py\<close> (approval).

  What the engine calls outside of the code modelled here is a field of \<open>runtime\<close> that
  threads an arbitrary world \<open>'w\<close>: the clock, identifiers, hooks, the memory engine, the
  agent store, the tools, the admission funnel (another package), the humans who answer, and
  the handlers of the llm, rag, planner, verify and acp nodes. Text fields of node
  configurations and parameters are strings, and parameters are objects; a value of another
  type reads as empty, where the code would carry it along.
\<close>

section \<open>State\<close>

text \<open>
  The budget passed to the run, and the default budget of the runtime, which the runtimes of
  nested runs share.
\<close>

record 'w run_state =
  rs_ctx :: agent_context
  rs_own_budget :: "token_budget option"
  rs_default_budget :: "token_budget option"
  rs_world :: 'w

definition upd_ctx :: "(agent_context \<Rightarrow> agent_context) \<Rightarrow> 'w run_state \<Rightarrow> 'w run_state" where
  "upd_ctx f s = s\<lparr>rs_ctx := f (rs_ctx s)\<rparr>"

definition upd_world :: "('w \<Rightarrow> 'w) \<Rightarrow> 'w run_state \<Rightarrow> 'w run_state" where
  "upd_world f s = s\<lparr>rs_world := f (rs_world s)\<rparr>"

text \<open>\<open>if token_budget is None: token_budget = self._default_token_budget\<close>.\<close>

definition run_budget :: "'w run_state \<Rightarrow> token_budget option" where
  "run_budget s = (case rs_own_budget s of Some b \<Rightarrow> Some b | None \<Rightarrow> rs_default_budget s)"

definition set_budget :: "token_budget \<Rightarrow> 'w run_state \<Rightarrow> 'w run_state" where
  "set_budget b s =
     (case rs_own_budget s of
        Some _ \<Rightarrow> s\<lparr>rs_own_budget := Some b\<rparr>
      | None \<Rightarrow> s\<lparr>rs_default_budget := Some b\<rparr>)"

section \<open>The engine and what it calls\<close>

record admission =
  ad_allowed :: bool
  ad_needs_approval :: bool
  ad_reason :: str
  ad_blocked_by :: str
  ad_args :: jobj

record approval_verdict =
  vd_requires :: bool
  vd_reason :: str
  vd_action_id :: str
  vd_level :: "str option"
  vd_diff :: json

datatype tool_outcome = ToolKeyError | ToolRaised str | ToolReturned json

datatype approval_answer = UserApproved | UserRejected | NoAnswer

type_synonym 'w run_gen = "(agent_event, 'w run_state) gen"

record 'w memory =
  mem_recall :: "str \<Rightarrow> 'w \<Rightarrow> str \<times> 'w"
  mem_classify :: "str \<Rightarrow> str"
  mem_store :: "str \<Rightarrow> str \<Rightarrow> nat \<Rightarrow> jobj \<Rightarrow> str \<Rightarrow> 'w \<Rightarrow> 'w"

record 'w agent_store =
  st_save :: "str \<Rightarrow> str \<Rightarrow> str \<Rightarrow> jobj \<Rightarrow> 'w \<Rightarrow> bool \<times> 'w"
  st_latest :: "str \<Rightarrow> str \<Rightarrow> 'w \<Rightarrow> (str \<times> str) option"
  st_graph :: "str \<Rightarrow> 'w \<Rightarrow> agent_graph option"

text \<open>
  The admission funnel and the node handlers that are arguments. \<open>rt_fresh_nodes\<close> are those
  of a newly constructed runtime, with its own funnels, permission rules and templates.
  \<open>ns_assertion\<close> is the function \<open>post_action_assertion_fn\<close> registered on the runtime, if any; it
  gives the text of an exception or a verdict.
\<close>

record 'w node_services =
  ns_admit :: "agent_context \<Rightarrow> str \<Rightarrow> jobj \<Rightarrow> str \<Rightarrow> bool \<Rightarrow> 'w \<Rightarrow> (admission \<times> approval_verdict option \<times> approval_verdict option) \<times> 'w"
  ns_llm :: "node_config \<Rightarrow> agent_graph \<Rightarrow> str \<Rightarrow> str \<Rightarrow> 'w run_state \<Rightarrow> 'w run_gen"
  ns_rag :: "node_config \<Rightarrow> agent_graph \<Rightarrow> str \<Rightarrow> str \<Rightarrow> 'w run_state \<Rightarrow> 'w run_gen"
  ns_planner :: "node_config \<Rightarrow> agent_graph \<Rightarrow> 'w run_state \<Rightarrow> 'w run_gen"
  ns_verify :: "node_config \<Rightarrow> agent_graph \<Rightarrow> 'w run_state \<Rightarrow> 'w run_gen"
  ns_acp :: "node_config \<Rightarrow> agent_graph \<Rightarrow> 'w run_state \<Rightarrow> 'w run_gen"
  ns_assertion :: "(agent_context \<Rightarrow> node_config \<Rightarrow> json \<Rightarrow> str \<Rightarrow> int \<Rightarrow> int \<Rightarrow> 'w \<Rightarrow> (str + str) \<times> 'w) option"

record 'w runtime =
  rt_pl :: pylib
  rt_clock :: "'w \<Rightarrow> pyfloat"
  rt_today :: "'w \<Rightarrow> str"
  rt_uid :: "'w \<Rightarrow> str \<times> 'w"
  rt_env :: "str \<Rightarrow> str"
  rt_hooks :: "(str \<Rightarrow> jobj \<Rightarrow> 'w \<Rightarrow> 'w) option"
  rt_max_iterations :: int
  rt_seed :: jobj
  rt_depth :: nat
  rt_auto_checkpoint :: bool
  rt_memory :: "'w memory option"
  rt_store :: "'w agent_store option"
  rt_tool_configs :: "(str, jobj) dict"
  rt_tool :: "str \<Rightarrow> jobj \<Rightarrow> 'w \<Rightarrow> tool_outcome \<times> 'w"
  rt_frame :: "str \<Rightarrow> 'w \<Rightarrow> str option"
  rt_answer :: "str \<Rightarrow> 'w \<Rightarrow> approval_answer \<times> 'w"
  rt_human :: "str \<Rightarrow> 'w \<Rightarrow> json option \<times> 'w"
  rt_parse_graph :: "str \<Rightarrow> str + agent_graph"
  rt_graph_text :: "agent_graph \<Rightarrow> str"
  rt_should_compact :: "jobj list \<Rightarrow> str"
  rt_compact :: "str \<Rightarrow> jobj list \<Rightarrow> jobj list"
  rt_artifact_tokens :: "str \<Rightarrow> 'w \<Rightarrow> int"
  rt_unload :: "(str \<Rightarrow> 'w \<Rightarrow> 'w) option"
  rt_exn_text :: "py_exn \<Rightarrow> str"
  rt_event_id :: "str \<Rightarrow> nat \<Rightarrow> str"
  rt_nodes :: "'w node_services"
  rt_fresh_nodes :: "'w node_services"

text \<open>
  The handlers that are arguments run on the context of the run, but the counters of the
  main loop and the identity of the run are not theirs to write: no node handler of
  \<open>_runtime_nodes.py\<close> assigns them.
\<close>

definition own_fields :: "agent_context \<Rightarrow> agent_context \<Rightarrow> agent_context" where
  "own_fields c c' = c'\<lparr>cx_iter := cx_iter c, cx_max := cx_max c, cx_node := cx_node c,
     cx_session := cx_session c, cx_agent := cx_agent c, cx_graph := cx_graph c\<rparr>"

definition framed :: "('w run_state \<Rightarrow> 'w run_gen) \<Rightarrow> 'w run_state \<Rightarrow> 'w run_gen" where
  "framed h s = gen_map id (upd_ctx (own_fields (rs_ctx s))) (h s)"

section \<open>Helpers\<close>

definition text_field :: "json \<Rightarrow> str" where
  "text_field j = (case j of JStr s \<Rightarrow> s | _ \<Rightarrow> [])"

definition event ::
    "'w runtime \<Rightarrow> 'w run_state \<Rightarrow> event_type \<Rightarrow> str \<Rightarrow> str \<Rightarrow> jobj \<Rightarrow> agent_event" where
  "event rt s t content node meta = new_event (rt_clock rt (rs_world s)) t content [] node meta"

definition emit ::
    "'w runtime \<Rightarrow> event_type \<Rightarrow> str \<Rightarrow> str \<Rightarrow> jobj \<Rightarrow> 'w run_state \<Rightarrow> 'w run_gen" where
  "emit rt t content node meta s = gen_yield (event rt s t content node meta) s"

definition fail_with :: "'w runtime \<Rightarrow> str \<Rightarrow> str \<Rightarrow> jobj \<Rightarrow> 'w run_state \<Rightarrow> 'w run_gen" where
  "fail_with rt msg node meta s =
     emit rt ErrorEvent msg node meta (upd_ctx (\<lambda>c. c\<lparr>cx_error := msg\<rparr>) s)"

definition fire :: "'w runtime \<Rightarrow> str \<Rightarrow> jobj \<Rightarrow> 'w run_state \<Rightarrow> 'w run_state" where
  "fire rt name payload s =
     (case rt_hooks rt of None \<Rightarrow> s | Some h \<Rightarrow> upd_world (h name payload) s)"

lemma rs_ctx_fire [simp]: "rs_ctx (fire rt name payload s) = rs_ctx s"
  by (simp add: fire_def upd_world_def split: option.split)

definition say :: "'w runtime \<Rightarrow> str \<Rightarrow> str \<Rightarrow> 'w run_state \<Rightarrow> 'w run_state" where
  "say rt role content =
     upd_ctx (add_message (env_cap (rt_env rt ''FUSION_CONTEXT_MAX_MESSAGES'')) role content [] [] [])"

text \<open>\<open>_seed_ctx_variables\<close>.\<close>

definition seed_vars :: "'w runtime \<Rightarrow> 'w run_state \<Rightarrow> 'w run_state" where
  "seed_vars rt = upd_ctx (\<lambda>c. if cx_vars c = None then c\<lparr>cx_vars := Some (load_vars (rt_seed rt) [])\<rparr> else c)"

definition vars_of :: "'w run_state \<Rightarrow> jobj" where
  "vars_of s = (case cx_vars (rs_ctx s) of None \<Rightarrow> [] | Some vs \<Rightarrow> vs)"

definition put_var :: "str \<Rightarrow> json \<Rightarrow> 'w run_state \<Rightarrow> 'w run_state" where
  "put_var name v = upd_ctx (\<lambda>c. c\<lparr>cx_vars := map_option (set_var name v) (cx_vars c)\<rparr>)"

definition node_params :: "node_config \<Rightarrow> jobj" where
  "node_params n = (if truthy (nc_tool_params n)
     then (case as_obj (nc_tool_params n) of Some d \<Rightarrow> d | None \<Rightarrow> []) else [])"

text \<open>\<open>_flow_state_snapshot\<close>: the variables declared at the start node that have a value.\<close>

definition flow_keys :: "agent_graph \<Rightarrow> str list" where
  "flow_keys g =
     (case get_node (g_start g) g of
        None \<Rightarrow> []
      | Some n \<Rightarrow> (case as_strs (jget (node_params n) ''flow_state'' (JList [])) of Some ks \<Rightarrow> ks | None \<Rightarrow> []))"

definition flow_snapshot :: "agent_graph \<Rightarrow> 'w run_state \<Rightarrow> jobj" where
  "flow_snapshot g s =
     fold (\<lambda>k d. let v = get_var (vars_of s) k (JStr []) in if v = JNull then d else AList.update k v d)
       (flow_keys g) []"

text \<open>\<open>_merge_tool_config_defaults\<close>: per-run configurations win over those of the runtime.\<close>

definition merge_tool_config :: "'w runtime \<Rightarrow> agent_context \<Rightarrow> str \<Rightarrow> jobj \<Rightarrow> jobj" where
  "merge_tool_config rt c tool args =
     (let cfg = (case map_of (cx_tool_configs c) tool of
                   Some d \<Rightarrow> d
                 | None \<Rightarrow> dict_get (rt_tool_configs rt) tool [])
      in if cfg = [] then args else load_vars args cfg)"

section \<open>Checkpoints\<close>

fun pending_scan :: "jobj list \<Rightarrow> json" where
  "pending_scan [] = JList []"
| "pending_scan (m # ms) =
     (if map_of m ''role'' = Some (JStr ''tool'') then JList []
      else if map_of m ''role'' = Some (JStr ''assistant'')
      then (let calls = jget m ''tool_calls'' JNull in if truthy calls then calls else JList [])
      else pending_scan ms)"

definition pending_tool_calls :: "jobj list \<Rightarrow> json" where
  "pending_tool_calls ms = pending_scan (rev ms)"

definition checkpoint_doc :: "agent_context \<Rightarrow> jobj \<Rightarrow> jobj" where
  "checkpoint_doc c vs =
     [(''messages'', JList (map JObj (cx_messages c))), (''iteration_count'', JInt (cx_iter c)),
      (''variables'', JObj vs), (''tool_call_chain_count'', JInt (cx_chain c)),
      (''pending_tool_calls'', pending_tool_calls (cx_messages c))]"

definition save_checkpoint :: "'w runtime \<Rightarrow> agent_graph \<Rightarrow> 'w run_state \<Rightarrow> 'w run_state" where
  "save_checkpoint rt g s =
     (let c = rs_ctx s; failed = upd_ctx (\<lambda>c. c\<lparr>cx_ckpt_fails := cx_ckpt_fails c + 1\<rparr>) in
      case (rt_store rt, cx_vars c) of
        (None, _) \<Rightarrow> s
      | (Some _, None) \<Rightarrow> failed s
      | (Some st, Some vs) \<Rightarrow>
          (let (saved, w) = st_save st (g_name g) (cx_session c) (cx_node c) (checkpoint_doc c vs) (rs_world s);
               s1 = s\<lparr>rs_world := w\<rparr>
           in if saved
              then fire rt ''CHECKPOINT''
                     [(''graph'', JStr (g_name g)), (''session_id'', JStr (cx_session c)),
                      (''node'', JStr (cx_node c)),
                      (''pending_tool_calls'', JInt (case pending_tool_calls (cx_messages c) of
                         JList calls \<Rightarrow> int (length calls) | _ \<Rightarrow> 0))]
                     (upd_ctx (\<lambda>c. c\<lparr>cx_ckpt_fails := 0\<rparr>) s1)
              else failed s1))"

section \<open>Approval\<close>

text \<open>Two decimals of a score: the scores are 0, 0.3, 0.6 and 0.9.\<close>

definition fmt2 :: "pyfloat \<Rightarrow> str" where
  "fmt2 q = (let n = nat \<lfloor>q * 100\<rfloor>; r = n mod 100
     in str_of_nat (n div 100) @ ''.'' @ str_of_nat (r div 10) @ str_of_nat (r mod 10))"

definition policy_meta ::
    "'w runtime \<Rightarrow> agent_context \<Rightarrow> bool \<Rightarrow> str \<Rightarrow> jobj \<Rightarrow> py_exn + (decision \<times> str \<times> pyfloat) option" where
  "policy_meta rt c requires tool params =
     bindE (policy_from_ctx (rt_pl rt) c) (\<lambda>p.
       Inr (case p of
              None \<Rightarrow> None
            | Some pol \<Rightarrow> Some (decide pol requires (score_tool_risk (rt_pl rt) tool params None) tool)))"

definition meta_json :: "decision \<times> str \<times> pyfloat \<Rightarrow> json" where
  "meta_json m = (case m of (d, tier, risk) \<Rightarrow>
     JObj [(''tier'', JStr tier), (''risk_score'', JFloat risk),
           (''decision'', JStr (case d of Confirm \<Rightarrow> ''confirm'' | Auto \<Rightarrow> ''auto''))])"

definition policy_entry :: "(decision \<times> str \<times> pyfloat) option \<Rightarrow> jobj" where
  "policy_entry m = (case m of None \<Rightarrow> [] | Some x \<Rightarrow> [(''confirmation_policy'', meta_json x)])"

definition or_text :: "str \<Rightarrow> str \<Rightarrow> str" where
  "or_text a b = (if a = [] then b else a)"

text \<open>The end of the ask: the answer decides, a timeout by the disposition in the environment.\<close>

definition timeout_disposition :: "'w runtime \<Rightarrow> str" where
  "timeout_disposition rt =
     (let raw = rt_env rt ''FUSION_SAFETY_TIMEOUT_DISPOSITION''
      in py_lower (py_strip (or_text raw ''reject'')))"

definition em_dash :: str where
  "em_dash = [CHR 0xE2, CHR 0x80, CHR 0x94]"

definition settle_approval ::
    "'w runtime \<Rightarrow> approval_verdict \<Rightarrow> str \<Rightarrow> str \<Rightarrow> str \<Rightarrow> bool \<Rightarrow> 'w run_state \<Rightarrow> 'w run_gen" where
  "settle_approval rt v action_id category label approved s =
     (let s1 = fire rt ''APPROVAL_RESOLVE''
                 [(''action_id'', JStr action_id), (''category'', JStr category),
                  (''decision'', JStr (if approved then ''approved'' else ''rejected''))] s
      in if approved
         then emit rt SafetyApproval (or_text (vd_reason v) ''approved'') label
                [(''action'', JStr ''approved''), (''category'', JStr category),
                 (''action_id'', JStr action_id)] s1
         else
           let msg = ''SafetyGateway: '' @ category @ '' rejected '' @ em_dash @ '' '' @ vd_reason v;
               s2 = upd_ctx (\<lambda>c. c\<lparr>cx_error := msg\<rparr>) s1
           in gen_then
                (emit rt SafetyApproval (vd_reason v) label
                   [(''action'', JStr ''rejected''), (''category'', JStr category),
                    (''action_id'', JStr action_id)] s2)
                (emit rt ErrorEvent msg [] []))"

definition ask_human ::
    "'w runtime \<Rightarrow> approval_verdict \<Rightarrow> (decision \<times> str \<times> pyfloat) option \<Rightarrow> str \<Rightarrow> str \<Rightarrow> 'w run_state \<Rightarrow> 'w run_gen" where
  "ask_human rt v pm category label s =
     (let (action_id, w) = (if vd_action_id v = [] then rt_uid rt (rs_world s) else (vd_action_id v, rs_world s));
          s1 = s\<lparr>rs_world := w\<rparr>
      in gen_then
           (emit rt SafetyApproval (vd_reason v) label
              ([(''action'', JStr ''pending_approval''), (''category'', JStr category),
                (''action_id'', JStr action_id),
                (''level'', JStr (case vd_level v of None \<Rightarrow> [] | Some l \<Rightarrow> l)),
                (''diff_preview'', vd_diff v), (''stop_reason'', JStr ''pause_turn'')]
               @ policy_entry pm) s1)
           (\<lambda>s2.
              let s3 = fire rt ''APPROVAL_REQUEST''
                         [(''action_id'', JStr action_id), (''category'', JStr category),
                          (''level'', JStr (case vd_level v of None \<Rightarrow> [] | Some l \<Rightarrow> l)),
                          (''node_id'', JStr label)] s2;
                  (answer, w') = rt_answer rt action_id (rs_world s3);
                  s4 = s3\<lparr>rs_world := w'\<rparr>
              in case answer of
                   UserApproved \<Rightarrow> settle_approval rt v action_id category label True s4
                 | UserRejected \<Rightarrow> settle_approval rt v action_id category label False s4
                 | NoAnswer \<Rightarrow>
                     gen_then
                       (emit rt SafetyTimeout (''Safety approval timed out for '' @ category) label
                          [(''action_id'', JStr action_id), (''category'', JStr category),
                           (''disposition'', JStr (timeout_disposition rt))] s4)
                       (\<lambda>s5.
                          if timeout_disposition rt = ''approve''
                          then settle_approval rt v action_id category label True s5
                          else
                            let msg = ''SafetyGateway: approval timed out for '' @ category
                            in emit rt ErrorEvent msg [] []
                                 (fire rt ''APPROVAL_RESOLVE''
                                    [(''action_id'', JStr action_id), (''category'', JStr category),
                                     (''decision'', JStr ''timeout'')]
                                    (upd_ctx (\<lambda>c. c\<lparr>cx_error := msg\<rparr>) s5)))))"

definition await_approval ::
    "'w runtime \<Rightarrow> approval_verdict \<Rightarrow> str \<Rightarrow> str \<Rightarrow> str \<Rightarrow> jobj \<Rightarrow> 'w run_state \<Rightarrow> 'w run_gen" where
  "await_approval rt v category label tool params s =
     gen_try (policy_meta rt (rs_ctx s) (vd_requires v) tool params) s (\<lambda>pm.
       case pm of
         Some (Auto, tier, risk) \<Rightarrow>
           emit rt SafetyApproval (or_text (vd_reason v) ''auto-approved by confirmation policy'') label
             [(''action'', JStr ''approved''), (''category'', JStr category),
              (''confirmation_policy'', meta_json (Auto, tier, risk))] s
       | Some (Confirm, tier, risk) \<Rightarrow>
           ask_human rt
             (if vd_requires v then v
              else v\<lparr>vd_requires := True,
                     vd_reason := ''confirmation policy tier '' @ [CHR 0x27] @ tier @ [CHR 0x27]
                       @ '' requires approval for '' @ or_text tool category
                       @ '' (risk '' @ fmt2 risk @ '')''\<rparr>)
             pm category label s
       | None \<Rightarrow>
           (if vd_requires v then ask_human rt v None category label s
            else emit rt SafetyApproval (or_text (vd_reason v) ''approved'') label
                   [(''action'', JStr ''approved''), (''category'', JStr category)] s))"

end
