(* ===== verification/RuntimeNodes.thy ===== *)
theory RuntimeNodes
  imports RuntimeBase
begin

text \<open>
  Node handlers of \<open>agent_runtime/_runtime_nodes.py\<close>: the tool node with its admission
  and approval, condition, loop, variable aggregator, human input, sub-graph, sub-flow and
  iteration. The run of a nested graph is the argument \<open>child\<close>, which \<open>RuntimeLoop\<close>
  instantiates.
\<close>

type_synonym 'w child_run = "'w runtime \<Rightarrow> agent_graph \<Rightarrow> str \<Rightarrow> 'w run_state \<Rightarrow> 'w run_gen"

section \<open>Condition and loop nodes\<close>

definition recursion_limit :: nat where
  "recursion_limit = 1000"

text \<open>Any exception of the engine, the recursion error included, counts as false.\<close>

definition condition_result :: "'w runtime \<Rightarrow> node_config \<Rightarrow> 'w run_state \<Rightarrow> str" where
  "condition_result rt n s =
     (let expr = interpolate (rt_pl rt) (vars_of s) (text_field (nc_condition_expr n))
      in case evaluate_expr recursion_limit (rt_pl rt) (rs_ctx s) (vars_of s) expr of
           Inl _ \<Rightarrow> ''false''
         | Inr r \<Rightarrow> r)"

definition node_label :: "node_config \<Rightarrow> str" where
  "node_label n = text_field (nc_label n)"

definition exec_condition :: "'w runtime \<Rightarrow> node_config \<Rightarrow> 'w run_state \<Rightarrow> agent_event" where
  "exec_condition rt n s =
     (let r = condition_result rt n s
      in event rt s Think r (node_label n)
           [(''condition'', nc_condition_expr n), (''result'', JStr r)])"

text \<open>The loop variable is read and written by name; an unreadable value counts as the iteration.\<close>

definition loop_var_name :: "node_config \<Rightarrow> str" where
  "loop_var_name n = text_field (jget (node_params n) ''loop_var'' (JStr ''loop_count''))"

definition loop_current :: "node_config \<Rightarrow> 'w run_state \<Rightarrow> int" where
  "loop_current n s =
     (case py_to_int (get_var (vars_of s) (loop_var_name n) (JInt 0)) of
        Inr i \<Rightarrow> i
      | Inl _ \<Rightarrow> cx_iter (rs_ctx s))"

definition exec_loop ::
    "'w runtime \<Rightarrow> node_config \<Rightarrow> agent_graph \<Rightarrow> 'w run_state
      \<Rightarrow> py_exn + (agent_event \<times> 'w run_state)" where
  "exec_loop rt n g s0 =
     (let s = seed_vars rt s0; cur = loop_current n s in
      case as_number (nc_max_iterations n) of
        None \<Rightarrow> Inl TypeError
      | Some mx \<Rightarrow>
          (let go = of_int cur < mx;
               s1 = (if go then put_var (loop_var_name n) (JInt (cur + 1)) s else s);
               action = (if go then ''loop_continue'' else ''loop_exit'')
           in Inr (event rt s1 Think action (node_label n)
                     [(''max_iterations'', nc_max_iterations n), (''current'', JInt cur),
                      (''action'', JStr action), (''flow_state'', JObj (flow_snapshot g s1))], s1)))"

section \<open>Tool node\<close>

definition plan_readonly_tools :: "str list" where
  "plan_readonly_tools = [''file_read'', ''file_list'', ''file_grep'', ''file_glob'',
     ''text_search'', ''text_process'', ''exit_plan_mode'']"

definition env_on :: "'w runtime \<Rightarrow> str \<Rightarrow> bool" where
  "env_on rt k \<longleftrightarrow> py_lower (py_strip (rt_env rt k)) \<in> {''1'', ''true'', ''yes''}"

text \<open>The terminal gate: a command with a placeholder is refused unless the environment opts in.\<close>

definition terminal_blocked :: "'w runtime \<Rightarrow> str \<Rightarrow> jobj \<Rightarrow> bool" where
  "terminal_blocked rt tool params \<longleftrightarrow>
     tool = ''terminal'' \<and> py_contains ''{{'' (text_field (jget params ''command'' (JStr [])))
     \<and> \<not> env_on rt ''FUSION_TERMINAL_ALLOW_INTERP''"

definition terminal_message :: str where
  "terminal_message = ''Blocked: terminal '' @ [CHR 0x27] @ ''command'' @ [CHR 0x27]
     @ '' contains variable interpolation ({{...}}); passing user-controlled input to a shell is an RCE ''
     @ ''vector. Use a non-shell tool, or set FUSION_TERMINAL_ALLOW_INTERP=1 ''
     @ ''for controlled environments.''"

definition interpolate_params :: "pylib \<Rightarrow> jobj \<Rightarrow> jobj \<Rightarrow> jobj" where
  "interpolate_params pl vs params =
     map (\<lambda>(k, v). (k, case v of JStr s \<Rightarrow> JStr (interpolate pl vs s) | _ \<Rightarrow> v)) params"

definition quoted :: "str \<Rightarrow> str" where
  "quoted s = [CHR 0x27] @ s @ [CHR 0x27]"

text \<open>The result text: an exception of the tool is a result that starts with \<open>Error:\<close>.\<close>

definition run_tool :: "'w runtime \<Rightarrow> agent_context \<Rightarrow> str \<Rightarrow> jobj \<Rightarrow> 'w \<Rightarrow> json \<times> 'w" where
  "run_tool rt c tool params w =
     (case rt_tool rt tool (merge_tool_config rt c tool params) w of
        (ToolKeyError, w') \<Rightarrow> (JStr (''Error: Tool '' @ quoted tool @ '' not found''), w')
      | (ToolRaised e, w') \<Rightarrow> (JStr (''Error: '' @ e), w')
      | (ToolReturned v, w') \<Rightarrow> (v, w'))"

definition set_last :: "('a \<Rightarrow> 'a) \<Rightarrow> 'a list \<Rightarrow> 'a list" where
  "set_last f xs = (if xs = [] then [] else butlast xs @ [f (last xs)])"

definition add_tool_message :: "'w runtime \<Rightarrow> str \<Rightarrow> str \<Rightarrow> json \<Rightarrow> 'w run_state \<Rightarrow> 'w run_state" where
  "add_tool_message rt tool label result =
     upd_ctx (\<lambda>c.
       let c1 = add_message (env_cap (rt_env rt ''FUSION_CONTEXT_MAX_MESSAGES'')) ''tool''
                  (py_str (rt_pl rt) result) [] (''tool_'' @ tool) [] c
       in c1\<lparr>cx_messages := set_last (AList.update ''_node_id'' (JStr label)) (cx_messages c1)\<rparr>)"

text \<open>The error convention: the \<open>Error:\<close> prefix, or a JSON object with the key \<open>error\<close>.\<close>

definition tool_error :: "pylib \<Rightarrow> json \<Rightarrow> str option" where
  "tool_error pl result =
     (case result of
        JStr r \<Rightarrow>
          (if starts_with r ''Error:'' then Some r
           else let t = py_strip r
                in if starts_with t ''{''
                   then (case pl_loads pl t of
                           Some (JObj d) \<Rightarrow>
                             if map_of d ''error'' \<noteq> None then Some (json_dumps pl (JObj d)) else None
                         | _ \<Rightarrow> None)
                   else None)
      | _ \<Rightarrow> None)"

text \<open>\<open>_apply_tool_output_mapping\<close>.\<close>

definition parsed_result :: "pylib \<Rightarrow> json \<Rightarrow> jobj option" where
  "parsed_result pl result =
     (case result of
        JStr r \<Rightarrow> (case pl_loads pl r of Some (JObj d) \<Rightarrow> Some d | _ \<Rightarrow> None)
      | _ \<Rightarrow> None)"

definition map_output_entry :: "pylib \<Rightarrow> json \<Rightarrow> str \<times> json \<Rightarrow> 'w run_state \<Rightarrow> 'w run_state" where
  "map_output_entry pl result kv s =
     (case kv of (k, target) \<Rightarrow>
        if \<not> truthy target then s
        else if k = [] \<or> k = ''result'' then put_var (text_field target) result s
        else (case parsed_result pl result of
                Some d \<Rightarrow> put_var (text_field target) (dict_get d k result) s
              | None \<Rightarrow> put_var (text_field target) result s))"

definition apply_output_mapping :: "pylib \<Rightarrow> jobj \<Rightarrow> json \<Rightarrow> 'w run_state \<Rightarrow> 'w run_state" where
  "apply_output_mapping pl m result s = fold (map_output_entry pl result) m s"

text \<open>
  The capture after a tool: the \<open>screenshot\<close> tool is run with no admission and no look at plan
  mode, and its picture is read; whatever goes wrong, the capture is empty. Then the function
  registered for assertions judges it. \<open>rt_frame\<close> reads a picture as base64.
\<close>

definition read_capture :: "'w runtime \<Rightarrow> 'w \<Rightarrow> str \<Rightarrow> str \<times> int \<times> int" where
  "read_capture rt w raw =
     (if \<not> starts_with (py_strip raw) ''{'' then ([], 0, 0)
      else case pl_loads (rt_pl rt) raw of
             Some (JObj d) \<Rightarrow>
               (case py_to_int (jget d ''width'' (JInt 0)) of
                  Inl _ \<Rightarrow> ([], 0, 0)
                | Inr wd \<Rightarrow>
                    (case py_to_int (jget d ''height'' (JInt 0)) of
                       Inl _ \<Rightarrow> ([], wd, 0)
                     | Inr ht \<Rightarrow>
                         let p = text_field (jget d ''path'' (JStr []))
                         in (if p = [] then [] else case rt_frame rt p w of None \<Rightarrow> [] | Some b \<Rightarrow> b, wd, ht)))
           | _ \<Rightarrow> ([], 0, 0))"

definition capture_frame :: "'w runtime \<Rightarrow> 'w \<Rightarrow> (str \<times> int \<times> int) \<times> 'w" where
  "capture_frame rt w =
     (let (r, w1) = rt_tool rt ''screenshot'' [] w
      in (case r of ToolReturned (JStr raw) \<Rightarrow> read_capture rt w1 raw | _ \<Rightarrow> ([], 0, 0), w1))"

definition judge_capture ::
    "'w runtime \<Rightarrow> node_config \<Rightarrow> json \<Rightarrow> str \<Rightarrow> int \<Rightarrow> int \<Rightarrow> 'w run_state \<Rightarrow> 'w run_gen" where
  "judge_capture rt n result frame wd ht s =
     (case ns_assertion (rt_nodes rt) of
        None \<Rightarrow> gen_return s
      | Some f \<Rightarrow>
          if \<not> truthy (nc_assertion n) then gen_return s
          else
            let (r, w) = f (rs_ctx s) n result frame wd ht (rs_world s); s1 = s\<lparr>rs_world := w\<rparr>;
                verdict = (case r of Inl e \<Rightarrow> ''assertion fn error: '' @ e | Inr v \<Rightarrow> v)
            in if verdict = [] then gen_return s1
               else gen_yield (new_event (rt_clock rt w) ErrorEvent
                      (''Post-action assertion failed: '' @ verdict) ''post_action_assertion'' (node_label n)
                      [(''assertion_failed'', JBool True), (''tool'', nc_tool_name n),
                       (''spec'', nc_assertion n)]) s1)"

definition post_action :: "'w runtime \<Rightarrow> node_config \<Rightarrow> json \<Rightarrow> 'w run_state \<Rightarrow> 'w run_gen" where
  "post_action rt n result s =
     (let ((frame, wd, ht), w) = capture_frame rt (rs_world s); s1 = s\<lparr>rs_world := w\<rparr>
      in gen_then
           (gen_yield (new_event (rt_clock rt w) ToolResult
              (if frame = [] then ''captured'' else take 80 frame) ''post_action_capture'' (node_label n)
              [(''post_action_capture'', JBool True), (''width'', JInt wd), (''height'', JInt ht),
               (''has_frame'', JBool (frame \<noteq> []))]) s1)
           (judge_capture rt n result frame wd ht))"

text \<open>After the tool has run: message, event, error convention, output mapping, post action.\<close>

definition map_and_post ::
    "'w runtime \<Rightarrow> node_config \<Rightarrow> json \<Rightarrow> 'w run_state \<Rightarrow> 'w run_gen" where
  "map_and_post rt n result s =
     (let m = jget (node_params n) ''output_mapping'' (JObj []) in
      if truthy m \<and> as_obj m = None then gen_raise AttributeError s
      else let s1 = (case as_obj m of Some d \<Rightarrow> apply_output_mapping (rt_pl rt) d result s | None \<Rightarrow> s)
           in if truthy (nc_post_action_capture n) then post_action rt n result s1
              else gen_return s1)"

definition finish_tool ::
    "'w runtime \<Rightarrow> node_config \<Rightarrow> agent_graph \<Rightarrow> str \<Rightarrow> json \<Rightarrow> 'w run_state \<Rightarrow> 'w run_gen" where
  "finish_tool rt n g tool result s =
     (let label = node_label n; s1 = add_tool_message rt tool label result s in
      gen_then
        (gen_yield (new_event (rt_clock rt (rs_world s1)) ToolResult (py_str (rt_pl rt) result) tool label []) s1)
        (\<lambda>s2.
          case tool_error (rt_pl rt) result of
            Some detail \<Rightarrow>
              (if g_stop_on_tool_error g
               then let msg = ''Tool '' @ quoted tool @ '' (node '' @ quoted label @ '') failed: '' @ detail;
                        s3 = upd_ctx (\<lambda>c. c\<lparr>cx_error := msg\<rparr>) s2
                    in gen_yield (new_event (rt_clock rt (rs_world s3)) ErrorEvent msg tool label
                         [(''tool_error'', JBool True), (''tool'', JStr tool), (''node'', JStr label)]) s3
               else map_and_post rt n result s2)
          | None \<Rightarrow> map_and_post rt n result s2))"

text \<open>
  Execution proper, once the admission has allowed the call: the funnel may have rewritten
  the arguments.
\<close>

definition perform_tool ::
    "'w runtime \<Rightarrow> node_config \<Rightarrow> agent_graph \<Rightarrow> str \<Rightarrow> jobj \<Rightarrow> 'w run_state \<Rightarrow> 'w run_gen" where
  "perform_tool rt n g tool params s =
     (let (result, w) = run_tool rt (rs_ctx s) tool params (rs_world s)
      in finish_tool rt n g tool result (s\<lparr>rs_world := w\<rparr>))"

definition gate_message :: "str \<Rightarrow> str \<Rightarrow> str" where
  "gate_message gate reason =
     (if gate = ''safety'' then ''SafetyGateway blocked tool call: '' @ reason
      else if gate = ''hook'' then ''Blocked by hook: '' @ reason
      else if gate = ''permission'' then ''Permission denied tool call: '' @ reason
      else ''Blocked by '' @ gate @ '': '' @ reason)"

definition refuse_tool ::
    "'w runtime \<Rightarrow> node_config \<Rightarrow> str \<Rightarrow> admission \<Rightarrow> 'w run_state \<Rightarrow> 'w run_gen" where
  "refuse_tool rt n tool ad s =
     (let reason = or_text (ad_reason ad) ''denied''; gate = ad_blocked_by ad;
          msg = gate_message gate reason;
          s1 = fire rt ''TOOL_DENY''
                 [(''tool_name'', JStr tool), (''gate'', JStr gate), (''reason'', JStr reason),
                  (''node_id'', JStr (node_label n)), (''path'', JStr ''tool_node'')]
                 (upd_ctx (\<lambda>c. c\<lparr>cx_error := msg\<rparr>) s)
      in gen_then
           (if gate = ''safety''
            then emit rt SafetyApproval reason []
                   [(''action'', JStr ''blocked''), (''category'', JStr ''tool_call'')] s1
            else gen_return s1)
           (emit rt ErrorEvent msg [] []))"

text \<open>The outcome of the (last) admission: refused, or allowed with the arguments to use.\<close>

definition conclude_tool ::
    "'w runtime \<Rightarrow> node_config \<Rightarrow> agent_graph \<Rightarrow> str \<Rightarrow> jobj \<Rightarrow> admission \<Rightarrow> approval_verdict option
      \<Rightarrow> 'w run_state \<Rightarrow> 'w run_gen" where
  "conclude_tool rt n g tool params ad safety s =
     (if \<not> ad_allowed ad \<or> ad_needs_approval ad then refuse_tool rt n tool ad s
      else
        gen_then
          (if safety = None then gen_return s
           else emit rt SafetyApproval (or_text (ad_reason ad) ''approved'') []
                  [(''action'', JStr ''approved''), (''category'', JStr ''tool_call'')] s)
          (perform_tool rt n g tool
             (if py_eq (JObj (ad_args ad)) (JObj params) then params else ad_args ad)))"

definition admit_tool ::
    "'w runtime \<Rightarrow> str \<Rightarrow> jobj \<Rightarrow> str \<Rightarrow> bool \<Rightarrow> 'w run_state
      \<Rightarrow> (admission \<times> approval_verdict option \<times> approval_verdict option) \<times> 'w run_state" where
  "admit_tool rt tool params label approved s =
     (let (r, w) = ns_admit (rt_nodes rt) (rs_ctx s) tool params label approved (rs_world s)
      in (r, s\<lparr>rs_world := w\<rparr>))"

definition is_error :: "agent_event \<Rightarrow> bool" where
  "is_error e \<longleftrightarrow> ae_type e = ErrorEvent"

definition admitted_tool ::
    "'w runtime \<Rightarrow> node_config \<Rightarrow> agent_graph \<Rightarrow> str \<Rightarrow> jobj \<Rightarrow> 'w run_state \<Rightarrow> 'w run_gen" where
  "admitted_tool rt n g tool params s =
     (case admit_tool rt tool params (node_label n) False s of
        ((ad, safety, escalation), s1) \<Rightarrow>
          if ad_needs_approval ad
          then
            (case (case safety of Some v \<Rightarrow> Some v | None \<Rightarrow> escalation) of
               None \<Rightarrow>
                 fail_with rt (''Permission denied tool call: tool '' @ quoted tool @ '' requires approval (''
                     @ ad_reason ad @ ''); no approval backend wired'') [] [] s1
             | Some v \<Rightarrow>
                 drive_then is_error (await_approval rt v ''tool_call'' (node_label n) tool params s1)
                   (\<lambda>s2.
                      if cx_error (rs_ctx s2) \<noteq> [] then gen_return s2
                      else
                        case admit_tool rt tool params (node_label n) True s2 of
                          ((ad2, safety2, _), s3) \<Rightarrow> conclude_tool rt n g tool params ad2 safety2 s3))
          else conclude_tool rt n g tool params ad safety s1)"

definition plan_blocked :: "agent_context \<Rightarrow> str \<Rightarrow> bool" where
  "plan_blocked c tool \<longleftrightarrow>
     cx_plan c \<and> tool \<notin> set plan_readonly_tools \<and> tool \<noteq> ''exit_plan_mode''"

definition exec_plain_tool :: "'w runtime \<Rightarrow> node_config \<Rightarrow> agent_graph \<Rightarrow> 'w run_state \<Rightarrow> 'w run_gen" where
  "exec_plain_tool rt n g s0 =
     (let s = seed_vars rt s0; tool = text_field (nc_tool_name n); raw = node_params n in
      if terminal_blocked rt tool raw
      then fail_with rt terminal_message (node_label n) [(''e4_blocked'', JBool True)] s
      else
        let params = interpolate_params (rt_pl rt) (vars_of s) raw in
        if plan_blocked (rs_ctx s) tool
        then fail_with rt (''Blocked: plan_mode active, tool '' @ quoted tool @ '' writes state. ''
               @ ''Call exit_plan_mode to transition to execution.'') (node_label n)
               [(''plan_mode_blocked'', JBool True)] s
        else admitted_tool rt n g tool params s)"

section \<open>Nested graphs\<close>

text \<open>\<open>_max_sub_graph_depth\<close>.\<close>

definition max_sub_graph_depth :: "'w runtime \<Rightarrow> nat" where
  "max_sub_graph_depth rt =
     (let raw = py_strip (rt_env rt ''FUSION_SUB_GRAPH_MAX_DEPTH'') in
      if raw = [] then 8
      else case py_int raw of None \<Rightarrow> 8 | Some v \<Rightarrow> if 0 < v then nat v else 8)"

text \<open>
  The runtime of a nested run: a fresh \<open>AgentRuntime\<close> over the same registry, gateways,
  store and memory engine, one level deeper. Its funnels, hook engine, tool configurations and
  automatic checkpoints are those of a new runtime: no hooks, no configurations, no checkpoints.
\<close>

definition child_runtime :: "jobj \<Rightarrow> 'w runtime \<Rightarrow> 'w runtime" where
  "child_runtime seed rt =
     rt\<lparr>rt_seed := seed, rt_depth := rt_depth rt + 1, rt_hooks := None, rt_tool_configs := [],
        rt_auto_checkpoint := False, rt_nodes := rt_fresh_nodes rt\<rparr>"

text \<open>
  The context of a nested run: fresh, but for the plan mode, the session and the agent. Its
  budget is the default budget of the runtime.
\<close>

definition child_context :: "agent_context \<Rightarrow> agent_context" where
  "child_context c = (new_context (cx_session c))\<lparr>cx_plan := cx_plan c, cx_agent := cx_agent c\<rparr>"

definition child_state :: "(agent_context \<Rightarrow> agent_context) \<Rightarrow> 'w run_state \<Rightarrow> 'w run_state" where
  "child_state f s = s\<lparr>rs_ctx := f (child_context (rs_ctx s)), rs_own_budget := None\<rparr>"

text \<open>What of a nested state the parent sees: the shared budget and the world.\<close>

definition back_to :: "'w run_state \<Rightarrow> 'w run_state \<Rightarrow> 'w run_state" where
  "back_to s t = s\<lparr>rs_default_budget := rs_default_budget t, rs_world := rs_world t\<rparr>"

definition sub_tag :: "str \<Rightarrow> str \<Rightarrow> str" where
  "sub_tag name content = ''[sub:'' @ name @ ''] '' @ content"

definition retag :: "'w runtime \<Rightarrow> (str \<Rightarrow> str) \<Rightarrow> agent_event \<Rightarrow> 'w run_state \<Rightarrow> agent_event" where
  "retag rt f e t = event_post_init (rt_clock rt (rs_world t))
     (e\<lparr>ae_content := f (ae_content e), ae_time := 0, ae_id := [], ae_parent := []\<rparr>)"

text \<open>The input mapping writes its targets into the variables of the parent.\<close>

fun map_inputs :: "pylib \<Rightarrow> jobj \<Rightarrow> str \<Rightarrow> 'w run_state \<Rightarrow> str \<times> 'w run_state" where
  "map_inputs pl [] inp s = (inp, s)"
| "map_inputs pl ((pv, sv) # m) inp s =
     (let v = get_var (vars_of s) pv (JStr []) in
      if sv = JStr ''input'' then map_inputs pl m (py_str pl v) s
      else map_inputs pl m inp (put_var (text_field sv) v s))"

text \<open>The output mapping reads the variables of the finished run, else those it was given.\<close>

fun map_outputs :: "jobj \<Rightarrow> jobj option \<Rightarrow> jobj \<Rightarrow> 'w run_state \<Rightarrow> 'w run_state" where
  "map_outputs [] final given s = s"
| "map_outputs ((sv, pv) # m) final given s =
     (let v = (case final of
                 None \<Rightarrow> get_var given sv (JStr [])
               | Some vs \<Rightarrow>
                   let x = get_var vs sv (JStr [])
                   in if x \<noteq> JStr [] then x else get_var given sv (JStr []))
      in map_outputs m final given (put_var (text_field pv) v s))"

definition hook_ids :: "agent_graph \<Rightarrow> jobj" where
  "hook_ids g = [(''graph_id'', JStr (g_id g)), (''graph_name'', JStr (g_name g))]"

definition sub_graph_body ::
    "'w child_run \<Rightarrow> 'w runtime \<Rightarrow> agent_graph \<Rightarrow> jobj \<Rightarrow> json \<Rightarrow> 'w run_state \<Rightarrow> 'w run_gen" where
  "sub_graph_body child rt sub ins outs s0 =
     (let (inp, s1) = map_inputs (rt_pl rt) ins [] (seed_vars rt s0);
          given = vars_of s1;
          s2 = fire rt ''SUBAGENT_START'' (hook_ids sub) s1
      in gen_call (retag rt (sub_tag (g_name sub))) (back_to s2)
           (child (child_runtime given rt) sub inp (child_state id s2))
           (\<lambda>t.
              let s3 = fire rt ''SUBAGENT_STOP'' (hook_ids sub) (back_to s2 t) in
              case as_obj outs of
                None \<Rightarrow> gen_raise AttributeError s3
              | Some m \<Rightarrow> gen_return (map_outputs m (cx_vars (rs_ctx t)) given s3)))"

definition exec_sub_graph ::
    "'w child_run \<Rightarrow> 'w runtime \<Rightarrow> jobj \<Rightarrow> node_config \<Rightarrow> 'w run_state \<Rightarrow> 'w run_gen" where
  "exec_sub_graph child rt params n s =
     (let text = text_field (jget params ''graph_json'' (JStr []));
          ins = jget params ''input_mapping'' (JObj []); outs = jget params ''output_mapping'' (JObj []);
          mx = max_sub_graph_depth rt
      in if mx \<le> rt_depth rt
         then emit rt ErrorEvent
                (''Sub-graph recursion depth limit reached ('' @ str_of_nat (rt_depth rt) @ '' >= ''
                 @ str_of_nat mx @ ''). Possible circular sub-graph reference. ''
                 @ ''Set FUSION_SUB_GRAPH_MAX_DEPTH higher if intentional.'') (node_label n)
                [(''e16_depth'', JInt (int (rt_depth rt))), (''e16_max'', JInt (int mx))] s
         else if text = []
         then emit rt ErrorEvent ''Sub-graph: no graph_json provided'' [] [] s
         else
           case rt_parse_graph rt text of
             Inl e \<Rightarrow> emit rt ErrorEvent (''Sub-graph parse error: '' @ e) [] [] s
           | Inr sub \<Rightarrow>
               (case as_obj ins of
                  Some m \<Rightarrow> sub_graph_body child rt sub m outs s
                | None \<Rightarrow> gen_raise AttributeError (seed_vars rt s)))"

definition exec_tool ::
    "'w child_run \<Rightarrow> 'w runtime \<Rightarrow> node_config \<Rightarrow> agent_graph \<Rightarrow> 'w run_state \<Rightarrow> 'w run_gen" where
  "exec_tool child rt n g s =
     (if text_field (nc_tool_name n) = ''__sub_graph__''
      then exec_sub_graph child rt (node_params n) n s
      else exec_plain_tool rt n g s)"

text \<open>A saved flow run as a node: its text replaces \<open>graph_json\<close>.\<close>

definition exec_sub_flow :: "'w child_run \<Rightarrow> 'w runtime \<Rightarrow> node_config \<Rightarrow> 'w run_state \<Rightarrow> 'w run_gen" where
  "exec_sub_flow child rt n s =
     (let params = node_params n; flow = py_str (rt_pl rt) (jget params ''flow_id'' (JStr [])) in
      if flow = [] then emit rt ErrorEvent ''sub_flow: tool_params.flow_id is required'' (node_label n) [] s
      else case rt_store rt of
             None \<Rightarrow> emit rt ErrorEvent (''sub_flow: no store configured to load flow '' @ quoted flow)
                       (node_label n) [] s
           | Some st \<Rightarrow>
               (case st_graph st flow (rs_world s) of
                  None \<Rightarrow> emit rt ErrorEvent (''sub_flow: flow '' @ quoted flow @ '' not found'') (node_label n) [] s
                | Some sub \<Rightarrow>
                    exec_sub_graph child rt
                      (AList.update ''graph_json'' (JStr (rt_graph_text rt sub)) params) n s))"

end
