(* ===== verification/RuntimeFlow.thy ===== *)
theory RuntimeFlow
  imports RuntimeNodes
begin

text \<open>
  More node handlers of \<open>agent_runtime/_runtime_nodes.py\<close>: iteration, variable aggregator,
  human input, parallel fan-out and gather, and the error handler.
\<close>

section \<open>Iteration\<close>

text \<open>\<open>content.split("] ", 1)[-1]\<close> of a content that starts with the tag of a sub-graph.\<close>

fun after_sep :: "str \<Rightarrow> str option" where
  "after_sep [] = None"
| "after_sep (c # cs) = (if starts_with (c # cs) ''] '' then Some (drop 2 (c # cs)) else after_sep cs)"

definition strip_sub_tag :: "str \<Rightarrow> str" where
  "strip_sub_tag content =
     (if starts_with content ''[sub:''
      then (case after_sep content of Some r \<Rightarrow> r | None \<Rightarrow> content) else content)"

text \<open>The result of one pass: its last result event, else its last thought with a content.\<close>

definition pass_output :: "agent_event list \<Rightarrow> str" where
  "pass_output es =
     (let final = (case rev (filter (\<lambda>e. ae_type e = ResultEvent) es) of
                     [] \<Rightarrow> [] | e # _ \<Rightarrow> strip_sub_tag (ae_content e));
          think = (case rev (filter (\<lambda>e. ae_type e = Think \<and> ae_content e \<noteq> []) es) of
                     [] \<Rightarrow> [] | e # _ \<Rightarrow> ae_content e)
      in if final = [] \<and> think \<noteq> [] then strip_sub_tag think else final)"

definition str_list_json :: "str list \<Rightarrow> json" where
  "str_list_json xs = JList (map JStr xs)"

fun iterate_items ::
    "'w child_run \<Rightarrow> 'w runtime \<Rightarrow> jobj \<Rightarrow> node_config \<Rightarrow> str \<Rightarrow> nat \<Rightarrow> json list \<Rightarrow> str list
      \<Rightarrow> ('w run_state \<Rightarrow> str list \<Rightarrow> 'w run_gen) \<Rightarrow> 'w run_state \<Rightarrow> 'w run_gen" where
  "iterate_items child rt params n out idx [] results fin s = fin s results"
| "iterate_items child rt params n out idx (item # items) results fin s =
     (let s1 = put_var ''item_index'' (JInt (int idx)) (put_var ''item'' item s);
          pass = exec_sub_graph child rt params n s1;
          es = map fst (fst pass)
      in gen_then pass (\<lambda>s2.
           if \<exists>e \<in> set es. is_error e
           then gen_return (put_var out (str_list_json results) s2)
           else let results' = results @ [pass_output es]
                in iterate_items child rt params n out (idx + 1) items results' fin
                     (put_var out (str_list_json results') s2)))"

definition py_type_name :: "json \<Rightarrow> str" where
  "py_type_name v = (case v of JNull \<Rightarrow> ''NoneType'' | JBool _ \<Rightarrow> ''bool'' | JInt _ \<Rightarrow> ''int''
     | JFloat _ \<Rightarrow> ''float'' | JStr _ \<Rightarrow> ''str'' | JList _ \<Rightarrow> ''list'' | JObj _ \<Rightarrow> ''dict'')"

definition output_name :: "jobj \<Rightarrow> node_config \<Rightarrow> str \<Rightarrow> str \<Rightarrow> str" where
  "output_name params n key dflt =
     or_text (text_field (jget params key JNull)) (or_text (node_label n) dflt)"

definition exec_iteration ::
    "'w child_run \<Rightarrow> 'w runtime \<Rightarrow> node_config \<Rightarrow> agent_graph \<Rightarrow> 'w run_state \<Rightarrow> 'w run_gen" where
  "exec_iteration child rt n g s0 =
     (let s = seed_vars rt s0; params = node_params n;
          items_var = text_field (jget params ''items_var'' (JStr ''items''));
          label = node_label n; meta = [(''items_var'', JStr items_var)];
          out = output_name params n ''output_var'' ''iteration_results''
      in gen_try (py_to_int (jget params ''max_items'' (JInt 100))) s (\<lambda>cap.
         case get_var (vars_of s) items_var (JStr []) of
           JNull \<Rightarrow> emit rt ErrorEvent (''iteration: items variable '' @ quoted items_var @ '' not found'') label meta s
         | JStr [] \<Rightarrow> emit rt ErrorEvent (''iteration: items variable '' @ quoted items_var @ '' not found'') label meta s
         | JList items \<Rightarrow>
             (if cap < int (length items)
              then emit rt ErrorEvent
                     (''iteration: '' @ str_of_nat (length items) @ '' items exceeds cap '' @ str_of_int cap
                      @ '' (node '' @ quoted label @ '')'') label
                     [(''items'', JInt (int (length items))), (''max_items'', JInt cap),
                      (''cap_breach'', JBool True)] s
              else iterate_items child rt params n out 0 items [] (\<lambda>s' results.
                     emit rt ResultEvent (json_dumps (rt_pl rt) (str_list_json results)) label
                       [(''items'', JInt (int (length results))), (''output_var'', JStr out),
                        (''flow_state'', JObj (flow_snapshot g s'))] s') s)
         | v \<Rightarrow> emit rt ErrorEvent
                  (''iteration: variable '' @ quoted items_var @ '' is '' @ py_type_name v @ '', expected list'')
                  label meta s))"

section \<open>Variable aggregator\<close>

definition merged_vars :: "jobj \<Rightarrow> str list \<Rightarrow> json" where
  "merged_vars vs names =
     (case names of
        [v] \<Rightarrow> (case get_var vs v (JStr []) of JNull \<Rightarrow> JList [] | x \<Rightarrow> x)
      | _ \<Rightarrow> JObj (fold (\<lambda>v. AList.update v (get_var vs v (JStr []))) names []))"

definition exec_aggregator ::
    "'w runtime \<Rightarrow> node_config \<Rightarrow> agent_graph \<Rightarrow> 'w run_state \<Rightarrow> 'w run_gen" where
  "exec_aggregator rt n g s0 =
     (let s = seed_vars rt s0; params = node_params n; ins = jget params ''input_vars'' JNull;
          out = output_name params n ''output_var'' ''aggregated''
      in if \<not> truthy ins
         then emit rt ErrorEvent ''variable_aggregator: tool_params.input_vars is empty'' (node_label n) [] s
         else case as_strs ins of
                None \<Rightarrow> gen_raise TypeError s
              | Some names \<Rightarrow>
                  (let merged = merged_vars (vars_of s) names; s1 = put_var out merged s
                   in emit rt ResultEvent (json_dumps (rt_pl rt) merged) (node_label n)
                        [(''aggregated_vars'', ins), (''output_var'', JStr out),
                         (''flow_state'', JObj (flow_snapshot g s1))] s1))"

section \<open>Human input\<close>

text \<open>A decision that is no dict is its truth value, with an empty value.\<close>

definition decision_doc :: "json \<Rightarrow> jobj" where
  "decision_doc d = (case d of JObj o' \<Rightarrow> o' | _ \<Rightarrow> [(''approved'', JBool (truthy d)), (''value'', JStr [])])"

definition human_decided ::
    "'w runtime \<Rightarrow> node_config \<Rightarrow> agent_graph \<Rightarrow> str \<Rightarrow> str \<Rightarrow> json \<Rightarrow> 'w run_state \<Rightarrow> 'w run_gen" where
  "human_decided rt n g input_id input_var d s =
     (let doc = decision_doc d; label = node_label n in
      if map_of doc ''approved'' = Some (JBool False)
      then let r = jget doc ''reason'' JNull;
               reason = (if truthy r then py_str (rt_pl rt) r else ''rejected by human'')
           in emit rt ErrorEvent (''human_input rejected at '' @ quoted label @ '': '' @ reason) label
                [(''kind'', JStr ''human_input''), (''input_id'', JStr input_id),
                 (''rejected'', JBool True), (''reason'', JStr reason)] s
      else let v = jget doc ''value'' (jget doc ''input'' (JStr [])); s1 = put_var input_var v s
           in emit rt ResultEvent (json_dumps (rt_pl rt) (JObj [(input_var, v)])) label
                [(''input_var'', JStr input_var), (''approved'', JBool True),
                 (''flow_state'', JObj (flow_snapshot g s1))] s1)"

definition exec_human_input ::
    "'w runtime \<Rightarrow> node_config \<Rightarrow> agent_graph \<Rightarrow> 'w run_state \<Rightarrow> 'w run_gen" where
  "exec_human_input rt n g s0 =
     (let s = seed_vars rt s0; params = node_params n; label = node_label n;
          input_var = output_name params n ''input_var'' ''human_input'';
          prompt = py_str (rt_pl rt) (jget params ''prompt'' (JStr []));
          fields = jget params ''fields'' (JList []);
          existing = get_var (vars_of s) input_var (JStr [])
      in if existing \<noteq> JNull \<and> existing \<noteq> JStr []
         then emit rt ResultEvent (json_dumps (rt_pl rt) (JObj [(input_var, existing)])) label
                [(''input_var'', JStr input_var), (''resumed'', JBool True),
                 (''flow_state'', JObj (flow_snapshot g s))] s
         else
           let (uid, w) = rt_uid rt (rs_world s); input_id = ''hi-'' @ take 12 uid;
               s1 = save_checkpoint rt g (s\<lparr>rs_world := w\<rparr>)
           in gen_then
                (emit rt SafetyApproval prompt label
                   [(''kind'', JStr ''human_input''), (''input_id'', JStr input_id),
                    (''input_var'', JStr input_var), (''prompt'', JStr prompt), (''fields'', fields),
                    (''action'', JStr ''request'')] s1)
                (\<lambda>s2.
                   let (answer, w') = rt_human rt input_id (rs_world s2); s3 = s2\<lparr>rs_world := w'\<rparr>
                   in case answer of
                        None \<Rightarrow>
                          emit rt CheckpointEvent
                            (''Paused awaiting human input at '' @ quoted label @ '': '' @ prompt) label
                            [(''paused'', JBool True), (''input_id'', JStr input_id),
                             (''input_var'', JStr input_var), (''prompt'', JStr prompt), (''fields'', fields),
                             (''flow_state'', JObj (flow_snapshot g s3))] s3
                      | Some d \<Rightarrow> human_decided rt n g input_id input_var d s3))"

section \<open>Parallel\<close>

text \<open>\<open>reachable_from\<close>: the nodes in the order of their discovery.\<close>

function bfs_order :: "edge list \<Rightarrow> str list \<Rightarrow> str list \<Rightarrow> str list" where
  "bfs_order es order [] = order"
| "bfs_order es order (cur # queue) =
     (if cur \<in> set order then bfs_order es order queue
      else bfs_order es (order @ [cur]) (queue @ map e_target (filter (\<lambda>e. e_source e = cur) es)))"
  by pat_completeness auto
termination
proof (relation "measures [\<lambda>(es, v, q). card ((set q \<union> e_target ` set es) - set v), \<lambda>(es, v, q). length q]",
    goal_cases)
  case 1
  then show ?case by simp
next
  case (2 es v c q)
  then show ?case using bfs_skip_le [of q es "set v" c] by auto
next
  case (3 es v c q)
  then show ?case using bfs_visit_less [of c "set v" q es] by simp
qed

lemma set_bfs_order: "set (bfs_order es order queue) = bfs es (set order) queue"
  by (induction es order queue rule: bfs_order.induct) auto

lemma distinct_bfs_order: "distinct order \<Longrightarrow> distinct (bfs_order es order queue)"
  by (induction es order queue rule: bfs_order.induct) auto

definition find_merge_node :: "agent_graph \<Rightarrow> edge list \<Rightarrow> str" where
  "find_merge_node g outgoing =
     (if length outgoing < 2 then []
      else
        let targets = map e_target outgoing; reach = (\<lambda>t. bfs_order (g_edges g) [] [t]);
            common = (\<lambda>nid. (\<forall>t \<in> set targets. nid \<in> set (reach t)) \<and> nid \<notin> set targets)
        in case List.find common (reach (hd targets)) of None \<Rightarrow> [] | Some nid \<Rightarrow> nid)"

text \<open>
  The graph of a branch: the nodes reachable from its target without entering the merge node
  or the parallel node. Plan mode, error cascade and confirmation policy are those of a new
  graph. (Python adds the nodes in the unspecified order of a set; the model takes the order
  of discovery.) Looking up a node that an edge names but the graph lacks raises KeyError.
\<close>

definition branch_excluded :: "str \<Rightarrow> str \<Rightarrow> str list" where
  "branch_excluded merge par = (if merge = [] then [par] else [merge, par])"

definition branch_node_ids :: "agent_graph \<Rightarrow> str \<Rightarrow> str list \<Rightarrow> str list" where
  "branch_node_ids g target excluded =
     (if target \<in> set excluded then []
      else bfs_order (filter (\<lambda>e. e_target e \<notin> set excluded) (g_edges g)) [] [target])"

definition new_graph :: "str \<Rightarrow> str \<Rightarrow> str \<Rightarrow> agent_graph" where
  "new_graph uid name start = graph_post_init uid
     \<lparr>g_id = [], g_name = name, g_description = [], g_nodes = [], g_edges = [], g_start = start,
      g_version = ''1.0'', g_agent_id = [], g_plan_mode = False, g_stop_on_tool_error = False,
      g_policy = JNull\<rparr>"

definition build_branch :: "str \<Rightarrow> agent_graph \<Rightarrow> str \<Rightarrow> str \<Rightarrow> str \<Rightarrow> py_exn + agent_graph option" where
  "build_branch uid g target merge par =
     (if get_node target g = None then Inr None
      else
        let ids = branch_node_ids g target (branch_excluded merge par) in
        if ids = [] then Inr None
        else bindE
          (mapE (\<lambda>nid. case get_node nid g of None \<Rightarrow> Inl KeyError | Some c \<Rightarrow> Inr (nid, c)) ids)
          (\<lambda>nodes. Inr (Some
             ((fold (\<lambda>(nid, c). add_node nid c) nodes
                 (new_graph uid (g_name g @ '':branch:'' @ target) target))
               \<lparr>g_edges := filter (\<lambda>e. e_source e \<in> set ids \<and> e_target e \<in> set ids) (g_edges g)\<rparr>))))"

datatype branch_result =
    BranchDone nat str "agent_event list" str
  | BranchRaised py_exn

text \<open>The output of a branch: its last thought with a content, else its last assistant message.\<close>

definition branch_output :: "agent_event list \<Rightarrow> jobj list \<Rightarrow> str" where
  "branch_output es ms =
     (case List.find (\<lambda>e. ae_type e = Think \<and> ae_content e \<noteq> []) (rev es) of
        Some e \<Rightarrow> ae_content e
      | None \<Rightarrow>
          (case List.find (\<lambda>m. map_of m ''role'' = Some (JStr ''assistant'')) (rev ms) of
             Some m \<Rightarrow> text_field (jget m ''content'' (JStr []))
           | None \<Rightarrow> []))"

definition branch_tag :: "nat \<Rightarrow> str \<Rightarrow> str" where
  "branch_tag i label = or_text label (''branch_'' @ str_of_nat i)"

text \<open>One branch, run to its end; its variables start empty.\<close>

definition run_branch ::
    "'w child_run \<Rightarrow> 'w runtime \<Rightarrow> agent_graph \<Rightarrow> str \<Rightarrow> str \<Rightarrow> nat \<Rightarrow> edge \<Rightarrow> 'w run_state
      \<Rightarrow> branch_result \<times> 'w run_state" where
  "run_branch child rt g merge par i e s =
     (let (uid, w) = rt_uid rt (rs_world s); s1 = s\<lparr>rs_world := w\<rparr> in
      case build_branch uid g (e_target e) merge par of
        Inl x \<Rightarrow> (BranchRaised x, s1)
      | Inr None \<Rightarrow>
          (BranchDone i (e_label e) [] (''Error: branch '' @ str_of_nat i @ '' subgraph build failed''), s1)
      | Inr (Some sub) \<Rightarrow>
          (let r = child (child_runtime [] rt) sub []
                     (child_state (\<lambda>c. c\<lparr>cx_meta := [(''parallel_branch'', JStr (branch_tag i (e_label e)))]\<rparr>) s1);
               t = end_state (snd r); es = map fst (fst r)
           in (case snd r of
                 Raised x _ \<Rightarrow> BranchRaised x
               | Returned _ \<Rightarrow> BranchDone i (e_label e) es (branch_output es (cx_messages (rs_ctx t))),
               back_to s1 t)))"

text \<open>The branches one after the other: \<open>asyncio.gather\<close> with every result kept.\<close>

fun run_branches ::
    "'w child_run \<Rightarrow> 'w runtime \<Rightarrow> agent_graph \<Rightarrow> str \<Rightarrow> str \<Rightarrow> nat \<Rightarrow> edge list \<Rightarrow> 'w run_state
      \<Rightarrow> branch_result list \<times> 'w run_state" where
  "run_branches child rt g merge par i [] s = ([], s)"
| "run_branches child rt g merge par i (e # es) s =
     (let (r, s1) = run_branch child rt g merge par i e s;
          (rs, s2) = run_branches child rt g merge par (i + 1) es s1
      in (r # rs, s2))"

fun result_key :: "branch_result \<Rightarrow> nat" where
  "result_key (BranchDone i _ _ _) = i"
| "result_key (BranchRaised _) = 0"

definition parallel_tag :: "str \<Rightarrow> str \<Rightarrow> str" where
  "parallel_tag tag content = ''[parallel:'' @ tag @ ''] '' @ content"

fun branch_events :: "'w runtime \<Rightarrow> 'w run_state \<Rightarrow> branch_result \<Rightarrow> agent_event list" where
  "branch_events rt s (BranchRaised _) = []"
| "branch_events rt s (BranchDone i label es _) =
     map (\<lambda>e. retag rt (parallel_tag (branch_tag i label)) e s)
       (filter (\<lambda>e. ae_type e \<noteq> StartEvent \<and> ae_type e \<noteq> EndEvent) es)"

definition newline :: str where
  "newline = [CHR 0x0A]"

fun merged_output :: "'w runtime \<Rightarrow> branch_result \<Rightarrow> str list" where
  "merged_output rt (BranchRaised x) =
     [''[parallel_error]'' @ newline @ ''Error: branch failed: '' @ rt_exn_text rt x]"
| "merged_output rt (BranchDone i label _ out) =
     (if out = [] then [] else [''['' @ branch_tag i label @ '']'' @ newline @ out])"

definition next_meta :: "str \<Rightarrow> jobj" where
  "next_meta nid = [(''next_id'', JStr nid)]"

definition gather_branches ::
    "'w child_run \<Rightarrow> 'w runtime \<Rightarrow> agent_graph \<Rightarrow> str \<Rightarrow> edge list \<Rightarrow> 'w run_state \<Rightarrow> 'w run_gen" where
  "gather_branches child rt g cur outgoing s =
     (let merge = find_merge_node g outgoing;
          (results, s1) = run_branches child rt g merge cur 0 outgoing s;
          sorted = sort_key result_key results;
          outs = concat (map (merged_output rt) sorted)
      in gen_then
           (map (\<lambda>e. (e, s1)) (concat (map (branch_events rt s1) sorted)), Returned s1)
           (\<lambda>s2.
              emit rt ResultEvent
                (''Parallel fan-out complete: '' @ str_of_nat (length results) @ '' branches merged'') cur
                (next_meta merge)
                (if outs = [] then s2 else say rt ''assistant'' (py_join (newline @ newline) outs) s2)))"

definition exec_parallel ::
    "'w child_run \<Rightarrow> 'w runtime \<Rightarrow> agent_graph \<Rightarrow> str \<Rightarrow> 'w run_state \<Rightarrow> 'w run_gen" where
  "exec_parallel child rt g cur s =
     gen_then (emit rt StartEvent (''Parallel fan-out from '' @ cur) cur [] s) (\<lambda>s1.
       case get_outgoing_edges cur g of
         [] \<Rightarrow> emit rt ResultEvent ''parallel: no branches'' cur (next_meta []) s1
       | e # es \<Rightarrow>
           (if cx_plan (rs_ctx s1)
            then emit rt ResultEvent (''parallel: plan_mode sequential fallback to '' @ e_target e) cur
                   (next_meta (e_target e)) s1
            else if es = []
            then emit rt ResultEvent (''parallel: single branch to '' @ e_target e) cur
                   (next_meta (e_target e)) s1
            else gather_branches child rt g cur (e # es) s1))"

section \<open>Error handler\<close>

text \<open>The node that failed, searched for in the messages from the newest back.\<close>

fun failed_scan :: "jobj list \<Rightarrow> str" where
  "failed_scan [] = []"
| "failed_scan (m # ms) =
     (if map_of m ''role'' = Some (JStr ''assistant'') then []
      else if map_of m ''role'' = Some (JStr ''tool'')
      then (let nid = text_field (jget m ''_node_id'' (JStr []));
                call = text_field (jget m ''tool_call_id'' (JStr []))
            in if nid \<noteq> [] then nid
               else if starts_with call ''tool_'' then drop 5 call
               else failed_scan ms)
      else failed_scan ms)"

definition failed_node :: "agent_context \<Rightarrow> str" where
  "failed_node c = or_text (failed_scan (rev (cx_messages c))) (cx_node c)"

definition retry_node ::
    "'w child_run \<Rightarrow> 'w runtime \<Rightarrow> agent_graph \<Rightarrow> str \<Rightarrow> 'w run_state \<Rightarrow> 'w run_gen" where
  "retry_node child rt g nid s =
     (case get_node nid g of
        None \<Rightarrow> gen_return s
      | Some n \<Rightarrow>
          let ty = text_field (nc_type n); model = text_field (find_llm_model g); ns = rt_nodes rt in
          if ty = ''tool'' then exec_tool child rt n g s
          else if ty = ''llm'' then framed (ns_llm ns n g model []) s
          else if ty = ''rag'' then framed (ns_rag ns n g model []) s
          else if ty = ''planner'' then framed (ns_planner ns n g) s
          else if ty = ''verify'' then framed (ns_verify ns n g) s
          else if ty = ''parallel'' then exec_parallel child rt g nid s
          else if ty = ''acp'' then framed (ns_acp ns n g) s
          else gen_return s)"

text \<open>The attempts that are left after \<open>k\<close>; the continuation is the code after the loop.\<close>

fun retry_loop ::
    "'w child_run \<Rightarrow> 'w runtime \<Rightarrow> agent_graph \<Rightarrow> node_config \<Rightarrow> str \<Rightarrow> str \<Rightarrow> nat \<Rightarrow> nat
      \<Rightarrow> (nat \<Rightarrow> 'w run_state \<Rightarrow> 'w run_gen) \<Rightarrow> 'w run_state \<Rightarrow> 'w run_gen" where
  "retry_loop child rt g n nid err 0 k fin s = fin k s"
| "retry_loop child rt g n nid err (Suc left) k fin s =
     gen_then
       (emit rt Think
          (''Retry attempt '' @ str_of_nat (k + 1) @ ''/'' @ str_of_nat (k + 1 + left) @ '' for error: '' @ err)
          (node_label n)
          [(''attempt'', JInt (int (k + 1))), (''max_retries'', JInt (int (k + 1 + left))),
           (''error'', JStr err)] s)
       (\<lambda>s1. gen_then (retry_node child rt g nid s1) (\<lambda>s2.
          if cx_error (rs_ctx s2) = [] then fin (k + 1) s2
          else retry_loop child rt g n nid err left (k + 1) fin s2))"

definition exec_error_handler ::
    "'w child_run \<Rightarrow> 'w runtime \<Rightarrow> node_config \<Rightarrow> agent_graph \<Rightarrow> 'w run_state \<Rightarrow> 'w run_gen" where
  "exec_error_handler child rt n g s =
     (let nid = failed_node (rs_ctx s); err = cx_error (rs_ctx s);
          s1 = upd_ctx (\<lambda>c. c\<lparr>cx_error := []\<rparr>) s
      in gen_try (if is_integral (nc_max_retries n) then py_to_int (nc_max_retries n) else Inl TypeError) s1
           (\<lambda>mx. retry_loop child rt g n nid err (nat mx) 0
              (\<lambda>k s2.
                 if k = 0 then gen_raise NameError s2
                 else emit rt ToolResult
                        (''Error handler completed after '' @ str_of_nat k @ '' attempt(s)'')
                        (node_label n) [] s2) s1))"

end
