(* ===== verification/RuntimeInv.thy ===== *)
theory RuntimeInv
  imports RuntimeFlow
begin

text \<open>
  Invariants of the node handlers. A property of the run state that survives the elementary
  updates (the calls that change the world, the error, the checkpoint counter, the variables
  and the messages), the handlers that are arguments and the nested runs survives every node
  handler, at every event it yields and at its end. A tool only has to keep the property when
  it was admitted, and when plan mode does not block it.
\<close>

text \<open>The context of a nested run may only set its metadata.\<close>

definition meta_only :: "(agent_context \<Rightarrow> agent_context) \<Rightarrow> bool" where
  "meta_only f \<longleftrightarrow> (\<forall>c. \<exists>m. f c = c\<lparr>cx_meta := m\<rparr>)"

lemma meta_only_simps [simp]: "meta_only id" "meta_only (\<lambda>c. c\<lparr>cx_meta := m\<rparr>)"
proof -
  have "\<exists>m. c = c\<lparr>cx_meta := m\<rparr>" for c :: agent_context
    by (rule exI [of _ "cx_meta c"]) simp
  then show "meta_only id" "meta_only (\<lambda>c. c\<lparr>cx_meta := m\<rparr>)"
    by (auto simp: meta_only_def)
qed

lemma rs_ctx_world [simp]: "rs_ctx (upd_world f s) = rs_ctx s" "rs_ctx (back_to s t) = rs_ctx s"
  by (simp_all add: upd_world_def back_to_def)

text \<open>What asking for an approval relies on.\<close>

locale approval_invariant =
  fixes P :: "'w run_state \<Rightarrow> bool"
    and rt :: "'w runtime"
  assumes hook: "P s \<Longrightarrow> rt_hooks rt = Some h \<Longrightarrow> P (upd_world (h name payload) s)"
    and fresh_id: "P s \<Longrightarrow> P (s\<lparr>rs_world := snd (rt_uid rt (rs_world s))\<rparr>)"
    and asked: "P s \<Longrightarrow> P (s\<lparr>rs_world := snd (rt_answer rt aid (rs_world s))\<rparr>)"
    and error: "P s \<Longrightarrow> P (upd_ctx (\<lambda>c. c\<lparr>cx_error := e\<rparr>) s)"
begin

lemma fire_inv: "P s \<Longrightarrow> P (fire rt name payload s)"
  by (simp add: fire_def hook split: option.split)

lemma emit_inv: "P s \<Longrightarrow> gen_inv P (emit rt t content node meta s)"
  by (simp add: emit_def gen_inv_yield)

lemma fail_with_inv: "P s \<Longrightarrow> gen_inv P (fail_with rt msg node meta s)"
  by (simp add: fail_with_def emit_inv error)

lemma emit_then_inv:
  "P s \<Longrightarrow> gen_inv P (k s) \<Longrightarrow> gen_inv P (gen_then (emit rt t content node meta s) k)"
  by (simp add: gen_inv_def gen_then_def emit_def gen_yield_def)

lemma settle_inv: "P s \<Longrightarrow> gen_inv P (settle_approval rt v a category label ok s)"
  unfolding settle_approval_def Let_def
  by (intro gen_intros emit_inv error fire_inv)

lemma ask_human_inv: "P s \<Longrightarrow> gen_inv P (ask_human rt v pm category label s)"
proof -
  assume s: "P s"
  have id: "P (s\<lparr>rs_world := w\<rparr>)" if "rt_uid rt (rs_world s) = (a, w)" for a w
    using fresh_id [OF s] that by simp
  have ans: "P (t\<lparr>rs_world := w\<rparr>)" if "P t" "rt_answer rt a (rs_world t) = (r, w)" for t a r w
    using asked [OF that(1), of a] that(2) by simp
  show ?thesis
    unfolding ask_human_def Let_def
    by (auto split: prod.split approval_answer.split intro!: gen_intros emit_inv settle_inv error fire_inv
        intro: ans s id)
qed

lemma await_inv: "P s \<Longrightarrow> gen_inv P (await_approval rt v category label tool params s)"
  unfolding await_approval_def
  by (auto split: option.split prod.split decision.split intro!: gen_intros emit_inv ask_human_inv)

end

text \<open>It does not touch the plan mode.\<close>

abbreviation plan_is :: "bool \<Rightarrow> 'w run_state \<Rightarrow> bool" where
  "plan_is b \<equiv> \<lambda>t. cx_plan (rs_ctx t) = b"

interpretation plan_kept: approval_invariant "plan_is b" rt for b rt
  by unfold_locales (simp_all add: upd_ctx_def)

locale run_invariant = approval_invariant P rt
  for P :: "'w run_state \<Rightarrow> bool" and rt :: "'w runtime" +
  fixes child :: "'w child_run"
  assumes humans: "P s \<Longrightarrow> P (s\<lparr>rs_world := snd (rt_human rt iid (rs_world s))\<rparr>)"
    and saved: "P s \<Longrightarrow> rt_store rt = Some st \<Longrightarrow>
      P (s\<lparr>rs_world := snd (st_save st gname sid nid doc (rs_world s))\<rparr>)"
    and funnel: "P s \<Longrightarrow>
      P (s\<lparr>rs_world := snd (ns_admit (rt_nodes rt) (rs_ctx s) tool args label ok (rs_world s))\<rparr>)"
    and tools: "P s \<Longrightarrow> \<not> plan_blocked (rs_ctx s) tool \<Longrightarrow>
      ns_admit (rt_nodes rt) (rs_ctx s) tool args label ok (rs_world s) = ((ad, sf, es), w) \<Longrightarrow>
      ad_allowed ad \<Longrightarrow> \<not> ad_needs_approval ad \<Longrightarrow> args' \<in> {args, ad_args ad} \<Longrightarrow>
      P (s\<lparr>rs_world := snd (run_tool rt (rs_ctx s) tool args' w)\<rparr>)"
    and nested: "P s \<Longrightarrow> meta_only f \<Longrightarrow>
      gen_inv (\<lambda>t. P (back_to s t)) (child (child_runtime seed rt) sub inp (child_state f s))"
    and fails: "P s \<Longrightarrow> P (upd_ctx (\<lambda>c. c\<lparr>cx_ckpt_fails := n\<rparr>) s)"
    and variable: "P s \<Longrightarrow> P (put_var k v s)"
    and seeded: "P s \<Longrightarrow> P (seed_vars rt s)"
    and message: "P s \<Longrightarrow> P (upd_ctx (add_message cap role content [] call []) s)"
    and stamped: "P s \<Longrightarrow> P (upd_ctx (\<lambda>c. c\<lparr>cx_messages := set_last (AList.update k (JStr label)) (cx_messages c)\<rparr>) s)"
    and llm: "P s \<Longrightarrow> gen_inv P (framed (ns_llm (rt_nodes rt) nd g model prompt) s)"
    and rag: "P s \<Longrightarrow> gen_inv P (framed (ns_rag (rt_nodes rt) nd g model prompt) s)"
    and planner: "P s \<Longrightarrow> gen_inv P (framed (ns_planner (rt_nodes rt) nd g) s)"
    and verify: "P s \<Longrightarrow> gen_inv P (framed (ns_verify (rt_nodes rt) nd g) s)"
    and acp: "P s \<Longrightarrow> gen_inv P (framed (ns_acp (rt_nodes rt) nd g) s)"
    and captured: "P s \<Longrightarrow> P (s\<lparr>rs_world := snd (rt_tool rt ''screenshot'' [] (rs_world s))\<rparr>)"
    and judged: "P s \<Longrightarrow> ns_assertion (rt_nodes rt) = Some f2 \<Longrightarrow>
      P (s\<lparr>rs_world := snd (f2 (rs_ctx s) nd result frame wd ht (rs_world s))\<rparr>)"
begin

lemma say_inv: "P s \<Longrightarrow> P (say rt role content s)"
  by (simp add: say_def message)

lemma save_checkpoint_inv: "P s \<Longrightarrow> P (save_checkpoint rt g s)"
proof -
  assume s: "P s"
  have f: "P (upd_ctx (\<lambda>c. c\<lparr>cx_ckpt_fails := Suc (cx_ckpt_fails c)\<rparr>) t)" if "P t" for t
    using fails [OF that, of "Suc (cx_ckpt_fails (rs_ctx t))"] by (simp add: upd_ctx_def)
  have w: "P (s\<lparr>rs_world := w\<rparr>)"
    if "rt_store rt = Some st" "st_save st gn sid nid doc (rs_world s) = (ok, w)" for st gn sid nid doc ok w
    using saved [OF s that(1), of gn sid nid doc] that(2) by simp
  show ?thesis
    using s by (auto simp: save_checkpoint_def Let_def intro!: f fire_inv fails w
        split: option.split prod.split)
qed

lemma add_tool_message_inv: "P s \<Longrightarrow> P (add_tool_message rt tool label result s)"
proof -
  assume s: "P s"
  let ?f = "add_message (env_cap (rt_env rt ''FUSION_CONTEXT_MAX_MESSAGES'')) ''tool''
      (py_str (rt_pl rt) result) [] (''tool_'' @ tool) []"
  have "add_tool_message rt tool label result s
      = upd_ctx (\<lambda>c. c\<lparr>cx_messages := set_last (AList.update ''_node_id'' (JStr label)) (cx_messages c)\<rparr>)
          (upd_ctx ?f s)"
    by (simp add: add_tool_message_def upd_ctx_def Let_def)
  then show ?thesis using stamped [OF message [OF s]] by simp
qed

lemma apply_output_mapping_inv: "P s \<Longrightarrow> P (apply_output_mapping pl m result s)"
  unfolding apply_output_mapping_def
  by (induction m arbitrary: s)
    (auto simp: map_output_entry_def variable split: prod.split option.split)

lemma judge_capture_inv: "P s \<Longrightarrow> gen_inv P (judge_capture rt n result frame wd ht s)"
proof -
  assume s: "P s"
  have w: "P (s\<lparr>rs_world := w\<rparr>)"
    if "ns_assertion (rt_nodes rt) = Some f" "f (rs_ctx s) n result frame wd ht (rs_world s) = (r, w)" for f r w
    using judged [OF s that(1), of n result frame wd ht] that(2) by simp
  show ?thesis
    using s by (auto simp: judge_capture_def Let_def split: option.split prod.split intro!: gen_intros w)
qed

lemma post_action_inv: "P s \<Longrightarrow> gen_inv P (post_action rt n result s)"
  using captured [of s]
  by (auto simp: post_action_def capture_frame_def Let_def split: prod.split
      intro!: gen_intros judge_capture_inv)

lemma map_and_post_inv: "P s \<Longrightarrow> gen_inv P (map_and_post rt n result s)"
  unfolding map_and_post_def Let_def
  by (auto split: option.split intro!: gen_intros post_action_inv apply_output_mapping_inv)

lemma finish_tool_inv: "P s \<Longrightarrow> gen_inv P (finish_tool rt n g tool result s)"
  unfolding finish_tool_def Let_def
  by (auto split: option.split intro!: gen_intros map_and_post_inv add_tool_message_inv error)

lemma refuse_tool_inv: "P s \<Longrightarrow> gen_inv P (refuse_tool rt n tool ad s)"
  unfolding refuse_tool_def Let_def by (intro gen_intros emit_inv fire_inv error)

lemma admit_tool_inv: "P s \<Longrightarrow> admit_tool rt tool params label ok s = (r, t) \<Longrightarrow> P t"
  using funnel [of s tool params label ok]
  by (cases "ns_admit (rt_nodes rt) (rs_ctx s) tool params label ok (rs_world s)")
    (auto simp: admit_tool_def)

lemma conclude_tool_inv:
  assumes s: "P s" "\<not> plan_blocked (rs_ctx s) tool"
    and ad: "admit_tool rt tool params label ok s = ((ad, safety, es), t)"
  shows "gen_inv P (conclude_tool rt n g tool params ad safety' t)"
proof (cases "\<not> ad_allowed ad \<or> ad_needs_approval ad")
  case True
  then show ?thesis using admit_tool_inv [OF s(1) ad] by (auto simp: conclude_tool_def refuse_tool_inv)
next
  case False
  obtain w where w: "ns_admit (rt_nodes rt) (rs_ctx s) tool params label ok (rs_world s) = ((ad, safety, es), w)"
    and t: "t = s\<lparr>rs_world := w\<rparr>"
    using ad by (cases "ns_admit (rt_nodes rt) (rs_ctx s) tool params label ok (rs_world s)")
      (auto simp: admit_tool_def)
  have run: "gen_inv P (perform_tool rt n g tool args t)" if "args \<in> {params, ad_args ad}" for args
    using tools [OF s w _ _ that] False
    by (auto simp: perform_tool_def t intro!: finish_tool_inv split: prod.split)
  have "P t" by (rule admit_tool_inv [OF s(1) ad])
  then show ?thesis
    using False run
    by (auto simp: conclude_tool_def gen_then_def gen_return_def emit_def gen_yield_def gen_inv_def)
qed

lemma admitted_tool_inv:
  assumes s: "P s" "\<not> plan_blocked (rs_ctx s) tool"
  shows "gen_inv P (admitted_tool rt n g tool params s)"
proof -
  let ?R = "\<lambda>t. P t \<and> cx_plan (rs_ctx t) = cx_plan (rs_ctx s)"
  have first: "gen_inv P (conclude_tool rt n g tool params ad safety t)"
    if "admit_tool rt tool params (node_label n) False s = ((ad, safety, es), t)" for ad safety es t
    by (rule conclude_tool_inv [OF s that])
  have again: "gen_inv P (case admit_tool rt tool params (node_label n) True u of
      ((ad, safety, _), t) \<Rightarrow> conclude_tool rt n g tool params ad safety t)" if "?R u" for u
    using that s(2) by (auto split: prod.split intro!: conclude_tool_inv simp: plan_blocked_def)
  have asks: "gen_inv ?R (await_approval rt v category label tool params t)"
    if "?R t" for v category label t
    using that by (simp add: gen_inv_conj await_inv plan_kept.await_inv)
  have ad: "?R t" if "admit_tool rt tool params (node_label n) False s = (r, t)" for r t
    using admit_tool_inv [OF s(1) that] that by (auto simp: admit_tool_def split: prod.splits)
  have once: "gen_inv P (drive_then is_error (await_approval rt v ''tool_call'' (node_label n) tool params t)
      (\<lambda>s2. if cx_error (rs_ctx s2) \<noteq> [] then gen_return s2
         else case admit_tool rt tool params (node_label n) True s2 of
           ((ad, safety, _), s3) \<Rightarrow> conclude_tool rt n g tool params ad safety s3))" if "?R t" for v t
    by (rule gen_inv_drive_then2 [OF asks [OF that]]) (auto intro!: gen_intros again)
  show ?thesis
    unfolding admitted_tool_def
    by (auto split: prod.split option.split intro!: once first fail_with_inv dest: ad)
qed

lemma exec_plain_tool_inv: "P s \<Longrightarrow> gen_inv P (exec_plain_tool rt n g s)"
  unfolding exec_plain_tool_def Let_def
  by (intro gen_intros fail_with_inv admitted_tool_inv seeded) assumption+

lemma map_inputs_inv: "P s \<Longrightarrow> map_inputs pl m inp s = (inp', t) \<Longrightarrow> P t"
  by (induction pl m inp s rule: map_inputs.induct)
    (auto simp: Let_def variable split: if_splits)

lemma map_outputs_inv: "P s \<Longrightarrow> P (map_outputs m final given s)"
  by (induction m final given s rule: map_outputs.induct) (auto simp: Let_def variable)

lemma sub_graph_body_inv: "P s \<Longrightarrow> gen_inv P (sub_graph_body child rt sub ins outs s)"
proof -
  assume s: "P s"
  obtain inp t where m: "map_inputs (rt_pl rt) ins [] (seed_vars rt s) = (inp, t)"
    by (cases "map_inputs (rt_pl rt) ins [] (seed_vars rt s)")
  have t: "P t" using map_inputs_inv [OF seeded [OF s] m] .
  have b: "gen_inv (\<lambda>u. P (back_to (fire rt name payload t) u))
      (child (child_runtime seed rt) sub inp (child_state id (fire rt name payload t)))" for name payload seed
    by (intro nested fire_inv t) simp
  show ?thesis
    unfolding sub_graph_body_def Let_def m prod.case
    by (intro gen_inv_call b) (auto split: option.split intro!: gen_intros map_outputs_inv fire_inv)
qed

lemma exec_sub_graph_inv: "P s \<Longrightarrow> gen_inv P (exec_sub_graph child rt params n s)"
  unfolding exec_sub_graph_def Let_def
  by (auto split: sum.split option.split intro!: gen_intros emit_inv sub_graph_body_inv seeded)

lemma exec_tool_inv: "P s \<Longrightarrow> gen_inv P (exec_tool child rt n g s)"
  unfolding exec_tool_def by (intro gen_intros exec_sub_graph_inv exec_plain_tool_inv)

lemma exec_sub_flow_inv: "P s \<Longrightarrow> gen_inv P (exec_sub_flow child rt n s)"
  unfolding exec_sub_flow_def Let_def
  by (auto split: option.split intro!: gen_intros emit_inv exec_sub_graph_inv)

lemma iterate_items_inv:
  "(\<And>s rs. P s \<Longrightarrow> gen_inv P (fin s rs)) \<Longrightarrow> P s \<Longrightarrow>
    gen_inv P (iterate_items child rt params n out idx items results fin s)"
proof (induction items arbitrary: idx results s)
  case (Cons item items)
  note IH = Cons.IH [OF Cons.prems(1)]
  from Cons.prems(2) show ?case
    unfolding iterate_items.simps Let_def
    by (intro gen_intros exec_sub_graph_inv variable IH)
qed simp

lemma exec_iteration_inv: "P s \<Longrightarrow> gen_inv P (exec_iteration child rt n g s)"
  unfolding exec_iteration_def Let_def
  by (auto split: json.split list.split intro!: gen_intros emit_inv iterate_items_inv seeded)

lemma exec_aggregator_inv: "P s \<Longrightarrow> gen_inv P (exec_aggregator rt n g s)"
  unfolding exec_aggregator_def Let_def
  by (auto split: option.split intro!: gen_intros emit_inv variable seeded)

lemma human_decided_inv: "P s \<Longrightarrow> gen_inv P (human_decided rt n g i v d s)"
  unfolding human_decided_def Let_def by (intro gen_intros emit_inv variable)

lemma exec_human_input_inv: "P s \<Longrightarrow> gen_inv P (exec_human_input rt n g s)"
proof -
  have id: "P (t\<lparr>rs_world := w\<rparr>)" if "P t" "rt_uid rt (rs_world t) = (a, w)" for t a w
    using fresh_id [OF that(1)] that(2) by simp
  have ans: "P (t\<lparr>rs_world := w\<rparr>)" if "P t" "rt_human rt a (rs_world t) = (r, w)" for t a r w
    using humans [OF that(1), of a] that(2) by simp
  show "P s \<Longrightarrow> ?thesis"
    unfolding exec_human_input_def Let_def
    by (auto split: prod.split option.split
        intro!: gen_intros emit_inv human_decided_inv save_checkpoint_inv seeded intro: id ans)
qed

lemma gen_inv_end: "gen_inv Q g \<Longrightarrow> Q (end_state (snd g))"
  by (simp add: gen_inv_def)

lemma run_branch_inv:
  assumes s: "P s" and r: "run_branch child rt g merge par i e s = (r, t)"
  shows "P t"
proof -
  obtain uid w where u: "rt_uid rt (rs_world s) = (uid, w)" by (cases "rt_uid rt (rs_world s)")
  have s1: "P (s\<lparr>rs_world := w\<rparr>)" using fresh_id [OF s] u by simp
  show ?thesis
    using r s1 gen_inv_end [OF nested [OF s1]]
    by (auto simp: run_branch_def Let_def u split: sum.splits option.splits)
qed

lemma run_branches_inv: "P s \<Longrightarrow> run_branches child rt g merge par i es s = (rs, t) \<Longrightarrow> P t"
proof (induction es arbitrary: i s rs)
  case (Cons e es)
  then show ?case by (auto split: prod.splits dest: run_branch_inv)
qed simp

lemma gather_branches_inv: "P s \<Longrightarrow> gen_inv P (gather_branches child rt g cur out s)"
proof -
  assume s: "P s"
  obtain rs t where r: "run_branches child rt g (find_merge_node g out) cur 0 out s = (rs, t)"
    by (cases "run_branches child rt g (find_merge_node g out) cur 0 out s")
  have t: "P t" using run_branches_inv [OF s r] .
  show ?thesis
    unfolding gather_branches_def Let_def r prod.case
    by (rule gen_inv_then) (auto simp: gen_inv_def t intro!: emit_inv [unfolded gen_inv_def] say_inv)
qed

lemma exec_parallel_inv: "P s \<Longrightarrow> gen_inv P (exec_parallel child rt g cur s)"
  unfolding exec_parallel_def
  by (auto split: list.split intro!: gen_intros emit_inv gather_branches_inv)

lemma retry_node_inv: "P s \<Longrightarrow> gen_inv P (retry_node child rt g nid s)"
  unfolding retry_node_def Let_def
  by (auto split: option.split
      intro!: gen_intros exec_tool_inv exec_parallel_inv llm rag planner verify acp)

lemma retry_loop_inv:
  "(\<And>k s. P s \<Longrightarrow> gen_inv P (fin k s)) \<Longrightarrow> P s \<Longrightarrow>
    gen_inv P (retry_loop child rt g n nid err left k fin s)"
proof (induction left arbitrary: k s)
  case (Suc left)
  then show ?case by (auto intro!: gen_intros emit_inv retry_node_inv)
qed simp

lemma exec_error_handler_inv: "P s \<Longrightarrow> gen_inv P (exec_error_handler child rt n g s)"
  unfolding exec_error_handler_def Let_def
  by (auto intro!: gen_intros retry_loop_inv emit_inv error)

lemma exec_loop_inv: "P s \<Longrightarrow> exec_loop rt n g s = Inr (ev, t) \<Longrightarrow> P t"
  by (auto simp: exec_loop_def Let_def variable seeded split: option.splits if_splits)

end

end
