(* ===== verification/RuntimeLoop.thy ===== *)
theory RuntimeLoop
  imports RuntimeInv
begin

text \<open>
  The main loop of \<open>agent_runtime/runtime.py\<close>: \<open>_execute_graph_inner\<close>, one turn per
  node visit, and \<open>_run_with_trajectory\<close> around it. A turn is the body of the
  \<open>while\<close> loop; \<open>turn_end\<close> says whether it goes on to a node, returns from the
  generator, or raises.
\<close>

section \<open>Turns\<close>

datatype 's turn_end = Goto str 's | Finish 's | Crash py_exn 's

fun turn_state :: "'s turn_end \<Rightarrow> 's" where
  "turn_state (Goto c s) = s"
| "turn_state (Finish s) = s"
| "turn_state (Crash x s) = s"

type_synonym 'w turn_run = "(agent_event \<times> 'w run_state) list \<times> 'w run_state turn_end"

text \<open>Forward a handler until an event that ends the run; \<open>stopped\<close> is what happens then.\<close>

definition turn_drive ::
    "(agent_event \<Rightarrow> bool) \<Rightarrow> 'w run_gen \<Rightarrow> (agent_event \<Rightarrow> 'w run_state \<Rightarrow> 'w run_state)
      \<Rightarrow> ('w run_state \<Rightarrow> 'w turn_run) \<Rightarrow> 'w turn_run" where
  "turn_drive stop g stopped k =
     (case drive stop g of
        (ys, Abandoned s) \<Rightarrow> (ys, Finish (stopped (fst (last ys)) s))
      | (ys, Failed x s) \<Rightarrow> (ys, Crash x s)
      | (ys, Exhausted s) \<Rightarrow> (ys @ fst (k s), snd (k s)))"

definition advance :: "agent_graph \<Rightarrow> str \<Rightarrow> 'w run_state \<Rightarrow> 'w turn_run" where
  "advance g cur s = ([], Goto (case get_next_node cur [] g of None \<Rightarrow> [] | Some t \<Rightarrow> t) s)"

definition turn_yield :: "agent_event \<Rightarrow> 'w run_state \<Rightarrow> 'w turn_run \<Rightarrow> 'w turn_run" where
  "turn_yield e s t = ((e, s) # fst t, snd t)"

definition last_message :: "'w run_state \<Rightarrow> jobj" where
  "last_message s = (let ms = cx_messages (rs_ctx s) in if ms = [] then [] else last ms)"

definition set_stop :: "str \<Rightarrow> 'w run_state \<Rightarrow> 'w run_state" where
  "set_stop r = upd_ctx (\<lambda>c. c\<lparr>cx_stop := or_text (cx_stop c) r\<rparr>)"

definition force_stop :: "str \<Rightarrow> 'w run_state \<Rightarrow> 'w run_state" where
  "force_stop r = upd_ctx (\<lambda>c. c\<lparr>cx_stop := r\<rparr>)"

definition set_finished :: "'w runtime \<Rightarrow> 'w run_state \<Rightarrow> 'w run_state" where
  "set_finished rt s = upd_ctx (\<lambda>c. c\<lparr>cx_finished := rt_clock rt (rs_world s)\<rparr>) s"

definition auto_save :: "'w runtime \<Rightarrow> agent_graph \<Rightarrow> 'w run_state \<Rightarrow> 'w run_state" where
  "auto_save rt g s = (if rt_auto_checkpoint rt then save_checkpoint rt g s else s)"

definition graph_reason :: "agent_graph \<Rightarrow> str \<Rightarrow> str \<Rightarrow> jobj" where
  "graph_reason g nid reason =
     [(''graph_id'', JStr (g_id g)), (''node_id'', JStr nid), (''reason'', JStr reason)]"

section \<open>The llm node\<close>

text \<open>
  Budget accounting after a call: the totals of all messages of the context are added to the
  budget. Token counts are ints.
\<close>

definition record_run_usage :: "'w runtime \<Rightarrow> token_budget \<Rightarrow> 'w run_state \<Rightarrow> py_exn + token_budget" where
  "record_run_usage rt b s =
     bindE (token_usage (rs_ctx s)) (\<lambda>u.
       case (as_int (jget u ''prompt_tokens'' (JInt 0)), as_int (jget u ''completion_tokens'' (JInt 0)),
             as_int (jget u ''reasoning_tokens'' (JInt 0))) of
         (Some p, Some c, Some r) \<Rightarrow> Inr (record_usage (rt_today rt (rs_world s)) p c [] r b)
       | _ \<Rightarrow> Inl TypeError)"

definition prune_due :: "token_budget \<Rightarrow> 'w run_state \<Rightarrow> bool" where
  "prune_due b s \<longleftrightarrow>
     0 < bg_max b \<and> trunc (of_int (bg_max b) * (7 / 10)) \<le> bg_spent b \<and> \<not> cx_pruned (rs_ctx s)"

definition budget_meta :: "budget_status \<Rightarrow> jobj" where
  "budget_meta st =
     (let b = st_budget st in
      [(''max_tokens'', JInt (bg_max b)), (''spent_tokens'', JInt (bg_spent b)),
       (''prompt_tokens'', JInt (bg_prompt b)), (''completion_tokens'', JInt (bg_completion b)),
       (''reasoning_tokens'', JInt (bg_reasoning b)), (''remaining'', JInt (st_remaining st)),
       (''exceeded'', JBool (st_exceeded st)), (''estimated_cost'', JFloat (st_cost st)),
       (''day_max_tokens'', JInt (bg_day_max b)), (''day_spent_tokens'', JInt (bg_day_spent b)),
       (''day_key'', JStr (bg_day_key b)), (''graph_max_tokens'', JInt (bg_graph_max b)),
       (''graph_spent_tokens'', JObj (map (\<lambda>(k, v). (k, JInt v)) (bg_graph_spent b)))])"

definition prune_context :: "'w runtime \<Rightarrow> agent_graph \<Rightarrow> node_config \<Rightarrow> 'w run_state \<Rightarrow> agent_event \<times> 'w run_state" where
  "prune_context rt g n s =
     (let s1 = upd_ctx (\<lambda>c. c\<lparr>cx_pruned := True\<rparr>) s;
          tokens = rt_artifact_tokens rt (cx_agent (rs_ctx s1)) (rs_world s1);
          s2 = fire rt ''PRE_COMPACT'' (graph_reason g (node_label n) ''token_budget_pruning'') s1;
          s3 = upd_ctx (\<lambda>c. c\<lparr>cx_messages := rt_compact rt ''warning'' (cx_messages c)\<rparr>) s2
      in (event rt s3 Think ''Context proactively pruned at 70% budget'' []
            [(''pruning_threshold'', JFloat (7 / 10)), (''artifact_tokens'', JInt tokens)], s3))"

definition check_exceeded ::
    "'w runtime \<Rightarrow> token_budget \<Rightarrow> 'w run_state \<Rightarrow> ('w run_state \<Rightarrow> 'w turn_run) \<Rightarrow> 'w turn_run" where
  "check_exceeded rt b s k =
     (let today = rt_today rt (rs_world s); (over, b1) = is_exceeded today [] b in
      if over
      then let (st, b2) = budget_status_of today ''default'' [] b1; s1 = set_budget b2 s
           in turn_yield
                (event rt s1 BudgetExceeded
                   (''Token budget exceeded: '' @ str_of_int (bg_spent b1) @ ''/'' @ str_of_int (bg_max b1))
                   [] (budget_meta st)) s1
                ([], Finish (set_finished rt (force_stop ''budget_exceeded'' s1)))
      else k (set_budget b1 s))"

definition charge_budget ::
    "'w runtime \<Rightarrow> agent_graph \<Rightarrow> node_config \<Rightarrow> 'w run_state \<Rightarrow> ('w run_state \<Rightarrow> 'w turn_run) \<Rightarrow> 'w turn_run" where
  "charge_budget rt g n s k =
     (case run_budget s of
        None \<Rightarrow> k s
      | Some b \<Rightarrow>
          (case record_run_usage rt b s of
             Inl x \<Rightarrow> ([], Crash x s)
           | Inr b1 \<Rightarrow>
               (let s1 = set_budget b1 s in
                if prune_due b1 s1
                then let (ev, s2) = prune_context rt g n s1
                     in turn_yield ev s2 (check_exceeded rt b1 s2 k)
                else check_exceeded rt b1 s1 k)))"

text \<open>
  The inner agent loop: the model is called again while the last message is a tool result.
  Each round counts as an iteration of the run.
\<close>

definition compact_if_due :: "'w runtime \<Rightarrow> agent_graph \<Rightarrow> str \<Rightarrow> 'w run_state \<Rightarrow> 'w run_state" where
  "compact_if_due rt g cur s =
     (let level = rt_should_compact rt (cx_messages (rs_ctx s)) in
      if level = ''none'' then s
      else upd_ctx (\<lambda>c. c\<lparr>cx_messages := rt_compact rt level (cx_messages c)\<rparr>)
             (fire rt ''PRE_COMPACT''
                [(''graph_id'', JStr (g_id g)), (''node_id'', JStr cur),
                 (''before'', JInt (int (length (cx_messages (rs_ctx s))))), (''level'', JStr level)] s))"

definition call_llm :: "'w runtime \<Rightarrow> node_config \<Rightarrow> agent_graph \<Rightarrow> str \<Rightarrow> str \<Rightarrow> 'w run_state \<Rightarrow> 'w run_gen" where
  "call_llm rt n g model prompt = framed (ns_llm (rt_nodes rt) n g model prompt)"

fun agent_rounds ::
    "'w runtime \<Rightarrow> node_config \<Rightarrow> agent_graph \<Rightarrow> str \<Rightarrow> str \<Rightarrow> str \<Rightarrow> nat
      \<Rightarrow> ('w run_state \<Rightarrow> 'w turn_run) \<Rightarrow> 'w run_state \<Rightarrow> 'w turn_run" where
  "agent_rounds rt n g model prompt cur 0 k s =
     k (fire rt ''STOP'' (graph_reason g cur ''agent_loop_max'') s)"
| "agent_rounds rt n g model prompt cur (Suc left) k s =
     (if map_of (last_message s) ''role'' \<noteq> Some (JStr ''tool'') then k s
      else
        let s1 = upd_ctx (\<lambda>c. c\<lparr>cx_iter := cx_iter c + 1\<rparr>) s in
        if is_max_iterations_reached (rs_ctx s1) then k (set_stop ''max_iterations'' s1)
        else
          let s2 = upd_ctx (\<lambda>c. c\<lparr>cx_chain := 0\<rparr>) (compact_if_due rt g cur s1)
          in turn_drive is_error (call_llm rt n g model prompt s2) (\<lambda>_ s. s)
               (\<lambda>s3. agent_rounds rt n g model prompt cur left k (auto_save rt g s3)))"

definition loop_budget :: "node_config \<Rightarrow> nat" where
  "loop_budget n = (if truthy (nc_max_loop_iterations n)
     then (case as_int (nc_max_loop_iterations n) of Some i \<Rightarrow> nat i | None \<Rightarrow> 0) else 25)"

definition leave_llm :: "'w runtime \<Rightarrow> node_config \<Rightarrow> agent_graph \<Rightarrow> str \<Rightarrow> str \<Rightarrow> 'w run_state \<Rightarrow> 'w turn_run" where
  "leave_llm rt n g model cur s =
     (if truthy (jget (last_message s) ''tool_calls'' JNull) then ([], Goto cur s)
      else
        let s1 = upd_ctx (\<lambda>c. c\<lparr>cx_chain := 0\<rparr>) s;
            served = or_text (text_field (nc_model n)) model;
            s2 = (case rt_unload rt of
                    Some f \<Rightarrow> if served = [] then s1 else upd_world (f served) s1
                  | None \<Rightarrow> s1)
        in advance g cur s2)"

definition turn_llm :: "'w runtime \<Rightarrow> node_config \<Rightarrow> agent_graph \<Rightarrow> str \<Rightarrow> str \<Rightarrow> str \<Rightarrow> 'w run_state \<Rightarrow> 'w turn_run" where
  "turn_llm rt n g model prompt cur s =
     turn_drive is_error (call_llm rt n g model prompt s) (\<lambda>_ s. s) (\<lambda>s1.
       charge_budget rt g n (auto_save rt g s1) (\<lambda>s2.
         if text_field (nc_loop_mode n) = ''agent''
         then agent_rounds rt n g model prompt cur (loop_budget n) (leave_llm rt n g model cur) s2
         else leave_llm rt n g model cur s2))"

section \<open>The other nodes\<close>

text \<open>The start node seeds declared variables from an input that is a JSON object.\<close>

definition seed_flow :: "'w runtime \<Rightarrow> node_config \<Rightarrow> str \<Rightarrow> 'w run_state \<Rightarrow> 'w run_state" where
  "seed_flow rt n inp s =
     (let keys = (case as_strs (jget (node_params n) ''flow_state'' (JList [])) of Some ks \<Rightarrow> ks | None \<Rightarrow> []) in
      if keys = [] \<or> inp = [] then s
      else case pl_loads (rt_pl rt) inp of
             Some (JObj d) \<Rightarrow>
               fold (\<lambda>k t. case map_of d k of Some v \<Rightarrow> put_var k v t | None \<Rightarrow> t) keys s
           | _ \<Rightarrow> s)"

definition turn_loop_node :: "'w runtime \<Rightarrow> node_config \<Rightarrow> agent_graph \<Rightarrow> str \<Rightarrow> 'w run_state \<Rightarrow> 'w turn_run" where
  "turn_loop_node rt n g cur s =
     (case exec_loop rt n g s of
        Inl x \<Rightarrow> ([], Crash x s)
      | Inr (ev, s1) \<Rightarrow>
          turn_yield ev s1
            (let back = text_field (jget (node_params n) ''loop_start_node'' (JStr [])) in
             if ae_content ev = ''loop_continue'' \<and> back \<noteq> [] \<and> get_node back g \<noteq> None
             then ([], Goto back s1) else advance g cur s1))"

definition turn_condition :: "'w runtime \<Rightarrow> node_config \<Rightarrow> agent_graph \<Rightarrow> str \<Rightarrow> 'w run_state \<Rightarrow> 'w turn_run" where
  "turn_condition rt n g cur s =
     (let ev = exec_condition rt n s in
      turn_yield ev s
        ([], Goto (case get_next_node cur (ae_content ev) g of None \<Rightarrow> [] | Some t \<Rightarrow> t) s))"

text \<open>\<open>_auto_store_memory\<close>: the last question and answer, with the type and trust of the source.\<close>

definition role_contents :: "str \<Rightarrow> jobj list \<Rightarrow> str list" where
  "role_contents role ms =
     map (\<lambda>m. text_field (jget m ''content'' (JStr [])))
       (filter (\<lambda>m. map_of m ''role'' = Some (JStr role)) ms)"

definition last_text :: "str list \<Rightarrow> str" where
  "last_text xs = (if xs = [] then [] else last xs)"

definition injection_words :: "str list" where
  "injection_words = [''ignore previous'', ''ignore all'', ''system:'', ''disregard'', ''you are now'']"

definition store_memory :: "'w runtime \<Rightarrow> agent_graph \<Rightarrow> 'w run_state \<Rightarrow> 'w run_state" where
  "store_memory rt g s =
     (let c = rs_ctx s; us = role_contents ''user'' (cx_messages c);
          bs = role_contents ''assistant'' (cx_messages c) in
      case rt_memory rt of
        None \<Rightarrow> s
      | Some mem \<Rightarrow>
          if us = [] \<and> bs = [] then s
          else
            let u = last_text us; a = last_text bs;
                content = ''Q: '' @ take 200 u @ '' A: '' @ take 500 a;
                kind = mem_classify mem content; llm = (a \<noteq> []);
                suspect = (llm \<and> (\<exists>p \<in> set injection_words. py_contains p (py_lower a)))
            in upd_world
                 (mem_store mem content (''graph:'' @ g_name g) (if cx_error c = [] then 7 else 3)
                    [(''graph_id'', JStr (g_id g)), (''error'', JStr (cx_error c)),
                     (''iterations'', JInt (cx_iter c)), (''source'', JStr (if llm then ''llm'' else ''user'')),
                     (''injection_suspect'', JBool suspect)]
                    (if llm \<and> kind = ''user'' then ''project'' else kind)) s)"

definition turn_end_node :: "'w runtime \<Rightarrow> agent_graph \<Rightarrow> 'w run_state \<Rightarrow> 'w turn_run" where
  "turn_end_node rt g s =
     (let s1 = set_stop ''end_turn'' s in
      turn_yield
        (event rt s1 EndEvent ''Graph execution complete'' [] [(''stop_reason'', JStr (cx_stop (rs_ctx s1)))]) s1
        ([], Finish (fire rt ''SESSION_END'' [(''graph_id'', JStr (g_id g)), (''status'', JStr ''completed'')]
           (store_memory rt g (set_finished rt s1)))))"

definition is_paused :: "agent_event \<Rightarrow> bool" where
  "is_paused e \<longleftrightarrow> ae_type e = CheckpointEvent \<and> truthy (jget (ae_meta e) ''paused'' JNull)"

definition turn_human :: "'w runtime \<Rightarrow> node_config \<Rightarrow> agent_graph \<Rightarrow> str \<Rightarrow> 'w run_state \<Rightarrow> 'w turn_run" where
  "turn_human rt n g cur s =
     turn_drive (\<lambda>e. is_error e \<or> is_paused e) (exec_human_input rt n g s)
       (\<lambda>e t. if is_error e then t else force_stop ''paused_human_input'' t) (advance g cur)"

text \<open>The next node after a parallel node is named by the last event it yields.\<close>

definition turn_parallel :: "'w child_run \<Rightarrow> 'w runtime \<Rightarrow> agent_graph \<Rightarrow> str \<Rightarrow> 'w run_state \<Rightarrow> 'w turn_run" where
  "turn_parallel child rt g cur s =
     (let gen = exec_parallel child rt g cur s in
      turn_drive is_error gen (\<lambda>_ t. t) (\<lambda>t.
        ([], Goto (text_field (jget (ae_meta (fst (last (fst gen)))) ''next_id'' (JStr []))) t)))"

definition turn_unknown :: "'w runtime \<Rightarrow> node_config \<Rightarrow> str \<Rightarrow> 'w run_state \<Rightarrow> 'w turn_run" where
  "turn_unknown rt n cur s =
     (let msg = ''Unknown node type '' @ quoted (py_str (rt_pl rt) (nc_type n)) @ '' on node ''
                @ quoted (node_label n) @ '' (id='' @ cur @ '')'';
          s1 = upd_ctx (\<lambda>c. c\<lparr>cx_error := msg\<rparr>) s
      in turn_yield (event rt s1 ErrorEvent msg (node_label n) []) s1 ([], Finish s1))"

text \<open>The dispatch on the type of the node.\<close>

definition turn ::
    "'w child_run \<Rightarrow> 'w runtime \<Rightarrow> agent_graph \<Rightarrow> str \<Rightarrow> str \<Rightarrow> str \<Rightarrow> str \<Rightarrow> node_config \<Rightarrow> 'w run_state \<Rightarrow> 'w turn_run" where
  "turn child rt g model prompt inp cur n s =
     (let ty = text_field (nc_type n); ns = rt_nodes rt;
          plain = (\<lambda>h. turn_drive is_error h (\<lambda>_ t. t) (advance g cur)) in
      if ty = ''start'' then advance g cur (seed_flow rt n inp s)
      else if ty = ''llm'' then turn_llm rt n g model prompt cur s
      else if ty = ''tool'' then
        turn_drive is_error (exec_tool child rt n g s) (\<lambda>_ t. t) (\<lambda>t. advance g cur (auto_save rt g t))
      else if ty = ''condition'' then turn_condition rt n g cur s
      else if ty = ''loop'' then turn_loop_node rt n g cur s
      else if ty = ''iteration'' then plain (exec_iteration child rt n g s)
      else if ty = ''variable_aggregator'' then plain (exec_aggregator rt n g s)
      else if ty = ''human_input'' then turn_human rt n g cur s
      else if ty = ''sub_flow'' then plain (exec_sub_flow child rt n s)
      else if ty = ''error_handler'' then
        turn_drive (\<lambda>_. False) (exec_error_handler child rt n g s) (\<lambda>_ t. t) (advance g cur)
      else if ty = ''rag'' then plain (framed (ns_rag ns n g model prompt) s)
      else if ty = ''planner'' then plain (framed (ns_planner ns n g) s)
      else if ty = ''verify'' then plain (framed (ns_verify ns n g) s)
      else if ty = ''acp'' then plain (framed (ns_acp ns n g) s)
      else if ty = ''parallel'' then turn_parallel child rt g cur s
      else if ty = ''end'' then turn_end_node rt g s
      else turn_unknown rt n cur s)"

section \<open>Invariants of turns\<close>

definition turn_inv :: "('w run_state \<Rightarrow> bool) \<Rightarrow> 'w turn_run \<Rightarrow> bool" where
  "turn_inv P t \<longleftrightarrow> (\<forall>(e, s) \<in> set (fst t). P s) \<and> P (turn_state (snd t))"

named_theorems turn_intros \<open>introduction rules for invariants of turns\<close>

lemma turn_inv_drive [turn_intros]:
  "gen_inv P g \<Longrightarrow> (\<And>e s. P s \<Longrightarrow> P (stopped e s)) \<Longrightarrow> (\<And>s. P s \<Longrightarrow> turn_inv P (k s)) \<Longrightarrow>
    turn_inv P (turn_drive stop g stopped k)"
proof -
  assume g: "gen_inv P g" and st: "\<And>e s. P s \<Longrightarrow> P (stopped e s)" and k: "\<And>s. P s \<Longrightarrow> turn_inv P (k s)"
  obtain ys d where d: "drive stop g = (ys, d)" by (cases "drive stop g")
  from drive_inv [OF g d] st k show ?thesis
    unfolding turn_drive_def d turn_inv_def by (cases d) fastforce+
qed

lemma turn_inv_yield [turn_intros]: "P s \<Longrightarrow> turn_inv P t \<Longrightarrow> turn_inv P (turn_yield e s t)"
  by (simp add: turn_inv_def turn_yield_def)

lemma turn_inv_advance [turn_intros]: "P s \<Longrightarrow> turn_inv P (advance g cur s)"
  by (simp add: turn_inv_def advance_def)

lemma turn_inv_end [turn_intros]: "P (turn_state e) \<Longrightarrow> turn_inv P ([], e)"
  by (simp add: turn_inv_def)

lemma turn_inv_if [turn_intros]:
  "(c \<Longrightarrow> turn_inv P t) \<Longrightarrow> (\<not> c \<Longrightarrow> turn_inv P u) \<Longrightarrow> turn_inv P (if c then t else u)"
  by simp

lemma turn_inv_mono: "turn_inv P t \<Longrightarrow> (\<And>s. P s \<Longrightarrow> Q s) \<Longrightarrow> turn_inv Q t"
  by (auto simp: turn_inv_def)

text \<open>
  An invariant of the handlers that also survives the updates of the main loop, except for
  the iteration counter, is an invariant of every turn but the rounds of the agent loop.
\<close>

locale turn_invariant = run_invariant P rt child
  for P :: "'w run_state \<Rightarrow> bool" and rt :: "'w runtime" and child :: "'w child_run" +
  assumes unloaded: "P s \<Longrightarrow> rt_unload rt = Some f \<Longrightarrow> P (upd_world (f served) s)"
    and remembered: "P s \<Longrightarrow> rt_memory rt = Some mem \<Longrightarrow>
      P (upd_world (mem_store mem content source weight meta kind) s)"
    and recalled: "P s \<Longrightarrow> rt_memory rt = Some mem \<Longrightarrow>
      P (s\<lparr>rs_world := snd (mem_recall mem inp (rs_world s))\<rparr>)"
    and budget: "P s \<Longrightarrow> P (set_budget b s)"
    and stop: "P s \<Longrightarrow> P (force_stop r s)"
    and finished: "P s \<Longrightarrow> P (set_finished rt s)"
    and chain: "P s \<Longrightarrow> P (upd_ctx (\<lambda>c. c\<lparr>cx_chain := 0\<rparr>) s)"
    and pruned: "P s \<Longrightarrow> P (upd_ctx (\<lambda>c. c\<lparr>cx_pruned := True\<rparr>) s)"
    and compacted: "P s \<Longrightarrow> P (upd_ctx (\<lambda>c. c\<lparr>cx_messages := rt_compact rt level (cx_messages c)\<rparr>) s)"
begin

lemma set_stop_inv: "P s \<Longrightarrow> P (set_stop r s)"
proof -
  assume "P s"
  moreover have "set_stop r s = force_stop (or_text (cx_stop (rs_ctx s)) r) s"
    by (simp add: set_stop_def force_stop_def upd_ctx_def)
  ultimately show ?thesis by (simp add: stop)
qed

lemma auto_save_inv: "P s \<Longrightarrow> P (auto_save rt g s)"
  by (simp add: auto_save_def save_checkpoint_inv)

lemma call_llm_inv: "P s \<Longrightarrow> gen_inv P (call_llm rt n g model prompt s)"
  by (simp add: call_llm_def llm)

lemma prune_inv: "P s \<Longrightarrow> prune_context rt g n s = (ev, t) \<Longrightarrow> P t"
  by (auto simp: prune_context_def Let_def intro!: compacted fire_inv pruned)

lemma compact_if_due_inv: "P s \<Longrightarrow> P (compact_if_due rt g cur s)"
  by (simp add: compact_if_due_def Let_def compacted fire_inv)

lemma leave_llm_inv: "P s \<Longrightarrow> turn_inv P (leave_llm rt n g model cur s)"
  unfolding leave_llm_def Let_def
  by (auto split: option.split intro!: turn_intros unloaded chain)

lemma seed_flow_inv: "P s \<Longrightarrow> P (seed_flow rt n inp s)"
proof -
  assume s: "P s"
  have "P (fold (\<lambda>k t. case map_of d k of Some v \<Rightarrow> put_var k v t | None \<Rightarrow> t) ks t)" if "P t" for d ks t
    using that by (induction ks arbitrary: t) (auto intro: variable split: option.split)
  then show ?thesis
    using s by (auto simp: seed_flow_def Let_def split: option.split json.split)
qed

lemma turn_loop_inv: "P s \<Longrightarrow> turn_inv P (turn_loop_node rt n g cur s)"
  unfolding turn_loop_node_def Let_def
  by (auto split: sum.split prod.split intro!: turn_intros dest: exec_loop_inv)

lemma turn_condition_inv: "P s \<Longrightarrow> turn_inv P (turn_condition rt n g cur s)"
  unfolding turn_condition_def Let_def by (intro turn_intros) simp_all

lemma store_memory_inv: "P s \<Longrightarrow> P (store_memory rt g s)"
  by (simp add: store_memory_def Let_def remembered split: option.split)

lemma turn_end_inv: "P s \<Longrightarrow> turn_inv P (turn_end_node rt g s)"
  unfolding turn_end_node_def Let_def
  by (intro turn_intros) (simp_all add: fire_inv store_memory_inv finished set_stop_inv)

lemma turn_human_inv: "P s \<Longrightarrow> turn_inv P (turn_human rt n g cur s)"
  unfolding turn_human_def by (intro turn_intros exec_human_input_inv) (simp_all add: stop)

lemma turn_parallel_inv: "P s \<Longrightarrow> turn_inv P (turn_parallel child rt g cur s)"
  unfolding turn_parallel_def Let_def by (intro turn_intros exec_parallel_inv) simp_all

lemma turn_unknown_inv: "P s \<Longrightarrow> turn_inv P (turn_unknown rt n cur s)"
  unfolding turn_unknown_def Let_def by (intro turn_intros) (simp_all add: error)

text \<open>The budget step keeps the invariant, whatever invariant its continuation establishes.\<close>

lemma check_exceeded_inv:
  assumes s: "P s" and Q: "\<And>s. P s \<Longrightarrow> Q s" and k: "\<And>t. P t \<Longrightarrow> turn_inv Q (k t)"
  shows "turn_inv Q (check_exceeded rt b s k)"
proof -
  have "P (set_finished rt (force_stop r (set_budget b' s)))" "P (set_budget b' s)" for r b'
    using s by (simp_all add: finished stop budget)
  then show ?thesis
    unfolding check_exceeded_def Let_def
    by (auto split: prod.split intro!: turn_intros k Q)
qed

lemma charge_budget_inv:
  assumes s: "P s" and Q: "\<And>s. P s \<Longrightarrow> Q s" and k: "\<And>t. P t \<Longrightarrow> turn_inv Q (k t)"
  shows "turn_inv Q (charge_budget rt g n s k)"
proof -
  have "P t \<Longrightarrow> turn_inv Q (turn_yield ev t (check_exceeded rt b t k))" for ev t b
    by (intro turn_intros Q check_exceeded_inv k)
  moreover have "prune_context rt g n (set_budget b s) = (ev, t) \<Longrightarrow> P t" for b ev t
    using prune_inv [OF budget [OF s]] .
  ultimately show ?thesis
    using s unfolding charge_budget_def Let_def
    by (auto split: option.split sum.split prod.split
        intro!: turn_inv_end check_exceeded_inv k budget intro: Q)
qed

lemma turn_no_llm_inv:
  assumes s: "P s" and ty: "text_field (nc_type n) \<noteq> ''llm''"
  shows "turn_inv P (turn child rt g model prompt inp cur n s)"
proof -
  have plain: "turn_inv P (turn_drive stop h (\<lambda>_ t. t) (advance g cur))" if "gen_inv P h" for h stop
    using that by (intro turn_intros)
  have tool: "turn_inv P (turn_drive is_error (exec_tool child rt n g s) (\<lambda>_ t. t) (\<lambda>t. advance g cur (auto_save rt g t)))"
    using s by (intro turn_intros exec_tool_inv auto_save_inv)
  show ?thesis
    unfolding turn_def Let_def
    by (intro turn_inv_if plain tool turn_inv_advance seed_flow_inv turn_condition_inv turn_loop_inv
        exec_iteration_inv exec_aggregator_inv turn_human_inv exec_sub_flow_inv exec_error_handler_inv
        rag planner verify acp turn_parallel_inv turn_end_inv turn_unknown_inv s)
      (use ty in simp)
qed

end

text \<open>The counters of the main loop: no handler changes them.\<close>

definition counters :: "int \<Rightarrow> int \<Rightarrow> 'w run_state \<Rightarrow> bool" where
  "counters i m s \<longleftrightarrow> cx_iter (rs_ctx s) = i \<and> cx_max (rs_ctx s) = m"

lemma counters_upd: "counters i m (upd_ctx f s) \<longleftrightarrow> cx_iter (f (rs_ctx s)) = i \<and> cx_max (f (rs_ctx s)) = m"
  by (simp add: counters_def upd_ctx_def)

lemma counters_framed: "counters i m s \<Longrightarrow> gen_inv (counters i m) (framed h s)"
  by (auto simp: framed_def gen_inv_def gen_map_def counters_upd own_fields_def)
     (simp_all add: counters_def)

lemma counters_budget: "counters i m (set_budget b s) \<longleftrightarrow> counters i m s"
  by (simp add: counters_def set_budget_def split: option.split)

interpretation counters: turn_invariant "counters i m" rt child for i m rt child
  by unfold_locales
    (simp_all add: counters_framed counters_budget,
     simp_all add: counters_upd put_var_def seed_vars_def force_stop_def set_finished_def add_message_def,
     simp_all add: counters_def)

lemma turn_inv_drive2:
  "gen_inv P g \<Longrightarrow> (\<And>s. P s \<Longrightarrow> Q s) \<Longrightarrow> (\<And>e s. P s \<Longrightarrow> Q (stopped e s)) \<Longrightarrow> (\<And>s. P s \<Longrightarrow> turn_inv Q (k s)) \<Longrightarrow>
    turn_inv Q (turn_drive stop g stopped k)"
proof -
  assume g: "gen_inv P g" and q: "\<And>s. P s \<Longrightarrow> Q s" and st: "\<And>e s. P s \<Longrightarrow> Q (stopped e s)"
    and k: "\<And>s. P s \<Longrightarrow> turn_inv Q (k s)"
  obtain ys d where d: "drive stop g = (ys, d)" by (cases "drive stop g")
  from drive_inv [OF g d] q st k show ?thesis
    unfolding turn_drive_def d turn_inv_def by (cases d) fastforce+
qed

text \<open>
  A turn that starts at iteration \<open>i\<close> leaves the counter between \<open>i\<close> and one above the
  maximum: the rounds of the agent loop count before they check.
\<close>

definition in_span :: "int \<Rightarrow> int \<Rightarrow> 'w run_state \<Rightarrow> bool" where
  "in_span i m s \<longleftrightarrow>
     cx_max (rs_ctx s) = m \<and> i \<le> cx_iter (rs_ctx s) \<and> cx_iter (rs_ctx s) \<le> max i m + 1"

lemma counters_in_span: "counters j m s \<Longrightarrow> i \<le> j \<Longrightarrow> j \<le> max i m + 1 \<Longrightarrow> in_span i m s"
  by (simp add: counters_def in_span_def)

lemma in_span_counters: "in_span i m s \<Longrightarrow> counters (cx_iter (rs_ctx s)) m s"
  by (simp add: counters_def in_span_def)

lemma leave_llm_within: "in_span i m s \<Longrightarrow> turn_inv (in_span i m) (leave_llm rt n g model cur s)"
proof -
  assume w: "in_span i m s"
  show ?thesis
    by (rule turn_inv_mono [OF counters.leave_llm_inv [OF in_span_counters [OF w]]])
      (use w in \<open>auto simp: in_span_def counters_def\<close>)
qed

lemma agent_rounds_within:
  assumes k: "\<And>t. in_span i m t \<Longrightarrow> turn_inv (in_span i m) (k t)"
  shows "counters j m s \<Longrightarrow> i \<le> j \<Longrightarrow> j \<le> max i m \<Longrightarrow>
    turn_inv (in_span i m) (agent_rounds rt n g model prompt cur left k s)"
proof (induction left arbitrary: j s)
  case 0
  then show ?case by (auto intro!: k counters_in_span [of j] counters.fire_inv)
next
  case (Suc left)
  let ?s1 = "upd_ctx (\<lambda>c. c\<lparr>cx_iter := cx_iter c + 1\<rparr>) s"
  have s1: "counters (j + 1) m ?s1" using Suc.prems(1) by (simp add: counters_def upd_ctx_def)
  show ?case
  proof (cases "map_of (last_message s) ''role'' \<noteq> Some (JStr ''tool'') \<or> is_max_iterations_reached (rs_ctx ?s1)")
    case True
    have "in_span i m s" "in_span i m (set_stop ''max_iterations'' ?s1)"
      using Suc.prems counters.set_stop_inv [OF s1]
      by (auto intro: counters_in_span [of j] counters_in_span [of "j + 1"])
    then show ?thesis using True by (auto simp: Let_def intro: k)
  next
    case False
    then have lt: "j + 1 < m" using s1 by (simp add: is_max_iterations_reached_def counters_def)
    let ?s2 = "upd_ctx (\<lambda>c. c\<lparr>cx_chain := 0\<rparr>) (compact_if_due rt g cur ?s1)"
    have s2: "counters (j + 1) m ?s2" using s1 by (intro counters.chain counters.compact_if_due_inv)
    have w: "in_span i m t" if "counters (j + 1) m t" for t :: "'a run_state"
      using that Suc.prems lt by (intro counters_in_span [of "j + 1"]) auto
    have "turn_inv (in_span i m)
        (turn_drive is_error (call_llm rt n g model prompt ?s2) (\<lambda>_ s. s)
          (\<lambda>s3. agent_rounds rt n g model prompt cur left k (auto_save rt g s3)))"
      by (rule turn_inv_drive2 [where P = "counters (j + 1) m"])
        (use Suc.prems lt s2 in \<open>auto intro!: counters.call_llm_inv w Suc.IH [of "j + 1"] counters.auto_save_inv\<close>)
    then show ?thesis using False by (simp add: Let_def)
  qed
qed

lemma turn_llm_within:
  assumes s: "counters i m s"
  shows "turn_inv (in_span i m) (turn_llm rt n g model prompt cur s)"
proof -
  have w: "in_span i m t" if "counters i m t" for t :: "'a run_state"
    using that by (intro counters_in_span [of i]) auto
  have rest: "turn_inv (in_span i m)
      (if text_field (nc_loop_mode n) = ''agent''
       then agent_rounds rt n g model prompt cur (loop_budget n) (leave_llm rt n g model cur) t
       else leave_llm rt n g model cur t)" if "counters i m t" for t
    using that by (auto intro!: agent_rounds_within [of i m _ i] leave_llm_within w)
  show ?thesis
    unfolding turn_llm_def
    by (rule turn_inv_drive2 [where P = "counters i m"])
      (auto intro!: counters.call_llm_inv s w counters.charge_budget_inv rest counters.auto_save_inv)
qed

lemma turn_in_span:
  "counters i m s \<Longrightarrow> turn_inv (in_span i m) (turn child rt g model prompt inp cur n s)"
proof (cases "text_field (nc_type n) = ''llm''")
  case True
  assume "counters i m s"
  with True show ?thesis by (simp add: turn_def turn_llm_within)
next
  case False
  assume c: "counters i m s"
  show ?thesis
    by (rule turn_inv_mono [OF counters.turn_no_llm_inv [OF c False]]) (auto intro: counters_in_span [of i])
qed

section \<open>The main loop\<close>

definition visit :: "'w runtime \<Rightarrow> str \<Rightarrow> node_config \<Rightarrow> 'w run_state \<Rightarrow> 'w run_state" where
  "visit rt cur n s =
     (let s1 = upd_ctx (\<lambda>c. c\<lparr>cx_iter := cx_iter c + 1, cx_node := cur\<rparr>) s
      in fire rt ''NODE_BEFORE''
           [(''node_id'', JStr cur), (''node_type'', nc_type n), (''iteration'', JInt (cx_iter (rs_ctx s1)))] s1)"

text \<open>\<open>NODE_AFTER\<close> names the node that is current when the body of the loop is left.\<close>

definition node_after :: "'w runtime \<Rightarrow> str \<Rightarrow> node_config \<Rightarrow> 'w run_state \<Rightarrow> 'w run_state" where
  "node_after rt cur n s =
     fire rt ''NODE_AFTER''
       [(''node_id'', JStr cur), (''node_type'', nc_type n), (''iteration'', JInt (cx_iter (rs_ctx s)))] s"

definition after_loop :: "'w runtime \<Rightarrow> agent_graph \<Rightarrow> 'w run_state \<Rightarrow> 'w run_gen" where
  "after_loop rt g s =
     gen_then
       (if is_max_iterations_reached (rs_ctx s)
        then gen_then
               (fail_with rt ''Max iterations exceeded'' [] [] (set_stop ''max_iterations'' s))
               (\<lambda>t. gen_return (fire rt ''STOP''
                  [(''graph_id'', JStr (g_id g)), (''reason'', JStr ''max_iterations'')] t))
        else gen_return s)
       (\<lambda>t. gen_return (store_memory rt g (set_finished rt t)))"

definition missing_node :: "'w runtime \<Rightarrow> str \<Rightarrow> 'w run_state \<Rightarrow> 'w run_gen" where
  "missing_node rt cur s = fail_with rt (''Node '' @ quoted cur @ '' not found'') [] [] s"

lemma turn_progress:
  "\<not> is_max_iterations_reached (rs_ctx s) \<Longrightarrow>
   turn child rt g model prompt inp cur n (visit rt cur n s) = (ys, Goto nxt t) \<Longrightarrow>
   nat (cx_max (rs_ctx (node_after rt nxt n t)) - cx_iter (rs_ctx (node_after rt nxt n t)))
     < nat (cx_max (rs_ctx s) - cx_iter (rs_ctx s))"
proof -
  assume r: "\<not> is_max_iterations_reached (rs_ctx s)"
    and t: "turn child rt g model prompt inp cur n (visit rt cur n s) = (ys, Goto nxt t)"
  let ?i = "cx_iter (rs_ctx s) + 1" and ?m = "cx_max (rs_ctx s)"
  have "counters ?i ?m (visit rt cur n s)"
    by (simp add: visit_def Let_def counters_def upd_ctx_def)
  from turn_in_span [OF this, of child rt g model prompt inp cur n] t have "in_span ?i ?m t"
    by (simp add: turn_inv_def)
  then show ?thesis using r by (simp add: in_span_def is_max_iterations_reached_def node_after_def)
qed

function main_loop ::
    "'w child_run \<Rightarrow> 'w runtime \<Rightarrow> agent_graph \<Rightarrow> str \<Rightarrow> str \<Rightarrow> str \<Rightarrow> str \<Rightarrow> 'w run_state \<Rightarrow> 'w run_gen" where
  "main_loop child rt g model prompt inp cur s =
     (if cur = [] \<or> is_max_iterations_reached (rs_ctx s) then after_loop rt g s
      else case get_node cur g of
        None \<Rightarrow> missing_node rt cur s
      | Some n \<Rightarrow>
          (case turn child rt g model prompt inp cur n (visit rt cur n s) of
             (ys, Goto nxt t) \<Rightarrow>
               (let rest = main_loop child rt g model prompt inp nxt (node_after rt nxt n t)
                in (ys @ fst rest, snd rest))
           | (ys, Finish t) \<Rightarrow> (ys, Returned (node_after rt cur n t))
           | (ys, Crash x t) \<Rightarrow> (ys, Raised x (node_after rt cur n t))))"
  by pat_completeness auto
termination
proof (relation "measure (\<lambda>(child, rt, g, model, prompt, inp, cur, s).
    nat (cx_max (rs_ctx s) - cx_iter (rs_ctx s)))", goal_cases)
  case 1
  show ?case by simp
next
  case (2 child rt g model prompt inp cur s n ys en nxt t)
  then have "turn child rt g model prompt inp cur n (visit rt cur n s) = (ys, Goto nxt t)" by simp
  with 2 show ?case by (simp add: turn_progress del: zless_nat_conj nat_diff_distrib')
qed

declare main_loop.simps [simp del]

end
