(* ===== verification/Runtime.thy ===== *)
theory Runtime
  imports RuntimeLoop
begin

text \<open>
  Whole executions: the entry of \<open>_execute_graph_inner\<close>, the wrapper
  \<open>_run_with_trajectory\<close> that links the events into a chain, nested executions, and
  \<open>resume_from_checkpoint\<close> (\<open>agent_runtime/_runtime_checkpoint.py\<close>). Trajectory files,
  telemetry, persona declarations and the resident reviewers are left out, and so are the
  \<open>ERROR\<close> and \<open>CHECKPOINT\<close> hooks that the wrapper fires between two events
  and the copy of the checkpoint in the metadata of the first event of a resumed run.
\<close>

section \<open>The entry of a run\<close>

definition issue_text :: "pylib \<Rightarrow> graph_issue \<Rightarrow> str" where
  "issue_text pl i =
     (case i of
        NoStartNode \<Rightarrow> ''Graph has no start node''
      | NoNodes \<Rightarrow> ''Graph has no nodes''
      | StartNotFound n \<Rightarrow> ''Start node '' @ quoted n @ '' not found in nodes''
      | EdgeSourceMissing n \<Rightarrow> ''Edge source '' @ quoted n @ '' not found in nodes''
      | EdgeTargetMissing n \<Rightarrow> ''Edge target '' @ quoted n @ '' not found in nodes''
      | NodeUnreachable n \<Rightarrow> ''Node '' @ quoted n @ '' is unreachable from start''
      | UnknownNodeType n ty \<Rightarrow>
          ''Node '' @ quoted n @ '' has unknown type '' @ quoted (py_str pl ty)
          @ ''; expected one of: acp, condition, end, error_handler, human_input, iteration, llm, loop, ''
          @ ''parallel, planner, rag, start, sub_flow, tool, variable_aggregator, verify''
      | ToolNotInRegistry n t \<Rightarrow>
          ''Node '' @ quoted n @ '' tool_name '' @ quoted (py_str pl t) @ '' not in registry''
      | ConditionUnparseable n e \<Rightarrow> ''Node '' @ quoted n @ '' condition_expr unparseable: '' @ repr_str e
      | UnknownToolParam n k t \<Rightarrow>
          ''warning: Node '' @ quoted n @ '' tool_params key '' @ quoted (py_str pl k)
          @ '' not in tool '' @ quoted (py_str pl t) @ '' schema'')"

definition enter_run :: "'w runtime \<Rightarrow> agent_graph \<Rightarrow> int option \<Rightarrow> 'w run_state \<Rightarrow> 'w run_state" where
  "enter_run rt g override s =
     seed_vars rt (upd_ctx (\<lambda>c. c\<lparr>
       cx_started := rt_clock rt (rs_world s),
       cx_max := (case override of Some m \<Rightarrow> if m = 0 then rt_max_iterations rt else m
                  | None \<Rightarrow> rt_max_iterations rt),
       cx_chain := 0,
       cx_plan := (g_plan_mode g \<or> cx_plan c),
       cx_meta := (if truthy (g_policy g) then AList.update ''confirmation_policy'' (g_policy g) (cx_meta c)
                   else cx_meta c)\<rparr>) s)"

text \<open>\<open>_memory_inject_tokens\<close>, and \<open>text[:n]\<close> for a possibly negative \<open>n\<close>.\<close>

definition memory_cap :: "'w runtime \<Rightarrow> int" where
  "memory_cap rt =
     (let raw = or_text (rt_env rt ''FUSION_MEMORY_INJECT_TOKENS'') ''2000''
      in case py_int (py_strip raw) of Some n \<Rightarrow> n * 4 | None \<Rightarrow> 8000)"

definition slice_to :: "int \<Rightarrow> 'a list \<Rightarrow> 'a list" where
  "slice_to n xs = take (nat (if n < 0 then n + int (length xs) else n)) xs"

definition recall_memory :: "'w runtime \<Rightarrow> str \<Rightarrow> 'w run_state \<Rightarrow> 'w run_state" where
  "recall_memory rt inp s =
     (case rt_memory rt of
        None \<Rightarrow> s
      | Some mem \<Rightarrow>
          if inp = [] then s
          else
            let (found, w) = mem_recall mem inp (rs_world s); s1 = s\<lparr>rs_world := w\<rparr>;
                cap = memory_cap rt;
                text = (if cap < int (length found) then slice_to cap found else found)
            in if found = [] then s1 else say rt ''system'' (''[Relevant memory]: '' @ text) s1)"

definition start_prompt :: "'w runtime \<Rightarrow> agent_graph \<Rightarrow> 'w run_state \<Rightarrow> str" where
  "start_prompt rt g s =
     (case get_node (g_start g) g of
        None \<Rightarrow> []
      | Some n \<Rightarrow> interpolate (rt_pl rt) (vars_of s) (text_field (nc_system_prompt n)))"

definition has_llm_nodes :: "agent_graph \<Rightarrow> bool" where
  "has_llm_nodes g \<longleftrightarrow> (\<exists>(nid, n) \<in> set (g_nodes g). nc_type n = JStr ''llm'')"

text \<open>From the first event on: the user message, recalled memory, and the loop.\<close>

definition begin_run :: "'w child_run \<Rightarrow> 'w runtime \<Rightarrow> agent_graph \<Rightarrow> str \<Rightarrow> 'w run_state \<Rightarrow> 'w run_gen" where
  "begin_run child rt g inp0 s0 =
     (let s1 = fire rt ''SESSION_START'' (hook_ids g) s0;
          inp = interpolate (rt_pl rt) (vars_of s1) inp0;
          s2 = say rt ''user'' inp s1;
          s3 = recall_memory rt inp
                 (fire rt ''USER_PROMPT_SUBMIT'' [(''input'', JStr inp), (''graph_id'', JStr (g_id g))] s2);
          model = text_field (find_llm_model g)
      in if has_llm_nodes g \<and> model = []
         then fail_with rt ''No LLM model configured in graph'' [] [] s3
         else main_loop child rt g model (start_prompt rt g s3) inp (g_start g)
                (upd_ctx (\<lambda>c. c\<lparr>cx_node := g_start g\<rparr>) s3))"

definition execute_inner ::
    "'w child_run \<Rightarrow> 'w runtime \<Rightarrow> agent_graph \<Rightarrow> str \<Rightarrow> int option \<Rightarrow> 'w run_state \<Rightarrow> 'w run_gen" where
  "execute_inner child rt g inp override s0 =
     (let s = enter_run rt g override s0 in
      gen_try (validate None g) s (\<lambda>issues.
        if issues \<noteq> []
        then fail_with rt (py_join ''; '' (map (issue_text (rt_pl rt)) issues)) [] [] s
        else gen_then (emit rt StartEvent (''Starting: '' @ g_name g) [] [] s)
               (begin_run child rt g inp)))"

section \<open>The chain of events\<close>

fun stamp :: "(nat \<Rightarrow> str) \<Rightarrow> nat \<Rightarrow> str \<Rightarrow> (agent_event \<times> 's) list \<Rightarrow> (agent_event \<times> 's) list" where
  "stamp ids i prev [] = []"
| "stamp ids i prev ((e, s) # es) =
     (let e1 = (if ae_id e = [] then e\<lparr>ae_id := ids i\<rparr> else e);
          e2 = (if ae_parent e1 = [] then e1\<lparr>ae_parent := prev\<rparr> else e1)
      in (e2, s) # stamp ids (i + 1) (ae_id e2) es)"

definition run_status :: "'w run_gen \<Rightarrow> str" where
  "run_status g =
     (if (\<exists>(e, s) \<in> set (fst g). is_error e) then ''error''
      else case snd g of Returned _ \<Rightarrow> ''completed'' | Raised _ _ \<Rightarrow> ''error'')"

definition run_graph ::
    "'w child_run \<Rightarrow> 'w runtime \<Rightarrow> agent_graph \<Rightarrow> str \<Rightarrow> int option \<Rightarrow> 'w run_state \<Rightarrow> 'w run_gen" where
  "run_graph child rt g inp override s0 =
     (let ids = hook_ids g @ [(''session_id'', JStr (cx_session (rs_ctx s0)))];
          s = fire rt ''GRAPH_BEFORE'' ids
                (upd_ctx (\<lambda>c. c\<lparr>cx_graph := or_text (cx_graph c) (g_id g)\<rparr>) s0);
          r = execute_inner child rt g inp override s
      in (stamp (rt_event_id rt (cx_session (rs_ctx s0))) 0 [] (fst r),
          map_ending (fire rt ''GRAPH_AFTER'' (ids @ [(''status'', JStr (run_status r))])) (snd r)))"

text \<open>
  Nested runs. The first argument bounds the nesting, as Python's recursion limit does; it is
  never reached when it exceeds the bound proved in \<open>RuntimeProps\<close>.
\<close>

primrec execute :: "nat \<Rightarrow> 'w child_run" where
  "execute 0 rt g inp s = gen_raise RuntimeError s"
| "execute (Suc d) rt g inp s = run_graph (execute d) rt g inp None s"

definition execute_graph ::
    "nat \<Rightarrow> 'w runtime \<Rightarrow> agent_graph \<Rightarrow> str \<Rightarrow> int option \<Rightarrow> 'w run_state \<Rightarrow> 'w run_gen" where
  "execute_graph d rt g inp override s = run_graph (execute d) rt g inp override s"

section \<open>Resuming\<close>

text \<open>
  The state document of a checkpoint; None when a field has a type other than the one that
  \<open>checkpoint_doc\<close> writes.
\<close>

definition resumed_context ::
    "agent_graph \<Rightarrow> str \<Rightarrow> str \<Rightarrow> jobj \<Rightarrow> jobj \<Rightarrow> agent_context option" where
  "resumed_context g session node st human =
     do {
       ms \<leftarrow> field as_objs st ''messages'' [];
       it \<leftarrow> field as_int st ''iteration_count'' 0;
       chain \<leftarrow> field as_int st ''tool_call_chain_count'' 0;
       vs \<leftarrow> field as_obj st ''variables'' [];
       let pending = jget st ''pending_tool_calls'' (JList []);
       Some ((new_context session)\<lparr>cx_messages := ms, cx_iter := it,
         cx_node := or_text node (g_start g), cx_chain := chain,
         cx_meta := (if truthy pending then [(''pending_tool_calls'', pending)] else []),
         cx_vars := Some (fold (\<lambda>(k, v). set_var k v) human (fold (\<lambda>(k, v). set_var k v) vs []))\<rparr>)
     }"

definition checkpoint_state :: "pylib \<Rightarrow> str \<Rightarrow> py_exn + jobj" where
  "checkpoint_state pl text =
     (if text = [] then Inr []
      else case pl_loads pl text of
             None \<Rightarrow> Inr []
           | Some (JObj d) \<Rightarrow> Inr d
           | Some _ \<Rightarrow> Inl AttributeError)"

definition resume_from_checkpoint ::
    "nat \<Rightarrow> 'w runtime \<Rightarrow> agent_graph \<Rightarrow> str \<Rightarrow> jobj \<Rightarrow> 'w run_state \<Rightarrow> 'w run_gen option" where
  "resume_from_checkpoint d rt g session human s =
     (case rt_store rt of
        None \<Rightarrow> Some (emit rt ErrorEvent ''No store configured for checkpoint resume'' [] [] s)
      | Some st \<Rightarrow>
          (case st_latest st (g_name g) session (rs_world s) of
             None \<Rightarrow> Some (emit rt ErrorEvent
               (''No checkpoint found for graph='' @ g_name g @ '' session='' @ session) [] [] s)
           | Some (node, text) \<Rightarrow>
               (case checkpoint_state (rt_pl rt) text of
                  Inl x \<Rightarrow> Some (gen_raise x s)
                | Inr doc \<Rightarrow>
                    map_option
                      (\<lambda>c. let s1 = s\<lparr>rs_ctx := c\<rparr> in
                        gen_then
                          (emit rt CheckpointEvent
                             (''Resumed from checkpoint at node '' @ quoted (cx_node c)) [] [] s1)
                          (execute_graph d rt g [] None))
                      (resumed_context g session node doc human))))"

end
