(* ===== verification/RuntimeWide.thy ===== *)
theory RuntimeWide
  imports Runtime
begin

text \<open>
  Invariants of whole executions: from the node handlers (\<open>RuntimeInv\<close>) and the turns
  (\<open>RuntimeLoop\<close>) to every event and the end of a run, nested runs included. The first
  instance is the type of the context; the iteration bound is proved beside it.
\<close>

section \<open>From turns to runs\<close>

lemma snd_stamp: "map snd (stamp ids i prev es) = map snd es"
  by (induction ids i prev es rule: stamp.induct) (simp_all add: Let_def)

lemma gen_inv_snd: "gen_inv P g \<longleftrightarrow> (\<forall>s \<in> set (map snd (fst g)). P s) \<and> P (end_state (snd g))"
  by (auto simp: gen_inv_def)

lemma gen_inv_stamp:
  "gen_inv P g \<Longrightarrow> (\<And>s. P s \<Longrightarrow> P (h s)) \<Longrightarrow>
    gen_inv P (stamp ids i prev (fst g), map_ending h (snd g))"
  by (simp add: gen_inv_snd snd_stamp del: set_map)

text \<open>The main loop, one turn at a time.\<close>

lemma main_loop_exit:
  "cur = [] \<or> is_max_iterations_reached (rs_ctx s) \<Longrightarrow>
    main_loop child rt g model prompt inp cur s = after_loop rt g s"
  by (subst main_loop.simps) simp

lemma main_loop_turn:
  "cur \<noteq> [] \<Longrightarrow> \<not> is_max_iterations_reached (rs_ctx s) \<Longrightarrow> get_node cur g = Some n \<Longrightarrow>
    turn child rt g model prompt inp cur n (visit rt cur n s) = (ys, en) \<Longrightarrow>
    main_loop child rt g model prompt inp cur s =
      (case en of
         Goto nxt t \<Rightarrow>
           (ys @ fst (main_loop child rt g model prompt inp nxt (node_after rt nxt n t)),
            snd (main_loop child rt g model prompt inp nxt (node_after rt nxt n t)))
       | Finish t \<Rightarrow> (ys, Returned (node_after rt cur n t))
       | Crash x t \<Rightarrow> (ys, Raised x (node_after rt cur n t)))"
  by (subst main_loop.simps) (simp add: Let_def)

lemma main_loop_missing:
  "cur \<noteq> [] \<Longrightarrow> \<not> is_max_iterations_reached (rs_ctx s) \<Longrightarrow> get_node cur g = None \<Longrightarrow>
    main_loop child rt g model prompt inp cur s = missing_node rt cur s"
  by (subst main_loop.simps) simp

lemma main_loop_rule [case_names exit missing step]:
  fixes R :: "str \<Rightarrow> 'w run_state \<Rightarrow> 'w run_gen \<Rightarrow> bool"
  assumes exit: "\<And>cur s. cur = [] \<or> is_max_iterations_reached (rs_ctx s) \<Longrightarrow> R cur s (after_loop rt g s)"
    and missing: "\<And>cur s. cur \<noteq> [] \<Longrightarrow> \<not> is_max_iterations_reached (rs_ctx s) \<Longrightarrow>
        get_node cur g = None \<Longrightarrow> R cur s (missing_node rt cur s)"
    and step: "\<And>cur s n ys en. cur \<noteq> [] \<Longrightarrow> \<not> is_max_iterations_reached (rs_ctx s) \<Longrightarrow>
        get_node cur g = Some n \<Longrightarrow>
        turn child rt g model prompt inp cur n (visit rt cur n s) = (ys, en) \<Longrightarrow>
        (\<And>nxt t. en = Goto nxt t \<Longrightarrow> R nxt (node_after rt nxt n t)
           (main_loop child rt g model prompt inp nxt (node_after rt nxt n t))) \<Longrightarrow>
        R cur s (case en of
            Goto nxt t \<Rightarrow>
              (ys @ fst (main_loop child rt g model prompt inp nxt (node_after rt nxt n t)),
               snd (main_loop child rt g model prompt inp nxt (node_after rt nxt n t)))
          | Finish t \<Rightarrow> (ys, Returned (node_after rt cur n t))
          | Crash x t \<Rightarrow> (ys, Raised x (node_after rt cur n t)))"
  shows "R cur s (main_loop child rt g model prompt inp cur s)"
proof (induction "nat (cx_max (rs_ctx s) - cx_iter (rs_ctx s))" arbitrary: cur s rule: less_induct)
  case less
  show ?case
  proof (cases "cur = [] \<or> is_max_iterations_reached (rs_ctx s)")
    case True
    then show ?thesis by (simp add: main_loop_exit exit)
  next
    case run: False
    show ?thesis
    proof (cases "get_node cur g")
      case None
      then show ?thesis using run by (simp add: main_loop_missing missing)
    next
      case (Some n)
      obtain ys en where t: "turn child rt g model prompt inp cur n (visit rt cur n s) = (ys, en)"
        by (cases "turn child rt g model prompt inp cur n (visit rt cur n s)")
      show ?thesis
        unfolding main_loop_turn [OF run [simplified, THEN conjunct1] run [simplified, THEN conjunct2] Some t]
        using run Some t by (intro step) (auto intro: less turn_progress)
    qed
  qed
qed

context turn_invariant
begin

lemma node_after_inv: "P s \<Longrightarrow> P (node_after rt cur n s)"
  unfolding node_after_def by (rule fire_inv)

lemma after_loop_inv: "P s \<Longrightarrow> gen_inv P (after_loop rt g s)"
  unfolding after_loop_def
  by (intro gen_intros fail_with_inv set_stop_inv fire_inv store_memory_inv finished)


lemma recall_memory_inv: "P s \<Longrightarrow> P (recall_memory rt inp s)"
proof -
  have w: "P (t\<lparr>rs_world := w\<rparr>)"
    if "P t" "rt_memory rt = Some mem" "mem_recall mem q (rs_world t) = (r, w)" for t mem q r w
    using recalled [OF that(1,2), of q] that(3) by simp
  show "P s \<Longrightarrow> ?thesis"
    by (auto simp: recall_memory_def Let_def intro: say_inv w split: option.split prod.split)
qed

end

text \<open>With the rounds of the agent loop, an invariant of every turn.\<close>

locale rounds_invariant = turn_invariant P rt child
  for P :: "'w run_state \<Rightarrow> bool" and rt :: "'w runtime" and child :: "'w child_run" +
  assumes counted: "P s \<Longrightarrow> P (upd_ctx (\<lambda>c. c\<lparr>cx_iter := cx_iter c + 1\<rparr>) s)"
begin

lemma agent_rounds_inv:
  "(\<And>t. P t \<Longrightarrow> turn_inv P (k t)) \<Longrightarrow> P s \<Longrightarrow>
    turn_inv P (agent_rounds rt n g model prompt cur left k s)"
proof (induction left arbitrary: s)
  case (Suc left)
  note IH = Suc.IH [OF Suc.prems(1)]
  from Suc.prems(2) show ?case
    unfolding agent_rounds.simps Let_def
    by (intro turn_intros Suc.prems(1) IH call_llm_inv auto_save_inv chain compact_if_due_inv
        set_stop_inv counted)
qed (simp add: fire_inv)

lemma turn_llm_inv: "P s \<Longrightarrow> turn_inv P (turn_llm rt n g model prompt cur s)"
  unfolding turn_llm_def
  by (intro turn_intros call_llm_inv charge_budget_inv auto_save_inv agent_rounds_inv leave_llm_inv)

lemma turn_any_inv: "P s \<Longrightarrow> turn_inv P (turn child rt g model prompt inp cur n s)"
proof (cases "text_field (nc_type n) = ''llm''")
  case True
  assume "P s"
  with True show ?thesis by (simp add: turn_def turn_llm_inv)
qed (simp add: turn_no_llm_inv)

end

locale wide_invariant = rounds_invariant P rt child
  for P :: "'w run_state \<Rightarrow> bool" and rt :: "'w runtime" and child :: "'w child_run" +
  assumes visited: "P s \<Longrightarrow> P (upd_ctx (\<lambda>c. c\<lparr>cx_iter := cx_iter c + 1, cx_node := nid\<rparr>) s)"
    and placed: "P s \<Longrightarrow> P (upd_ctx (\<lambda>c. c\<lparr>cx_node := nid\<rparr>) s)"
    and entered: "P s \<Longrightarrow> P (enter_run rt g override s)"
    and identified: "P s \<Longrightarrow> P (upd_ctx (\<lambda>c. c\<lparr>cx_graph := or_text (cx_graph c) gid\<rparr>) s)"
begin

lemma visit_inv: "P s \<Longrightarrow> P (visit rt cur n s)"
  unfolding visit_def Let_def by (intro fire_inv visited)

lemma main_loop_inv: "P s \<Longrightarrow> gen_inv P (main_loop child rt g model prompt inp cur s)"
proof -
  have "P s \<longrightarrow> gen_inv P (main_loop child rt g model prompt inp cur s)"
  proof (rule main_loop_rule [where R = "\<lambda>cur s r. P s \<longrightarrow> gen_inv P r"], goal_cases)
    case (1 cur s)
    show ?case by (simp add: after_loop_inv)
  next
    case (2 cur s)
    show ?case by (auto simp: missing_node_def intro: fail_with_inv)
  next
    case (3 cur s n ys en)
    have "P s \<Longrightarrow> turn_inv P (ys, en)"
      using turn_any_inv [OF visit_inv] 3(4) by metis
    then show ?case
      using 3(5) by (cases en) (auto simp: gen_inv_def turn_inv_def intro: node_after_inv)
  qed
  then show "P s \<Longrightarrow> ?thesis" by simp
qed

lemma begin_run_inv: "P s \<Longrightarrow> gen_inv P (begin_run child rt g inp s)"
  unfolding begin_run_def Let_def
  by (intro gen_intros fail_with_inv main_loop_inv placed recall_memory_inv fire_inv say_inv)

lemma execute_inner_inv: "P s \<Longrightarrow> gen_inv P (execute_inner child rt g inp override s)"
  unfolding execute_inner_def Let_def
  by (intro gen_intros fail_with_inv emit_inv begin_run_inv entered)

lemma run_graph_inv: "P s \<Longrightarrow> gen_inv P (run_graph child rt g inp override s)"
  unfolding run_graph_def Let_def
  by (rule gen_inv_stamp) (intro execute_inner_inv fire_inv identified, assumption, rule fire_inv)

end

end
