(* ===== verification/RuntimeTypes.thy ===== *)
theory RuntimeTypes
  imports RuntimeWide
begin

text \<open>
  The type of an execution context: what the handlers of a run may rely on, kept from the
  first event to the end whatever graph is executed.
\<close>

section \<open>Well-formed contexts\<close>






















end
