(* ===== verification/RuntimeEnds.thy ===== *)
theory RuntimeEnds
  imports RuntimeWide
begin

text \<open>
  How a run progresses and ends: the bound on its iteration counter, what its last event says,
  and the chain that its events form.
\<close>

section \<open>Iterations\<close>

definition iteration_limit :: "'w runtime \<Rightarrow> int option \<Rightarrow> int" where
  "iteration_limit rt override =
     (case override of Some m \<Rightarrow> if m = 0 then rt_max_iterations rt else m
      | None \<Rightarrow> rt_max_iterations rt)"

lemma counters_enter:
  "counters (cx_iter (rs_ctx s)) (iteration_limit rt override) (enter_run rt g override s)"
  unfolding enter_run_def iteration_limit_def
  by (rule counters.seeded) (simp add: counters_upd)

lemma gen_span:
  "i \<le> j \<Longrightarrow> j \<le> max i m + 1 \<Longrightarrow> gen_inv (counters j m) r \<Longrightarrow> gen_inv (in_span i m) r"
  by (erule gen_inv_mono) (rule counters_in_span)

lemma main_loop_span:
  "in_span i m s \<longrightarrow> gen_inv (in_span i m) (main_loop child rt g model prompt inp cur s)"
proof (rule main_loop_rule [where R = "\<lambda>cur s r. in_span i m s \<longrightarrow> gen_inv (in_span i m) r"], goal_cases)
  case (1 cur s)
  show ?case
    by (auto simp: in_span_def intro!: gen_span [OF _ _ counters.after_loop_inv [of "cx_iter (rs_ctx s)"]])
      (simp add: counters_def)
next
  case (2 cur s)
  show ?case
    unfolding missing_node_def
    by (auto simp: in_span_def intro!: gen_span [OF _ _ counters.fail_with_inv [of "cx_iter (rs_ctx s)"]])
      (simp add: counters_def)
next
  case (3 cur s n ys en)
  show ?case
  proof
    assume s: "in_span i m s"
    let ?j = "cx_iter (rs_ctx s) + 1"
    have "counters ?j m (visit rt cur n s)"
      using s by (simp add: visit_def Let_def counters_def in_span_def upd_ctx_def)
    from turn_in_span [OF this, of child rt g model prompt inp cur n]
    have t: "turn_inv (in_span ?j m) (ys, en)" by (simp add: 3(4))
    have j: "i \<le> ?j" "?j \<le> m" using s 3(2) by (auto simp: in_span_def is_max_iterations_reached_def)
    then have w: "in_span ?j m u \<Longrightarrow> in_span i m u" for u :: "'a run_state"
      by (auto simp: in_span_def)
    have after: "in_span i m (node_after rt c n u) \<longleftrightarrow> in_span i m u" for c and u :: "'a run_state"
      by (simp add: node_after_def in_span_def)
    show "gen_inv (in_span i m) (case en of
              Goto nxt t \<Rightarrow>
                (ys @ fst (main_loop child rt g model prompt inp nxt (node_after rt nxt n t)),
                 snd (main_loop child rt g model prompt inp nxt (node_after rt nxt n t)))
            | Finish t \<Rightarrow> (ys, Returned (node_after rt cur n t))
            | Crash x t \<Rightarrow> (ys, Raised x (node_after rt cur n t)))"
      using t 3(5) w by (cases en) (auto simp: gen_inv_def turn_inv_def after)
  qed
qed

lemma begin_run_span:
  assumes c: "counters i m s"
  shows "gen_inv (in_span i m) (begin_run child rt g inp s)"
proof -
  have placed: "counters i m (upd_ctx (\<lambda>c. c\<lparr>cx_node := nid\<rparr>) t)" if "counters i m t" for nid and t :: "'a run_state"
    using that by (simp add: counters_def upd_ctx_def)
  let ?s1 = "fire rt ''SESSION_START'' (hook_ids g) s"
  let ?inp = "interpolate (rt_pl rt) (vars_of ?s1) inp"
  have s3: "counters i m (recall_memory rt ?inp (fire rt ''USER_PROMPT_SUBMIT''
      [(''input'', JStr ?inp), (''graph_id'', JStr (g_id g))] (say rt ''user'' ?inp ?s1)))"
    using c by (intro counters.recall_memory_inv counters.fire_inv counters.say_inv)
  show ?thesis
    unfolding begin_run_def Let_def
    using s3 placed [OF s3]
    by (auto intro!: main_loop_span [rule_format] gen_span [of i i m, OF _ _ counters.fail_with_inv]
        counters_in_span [of i])
qed

text \<open>
  C28: The iteration counter of a run never exceeds the larger of its start value and the limit by
  more than one (the rounds of the agent loop count before they check), never decreases, and the limit stays the one the run
  was started with, at every event and at the end, whatever the graph and the handlers do.
\<close>

theorem run_iterations_bounded:
  "gen_inv (\<lambda>t. cx_max (rs_ctx t) = iteration_limit rt override
      \<and> cx_iter (rs_ctx s) \<le> cx_iter (rs_ctx t)
      \<and> cx_iter (rs_ctx t) \<le> max (cx_iter (rs_ctx s)) (iteration_limit rt override) + 1)
    (execute_graph d rt g inp override s)"
proof -
  let ?i = "cx_iter (rs_ctx s)" and ?m = "iteration_limit rt override"
  have inner: "gen_inv (in_span ?i ?m) (execute_inner child rt g inp override u)"
    if "cx_iter (rs_ctx u) = ?i" for child and u :: "'a run_state"
  proof -
    have c: "counters ?i ?m (enter_run rt g override u)"
      using counters_enter [of u rt override g] that by simp
    have fw: "gen_inv (in_span ?i ?m) (fail_with rt msg nd meta (enter_run rt g override u))" for msg nd meta
      by (rule gen_span [OF _ _ counters.fail_with_inv [OF c]]) auto
    have st: "gen_inv (in_span ?i ?m) (gen_then (emit rt t a b meta (enter_run rt g override u))
        (begin_run child rt g inp))" for t a b meta
      using begin_run_span [OF c] counters_in_span [OF c, of ?i]
      by (simp add: gen_inv_def gen_then_def emit_def gen_yield_def)
    show ?thesis
      unfolding execute_inner_def Let_def
      using counters_in_span [OF c, of ?i] by (intro gen_intros fw st) auto
  qed
  have "gen_inv (in_span ?i ?m) (execute_graph d rt g inp override s)"
    unfolding execute_graph_def run_graph_def Let_def
    by (rule gen_inv_stamp) (intro inner, simp_all add: upd_ctx_def in_span_def)
  then show ?thesis by (rule gen_inv_mono) (simp add: in_span_def)
qed

section \<open>Endings\<close>

text \<open>The events after which a run returns.\<close>

definition final_event :: "agent_event \<Rightarrow> bool" where
  "final_event e \<longleftrightarrow> is_error e \<or> ae_type e \<in> {EndEvent, BudgetExceeded} \<or> is_paused e"

definition turn_ends :: "'w turn_run \<Rightarrow> bool" where
  "turn_ends t \<longleftrightarrow> (\<forall>s. snd t = Finish s \<longrightarrow> fst t \<noteq> [] \<and> final_event (fst (last (fst t))))"

named_theorems end_intros \<open>rules for how turns end\<close>

lemma turn_ends_drive [end_intros]:
  "(\<And>e. stop e \<Longrightarrow> final_event e) \<Longrightarrow> (\<And>s. turn_ends (k s)) \<Longrightarrow> turn_ends (turn_drive stop g stopped k)"
proof -
  assume stop: "\<And>e. stop e \<Longrightarrow> final_event e" and k: "\<And>s. turn_ends (k s)"
  obtain ys r where t: "take_until stop (fst g) = (ys, r)" by (cases "take_until stop (fst g)")
  from take_until_facts [OF t] stop k show ?thesis
    by (auto simp: turn_drive_def turn_ends_def drive_def t split: option.split ending.split)
qed

lemma turn_ends_yield [end_intros]:
  "(\<And>s. snd t = Finish s \<Longrightarrow> fst t = [] \<Longrightarrow> final_event e) \<Longrightarrow>
    fst t \<noteq> [] \<Longrightarrow> turn_ends t \<Longrightarrow> turn_ends (turn_yield e s t)"
  by (auto simp: turn_ends_def turn_yield_def)

lemma turn_ends_goto [simp]: "turn_ends (ys, Goto c s)" "turn_ends (ys, Crash x s)"
  by (simp_all add: turn_ends_def)

lemma turn_ends_final: "final_event e \<Longrightarrow> turn_ends (turn_yield e s ([], Finish t))"
  by (simp add: turn_ends_def turn_yield_def)

lemma turn_ends_yield_on: "turn_ends t \<Longrightarrow> turn_ends (turn_yield e s t)"
  by (auto simp: turn_ends_def turn_yield_def)

lemma turn_ends_advance [simp]: "turn_ends (advance g cur s)"
  by (simp add: advance_def)

lemma ae_type_event [simp]: "ae_type (event rt s t content node meta) = t"
  by (simp add: event_def new_event_def event_post_init_def)

lemma leave_llm_ends [simp]: "turn_ends (leave_llm rt n g model cur s)"
  by (simp add: leave_llm_def Let_def)

lemma agent_rounds_ends:
  "(\<And>t. turn_ends (k t)) \<Longrightarrow> turn_ends (agent_rounds rt n g model prompt cur left k s)"
proof (induction left arbitrary: s)
  case (Suc left)
  then show ?case
    by (auto simp: Let_def final_event_def intro!: turn_ends_drive)
qed simp

lemma check_exceeded_ends: "(\<And>t. turn_ends (k t)) \<Longrightarrow> turn_ends (check_exceeded rt b s k)"
  by (auto simp: check_exceeded_def Let_def final_event_def intro!: turn_ends_final split: prod.split)

lemma charge_budget_ends: "(\<And>t. turn_ends (k t)) \<Longrightarrow> turn_ends (charge_budget rt g n s k)"
  by (auto simp: charge_budget_def Let_def
      intro!: check_exceeded_ends turn_ends_yield_on split: option.split sum.split prod.split)

lemma turn_ends_turn: "turn_ends (turn child rt g model prompt inp cur n s)"
proof -
  have plain: "turn_ends (turn_drive is_error h (\<lambda>_ t. t) (advance g cur))" for h
    by (rule turn_ends_drive) (simp_all add: final_event_def)
  have llm: "turn_ends (turn_llm rt n g model prompt cur s)"
    unfolding turn_llm_def
    by (intro turn_ends_drive charge_budget_ends) (simp_all add: final_event_def agent_rounds_ends)
  have human: "turn_ends (turn_human rt n g cur s)"
    unfolding turn_human_def by (rule turn_ends_drive) (auto simp: final_event_def)
  have handler: "turn_ends (turn_drive (\<lambda>_. False) h (\<lambda>_ t. t) (advance g cur))" for h
    by (rule turn_ends_drive) simp_all
  have tool: "turn_ends (turn_drive is_error h (\<lambda>_ t. t) (\<lambda>t. advance g cur (auto_save rt g t)))" for h
    by (rule turn_ends_drive) (simp_all add: final_event_def)
  have par: "turn_ends (turn_parallel child rt g cur s)"
    unfolding turn_parallel_def Let_def by (rule turn_ends_drive) (simp_all add: final_event_def)
  have others: "turn_ends (turn_condition rt n g cur s)" "turn_ends (turn_loop_node rt n g cur s)"
    by (auto simp: turn_condition_def turn_loop_node_def Let_def
        intro!: turn_ends_yield_on split: sum.split)
  have final: "turn_ends (turn_end_node rt g s)" "turn_ends (turn_unknown rt n cur s)"
    by (auto simp: turn_end_node_def turn_unknown_def Let_def final_event_def is_error_def
        intro!: turn_ends_final)
  show ?thesis
    unfolding turn_def Let_def by (simp add: plain llm human handler tool par others final)
qed

text \<open>
  A turn leads nowhere when the edges of its node name no next node: for a condition node none
  for the result it reports, for a parallel node none in its last event, for the others no
  edge without a label to follow.
\<close>

definition no_target :: "agent_graph \<Rightarrow> str \<Rightarrow> str \<Rightarrow> bool" where
  "no_target g nid result \<longleftrightarrow> get_next_node nid result g \<in> {None, Some []}"

definition no_way :: "agent_graph \<Rightarrow> str \<Rightarrow> node_config \<Rightarrow> agent_event list \<Rightarrow> bool" where
  "no_way g nid n es \<longleftrightarrow>
     (if text_field (nc_type n) = ''condition'' then es \<noteq> [] \<and> no_target g nid (ae_content (last es))
      else if text_field (nc_type n) = ''parallel''
      then es \<noteq> [] \<and> text_field (jget (ae_meta (last es)) ''next_id'' (JStr [])) = []
      else no_target g nid [])"

lemma no_way_append: "no_way g nid n es \<Longrightarrow> no_way g nid n (ds @ es)"
  by (auto simp: no_way_def split: if_splits)

definition turn_dead :: "agent_graph \<Rightarrow> str \<Rightarrow> 'w turn_run \<Rightarrow> bool" where
  "turn_dead g nid t \<longleftrightarrow> (\<forall>s. snd t = Goto [] s \<longrightarrow> no_target g nid [])"

lemma turn_dead_drive: "(\<And>s. turn_dead g nid (k s)) \<Longrightarrow> turn_dead g nid (turn_drive stop h stopped k)"
  by (auto simp: turn_dead_def turn_drive_def split: prod.splits drive_end.splits)

lemma turn_dead_yield [simp]: "turn_dead g nid (turn_yield e s t) = turn_dead g nid t"
  by (simp add: turn_dead_def turn_yield_def)

lemma turn_dead_simps [simp]:
  "turn_dead g nid (advance g nid s)" "turn_dead g nid (ys, Finish s)" "turn_dead g nid (ys, Crash x s)"
  "c \<noteq> [] \<Longrightarrow> turn_dead g nid (ys, Goto c s)"
  by (auto simp: turn_dead_def advance_def no_target_def split: option.splits)

lemma agent_rounds_dead:
  "(\<And>t. turn_dead g nid (k t)) \<Longrightarrow> turn_dead g nid (agent_rounds rt n g model prompt cur left k s)"
  by (induction left arbitrary: s) (auto simp: Let_def intro!: turn_dead_drive)

lemma check_exceeded_dead: "(\<And>t. turn_dead g nid (k t)) \<Longrightarrow> turn_dead g nid (check_exceeded rt b s k)"
  by (simp add: check_exceeded_def Let_def split: prod.split)

lemma charge_budget_dead: "(\<And>t. turn_dead g nid (k t)) \<Longrightarrow> turn_dead g nid (charge_budget rt g' n s k)"
  by (simp add: charge_budget_def Let_def check_exceeded_dead split: option.split sum.split prod.split)

lemma turn_no_way:
  assumes t: "turn child rt g model prompt inp cur n s = (ys, Goto [] t)" and cur: "cur \<noteq> []"
  shows "no_way g cur n (map fst ys)"
proof -
  let ?ty = "text_field (nc_type n)"
  have plain: "turn_dead g cur (turn_drive stop h (\<lambda>_ t. t) (advance g cur))" for stop h
    by (rule turn_dead_drive) simp
  have leave: "turn_dead g cur (leave_llm rt n g model cur u)" for u
    using cur by (simp add: leave_llm_def Let_def)
  have llm: "turn_dead g cur (turn_llm rt n g model prompt cur s)"
    unfolding turn_llm_def
    by (intro turn_dead_drive charge_budget_dead) (simp add: agent_rounds_dead leave)
  have human: "turn_dead g cur (turn_human rt n g cur s)"
    unfolding turn_human_def by (rule turn_dead_drive) simp
  have tool: "turn_dead g cur (turn_drive is_error h (\<lambda>_ t. t) (\<lambda>t. advance g cur (auto_save rt g t)))" for h
    by (rule turn_dead_drive) simp
  have loop: "turn_dead g cur (turn_loop_node rt n g cur s)"
    by (simp add: turn_loop_node_def Let_def split: sum.split)
  have final: "turn_dead g cur (turn_end_node rt g s)" "turn_dead g cur (turn_unknown rt n cur s)"
    by (simp_all add: turn_end_node_def turn_unknown_def Let_def)
  consider "?ty = ''condition''" | "?ty = ''parallel''" | "?ty \<notin> {''condition'', ''parallel''}" by blast
  then show ?thesis
  proof cases
    case 1
    then show ?thesis
      using t by (auto simp: turn_def turn_condition_def turn_yield_def no_way_def no_target_def Let_def
          split: option.splits)
  next
    case 2
    let ?h = "exec_parallel child rt g cur s"
    obtain u where u: "drive is_error ?h = (fst ?h, Exhausted u)" and ys: "ys = fst ?h"
      and nxt: "text_field (jget (ae_meta (fst (last (fst ?h)))) ''next_id'' (JStr [])) = []"
      using t 2 take_until_facts [of is_error "fst ?h"]
      by (auto simp: turn_def turn_parallel_def turn_drive_def Let_def drive_def
          split: prod.splits drive_end.splits option.splits ending.splits)
    have "fst ?h \<noteq> []" by (simp add: exec_parallel_def gen_then_def emit_def gen_yield_def)
    then show ?thesis using 2 nxt by (simp add: no_way_def ys last_map)
  next
    case 3
    then have "turn_dead g cur (turn child rt g model prompt inp cur n s)"
      unfolding turn_def Let_def by (simp add: plain llm human tool loop final)
    then show ?thesis using 3 t by (simp add: turn_dead_def no_way_def)
  qed
qed

text \<open>No turn changes which node is current.\<close>

interpretation at_node: rounds_invariant "\<lambda>s. cx_node (rs_ctx s) = nid" rt child for nid rt child
proof unfold_locales
qed (auto simp: framed_def gen_inv_def gen_map_def own_fields_def set_budget_def put_var_def seed_vars_def
    force_stop_def set_finished_def add_message_def upd_ctx_def split: option.splits)

lemma turn_at_node:
  "turn child rt g model prompt inp cur n (visit rt cur n s) = (ys, en) \<Longrightarrow> cx_node (rs_ctx (turn_state en)) = cur"
proof -
  assume t: "turn child rt g model prompt inp cur n (visit rt cur n s) = (ys, en)"
  have "cx_node (rs_ctx (visit rt cur n s)) = cur" by (simp add: visit_def Let_def upd_ctx_def)
  from at_node.turn_any_inv [OF this, of child rt g model prompt inp cur n] t show ?thesis
    by (simp add: turn_inv_def)
qed

text \<open>The run is stuck: its current node is a node of the graph that leads nowhere.\<close>

definition stuck :: "agent_graph \<Rightarrow> 'w run_state \<Rightarrow> agent_event list \<Rightarrow> bool" where
  "stuck g s es \<longleftrightarrow> (\<exists>n. get_node (cx_node (rs_ctx s)) g = Some n \<and> no_way g (cx_node (rs_ctx s)) n es)"

definition ends_well :: "agent_graph \<Rightarrow> agent_event list \<Rightarrow> 'w run_state ending \<Rightarrow> bool" where
  "ends_well g es en \<longleftrightarrow>
     (\<forall>t. en = Returned t \<longrightarrow>
        es \<noteq> [] \<and> final_event (last es) \<or> cx_iter (rs_ctx t) < cx_max (rs_ctx t) \<and> stuck g t es)"

lemma stuck_ctx: "cx_node (rs_ctx t) = cx_node (rs_ctx s) \<Longrightarrow> stuck g t es = stuck g s es"
  by (simp add: stuck_def)

lemma fail_with_ends: "ends_well g (es @ map fst (fst (fail_with rt msg nd meta s))) (snd (fail_with rt msg nd meta s))"
  by (simp add: ends_well_def fail_with_def emit_def gen_yield_def final_event_def is_error_def)

lemma after_loop_ends:
  "(\<not> is_max_iterations_reached (rs_ctx s) \<Longrightarrow> stuck g s es) \<Longrightarrow>
    ends_well g (es @ map fst (fst (after_loop rt g s))) (snd (after_loop rt g s))"
  by (auto simp: ends_well_def after_loop_def gen_then_def gen_return_def fail_with_def emit_def gen_yield_def
      final_event_def is_error_def is_max_iterations_reached_def store_memory_def set_finished_def stuck_def
      upd_ctx_def upd_world_def Let_def split: option.splits)

lemma main_loop_ends:
  "(cur = [] \<longrightarrow> stuck g s es) \<longrightarrow>
    ends_well g (es @ map fst (fst (main_loop child rt g model prompt inp cur s)))
      (snd (main_loop child rt g model prompt inp cur s))"
proof -
  have "\<forall>es. (cur = [] \<longrightarrow> stuck g s es) \<longrightarrow>
    ends_well g (es @ map fst (fst (main_loop child rt g model prompt inp cur s)))
      (snd (main_loop child rt g model prompt inp cur s))"
  proof (rule main_loop_rule [where R = "\<lambda>cur s r. \<forall>es. (cur = [] \<longrightarrow> stuck g s es)
      \<longrightarrow> ends_well g (es @ map fst (fst r)) (snd r)"], goal_cases)
    case (1 cur s)
    then show ?case using after_loop_ends by blast
  next
    case (2 cur s)
    then show ?case by (simp add: missing_node_def fail_with_ends)
  next
    case (3 cur s n ys en)
    have e: "turn_ends (ys, en)" using turn_ends_turn 3(4) by metis
    have at: "cx_node (rs_ctx (turn_state en)) = cur" by (rule turn_at_node [OF 3(4)])
    show ?case
    proof (cases en)
      case (Goto nxt t)
      have "stuck g (node_after rt nxt n t) (es @ map fst ys)" if "nxt = []" for es
        using turn_no_way [OF _ 3(1)] 3(3,4) at that Goto no_way_append
        by (fastforce simp: stuck_def node_after_def)
      then show ?thesis using 3(5) [OF Goto] by (simp add: Goto) (metis append.assoc)
    next
      case (Finish t)
      then show ?thesis using e by (auto simp: ends_well_def turn_ends_def last_map)
    next
      case (Crash x t)
      then show ?thesis by (simp add: ends_well_def)
    qed
  qed
  then show ?thesis by blast
qed

lemma execute_inner_ends:
  assumes "snd (execute_inner child rt g inp override s) = Returned t"
  shows "fst (execute_inner child rt g inp override s) \<noteq> []
    \<and> ends_well g (map fst (fst (execute_inner child rt g inp override s)))
        (snd (execute_inner child rt g inp override s))"
proof -
  let ?s = "enter_run rt g override s"
  have fw: "fst (fail_with rt msg nd meta u) \<noteq> []
      \<and> ends_well g (map fst (fst (fail_with rt msg nd meta u))) (snd (fail_with rt msg nd meta u))" for msg nd meta u
    using fail_with_ends [of g "[]" rt msg nd meta u] by (simp add: fail_with_def emit_def gen_yield_def)
  obtain issues where v: "validate None g = Inr issues"
    using assms by (cases "validate None g") (auto simp: execute_inner_def gen_try_def gen_raise_def Let_def)
  show ?thesis
  proof (cases "issues = []")
    case False
    then show ?thesis using fw by (simp add: execute_inner_def v gen_try_def Let_def)
  next
    case True
    then have st: "g_start g \<noteq> []" using v validate_clean_iff by (auto simp: well_formed_def)
    have "ends_well g (es @ map fst (fst (begin_run child rt g inp u))) (snd (begin_run child rt g inp u))" for es u
      using st by (auto simp: begin_run_def Let_def fail_with_ends intro!: main_loop_ends [rule_format])
    then show ?thesis
      using True by (simp add: execute_inner_def v gen_try_def Let_def gen_then_def emit_def gen_yield_def)
        (metis append_Cons append_Nil)
  qed
qed

lemma stamp_last:
  "es \<noteq> [] \<Longrightarrow> \<exists>e i p. last (stamp ids k prev es) = (e\<lparr>ae_id := i, ae_parent := p\<rparr>, snd (last es)) \<and> e = fst (last es)"
proof (induction ids k prev es rule: stamp.induct)
  case (2 ids i prev e s es)
  show ?case
  proof (cases es)
    case Nil
    then show ?thesis by (cases e) (auto simp: Let_def)
  next
    case (Cons e' es')
    moreover have "stamp ids j q (e' # es') \<noteq> []" for j q by (cases e') (simp add: Let_def)
    ultimately show ?thesis using "2.IH" [OF refl refl] by (simp add: Let_def)
  qed
qed simp

lemma run_graph_parts:
  "\<exists>u ids h. run_graph child rt g inp override s =
      (stamp ids 0 [] (fst (execute_inner child rt g inp override u)),
       map_ending h (snd (execute_inner child rt g inp override u)))
    \<and> (\<forall>v. rs_ctx (h v) = rs_ctx v)"
  unfolding run_graph_def Let_def by (intro exI conjI, rule refl) simp

text \<open>
  C11: Every run that returns says why: it yields at least one event, and its last event is an error,
  the end of the graph, an exceeded budget or a pause for human input. The one exception is a run
  that led nowhere: iterations are left, and its current node is a node of the graph from which no
  edge leads on (for a condition node: none for the result in the last event; for a parallel
  node: the last event names no next node). A run that uses up its iterations and a run sent to
  a node that does not exist always report it.
\<close>

theorem run_ends_with_reason:
  "case execute_graph d rt g inp override s of
     (ys, Returned t) \<Rightarrow> ys \<noteq> []
       \<and> (final_event (fst (last ys))
          \<or> cx_iter (rs_ctx t) < cx_max (rs_ctx t)
            \<and> (\<exists>n. get_node (cx_node (rs_ctx t)) g = Some n \<and> no_way g (cx_node (rs_ctx t)) n (map fst ys)))
   | (ys, Raised x t) \<Rightarrow> True"
proof -
  have "ys \<noteq> [] \<and> ends_well g (map fst ys) (Returned t)"
    if r: "execute_graph d rt g inp override s = (ys, Returned t)" for ys t
  proof -
    obtain u0 ids h where parts: "execute_graph d rt g inp override s =
        (stamp ids 0 [] (fst (execute_inner (execute d) rt g inp override u0)),
         map_ending h (snd (execute_inner (execute d) rt g inp override u0)))"
      and h: "\<And>u. rs_ctx (h u) = rs_ctx u"
      using run_graph_parts by (metis execute_graph_def)
    define r' where "r' = execute_inner (execute d) rt g inp override u0"
    obtain u where u: "snd r' = Returned u" "t = h u" and ys: "ys = stamp ids 0 [] (fst r')"
      using r parts unfolding r'_def [symmetric] by (cases "snd r'") auto
    have ne: "fst r' \<noteq> []" and e: "ends_well g (map fst (fst r')) (snd r')"
      using execute_inner_ends u(1) unfolding r'_def by blast+
    have n: "ys \<noteq> []" using ne snd_stamp [of ids 0 "[]" "fst r'"] ys by (metis map_is_Nil_conv)
    moreover obtain i p where l: "fst (last ys) = (fst (last (fst r')))\<lparr>ae_id := i, ae_parent := p\<rparr>"
      using stamp_last [OF ne] ys by (metis fst_conv)
    have "final_event (last (map fst ys)) \<longleftrightarrow> final_event (last (map fst (fst r')))"
      by (simp add: n ne last_map l final_event_def is_error_def is_paused_def)
    moreover have "no_way g nid m (map fst ys) = no_way g nid m (map fst (fst r'))" for nid m
      by (simp add: n ne last_map l no_way_def)
    ultimately show ?thesis using e u h ne by (simp add: ends_well_def stuck_def)
  qed
  then show ?thesis by (auto split: prod.split ending.split simp: ends_well_def stuck_def last_map)
qed

end
