(* ===== verification/RuntimeBranch.thy ===== *)
theory RuntimeBranch
  imports Runtime
begin

text \<open>
  The parallel node: where its branches meet again, and the graphs that its branches run.
\<close>

section \<open>The merge node\<close>

declare bfs.simps [simp del] bfs_order.simps [simp del]

lemma bfs_eq: "bfs es {} [a] = (edge_rel es)\<^sup>* `` {a}"
proof (rule closure_eqI)
  show "a \<in> bfs es {} [a]" using bfs_complete [of "{}" es "[a]"] by auto
next
  fix x assume "x \<in> bfs es {} [a]"
  then show "(a, x) \<in> (edge_rel es)\<^sup>*" by (rule bfs_sound [rotated]) simp
next
  fix x y assume "x \<in> bfs es {} [a]" and "(x, y) \<in> edge_rel es"
  then show "y \<in> bfs es {} [a]" using bfs_complete [of "{}" es "[a]"] by blast
qed

lemma set_order_eq: "set (bfs_order es [] [a]) = (edge_rel es)\<^sup>* `` {a}"
  by (simp add: set_bfs_order bfs_eq)

text \<open>The nodes after the branches: reachable from every target, and no target themselves.\<close>

definition common_nodes :: "agent_graph \<Rightarrow> edge list \<Rightarrow> str set" where
  "common_nodes g outgoing =
     {n. (\<forall>e \<in> set outgoing. (e_target e, n) \<in> (edge_rel (g_edges g))\<^sup>*) \<and> n \<notin> e_target ` set outgoing}"

text \<open>
  The merge node of two or more branches is a node that every branch reaches and that is no
  branch target; when there is no such node there is no merge node. Nodes have names.
\<close>

theorem merge_node_is_common:
  "2 \<le> length outgoing \<Longrightarrow> [] \<notin> common_nodes g outgoing \<Longrightarrow>
    (find_merge_node g outgoing = [] \<longleftrightarrow> common_nodes g outgoing = {})
    \<and> (find_merge_node g outgoing \<noteq> [] \<longrightarrow> find_merge_node g outgoing \<in> common_nodes g outgoing)"
proof -
  assume len: "2 \<le> length outgoing" and named: "[] \<notin> common_nodes g outgoing"
  let ?R = "edge_rel (g_edges g)"
  define cand where "cand = (\<lambda>n. (\<forall>t \<in> set (map e_target outgoing). n \<in> set (bfs_order (g_edges g) [] [t]))
      \<and> n \<notin> set (map e_target outgoing))"
  have cand: "cand n \<longleftrightarrow> n \<in> common_nodes g outgoing" for n
    by (auto simp: cand_def common_nodes_def set_order_eq)
  have m: "find_merge_node g outgoing =
      (case List.find cand (bfs_order (g_edges g) [] [hd (map e_target outgoing)]) of None \<Rightarrow> [] | Some n \<Rightarrow> n)"
    using len by (simp add: find_merge_node_def Let_def cand_def)
  obtain e es where out: "outgoing = e # es" using len by (cases outgoing) auto
  have first: "common_nodes g outgoing \<subseteq> set (bfs_order (g_edges g) [] [hd (map e_target outgoing)])"
    by (auto simp: out set_order_eq common_nodes_def)
  show ?thesis
  proof (cases "List.find cand (bfs_order (g_edges g) [] [hd (map e_target outgoing)])")
    case None
    have "find_merge_node g outgoing = []" using m None by simp
    moreover have "common_nodes g outgoing = {}" using first None by (auto simp: find_None_iff cand)
    ultimately show ?thesis by simp
  next
    case (Some n)
    then have "n \<in> common_nodes g outgoing" by (auto simp: find_Some_iff cand)
    then show ?thesis using Some m named by auto
  qed
qed

section \<open>Branch graphs\<close>

lemma fold_add_nodes:
  "distinct (map fst nodes) \<Longrightarrow> set (map fst nodes) \<inter> fst ` set (g_nodes g0) = {} \<Longrightarrow>
    g_nodes (fold (\<lambda>(nid, c). add_node nid c) nodes g0) = g_nodes g0 @ nodes
    \<and> (g_start g0 \<noteq> [] \<longrightarrow> g_start (fold (\<lambda>(nid, c). add_node nid c) nodes g0) = g_start g0)"
proof (induction nodes arbitrary: g0)
  case (Cons p nodes)
  obtain k c where p: "p = (k, c)" by (cases p)
  have fresh: "AList.update k c (g_nodes g0) = g_nodes g0 @ [(k, c)]"
    using Cons.prems(2) p by (auto intro!: update_fresh)
  have "g_nodes (add_node k c g0) = g_nodes g0 @ [(k, c)]"
    by (simp add: add_node_def Let_def fresh)
  moreover have "g_start g0 \<noteq> [] \<Longrightarrow> g_start (add_node k c g0) = g_start g0"
    by (simp add: add_node_def Let_def)
  ultimately show ?case
    using Cons.IH [of "add_node k c g0"] Cons.prems by (auto simp: p)
qed simp

text \<open>What a successful construction yields, whatever the graph.\<close>

lemma mapE_nodes:
  "mapE (\<lambda>k. case get_node k g of None \<Rightarrow> Inl KeyError | Some c \<Rightarrow> Inr (k, c)) ids = Inr nodes \<Longrightarrow>
    map fst nodes = ids \<and> set nodes \<subseteq> set (g_nodes g)"
proof (induction ids arbitrary: nodes)
  case (Cons k ids)
  then show ?case
    by (auto simp: bindE_Inr_iff get_node_def split: option.splits dest: map_of_SomeD)
qed simp

lemma build_branch_facts:
  assumes b: "build_branch uid g t merge par = Inr (Some sub)"
  defines "ids \<equiv> branch_node_ids g t (branch_excluded merge par)"
  shows "map fst (g_nodes sub) = ids" "set (g_nodes sub) \<subseteq> set (g_nodes g)" "distinct ids"
    "g_edges sub = filter (\<lambda>e. e_source e \<in> set ids \<and> e_target e \<in> set ids) (g_edges g)"
    "t \<noteq> [] \<Longrightarrow> g_start sub = t"
proof -
  obtain nodes where n: "mapE (\<lambda>nid. case get_node nid g of None \<Rightarrow> Inl KeyError | Some c \<Rightarrow> Inr (nid, c)) ids = Inr nodes"
    and sub: "sub = (fold (\<lambda>(nid, c). add_node nid c) nodes
        (new_graph uid (g_name g @ '':branch:'' @ t) t))
        \<lparr>g_edges := filter (\<lambda>e. e_source e \<in> set ids \<and> e_target e \<in> set ids) (g_edges g)\<rparr>"
    using b by (auto simp: build_branch_def Let_def ids_def bindE_Inr_iff split: if_splits)
  show d: "distinct ids" by (simp add: ids_def branch_node_ids_def distinct_bfs_order)
  have g0: "g_nodes (new_graph uid (g_name g @ '':branch:'' @ t) t) = []"
    "g_start (new_graph uid (g_name g @ '':branch:'' @ t) t) = t"
    by (simp_all add: new_graph_def graph_post_init_def)
  note f = fold_add_nodes [of nodes "new_graph uid (g_name g @ '':branch:'' @ t) t"]
  show "map fst (g_nodes sub) = ids" "set (g_nodes sub) \<subseteq> set (g_nodes g)"
    "g_edges sub = filter (\<lambda>e. e_source e \<in> set ids \<and> e_target e \<in> set ids) (g_edges g)"
    "t \<noteq> [] \<Longrightarrow> g_start sub = t"
    using f [unfolded g0] mapE_nodes [OF n] d by (simp_all add: sub)
qed

lemma set_branch_ids:
  "t \<notin> set ex \<Longrightarrow> set (branch_node_ids g t ex)
      = (edge_rel (filter (\<lambda>e. e_target e \<notin> set ex) (g_edges g)))\<^sup>* `` {t}"
  by (simp add: branch_node_ids_def set_order_eq)

lemma branch_ids_excluded: "x \<in> set ex \<Longrightarrow> x \<notin> set (branch_node_ids g t ex)"
proof
  assume x: "x \<in> set ex" and "x \<in> set (branch_node_ids g t ex)"
  then have t: "t \<notin> set ex"
    and r: "(t, x) \<in> (edge_rel (filter (\<lambda>e. e_target e \<notin> set ex) (g_edges g)))\<^sup>*"
    by (auto simp: branch_node_ids_def set_order_eq split: if_splits)
  from r show False using t x by cases (auto simp: edge_rel_iff)
qed

text \<open>A branch has fewer nodes than the graph of its parallel node.\<close>

lemma branch_smaller:
  assumes b: "build_branch uid g t merge par = Inr (Some sub)" and par: "get_node par g \<noteq> None"
  shows "length (g_nodes sub) < length (g_nodes g)"
proof -
  let ?ids = "branch_node_ids g t (branch_excluded merge par)"
  note f = build_branch_facts [OF b]
  have "par \<notin> set ?ids" by (rule branch_ids_excluded) (simp add: branch_excluded_def)
  moreover have "set ?ids \<subseteq> fst ` set (g_nodes g)"
    using f(1,2) by (metis image_mono list.set_map)
  moreover have "par \<in> fst ` set (g_nodes g)"
    using par by (metis get_node_def map_of_None_fst)
  ultimately have "card (set ?ids) < card (fst ` set (g_nodes g))"
    by (intro psubset_card_mono) auto
  also have "\<dots> \<le> length (g_nodes g)"
    by (metis card_length list.set_map length_map)
  finally show ?thesis using f(1,3) by (metis distinct_card length_map)
qed

lemma restrict_reach:
  assumes "(t, x) \<in> (edge_rel (filter (\<lambda>e. e_target e \<notin> X) es))\<^sup>*"
  defines "K \<equiv> (edge_rel (filter (\<lambda>e. e_target e \<notin> X) es))\<^sup>* `` {t}"
  shows "(t, x) \<in> (edge_rel (filter (\<lambda>e. e_source e \<in> K \<and> e_target e \<in> K) es))\<^sup>*"
  using assms(1)
proof induction
  case (step y z)
  have "y \<in> K" "z \<in> K"
    using step.hyps rtrancl_into_rtrancl [OF step.hyps] by (auto simp: K_def)
  then have "(y, z) \<in> edge_rel (filter (\<lambda>e. e_source e \<in> K \<and> e_target e \<in> K) es)"
    using step.hyps(2) by (auto simp: edge_rel_iff)
  with step.IH show ?case by (rule rtrancl_into_rtrancl)
qed simp

text \<open>
  C17: The graph of a branch of a well-formed graph can be executed: it passes validation, starts
  at the target, and consists of the nodes that the target reaches without entering the merge
  node or the parallel node, with their configurations. So a branch neither runs the code
  after the merge nor starts the parallel node again.
\<close>

theorem branch_graph_valid:
  assumes "well_formed g" and "known_types g" and "get_node t g \<noteq> None"
    and "t \<noteq> []" and "t \<noteq> merge" and "t \<noteq> par"
  shows "\<exists>sub. build_branch uid g t merge par = Inr (Some sub)
    \<and> validate None sub = Inr [] \<and> g_start sub = t
    \<and> fst ` set (g_nodes sub)
        = (edge_rel (filter (\<lambda>e. e_target e \<notin> set (branch_excluded merge par)) (g_edges g)))\<^sup>* `` {t}
    \<and> set (g_nodes sub) \<subseteq> set (g_nodes g)
    \<and> par \<notin> fst ` set (g_nodes sub) \<and> (merge \<noteq> [] \<longrightarrow> merge \<notin> fst ` set (g_nodes sub))"
proof -
  let ?ex = "branch_excluded merge par"
  let ?ids = "branch_node_ids g t ?ex"
  have tex: "t \<notin> set ?ex" using assms(5,6) by (simp add: branch_excluded_def)
  note ids = set_branch_ids [OF tex, of g]
  have tin: "t \<in> fst ` set (g_nodes g)" using assms(3) by (metis get_node_def map_of_None_fst)
  have "(edge_rel (filter (\<lambda>e. e_target e \<notin> set ?ex) (g_edges g)))\<^sup>* \<subseteq> (edge_rel (g_edges g))\<^sup>*"
    by (rule rtrancl_mono) (auto simp: edge_rel_iff)
  then have keep: "set ?ids \<subseteq> fst ` set (g_nodes g)"
    using rtrancl_stays [OF assms(1) tin] ids by auto
  have "?ids \<noteq> []" using ids by (metis Image_singleton_iff empty_iff list.set(1) rtrancl.rtrancl_refl)
  then obtain sub where sub: "build_branch uid g t merge par = Inr (Some sub)"
    using assms(3) downstream_nodes [OF keep]
    by (auto simp: build_branch_def Let_def get_node_def)
  note f = build_branch_facts [OF sub]
  have keys: "fst ` set (g_nodes sub) = set ?ids" by (metis f(1) list.set_map)
  have start: "g_start sub = t" by (rule f(5) [OF assms(4)])
  have "well_formed sub"
    using assms(4) restrict_reach [of t _ "set ?ex" "g_edges g"] keys
    by (auto simp: well_formed_def start f(4) ids)
  moreover have "known_types sub" using assms(2) f(2) by (auto simp: known_types_def)
  ultimately have "validate None sub = Inr []" by (simp add: validate_clean_iff)
  moreover have "par \<notin> set ?ids" "merge \<noteq> [] \<longrightarrow> merge \<notin> set ?ids"
    by (intro impI branch_ids_excluded, simp add: branch_excluded_def)+
  ultimately show ?thesis
    by (intro exI [of _ sub] conjI) (simp_all only: sub start keys f(2) ids simp_thms)
qed

end
