(* ===== verification/RuntimeNesting.thy ===== *)
theory RuntimeNesting
  imports RuntimeBranch RuntimeWide
begin

text \<open>
  Nested executions are bounded: a sub-graph runs one level deeper and only below the depth
  limit, and a parallel branch has fewer nodes than its graph. So with enough fuel the result
  of \<open>execute_graph\<close> does not depend on it.
\<close>

section \<open>Runs that agree on the children\<close>

text \<open>The nested runs that a run of \<open>g\<close> can start: sub-graphs below the limit, and branches.\<close>

definition agree :: "'w child_run \<Rightarrow> 'w child_run \<Rightarrow> 'w runtime \<Rightarrow> agent_graph \<Rightarrow> bool" where
  "agree child child' rt g \<longleftrightarrow>
     (\<forall>sub seed. rt_depth rt < max_sub_graph_depth rt \<and> (\<exists>text. rt_parse_graph rt text = Inr sub)
          \<or> length (g_nodes sub) < length (g_nodes g)
        \<longrightarrow> child (child_runtime seed rt) sub = child' (child_runtime seed rt) sub)"

lemma agree_sub:
  "agree child child' rt g \<Longrightarrow> rt_depth rt < max_sub_graph_depth rt \<Longrightarrow> rt_parse_graph rt text = Inr sub \<Longrightarrow>
    child (child_runtime seed rt) sub = child' (child_runtime seed rt) sub"
  by (auto simp: agree_def)

lemma agree_branch:
  "agree child child' rt g \<Longrightarrow> length (g_nodes sub) < length (g_nodes g) \<Longrightarrow>
    child (child_runtime seed rt) sub = child' (child_runtime seed rt) sub"
  by (auto simp: agree_def)

lemma sub_graph_cong: "agree child child' rt g \<Longrightarrow> exec_sub_graph child rt = exec_sub_graph child' rt"
  by (intro ext)
    (auto simp: exec_sub_graph_def sub_graph_body_def Let_def agree_sub split: sum.split option.split prod.split)

lemma tool_cong: "agree child child' rt g \<Longrightarrow> exec_tool child rt = exec_tool child' rt"
  by (intro ext) (simp add: exec_tool_def sub_graph_cong)

lemma sub_flow_cong: "agree child child' rt g \<Longrightarrow> exec_sub_flow child rt = exec_sub_flow child' rt"
  by (intro ext) (simp only: exec_sub_flow_def sub_graph_cong)

lemma iterate_cong:
  assumes "agree child child' rt g"
  shows "iterate_items child rt params n out idx items results fin s
    = iterate_items child' rt params n out idx items results fin s"
proof (induction items arbitrary: idx results s)
  case (Cons item items)
  show ?case unfolding iterate_items.simps Cons.IH sub_graph_cong [OF assms] ..
qed simp

lemma iteration_cong:
  assumes "agree child child' rt g"
  shows "exec_iteration child rt = exec_iteration child' rt"
  unfolding exec_iteration_def iterate_cong [OF assms] ..

lemma run_branch_cong:
  "agree child child' rt g \<Longrightarrow> get_node par g \<noteq> None \<Longrightarrow>
    run_branch child rt g merge par i e s = run_branch child' rt g merge par i e s"
  by (auto simp: run_branch_def Let_def agree_branch [OF _ branch_smaller]
      split: prod.split sum.split option.split)

lemma run_branches_cong:
  assumes "agree child child' rt g" and "get_node par g \<noteq> None"
  shows "run_branches child rt g merge par i es s = run_branches child' rt g merge par i es s"
proof (induction es arbitrary: i s)
  case (Cons e es)
  show ?case unfolding run_branches.simps Cons.IH run_branch_cong [OF assms] ..
qed simp

lemma parallel_cong:
  assumes "agree child child' rt g" and "get_node cur g \<noteq> None"
  shows "exec_parallel child rt g cur s = exec_parallel child' rt g cur s"
  unfolding exec_parallel_def gather_branches_def run_branches_cong [OF assms] ..

lemma retry_node_cong:
  assumes "agree child child' rt g"
  shows "retry_node child rt g nid s = retry_node child' rt g nid s"
  using parallel_cong [OF assms]
  by (auto simp: retry_node_def Let_def tool_cong [OF assms] split: option.split)

lemma retry_loop_cong:
  assumes "agree child child' rt g"
  shows "retry_loop child rt g n nid err left k fin s = retry_loop child' rt g n nid err left k fin s"
proof (induction left arbitrary: k s)
  case (Suc left)
  show ?case unfolding retry_loop.simps Suc.IH retry_node_cong [OF assms] ..
qed simp

lemma error_handler_cong:
  assumes "agree child child' rt g"
  shows "exec_error_handler child rt n g s = exec_error_handler child' rt n g s"
  unfolding exec_error_handler_def Let_def retry_loop_cong [OF assms] ..

lemma turn_cong:
  assumes a: "agree child child' rt g" and n: "get_node cur g = Some n"
  shows "turn child rt g model prompt inp cur n s = turn child' rt g model prompt inp cur n s"
proof -
  have "get_node cur g \<noteq> None" using n by simp
  then show ?thesis
    unfolding turn_def turn_parallel_def tool_cong [OF a] iteration_cong [OF a] sub_flow_cong [OF a]
      error_handler_cong [OF a] parallel_cong [OF a \<open>get_node cur g \<noteq> None\<close>] by simp
qed

lemma main_loop_cong:
  assumes a: "agree child child' rt g"
  shows "main_loop child rt g model prompt inp cur s = main_loop child' rt g model prompt inp cur s"
proof (rule main_loop_rule [where R = "\<lambda>cur s r. r = main_loop child' rt g model prompt inp cur s"], goal_cases)
  case (1 cur s)
  then show ?case by (simp add: main_loop_exit)
next
  case (2 cur s)
  then show ?case by (simp add: main_loop_missing)
next
  case (3 cur s n ys en)
  have "turn child' rt g model prompt inp cur n (visit rt cur n s) = (ys, en)"
    using 3(4) turn_cong [OF a 3(3)] by metis
  note eq = main_loop_turn [OF 3(1,2,3) this]
  show ?case unfolding eq using 3(5) by (cases en) simp_all
qed

lemma run_graph_cong:
  assumes "agree child child' rt g"
  shows "run_graph child rt g inp override s = run_graph child' rt g inp override s"
proof -
  have "begin_run child rt g inp = begin_run child' rt g inp" for inp
    by (intro ext) (simp only: begin_run_def main_loop_cong [OF assms])
  then show ?thesis by (simp only: run_graph_def execute_inner_def)
qed

section \<open>The bound\<close>

text \<open>The graphs that the parser can yield have at most \<open>k\<close> nodes.\<close>

definition graphs_within :: "nat \<Rightarrow> 'w runtime \<Rightarrow> bool" where
  "graphs_within k rt \<longleftrightarrow> (\<forall>text sub. rt_parse_graph rt text = Inr sub \<longrightarrow> length (g_nodes sub) \<le> k)"

text \<open>The depth that the nested runs of a run of \<open>g\<close> need at most.\<close>

definition levels :: "nat \<Rightarrow> 'w runtime \<Rightarrow> agent_graph \<Rightarrow> nat" where
  "levels k rt g =
     (if rt_depth rt < max_sub_graph_depth rt then max_sub_graph_depth rt - rt_depth rt + k
      else length (g_nodes g))"

lemma child_runtime_simps [simp]:
  "rt_depth (child_runtime seed rt) = Suc (rt_depth rt)"
  "max_sub_graph_depth (child_runtime seed rt) = max_sub_graph_depth rt"
  "rt_parse_graph (child_runtime seed rt) = rt_parse_graph rt"
  by (simp_all add: child_runtime_def max_sub_graph_depth_def)

lemma levels_child:
  "graphs_within k rt \<Longrightarrow> length (g_nodes g) \<le> k \<Longrightarrow>
    rt_depth rt < max_sub_graph_depth rt \<and> rt_parse_graph rt text = Inr sub
      \<or> length (g_nodes sub) < length (g_nodes g) \<Longrightarrow>
    length (g_nodes sub) \<le> k \<and> levels k (child_runtime seed rt) sub < levels k rt g"
  by (auto simp: levels_def graphs_within_def intro: less_imp_le dest!: spec)

lemma execute_enough:
  "graphs_within k rt \<Longrightarrow> length (g_nodes g) \<le> k \<Longrightarrow> levels k rt g < d \<Longrightarrow>
    execute (d + e) rt g = execute d rt g"
proof (induction d arbitrary: rt g)
  case (Suc d)
  have "agree (execute (d + e)) (execute d) rt g"
    unfolding agree_def
  proof (intro allI impI)
    fix sub seed
    assume c: "rt_depth rt < max_sub_graph_depth rt \<and> (\<exists>text. rt_parse_graph rt text = Inr sub)
        \<or> length (g_nodes sub) < length (g_nodes g)"
    then obtain doc where "rt_depth rt < max_sub_graph_depth rt \<and> rt_parse_graph rt doc = Inr sub
        \<or> length (g_nodes sub) < length (g_nodes g)" by blast
    from levels_child [OF Suc.prems(1,2) this, of seed] Suc.prems
    show "execute (d + e) (child_runtime seed rt) sub = execute d (child_runtime seed rt) sub"
      by (intro Suc.IH) (auto simp: graphs_within_def)
  qed
  then show ?case by (intro ext) (simp add: run_graph_cong [of "execute (d + e)" "execute d"])
qed simp

text \<open>
  C6: Nesting is bounded: when no graph has more than \<open>k\<close> nodes, runs nest at most as deep as
  the sub-graph limit allows from the current depth, plus \<open>k\<close> levels of parallel branches.
  From that much fuel on, the result of an execution no longer depends on the fuel, so no
  execution of the code exhausts a nesting that large, even when graphs refer to each other
  in a cycle.
\<close>

theorem nesting_bounded:
  assumes "graphs_within k rt" and "length (g_nodes g) \<le> k"
    and "max_sub_graph_depth rt - rt_depth rt + k \<le> d"
  shows "execute_graph (d + e) rt g inp override s = execute_graph d rt g inp override s"
proof -
  have "agree (execute (d + e)) (execute d) rt g"
    unfolding agree_def
  proof (intro allI impI)
    fix sub seed
    assume c: "rt_depth rt < max_sub_graph_depth rt \<and> (\<exists>text. rt_parse_graph rt text = Inr sub)
        \<or> length (g_nodes sub) < length (g_nodes g)"
    then obtain doc where "rt_depth rt < max_sub_graph_depth rt \<and> rt_parse_graph rt doc = Inr sub
        \<or> length (g_nodes sub) < length (g_nodes g)" by blast
    moreover have "levels k rt g \<le> d" using assms(2,3) unfolding levels_def by (split if_split) arith
    ultimately show "execute (d + e) (child_runtime seed rt) sub = execute d (child_runtime seed rt) sub"
      using levels_child [OF assms(1,2), of doc sub seed] assms(1)
      by (intro execute_enough) (auto simp: graphs_within_def)
  qed
  then show ?thesis by (simp add: execute_graph_def run_graph_cong [of "execute (d + e)" "execute d"])
qed

end
