(* ===== verification/RuntimeGuard.thy ===== *)
theory RuntimeGuard
  imports RuntimeWide
begin

text \<open>
  What can change the world of a run: tools only after an admission that allowed the call, and
  in plan mode only the read-only tools, at every depth of nested runs. The exception is the
  screen capture after a tool, which asks nobody.
\<close>

section \<open>The assumptions\<close>

text \<open>
  \<open>p\<close> says whether the run is in plan mode, \<open>Q\<close> is a property of the world, and \<open>E\<close> holds of
  the worlds in which plan mode has been left (\<open>exit_plan_mode\<close> has run in an llm node).
\<close>

definition guard_ok :: "bool \<Rightarrow> ('w \<Rightarrow> bool) \<Rightarrow> ('w \<Rightarrow> bool) \<Rightarrow> 'w run_state \<Rightarrow> bool" where
  "guard_ok p E Q s \<longleftrightarrow> E (rs_world s) \<or> (p \<longrightarrow> cx_plan (rs_ctx s)) \<and> Q (rs_world s)"

text \<open>The calls of the engine that are no node of the graph, and the screen capture.\<close>

definition engine_keeps :: "('w \<Rightarrow> bool) \<Rightarrow> 'w runtime \<Rightarrow> bool" where
  "engine_keeps Q rt \<longleftrightarrow>
     (\<forall>w. Q w \<longrightarrow>
        (\<forall>h name payload. rt_hooks rt = Some h \<longrightarrow> Q (h name payload w))
        \<and> Q (snd (rt_uid rt w)) \<and> (\<forall>a. Q (snd (rt_answer rt a w))) \<and> (\<forall>i. Q (snd (rt_human rt i w)))
        \<and> (\<forall>st g sid nid doc. rt_store rt = Some st \<longrightarrow> Q (snd (st_save st g sid nid doc w)))
        \<and> (\<forall>mem q. rt_memory rt = Some mem \<longrightarrow> Q (snd (mem_recall mem q w)))
        \<and> (\<forall>mem a b n c d. rt_memory rt = Some mem \<longrightarrow> Q (mem_store mem a b n c d w))
        \<and> (\<forall>f m. rt_unload rt = Some f \<longrightarrow> Q (f m w))
        \<and> Q (snd (rt_tool rt ''screenshot'' [] w)))"

text \<open>The funnel and the function that judges a capture.\<close>

definition checks_keep :: "('w \<Rightarrow> bool) \<Rightarrow> 'w node_services \<Rightarrow> bool" where
  "checks_keep Q ns \<longleftrightarrow>
     (\<forall>w. Q w \<longrightarrow>
        (\<forall>c tool args label ok. Q (snd (ns_admit ns c tool args label ok w)))
        \<and> (\<forall>f c n result frame wd ht. ns_assertion ns = Some f \<longrightarrow> Q (snd (f c n result frame wd ht w))))"

text \<open>
  The handlers that are arguments: they keep \<open>Q\<close>, and leave plan mode only by \<open>exit_plan_mode\<close>,
  that is, into a world of \<open>E\<close>.
\<close>

definition handlers_keep :: "bool \<Rightarrow> ('w \<Rightarrow> bool) \<Rightarrow> ('w \<Rightarrow> bool) \<Rightarrow> 'w node_services \<Rightarrow> bool" where
  "handlers_keep p E Q ns \<longleftrightarrow>
     (\<forall>s. guard_ok p E Q s \<longrightarrow>
        (\<forall>n g model prompt. gen_inv (guard_ok p E Q) (ns_llm ns n g model prompt s)
           \<and> gen_inv (guard_ok p E Q) (ns_rag ns n g model prompt s)
           \<and> gen_inv (guard_ok p E Q) (ns_planner ns n g s)
           \<and> gen_inv (guard_ok p E Q) (ns_verify ns n g s)
           \<and> gen_inv (guard_ok p E Q) (ns_acp ns n g s)))"

text \<open>
  The tools: a call keeps the property if the funnel has just allowed it (with the arguments
  of the call or its own), and in plan mode only if the tool is a read-only one. Tool
  configurations may add arguments.
\<close>

definition configured :: "jobj \<Rightarrow> jobj \<Rightarrow> bool" where
  "configured args args' \<longleftrightarrow> args' = args \<or> (\<exists>cfg. args' = load_vars args cfg)"

definition admitted_tools_keep ::
    "bool \<Rightarrow> ('w \<Rightarrow> bool) \<Rightarrow> ('w \<Rightarrow> bool) \<Rightarrow> 'w runtime \<Rightarrow> 'w node_services \<Rightarrow> bool" where
  "admitted_tools_keep p E Q rt ns \<longleftrightarrow>
     (\<forall>c tool args label ok w ad sf es w' args' args''.
        Q w \<longrightarrow> ns_admit ns c tool args label ok w = ((ad, sf, es), w') \<longrightarrow>
        ad_allowed ad \<longrightarrow> \<not> ad_needs_approval ad \<longrightarrow> args' \<in> {args, ad_args ad} \<longrightarrow>
        configured args' args'' \<longrightarrow> (p \<longrightarrow> tool \<in> set plan_readonly_tools) \<longrightarrow>
        E (snd (rt_tool rt tool args'' w')) \<or> Q (snd (rt_tool rt tool args'' w')))"

definition guarded :: "bool \<Rightarrow> ('w \<Rightarrow> bool) \<Rightarrow> ('w \<Rightarrow> bool) \<Rightarrow> 'w runtime \<Rightarrow> bool" where
  "guarded p E Q rt \<longleftrightarrow>
     engine_keeps E rt \<and> engine_keeps (\<lambda>w. E w \<or> Q w) rt
     \<and> (\<forall>tool args w. E w \<longrightarrow> E (snd (rt_tool rt tool args w)))
     \<and> (\<forall>ns \<in> {rt_nodes rt, rt_fresh_nodes rt}.
          checks_keep E ns \<and> checks_keep (\<lambda>w. E w \<or> Q w) ns
          \<and> handlers_keep p E Q ns \<and> handlers_keep False (\<lambda>_. False) E ns
          \<and> admitted_tools_keep p E Q rt ns)"

lemma guarded_left: "guarded p E Q rt \<Longrightarrow> guarded False (\<lambda>_. False) E rt"
proof -
  assume g: "guarded p E Q rt"
  have none: "engine_keeps (\<lambda>_. False) rt" "checks_keep (\<lambda>_. False) ns"
      "handlers_keep False (\<lambda>_. False) (\<lambda>_. False) ns" for ns
    by (simp_all add: engine_keeps_def checks_keep_def handlers_keep_def guard_ok_def)
  have any: "E (snd (rt_tool rt tool args w))" if "E w" for tool args w
    using g that by (simp add: guarded_def)
  have tools: "admitted_tools_keep False (\<lambda>_. False) E rt ns" if "checks_keep E ns" for ns
    unfolding admitted_tools_keep_def
  proof (intro allI impI)
    fix c tool args label ok w ad sf es w' args' args''
    assume "E w" "ns_admit ns c tool args label ok w = ((ad, sf, es), w')"
    then have "E w'" using that unfolding checks_keep_def by (metis snd_conv)
    then show "False \<or> E (snd (rt_tool rt tool args'' w'))" using any by simp
  qed
  show ?thesis using g by (simp add: guarded_def none tools)
qed

lemma guarded_child: "guarded p E Q rt \<Longrightarrow> guarded p E Q (child_runtime seed rt)"
  by (auto simp: guarded_def engine_keeps_def admitted_tools_keep_def child_runtime_def)

section \<open>Runs\<close>

text \<open>A step that leaves the plan mode alone and whose change of the world is kept.\<close>

lemma guard_step:
  assumes "guard_ok p E Q s"
    and "E (rs_world s) \<Longrightarrow> E (rs_world t)"
    and "E (rs_world s) \<or> Q (rs_world s) \<Longrightarrow> E (rs_world t) \<or> Q (rs_world t)"
    and "cx_plan (rs_ctx s) \<Longrightarrow> cx_plan (rs_ctx t)"
  shows "guard_ok p E Q t"
  using assms by (auto simp: guard_ok_def)

lemma guard_same:
  "guard_ok p E Q s \<Longrightarrow> rs_world t = rs_world s \<Longrightarrow> (cx_plan (rs_ctx s) \<Longrightarrow> cx_plan (rs_ctx t)) \<Longrightarrow>
    guard_ok p E Q t"
  by (erule guard_step) simp_all

lemma guard_calls:
  assumes "guard_ok p E Q s" and "E (rs_world s) \<Longrightarrow> E w" and "E (rs_world s) \<or> Q (rs_world s) \<Longrightarrow> E w \<or> Q w"
  shows "guard_ok p E Q (s\<lparr>rs_world := w\<rparr>)"
  by (rule guard_step [OF assms(1)]) (use assms(2,3) in simp_all)

lemma guard_upd_world:
  assumes "guard_ok p E Q s" and "E (rs_world s) \<Longrightarrow> E (f (rs_world s))"
    and "E (rs_world s) \<or> Q (rs_world s) \<Longrightarrow> E (f (rs_world s)) \<or> Q (f (rs_world s))"
  shows "guard_ok p E Q (upd_world f s)"
  unfolding upd_world_def by (rule guard_calls [OF assms])

lemmas guard_updates = add_message_def put_var_def seed_vars_def upd_ctx_def force_stop_def set_finished_def
  enter_run_def set_budget_def

lemma guard_framed:
  "gen_inv (guard_ok p E Q) (h s) \<Longrightarrow> gen_inv (guard_ok p E Q) (framed h s)"
  unfolding framed_def
  by (rule gen_inv_map) (auto simp: gen_inv_def guard_ok_def upd_ctx_def own_fields_def)

lemma run_tool_configured:
  "\<exists>args'. configured args args' \<and> snd (run_tool rt c tool args w) = snd (rt_tool rt tool args' w)"
  by (intro exI [of _ "merge_tool_config rt c tool args"])
    (auto simp: run_tool_def merge_tool_config_def configured_def Let_def split: prod.split tool_outcome.split)

lemma engine_simps:
  assumes "engine_keeps Q rt" and "Q w"
  shows "rt_hooks rt = Some h \<Longrightarrow> Q (h name payload w)" "Q (snd (rt_uid rt w))" "Q (snd (rt_answer rt a w))"
    "Q (snd (rt_human rt i w))" "rt_store rt = Some st \<Longrightarrow> Q (snd (st_save st gn sid nid doc w))"
    "rt_memory rt = Some mem \<Longrightarrow> Q (snd (mem_recall mem q w))"
    "rt_memory rt = Some mem \<Longrightarrow> Q (mem_store mem a1 a2 k a3 a4 w)"
    "rt_unload rt = Some f \<Longrightarrow> Q (f m w)" "Q (snd (rt_tool rt ''screenshot'' [] w))"
  using assms by (simp_all add: engine_keeps_def)

lemma checks_simps:
  assumes "checks_keep Q ns" and "Q w"
  shows "Q (snd (ns_admit ns c tool args label ok w))"
    "ns_assertion ns = Some f2 \<Longrightarrow> Q (snd (f2 c n result frame wd ht w))"
  using assms by (simp_all add: checks_keep_def)

lemma guard_wide:
  assumes g: "guarded p E Q rt"
    and child: "\<And>seed sub inp s. guard_ok p E Q s \<Longrightarrow>
      gen_inv (guard_ok p E Q) (child (child_runtime seed rt) sub inp s)"
    and left: "\<And>seed sub inp s. E (rs_world s) \<Longrightarrow>
      gen_inv (\<lambda>t. E (rs_world t)) (child (child_runtime seed rt) sub inp s)"
  shows "wide_invariant (guard_ok p E Q) rt child"
proof -
  have e: "engine_keeps E rt" "engine_keeps (\<lambda>w. E w \<or> Q w) rt"
    and c: "checks_keep E (rt_nodes rt)" "checks_keep (\<lambda>w. E w \<or> Q w) (rt_nodes rt)"
    and any: "\<And>tool args w. E w \<Longrightarrow> E (snd (rt_tool rt tool args w))"
    and tl: "admitted_tools_keep p E Q rt (rt_nodes rt)" and hk: "handlers_keep p E Q (rt_nodes rt)"
    using g by (auto simp: guarded_def)
  note calls = engine_simps [OF e(1)] engine_simps [OF e(2)] checks_simps [OF c(1)] checks_simps [OF c(2)]
  have h: "guard_ok p E Q s \<Longrightarrow> gen_inv (guard_ok p E Q) (ns_llm (rt_nodes rt) n gr model prompt s)"
    "guard_ok p E Q s \<Longrightarrow> gen_inv (guard_ok p E Q) (ns_rag (rt_nodes rt) n gr model prompt s)"
    "guard_ok p E Q s \<Longrightarrow> gen_inv (guard_ok p E Q) (ns_planner (rt_nodes rt) n gr s)"
    "guard_ok p E Q s \<Longrightarrow> gen_inv (guard_ok p E Q) (ns_verify (rt_nodes rt) n gr s)"
    "guard_ok p E Q s \<Longrightarrow> gen_inv (guard_ok p E Q) (ns_acp (rt_nodes rt) n gr s)" for s n gr model prompt
    using hk unfolding handlers_keep_def by blast+
  have tool: "guard_ok p E Q (s\<lparr>rs_world := snd (run_tool rt (rs_ctx s) tool args' w)\<rparr>)"
    if s: "guard_ok p E Q s" "\<not> plan_blocked (rs_ctx s) tool"
      "ns_admit (rt_nodes rt) (rs_ctx s) tool args label ok (rs_world s) = ((ad, sf, aes), w)"
      "ad_allowed ad" "\<not> ad_needs_approval ad" "args' \<in> {args, ad_args ad}" for s tool args label ok ad sf aes w args'
  proof -
    obtain args'' where a: "configured args' args''"
      "snd (run_tool rt (rs_ctx s) tool args' w) = snd (rt_tool rt tool args'' w)"
      using run_tool_configured [of args' rt "rs_ctx s" tool w] by blast
    show ?thesis
    proof (cases "E (rs_world s)")
      case True
      then have "E w" using checks_simps(1) [OF c(1) True, of "rs_ctx s" tool args label ok] s(3) by simp
      then show ?thesis using any a(2) by (simp add: guard_ok_def)
    next
      case False
      then have plan: "p \<longrightarrow> cx_plan (rs_ctx s)" and q: "Q (rs_world s)" using s(1) by (auto simp: guard_ok_def)
      then have "p \<longrightarrow> tool \<in> set plan_readonly_tools"
        using s(2) by (auto simp: plan_blocked_def plan_readonly_tools_def)
      then have "E (snd (rt_tool rt tool args'' w)) \<or> Q (snd (rt_tool rt tool args'' w))"
        using tl q s(3-6) a(1) unfolding admitted_tools_keep_def by blast
      then show ?thesis using plan a(2) by (auto simp: guard_ok_def)
    qed
  qed
  have nest: "gen_inv (\<lambda>t. guard_ok p E Q (back_to s t)) (child (child_runtime seed rt) sub inp (child_state f s))"
    if s: "guard_ok p E Q s" "meta_only f" for s f seed sub inp
  proof -
    obtain m where f: "f (child_context (rs_ctx s)) = (child_context (rs_ctx s))\<lparr>cx_meta := m\<rparr>"
      using s(2) by (auto simp: meta_only_def)
    show ?thesis
    proof (cases "E (rs_world s)")
      case True
      then have "E (rs_world (child_state f s))" by (simp add: child_state_def)
      from left [OF this] show ?thesis by (rule gen_inv_mono) (simp add: guard_ok_def back_to_def)
    next
      case False
      have "guard_ok p E Q (child_state f s)"
        by (rule guard_same [OF s(1)]) (simp_all add: child_state_def f, simp add: child_context_def)
      from child [OF this] show ?thesis
        by (rule gen_inv_mono) (use s(1) False in \<open>auto simp: guard_ok_def back_to_def\<close>)
    qed
  qed
  show ?thesis
    by unfold_locales
      ((rule tool; assumption) | (rule nest; assumption) | (rule guard_framed, erule h)
        | (erule guard_calls; simp add: calls; fail)
        | (erule guard_upd_world; simp add: calls; fail)
        | (erule guard_same; simp add: guard_updates split: option.split; fail))+
qed

lemma execute_guarded:
  assumes left: "\<And>d rt g inp s. guarded p E Q rt \<Longrightarrow> E (rs_world s) \<Longrightarrow>
      gen_inv (\<lambda>t. E (rs_world t)) (execute d rt g inp s)"
  shows "guarded p E Q rt \<Longrightarrow> guard_ok p E Q s \<Longrightarrow> gen_inv (guard_ok p E Q) (execute d rt g inp s)"
proof (induction d arbitrary: rt g inp s)
  case 0
  then show ?case by (simp add: gen_inv_raise)
next
  case (Suc d)
  note child = guarded_child [OF Suc.prems(1)]
  have "wide_invariant (guard_ok p E Q) rt (execute d)"
    by (rule guard_wide [OF Suc.prems(1)]) (rule Suc.IH [OF child], assumption, rule left [OF child])
  from wide_invariant.run_graph_inv [OF this Suc.prems(2)] show ?case by simp
qed

text \<open>Plan mode stays left, and so the invariant holds of nested runs.\<close>

lemma stays_left:
  "guarded p E Q rt \<Longrightarrow> E (rs_world s) \<Longrightarrow> gen_inv (\<lambda>t. E (rs_world t)) (execute d rt g inp s)"
proof -
  assume g: "guarded p E Q rt" and e: "E (rs_world s)"
  have "gen_inv (guard_ok False (\<lambda>_. False) E) (execute d rt g inp s)"
    by (rule execute_guarded [OF _ guarded_left [OF g]]) (use e in \<open>simp_all add: guard_ok_def\<close>)
  then show ?thesis by (rule gen_inv_mono) (simp add: guard_ok_def)
qed

lemma nested_guarded:
  "guarded p E Q rt \<Longrightarrow> guard_ok p E Q s \<Longrightarrow> gen_inv (guard_ok p E Q) (execute d rt g inp s)"
  by (rule execute_guarded) (rule stays_left)

section \<open>Plan mode from the graph\<close>

text \<open>A graph in plan mode runs as if its context had been in plan mode before.\<close>

definition plan_on :: "'w run_state \<Rightarrow> 'w run_state" where
  "plan_on = upd_ctx (\<lambda>c. c\<lparr>cx_plan := True\<rparr>)"

lemma enter_plan_on: "g_plan_mode g \<Longrightarrow> enter_run rt g override (plan_on s) = enter_run rt g override s"
  by (simp add: enter_run_def plan_on_def upd_ctx_def)

lemma run_graph_plan_on:
  assumes "g_plan_mode g"
  shows "run_graph child rt g inp override (plan_on s) = run_graph child rt g inp override s"
proof -
  let ?ids = "hook_ids g @ [(''session_id'', JStr (cx_session (rs_ctx s)))]"
  let ?u = "\<lambda>s. fire rt ''GRAPH_BEFORE'' ?ids (upd_ctx (\<lambda>c. c\<lparr>cx_graph := or_text (cx_graph c) (g_id g)\<rparr>) s)"
  have "?u (plan_on s) = plan_on (?u s)"
    by (simp add: plan_on_def upd_ctx_def fire_def upd_world_def split: option.split)
  then have "execute_inner child rt g inp override (?u (plan_on s)) = execute_inner child rt g inp override (?u s)"
    by (simp add: execute_inner_def enter_plan_on [OF assms])
  moreover have "cx_session (rs_ctx (plan_on s)) = cx_session (rs_ctx s)"
    by (simp add: plan_on_def upd_ctx_def)
  ultimately show ?thesis by (simp add: run_graph_def Let_def)
qed

lemma run_guarded:
  assumes g: "guarded p E Q rt" and s: "guard_ok p E Q s"
  shows "gen_inv (guard_ok p E Q) (execute_graph d rt g inp override s)"
proof -
  have "wide_invariant (guard_ok p E Q) rt (execute d)"
    by (rule guard_wide [OF g])
      (rule nested_guarded [OF guarded_child [OF g]], assumption, rule stays_left [OF guarded_child [OF g]])
  from wide_invariant.run_graph_inv [OF this s] show ?thesis by (simp add: execute_graph_def)
qed

text \<open>
  C2: A tool node runs a tool only right after the admission funnel has allowed exactly this call.
  Take any property of the world that the calls of the engine, the handlers that are arguments
  and the screen capture after a tool (\<open>post_action_capture\<close>, which no admission guards) keep,
  and that a tool keeps when the funnel has just allowed the call with these arguments or its
  own, without asking for approval. Then every state of a run has it, at every depth of nested
  runs: nothing else in a run executes a tool.
\<close>

theorem tools_run_only_when_admitted:
  "guarded False (\<lambda>_. False) Q rt \<Longrightarrow> Q (rs_world s) \<Longrightarrow>
    gen_inv (\<lambda>t. Q (rs_world t)) (execute_graph d rt g inp override s)"
  by (rule gen_inv_mono [OF run_guarded [of False "\<lambda>_. False" Q]]) (simp_all add: guard_ok_def)

text \<open>
  C1: Plan mode confines a run until it is left. Plan mode is left in an llm node, when the model calls
  \<open>exit_plan_mode\<close>; \<open>E\<close> holds of the worlds in which that has happened, and nothing undoes it. Take
  any property of the world that the calls of the engine, the handlers of the llm, rag, planner, verify and
  acp nodes, the screen capture after a tool and the admitted read-only tools keep; tools that
  write may break it. Assume that those handlers leave plan mode in no other way. When the graph
  or its context is in plan mode, then in every state of the run, nested runs included, either
  plan mode has been left, or the context is still in plan mode and the property holds: until
  then no tool node runs a writing tool, even if the funnel allows it.
\<close>

theorem plan_mode_confines:
  "guarded True E Q rt \<Longrightarrow> Q (rs_world s) \<Longrightarrow> g_plan_mode g \<or> cx_plan (rs_ctx s) \<Longrightarrow>
    gen_inv (\<lambda>t. E (rs_world t) \<or> cx_plan (rs_ctx t) \<and> Q (rs_world t)) (execute_graph d rt g inp override s)"
proof -
  assume g: "guarded True E Q rt" and Q: "Q (rs_world s)" and plan: "g_plan_mode g \<or> cx_plan (rs_ctx s)"
  have on: "guard_ok True E Q (plan_on s)" using Q by (simp add: plan_on_def guard_ok_def upd_ctx_def)
  have "gen_inv (guard_ok True E Q) (execute_graph d rt g inp override s)"
  proof (cases "g_plan_mode g")
    case True
    then show ?thesis
      using run_guarded [OF g on, of d g inp override] by (simp add: execute_graph_def run_graph_plan_on)
  next
    case False
    then show ?thesis using plan Q by (intro run_guarded [OF g]) (simp add: guard_ok_def)
  qed
  then show ?thesis by (rule gen_inv_mono) (simp add: guard_ok_def)
qed

text \<open>
  The screen capture asks nobody: whatever the funnel says and even in plan mode, the first
  event of a post action comes after the \<open>screenshot\<close> tool has run.
\<close>

lemma capture_not_admitted:
  "\<exists>e es. fst (post_action rt n result s)
      = (e, s\<lparr>rs_world := snd (rt_tool rt ''screenshot'' [] (rs_world s))\<rparr>) # es"
  by (auto simp: post_action_def capture_frame_def gen_then_def gen_yield_def Let_def split: prod.split)

end
