(* ===== verification/AgentContextProps.thy ===== *)
theory AgentContextProps
  imports AgentContext
begin

text \<open>
  Properties of the execution context: what trimming keeps, the token totals, the
  serialisation round trip, and substitution into templates.
\<close>

section \<open>Trimming\<close>

definition others :: "jobj list \<Rightarrow> jobj list" where
  "others ms = filter (\<lambda>m. \<not> is_system m) ms"

lemma system_others_length: "length (filter is_system ms) + length (others ms) = length ms"
  by (induction ms) (auto simp: others_def)

lemma drop_others [simp]:
  "filter is_system (drop n (others ms)) = []" "others (drop n (others ms)) = drop n (others ms)"
proof -
  have "\<forall>m \<in> set (drop n (others ms)). \<not> is_system m"
    by (auto simp: others_def dest!: in_set_dropD)
  then show "filter is_system (drop n (others ms)) = []"
    and "others (drop n (others ms)) = drop n (others ms)"
    by (auto simp: others_def [of "drop n _"] filter_empty_conv intro!: filter_True)
qed

lemma others_kept [simp]: "others (filter is_system ms) = []" "others (a @ b) = others a @ others b"
  by (simp_all add: others_def)

lemma trim_messages_shape:
  obtains "trim_messages cap ms = ms" "0 < cap \<Longrightarrow> length ms \<le> max cap (length (filter is_system ms))"
  | n where "trim_messages cap ms = filter is_system ms @ drop n (others ms)"
      "length (trim_messages cap ms) \<le> max cap (length (filter is_system ms))"
proof (cases "0 < cap \<and> cap < length ms \<and> cap - length (filter is_system ms) < length (others ms)")
  case True
  then show ?thesis
    by (intro that(2) [of "length (others ms) - (cap - length (filter is_system ms))"])
      (auto simp: trim_messages_def others_def Let_def)
next
  case False
  moreover from this have "0 < cap \<Longrightarrow> length ms \<le> max cap (length (filter is_system ms))"
    using system_others_length [of ms] by auto
  ultimately show ?thesis by (intro that(1)) (auto simp: trim_messages_def others_def)
qed

text \<open>
  Adding a message: every system message survives in order; of the others (the new one
  included) the newest survive in order, unless the system messages alone exceed the cap.
\<close>

theorem add_message_trims:
  fixes c cap role content calls call_id usage
  defines "ms \<equiv> cx_messages c @ [new_message role content calls call_id usage]"
    and "ms' \<equiv> cx_messages (add_message cap role content calls call_id usage c)"
  shows "filter is_system ms' = filter is_system ms
    \<and> (\<exists>n. others ms' = drop n (others ms))
    \<and> (0 < cap \<longrightarrow> length ms' \<le> max cap (length (filter is_system ms)))
    \<and> (cap = 0 \<longrightarrow> ms' = ms)"
proof -
  have eq: "ms' = trim_messages cap ms" by (simp add: ms_def ms'_def add_message_def)
  have "cap = 0 \<longrightarrow> ms' = ms" by (simp add: eq trim_messages_def)
  moreover have "filter is_system ms' = filter is_system ms \<and> (\<exists>n. others ms' = drop n (others ms))
      \<and> (0 < cap \<longrightarrow> length ms' \<le> max cap (length (filter is_system ms)))"
    by (rule trim_messages_shape [of cap ms]) (auto simp: eq intro: exI [of _ 0])
  ultimately show ?thesis by blast
qed

section \<open>Serialisation\<close>

lemma events_from_to:
  "events_from now (map event_to_dict es) = Some (Inr (map (event_post_init now) es))"
  by (induction es) (simp_all add: event_from_to_dict)

lemma objs_of_map_JObj [simp]: "objs_of (map (\<lambda>e. JObj (f e)) es) = Some (map f es)"
  by (induction es) simp_all

text \<open>
  What a context becomes when it is serialised and restored: the role, the tool
  configurations, the persona and the checkpoint failure count fall back to their defaults.
\<close>

definition context_restored :: "pyfloat \<Rightarrow> str \<Rightarrow> agent_context \<Rightarrow> agent_context" where
  "context_restored now uid c =
     c\<lparr>cx_session := (if cx_session c = [] then uid else cx_session c), cx_role := ''all'',
       cx_events := map (event_post_init now) (cx_events c),
       cx_vars := (case cx_vars c of None \<Rightarrow> None | Some vs \<Rightarrow> if vs = [] then None else Some vs),
       cx_tool_configs := [], cx_ckpt_fails := 0, cx_persona := [], cx_pruned := False,
       cx_repeat_errors := []\<rparr>"

lemma load_vars_fresh: "dict_ok (us @ vs) \<Longrightarrow> load_vars us vs = vs @ us"
proof (induction us arbitrary: vs)
  case Nil
  then show ?case by (simp add: load_vars_def)
next
  case (Cons u us)
  obtain k v where u: "u = (k, v)" by (cases u)
  have "k \<notin> fst ` set vs" using Cons.prems u by (auto simp: dict_ok_def)
  then have "AList.update k v vs = vs @ [(k, v)]"
    by (rule update_fresh)
  moreover have "dict_ok (us @ (vs @ [(k, v)]))" using Cons.prems u by (auto simp: dict_ok_def)
  ultimately show ?case using Cons.IH [of "vs @ [(k, v)]"] by (simp add: load_vars_def u)
qed

theorem context_roundtrip:
  "\<forall>vs. cx_vars c = Some vs \<longrightarrow> dict_ok vs \<Longrightarrow>
    context_from_dict now uid (context_to_dict c) = Some (Inr (context_restored now uid c))"
proof -
  assume ok: "\<forall>vs. cx_vars c = Some vs \<longrightarrow> dict_ok vs"
  let ?vs = "case cx_vars c of None \<Rightarrow> [] | Some vs \<Rightarrow> vs"
  have vs: "load_vars ?vs [] = ?vs"
    using ok load_vars_fresh [of _ "[]"] by (auto simp: load_vars_def split: option.split)
  show ?thesis
    using vs
    by (cases c)
      (simp add: context_from_dict_def context_to_dict_def context_restored_def events_from_to
        new_context_def context_post_init_def split: option.split)
qed

end
