(* ===== verification/RuntimeProps.thy ===== *)
theory RuntimeProps
  imports Runtime AgentContextProps
begin

text \<open>
  Functional properties of executions: templates, the loop node, the isolation of sub-graphs,
  checkpoints, and the chain of events.
\<close>

section \<open>Templates\<close>

text \<open>
  Substitution is one pass: the literal text and the holes of a template are determined by the
  template alone (and together are the template), each hole is replaced by the value of its
  variable, and what a value contains is never expanded again.
\<close>

theorem interpolate_one_pass:
  "interpolate pl vs t = concat (map (fill_piece pl vs) (pieces t)) \<and> concat (map piece_source (pieces t)) = t"
  by (simp add: interpolate_pieces pieces_source)

section \<open>The loop node\<close>

text \<open>The state in which the loop node is reached for the \<open>k\<close>-th time.\<close>

fun arrival ::
    "'w runtime \<Rightarrow> node_config \<Rightarrow> agent_graph \<Rightarrow> ('w run_state \<Rightarrow> 'w run_state) \<Rightarrow> nat \<Rightarrow> 'w run_state \<Rightarrow> 'w run_state" where
  "arrival rt n g body 0 s = s"
| "arrival rt n g body (Suc k) s =
     (let s' = arrival rt n g body k s
      in body (case exec_loop rt n g s' of Inr (e, t) \<Rightarrow> t | Inl x \<Rightarrow> s'))"

definition loop_value :: "node_config \<Rightarrow> 'w run_state \<Rightarrow> json option" where
  "loop_value n s = (case cx_vars (rs_ctx s) of None \<Rightarrow> None | Some vs \<Rightarrow> map_of vs (loop_var_name n))"

text \<open>Where the counter stands: a loop variable that is not set counts as zero.\<close>

definition counter_at :: "node_config \<Rightarrow> 'w run_state \<Rightarrow> int \<Rightarrow> bool" where
  "counter_at n s c \<longleftrightarrow> cx_vars (rs_ctx s) \<noteq> None
     \<and> (loop_value n s = Some (JInt c) \<or> loop_value n s = None \<and> c = 0)"

lemma exec_loop_step:
  assumes "nc_max_iterations n = JInt m" and "CHR ''.'' \<notin> set (loop_var_name n)"
    and v: "counter_at n s c"
  shows "\<exists>e t. exec_loop rt n g s = Inr (e, t)
    \<and> ae_content e = (if c < m then ''loop_continue'' else ''loop_exit'')
    \<and> counter_at n t (if c < m then c + 1 else c)"
proof -
  obtain vs where vs: "cx_vars (rs_ctx s) = Some vs"
      "map_of vs (loop_var_name n) = Some (JInt c) \<or> map_of vs (loop_var_name n) = None \<and> c = 0"
    using v by (auto simp: counter_at_def loop_value_def split: option.splits)
  have seeded: "seed_vars rt s = s" using vs by (simp add: seed_vars_def upd_ctx_def)
  have cur: "loop_current n s = c"
    using vs assms(2) by (auto simp: loop_current_def vars_of_def get_var_def dict_get_def)
  show ?thesis
    using vs by (auto simp: exec_loop_def seeded cur assms(1) event_def new_event_def event_post_init_def
        counter_at_def loop_value_def put_var_def upd_ctx_def set_var_def Let_def)
qed

text \<open>
  C29: A loop node runs its body exactly as often as its counter is below \<open>max_iterations\<close>. Let the
  limit \<open>m\<close> be an integer, the name of the loop variable a plain one (without a dot), and let the
  counter start at \<open>c\<close>, an unset one at zero. If the body leaves the counter alone, the node says
  \<open>loop_continue\<close> at its first \<open>m - c\<close> arrivals and \<open>loop_exit\<close> at every later one, and at every
  one when \<open>c\<close> is not below \<open>m\<close>.
\<close>

theorem loop_runs_exactly:
  assumes "nc_max_iterations n = JInt m" and "CHR ''.'' \<notin> set (loop_var_name n)"
    and "counter_at n s c"
    and body: "\<forall>t i. counter_at n t i \<longrightarrow> counter_at n (body t) i"
  shows "\<exists>e t. exec_loop rt n g (arrival rt n g body k s) = Inr (e, t)
    \<and> ae_content e = (if c + int k < m then ''loop_continue'' else ''loop_exit'')"
proof -
  let ?at = "\<lambda>k. if c < m then min (c + int k) m else c"
  have "counter_at n (arrival rt n g body k s) (?at k)"
  proof (induction k)
    case 0
    show ?case using assms(3) by simp
  next
    case (Suc k)
    obtain e t where t: "exec_loop rt n g (arrival rt n g body k s) = Inr (e, t)"
      and c: "counter_at n t (if ?at k < m then ?at k + 1 else ?at k)"
      using exec_loop_step [OF assms(1,2) Suc.IH, of rt g] by blast
    have "(if ?at k < m then ?at k + 1 else ?at k) = ?at (Suc k)" by auto
    with c have "counter_at n t (?at (Suc k))" by (simp only:)
    then show ?case using t body by (simp add: Let_def)
  qed
  moreover have "?at k < m \<longleftrightarrow> c + int k < m" by auto
  ultimately show ?thesis using exec_loop_step [OF assms(1,2), of "arrival rt n g body k s" "?at k" rt g]
    by (simp only:) blast
qed

text \<open>
  A dotted loop variable is read as a path and written as a plain name, so the node never reads
  what it has written: as long as the path gives a number below the limit (a path that leads
  nowhere gives zero), the node says \<open>loop_continue\<close> and stays as it was.
\<close>

lemma split_on_hd: "split_on c xs \<noteq> [] \<and> c \<notin> set (hd (split_on c xs))"
  by (induction xs) (auto split: list.split)

lemma dotted_counter_never_exits:
  assumes "nc_max_iterations n = JInt m" and "CHR ''.'' \<in> set (loop_var_name n)"
    and "cx_vars (rs_ctx s) = Some vs" and "loop_current n s < m"
  shows "\<exists>e t. exec_loop rt n g s = Inr (e, t) \<and> ae_content e = ''loop_continue''
    \<and> loop_current n t = loop_current n s"
proof -
  let ?x = "loop_var_name n"
  obtain p ps where p: "split_on CHR ''.'' ?x = p # ps" "p \<noteq> ?x"
    using split_on_hd [of "CHR ''.''" ?x] assms(2) by (cases "split_on CHR ''.'' ?x") auto
  have "get_nested (JObj (AList.update ?x v vs)) (split_on CHR ''.'' ?x)
      = get_nested (JObj vs) (split_on CHR ''.'' ?x)" for v
    using p by (simp add: update_conv')
  then have "loop_current n (put_var ?x v s) = loop_current n s" for v
    using assms(2,3) by (simp add: loop_current_def vars_of_def put_var_def upd_ctx_def get_var_def set_var_def
        split: sum.split)
  moreover have "seed_vars rt s = s" using assms(3) by (simp add: seed_vars_def upd_ctx_def)
  ultimately show ?thesis
    using assms(1,4) by (simp add: exec_loop_def event_def new_event_def event_post_init_def Let_def)
qed

section \<open>Sub-graphs\<close>

text \<open>The variables of the parent that the mappings of a sub-graph node may write.\<close>

definition mapping_entries :: "jobj \<Rightarrow> str \<Rightarrow> jobj" where
  "mapping_entries params key = (case as_obj (jget params key (JObj [])) of None \<Rightarrow> [] | Some m \<Rightarrow> m)"

definition mapped_targets :: "jobj \<Rightarrow> str set" where
  "mapped_targets params =
     {text_field v | k v. (k, v) \<in> set (mapping_entries params ''input_mapping'') \<and> v \<noteq> JStr ''input''}
     \<union> {text_field v | k v. (k, v) \<in> set (mapping_entries params ''output_mapping'')}"

text \<open>The context is that of \<open>s\<close>, but for the variables in \<open>T\<close>.\<close>

definition same_but :: "str set \<Rightarrow> 'w run_state \<Rightarrow> 'w run_state \<Rightarrow> bool" where
  "same_but T s t \<longleftrightarrow> rs_ctx t = (rs_ctx s)\<lparr>cx_vars := cx_vars (rs_ctx t)\<rparr>
     \<and> rs_own_budget t = rs_own_budget s
     \<and> (\<forall>k. k \<notin> T \<longrightarrow> map_of (vars_of t) k = map_of (vars_of s) k)"

lemma same_but_put: "same_but T s t \<Longrightarrow> k \<in> T \<Longrightarrow> same_but T s (put_var k v t)"
proof -
  assume a: "same_but T s t" and k: "k \<in> T"
  have c: "rs_ctx (put_var k v t) = (rs_ctx t)\<lparr>cx_vars := map_option (set_var k v) (cx_vars (rs_ctx t))\<rparr>"
    and b: "rs_own_budget (put_var k v t) = rs_own_budget t"
    by (simp_all add: put_var_def upd_ctx_def)
  obtain vs where e: "rs_ctx t = (rs_ctx s)\<lparr>cx_vars := vs\<rparr>"
    using a unfolding same_but_def by blast
  have "map_of (vars_of (put_var k v t)) j = map_of (vars_of t) j" if "j \<notin> T" for j
    using that k by (auto simp: vars_of_def c set_var_def split: option.split)
  moreover have "rs_ctx (put_var k v t) = (rs_ctx s)\<lparr>cx_vars := cx_vars (rs_ctx (put_var k v t))\<rparr>"
    by (simp add: c e)
  ultimately show ?thesis using a by (simp add: same_but_def b)
qed

lemma same_but_ctx: "rs_ctx t' = rs_ctx t \<Longrightarrow> rs_own_budget t' = rs_own_budget t \<Longrightarrow> same_but T s t' = same_but T s t"
  by (simp add: same_but_def vars_of_def)

lemma same_but_fire [simp]: "same_but T s (fire rt name payload t) = same_but T s t"
  by (rule same_but_ctx) (simp_all add: fire_def upd_world_def split: option.split)

lemma same_but_back [simp]: "same_but T s (back_to t u) = same_but T s t"
  by (rule same_but_ctx) (simp_all add: back_to_def)

lemma map_inputs_same:
  "same_but T s t \<Longrightarrow> {text_field v | k v. (k, v) \<in> set m \<and> v \<noteq> JStr ''input''} \<subseteq> T \<Longrightarrow>
    same_but T s (snd (map_inputs pl m inp t))"
proof (induction pl m inp t rule: map_inputs.induct)
  case (2 pl pv sv m inp t)
  then show ?case by (auto simp: Let_def intro!: "2.IH" same_but_put)
qed simp

lemma map_outputs_same:
  "same_but T s t \<Longrightarrow> {text_field v | k v. (k, v) \<in> set m} \<subseteq> T \<Longrightarrow>
    same_but T s (map_outputs m final given t)"
proof (induction m final given t rule: map_outputs.induct)
  case (2 sv pv m final given t)
  then show ?case by (auto simp: Let_def intro!: "2.IH" same_but_put)
qed simp

lemma same_but_emit: "same_but T s t \<Longrightarrow> gen_inv (same_but T s) (emit rt ty content nid meta t)"
  by (simp add: emit_def gen_inv_yield)

text \<open>
  C16: A sub-graph is isolated: whatever the nested run does, the context of its parent is
  untouched at every event and at the end (messages, counters, error, plan mode and all
  variables), except for the variables that the mappings of the node name as targets.
\<close>

theorem sub_graph_isolated:
  assumes vs: "cx_vars (rs_ctx s) \<noteq> None"
  shows "gen_inv (same_but (mapped_targets params) s) (exec_sub_graph child rt params n s)"
proof -
  let ?T = "mapped_targets params"
  have refl: "same_but ?T s s" by (simp add: same_but_def)
  have seeded: "seed_vars rt s = s" using vs by (simp add: seed_vars_def upd_ctx_def)
  have body: "gen_inv (same_but ?T s) (sub_graph_body child rt sub m outs s)"
    if m: "as_obj (jget params ''input_mapping'' (JObj [])) = Some m"
      and outs: "outs = jget params ''output_mapping'' (JObj [])" for sub m outs
  proof -
    obtain inp t where i: "map_inputs (rt_pl rt) m [] s = (inp, t)" by (cases "map_inputs (rt_pl rt) m [] s")
    have t: "same_but ?T s t"
      using map_inputs_same [OF refl, of m "rt_pl rt" "[]"] m i
      by (auto simp: mapped_targets_def mapping_entries_def)
    have out: "same_but ?T s (map_outputs d final given u)"
      if "as_obj outs = Some d" "same_but ?T s u" for d final given u
      using that by (intro map_outputs_same) (auto simp: mapped_targets_def mapping_entries_def outs)
    show ?thesis
      unfolding sub_graph_body_def Let_def seeded i prod.case
      using t by (intro gen_inv_call) (auto simp: gen_inv_def intro: out split: option.split
          intro!: gen_inv_return [unfolded gen_inv_def] gen_inv_raise [unfolded gen_inv_def])
  qed
  show ?thesis
    unfolding exec_sub_graph_def Let_def seeded
    using refl by (auto split: sum.split option.split intro!: gen_intros same_but_emit body)
qed

section \<open>Checkpoints\<close>

lemma fold_set_var: "fold (\<lambda>(k, v). set_var k v) data vs = load_vars data vs"
  by (simp only: load_vars_def set_var_def [abs_def])

text \<open>
  C30: A checkpoint restores what it saved: reading back the document that \<open>save_checkpoint\<close>
  wrote gives the messages, the iteration count, the count of chained tool calls and the
  variables of the saved context, the latter overlaid with the values that a human supplied.
\<close>

theorem checkpoint_restores:
  assumes "dict_ok vs" and "doc_text \<noteq> []" and "pl_loads pl doc_text = Some (JObj (checkpoint_doc c vs))"
  shows "\<exists>doc c'. checkpoint_state pl doc_text = Inr doc
    \<and> resumed_context g session nid doc human = Some c'
    \<and> cx_messages c' = cx_messages c \<and> cx_iter c' = cx_iter c \<and> cx_chain c' = cx_chain c
    \<and> cx_vars c' = Some (load_vars human vs) \<and> cx_session c' = session
    \<and> cx_node c' = or_text nid (g_start g)"
proof -
  have "load_vars vs [] = vs" using load_vars_fresh [of vs "[]"] assms(1) by simp
  then show ?thesis
    using assms(2,3)
    by (simp add: checkpoint_state_def resumed_context_def checkpoint_doc_def fold_set_var new_context_def Let_def)
qed

section \<open>The chain of events\<close>

text \<open>
  The events that a run passes on form a chain: each keeps its type, content, metadata and
  state, an event without an identifier gets the one of its position, and one without a
  parent gets the identifier of the event before it, the first none.
\<close>

definition unlinked :: "agent_event \<Rightarrow> agent_event" where
  "unlinked e = e\<lparr>ae_id := [], ae_parent := []\<rparr>"

fun linked :: "(nat \<Rightarrow> str) \<Rightarrow> nat \<Rightarrow> str \<Rightarrow> agent_event list \<Rightarrow> agent_event list \<Rightarrow> bool" where
  "linked ids i prev [] [] = True"
| "linked ids i prev (e # es) (f # fs) =
     (unlinked f = unlinked e
      \<and> ae_id f = (if ae_id e = [] then ids i else ae_id e)
      \<and> ae_parent f = (if ae_parent e = [] then prev else ae_parent e)
      \<and> linked ids (i + 1) (ae_id f) es fs)"
| "linked ids i prev _ _ = False"

lemma stamp_linked: "linked ids i prev (map fst es) (map fst (stamp ids i prev es))"
  by (induction ids i prev es rule: stamp.induct) (simp_all add: Let_def unlinked_def)

end
