(* ===== verification/ConditionProps.thy ===== *)
theory ConditionProps
  imports Conditions
begin

text \<open>
  The condition language against its reference semantics: conditions joined by \<open>or\<close> and
  \<open>and\<close> mean what the connectives mean, however deep the recursion may go, and the
  expressions on which the recursion never comes to an end.
\<close>

section \<open>Characters\<close>

lemma of_char_lower: "(of_char (lower_char c) :: nat) =
    (if 65 \<le> (of_char c :: nat) \<and> (of_char c :: nat) \<le> 90 then of_char c + 32 else of_char c)"
  by (simp add: lower_char_def)

lemma is_word_lower [simp]: "is_word (lower_char c) = is_word c"
  by (auto simp: is_word_def of_char_lower Let_def)

lemma is_space_lower [simp]: "is_space (lower_char c) = is_space c"
  by (auto simp: is_space_def of_char_lower)

lemma space_not_word: "is_space c \<Longrightarrow> \<not> is_word c"
  by (auto simp: is_space_def is_word_def Let_def)

lemma py_lower_append [simp]: "py_lower (a @ b) = py_lower a @ py_lower b"
  "py_lower (c # b) = lower_char c # py_lower b" "py_lower [] = []"
  by (simp_all add: py_lower_def)

lemma length_py_lower [simp]: "length (py_lower s) = length s"
  by (simp add: py_lower_def)

lemma py_lower_take: "py_lower (take n s) = take n (py_lower s)"
  by (simp add: py_lower_def take_map)

lemma py_lower_drop: "py_lower (drop n s) = drop n (py_lower s)"
  by (simp add: py_lower_def drop_map)

lemma space_char [simp]: "is_space CHR '' ''" "lower_char CHR '' '' = CHR '' ''" "\<not> is_word CHR '' ''"
  by (simp_all add: is_space_def lower_char_def is_word_def)

section \<open>Word search\<close>

lemma starts_with_append_nonword:
  "\<forall>x \<in> set w. is_word x \<Longrightarrow> \<not> is_word c \<Longrightarrow> starts_with (a @ c # b) w \<longleftrightarrow> starts_with a w"
proof (induction w arbitrary: a)
  case Nil
  then show ?case by (simp add: starts_with_def)
next
  case (Cons x w)
  then show ?case by (cases a) (auto simp: starts_with_def)
qed

lemma contains_word_append:
  assumes w: "\<forall>x \<in> set w. is_word x" "w \<noteq> []" and c: "\<not> is_word c"
  shows "contains_word p w (a @ c # b) \<longleftrightarrow> contains_word p w a \<or> contains_word False w b"
proof (induction a arbitrary: p)
  case Nil
  have "\<not> starts_with (c # b) w" using w c by (cases w) (auto simp: starts_with_def)
  then show ?case using c by simp
next
  case (Cons x a)
  have s: "starts_with (x # a @ c # b) w \<longleftrightarrow> starts_with (x # a) w"
    using starts_with_append_nonword [OF w(1) c, of "x # a" b] by simp
  have "(case drop (length w) (x # a @ c # b) of [] \<Rightarrow> True | d # _ \<Rightarrow> \<not> is_word d) \<longleftrightarrow>
      (case drop (length w) (x # a) of [] \<Rightarrow> True | d # _ \<Rightarrow> \<not> is_word d)"
    if "starts_with (x # a) w"
  proof -
    have "length w \<le> length (x # a)" using that by (metis length_take min.cobounded1 starts_with_def)
    then have "drop (length w) ((x # a) @ c # b) = drop (length w) (x # a) @ c # b"
      by (simp only: drop_append) simp
    then show ?thesis using c by (cases "drop (length w) (x # a)") simp_all
  qed
  then show ?case using Cons.IH s by auto
qed

lemma contains_word_self:
  "w \<noteq> [] \<Longrightarrow> starts_with s w \<Longrightarrow> (drop (length w) s = [] \<or> \<not> is_word (hd (drop (length w) s))) \<Longrightarrow>
    contains_word False w s"
proof -
  assume w: "w \<noteq> []" "starts_with s w"
    and b: "drop (length w) s = [] \<or> \<not> is_word (hd (drop (length w) s))"
  obtain c cs where s: "s = c # cs" using w by (cases s) (auto simp: starts_with_def)
  have "case drop (length w) s of [] \<Rightarrow> True | d # _ \<Rightarrow> \<not> is_word d"
    using b by (cases "drop (length w) s") auto
  then show ?thesis using w s by auto
qed

section \<open>Splitting at a word\<close>

definition separator :: "str \<Rightarrow> str" where
  "separator w = '' '' @ w @ '' ''"

text \<open>No separator starts inside a text that ends in a non-space and lacks the word.\<close>

lemma no_sep_inside:
  assumes w: "\<forall>x \<in> set w. is_word x" "w \<noteq> []"
    and q: "q \<noteq> []" "\<not> is_space (last q)" "\<not> contains_word p w (py_lower q)"
    and tail: "spaced t \<or> t = []"
  shows "match_sep w (q @ t) = None"
proof (rule ccontr)
  assume m: "match_sep w (q @ t) \<noteq> None"
  define q' where "q' = dropWhile is_space q"
  have q'ne: "q' \<noteq> []" using q by (auto simp: q'_def dropWhile_eq_Nil_conv)
  have r: "dropWhile is_space (q @ t) = q' @ t"
    using q'ne by (auto simp: q'_def dropWhile_append dropWhile_eq_Nil_conv)
  from m have low: "py_lower (take (length w) (q' @ t)) = w"
    and follow: "spaced (drop (length w) (q' @ t))" and sp: "spaced q"
    using q by (auto simp: match_sep_def r Let_def spaced_def split: if_splits list.splits)
  have long: "length w \<le> length q'"
  proof (rule ccontr)
    assume "\<not> length w \<le> length q'"
    then have lt: "length q' < length w" by simp
    then obtain c t' where t: "t = c # t'" "is_space c"
      using tail low by (cases t) (auto simp: spaced_def dest: arg_cong [where f = length])
    have "w ! length q' = lower_char c"
      using lt t by (subst low [symmetric]) (simp add: py_lower_def nth_append)
    then have "is_word (lower_char c)" using w lt by (metis nth_mem)
    then show False using t space_not_word by simp
  qed
  have "contains_word False w (py_lower q')"
  proof (rule contains_word_self [OF w(2)])
    show "starts_with (py_lower q') w"
      using low long by (simp add: starts_with_def py_lower_take)
    have "drop (length w) (q' @ t) = drop (length w) q' @ t" using long by simp
    then have "drop (length w) q' = [] \<or> is_space (hd (drop (length w) q'))"
      using follow by (cases "drop (length w) q'") (auto simp: spaced_def)
    then show "drop (length w) (py_lower q') = [] \<or> \<not> is_word (hd (drop (length w) (py_lower q')))"
      using space_not_word by (cases "drop (length w) q'") (auto simp: py_lower_drop [symmetric])
  qed
  moreover have "takeWhile is_space q \<noteq> []" using sp by (cases q) (auto simp: spaced_def)
  then obtain a c where ac: "takeWhile is_space q = a @ [c]" by (metis rev_exhaust)
  then have "is_space c" by (metis in_set_conv_decomp set_takeWhileD)
  moreover have "q = a @ c # q'" using ac by (metis append.assoc append_Cons append_Nil q'_def takeWhile_dropWhile_id)
  ultimately have "contains_word p w (py_lower q)"
    using contains_word_append [OF w, of "lower_char c" p "py_lower a" "py_lower q'"] space_not_word by simp
  then show False using q by simp
qed

lemma split_word_head:
  assumes w: "\<forall>x \<in> set w. is_word x" "w \<noteq> []" "py_lower w = w"
    and rest: "rest \<noteq> []" "\<not> is_space (hd rest)"
  shows "(q \<noteq> [] \<longrightarrow> \<not> is_space (last q)) \<Longrightarrow> \<not> contains_word p w (py_lower q) \<Longrightarrow>
    split_word w (q @ separator w @ rest) = q # split_word w rest"
proof (induction q arbitrary: p)
  case Nil
  have "dropWhile is_space (w @ '' '' @ rest) = w @ '' '' @ rest"
    using w space_not_word by (cases w) auto
  moreover have "dropWhile is_space ('' '' @ rest) = rest" using rest by (cases rest) auto
  ultimately have "match_sep w (separator w @ rest) = Some rest"
    using w by (simp add: match_sep_def separator_def spaced_def)
  then show ?case by (subst split_word.simps) simp
next
  case (Cons c q)
  have "match_sep w ((c # q) @ separator w @ rest) = None"
    using Cons.prems by (intro no_sep_inside [OF w(1,2)]) (auto simp: separator_def spaced_def)
  moreover have "split_word w (q @ separator w @ rest) = q # split_word w rest"
    using Cons.prems by (intro Cons.IH [of "is_word (lower_char c)"]) (auto split: if_splits)
  ultimately show ?case by (subst split_word.simps) simp
qed

lemma split_word_last:
  assumes w: "\<forall>x \<in> set w. is_word x" "w \<noteq> []"
  shows "(q \<noteq> [] \<longrightarrow> \<not> is_space (last q)) \<Longrightarrow> \<not> contains_word p w (py_lower q) \<Longrightarrow> split_word w q = [q]"
proof (induction q arbitrary: p)
  case Nil
  then show ?case by (subst split_word.simps) (simp add: match_sep_def spaced_def)
next
  case (Cons c q)
  have "match_sep w (c # q) = None"
    using Cons.prems no_sep_inside [OF w, of "c # q" p "[]"] by auto
  moreover have "split_word w q = [q]"
    using Cons.prems by (intro Cons.IH [of "is_word (lower_char c)"]) (auto split: if_splits)
  ultimately show ?case by (subst split_word.simps) simp
qed

definition trimmed :: "str \<Rightarrow> bool" where
  "trimmed s \<longleftrightarrow> s \<noteq> [] \<and> \<not> is_space (hd s) \<and> \<not> is_space (last s)"

lemma py_join_hd_last:
  "ps \<noteq> [] \<Longrightarrow> \<forall>p \<in> set ps. trimmed p \<Longrightarrow> trimmed (py_join sep ps)"
proof (induction sep ps rule: py_join.induct)
  case (3 sep s t ts)
  then show ?case by (auto simp: trimmed_def)
qed simp_all

lemma split_word_join:
  assumes w: "\<forall>x \<in> set w. is_word x" "w \<noteq> []" "py_lower w = w"
  shows "ps \<noteq> [] \<Longrightarrow> \<forall>p \<in> set ps. trimmed p \<and> \<not> contains_word False w (py_lower p) \<Longrightarrow>
    split_word w (py_join (separator w) ps) = ps"
proof (induction "separator w" ps rule: py_join.induct)
  case (2 s)
  then show ?case using split_word_last [OF w(1,2), of s False] by (simp add: trimmed_def)
next
  case (3 s t ts)
  let ?rest = "py_join (separator w) (t # ts)"
  have "trimmed ?rest" using 3 by (intro py_join_hd_last) auto
  then show ?case
    using 3 split_word_head [OF w, of ?rest s False] by (simp add: trimmed_def)
qed simp

lemma contains_word_join:
  assumes w: "\<forall>x \<in> set w. is_word x" "w \<noteq> []" "py_lower w = w"
  shows "2 \<le> length ps \<Longrightarrow> contains_word False w (py_lower (py_join (separator w) ps))"
proof -
  assume "2 \<le> length ps"
  then obtain s t ts where ps: "ps = s # t # ts" by (metis Suc_le_length_iff numeral_2_eq_2)
  let ?rest = "py_lower (py_join (separator w) (t # ts))"
  have "contains_word False w (w @ CHR '' '' # ?rest)"
    by (rule contains_word_self [OF w(2)]) (auto simp: starts_with_def)
  then show ?thesis
    using contains_word_append [OF w(1,2), of "CHR '' ''" False "py_lower s" "w @ CHR '' '' # ?rest"] w
    by (simp add: ps separator_def)
qed

lemma not_contains_word_join:
  assumes w: "\<forall>x \<in> set w. is_word x" "w \<noteq> []" and v: "\<not> contains_word False w (py_lower v)"
  shows "\<forall>p \<in> set ps. \<not> contains_word False w (py_lower p) \<Longrightarrow>
    \<not> contains_word False w (py_lower (py_join (separator v) ps))"
proof (induction "separator v" ps rule: py_join.induct)
  case (3 s t ts)
  let ?rest = "py_lower (py_join (separator v) (t # ts))"
  have "\<not> contains_word False w (py_lower v @ CHR '' '' # ?rest)"
    using 3 v contains_word_append [OF w, of "CHR '' ''" False "py_lower v" ?rest] by simp
  then show ?case
    using 3 contains_word_append [OF w, of "CHR '' ''" False "py_lower s" "py_lower v @ CHR '' '' # ?rest"]
    by (simp add: separator_def)
qed simp_all

section \<open>Evaluation\<close>

lemma any_true_mono:
  "(\<And>x. x \<in> set xs \<Longrightarrow> f x \<noteq> Inl RecursionLimit \<Longrightarrow> g x = f x) \<Longrightarrow>
    any_true f xs \<noteq> Inl RecursionLimit \<Longrightarrow> any_true g xs = any_true f xs"
proof (induction xs)
  case (Cons x xs)
  have "f x \<noteq> Inl RecursionLimit" using Cons.prems(2) by auto
  then have "g x = f x" using Cons.prems(1) by simp
  then show ?case using Cons by (cases "f x") auto
qed simp

lemma all_true_mono:
  "(\<And>x. x \<in> set xs \<Longrightarrow> f x \<noteq> Inl RecursionLimit \<Longrightarrow> g x = f x) \<Longrightarrow>
    all_true f xs \<noteq> Inl RecursionLimit \<Longrightarrow> all_true g xs = all_true f xs"
proof (induction xs)
  case (Cons x xs)
  have "f x \<noteq> Inl RecursionLimit" using Cons.prems(2) by auto
  then have "g x = f x" using Cons.prems(1) by simp
  then show ?case using Cons by (cases "f x") auto
qed simp

lemma eval_step_mono:
  assumes ev: "\<And>x. f x \<noteq> Inl RecursionLimit \<Longrightarrow> g x = f x"
    and ok: "eval_step f pl c vs e \<noteq> Inl RecursionLimit"
  shows "eval_step g pl c vs e = eval_step f pl c vs e"
proof -
  have b: "bindE (g x) h = bindE (f x) h" if "bindE (f x) h \<noteq> Inl RecursionLimit"
    for x and h :: "str \<Rightarrow> eval_error + str"
    using ev [of x] that by (cases "f x") auto
  have any: "any_true g xs = any_true f xs" if "any_true f xs \<noteq> Inl RecursionLimit" for xs
    using ev that by (intro any_true_mono)
  have all: "all_true g xs = all_true f xs" if "all_true f xs \<noteq> Inl RecursionLimit" for xs
    using ev that by (intro all_true_mono)
  let ?e = "py_strip e" and ?low = "py_lower (py_strip e)"
  let ?lit = "?e = [] \<or> ?low = ''true'' \<or> ?low = ''false''"
  consider (lit) ?lit | (disj) "\<not> ?lit" "contains_word False ''or'' ?low"
    | (conj) "\<not> ?lit" "\<not> contains_word False ''or'' ?low" "contains_word False ''and'' ?low"
    | (neg) "\<not> ?lit" "\<not> contains_word False ''or'' ?low" "\<not> contains_word False ''and'' ?low"
        "starts_with ?low ''not ''"
    | (atomic) "\<not> ?lit" "\<not> contains_word False ''or'' ?low" "\<not> contains_word False ''and'' ?low"
        "\<not> starts_with ?low ''not ''"
    by blast
  then show ?thesis
  proof cases
    case lit
    then show ?thesis by (auto simp: eval_step_def Let_def)
  next
    case disj
    then show ?thesis using ok by (simp add: eval_step_def Let_def any)
  next
    case conj
    then show ?thesis using ok by (simp add: eval_step_def Let_def all)
  next
    case neg
    then show ?thesis using ok by (simp add: eval_step_def Let_def b)
  next
    case atomic
    then show ?thesis by (simp add: eval_step_def Let_def)
  qed
qed

lemma evaluate_mono:
  "evaluate_expr n pl c vs e \<noteq> Inl RecursionLimit \<Longrightarrow> n \<le> m \<Longrightarrow>
    evaluate_expr m pl c vs e = evaluate_expr n pl c vs e"
proof (induction n arbitrary: m e)
  case (Suc n)
  obtain m' where m: "m = Suc m'" "n \<le> m'" using Suc.prems(2) by (cases m) auto
  have "eval_step (evaluate_expr m' pl c vs) pl c vs e = eval_step (evaluate_expr n pl c vs) pl c vs e"
    using Suc.prems(1) by (intro eval_step_mono Suc.IH m(2)) simp_all
  then show ?case by (simp add: m)
qed simp

lemma truth_text_mem [simp]: "truth_text b = ''true'' \<or> truth_text b = ''false''"
  by (simp add: truth_text_def)

lemma any_true_verdict: "any_true f xs = Inr r \<Longrightarrow> r = ''true'' \<or> r = ''false''"
proof (induction xs)
  case (Cons x xs)
  then show ?case by (cases "f x") (auto split: if_splits)
qed simp

lemma all_true_verdict: "all_true f xs = Inr r \<Longrightarrow> r = ''true'' \<or> r = ''false''"
proof (induction xs)
  case (Cons x xs)
  then show ?case by (cases "f x") (auto split: if_splits)
qed simp

lemma compare_values_verdict:
  "compare_values pl l op r = ''true'' \<or> compare_values pl l op r = ''false''"
  by (simp add: compare_values_def truth_text_def split: prod.split sum.split)

lemma lift_exn_Inr: "lift_exn m = Inr x \<longleftrightarrow> m = Inr x"
  by (cases m) (simp_all add: lift_exn_def)

lemma eval_atom_verdict: "eval_atom pl c vs e = Inr r \<Longrightarrow> r = ''true'' \<or> r = ''false''"
  by (auto simp: eval_atom_def Let_def lift_exn_Inr bindE_Inr_iff truth_text_def
      split: if_splits option.splits)
     (use compare_values_verdict in blast)

lemma evaluate_verdict: "evaluate_expr n pl c vs e = Inr r \<Longrightarrow> r = ''true'' \<or> r = ''false''"
  by (cases n) (auto simp: eval_step_def Let_def bindE_Inr_iff truth_text_def
      dest: any_true_verdict all_true_verdict eval_atom_verdict split: if_splits)

lemma eval_atom_limit: "eval_atom pl c vs e \<noteq> Inl RecursionLimit"
  by (auto simp: eval_atom_def Let_def lift_exn_def split: option.split sum.split)

lemma py_strip_trimmed: "trimmed s \<Longrightarrow> py_strip s = s"
proof -
  assume t: "trimmed s"
  then have "dropWhile is_space s = s" by (cases s) (auto simp: trimmed_def)
  moreover have "dropWhile is_space (rev s) = rev s"
    using t by (cases s rule: rev_cases) (auto simp: trimmed_def)
  ultimately show ?thesis by (simp add: py_strip_def)
qed

abbreviation word_or :: str where "word_or \<equiv> ''or''"
abbreviation word_and :: str where "word_and \<equiv> ''and''"

lemma conn_words: "\<forall>x \<in> set word_or. is_word x" "\<forall>x \<in> set word_and. is_word x"
    "py_lower word_or = word_or" "py_lower word_and = word_and"
    "\<not> contains_word False word_or (py_lower word_and)"
  by (simp_all add: is_word_def py_lower_def lower_char_def starts_with_def)

text \<open>Texts without connectives: the recursion only follows \<open>not\<close>.\<close>

definition connective_free :: "str \<Rightarrow> bool" where
  "connective_free s \<longleftrightarrow> \<not> contains_word False word_or (py_lower s) \<and> \<not> contains_word False word_and (py_lower s)"

lemma contains_word_dropWhile:
  assumes w: "\<forall>x \<in> set w. is_word x" "w \<noteq> []"
  shows "contains_word False w (py_lower (dropWhile is_space s)) \<Longrightarrow> contains_word False w (py_lower s)"
proof (induction s)
  case (Cons c s)
  then show ?case
    using contains_word_append [OF w, of "lower_char c" False "[]" "py_lower s"] space_not_word
    by (auto split: if_splits)
qed simp

lemma contains_word_drop_end:
  assumes w: "\<forall>x \<in> set w. is_word x" "w \<noteq> []"
  shows "contains_word False w (py_lower (rev (dropWhile is_space (rev s)))) \<Longrightarrow> contains_word False w (py_lower s)"
proof (induction s rule: rev_induct)
  case (snoc c s)
  then show ?case
    using contains_word_append [OF w, of "lower_char c" False "py_lower s" "[]"] space_not_word
    by (auto split: if_splits)
qed simp

lemma connective_free_strip: "connective_free s \<Longrightarrow> connective_free (py_strip s)"
  unfolding connective_free_def py_strip_def
  by (metis contains_word_dropWhile contains_word_drop_end conn_words(1,2) list.simps(3))

lemma connective_free_not:
  assumes "connective_free s" "starts_with (py_lower s) ''not ''"
  shows "connective_free (drop 4 s)"
proof -
  have "take 4 (py_lower s) = ''not ''" using assms(2) by (simp add: starts_with_def eval_nat_numeral)
  then have "py_lower s = ''not'' @ CHR '' '' # py_lower (drop 4 s)"
    by (metis append_Cons append_Nil append_take_drop_id py_lower_drop)
  then show ?thesis
    using assms(1) contains_word_append [of word_or "CHR '' ''" False "''not''" "py_lower (drop 4 s)"]
      contains_word_append [of word_and "CHR '' ''" False "''not''" "py_lower (drop 4 s)"]
    by (simp add: connective_free_def conn_words)
qed

lemma length_py_strip: "length (py_strip s) \<le> length s"
  unfolding py_strip_def
  by (metis length_dropWhile_le length_rev order_trans)

lemma evaluate_connective_free:
  "connective_free e \<Longrightarrow> length e < n \<Longrightarrow> evaluate_expr n pl c vs e \<noteq> Inl RecursionLimit"
proof (induction n arbitrary: e)
  case (Suc n)
  let ?e = "py_strip e"
  have free: "connective_free ?e" using Suc.prems connective_free_strip by simp
  have len: "length (drop 4 ?e) < n" if "?e \<noteq> []"
    using that Suc.prems length_py_strip [of e] by (cases ?e) auto
  have "bindE (evaluate_expr n pl c vs (drop 4 ?e)) h \<noteq> Inl RecursionLimit"
    if "?e \<noteq> []" "starts_with (py_lower ?e) ''not ''" and "\<And>r. h r \<noteq> Inl RecursionLimit" for h :: "str \<Rightarrow> eval_error + str"
    using Suc.IH [OF connective_free_not [OF free that(2)] len [OF that(1)]] that(3)
    by (cases "evaluate_expr n pl c vs (drop 4 ?e)") auto
  then show ?case
    using free eval_atom_limit by (auto simp: eval_step_def Let_def connective_free_def)
qed simp

text \<open>A condition in disjunctive form, written with single spaces.\<close>

definition render_dnf :: "str list list \<Rightarrow> str" where
  "render_dnf cls = py_join (separator word_or) (map (py_join (separator word_and)) cls)"

definition atom_ok :: "str \<Rightarrow> bool" where
  "atom_ok a \<longleftrightarrow> trimmed a \<and> connective_free a"

lemma not_literal:
  "contains_word False w (py_lower e) \<Longrightarrow> w = word_or \<or> w = word_and \<Longrightarrow>
    e \<noteq> [] \<and> py_lower e \<noteq> ''true'' \<and> py_lower e \<noteq> ''false''"
  by (auto simp: starts_with_def is_word_def)

lemma evaluate_clause:
  assumes cl: "cl \<noteq> []" "\<forall>a \<in> set cl. atom_ok a \<and> length a < n"
  shows "evaluate_expr (Suc n) pl c vs (py_join (separator word_and) cl) = all_true (evaluate_expr n pl c vs) cl"
proof (cases "2 \<le> length cl")
  case True
  let ?e = "py_join (separator word_and) cl"
  have e: "py_strip ?e = ?e" using cl by (intro py_strip_trimmed py_join_hd_last) (auto simp: atom_ok_def)
  have "contains_word False word_and (py_lower ?e)"
    using contains_word_join [OF conn_words(2) _ conn_words(4) True] by simp
  moreover have "\<not> contains_word False word_or (py_lower ?e)"
    using cl not_contains_word_join [OF conn_words(1) _ conn_words(5), of cl]
    by (simp add: atom_ok_def connective_free_def)
  moreover have "split_word word_and ?e = cl"
    using cl split_word_join [OF conn_words(2) _ conn_words(4), of cl]
    by (simp add: atom_ok_def connective_free_def)
  ultimately show ?thesis using not_literal [of word_and ?e] by (simp add: eval_step_def e)
next
  case False
  then obtain a where a: "cl = [a]" using cl by (cases cl rule: list.exhaust; cases "tl cl") auto
  have "evaluate_expr (Suc n) pl c vs a = evaluate_expr n pl c vs a"
    using cl a by (intro evaluate_mono evaluate_connective_free) (auto simp: atom_ok_def)
  then show ?thesis
    using a evaluate_verdict [of n pl c vs a] by (cases "evaluate_expr n pl c vs a") auto
qed

lemma all_true_limit:
  "(\<And>a. a \<in> set cl \<Longrightarrow> f a \<noteq> Inl RecursionLimit) \<Longrightarrow> all_true f cl \<noteq> Inl RecursionLimit"
proof (induction cl)
  case (Cons a cl)
  then show ?case by (cases "f a") auto
qed simp

lemma any_true_map: "any_true f (map g xs) = any_true (\<lambda>x. f (g x)) xs"
  by (induction xs) (simp_all cong: if_cong)

lemma any_true_cong: "(\<And>x. x \<in> set xs \<Longrightarrow> f x = g x) \<Longrightarrow> any_true f xs = any_true g xs"
  by (induction xs) (simp_all cong: if_cong)

text \<open>
  C10: A condition written as clauses joined by \<open>or\<close>, each a list of atoms joined by \<open>and\<close>,
  evaluates to the disjunction of the conjunctions of its atoms, from left to right, with
  an early stop at the first clause that holds and the first atom that fails; the errors of
  the atoms that are reached are the errors of the whole. A recursion depth of two more than
  the longest atom is enough.
\<close>

theorem conditions_dnf:
  "cls \<noteq> [] \<Longrightarrow> \<forall>cl \<in> set cls. cl \<noteq> [] \<and> (\<forall>a \<in> set cl. atom_ok a \<and> length a < n) \<Longrightarrow>
    evaluate_expr (n + 2) pl c vs (render_dnf cls) = any_true (all_true (evaluate_expr n pl c vs)) cls
    \<and> evaluate_expr (n + 2) pl c vs (render_dnf cls) \<noteq> Inl RecursionLimit"
proof -
  assume ne: "cls \<noteq> []"
    and cls: "\<forall>cl \<in> set cls. cl \<noteq> [] \<and> (\<forall>a \<in> set cl. atom_ok a \<and> length a < n)"
  let ?j = "py_join (separator word_and)"
  have ev: "evaluate_expr (Suc n) pl c vs (?j cl) = all_true (evaluate_expr n pl c vs) cl" if "cl \<in> set cls" for cl
    using cls that by (intro evaluate_clause) auto
  have fine: "all_true (evaluate_expr n pl c vs) cl \<noteq> Inl RecursionLimit" if "cl \<in> set cls" for cl
    using cls that by (intro all_true_limit evaluate_connective_free) (auto simp: atom_ok_def)
  have lim: "any_true (all_true (evaluate_expr n pl c vs)) xs \<noteq> Inl RecursionLimit" if "set xs \<subseteq> set cls" for xs
    using that
  proof (induction xs)
    case (Cons x xs)
    then show ?case using fine [of x] by (cases "all_true (evaluate_expr n pl c vs) x") auto
  qed simp
  have tr: "\<forall>p \<in> set (map ?j cls). trimmed p \<and> \<not> contains_word False word_or (py_lower p)"
  proof
    fix p assume "p \<in> set (map ?j cls)"
    then obtain cl where p: "p = ?j cl" "cl \<in> set cls" by auto
    have "trimmed p" using cls p by (auto simp: atom_ok_def intro!: py_join_hd_last)
    moreover have "\<not> contains_word False word_or (py_lower p)"
      using cls p not_contains_word_join [OF conn_words(1) _ conn_words(5), of cl]
      by (auto simp: atom_ok_def connective_free_def)
    ultimately show "trimmed p \<and> \<not> contains_word False word_or (py_lower p)" by simp
  qed
  have "evaluate_expr (Suc (Suc n)) pl c vs (render_dnf cls) = any_true (all_true (evaluate_expr n pl c vs)) cls"
  proof (cases "2 \<le> length cls")
    case True
    have e: "py_strip (render_dnf cls) = render_dnf cls"
      using tr ne unfolding render_dnf_def by (intro py_strip_trimmed py_join_hd_last) auto
    have w: "contains_word False word_or (py_lower (render_dnf cls))"
      unfolding render_dnf_def using True contains_word_join [OF conn_words(1) _ conn_words(3)] by simp
    have "split_word word_or (render_dnf cls) = map ?j cls"
      unfolding render_dnf_def using ne tr split_word_join [OF conn_words(1) _ conn_words(3)] by simp
    then have "evaluate_expr (Suc (Suc n)) pl c vs (render_dnf cls)
        = any_true (evaluate_expr (Suc n) pl c vs) (map ?j cls)"
      using not_literal [OF w] w by (simp add: eval_step_def Let_def e)
    also have "\<dots> = any_true (all_true (evaluate_expr n pl c vs)) cls"
      unfolding any_true_map by (intro any_true_cong ev)
    finally show ?thesis .
  next
    case False
    then obtain cl where cl: "cls = [cl]" using ne by (cases cls rule: list.exhaust; cases "tl cls") auto
    have "evaluate_expr (Suc (Suc n)) pl c vs (?j cl) = evaluate_expr (Suc n) pl c vs (?j cl)"
      using fine [of cl] ev [of cl] cl by (intro evaluate_mono) auto
    then show ?thesis
      using ev [of cl] cl all_true_verdict [of "evaluate_expr n pl c vs" cl]
      by (cases "all_true (evaluate_expr n pl c vs) cl") (auto simp: render_dnf_def)
  qed
  then show ?thesis using lim [of cls] by simp
qed

text \<open>
  C31: An expression that contains the word \<open>or\<close> where the split finds no separator (as in
  \<open>a-or-b\<close> or at an end of the text) is its own only part: the recursion never ends, and
  Python stops it with a RecursionError at whatever depth the limit is set to.
\<close>

theorem unspaced_or_never_returns:
  "trimmed e \<Longrightarrow> contains_word False ''or'' (py_lower e) \<Longrightarrow> split_word ''or'' e = [e] \<Longrightarrow>
    evaluate_expr n pl c vs e = Inl RecursionLimit"
proof (induction n)
  case (Suc n)
  then show ?case
    using not_literal [of word_or e] by (simp add: eval_step_def Let_def py_strip_trimmed)
qed simp

section \<open>Examples\<close>

definition demo_pylib :: pylib where
  "demo_pylib = \<lparr>pl_repr = (\<lambda>_. ''1.5''), pl_float = (\<lambda>_. None), pl_loads = (\<lambda>_. None)\<rparr>"

definition demo_context :: agent_context where
  "demo_context = (new_context ''s'')\<lparr>cx_iter := 3\<rparr>"

theorem conditions_dnf_witness:
  "evaluate_expr (20 + 2) demo_pylib demo_context [(''status'', JStr ''ok'')]
      (render_dnf [[''has_error'', ''x''], [''status == ok'', ''iteration >= 3'']])
    = any_true (all_true (evaluate_expr 20 demo_pylib demo_context [(''status'', JStr ''ok'')]))
        [[''has_error'', ''x''], [''status == ok'', ''iteration >= 3'']]"
  by (rule conditions_dnf [THEN conjunct1])
    (simp_all add: atom_ok_def trimmed_def connective_free_def starts_with_def is_word_def
      is_space_def py_lower_def lower_char_def)

theorem unspaced_or_never_returns_witness:
  "evaluate_expr 1000 demo_pylib demo_context [] ''mode == x-or-y'' = Inl RecursionLimit"
  by (rule unspaced_or_never_returns)
    (simp_all add: trimmed_def starts_with_def is_word_def is_space_def py_lower_def lower_char_def
      split_word.simps match_sep_def spaced_def)

end
