(* ===== verification/RuntimeDemo.thy ===== *)
theory RuntimeDemo
  imports RuntimeTypes RuntimeEnds RuntimeNesting RuntimeGuard RuntimeProps ConditionProps
begin

text \<open>
  A concrete engine on which the hypotheses of the properties of executions hold: its world is
  the list of the tools that have run, its funnel refuses one tool, and its parser knows one
  graph. The properties are applied to it.
\<close>

section \<open>The engine\<close>

definition demo_services :: "str list \<Rightarrow> str list node_services" where
  "demo_services refused = \<lparr>
     ns_admit = (\<lambda>c tool args label ok w.
       ((\<lparr>ad_allowed = tool \<notin> set refused, ad_needs_approval = False, ad_reason = [],
          ad_blocked_by = ''permission'', ad_args = args\<rparr>, None, None), w)),
     ns_llm = (\<lambda>n g model prompt. gen_return), ns_rag = (\<lambda>n g model prompt. gen_return),
     ns_planner = (\<lambda>n g. gen_return), ns_verify = (\<lambda>n g. gen_return), ns_acp = (\<lambda>n g. gen_return),
     ns_assertion = None\<rparr>"

definition demo_node :: "str \<Rightarrow> (str \<times> json) list \<Rightarrow> node_config" where
  "demo_node ty kw = node_init (JStr ty) kw"

definition demo_agent :: agent_graph where
  "demo_agent = \<lparr>g_id = ''g'', g_name = ''demo'', g_description = [],
     g_nodes = [(''start'', demo_node ''start'' []), (''fork'', demo_node ''parallel'' []),
                (''one'', demo_node ''tool'' [(''tool_name'', JStr ''rm'')]),
                (''two'', demo_node ''tool'' [(''tool_name'', JStr ''file_read'')]),
                (''end'', demo_node ''end'' [])],
     g_edges = [\<lparr>e_source = ''start'', e_target = ''fork'', e_label = []\<rparr>,
                \<lparr>e_source = ''fork'', e_target = ''one'', e_label = []\<rparr>,
                \<lparr>e_source = ''fork'', e_target = ''two'', e_label = []\<rparr>,
                \<lparr>e_source = ''one'', e_target = ''end'', e_label = []\<rparr>,
                \<lparr>e_source = ''two'', e_target = ''end'', e_label = []\<rparr>],
     g_start = ''start'', g_version = ''1.0'', g_agent_id = [], g_plan_mode = True,
     g_stop_on_tool_error = False, g_policy = JNull\<rparr>"

definition demo_engine :: "str list \<Rightarrow> str list runtime" where
  "demo_engine refused = \<lparr>
     rt_pl = demo_pylib, rt_clock = (\<lambda>_. 1), rt_today = (\<lambda>_. ''2026-01-01''), rt_uid = (\<lambda>w. (''u'', w)),
     rt_env = (\<lambda>_. []), rt_hooks = None, rt_max_iterations = 25, rt_seed = [], rt_depth = 0,
     rt_auto_checkpoint = False, rt_memory = None, rt_store = None, rt_tool_configs = [],
     rt_tool = (\<lambda>tool args w. (ToolReturned (JStr ''ok''), w @ [tool])),
     rt_frame = (\<lambda>p w. None), rt_answer = (\<lambda>a w. (NoAnswer, w)), rt_human = (\<lambda>i w. (None, w)),
     rt_parse_graph = (\<lambda>t. if t = ''demo'' then Inr demo_agent else Inl ''no graph''),
     rt_graph_text = (\<lambda>_. ''demo''), rt_should_compact = (\<lambda>_. ''none''), rt_compact = (\<lambda>_ ms. ms),
     rt_artifact_tokens = (\<lambda>_ _. 0), rt_unload = None, rt_exn_text = (\<lambda>_. ''error''),
     rt_event_id = (\<lambda>session i. session @ ''-'' @ str_of_nat i),
     rt_nodes = demo_services refused, rt_fresh_nodes = demo_services refused\<rparr>"

definition demo_state :: "str list run_state" where
  "demo_state = \<lparr>rs_ctx = new_context ''s'', rs_own_budget = None, rs_default_budget = None, rs_world = []\<rparr>"

section \<open>Types and nesting\<close>




theorem nesting_bounded_witness:
  "execute_graph (13 + 1000) (demo_engine []) demo_agent ''hello'' None demo_state
    = execute_graph 13 (demo_engine []) demo_agent ''hello'' None demo_state"
  by (rule nesting_bounded [where k = 5])
    (simp_all add: graphs_within_def demo_engine_def demo_agent_def max_sub_graph_depth_def py_strip_def)

section \<open>Guards\<close>

lemma demo_guarded:
  "p \<or> ''rm'' \<in> set refused \<Longrightarrow>
    guarded p (\<lambda>w. p \<and> ''exit_plan_mode'' \<in> set w) (\<lambda>w. ''rm'' \<notin> set w) (demo_engine refused)"
  by (auto simp: guarded_def engine_keeps_def checks_keep_def handlers_keep_def admitted_tools_keep_def
      demo_engine_def demo_services_def gen_inv_return guard_ok_def plan_readonly_tools_def)

theorem tools_run_only_when_admitted_witness:
  "gen_inv (\<lambda>t. ''rm'' \<notin> set (rs_world t))
    (execute_graph 20 (demo_engine [''rm'']) (demo_agent\<lparr>g_plan_mode := False\<rparr>) ''hello'' None demo_state)"
proof (rule tools_run_only_when_admitted [where Q = "\<lambda>w. ''rm'' \<notin> set w"])
  show "guarded False (\<lambda>_. False) (\<lambda>w. ''rm'' \<notin> set w) (demo_engine [''rm''])"
    using demo_guarded [of False "[''rm'']"] by simp
qed (simp add: demo_state_def)

theorem plan_mode_confines_witness:
  "gen_inv (\<lambda>t. ''exit_plan_mode'' \<in> set (rs_world t) \<or> cx_plan (rs_ctx t) \<and> ''rm'' \<notin> set (rs_world t))
    (execute_graph 20 (demo_engine []) demo_agent ''hello'' None demo_state)"
proof (rule plan_mode_confines [where Q = "\<lambda>w. ''rm'' \<notin> set w" and E = "\<lambda>w. ''exit_plan_mode'' \<in> set w"])
  show "guarded True (\<lambda>w. ''exit_plan_mode'' \<in> set w) (\<lambda>w. ''rm'' \<notin> set w) (demo_engine [])"
    using demo_guarded [of True "[]"] by simp
qed (simp_all add: demo_state_def demo_agent_def)

section \<open>Branches\<close>

lemma demo_valid: "well_formed demo_agent \<and> known_types demo_agent"
  unfolding validate_clean_iff [symmetric] by code_simp

lemma demo_edges: "get_outgoing_edges ''fork'' demo_agent =
    [\<lparr>e_source = ''fork'', e_target = ''one'', e_label = []\<rparr>, \<lparr>e_source = ''fork'', e_target = ''two'', e_label = []\<rparr>]"
  by (simp add: get_outgoing_edges_def demo_agent_def)

theorem merge_node_is_common_witness:
  "let m = find_merge_node demo_agent (get_outgoing_edges ''fork'' demo_agent);
       common = common_nodes demo_agent (get_outgoing_edges ''fork'' demo_agent)
   in (m = [] \<longleftrightarrow> common = {}) \<and> (m \<noteq> [] \<longrightarrow> m \<in> common)"
  unfolding Let_def
proof (rule merge_node_is_common)
  show "2 \<le> length (get_outgoing_edges ''fork'' demo_agent)" by (simp add: demo_edges)
  have "b \<in> {''start'', ''fork'', ''one'', ''two'', ''end''}"
    if "(''one'', b) \<in> (edge_rel (g_edges demo_agent))\<^sup>*" for b
    using rtrancl_stays [OF conjunct1 [OF demo_valid] _ that] by (simp add: demo_agent_def)
  then show "[] \<notin> common_nodes demo_agent (get_outgoing_edges ''fork'' demo_agent)"
    by (auto simp: common_nodes_def demo_edges)
qed

theorem branch_graph_valid_witness:
  "\<exists>sub. build_branch ''u'' demo_agent ''one'' ''end'' ''fork'' = Inr (Some sub)
    \<and> validate None sub = Inr [] \<and> g_start sub = ''one''
    \<and> fst ` set (g_nodes sub) = (edge_rel (filter (\<lambda>e. e_target e \<notin> set (branch_excluded ''end'' ''fork''))
        (g_edges demo_agent)))\<^sup>* `` {''one''}
    \<and> set (g_nodes sub) \<subseteq> set (g_nodes demo_agent)
    \<and> ''fork'' \<notin> fst ` set (g_nodes sub) \<and> (''end'' \<noteq> [] \<longrightarrow> ''end'' \<notin> fst ` set (g_nodes sub))"
  by (rule branch_graph_valid) (use demo_valid in \<open>simp_all add: get_node_def demo_agent_def\<close>)

section \<open>Loops, sub-graphs and checkpoints\<close>

definition demo_loop :: node_config where
  "demo_loop = (demo_node ''loop'' [])\<lparr>nc_max_iterations := JInt 3\<rparr>"

definition counting :: "str list run_state" where
  "counting = upd_ctx (\<lambda>c. c\<lparr>cx_vars := Some []\<rparr>) demo_state"

lemma demo_loop_name: "loop_var_name demo_loop = ''loop_count''"
  by code_simp

theorem loop_runs_exactly_witness:
  "\<exists>e t. exec_loop (demo_engine []) demo_loop demo_agent
        (arrival (demo_engine []) demo_loop demo_agent id 3 counting) = Inr (e, t)
    \<and> ae_content e = (if 0 + int 3 < 3 then ''loop_continue'' else ''loop_exit'')"
  by (rule loop_runs_exactly)
    (simp_all add: demo_loop_name counter_at_def loop_value_def counting_def upd_ctx_def
      demo_loop_def [THEN arg_cong, of nc_max_iterations])

theorem sub_graph_isolated_witness:
  "gen_inv (same_but (mapped_targets [(''graph_json'', JStr ''demo'')]) counting)
    (exec_sub_graph (execute 5) (demo_engine []) [(''graph_json'', JStr ''demo'')] demo_loop counting)"
  by (rule sub_graph_isolated) (simp add: counting_def upd_ctx_def)

definition reading :: "jobj \<Rightarrow> pylib" where
  "reading doc = demo_pylib\<lparr>pl_loads := (\<lambda>t. if t = ''doc'' then Some (JObj doc) else None)\<rparr>"

theorem checkpoint_restores_witness:
  "\<exists>doc c'. checkpoint_state (reading (checkpoint_doc demo_context [(''a'', JInt 1)])) ''doc'' = Inr doc
    \<and> resumed_context demo_agent ''s'' ''one'' doc [(''b'', JInt 2)] = Some c'
    \<and> cx_messages c' = cx_messages demo_context \<and> cx_iter c' = cx_iter demo_context
    \<and> cx_chain c' = cx_chain demo_context
    \<and> cx_vars c' = Some (load_vars [(''b'', JInt 2)] [(''a'', JInt 1)]) \<and> cx_session c' = ''s''
    \<and> cx_node c' = or_text ''one'' (g_start demo_agent)"
  by (rule checkpoint_restores) (simp_all add: reading_def dict_ok_def)

definition saved_context :: agent_context where
  "saved_context = demo_context\<lparr>cx_vars := Some [(''a'', JInt 1)], cx_persona := [(''name'', JStr ''p'')]\<rparr>"

theorem context_roundtrip_witness:
  "context_from_dict 5 ''u'' (context_to_dict saved_context) = Some (Inr (context_restored 5 ''u'' saved_context))"
  by (rule context_roundtrip) (simp add: saved_context_def dict_ok_def)

end
