(* ===== verification/Planner.thy ===== *)
theory Planner
  imports PyValues
begin

text \<open>
  The plan engine of \<open>agent_runtime/planner.py\<close>: plans and their steps, the parser of the
  model's reply, approval and rejection, the execution of a step behind its dependencies and
  the loop over all steps. The plan identifier, the clock reading and the reply of the model
  gateway are arguments. The body of a step changes no file: it only writes a result text,
  and with typed fields it cannot raise.
\<close>

section \<open>Plans\<close>

record plan_step =
  ps_id :: str
  ps_description :: str
  ps_files :: "str list"
  ps_action :: str
  ps_complexity :: str
  ps_deps :: "str list"
  ps_status :: str
  ps_diff :: str
  ps_result :: str
  ps_meta :: jobj

record execution_plan =
  ep_id :: str
  ep_task :: str
  ep_steps :: "plan_step list"
  ep_created :: pyfloat
  ep_status :: str
  ep_risk :: str
  ep_meta :: jobj

record planner =
  pn_plans :: "(str, execution_plan) dict"
  pn_auto_verify :: bool

definition valid_actions :: "str list" where
  "valid_actions = [''create'', ''modify'', ''delete'']"

definition valid_complexities :: "str list" where
  "valid_complexities = [''low'', ''medium'', ''high'']"

definition valid_step_statuses :: "str list" where
  "valid_step_statuses = [''pending'', ''approved'', ''executing'', ''completed'', ''failed'', ''skipped'']"

definition plan_step_to_dict :: "plan_step \<Rightarrow> jobj" where
  "plan_step_to_dict s =
     [(''id'', JStr (ps_id s)), (''description'', JStr (ps_description s)),
      (''target_files'', JList (map JStr (ps_files s))), (''action'', JStr (ps_action s)),
      (''estimated_complexity'', JStr (ps_complexity s)),
      (''dependencies'', JList (map JStr (ps_deps s))), (''status'', JStr (ps_status s)),
      (''diff_preview'', JStr (ps_diff s)), (''result'', JStr (ps_result s)),
      (''metadata'', JObj (ps_meta s))]"

text \<open>
  A missing \<open>id\<close> or \<open>description\<close> raises KeyError; the outer None marks a document whose
  fields have other types than the dataclass.
\<close>

definition required_str :: "jobj \<Rightarrow> str \<Rightarrow> (py_exn + str) option" where
  "required_str d k = (case map_of d k of
     None \<Rightarrow> Some (Inl KeyError)
   | Some v \<Rightarrow> map_option Inr (as_str v))"

definition plan_step_fields :: "jobj \<Rightarrow> str \<Rightarrow> str \<Rightarrow> plan_step option" where
  "plan_step_fields d i desc =
     do {
       fs \<leftarrow> field as_strs d ''target_files'' [];
       act \<leftarrow> field as_str d ''action'' ''modify'';
       cpl \<leftarrow> field as_str d ''estimated_complexity'' ''low'';
       deps \<leftarrow> field as_strs d ''dependencies'' [];
       st \<leftarrow> field as_str d ''status'' ''pending'';
       df \<leftarrow> field as_str d ''diff_preview'' '''';
       rs \<leftarrow> field as_str d ''result'' '''';
       mt \<leftarrow> field as_obj d ''metadata'' [];
       Some \<lparr>ps_id = i, ps_description = desc, ps_files = fs, ps_action = act,
         ps_complexity = cpl, ps_deps = deps, ps_status = st, ps_diff = df, ps_result = rs,
         ps_meta = mt\<rparr>
     }"

definition plan_step_from_dict :: "jobj \<Rightarrow> (py_exn + plan_step) option" where
  "plan_step_from_dict d =
     (case required_str d ''id'' of
        None \<Rightarrow> None
      | Some (Inl x) \<Rightarrow> Some (Inl x)
      | Some (Inr i) \<Rightarrow>
          (case required_str d ''description'' of
             None \<Rightarrow> None
           | Some (Inl x) \<Rightarrow> Some (Inl x)
           | Some (Inr desc) \<Rightarrow> map_option Inr (plan_step_fields d i desc)))"

definition plan_to_dict :: "execution_plan \<Rightarrow> jobj" where
  "plan_to_dict p =
     [(''id'', JStr (ep_id p)), (''task'', JStr (ep_task p)),
      (''steps'', JList (map (\<lambda>s. JObj (plan_step_to_dict s)) (ep_steps p))),
      (''created_at'', JFloat (ep_created p)), (''status'', JStr (ep_status p)),
      (''overall_risk'', JStr (ep_risk p)), (''metadata'', JObj (ep_meta p))]"

text \<open>\<open>[PlanStep.from_dict(s) for s in data.get("steps", [])]\<close>, stopping at the first exception.\<close>

fun plan_steps_from :: "jobj list \<Rightarrow> (py_exn + plan_step list) option" where
  "plan_steps_from [] = Some (Inr [])"
| "plan_steps_from (d # ds) =
     (case plan_step_from_dict d of
        None \<Rightarrow> None
      | Some (Inl x) \<Rightarrow> Some (Inl x)
      | Some (Inr s) \<Rightarrow>
          map_option (\<lambda>r. bindE r (\<lambda>ss. Inr (s # ss))) (plan_steps_from ds))"

definition plan_fields :: "pyfloat \<Rightarrow> jobj \<Rightarrow> plan_step list \<Rightarrow> str \<Rightarrow> str \<Rightarrow> execution_plan option" where
  "plan_fields now d ss i task =
     do {
       cr \<leftarrow> field as_num d ''created_at'' now;
       st \<leftarrow> field as_str d ''status'' ''draft'';
       rk \<leftarrow> field as_str d ''overall_risk'' ''low'';
       mt \<leftarrow> field as_obj d ''metadata'' [];
       Some \<lparr>ep_id = i, ep_task = task, ep_steps = ss, ep_created = cr, ep_status = st,
         ep_risk = rk, ep_meta = mt\<rparr>
     }"

definition plan_from_dict :: "pyfloat \<Rightarrow> jobj \<Rightarrow> (py_exn + execution_plan) option" where
  "plan_from_dict now d =
     (case field as_objs d ''steps'' [] of
        None \<Rightarrow> None
      | Some ds \<Rightarrow>
         (case plan_steps_from ds of
            None \<Rightarrow> None
          | Some (Inl x) \<Rightarrow> Some (Inl x)
          | Some (Inr ss) \<Rightarrow>
             (case required_str d ''id'' of
                None \<Rightarrow> None
              | Some (Inl x) \<Rightarrow> Some (Inl x)
              | Some (Inr i) \<Rightarrow>
                 (case required_str d ''task'' of
                    None \<Rightarrow> None
                  | Some (Inl x) \<Rightarrow> Some (Inl x)
                  | Some (Inr task) \<Rightarrow> map_option Inr (plan_fields now d ss i task)))))"

section \<open>Steps\<close>

text \<open>
  A step of the model's reply: an action or a complexity that is not one of the known words
  is replaced, other fields keep what the document says.
\<close>

definition known_word :: "str list \<Rightarrow> str \<Rightarrow> json \<Rightarrow> str" where
  "known_word words other v = (case v of JStr w \<Rightarrow> if w \<in> set words then w else other | _ \<Rightarrow> other)"

definition llm_step :: "nat \<Rightarrow> jobj \<Rightarrow> plan_step option" where
  "llm_step i d =
     do {
       sid \<leftarrow> field as_str d ''id'' (''step_'' @ str_of_nat (i + 1));
       desc \<leftarrow> field as_str d ''description'' (''Step '' @ str_of_nat (i + 1));
       fs \<leftarrow> field as_strs d ''target_files'' [];
       deps \<leftarrow> field as_strs d ''dependencies'' [];
       Some \<lparr>ps_id = sid, ps_description = desc, ps_files = fs,
         ps_action = known_word valid_actions ''modify'' (jget d ''action'' (JStr ''modify'')),
         ps_complexity = known_word valid_complexities ''low''
            (jget d ''estimated_complexity'' (JStr ''low'')),
         ps_deps = deps, ps_status = ''pending'', ps_diff = '''', ps_result = '''', ps_meta = []\<rparr>
     }"

fun llm_steps :: "nat \<Rightarrow> json list \<Rightarrow> plan_step list option" where
  "llm_steps i [] = Some []"
| "llm_steps i (JObj d # vs) =
     (case llm_step i d of
        None \<Rightarrow> None
      | Some s \<Rightarrow> map_option ((#) s) (llm_steps (i + 1) vs))"
| "llm_steps i (_ # vs) = llm_steps (i + 1) vs"

definition fence :: str where
  "fence = ''```''"

text \<open>The lines between fences; a fence line opens or closes a block.\<close>

fun fenced_lines :: "bool \<Rightarrow> str list \<Rightarrow> str list" where
  "fenced_lines inside [] = []"
| "fenced_lines inside (l # ls) =
     (if starts_with (py_strip l) fence then fenced_lines (\<not> inside) ls
      else if inside then l # fenced_lines inside ls
      else fenced_lines inside ls)"

definition unfence :: "str \<Rightarrow> str" where
  "unfence text =
     (if starts_with text fence
      then py_join [CHR 0x0A] (fenced_lines False (split_on (CHR 0x0A) text)) else text)"

definition parse_llm_steps :: "pylib \<Rightarrow> str \<Rightarrow> plan_step list option" where
  "parse_llm_steps pl content =
     (case pl_loads pl (unfence (py_strip content)) of
        Some (JList vs) \<Rightarrow> llm_steps 0 vs
      | _ \<Rightarrow> Some [])"

definition stub_steps :: "str \<Rightarrow> str list \<Rightarrow> plan_step list" where
  "stub_steps task files =
     [\<lparr>ps_id = ''step_1'', ps_description = ''Implement: '' @ task,
       ps_files = (if files = [] then [''unknown_file''] else files), ps_action = ''modify'',
       ps_complexity = ''medium'', ps_deps = [], ps_status = ''pending'', ps_diff = '''',
       ps_result = '''', ps_meta = []\<rparr>]"

text \<open>
  What the gateway does with the request: it answers with a finish reason and a content, or
  the call times out or raises.
\<close>

datatype plan_reply = PlanReply str str | PlanTimeout | PlanRaised

definition steps_from_reply ::
    "pylib \<Rightarrow> str \<Rightarrow> str list \<Rightarrow> plan_reply \<Rightarrow> plan_step list option" where
  "steps_from_reply pl task files r =
     (case r of
        PlanTimeout \<Rightarrow> Some (stub_steps task files)
      | PlanRaised \<Rightarrow> Some (stub_steps task files)
      | PlanReply finish content \<Rightarrow>
          if finish = ''error'' \<or> content = [] then Some (stub_steps task files)
          else map_option (\<lambda>ss. if ss = [] then stub_steps task files else ss)
                 (parse_llm_steps pl content))"

definition assess_risk :: "plan_step list \<Rightarrow> str" where
  "assess_risk ss =
     (if \<exists>s \<in> set ss. ps_action s = ''delete'' then ''high''
      else if 3 < length (remdups (concat (map ps_files (filter (\<lambda>s. ps_action s = ''modify'') ss))))
      then ''medium'' else ''low'')"

definition verify_step :: "plan_step \<Rightarrow> plan_step" where
  "verify_step s = \<lparr>ps_id = ''verify_'' @ ps_id s, ps_description = ''Verify: '' @ ps_description s,
     ps_files = ps_files s, ps_action = ''verify'', ps_complexity = ''low'', ps_deps = [ps_id s],
     ps_status = ''pending'', ps_diff = '''', ps_result = '''',
     ps_meta = [(''verify_target_step'', JStr (ps_id s)), (''verify_type'', JStr ''auto'')]\<rparr>"

definition verify_steps :: "plan_step list \<Rightarrow> plan_step list" where
  "verify_steps ss = map verify_step (filter (\<lambda>s. ps_action s \<in> {''create'', ''modify''}) ss)"

section \<open>The engine\<close>

definition new_planner :: "bool \<Rightarrow> planner" where
  "new_planner auto = \<lparr>pn_plans = [], pn_auto_verify = auto\<rparr>"

definition put_plan :: "str \<Rightarrow> execution_plan \<Rightarrow> planner \<Rightarrow> planner" where
  "put_plan pid p e = e\<lparr>pn_plans := AList.update pid p (pn_plans e)\<rparr>"

text \<open>\<open>reply = None\<close>: the engine has no gateway.\<close>

definition create_plan ::
    "pylib \<Rightarrow> str \<Rightarrow> pyfloat \<Rightarrow> str \<Rightarrow> str list \<Rightarrow> plan_reply option \<Rightarrow> planner
      \<Rightarrow> (execution_plan \<times> planner) option" where
  "create_plan pl pid now task files reply e =
     map_option
       (\<lambda>ss. let p = \<lparr>ep_id = pid, ep_task = task,
                  ep_steps = ss @ (if pn_auto_verify e then verify_steps ss else []),
                  ep_created = now, ep_status = ''pending_approval'', ep_risk = assess_risk ss,
                  ep_meta = []\<rparr>
             in (p, put_plan pid p e))
       (case reply of
          None \<Rightarrow> Some (stub_steps task files)
        | Some r \<Rightarrow> steps_from_reply pl task files r)"

definition get_plan :: "str \<Rightarrow> planner \<Rightarrow> execution_plan option" where
  "get_plan pid e = map_of (pn_plans e) pid"

definition set_steps :: "(str \<Rightarrow> bool) \<Rightarrow> str \<Rightarrow> plan_step list \<Rightarrow> plan_step list" where
  "set_steps P st ss = map (\<lambda>s. if P (ps_status s) then s\<lparr>ps_status := st\<rparr> else s) ss"

definition approve_plan :: "str \<Rightarrow> planner \<Rightarrow> bool \<times> planner" where
  "approve_plan pid e =
     (case get_plan pid e of
        None \<Rightarrow> (False, e)
      | Some p \<Rightarrow>
          if ep_status p \<noteq> ''pending_approval'' then (False, e)
          else (True, put_plan pid (p\<lparr>ep_status := ''approved'',
            ep_steps := set_steps (\<lambda>st. st = ''pending'') ''approved'' (ep_steps p)\<rparr>) e))"

definition skip_open :: "plan_step list \<Rightarrow> plan_step list" where
  "skip_open = set_steps (\<lambda>st. st \<in> {''pending'', ''approved''}) ''skipped''"

definition reject_plan :: "str \<Rightarrow> str \<Rightarrow> planner \<Rightarrow> bool \<times> planner" where
  "reject_plan pid reason e =
     (case get_plan pid e of
        None \<Rightarrow> (False, e)
      | Some p \<Rightarrow>
          if ep_status p \<notin> {''pending_approval'', ''draft''} then (False, e)
          else (True, put_plan pid (p\<lparr>ep_status := ''rejected'',
            ep_meta := (if reason = [] then ep_meta p
              else AList.update ''rejection_reason'' (JStr reason) (ep_meta p)),
            ep_steps := skip_open (ep_steps p)\<rparr>) e))"

definition cancel_plan :: "str \<Rightarrow> planner \<Rightarrow> bool \<times> planner" where
  "cancel_plan pid e =
     (case get_plan pid e of
        None \<Rightarrow> (False, e)
      | Some p \<Rightarrow>
          if ep_status p \<in> {''completed'', ''rejected''} then (False, e)
          else (True, put_plan pid (p\<lparr>ep_status := ''rejected'',
            ep_meta := AList.update ''cancelled'' (JBool True) (ep_meta p),
            ep_steps := skip_open (ep_steps p)\<rparr>) e))"

definition list_plans :: "str \<Rightarrow> planner \<Rightarrow> execution_plan list" where
  "list_plans status e = sort_key (\<lambda>p. - ep_created p)
     (filter (\<lambda>p. status = [] \<or> ep_status p = status) (map snd (pn_plans e)))"

section \<open>Execution\<close>

definition settled :: "str \<Rightarrow> bool" where
  "settled st \<longleftrightarrow> st \<in> {''completed'', ''skipped''}"

text \<open>The step that an identifier names is the first one that has it.\<close>

definition step_named :: "str \<Rightarrow> plan_step list \<Rightarrow> plan_step option" where
  "step_named sid ss = List.find (\<lambda>s. ps_id s = sid) ss"

fun change_step :: "str \<Rightarrow> (plan_step \<Rightarrow> plan_step) \<Rightarrow> plan_step list \<Rightarrow> plan_step list" where
  "change_step sid f [] = []"
| "change_step sid f (s # ss) = (if ps_id s = sid then f s # ss else s # change_step sid f ss)"

text \<open>The first dependency that names a step which is not settled; unknown names are passed over.\<close>

fun blocking_dep :: "plan_step list \<Rightarrow> str list \<Rightarrow> (str \<times> str) option" where
  "blocking_dep ss [] = None"
| "blocking_dep ss (d # ds) =
     (case step_named d ss of
        None \<Rightarrow> blocking_dep ss ds
      | Some s \<Rightarrow> if settled (ps_status s) then blocking_dep ss ds else Some (d, ps_status s))"

definition comma_list :: "str list \<Rightarrow> str" where
  "comma_list = py_join '', ''"

definition step_result :: "plan_step \<Rightarrow> str" where
  "step_result s =
     (if ps_action s = ''modify'' then ''Step '' @ [CHR 0x27] @ ps_description s @ [CHR 0x27]
        @ '' executed successfully''
      else if ps_action s = ''create'' then ''Files created: '' @ comma_list (ps_files s)
      else if ps_action s = ''delete'' then ''Files deleted: '' @ comma_list (ps_files s)
      else ''Unknown action: '' @ ps_action s)"

definition step_diff :: "plan_step \<Rightarrow> str" where
  "step_diff s =
     (if ps_action s = ''modify''
      then ''--- '' @ comma_list (ps_files s) @ [CHR 0x0A] @ ''+++ '' @ comma_list (ps_files s)
        @ [CHR 0x0A] @ ''# pending code patch generation''
      else ps_diff s)"

definition blocked_step :: "str \<Rightarrow> str \<Rightarrow> plan_step \<Rightarrow> plan_step" where
  "blocked_step d st s = s\<lparr>ps_status := ''failed'',
     ps_result := ''Dependency '' @ d @ '' not completed (status='' @ st @ '')''\<rparr>"

definition completed_step :: "plan_step \<Rightarrow> plan_step" where
  "completed_step s = s\<lparr>ps_status := ''completed'', ps_result := step_result s, ps_diff := step_diff s\<rparr>"

text \<open>\<open>execute_step\<close> on the steps of a plan; None when no step has the identifier.\<close>

definition run_step :: "str \<Rightarrow> plan_step list \<Rightarrow> (plan_step \<times> plan_step list) option" where
  "run_step sid ss =
     (case step_named sid ss of
        None \<Rightarrow> None
      | Some s \<Rightarrow>
          if ps_status s \<notin> {''approved'', ''pending''} then Some (s, ss)
          else let s1 = s\<lparr>ps_status := ''executing''\<rparr>; ss1 = change_step sid (\<lambda>_. s1) ss;
                   s2 = (case blocking_dep ss1 (ps_deps s) of
                           Some (d, st) \<Rightarrow> blocked_step d st s1
                         | None \<Rightarrow> completed_step s1)
               in Some (s2, change_step sid (\<lambda>_. s2) ss1))"

definition execute_step :: "str \<Rightarrow> str \<Rightarrow> planner \<Rightarrow> (py_exn + plan_step) \<times> planner" where
  "execute_step pid sid e =
     (case get_plan pid e of
        None \<Rightarrow> (Inl ValueError, e)
      | Some p \<Rightarrow>
         (case run_step sid (ep_steps p) of
            None \<Rightarrow> (Inl ValueError, e)
          | Some (s, ss) \<Rightarrow> (Inr s, put_plan pid (p\<lparr>ep_steps := ss\<rparr>) e)))"

text \<open>
  The loop of \<open>execute_plan\<close> over the positions of the list, whose steps it changes as it
  goes. The flag says that no failed step was met.
\<close>

fun plan_loop :: "nat list \<Rightarrow> plan_step list \<Rightarrow> bool \<times> plan_step list" where
  "plan_loop [] ss = (True, ss)"
| "plan_loop (i # is) ss =
     (let s = ss ! i in
      if settled (ps_status s) then plan_loop is ss
      else if ps_status s = ''failed'' then (False, snd (plan_loop is ss))
      else case run_step (ps_id s) ss of
             None \<Rightarrow> (False, ss)
           | Some (r, ss') \<Rightarrow> if ps_status r = ''failed'' then (False, ss') else plan_loop is ss')"

definition run_plan :: "execution_plan \<Rightarrow> execution_plan" where
  "run_plan p =
     (let (ok, ss) = plan_loop [0 ..< length (ep_steps p)] (ep_steps p)
      in p\<lparr>ep_steps := ss,
           ep_status := (if ok \<and> (\<forall>s \<in> set ss. settled (ps_status s)) then ''completed''
                         else ''executing'')\<rparr>)"

definition execute_plan :: "str \<Rightarrow> planner \<Rightarrow> (py_exn + execution_plan) \<times> planner" where
  "execute_plan pid e =
     (case get_plan pid e of
        None \<Rightarrow> (Inl ValueError, e)
      | Some p \<Rightarrow>
          if ep_status p \<notin> {''approved'', ''executing''} then (Inl ValueError, e)
          else (Inr (run_plan p), put_plan pid (run_plan p) e))"

section \<open>Sequences of operations\<close>

datatype plan_op =
    PlCreate str pyfloat str "str list" "plan_reply option"
  | PlApprove str
  | PlReject str str
  | PlCancel str
  | PlStep str str
  | PlExecute str

fun plan_do :: "pylib \<Rightarrow> plan_op \<Rightarrow> planner \<Rightarrow> planner" where
  "plan_do pl (PlCreate pid now task files reply) e =
     (case create_plan pl pid now task files reply e of None \<Rightarrow> e | Some (_, e') \<Rightarrow> e')"
| "plan_do pl (PlApprove pid) e = snd (approve_plan pid e)"
| "plan_do pl (PlReject pid reason) e = snd (reject_plan pid reason e)"
| "plan_do pl (PlCancel pid) e = snd (cancel_plan pid e)"
| "plan_do pl (PlStep pid sid) e = snd (execute_step pid sid e)"
| "plan_do pl (PlExecute pid) e = snd (execute_plan pid e)"

end
