(* ===== verification/PlannerProps.thy ===== *)
theory PlannerProps
  imports Planner
begin

text \<open>
  What the plan engine guarantees: dependencies are settled before a step completes, in any
  sequence of operations; which plans run to completion and where the others stop; and a plan
  with two steps of one identifier, which never completes.
\<close>

section \<open>Naming and changing steps\<close>

lemma step_named_simps [simp]:
  "step_named d [] = None"
  "step_named d (s # ss) = (if ps_id s = d then Some s else step_named d ss)"
  by (simp_all add: step_named_def)

lemma step_namedD: "step_named d ss = Some s \<Longrightarrow> s \<in> set ss \<and> ps_id s = d"
  by (induction ss) (auto split: if_splits)

lemma length_change_step [simp]: "length (change_step sid f ss) = length ss"
  by (induction ss) auto

lemma change_step_ids [simp]:
  "(\<And>s. ps_id s = sid \<Longrightarrow> ps_id (f s) = sid) \<Longrightarrow>
    map ps_id (change_step sid f ss) = map ps_id ss"
  by (induction ss) auto

lemma change_step_twice:
  "ps_id u = sid \<Longrightarrow> change_step sid (\<lambda>_. v) (change_step sid (\<lambda>_. u) ss) = change_step sid (\<lambda>_. v) ss"
  by (induction ss) auto

lemma in_change_step: "s \<in> set (change_step sid (\<lambda>_. v) ss) \<Longrightarrow> s = v \<or> s \<in> set ss"
  by (induction ss) (auto split: if_splits)

lemma step_named_change:
  assumes "step_named sid ss = Some s" "ps_id v = sid"
  shows "step_named d (change_step sid (\<lambda>_. v) ss) = (if d = sid then Some v else step_named d ss)"
  using assms by (induction ss) (auto split: if_splits)

lemma step_named_nth:
  "distinct (map ps_id ss) \<Longrightarrow> i < length ss \<Longrightarrow> step_named (ps_id (ss ! i)) ss = Some (ss ! i)"
proof (induction ss arbitrary: i)
  case (Cons s ss)
  then show ?case by (cases i) (force simp: in_set_conv_nth)+
qed simp

lemma change_step_nth:
  "distinct (map ps_id ss) \<Longrightarrow> i < length ss \<Longrightarrow>
    change_step (ps_id (ss ! i)) (\<lambda>_. v) ss = ss[i := v]"
proof (induction ss arbitrary: i)
  case (Cons s ss)
  then show ?case by (cases i) (force simp: in_set_conv_nth)+
qed simp

lemma change_step_later:
  "i < j \<Longrightarrow> j < length ss \<Longrightarrow> ps_id (ss ! i) = sid \<Longrightarrow> change_step sid f ss ! j = ss ! j"
proof (induction ss arbitrary: i j)
  case (Cons s ss)
  then obtain j' where j: "j = Suc j'" by (cases j) auto
  show ?case
  proof (cases i)
    case 0
    then show ?thesis using Cons.prems j by simp
  next
    case (Suc i')
    then show ?thesis using Cons.IH [of i' j'] Cons.prems j by auto
  qed
qed simp

lemma blocking_dep_None:
  "blocking_dep ss ds = None \<longleftrightarrow>
    (\<forall>d \<in> set ds. \<forall>s. step_named d ss = Some s \<longrightarrow> settled (ps_status s))"
  by (induction ds) (auto split: option.splits)

lemma step_frame [simp]:
  "ps_id (blocked_step d st s) = ps_id s" "ps_status (blocked_step d st s) = ''failed''"
  "ps_deps (blocked_step d st s) = ps_deps s"
  "ps_id (completed_step s) = ps_id s" "ps_status (completed_step s) = ''completed''"
  "ps_deps (completed_step s) = ps_deps s"
  by (simp_all add: blocked_step_def completed_step_def)

lemma completed_from [simp]: "completed_step (s\<lparr>ps_status := st\<rparr>) = completed_step s"
  by (simp add: completed_step_def step_result_def step_diff_def)

text \<open>The outcomes of \<open>execute_step\<close> on the steps of a plan.\<close>

lemma run_step_outcomes:
  assumes "run_step sid ss = Some (r, ss')"
  obtains
    (idle) "step_named sid ss = Some r" "ps_status r \<notin> {''approved'', ''pending''}" "ss' = ss"
  | (blocked) s where "step_named sid ss = Some s" "ps_status s \<in> {''approved'', ''pending''}"
      "ps_id r = sid" "ps_deps r = ps_deps s" "ps_status r = ''failed''"
      "ss' = change_step sid (\<lambda>_. r) ss"
      "\<exists>d \<in> set (ps_deps s). d = sid \<or> (\<exists>t. step_named d ss = Some t \<and> \<not> settled (ps_status t))"
  | (runs) s where "step_named sid ss = Some s" "ps_status s \<in> {''approved'', ''pending''}"
      "r = completed_step s" "ps_id s = sid" "ss' = change_step sid (\<lambda>_. r) ss"
      "\<forall>d \<in> set (ps_deps s). d \<noteq> sid \<and> (\<forall>t. step_named d ss = Some t \<longrightarrow> settled (ps_status t))"
proof -
  obtain s where s: "step_named sid ss = Some s" "ps_id s = sid"
    using assms by (auto simp: run_step_def split: option.splits dest: step_namedD)
  show thesis
  proof (cases "ps_status s \<in> {''approved'', ''pending''}")
    case False
    then have "run_step sid ss = Some (s, ss)" unfolding run_step_def s(1) by simp
    then have "r = s" "ss' = ss" using assms by simp_all
    then show thesis using idle s(1) False by blast
  next
    case True
    define s1 where "s1 = s\<lparr>ps_status := ''executing''\<rparr>"
    define ss1 where "ss1 = change_step sid (\<lambda>_. s1) ss"
    have id1: "ps_id s1 = sid" "ps_deps s1 = ps_deps s" "\<not> settled (ps_status s1)"
      using s by (simp_all add: s1_def settled_def)
    have named1: "step_named d ss1 = (if d = sid then Some s1 else step_named d ss)" for d
      unfolding ss1_def by (rule step_named_change [OF s(1) id1(1)])
    have "run_step sid ss = Some (v, change_step sid (\<lambda>_. v) ss1)"
      if "v = (case blocking_dep ss1 (ps_deps s) of Some (d, st) \<Rightarrow> blocked_step d st s1
                 | None \<Rightarrow> completed_step s1)" for v
      unfolding run_step_def s(1) option.case Let_def that ss1_def s1_def using True by simp
    then have run: "run_step sid ss = Some (v, change_step sid (\<lambda>_. v) ss)"
      if "v = (case blocking_dep ss1 (ps_deps s) of Some (d, st) \<Rightarrow> blocked_step d st s1
                 | None \<Rightarrow> completed_step s1)" for v
      using that unfolding ss1_def change_step_twice [OF id1(1)] by blast
    show thesis
    proof (cases "blocking_dep ss1 (ps_deps s)")
      case None
      then have "\<forall>d \<in> set (ps_deps s). d \<noteq> sid \<and> (\<forall>t. step_named d ss = Some t \<longrightarrow> settled (ps_status t))"
        unfolding blocking_dep_None named1 using id1(3) by (auto split: if_splits)
      moreover have "run_step sid ss = Some (completed_step s, change_step sid (\<lambda>_. completed_step s) ss)"
        by (rule run) (simp add: None s1_def)
      moreover have "r = completed_step s" "ss' = change_step sid (\<lambda>_. r) ss"
        using calculation(2) assms by simp_all
      ultimately show thesis using runs [OF s(1) True _ s(2)] by blast
    next
      case (Some p)
      obtain d st where p: "p = (d, st)" by (cases p)
      have "\<exists>d \<in> set (ps_deps s). \<exists>t. step_named d ss1 = Some t \<and> \<not> settled (ps_status t)"
        using Some blocking_dep_None [of ss1 "ps_deps s"] by auto
      then have "\<exists>d \<in> set (ps_deps s). d = sid \<or> (\<exists>t. step_named d ss = Some t \<and> \<not> settled (ps_status t))"
        unfolding named1 by (auto split: if_splits)
      moreover have "run_step sid ss
          = Some (blocked_step d st s1, change_step sid (\<lambda>_. blocked_step d st s1) ss)"
        by (rule run) (simp add: Some p)
      moreover have "r = blocked_step d st s1" "ss' = change_step sid (\<lambda>_. r) ss"
        using calculation(2) assms by simp_all
      moreover have "ps_id r = sid" "ps_deps r = ps_deps s" "ps_status r = ''failed''"
        by (simp_all add: calculation(3) id1)
      ultimately show thesis using blocked [OF s(1) True] by blast
    qed
  qed
qed

section \<open>Dependencies come first\<close>

definition deps_kept :: "plan_step list \<Rightarrow> bool" where
  "deps_kept ss \<longleftrightarrow> (\<forall>s \<in> set ss. ps_status s = ''completed'' \<longrightarrow>
     (\<forall>d \<in> set (ps_deps s). \<forall>t. step_named d ss = Some t \<longrightarrow> settled (ps_status t)))"

lemma deps_keptD:
  "deps_kept ss \<Longrightarrow> s \<in> set ss \<Longrightarrow> ps_status s = ''completed'' \<Longrightarrow> d \<in> set (ps_deps s) \<Longrightarrow>
    step_named d ss = Some t \<Longrightarrow> settled (ps_status t)"
  by (auto simp: deps_kept_def)

lemma deps_kept_change:
  assumes ok: "deps_kept ss" and s: "step_named sid ss = Some s" "\<not> settled (ps_status s)"
    and v: "ps_id v = sid"
    and deps: "ps_status v = ''completed'' \<Longrightarrow> \<forall>d \<in> set (ps_deps v). d \<noteq> sid
      \<and> (\<forall>t. step_named d ss = Some t \<longrightarrow> settled (ps_status t))"
  shows "deps_kept (change_step sid (\<lambda>_. v) ss)"
  unfolding deps_kept_def
proof (intro ballI impI allI)
  fix u d t
  assume u: "u \<in> set (change_step sid (\<lambda>_. v) ss)" "ps_status u = ''completed''"
    "d \<in> set (ps_deps u)"
    and t: "step_named d (change_step sid (\<lambda>_. v) ss) = Some t"
  show "settled (ps_status t)"
  proof (cases "u = v")
    case True
    then show ?thesis using deps u t by (simp add: step_named_change [OF s(1) v])
  next
    case False
    then have "u \<in> set ss" using in_change_step [OF u(1)] by simp
    then have "step_named d ss = Some t' \<Longrightarrow> settled (ps_status t')" for t'
      using deps_keptD [OF ok _ u(2,3)] by simp
    then show ?thesis using t s by (auto simp: step_named_change [OF s(1) v] split: if_splits)
  qed
qed

lemma run_step_kept: "run_step sid ss = Some (r, ss') \<Longrightarrow> deps_kept ss \<Longrightarrow> deps_kept ss'"
proof (erule run_step_outcomes, goal_cases)
  case (2 s)
  then show ?case using deps_kept_change [of ss sid s r] by (auto simp: settled_def)
next
  case (3 s)
  then show ?case using deps_kept_change [of ss sid s r] by (auto simp: settled_def)
qed simp

lemma plan_loop_kept: "deps_kept ss \<Longrightarrow> deps_kept (snd (plan_loop is ss))"
proof (induction "is" ss rule: plan_loop.induct)
  case (2 i "is" ss)
  then show ?case by (auto simp: Let_def run_step_kept split: option.split prod.split)
qed simp

lemma step_named_map:
  "(\<And>s. ps_id (f s) = ps_id s) \<Longrightarrow> step_named d (map f ss) = map_option f (step_named d ss)"
  by (induction ss) auto

lemma set_steps_kept:
  assumes ok: "deps_kept ss" and P: "\<not> P ''completed''" "\<not> P ''skipped''" and st: "st \<noteq> ''completed''"
  shows "deps_kept (set_steps P st ss)"
  unfolding deps_kept_def
proof (intro ballI impI allI)
  fix u d t
  assume u: "u \<in> set (set_steps P st ss)" "ps_status u = ''completed''" "d \<in> set (ps_deps u)"
    and t: "step_named d (set_steps P st ss) = Some t"
  obtain t0 where t0: "step_named d ss = Some t0"
      "t = (if P (ps_status t0) then t0\<lparr>ps_status := st\<rparr> else t0)"
    using t by (auto simp: set_steps_def step_named_map)
  have "u \<in> set ss" using u(1,2) st by (auto simp: set_steps_def split: if_splits)
  from deps_keptD [OF ok this u(2,3) t0(1)] show "settled (ps_status t)"
    using P by (auto simp: t0(2) settled_def)
qed

lemma skip_open_kept: "deps_kept ss \<Longrightarrow> deps_kept (skip_open ss)"
  unfolding skip_open_def by (rule set_steps_kept) simp_all

lemma pending_kept: "\<forall>s \<in> set ss. ps_status s = ''pending'' \<Longrightarrow> deps_kept ss"
  by (auto simp: deps_kept_def)

lemma llm_step_pending: "llm_step i d = Some s \<Longrightarrow> ps_status s = ''pending''"
  unfolding llm_step_def by (auto simp: bind_eq_Some_conv)

lemma llm_steps_pending: "llm_steps i vs = Some ss \<Longrightarrow> \<forall>s \<in> set ss. ps_status s = ''pending''"
proof (induction i vs arbitrary: ss rule: llm_steps.induct)
  case (2 i d vs)
  from "2.prems" obtain s ss' where s: "llm_step i d = Some s" "llm_steps (i + 1) vs = Some ss'"
      "ss = s # ss'"
    by (cases "llm_step i d") auto
  show ?case using "2.IH" [OF s(1,2)] llm_step_pending [OF s(1)] s(3) by simp
qed auto

lemma stub_pending: "\<forall>s \<in> set (stub_steps task files). ps_status s = ''pending''"
  by (simp add: stub_steps_def)

lemma reply_pending:
  "steps_from_reply pl task files r = Some ss \<Longrightarrow> \<forall>s \<in> set ss. ps_status s = ''pending''"
  using stub_pending [of task files] llm_steps_pending
  by (auto simp: steps_from_reply_def parse_llm_steps_def
      split: plan_reply.splits if_splits option.splits json.splits)

lemma created_pending:
  assumes "create_plan pl pid now task files reply e = Some (p, e')"
  shows "\<forall>s \<in> set (ep_steps p). ps_status s = ''pending''"
proof -
  obtain ss where ss: "(case reply of None \<Rightarrow> Some (stub_steps task files)
        | Some r \<Rightarrow> steps_from_reply pl task files r) = Some ss"
      "ep_steps p = ss @ (if pn_auto_verify e then verify_steps ss else [])"
    using assms by (auto simp: create_plan_def Let_def)
  moreover have "\<forall>s \<in> set ss. ps_status s = ''pending''"
    using ss(1) stub_pending [of task files] reply_pending [of pl task files _ ss]
    by (cases reply) auto
  ultimately show ?thesis by (auto simp: verify_steps_def verify_step_def)
qed


lemma get_put_plan [simp]:
  "get_plan q (put_plan pid p e) = (if q = pid then Some p else get_plan q e)"
  by (simp add: get_plan_def put_plan_def)

definition plans_kept :: "planner \<Rightarrow> bool" where
  "plans_kept e \<longleftrightarrow> (\<forall>pid p. get_plan pid e = Some p \<longrightarrow> deps_kept (ep_steps p))"

lemma plans_kept_put: "plans_kept e \<Longrightarrow> deps_kept (ep_steps p) \<Longrightarrow> plans_kept (put_plan pid p e)"
  by (simp add: plans_kept_def)

lemma plans_keptD: "plans_kept e \<Longrightarrow> get_plan pid e = Some p \<Longrightarrow> deps_kept (ep_steps p)"
  by (simp add: plans_kept_def)

lemma run_plan_steps: "ep_steps (run_plan p) = snd (plan_loop [0 ..< length (ep_steps p)] (ep_steps p))"
  by (simp add: run_plan_def split: prod.split)

lemma create_plan_puts:
  "create_plan pl pid now task files reply e = Some (p, e') \<Longrightarrow> e' = put_plan pid p e"
  by (auto simp: create_plan_def Let_def)

lemma plan_do_kept:
  assumes e: "plans_kept e"
  shows "plans_kept (plan_do pl x e)"
proof (cases x)
  case (PlCreate pid now task files reply)
  show ?thesis
  proof (cases "create_plan pl pid now task files reply e")
    case None
    then show ?thesis using PlCreate e by simp
  next
    case (Some q)
    obtain p e' where q: "q = (p, e')" by (cases q)
    have c: "create_plan pl pid now task files reply e = Some (p, e')" using Some q by simp
    have "plans_kept (put_plan pid p e)"
      by (rule plans_kept_put [OF e pending_kept [OF created_pending [OF c]]])
    then show ?thesis using create_plan_puts [OF c] PlCreate c by simp
  qed
next
  case (PlApprove pid)
  then show ?thesis using e plans_keptD [OF e] plans_kept_put [OF e] set_steps_kept
    by (simp add: approve_plan_def split: option.split)
next
  case (PlReject pid reason)
  then show ?thesis using e plans_keptD [OF e] plans_kept_put [OF e] skip_open_kept
    by (simp add: reject_plan_def split: option.split)
next
  case (PlCancel pid)
  then show ?thesis using e plans_keptD [OF e] plans_kept_put [OF e] skip_open_kept
    by (simp add: cancel_plan_def split: option.split)
next
  case (PlStep pid sid)
  then show ?thesis using e plans_keptD [OF e] plans_kept_put [OF e] run_step_kept
    by (auto simp: execute_step_def split: option.split prod.split)
next
  case (PlExecute pid)
  then show ?thesis using e plans_keptD [OF e] plans_kept_put [OF e] plan_loop_kept
    by (auto simp: execute_plan_def run_plan_steps split: option.split)
qed

lemma plan_run_kept: "plans_kept e \<Longrightarrow> plans_kept (fold (plan_do pl) xs e)"
  by (induction xs arbitrary: e) (simp_all add: plan_do_kept)

text \<open>
  C12: Start an engine and run any sequence of operations on it: creations from a reply of the
  model, approvals, rejections, cancellations, single steps and whole runs. In every plan, a
  step that has completed has only settled dependencies: each of its dependencies that names
  a step of the plan names one that is completed or was skipped.\<close>

theorem dependencies_first:
  assumes "get_plan pid (fold (plan_do pl) xs (new_planner auto)) = Some p"
    and "s \<in> set (ep_steps p)" "ps_status s = ''completed''"
    and "d \<in> set (ps_deps s)" "step_named d (ep_steps p) = Some t"
  shows "ps_status t \<in> {''completed'', ''skipped''}"
proof -
  have "plans_kept (new_planner auto)" by (simp add: plans_kept_def get_plan_def new_planner_def)
  from plans_keptD [OF plan_run_kept [OF this] assms(1)] show ?thesis
    using assms(2-5) by (auto simp: settled_def dest!: deps_keptD)
qed

section \<open>Which plans complete\<close>

definition ready_at :: "plan_step list \<Rightarrow> nat \<Rightarrow> bool" where
  "ready_at ss i \<longleftrightarrow> (\<forall>d \<in> set (ps_deps (ss ! i)). \<forall>j < length ss. ps_id (ss ! j) = d \<longrightarrow> j < i)"

definition ran_to :: "nat \<Rightarrow> plan_step list \<Rightarrow> plan_step list" where
  "ran_to i ss = map completed_step (take i ss) @ drop i ss"

lemma ran_to_simps [simp]:
  "length (ran_to i ss) = length ss"
  "map ps_id (ran_to i ss) = map ps_id ss"
  "ran_to 0 ss = ss"
  by (simp_all add: ran_to_def comp_def) (metis append_take_drop_id map_append)

lemma ran_to_nth:
  "i \<le> length ss \<Longrightarrow> j < length ss \<Longrightarrow> ran_to i ss ! j = (if j < i then completed_step (ss ! j) else ss ! j)"
  by (simp add: ran_to_def nth_append)

lemma ran_to_Suc: "i < length ss \<Longrightarrow> (ran_to i ss)[i := completed_step (ss ! i)] = ran_to (Suc i) ss"
  by (rule nth_equalityI) (auto simp: ran_to_nth nth_list_update)

lemma ran_to_ids: "i < length ss \<Longrightarrow> ps_id (ran_to k ss ! i) = ps_id (ss ! i)"
  by (metis length_map nth_map ran_to_simps(1,2))

lemma run_step_None: "run_step sid ss = None \<longleftrightarrow> step_named sid ss = None"
  by (simp add: run_step_def Let_def split: option.split)

lemma step_named_nthD:
  "step_named d ss = Some t \<Longrightarrow> \<exists>j < length ss. ss ! j = t \<and> ps_id (ss ! j) = d"
  by (drule step_namedD) (auto simp: in_set_conv_nth)

text \<open>One turn of the loop when all steps were approved and the ones before it have run.\<close>

lemma turn_of_loop:
  assumes d: "distinct (map ps_id ss)" and ap: "\<forall>s \<in> set ss. ps_status s = ''approved''"
    and i: "i < length ss"
  shows "if ready_at ss i
    then run_step (ps_id (ss ! i)) (ran_to i ss) = Some (completed_step (ss ! i), ran_to (Suc i) ss)
    else \<exists>r. run_step (ps_id (ss ! i)) (ran_to i ss) = Some (r, (ran_to i ss)[i := r])
      \<and> ps_status r = ''failed''"
proof -
  let ?sid = "ps_id (ss ! i)" and ?xs = "ran_to i ss"
  have xi: "?xs ! i = ss ! i" using i by (simp add: ran_to_nth)
  have dx: "distinct (map ps_id ?xs)" using d by simp
  have idi: "ps_id (?xs ! i) = ?sid" by (simp add: xi)
  have named: "step_named ?sid ?xs = Some (ss ! i)"
    using step_named_nth [OF dx, of i] i by (simp add: xi)
  have upd: "change_step ?sid (\<lambda>_. v) ?xs = ?xs[i := v]" for v
    using change_step_nth [OF dx, of i v] i by (simp add: xi)
  have st: "ps_status (ss ! j) = ''approved''" if "j < length ss" for j using ap that by simp
  have blocked_iff: "(\<exists>d \<in> set (ps_deps (ss ! i)). d = ?sid
      \<or> (\<exists>t. step_named d ?xs = Some t \<and> \<not> settled (ps_status t))) \<longleftrightarrow> \<not> ready_at ss i"
  proof -
    have "(d = ?sid \<or> (\<exists>t. step_named d ?xs = Some t \<and> \<not> settled (ps_status t)))
        \<longleftrightarrow> (\<exists>j < length ss. ps_id (ss ! j) = d \<and> \<not> j < i)" (is "?l = ?r") for d
    proof
      assume ?l
      then show ?r
      proof
        assume "d = ?sid"
        then show ?r using i by blast
      next
        assume "\<exists>t. step_named d ?xs = Some t \<and> \<not> settled (ps_status t)"
        then obtain j where j: "j < length ss" "ps_id (?xs ! j) = d" "\<not> settled (ps_status (?xs ! j))"
          using step_named_nthD by fastforce
        then have "\<not> j < i" using i by (auto simp: ran_to_nth settled_def)
        then show ?r using j by (auto simp: ran_to_ids)
      qed
    next
      assume ?r
      then obtain j where j: "j < length ss" "ps_id (ss ! j) = d" "i \<le> j" by auto
      have "step_named d ?xs = Some (?xs ! j)"
        using step_named_nth [OF dx, of j] j by (simp add: ran_to_ids)
      moreover have "\<not> settled (ps_status (?xs ! j))" using j i st by (simp add: ran_to_nth settled_def)
      ultimately show ?l by blast
    qed
    then show ?thesis by (auto simp: ready_at_def)
  qed
  have "run_step ?sid ?xs \<noteq> None" unfolding run_step_None by (simp add: named)
  then obtain r ss' where run: "run_step ?sid ?xs = Some (r, ss')" by fast
  from run show ?thesis
  proof (cases rule: run_step_outcomes)
    case idle
    then show ?thesis using named st [OF i] by simp
  next
    case (blocked s)
    then have "s = ss ! i" using named by simp
    then have "\<not> ready_at ss i" using blocked(7) blocked_iff by simp
    then show ?thesis using run blocked by (simp add: upd)
  next
    case (runs s)
    have s: "s = ss ! i" using named runs(1) by simp
    then have "\<not> (\<exists>d \<in> set (ps_deps (ss ! i)). d = ?sid
        \<or> (\<exists>t. step_named d ?xs = Some t \<and> \<not> settled (ps_status t)))"
      using runs(6) by auto
    then have "ready_at ss i" unfolding blocked_iff by simp
    moreover have "ss' = ran_to (Suc i) ss"
      unfolding runs(5) upd runs(3) s by (rule ran_to_Suc [OF i])
    ultimately show ?thesis using run unfolding runs(3) s by simp
  qed
qed


lemma run_step_ids: "run_step sid ss = Some (r, ss') \<Longrightarrow> map ps_id ss' = map ps_id ss"
  by (erule run_step_outcomes) simp_all

lemma plan_loop_ids: "map ps_id (snd (plan_loop is ss)) = map ps_id ss"
proof (induction "is" ss rule: plan_loop.induct)
  case (2 i "is" ss)
  then show ?case
    by (auto simp: Let_def dest: run_step_ids split: option.split prod.split)
qed simp

lemma loop_from:
  assumes d: "distinct (map ps_id ss)" and ap: "\<forall>s \<in> set ss. ps_status s = ''approved''"
    and i: "i \<le> length ss" "\<forall>j < i. ready_at ss j"
  shows "\<exists>k. i \<le> k \<and> (\<forall>j < k. ready_at ss j)
    \<and> (k = length ss \<and> plan_loop [i ..< length ss] (ran_to i ss) = (True, ran_to k ss)
       \<or> k < length ss \<and> \<not> ready_at ss k \<and> (\<exists>r. ps_status r = ''failed''
          \<and> plan_loop [i ..< length ss] (ran_to i ss) = (False, (ran_to k ss)[k := r])))"
  using i
proof (induction "length ss - i" arbitrary: i)
  case 0
  then show ?case by (intro exI [of _ i]) simp
next
  case (Suc n)
  then have lt: "i < length ss" by simp
  have up: "[i ..< length ss] = i # [Suc i ..< length ss]" by (rule upt_conv_Cons [OF lt])
  have xi: "ran_to i ss ! i = ss ! i" "ps_status (ss ! i) = ''approved''"
    using lt ap by (simp_all add: ran_to_nth)
  note turn = turn_of_loop [OF d ap lt]
  show ?case
  proof (cases "ready_at ss i")
    case True
    then have run: "run_step (ps_id (ss ! i)) (ran_to i ss) = Some (completed_step (ss ! i), ran_to (Suc i) ss)"
      using turn by simp
    have step: "plan_loop [i ..< length ss] (ran_to i ss) = plan_loop [Suc i ..< length ss] (ran_to (Suc i) ss)"
      unfolding up plan_loop.simps Let_def xi run by (simp add: settled_def)
    have all: "\<forall>j < Suc i. ready_at ss j" using True Suc.prems(2) by (simp add: less_Suc_eq)
    have "n = length ss - Suc i" "Suc i \<le> length ss" using Suc.hyps(2) lt by simp_all
    from Suc.hyps(1) [OF this(1,2) all] obtain k where k: "Suc i \<le> k" "\<forall>j < k. ready_at ss j"
        "k = length ss \<and> plan_loop [Suc i ..< length ss] (ran_to (Suc i) ss) = (True, ran_to k ss)
         \<or> k < length ss \<and> \<not> ready_at ss k \<and> (\<exists>r. ps_status r = ''failed''
            \<and> plan_loop [Suc i ..< length ss] (ran_to (Suc i) ss) = (False, (ran_to k ss)[k := r]))"
      by blast
    show ?thesis unfolding step using k Suc_leD by blast
  next
    case False
    then obtain r where run: "run_step (ps_id (ss ! i)) (ran_to i ss) = Some (r, (ran_to i ss)[i := r])"
        "ps_status r = ''failed''"
      using turn by auto
    have "plan_loop [i ..< length ss] (ran_to i ss) = (False, (ran_to i ss)[i := r])"
      unfolding up plan_loop.simps Let_def xi run(1) by (simp add: settled_def run(2))
    then show ?thesis using False lt Suc.prems(2) run(2) by (intro exI [of _ i]) auto
  qed
qed

text \<open>
  C24: Execute an approved plan whose steps are all approved and have distinct identifiers. The
  run is decided by the order of the list: call a step ready when every dependency of it that
  names a step of the plan names an earlier one. The steps before the first one that is not
  ready complete, that one fails, and the later ones are left approved; the plan completes
  exactly when every step is ready, and otherwise stays in execution.\<close>

theorem execute_plan_exact:
  assumes "get_plan pid e = Some p" "ep_status p = ''approved''"
    and "distinct (map ps_id (ep_steps p))" "\<forall>s \<in> set (ep_steps p). ps_status s = ''approved''"
  shows "\<exists>p' k. fst (execute_plan pid e) = Inr p'
    \<and> get_plan pid (snd (execute_plan pid e)) = Some p'
    \<and> map ps_id (ep_steps p') = map ps_id (ep_steps p)
    \<and> (\<forall>i < k. ready_at (ep_steps p) i)
    \<and> (if k = length (ep_steps p) then ep_status p' = ''completed''
       else k < length (ep_steps p) \<and> \<not> ready_at (ep_steps p) k \<and> ep_status p' = ''executing'')
    \<and> (\<forall>i < length (ep_steps p). ps_status (ep_steps p' ! i)
         = (if i < k then ''completed'' else if i = k then ''failed'' else ''approved''))"
proof -
  let ?ss = "ep_steps p"
  have exec: "execute_plan pid e = (Inr (run_plan p), put_plan pid (run_plan p) e)"
    using assms by (simp add: execute_plan_def)
  obtain k where k: "\<forall>j < k. ready_at ?ss j"
      "k = length ?ss \<and> plan_loop [0 ..< length ?ss] ?ss = (True, ran_to k ?ss)
       \<or> k < length ?ss \<and> \<not> ready_at ?ss k \<and> (\<exists>r. ps_status r = ''failed''
          \<and> plan_loop [0 ..< length ?ss] ?ss = (False, (ran_to k ?ss)[k := r]))"
    using loop_from [OF assms(3,4), of 0] by auto
  show ?thesis
  proof (cases "k = length ?ss")
    case True
    then have "plan_loop [0 ..< length ?ss] ?ss = (True, ran_to k ?ss)" using k(2) by simp
    then have "run_plan p = p\<lparr>ep_steps := ran_to k ?ss, ep_status := ''completed''\<rparr>"
      using True by (auto simp: run_plan_def ran_to_def settled_def)
    then show ?thesis using exec True k(1)
      by (intro exI [of _ "run_plan p"] exI [of _ k]) (simp add: ran_to_nth)
  next
    case False
    then obtain r where r: "ps_status r = ''failed''" "k < length ?ss" "\<not> ready_at ?ss k"
        "plan_loop [0 ..< length ?ss] ?ss = (False, (ran_to k ?ss)[k := r])"
      using k(2) by auto
    have "ps_id r = ps_id (?ss ! k)"
    proof -
      have "map ps_id ((ran_to k ?ss)[k := r]) = map ps_id ?ss"
        using arg_cong [OF r(4), of snd] plan_loop_ids [of "[0 ..< length ?ss]" ?ss] by simp
      then have "map ps_id ((ran_to k ?ss)[k := r]) ! k = map ps_id ?ss ! k" by simp
      then show ?thesis using r(2) by simp
    qed
    then have "map ps_id ((ran_to k ?ss)[k := r]) = map ps_id ?ss"
      using r(2) by (simp add: map_update list_update_same_conv)
    moreover have "run_plan p = p\<lparr>ep_steps := (ran_to k ?ss)[k := r], ep_status := ''executing''\<rparr>"
      by (simp add: run_plan_def r(4))
    ultimately show ?thesis using exec False r k(1) assms(4)
      by (intro exI [of _ "run_plan p"] exI [of _ k]) (simp add: ran_to_nth nth_list_update)
  qed
qed

section \<open>Two steps of one identifier\<close>

text \<open>A position whose step is open and is hidden by an earlier step of the same identifier.\<close>

definition hidden_open :: "nat \<Rightarrow> plan_step list \<Rightarrow> bool" where
  "hidden_open j ss \<longleftrightarrow> j < length ss \<and> (\<exists>i < j. ps_id (ss ! i) = ps_id (ss ! j))
     \<and> ps_status (ss ! j) \<in> {''pending'', ''approved''}"


lemma change_step_other:
  "j < length ss \<Longrightarrow> ps_id (ss ! j) \<noteq> sid \<Longrightarrow> change_step sid f ss ! j = ss ! j"
proof (induction ss arbitrary: j)
  case (Cons s ss)
  then show ?case by (cases j) auto
qed simp

lemma hidden_same_ids:
  assumes "hidden_open j ss" "map ps_id ss' = map ps_id ss" "ss' ! j = ss ! j"
  shows "hidden_open j ss'"
proof -
  have len: "length ss' = length ss" using assms(2) by (metis length_map)
  then have "ps_id (ss' ! i) = ps_id (ss ! i)" if "i < length ss" for i
    using that assms(2) by (metis nth_map)
  then show ?thesis using assms len by (auto simp: hidden_open_def)
qed

lemma hidden_change:
  assumes "hidden_open j ss" "ps_id v = sid"
  shows "hidden_open j (change_step sid (\<lambda>_. v) ss)"
proof (rule hidden_same_ids [OF assms(1)])
  obtain i where i: "i < j" "j < length ss" "ps_id (ss ! i) = ps_id (ss ! j)"
    using assms(1) by (auto simp: hidden_open_def)
  show "change_step sid (\<lambda>_. v) ss ! j = ss ! j"
  proof (cases "ps_id (ss ! j) = sid")
    case True
    then show ?thesis using change_step_later [OF i(1,2)] i(3) by simp
  next
    case False
    then show ?thesis using change_step_other [OF i(2)] by simp
  qed
qed (use assms(2) in simp)

lemma hidden_run_step: "run_step sid ss = Some (r, ss') \<Longrightarrow> hidden_open j ss \<Longrightarrow> hidden_open j ss'"
proof (erule run_step_outcomes, goal_cases)
  case (2 s)
  then show ?case using hidden_change [of j ss r sid] by simp
next
  case (3 s)
  then show ?case using hidden_change [of j ss r sid] by simp
qed simp

lemma hidden_loop: "hidden_open j ss \<Longrightarrow> hidden_open j (snd (plan_loop is ss))"
proof (induction "is" ss rule: plan_loop.induct)
  case (2 i "is" ss)
  then show ?case by (auto simp: Let_def hidden_run_step split: option.split prod.split)
qed simp

lemma hidden_approve: "hidden_open j ss \<Longrightarrow> hidden_open j (set_steps (\<lambda>st. st = ''pending'') ''approved'' ss)"
  by (auto simp: hidden_open_def set_steps_def)

lemma hidden_not_all: "hidden_open j ss \<Longrightarrow> \<not> (\<forall>s \<in> set ss. settled (ps_status s))"
  by (auto simp: hidden_open_def settled_def intro!: bexI [of _ "ss ! j"])

definition never_completes :: "nat \<Rightarrow> execution_plan \<Rightarrow> bool" where
  "never_completes j p \<longleftrightarrow> ep_status p \<noteq> ''completed''
     \<and> (ep_status p = ''rejected'' \<or> hidden_open j (ep_steps p))"

lemma never_step:
  assumes p: "get_plan pid e = Some p" "never_completes j p"
    and x: "\<And>now task files reply. x \<noteq> PlCreate pid now task files reply"
  shows "\<exists>p'. get_plan pid (plan_do pl x e) = Some p' \<and> never_completes j p'"
proof (cases x)
  case (PlCreate q now task files reply)
  then have "q \<noteq> pid" using x by blast
  then show ?thesis using p PlCreate
    by (auto split: option.split prod.split dest!: create_plan_puts)
next
  case (PlApprove q)
  then show ?thesis using p hidden_approve
    by (auto simp: approve_plan_def never_completes_def split: option.split)
next
  case (PlReject q reason)
  then show ?thesis using p by (auto simp: reject_plan_def never_completes_def split: option.split)
next
  case (PlCancel q)
  then show ?thesis using p by (auto simp: cancel_plan_def never_completes_def split: option.split)
next
  case (PlStep q sid)
  then show ?thesis using p hidden_run_step
    by (auto simp: execute_step_def never_completes_def split: option.split prod.split)
next
  case (PlExecute q)
  have "never_completes j (run_plan p)" if "ep_status p \<in> {''approved'', ''executing''}"
  proof -
    have "hidden_open j (ep_steps p)" using p(2) that by (auto simp: never_completes_def)
    then have h: "hidden_open j (snd (plan_loop [0 ..< length (ep_steps p)] (ep_steps p)))"
      by (rule hidden_loop)
    then show ?thesis using hidden_not_all [OF h]
      by (auto simp: never_completes_def run_plan_def split: prod.split)
  qed
  then show ?thesis using PlExecute p by (auto simp: execute_plan_def split: option.split)
qed

text \<open>
  A plan in which an open step has the same identifier as an earlier step never completes:
  whatever is done with the engine afterwards, short of creating another plan under the same
  plan identifier. Every lookup by identifier finds the earlier step, so the later one is
  never run, and it keeps the plan from being counted as complete.\<close>

theorem duplicate_step_ids_never_complete:
  assumes "get_plan pid e = Some p" "ep_status p \<noteq> ''completed''"
    and "i < j" "j < length (ep_steps p)" "ps_id (ep_steps p ! i) = ps_id (ep_steps p ! j)"
    and "ps_status (ep_steps p ! j) \<in> {''pending'', ''approved''}"
    and "\<forall>x \<in> set xs. \<forall>now task files reply. x \<noteq> PlCreate pid now task files reply"
  shows "\<exists>p'. get_plan pid (fold (plan_do pl) xs e) = Some p' \<and> ep_status p' \<noteq> ''completed''"
proof -
  have "never_completes j p"
    using assms(2-6) by (auto simp: never_completes_def hidden_open_def)
  with assms(1,7) have "\<exists>p'. get_plan pid (fold (plan_do pl) xs e) = Some p' \<and> never_completes j p'"
  proof (induction xs arbitrary: e p)
    case (Cons x xs)
    then obtain p' where "get_plan pid (plan_do pl x e) = Some p'" "never_completes j p'"
      using never_step [of pid e p j x pl] by auto
    then show ?case using Cons by simp
  qed auto
  then show ?thesis by (auto simp: never_completes_def)
qed


section \<open>Concrete plans\<close>

definition plan_demo_lib :: pylib where
  "plan_demo_lib = \<lparr>pl_repr = (\<lambda>_. ''''), pl_float = (\<lambda>_. None), pl_loads = (\<lambda>_. None)\<rparr>"

definition demo_plan_ops :: "plan_op list" where
  "demo_plan_ops = [PlCreate ''p'' 0 ''fix'' [''a.py''] None, PlApprove ''p'', PlExecute ''p'']"

definition demo_planner :: planner where
  "demo_planner = fold (plan_do plan_demo_lib) demo_plan_ops (new_planner True)"

definition demo_step :: "str \<Rightarrow> str list \<Rightarrow> plan_step" where
  "demo_step sid deps = \<lparr>ps_id = sid, ps_description = ''d'', ps_files = [], ps_action = ''create'',
     ps_complexity = ''low'', ps_deps = deps, ps_status = ''approved'', ps_diff = '''',
     ps_result = '''', ps_meta = []\<rparr>"

definition engine_with :: "plan_step list \<Rightarrow> planner" where
  "engine_with ss = put_plan ''p'' \<lparr>ep_id = ''p'', ep_task = ''t'', ep_steps = ss, ep_created = 0,
     ep_status = ''approved'', ep_risk = ''low'', ep_meta = []\<rparr> (new_planner False)"

lemma demo_planner_steps:
  "map (\<lambda>p. (ep_status p, map (\<lambda>s. (ps_id s, ps_deps s, ps_status s, ps_result s)) (ep_steps p)))
     (map snd (pn_plans demo_planner))
   = [(''completed'',
      [(''step_1'', [], ''completed'', ''Step '' @ [CHR 0x27] @ ''Implement: fix'' @ [CHR 0x27] @ '' executed successfully''),
       (''verify_step_1'', [''step_1''], ''completed'', ''Unknown action: verify'')])]"
  by code_simp

theorem dependencies_first_witness:
  "ps_status (ep_steps (the (get_plan ''p'' demo_planner)) ! 0) \<in> {''completed'', ''skipped''}"
proof (rule dependencies_first [of "''p''" plan_demo_lib demo_plan_ops True
      "the (get_plan ''p'' demo_planner)" "ep_steps (the (get_plan ''p'' demo_planner)) ! 1" "''step_1''"])
  show "get_plan ''p'' (fold (plan_do plan_demo_lib) demo_plan_ops (new_planner True))
      = Some (the (get_plan ''p'' demo_planner))"
    unfolding demo_planner_def [symmetric] by code_simp
  show "ep_steps (the (get_plan ''p'' demo_planner)) ! 1 \<in> set (ep_steps (the (get_plan ''p'' demo_planner)))"
    by (rule nth_mem) code_simp
qed code_simp+

theorem execute_plan_exact_witness:
  "\<exists>p' (k :: nat). fst (execute_plan ''p'' (engine_with [demo_step ''a'' [], demo_step ''b'' [''c''], demo_step ''c'' []]))
     = Inr p' \<and> ps_status (ep_steps p' ! 0) = (if 0 < k then ''completed'' else if 0 = k then ''failed'' else ''approved'')"
proof -
  let ?ss = "[demo_step ''a'' [], demo_step ''b'' [''c''], demo_step ''c'' []]"
  let ?p = "\<lparr>ep_id = ''p'', ep_task = ''t'', ep_steps = ?ss, ep_created = 0,
     ep_status = ''approved'', ep_risk = ''low'', ep_meta = []\<rparr>"
  have "get_plan ''p'' (engine_with ?ss) = Some ?p" by (simp add: engine_with_def)
  moreover have "ep_status ?p = ''approved''" by simp
  moreover have "distinct (map ps_id (ep_steps ?p))" by (simp add: demo_step_def)
  moreover have "\<forall>s \<in> set (ep_steps ?p). ps_status s = ''approved''" by (simp add: demo_step_def)
  ultimately have "\<exists>p' k. fst (execute_plan ''p'' (engine_with ?ss)) = Inr p'
      \<and> (\<forall>i < length (ep_steps ?p). ps_status (ep_steps p' ! i)
           = (if i < k then ''completed'' else if i = k then ''failed'' else ''approved''))"
    using execute_plan_exact [of "''p''" "engine_with ?ss" ?p] by blast
  then obtain p' k where r: "fst (execute_plan ''p'' (engine_with ?ss)) = Inr p'"
      "\<forall>i < length (ep_steps ?p). ps_status (ep_steps p' ! i)
           = (if i < k then ''completed'' else if i = k then ''failed'' else ''approved'')"
    by blast
  have "0 < length (ep_steps ?p)" by simp
  with r(2) have "ps_status (ep_steps p' ! 0)
      = (if 0 < k then ''completed'' else if 0 = k then ''failed'' else ''approved'')"
    by blast
  with r(1) show ?thesis by blast
qed

theorem duplicate_step_ids_witness:
  "\<exists>p'. get_plan ''p'' (fold (plan_do plan_demo_lib) [PlExecute ''p'', PlStep ''p'' ''a'', PlExecute ''p'']
      (engine_with [demo_step ''a'' [], demo_step ''a'' []])) = Some p' \<and> ep_status p' \<noteq> ''completed''"
  by (rule duplicate_step_ids_never_complete [where i = 0 and j = 1 and
      p = "\<lparr>ep_id = ''p'', ep_task = ''t'', ep_steps = [demo_step ''a'' [], demo_step ''a'' []],
        ep_created = 0, ep_status = ''approved'', ep_risk = ''low'', ep_meta = []\<rparr>"])
     (simp_all add: engine_with_def demo_step_def)

end
