(* ===== verification/TaskExecutor.thy ===== *)
theory TaskExecutor
  imports TaskOps PyValues
begin

text \<open>
  The worker of \<open>agent_runtime/task_executor.py\<close> that runs the task board: the poll of the
  queue, the dispatch of a claimed task to an agent or to a graph, the wait for a terminal
  status, and the bookkeeping at the end (event, retry). The RPC handlers that the worker
  calls, the index of agents and the prompts of agents belong to other parts and are
  arguments; so are the clock and what other parts do to the store while the worker waits.
  The routines of the store do not raise in the model, so the outermost exception handler of
  \<open>_run_one\<close> has nothing to catch; the asyncio tasks and the semaphore are left out.
\<close>

section \<open>Configuration\<close>

definition executor_owner :: str where
  "executor_owner = ''task-executor''"

definition terminal_statuses :: "str list" where
  "terminal_statuses = [''completed'', ''failed'', ''canceled'']"

definition empty_poll_sleep :: pyfloat where
  "empty_poll_sleep = 1 / 2"

definition max_poll_sleep :: pyfloat where
  "max_poll_sleep = 5"

definition terminal_wait_cap :: pyfloat where
  "terminal_wait_cap = 4 * 3600"

definition executor_enabled :: "str \<Rightarrow> bool" where
  "executor_enabled raw \<longleftrightarrow> py_lower raw \<notin> {''1'', ''true'', ''yes''}"

definition executor_concurrency :: "str \<Rightarrow> int" where
  "executor_concurrency raw =
     (case py_int (py_strip raw) of None \<Rightarrow> 4 | Some n \<Rightarrow> max 1 (min 32 n))"

section \<open>What the worker uses\<close>

text \<open>The outcome of a handler: its reply, or the text of the exception that it raised.\<close>

datatype rpc_outcome = RpcReply json | RpcRaised str

record exec_env =
  xe_rpc :: "str \<Rightarrow> (jobj \<Rightarrow> task_store \<Rightarrow> rpc_outcome \<times> task_store) option"
  xe_agents :: "(str, jobj) dict"
  xe_prompt :: "str \<Rightarrow> str"
  xe_exn_text :: "py_exn \<Rightarrow> str"
  xe_lib :: pylib

text \<open>
  The surroundings of a wait: the clock at the i-th check, whether the worker is being
  stopped then, and what happens to the store between that check and the next.
\<close>

record wait_env =
  we_clock :: "nat \<Rightarrow> pyfloat"
  we_stopping :: "nat \<Rightarrow> bool"
  we_world :: "nat \<Rightarrow> task_store \<Rightarrow> task_store"

record executor =
  ex_store :: task_store
  ex_events :: "(str \<times> jobj \<times> str) list"
  ex_running :: bool
  ex_stopping :: bool

definition executor_start :: "pyfloat \<Rightarrow> executor \<Rightarrow> executor" where
  "executor_start now x =
     (if ex_running x then x
      else x\<lparr>ex_store := snd (reset_orphans now executor_owner (ex_store x)), ex_running := True\<rparr>)"

definition executor_stop :: "executor \<Rightarrow> executor" where
  "executor_stop x = x\<lparr>ex_stopping := True, ex_running := False\<rparr>"

section \<open>Picking up\<close>

definition pickup :: "pyfloat \<Rightarrow> str \<Rightarrow> task_store \<Rightarrow> task option \<times> task_store" where
  "pickup now token s =
     (if 0 < count_by_status ''pending'' s then dequeue now token ''*'' executor_owner s
      else (None, s))"

definition next_sleep :: "task option \<Rightarrow> pyfloat \<Rightarrow> pyfloat" where
  "next_sleep found sleep =
     (case found of None \<Rightarrow> min (sleep * 2) max_poll_sleep | Some _ \<Rightarrow> empty_poll_sleep)"

section \<open>Dispatch\<close>

definition broadcast :: "str \<Rightarrow> jobj \<Rightarrow> str \<Rightarrow> executor \<Rightarrow> executor" where
  "broadcast name payload team x = x\<lparr>ex_events := ex_events x @
     [(name, payload, if team = [] then ''default'' else team)]\<rparr>"

definition task_payload :: "str \<Rightarrow> str \<Rightarrow> task \<Rightarrow> jobj" where
  "task_payload tid status t =
     [(''task_id'', JStr tid), (''status'', JStr status), (''agent_id'', JStr (t_agent t)),
      (''graph_id'', JStr (t_graph t)), (''team'', JStr (t_team t))]"

definition fail_task :: "pyfloat \<Rightarrow> str \<Rightarrow> str \<Rightarrow> task_store \<Rightarrow> task_store" where
  "fail_task now tid err s = snd (update_status now tid ''failed'' None err None s)"

definition rpc_call ::
    "exec_env \<Rightarrow> str \<Rightarrow> jobj \<Rightarrow> task_store \<Rightarrow> rpc_outcome \<times> task_store" where
  "rpc_call env method params s =
     (case xe_rpc env method of
        None \<Rightarrow> (RpcReply (JObj [(''status'', JStr ''error''),
                  (''message'', JStr (''RPC method not found: '' @ method))]), s)
      | Some h \<Rightarrow> h params s)"

text \<open>
  The message of an error reply. The agent path stores a message that is not a text as it
  is; here it is its \<open>str()\<close> on both paths.
\<close>

definition error_reply :: "pylib \<Rightarrow> str \<Rightarrow> json \<Rightarrow> str option" where
  "error_reply pl otherwise v =
     (case v of
        JObj d \<Rightarrow> if jget d ''status'' JNull = JStr ''error''
          then Some (py_str pl (jget d ''message'' (JStr otherwise))) else None
      | _ \<Rightarrow> None)"

text \<open>A dispatch ends with the text of an exception, if one left it, and the store.\<close>

definition after_rpc ::
    "pylib \<Rightarrow> pyfloat \<Rightarrow> str \<Rightarrow> str \<Rightarrow> rpc_outcome \<times> task_store \<Rightarrow> str option \<times> task_store" where
  "after_rpc pl now tid otherwise r =
     (case fst r of
        RpcRaised e \<Rightarrow> (Some e, snd r)
      | RpcReply v \<Rightarrow> (None, case error_reply pl otherwise v of
          None \<Rightarrow> snd r | Some m \<Rightarrow> fail_task now tid m (snd r)))"

definition missing_agent :: str where
  "missing_agent = ''__missing_agent__''"

fun py_list :: "json \<Rightarrow> py_exn + json list" where
  "py_list (JList vs) = Inr vs"
| "py_list (JStr s) = Inr (map (\<lambda>c. JStr [c]) s)"
| "py_list (JObj d) = Inr (map (\<lambda>p. JStr (fst p)) d)"
| "py_list _ = Inl TypeError"

definition spec_for_agent :: "exec_env \<Rightarrow> str \<Rightarrow> py_exn + jobj" where
  "spec_for_agent env aid =
     (case map_of (xe_agents env) aid of
        None \<Rightarrow> Inr [(''name'', JStr aid), (''system_prompt'', JStr missing_agent)]
      | Some meta \<Rightarrow>
         (let mv = jget meta ''model'' (JStr '''');
              model = (if truthy mv then py_str (xe_lib env) mv else []);
              tv = jget meta ''tools'' JNull; nv = jget meta ''max_iterations'' (JInt 0)
          in bindE (if truthy tv then py_list tv else Inr [])
               (\<lambda>tools. bindE (if truthy nv then py_to_int nv else Inr 0)
                 (\<lambda>turns. Inr ([(''name'', JStr aid)]
                    @ (if model = [] then [] else [(''model'', JStr model)])
                    @ (if truthy tv then [(''tools'', JList tools)] else [])
                    @ (if 0 < turns then [(''max_turns'', JInt turns)] else [])
                    @ (if xe_prompt env aid = [] then []
                       else [(''system_prompt'', JStr (xe_prompt env aid))]))))))"

definition goal_of :: "task \<Rightarrow> str" where
  "goal_of t = (if t_input t \<noteq> [] then t_input t
     else if t_description t \<noteq> [] then t_description t else t_title t)"

definition execute_agent ::
    "exec_env \<Rightarrow> pyfloat \<Rightarrow> task \<Rightarrow> task_store \<Rightarrow> str option \<times> task_store" where
  "execute_agent env now t s =
     (case spec_for_agent env (t_agent t) of
        Inl x \<Rightarrow> (Some (xe_exn_text env x), s)
      | Inr spec \<Rightarrow>
          if jget spec ''system_prompt'' JNull = JStr missing_agent
          then (None, fail_task now (t_id t) (''agent not found: '' @ t_agent t) s)
          else after_rpc (xe_lib env) now (t_id t) ''dispatch failed''
            (rpc_call env ''subagent.run_task''
              [(''task_id'', JStr (t_id t)), (''spec'', JObj spec), (''goal'', JStr (goal_of t)),
               (''agent_id'', JStr (t_agent t))] s))"

definition graph_variables :: "pylib \<Rightarrow> str \<Rightarrow> jobj" where
  "graph_variables pl raw =
     (if raw = [] then []
      else case pl_loads pl raw of
             None \<Rightarrow> [(''input'', JStr raw)]
           | Some (JObj d) \<Rightarrow> d
           | Some _ \<Rightarrow> [])"

definition execute_task_graph ::
    "exec_env \<Rightarrow> pyfloat \<Rightarrow> task \<Rightarrow> task_store \<Rightarrow> str option \<times> task_store" where
  "execute_task_graph env now t s =
     after_rpc (xe_lib env) now (t_id t) ''''
       (rpc_call env ''graph.execute_async''
         [(''graph_id'', JStr (t_graph t)), (''input'', JStr (t_input t)),
          (''task_id'', JStr (t_id t)),
          (''variables'', JObj (graph_variables (xe_lib env) (t_input t)))] s)"

definition dispatch_failed ::
    "pyfloat \<Rightarrow> str \<Rightarrow> str option \<times> task_store \<Rightarrow> task_store" where
  "dispatch_failed now tid r =
     (case fst r of None \<Rightarrow> snd r | Some e \<Rightarrow> fail_task now tid (''dispatch failed: '' @ e) (snd r))"

definition dispatch :: "exec_env \<Rightarrow> pyfloat \<Rightarrow> str \<Rightarrow> task \<Rightarrow> task_store \<Rightarrow> task_store" where
  "dispatch env now tid t s =
     (if t_agent t \<noteq> [] \<and> t_graph t = [] then dispatch_failed now tid (execute_agent env now t s)
      else if t_graph t \<noteq> [] then dispatch_failed now tid (execute_task_graph env now t s)
      else fail_task now tid ''task has neither agent_id nor graph_id'' s)"

section \<open>Waiting and finishing\<close>

text \<open>The wait for a terminal status; None when the fuel runs out before it returns.\<close>

fun await_terminal ::
    "nat \<Rightarrow> wait_env \<Rightarrow> pyfloat \<Rightarrow> str \<Rightarrow> nat \<Rightarrow> task_store \<Rightarrow> task_store option" where
  "await_terminal 0 w deadline tid i s = None"
| "await_terminal (Suc f) w deadline tid i s =
     (if we_clock w i < deadline \<and> \<not> we_stopping w i then
        (case get_task tid s of
           (None, s1) \<Rightarrow> Some s1
         | (Some t, s1) \<Rightarrow>
             if t_status t \<in> set terminal_statuses then Some s1
             else await_terminal f w deadline tid (i + 1) (we_world w i s1))
      else Some s)"

definition final_event_name :: "str \<Rightarrow> str" where
  "final_event_name status =
     (if status = ''completed'' then ''task.completed''
      else if status = ''failed'' then ''task.failed'' else ''task.canceled'')"

definition retry_due :: "task \<Rightarrow> bool" where
  "retry_due t \<longleftrightarrow> t_status t = ''failed'' \<and> t_retry_count t < t_max_retries t
     \<and> t_token t \<noteq> [] \<and> t_owner t = executor_owner"

definition retry_reason :: "task \<Rightarrow> str" where
  "retry_reason t = ''retry '' @ str_of_int (t_retry_count t + 1) @ ''/'' @ str_of_int (t_max_retries t)"

definition finalize :: "pyfloat \<Rightarrow> str \<Rightarrow> executor \<Rightarrow> executor" where
  "finalize now tid x =
     (case get_task tid (ex_store x) of
        (None, s1) \<Rightarrow> x\<lparr>ex_store := s1\<rparr>
      | (Some t, s1) \<Rightarrow>
          let x1 = broadcast (final_event_name (t_status t)) (task_payload tid (t_status t) t)
                     (t_team t) (x\<lparr>ex_store := s1\<rparr>)
          in if retry_due t
             then x1\<lparr>ex_store := snd (requeue now tid executor_owner (retry_reason t) s1)\<rparr>
             else x1)"

definition run_one ::
    "nat \<Rightarrow> exec_env \<Rightarrow> wait_env \<Rightarrow> pyfloat \<Rightarrow> str \<Rightarrow> executor \<Rightarrow> executor option" where
  "run_one fuel env w now tid x =
     (case get_task tid (ex_store x) of
        (None, s1) \<Rightarrow> Some (x\<lparr>ex_store := s1\<rparr>)
      | (Some t, s1) \<Rightarrow>
          if t_status t \<noteq> ''running'' then Some (x\<lparr>ex_store := s1\<rparr>)
          else let x1 = broadcast ''task.updated'' (task_payload tid ''running'' t) (t_team t)
                          (x\<lparr>ex_store := s1\<rparr>)
               in map_option (\<lambda>s2. finalize now tid (x1\<lparr>ex_store := s2\<rparr>))
                    (await_terminal fuel w (we_clock w 0 + terminal_wait_cap) tid 0
                       (dispatch env now tid t s1)))"

text \<open>
  One turn of the loop: the task that was picked up is run before the next poll. The worker
  itself lets up to \<open>executor_concurrency\<close> runs overlap; what overlapping runs do to the
  store is part of the surroundings.
\<close>

definition executor_turn ::
    "nat \<Rightarrow> exec_env \<Rightarrow> wait_env \<Rightarrow> pyfloat \<Rightarrow> str \<Rightarrow> executor \<Rightarrow> executor option" where
  "executor_turn fuel env w now token x =
     (case pickup now token (ex_store x) of
        (None, s1) \<Rightarrow> Some (x\<lparr>ex_store := s1\<rparr>)
      | (Some t, s1) \<Rightarrow> run_one fuel env w now (t_id t) (x\<lparr>ex_store := s1\<rparr>))"

end
