(* ===== verification/TaskExecutorProps.thy ===== *)
theory TaskExecutorProps
  imports TaskExecutor TaskProps
begin

text \<open>
  What the task executor guarantees on top of the task store: its poll is a dequeue, its wait
  ends, a run keeps what the handlers it calls keep, a task that cannot be dispatched is
  recorded and retried within its budget, and a task that was run once is not handed out
  again after \<open>rerun\<close>.
\<close>

section \<open>Picking up\<close>

text \<open>
  The count of pending tasks that the worker reads before it claims changes nothing: on a
  store that loads tasks on demand, a poll has the same result and the same effect as a
  dequeue for every team.\<close>

theorem pickup_is_dequeue:
  assumes "ts_lazy s" "ts_conn s = Some db"
  shows "pickup now token s = dequeue now token ''*'' executor_owner s"
proof (cases "0 < count_by_status ''pending'' s")
  case True
  then show ?thesis by (simp add: pickup_def)
next
  case False
  then have "\<forall>p \<in> set (td_rows db). t_status (snd p) \<noteq> ''pending''"
    using assms by (auto simp: count_by_status_def db_mode_def count_vals_def filter_empty_conv)
  then have "filter (\<lambda>(k, r). claimable ''*'' r) (td_rows db) = []"
    by (auto simp: filter_empty_conv claimable_def)
  then have "next_claim ''*'' (td_rows db) = None"
    by (simp add: next_claim_def)
  then have "dequeue now token ''*'' executor_owner s = (None, s)"
    using assms by (simp add: dequeue_def executor_owner_def)
  then show ?thesis using False by (simp add: pickup_def)
qed

section \<open>The wait ends\<close>

lemma await_fuel:
  assumes "\<And>i. we_clock w i + 1 \<le> we_clock w (i + 1)"
    and "deadline \<le> we_clock w i + of_nat n"
  shows "await_terminal (Suc n) w deadline tid i s \<noteq> None"
  using assms(2)
proof (induction n arbitrary: i s)
  case 0
  then show ?case by (auto split: option.split prod.split)
next
  case (Suc n)
  have "deadline \<le> we_clock w (i + 1) + of_nat n"
    using Suc.prems assms(1) [of i] by simp
  note IH = Suc.IH [OF this]
  show ?case
    by (subst await_terminal.simps) (use IH in \<open>auto split: option.split prod.split\<close>)
qed

text \<open>
  The wait for a terminal status ends. The worker sleeps a second between two checks, so with
  a clock that advances by at least one second per check, 14401 checks are enough for the cap
  of four hours, whatever the other parts do to the store meanwhile.\<close>

theorem wait_ends:
  assumes "\<And>i. we_clock w i + 1 \<le> we_clock w (i + 1)"
  shows "\<exists>x'. run_one 14401 env w now tid x = Some x'"
proof -
  have "await_terminal (Suc 14400) w (we_clock w 0 + terminal_wait_cap) tid 0 s \<noteq> None" for s
    by (rule await_fuel [OF assms]) (simp add: terminal_wait_cap_def)
  then show ?thesis by (auto simp: run_one_def Let_def split: option.split prod.split)
qed

section \<open>What a run keeps\<close>

text \<open>
  The contract between a run and the handlers and neighbours it shares the store with:
  \<open>I\<close> is kept by a lookup, by recording a failure, by the handlers, by whatever happens
  during the wait, and by requeuing a task whose retry is due.
\<close>

locale task_services =
  fixes I :: "task_store \<Rightarrow> bool"
    and env :: exec_env
    and w :: wait_env
  assumes get_keeps: "I s \<Longrightarrow> I (snd (get_task tid s))"
    and fail_keeps: "I s \<Longrightarrow> I (fail_task now tid err s)"
    and rpc_keeps: "I s \<Longrightarrow> xe_rpc env m = Some h \<Longrightarrow> I (snd (h p s))"
    and world_keeps: "I s \<Longrightarrow> I (we_world w i s)"
    and requeue_keeps: "I s \<Longrightarrow> get_task tid s = (Some t, s1) \<Longrightarrow> retry_due t \<Longrightarrow>
      I (snd (requeue now tid actor reason s1))"
begin

lemma rpc_call_keeps: "I s \<Longrightarrow> I (snd (rpc_call env m p s))"
  by (simp add: rpc_call_def rpc_keeps split: option.split)

lemma after_rpc_keeps: "I (snd r) \<Longrightarrow> I (snd (after_rpc pl now tid msg r))"
  by (simp add: after_rpc_def fail_keeps split: rpc_outcome.split option.split)

lemma dispatch_failed_keeps: "I (snd r) \<Longrightarrow> I (dispatch_failed now tid r)"
  by (simp add: dispatch_failed_def fail_keeps split: option.split)

lemma execute_agent_keeps: "I s \<Longrightarrow> I (snd (execute_agent env now t s))"
  by (simp add: execute_agent_def fail_keeps after_rpc_keeps rpc_call_keeps split: sum.split)

lemma execute_graph_keeps: "I s \<Longrightarrow> I (snd (execute_task_graph env now t s))"
  by (simp add: execute_task_graph_def after_rpc_keeps rpc_call_keeps)

lemma dispatch_keeps: "I s \<Longrightarrow> I (dispatch env now tid t s)"
  by (simp add: dispatch_def fail_keeps dispatch_failed_keeps execute_agent_keeps execute_graph_keeps)

lemma await_keeps: "await_terminal f w dl tid i s = Some s' \<Longrightarrow> I s \<Longrightarrow> I s'"
proof (induction f arbitrary: i s)
  case (Suc f)
  show ?case
  proof (cases "we_clock w i < dl \<and> \<not> we_stopping w i")
    case True
    obtain r s1 where g: "get_task tid s = (r, s1)" by fastforce
    have s1: "I s1" using get_keeps [OF Suc.prems(2), of tid] g by simp
    show ?thesis
      using Suc.prems(1) True g s1 Suc.IH [OF _ world_keeps [OF s1]]
      by (auto split: option.splits if_splits)
  qed (use Suc.prems in auto)
qed simp

lemma finalize_keeps: "I (ex_store x) \<Longrightarrow> I (ex_store (finalize now tid x))"
proof -
  assume x: "I (ex_store x)"
  obtain r s1 where g: "get_task tid (ex_store x) = (r, s1)" by fastforce
  have "I s1" using get_keeps [OF x, of tid] g by simp
  then show ?thesis
    using g requeue_keeps [OF x] by (cases r) (auto simp: finalize_def Let_def broadcast_def)
qed

lemma run_one_keeps: "run_one f env w now tid x = Some x' \<Longrightarrow> I (ex_store x) \<Longrightarrow> I (ex_store x')"
proof -
  assume run: "run_one f env w now tid x = Some x'" and x: "I (ex_store x)"
  obtain r s1 where g: "get_task tid (ex_store x) = (r, s1)" by fastforce
  have s1: "I s1" using get_keeps [OF x, of tid] g by simp
  show ?thesis
  proof (cases "\<exists>t. r = Some t \<and> t_status t = ''running''")
    case False
    then show ?thesis using run g s1 by (cases r) (auto simp: run_one_def)
  next
    case True
    then obtain t s2 y where "await_terminal f w (we_clock w 0 + terminal_wait_cap) tid 0
          (dispatch env now tid t s1) = Some s2" "x' = finalize now tid y" "ex_store y = s2"
      using run g by (auto simp: run_one_def Let_def)
    then show ?thesis using finalize_keeps await_keeps dispatch_keeps [OF s1] by metis
  qed
qed

end


text \<open>Handlers and neighbours that use the store through its operations.\<close>

definition ops_env ::
    "(str \<Rightarrow> jobj \<Rightarrow> task_store \<Rightarrow> rpc_outcome \<times> task_op list) \<Rightarrow> (str, jobj) dict
      \<Rightarrow> (str \<Rightarrow> str) \<Rightarrow> (py_exn \<Rightarrow> str) \<Rightarrow> pylib \<Rightarrow> exec_env" where
  "ops_env f agents prompt text_of pl =
     \<lparr>xe_rpc = (\<lambda>m. Some (\<lambda>p s. (fst (f m p s), fold run_op (snd (f m p s)) s))),
      xe_agents = agents, xe_prompt = prompt, xe_exn_text = text_of, xe_lib = pl\<rparr>"

definition ops_world :: "(nat \<Rightarrow> pyfloat) \<Rightarrow> (nat \<Rightarrow> bool) \<Rightarrow> (nat \<Rightarrow> task_op list) \<Rightarrow> wait_env" where
  "ops_world clk stops ops = \<lparr>we_clock = clk, we_stopping = stops, we_world = (\<lambda>i. fold run_op (ops i))\<rparr>"

interpretation board_run: task_services store_ok
  "ops_env f agents prompt text_of pl" "ops_world clk stops ops"
proof unfold_locales
  show "store_ok s \<Longrightarrow> store_ok (snd (get_task tid s))" for s tid by (rule snd_get_ok)
  show "store_ok s \<Longrightarrow> store_ok (fail_task now tid err s)" for s now tid err
    unfolding fail_task_def by (rule update_status_ok)
  show "store_ok s \<Longrightarrow> xe_rpc (ops_env f agents prompt text_of pl) m = Some h \<Longrightarrow> store_ok (snd (h p s))"
    for s m h p by (auto simp: ops_env_def run_ops_ok)
  show "store_ok s \<Longrightarrow> store_ok (we_world (ops_world clk stops ops) i s)" for s i
    by (simp add: ops_world_def run_ops_ok)
  show "store_ok s \<Longrightarrow> get_task tid s = (Some t, s1) \<Longrightarrow> retry_due t \<Longrightarrow>
      store_ok (snd (requeue now tid actor reason s1))" for s tid t s1 now actor reason
    by (intro modify_ops_ok(6)) (metis get_task_spec(1))
qed

lemma pickup_ok: "store_ok s \<Longrightarrow> store_ok (snd (pickup now token s))"
  by (simp add: pickup_def dequeue_ok)

text \<open>
  A turn of the executor keeps the task store well formed, with its cache in step with the
  table, when the handlers that it calls and whoever else uses the store meanwhile act
  through the operations of the store.\<close>

theorem executor_keeps_store:
  assumes "store_ok (ex_store x)"
    and "executor_turn fuel (ops_env f agents prompt text_of pl) (ops_world clk stops ops) now token x
      = Some x'"
  shows "store_ok (ex_store x')"
proof -
  obtain r s1 where p: "pickup now token (ex_store x) = (r, s1)" by fastforce
  have s1: "store_ok (ex_store (x\<lparr>ex_store := s1\<rparr>))"
    using pickup_ok [OF assms(1), of now token] p by simp
  show ?thesis
    using assms(2) p s1 board_run.run_one_keeps [OF _ s1]
    by (cases r) (auto simp: executor_turn_def)
qed

section \<open>Changes of one row\<close>

lemma modify_row:
  assumes ok: "store_ok s" and db: "ts_conn s = Some db" and g: "get_task tid s = (Some t, s1)"
    and f: "t_id (f t) = t_id t" "t_idem_key (f t) = t_idem_key t" "t_status (f t) \<in> set valid_statuses"
  shows "\<exists>db'. ts_conn (snd (modify_task tid f s)) = Some db'
      \<and> map_of (td_rows db') = (map_of (td_rows db))(tid \<mapsto> to_row (f t))"
    and "map_of (ts_cache (snd (modify_task tid f s))) tid = Some (f t)"
    and "fst (modify_task tid f s) = Some (f t)"
proof -
  note spec = get_task_spec [OF ok g]
  have t: "task_ok tid t" using spec(5) by simp
  have ft: "task_ok tid (f t)" using t f by (simp add: task_ok_def)
  have c: "map_of (ts_cache s1) tid = Some t" using spec(4) by simp
  have db1: "ts_conn s1 = Some db" using spec(2) db by simp
  have fits: "row_fits (td_rows db) tid (f t)" by (rule cached_fits [OF spec(1) c ft f(2) db1])
  have m: "modify_task tid f s = (Some (f t), store_task tid (f t) s1)" by (simp add: modify_task_def g)
  have id: "t_id (f t) = tid" using ft by (simp add: task_ok_def)
  have "map_of (put_row tid (to_row (f t)) (td_rows db)) = (map_of (td_rows db))(tid \<mapsto> to_row (f t))"
    by (rule map_of_put_row [OF store_okD(2) [OF ok db]]) (simp add: fits)
  then show "\<exists>db'. ts_conn (snd (modify_task tid f s)) = Some db'
      \<and> map_of (td_rows db') = (map_of (td_rows db))(tid \<mapsto> to_row (f t))"
    by (simp add: m store_task_conn db1 id)
  show "map_of (ts_cache (snd (modify_task tid f s))) tid = Some (f t)"
    by (simp add: m store_task_def save_task_def split: option.split)
  show "fst (modify_task tid f s) = Some (f t)" by (simp add: m)
qed

lemma append_history_rows:
  "ts_conn s = Some db \<Longrightarrow> \<exists>db'. ts_conn (append_history now tid a b c d e g s) = Some db'
    \<and> td_rows db' = td_rows db"
  by (simp add: append_history_def)

section \<open>A task that ran is not run again\<close>

text \<open>
  C26: \<open>rerun\<close> makes a task pending but leaves its owner. A task that has an owner, as every task
  that a worker has claimed has, is not handed out after a rerun by any series of dequeues, by
  any workers for any teams. Only an operation that clears the owner (the requeue of a retry,
  the reset of orphans), which the series does not contain, makes it claimable again.\<close>

theorem rerun_not_claimed:
  assumes "store_ok s" "ts_conn s = Some db"
    and "get_task tid s = (Some t, s1)" "t_owner t \<noteq> ''''"
  shows "(\<exists>t'. fst (rerun now tid s) = Some t' \<and> t_status t' = ''pending'')
    \<and> tid \<notin> set (map t_id (fst (deq_run calls (snd (rerun now tid s)))))"
proof (intro conjI)
  let ?f = "\<lambda>t. t\<lparr>t_status := ''pending'', t_retry_count := t_retry_count t + 1, t_error := '''',
    t_updated_at := now\<rparr>"
  note row = modify_row [OF assms(1-3), of ?f, simplified]
  obtain db' where db': "ts_conn (snd (rerun now tid s)) = Some db'"
      "map_of (td_rows db') = (map_of (td_rows db))(tid \<mapsto> to_row (?f t))"
    using row(1) unfolding rerun_def by blast
  have "map_of (td_rows db') tid = Some (to_row (?f t))" by (simp add: db'(2))
  moreover have "\<not> claimable tm (to_row (?f t))" for tm
    using assms(4) by (simp add: claimable_def to_row_def)
  ultimately show "tid \<notin> set (map t_id (fst (deq_run calls (snd (rerun now tid s)))))"
    using deq_run_not_taken [OF modify_ops_ok(1) [OF assms(1)] db'(1)] by blast
  show "\<exists>t'. fst (rerun now tid s) = Some t' \<and> t_status t' = ''pending''"
    using row(3) unfolding rerun_def by simp
qed


section \<open>Tasks that cannot be dispatched\<close>

text \<open>The reason why a task fails before any handler sees it, if there is one.\<close>

definition undispatchable :: "exec_env \<Rightarrow> task \<Rightarrow> str option" where
  "undispatchable env t =
     (let no_method = (\<lambda>m. if xe_rpc env m = None then Some (''RPC method not found: '' @ m) else None)
      in if t_agent t \<noteq> [] \<and> t_graph t = [] then
           (case spec_for_agent env (t_agent t) of
              Inl x \<Rightarrow> Some (''dispatch failed: '' @ xe_exn_text env x)
            | Inr spec \<Rightarrow> if jget spec ''system_prompt'' JNull = JStr missing_agent
                then Some (''agent not found: '' @ t_agent t) else no_method ''subagent.run_task'')
         else if t_graph t \<noteq> [] then no_method ''graph.execute_async''
         else Some ''task has neither agent_id nor graph_id'')"

lemma undispatchable_fails:
  assumes "undispatchable env t = Some m" "t_id t = tid"
  shows "dispatch env now tid t s = fail_task now tid m s" and "m \<noteq> []"
  using assms
  by (auto simp: undispatchable_def dispatch_def execute_agent_def execute_task_graph_def
      dispatch_failed_def after_rpc_def rpc_call_def error_reply_def Let_def
      split: sum.splits if_splits)

lemma fail_row:
  assumes "store_ok s" "ts_conn s = Some db" "get_task tid s = (Some t, s1)"
  shows "store_ok (fail_task now tid m s)"
    and "map_of (ts_cache (fail_task now tid m s)) tid = Some (with_status now ''failed'' None m None t)"
    and "\<exists>db'. ts_conn (fail_task now tid m s) = Some db'
      \<and> map_of (td_rows db') = (map_of (td_rows db))(tid \<mapsto> to_row (with_status now ''failed'' None m None t))"
proof -
  have v: "''failed'' \<in> set valid_statuses" by (simp add: valid_statuses_def)
  have eq: "fail_task now tid m s = snd (modify_task tid (with_status now ''failed'' None m None) s)"
    by (simp add: fail_task_def update_status_modify v split_beta)
  show "store_ok (fail_task now tid m s)" unfolding fail_task_def by (rule update_status_ok [OF assms(1)])
  show "map_of (ts_cache (fail_task now tid m s)) tid = Some (with_status now ''failed'' None m None t)"
    unfolding eq by (rule modify_row(2) [OF assms]) (simp_all add: v)
  show "\<exists>db'. ts_conn (fail_task now tid m s) = Some db'
      \<and> map_of (td_rows db') = (map_of (td_rows db))(tid \<mapsto> to_row (with_status now ''failed'' None m None t))"
    unfolding eq by (rule modify_row(1) [OF assms]) (simp_all add: v)
qed

definition requeued :: "pyfloat \<Rightarrow> task \<Rightarrow> task" where
  "requeued now t = t\<lparr>t_status := ''pending'', t_owner := '''', t_token := '''',
     t_retry_count := t_retry_count t + 1, t_updated_at := now\<rparr>"

lemma requeue_row:
  assumes "store_ok s" "ts_conn s = Some db" "get_task tid s = (Some t, s1)"
  shows "map_of (ts_cache (snd (requeue now tid actor reason s))) tid = Some (requeued now t)"
    and "\<exists>db'. ts_conn (snd (requeue now tid actor reason s)) = Some db'
      \<and> map_of (td_rows db') = (map_of (td_rows db))(tid \<mapsto> to_row (requeued now t))"
proof -
  let ?f = "\<lambda>t. t\<lparr>t_status := ''pending'', t_owner := '''', t_token := '''',
    t_retry_count := t_retry_count t + 1, t_updated_at := now\<rparr>"
  obtain s2 where m: "modify_task tid ?f s = (Some (requeued now t), s2)"
    using modify_row(3) [OF assms(1-3), of ?f, simplified] unfolding requeued_def
    by (cases "modify_task tid ?f s") simp
  have rq: "\<exists>a r. snd (requeue now tid actor reason s)
      = append_history now tid ''failed'' ''pending'' ''none'' ''none'' a r s2"
    unfolding requeue_def m by auto
  have row: "\<exists>db'. ts_conn s2 = Some db' \<and> map_of (td_rows db') = (map_of (td_rows db))(tid \<mapsto> to_row (requeued now t))"
      "map_of (ts_cache s2) tid = Some (requeued now t)"
    using modify_row(1,2) [OF assms(1-3), of ?f, simplified] m by (simp_all add: requeued_def)
  show "map_of (ts_cache (snd (requeue now tid actor reason s))) tid = Some (requeued now t)"
    using rq row(2) by auto
  show "\<exists>db'. ts_conn (snd (requeue now tid actor reason s)) = Some db'
      \<and> map_of (td_rows db') = (map_of (td_rows db))(tid \<mapsto> to_row (requeued now t))"
    using rq row(1) append_history_rows by metis
qed

lemma await_settled:
  assumes "map_of (ts_cache s) tid = Some t" "t_status t \<in> set terminal_statuses" "0 < fuel"
  shows "await_terminal fuel w dl tid i s = Some s"
  using assms by (cases fuel) (simp_all add: get_cached)

text \<open>
  C25: Run a claimed task that cannot be dispatched: it has neither an agent nor a graph, its
  agent is unknown or ill described, or the method it needs is not registered. The run ends
  at once, announces the start and the failure, and leaves the reason with the task. When
  retries are left and the executor still holds the claim, the task is pending again, without
  owner and token and with one more retry counted; otherwise it stays failed.\<close>

theorem undispatchable_task_recorded:
  assumes "store_ok (ex_store x)" "ts_conn (ex_store x) = Some db"
    and "get_task tid (ex_store x) = (Some t, s1)" "t_status t = ''running''"
    and "undispatchable env t = Some m" "0 < fuel"
  shows "\<exists>x' t'. run_one fuel env w now tid x = Some x'
    \<and> map fst (ex_events x') = map fst (ex_events x) @ [''task.updated'', ''task.failed'']
    \<and> fst (get_task tid (ex_store x')) = Some t' \<and> t_error t' = m
    \<and> (if t_retry_count t < t_max_retries t \<and> t_token t \<noteq> '''' \<and> t_owner t = ''task-executor''
       then t_status t' = ''pending'' \<and> t_owner t' = '''' \<and> t_token t' = ''''
         \<and> t_retry_count t' = t_retry_count t + 1
       else t_status t' = ''failed'' \<and> t_owner t' = t_owner t \<and> t_retry_count t' = t_retry_count t)"
proof -
  note spec = get_task_spec [OF assms(1,3)]
  have id: "t_id t = tid" using spec(5) by (simp add: task_ok_def)
  have g1: "get_task tid s1 = (Some t, s1)" by (rule get_cached) (simp add: spec(4) [symmetric])
  have db1: "ts_conn s1 = Some db" using spec(2) assms(2) by simp
  note d = undispatchable_fails [OF assms(5) id]
  define t2 where "t2 = with_status now ''failed'' None m None t"
  define s2 where "s2 = dispatch env now tid t s1"
  have s2: "store_ok s2" "map_of (ts_cache s2) tid = Some t2" "\<exists>db'. ts_conn s2 = Some db'"
    using fail_row [OF spec(1) db1 g1, of now m] by (auto simp: s2_def t2_def d(1))
  note g2 = get_cached [OF s2(2)]
  have t2: "t_status t2 = ''failed''" "t_error t2 = m" "t_retry_count t2 = t_retry_count t"
      "t_max_retries t2 = t_max_retries t" "t_token t2 = t_token t" "t_owner t2 = t_owner t"
    using d(2) by (simp_all add: t2_def with_status_def)
  have aw: "await_terminal fuel w (we_clock w 0 + terminal_wait_cap) tid 0 s2 = Some s2"
    by (rule await_settled [OF s2(2) _ assms(6)]) (simp add: t2 terminal_statuses_def)
  define x2 where "x2 = (broadcast ''task.updated'' (task_payload tid ''running'' t) (t_team t)
    (x\<lparr>ex_store := s1\<rparr>))\<lparr>ex_store := s2\<rparr>"
  have run: "run_one fuel env w now tid x = Some (finalize now tid x2)"
    using assms(3,4) aw by (simp add: run_one_def Let_def s2_def x2_def)
  have ev: "map fst (ex_events (finalize now tid x2))
      = map fst (ex_events x) @ [''task.updated'', ''task.failed'']"
    by (simp add: finalize_def x2_def g2 broadcast_def Let_def final_event_name_def t2)
  have due: "retry_due t2 \<longleftrightarrow> t_retry_count t < t_max_retries t \<and> t_token t \<noteq> ''''
      \<and> t_owner t = ''task-executor''"
    by (simp add: retry_due_def t2 executor_owner_def)
  show ?thesis
  proof (cases "retry_due t2")
    case True
    obtain db2 where db2: "ts_conn s2 = Some db2" using s2(3) by blast
    have "ex_store (finalize now tid x2) = snd (requeue now tid executor_owner (retry_reason t2) s2)"
      using True by (simp add: finalize_def x2_def g2 Let_def)
    then have "map_of (ts_cache (ex_store (finalize now tid x2))) tid
        = Some (requeued now t2)"
      using requeue_row(1) [OF s2(1) db2 g2] by simp
    note g3 = get_cached [OF this]
    show ?thesis
      by (rule exI [of _ "finalize now tid x2"], rule exI [of _ "requeued now t2"])
        (use run ev g3 True due t2 in \<open>simp add: requeued_def\<close>)
  next
    case False
    have "ex_store (finalize now tid x2) = s2"
      using False by (simp add: finalize_def x2_def g2 Let_def broadcast_def)
    then have "fst (get_task tid (ex_store (finalize now tid x2))) = Some t2" by (simp add: g2)
    then show ?thesis
      using run ev False due t2 by (intro exI [of _ "finalize now tid x2"] exI [of _ t2]) auto
  qed
qed


section \<open>The retry budget\<close>

definition in_budget :: "int \<Rightarrow> int \<Rightarrow> task \<Rightarrow> bool" where
  "in_budget m n t \<longleftrightarrow> t_max_retries t = m \<and> t_retry_count t \<le> max m n"

lemma in_budget_rows [simp]: "in_budget m n (to_row t) = in_budget m n t" "in_budget m n (from_row t) = in_budget m n t"
  by (simp_all add: in_budget_def to_row_def from_row_def)

definition budget_ok :: "str \<Rightarrow> int \<Rightarrow> int \<Rightarrow> task_store \<Rightarrow> bool" where
  "budget_ok tid m n s \<longleftrightarrow> store_ok s \<and> (\<exists>db. ts_conn s = Some db
     \<and> (\<forall>r. map_of (td_rows db) tid = Some r \<longrightarrow> in_budget m n r))"

lemma in_budget_status [simp]:
  "in_budget m n (with_status now st res err None t) = in_budget m n t"
  by (simp add: in_budget_def with_status_def)

lemma budget_same_conn: "budget_ok tid m n s \<Longrightarrow> store_ok s' \<Longrightarrow> ts_conn s' = ts_conn s \<Longrightarrow> budget_ok tid m n s'"
  by (simp add: budget_ok_def)

lemma budget_task:
  assumes "budget_ok tid m n s" "get_task tid s = (Some t, s1)"
  shows "in_budget m n t"
proof -
  obtain db where db: "store_ok s" "ts_conn s = Some db"
      "\<forall>r. map_of (td_rows db) tid = Some r \<longrightarrow> in_budget m n r"
    using assms(1) by (auto simp: budget_ok_def)
  obtain r where "map_of (td_rows db) tid = Some r" "from_row r = from_row t"
    using get_task_spec(7) [OF db(1) assms(2) db(2)] by blast
  then show ?thesis using db(3) in_budget_rows(2) by metis
qed

lemma budget_row:
  assumes "budget_ok tid m n s" "store_ok s'" "ts_conn s = Some db" "ts_conn s' = Some db'"
    and "map_of (td_rows db') = (map_of (td_rows db))(k \<mapsto> q)" "k = tid \<Longrightarrow> in_budget m n q"
  shows "budget_ok tid m n s'"
  using assms by (auto simp: budget_ok_def)

lemma budget_get: "budget_ok tid m n s \<Longrightarrow> budget_ok tid m n (snd (get_task k s))"
  by (metis budget_ok_def budget_same_conn get_task_spec(1,2) prod.collapse)

lemma budget_fail:
  assumes b: "budget_ok tid m n s"
  shows "budget_ok tid m n (fail_task now k err s)"
proof -
  obtain r s1 where g: "get_task k s = (r, s1)" by fastforce
  have ok: "store_ok s" using b by (simp add: budget_ok_def)
  obtain db where db: "ts_conn s = Some db" using b by (auto simp: budget_ok_def)
  show ?thesis
  proof (cases r)
    case None
    then have "fail_task now k err s = s1" using g by (simp add: fail_task_def update_status_def)
    then show ?thesis using budget_get [OF b, of k] g by simp
  next
    case (Some t)
    obtain db' where db': "ts_conn (fail_task now k err s) = Some db'"
        "map_of (td_rows db') = (map_of (td_rows db))(k \<mapsto> to_row (with_status now ''failed'' None err None t))"
      using fail_row(3) [OF ok db g [unfolded Some]] by blast
    show ?thesis
      by (rule budget_row [OF b fail_row(1) [OF ok db g [unfolded Some]] db db'])
        (use budget_task [OF b] g Some in auto)
  qed
qed

lemma budget_requeue:
  assumes b: "budget_ok tid m n s" and g: "get_task k s = (Some t, s1)" and due: "retry_due t"
  shows "budget_ok tid m n (snd (requeue now k actor reason s1))"
proof -
  have ok: "store_ok s" using b by (simp add: budget_ok_def)
  note spec = get_task_spec [OF ok g]
  have b1: "budget_ok tid m n s1" by (rule budget_same_conn [OF b spec(1,2)])
  obtain db where db: "ts_conn s1 = Some db" using b1 by (auto simp: budget_ok_def)
  have g1: "get_task k s1 = (Some t, s1)" by (rule get_cached) (simp add: spec(4) [symmetric])
  obtain db' where db': "ts_conn (snd (requeue now k actor reason s1)) = Some db'"
      "map_of (td_rows db') = (map_of (td_rows db))(k \<mapsto> to_row (requeued now t))"
    using requeue_row(2) [OF spec(1) db g1] by blast
  have "in_budget m n t \<Longrightarrow> in_budget m n (requeued now t)"
    using due by (auto simp: in_budget_def requeued_def retry_due_def)
  then show ?thesis
    by (intro budget_row [OF b1 modify_ops_ok(6) [OF spec(1)] db db'])
      (use budget_task [OF b] g in auto)
qed

lemma budget_update_rows:
  assumes "budget_ok tid m n s" "store_ok s'" "ts_conn s = Some db" "ts_conn s' = Some db'"
    and "td_rows db' = update_rows P f (td_rows db)" "\<And>r. in_budget m n (f r) = in_budget m n r"
  shows "budget_ok tid m n s'"
  using assms by (auto simp: budget_ok_def map_of_update_rows)

lemma budget_dequeue:
  assumes b: "budget_ok tid m n s"
  shows "budget_ok tid m n (snd (dequeue now token team owner s))"
proof -
  obtain res s' where d: "dequeue now token team owner s = (res, s')" by fastforce
  have ok: "store_ok s" using b by (simp add: budget_ok_def)
  obtain db where db: "ts_conn s = Some db" using b by (auto simp: budget_ok_def)
  have ok': "store_ok s'" using dequeue_ok [OF ok, of now token team owner] d by simp
  have f: "in_budget m n (claimed now owner token r) = in_budget m n r"
      "in_budget m n (unclaimed now r) = in_budget m n r" for r
    by (simp_all add: in_budget_def claimed_def unclaimed_def)
  from ok db d have "budget_ok tid m n s'"
  proof (cases rule: dequeue_outcomes)
    case idle
    then show ?thesis using b by simp
  next
    case (claim k r db')
    then show ?thesis using budget_update_rows [OF b ok' db _ _ f(1)] by blast
  next
    case (lost k r db')
    then show ?thesis using budget_update_rows [OF b ok' db _ _ f(1)] by blast
  next
    case (blocked k r db')
    then show ?thesis using b db ok' f by (auto simp: budget_ok_def map_of_update_rows)
  qed
  then show ?thesis using d by simp
qed

lemma budget_pickup: "budget_ok tid m n s \<Longrightarrow> budget_ok tid m n (snd (pickup now token s))"
  by (simp add: pickup_def budget_dequeue)

text \<open>A series of turns, each with its own surroundings.\<close>

fun executor_turns ::
    "nat \<Rightarrow> (exec_env \<times> wait_env \<times> pyfloat \<times> str) list \<Rightarrow> executor \<Rightarrow> executor option" where
  "executor_turns fuel [] x = Some x"
| "executor_turns fuel ((env, w, now, token) # ts) x =
     (case executor_turn fuel env w now token x of
        None \<Rightarrow> None | Some x1 \<Rightarrow> executor_turns fuel ts x1)"

definition keeps_budget :: "str \<Rightarrow> int \<Rightarrow> int \<Rightarrow> exec_env \<Rightarrow> wait_env \<Rightarrow> bool" where
  "keeps_budget tid m n env w \<longleftrightarrow> (\<forall>s. budget_ok tid m n s \<longrightarrow>
     (\<forall>mth h p. xe_rpc env mth = Some h \<longrightarrow> budget_ok tid m n (snd (h p s)))
     \<and> (\<forall>i. budget_ok tid m n (we_world w i s)))"

lemma budget_services: "keeps_budget tid m n env w \<Longrightarrow> task_services (budget_ok tid m n) env w"
  by unfold_locales
    (auto simp: keeps_budget_def intro: budget_get budget_fail budget_requeue)

lemma budget_turn:
  assumes b: "budget_ok tid m n (ex_store x)" and k: "keeps_budget tid m n env w"
    and t: "executor_turn fuel env w now token x = Some x'"
  shows "budget_ok tid m n (ex_store x')"
proof -
  obtain r s1 where p: "pickup now token (ex_store x) = (r, s1)" by fastforce
  have s1: "budget_ok tid m n (ex_store (x\<lparr>ex_store := s1\<rparr>))"
    using budget_pickup [OF b, of now token] p by simp
  show ?thesis
    using t p s1 task_services.run_one_keeps [OF budget_services [OF k] _ s1]
    by (cases r) (auto simp: executor_turn_def)
qed

text \<open>
  C13: Retries are bounded. Take any series of turns of the executor, in which the handlers and
  the other users of the store do not raise the retry count of the task beyond the larger of
  its limit and the count it started with, and do not change its limit (\<open>keeps_budget\<close>). Then the
  retry count of the task stays within that bound: the requeues of the executor itself never
  take it beyond.\<close>

theorem retry_budget:
  assumes "store_ok (ex_store x)" "ts_conn (ex_store x) = Some db"
    and "map_of (td_rows db) tid = Some r"
    and "\<forall>(env, w, now, token) \<in> set turns. keeps_budget tid (t_max_retries r) (t_retry_count r) env w"
    and "executor_turns fuel turns x = Some x'"
  shows "\<exists>db'. ts_conn (ex_store x') = Some db'
    \<and> (\<forall>r'. map_of (td_rows db') tid = Some r' \<longrightarrow>
         t_retry_count r' \<le> max (t_max_retries r) (t_retry_count r))"
proof -
  let ?B = "budget_ok tid (t_max_retries r) (t_retry_count r)"
  have "?B (ex_store x)" using assms(1-3) by (simp add: budget_ok_def in_budget_def)
  with assms(4,5) have "?B (ex_store x')"
  proof (induction turns arbitrary: x)
    case (Cons a ts)
    obtain env w now token where a: "a = (env, w, now, token)" by (cases a)
    then obtain x1 where x1: "executor_turn fuel env w now token x = Some x1"
        "executor_turns fuel ts x1 = Some x'"
      using Cons.prems(2) by (auto split: option.splits)
    have "?B (ex_store x1)" using budget_turn [OF Cons.prems(3) _ x1(1)] Cons.prems(1) a by simp
    then show ?case using Cons.IH [OF _ x1(2)] Cons.prems(1) by simp
  qed simp
  then show ?thesis by (auto simp: budget_ok_def in_budget_def)
qed

section \<open>An abandoned wait\<close>

text \<open>
  When the wait is given up, because the cap is reached or the worker is being stopped, the
  task may still be running. The run then announces \<open>task.canceled\<close> although the task is
  still running in the store, which it leaves unchanged.\<close>

theorem abandoned_wait_announces_cancel:
  assumes "store_ok (ex_store x)" "get_task tid (ex_store x) = (Some t, s1)" "t_status t = ''running''"
    and "await_terminal fuel w (we_clock w 0 + terminal_wait_cap) tid 0 (dispatch env now tid t s1) = Some s2"
    and "get_task tid s2 = (Some t2, s3)" "t_status t2 = ''running''"
  shows "\<exists>x'. run_one fuel env w now tid x = Some x'
    \<and> fst (last (ex_events x')) = ''task.canceled''
    \<and> jget (fst (snd (last (ex_events x')))) ''status'' JNull = JStr ''running''
    \<and> fst (get_task tid (ex_store x')) = Some t2"
proof -
  have "get_task tid s3 = (Some t2, s3)"
    using assms(5) by (auto simp: get_task_def split: option.splits if_splits)
  then show ?thesis
    using assms(2-6)
    by (simp add: run_one_def Let_def finalize_def retry_due_def broadcast_def final_event_name_def
        task_payload_def)
qed


section \<open>Concrete runs\<close>

text \<open>
  A board with one task that has neither an agent nor a graph, and one with a task for a
  graph; an executor without RPC methods, and one whose handlers accept and do nothing.
\<close>

definition demo_board :: "task \<Rightarrow> executor" where
  "demo_board t = \<lparr>ex_store = snd (submit 0 1 (t\<lparr>t_id := ''a''\<rparr>) (task_store_init (Some empty_task_db) True)),
     ex_events = [], ex_running = True, ex_stopping = False\<rparr>"

definition lone_task :: task where
  "lone_task = new_task\<lparr>t_max_retries := 1\<rparr>"

definition graph_task :: task where
  "graph_task = new_task\<lparr>t_graph := ''g''\<rparr>"

definition deaf_env :: exec_env where
  "deaf_env = \<lparr>xe_rpc = (\<lambda>_. None), xe_agents = [], xe_prompt = (\<lambda>_. ''''), xe_exn_text = (\<lambda>_. ''''),
     xe_lib = \<lparr>pl_repr = (\<lambda>_. ''''), pl_float = (\<lambda>_. None), pl_loads = (\<lambda>_. None)\<rparr>\<rparr>"

definition mute_env :: exec_env where
  "mute_env = deaf_env\<lparr>xe_rpc := (\<lambda>_. Some (\<lambda>p s. (RpcReply JNull, s)))\<rparr>"

definition calm :: "bool \<Rightarrow> wait_env" where
  "calm b = \<lparr>we_clock = (\<lambda>i. of_nat i), we_stopping = (\<lambda>_. b), we_world = (\<lambda>_ s. s)\<rparr>"

lemma demo_board_ok: "store_ok (ex_store (demo_board t))"
  unfolding demo_board_def executor.select_convs
  by (intro submit_ok init_ok) (simp add: empty_tasks_ok)

theorem pickup_is_dequeue_witness:
  "pickup 5 ''t'' (ex_store (demo_board lone_task))
    = dequeue 5 ''t'' ''*'' executor_owner (ex_store (demo_board lone_task))"
  by (rule pickup_is_dequeue [where db = "the (ts_conn (ex_store (demo_board lone_task)))"]) code_simp+

theorem wait_ends_witness:
  "\<exists>x'. run_one 14401 mute_env (calm False) 5 ''a'' (demo_board graph_task) = Some x'"
  by (rule wait_ends) (simp add: calm_def)

definition claimed_board :: "task \<Rightarrow> executor" where
  "claimed_board t = (demo_board t)\<lparr>ex_store := snd (pickup 5 ''t'' (ex_store (demo_board t)))\<rparr>"

lemma claimed_board_ok: "store_ok (ex_store (claimed_board t))"
  by (simp add: claimed_board_def pickup_ok demo_board_ok)

theorem rerun_not_claimed_witness:
  "''a'' \<notin> set (map t_id (fst (deq_run [(7, ''u'', ''*'', ''task-executor'')]
      (snd (rerun 6 ''a'' (ex_store (claimed_board lone_task)))))))"
proof -
  let ?s = "ex_store (claimed_board lone_task)"
  have ok: "store_ok ?s" by (rule claimed_board_ok)
  have "ts_conn ?s = Some (the (ts_conn ?s))" by code_simp
  moreover have "get_task ''a'' ?s = (Some (the (fst (get_task ''a'' ?s))), snd (get_task ''a'' ?s))"
    by code_simp
  moreover have "t_owner (the (fst (get_task ''a'' ?s))) \<noteq> ''''" by code_simp
  ultimately show ?thesis
    using rerun_not_claimed [OF ok, of "the (ts_conn ?s)" "''a''" "the (fst (get_task ''a'' ?s))"
      "snd (get_task ''a'' ?s)" 6 "[(7, ''u'', ''*'', ''task-executor'')]"] by blast
qed

theorem executor_keeps_store_witness:
  "store_ok (ex_store (the (executor_turn 1 (ops_env (\<lambda>_ _ _. (RpcReply JNull, [OpUpdate 6 ''a'' ''completed'' None '''' None]))
      [] (\<lambda>_. '''') (\<lambda>_. '''') (xe_lib deaf_env)) (ops_world of_nat (\<lambda>_. False) (\<lambda>_. [])) 5 ''t''
      (demo_board graph_task))))"
proof (rule executor_keeps_store)
  show "store_ok (ex_store (demo_board graph_task))" by (rule demo_board_ok)
  let ?r = "executor_turn 1 (ops_env (\<lambda>_ _ _. (RpcReply JNull, [OpUpdate 6 ''a'' ''completed'' None '''' None]))
      [] (\<lambda>_. '''') (\<lambda>_. '''') (xe_lib deaf_env)) (ops_world of_nat (\<lambda>_. False) (\<lambda>_. [])) 5 ''t''
      (demo_board graph_task)"
  have "?r \<noteq> None" by code_simp
  then show "?r = Some (the ?r)" by simp
qed


theorem undispatchable_task_witness:
  "\<exists>x' t'. run_one 1 deaf_env (calm False) 6 ''a'' (claimed_board lone_task) = Some x'
    \<and> fst (get_task ''a'' (ex_store x')) = Some t'
    \<and> t_error t' = ''task has neither agent_id nor graph_id''"
proof -
  let ?x = "claimed_board lone_task"
  let ?t = "the (fst (get_task ''a'' (ex_store ?x)))"
  have db: "ts_conn (ex_store ?x) = Some (the (ts_conn (ex_store ?x)))" by code_simp
  have g: "get_task ''a'' (ex_store ?x) = (Some ?t, snd (get_task ''a'' (ex_store ?x)))" by code_simp
  have st: "t_status ?t = ''running''" by code_simp
  have u: "undispatchable deaf_env ?t = Some ''task has neither agent_id nor graph_id''" by code_simp
  have "0 < (1 :: nat)" by simp
  from undispatchable_task_recorded [OF claimed_board_ok db g st u this, of "calm False" 6]
  obtain x' t' where "run_one 1 deaf_env (calm False) 6 ''a'' ?x = Some x'"
      "fst (get_task ''a'' (ex_store x')) = Some t'"
      "t_error t' = ''task has neither agent_id nor graph_id''"
    by (elim exE conjE)
  then show ?thesis by (intro exI conjI)
qed

definition demo_turns :: "(exec_env \<times> wait_env \<times> pyfloat \<times> str) list" where
  "demo_turns = [(deaf_env, calm False, 5, ''t''), (deaf_env, calm False, 6, ''u''),
     (deaf_env, calm False, 7, ''v'')]"

theorem retry_budget_witness:
  "\<exists>x' db'. executor_turns 1 demo_turns (demo_board lone_task) = Some x' \<and> ts_conn (ex_store x') = Some db'
    \<and> (\<forall>r'. map_of (td_rows db') ''a'' = Some r' \<longrightarrow> t_retry_count r' \<le> 1)"
proof -
  let ?x = "demo_board lone_task"
  let ?db = "the (ts_conn (ex_store ?x))"
  let ?r = "the (map_of (td_rows ?db) ''a'')"
  have db: "ts_conn (ex_store ?x) = Some ?db" by code_simp
  have r: "map_of (td_rows ?db) ''a'' = Some ?r" by code_simp
  have n: "t_max_retries ?r = 1" "t_retry_count ?r = 0" by code_simp+
  have k: "\<forall>(env, w, now, token) \<in> set demo_turns.
      keeps_budget ''a'' (t_max_retries ?r) (t_retry_count ?r) env w"
    by (simp add: demo_turns_def keeps_budget_def deaf_env_def calm_def)
  have "executor_turns 1 demo_turns ?x \<noteq> None" by code_simp
  then obtain x' where x': "executor_turns 1 demo_turns ?x = Some x'" by fast
  then show ?thesis using retry_budget [OF demo_board_ok db r k x'] unfolding n by auto
qed

theorem abandoned_wait_witness:
  "\<exists>x'. run_one 1 mute_env (calm True) 6 ''a'' (claimed_board graph_task) = Some x'
    \<and> fst (last (ex_events x')) = ''task.canceled''"
proof -
  let ?x = "claimed_board graph_task"
  let ?g = "get_task ''a'' (ex_store ?x)"
  have g: "?g = (Some (the (fst ?g)), snd ?g)" by code_simp
  have st: "t_status (the (fst ?g)) = ''running''" by code_simp
  have d: "dispatch mute_env 6 ''a'' (the (fst ?g)) (snd ?g) = snd ?g" by code_simp
  have aw: "await_terminal 1 (calm True) (we_clock (calm True) 0 + terminal_wait_cap) ''a'' 0
      (dispatch mute_env 6 ''a'' (the (fst ?g)) (snd ?g)) = Some (snd ?g)"
    unfolding d by (simp add: calm_def)
  have g2: "get_task ''a'' (snd ?g) = (Some (the (fst ?g)), snd ?g)" by code_simp
  show ?thesis
    using abandoned_wait_announces_cancel [OF claimed_board_ok g st aw g2 st] by blast
qed

end
