(* ===== verification/Orchestrator.thy ===== *)
theory Orchestrator
  imports Runtime SwarmProps Planner
begin

text \<open>
  Several agents on one task: \<open>agent_runtime/orchestrator.py\<close>, on the graph engine of
  \<open>Runtime\<close> and the hand-off limit of \<open>Swarm\<close>. Constructing a runtime is an argument: the
  function from the safety gateway that it is given to the runtime. So are the message board
  (\<open>plaza.py\<close>) and the indented rendering of \<open>json.dumps\<close>. Agents that run in parallel are
  run in the order of the list; \<open>asyncio.gather\<close> returns their results in that order. A
  field of a model reply that is not a text reads as empty.
\<close>

section \<open>Configurations and results\<close>

record agent_config =
  ac_name :: str
  ac_graph :: agent_graph
  ac_system_prompt :: str
  ac_model :: str

record 'w plaza_ops =
  pz_create :: "str \<Rightarrow> str list \<Rightarrow> 'w \<Rightarrow> bool \<times> 'w"
  pz_note :: "str \<Rightarrow> str \<Rightarrow> str \<Rightarrow> 'w \<Rightarrow> 'w"

record ('g, 'w) orchestrator =
  oc_runtime :: "'g option \<Rightarrow> 'w runtime"
  oc_budget :: "token_budget option"
  oc_gateway :: "'g option"
  oc_nesting :: nat
  oc_dumps :: "json \<Rightarrow> str"
  oc_plaza :: "'w plaza_ops option"
  oc_max_concurrent :: int
  oc_max_depth :: int

text \<open>
  An entry of the list of results: the run of an agent (name, output, events, usage,
  duration, further keys), or a note of the pattern itself.
\<close>

datatype orch_entry =
    Ran str str "agent_event list" jobj pyfloat jobj
  | Noted jobj

record orch_result =
  or_results :: "orch_entry list"
  or_errors :: "str list"
  or_duration :: pyfloat
  or_summary :: str

definition new_result :: orch_result where
  "new_result = \<lparr>or_results = [], or_errors = [], or_duration = 0, or_summary = ''''\<rparr>"

definition add_result :: "orch_entry \<Rightarrow> orch_result \<Rightarrow> orch_result" where
  "add_result x r = r\<lparr>or_results := or_results r @ [x]\<rparr>"

definition add_error :: "str \<Rightarrow> orch_result \<Rightarrow> orch_result" where
  "add_error e r = r\<lparr>or_errors := or_errors r @ [e]\<rparr>"

definition line_end :: str where
  "line_end = [CHR 0x0A]"

abbreviation main_runtime :: "('g, 'w) orchestrator \<Rightarrow> 'w runtime" where
  "main_runtime oc \<equiv> oc_runtime oc (oc_gateway oc)"

definition now_of :: "('g, 'w) orchestrator \<Rightarrow> 'w \<Rightarrow> pyfloat" where
  "now_of oc w = rt_clock (main_runtime oc) w"

definition set_limits :: "int option \<Rightarrow> int option \<Rightarrow> ('g, 'w) orchestrator \<Rightarrow> ('g, 'w) orchestrator" where
  "set_limits mc md oc = oc\<lparr>
     oc_max_concurrent := (case mc of None \<Rightarrow> oc_max_concurrent oc | Some n \<Rightarrow> n),
     oc_max_depth := (case md of None \<Rightarrow> oc_max_depth oc | Some n \<Rightarrow> n)\<rparr>"

section \<open>One run\<close>

fun think_scan :: "agent_event list \<Rightarrow> str option" where
  "think_scan [] = None"
| "think_scan (e # es) =
     (if ae_type e = Think \<and> ae_content e \<noteq> [] then Some (ae_content e)
      else if ae_type e = EndEvent then None else think_scan es)"

fun assistant_scan :: "jobj list \<Rightarrow> str" where
  "assistant_scan [] = ''''"
| "assistant_scan (m # ms) =
     (if map_of m ''role'' = Some (JStr ''assistant'') then text_field (jget m ''content'' (JStr ''''))
      else assistant_scan ms)"

definition final_output :: "agent_event list \<Rightarrow> agent_context \<Rightarrow> str" where
  "final_output es c =
     (case think_scan (rev es) of Some t \<Rightarrow> t | None \<Rightarrow> assistant_scan (rev (cx_messages c)))"

text \<open>A new context, and the execution of the graph in it.\<close>

definition run_member ::
    "('g, 'w) orchestrator \<Rightarrow> 'g option \<Rightarrow> agent_graph \<Rightarrow> str \<Rightarrow> jobj \<Rightarrow> 'w
      \<Rightarrow> (py_exn + agent_event list \<times> agent_context) \<times> 'w" where
  "run_member oc gw g inp meta w =
     (let rt = oc_runtime oc gw; (uid, w1) = rt_uid rt w;
          r = execute_graph (oc_nesting oc) rt g inp None
                \<lparr>rs_ctx = (new_context uid)\<lparr>cx_meta := meta\<rparr>, rs_own_budget = None,
                 rs_default_budget = oc_budget oc, rs_world = w1\<rparr>
      in (case snd r of
            Returned s \<Rightarrow> Inr (map fst (fst r), rs_ctx s)
          | Raised x s \<Rightarrow> Inl x,
          rs_world (end_state (snd r))))"

definition agent_turn ::
    "('g, 'w) orchestrator \<Rightarrow> 'g option \<Rightarrow> agent_config \<Rightarrow> str \<Rightarrow> jobj \<Rightarrow> jobj \<Rightarrow> 'w
      \<Rightarrow> (py_exn + str \<times> orch_entry) \<times> 'w" where
  "agent_turn oc gw a inp meta extra w =
     (let (r, w1) = run_member oc gw (ac_graph a) inp ((''agent_name'', JStr (ac_name a)) # meta) w
      in (bindE r (\<lambda>(es, c). bindE (token_usage c) (\<lambda>u.
            let out = final_output es c
            in Inr (out, Ran (ac_name a) out es u
                 (elapsed_seconds (rt_clock (oc_runtime oc gw) w1) c) extra))), w1))"

definition exn_text :: "('g, 'w) orchestrator \<Rightarrow> py_exn \<Rightarrow> str" where
  "exn_text oc x = rt_exn_text (main_runtime oc) x"

definition agent_error :: "('g, 'w) orchestrator \<Rightarrow> str \<Rightarrow> py_exn \<Rightarrow> str" where
  "agent_error oc who x = who @ '': '' @ exn_text oc x"

section \<open>One after another\<close>

fun seq_loop ::
    "('g, 'w) orchestrator \<Rightarrow> agent_config list \<Rightarrow> str \<Rightarrow> orch_result \<Rightarrow> 'w \<Rightarrow> orch_result \<times> 'w" where
  "seq_loop oc [] inp r w = (r, w)"
| "seq_loop oc (a # as) inp r w =
     (case agent_turn oc (oc_gateway oc) a inp [] [] w of
        (Inl x, w1) \<Rightarrow> seq_loop oc as inp (add_error (agent_error oc (ac_name a) x) r) w1
      | (Inr (out, e), w1) \<Rightarrow> seq_loop oc as out (add_result e r) w1)"

definition timed :: "('g, 'w) orchestrator \<Rightarrow> 'w \<Rightarrow> orch_result \<times> 'w \<Rightarrow> orch_result \<times> 'w" where
  "timed oc w0 p = (fst p\<lparr>or_duration := now_of oc (snd p) - now_of oc w0\<rparr>, snd p)"

definition run_sequential ::
    "('g, 'w) orchestrator \<Rightarrow> agent_config list \<Rightarrow> str \<Rightarrow> 'w \<Rightarrow> orch_result \<times> 'w" where
  "run_sequential oc agents inp w = timed oc w (seq_loop oc agents inp new_result w)"

section \<open>Side by side\<close>

definition no_usage :: jobj where
  "no_usage = [(''prompt_tokens'', JInt 0), (''completion_tokens'', JInt 0), (''total'', JInt 0)]"

definition run_single ::
    "('g, 'w) orchestrator \<Rightarrow> agent_config \<Rightarrow> str \<Rightarrow> 'w \<Rightarrow> orch_entry \<times> 'w" where
  "run_single oc a inp w =
     (case agent_turn oc None a inp [] [(''error'', JStr '''')] w of
        (Inl x, w1) \<Rightarrow> (Ran (ac_name a) '''' [] no_usage 0 [(''error'', JStr (exn_text oc x))], w1)
      | (Inr (out, e), w1) \<Rightarrow> (e, w1))"

definition input_at :: "str list option \<Rightarrow> str \<Rightarrow> nat \<Rightarrow> str" where
  "input_at per tmpl i = (case per of Some xs \<Rightarrow> if i < length xs then xs ! i else tmpl | None \<Rightarrow> tmpl)"

fun par_loop ::
    "('g, 'w) orchestrator \<Rightarrow> nat \<Rightarrow> agent_config list \<Rightarrow> str list option \<Rightarrow> str \<Rightarrow> 'w
      \<Rightarrow> orch_entry list \<times> 'w" where
  "par_loop oc i [] per tmpl w = ([], w)"
| "par_loop oc i (a # as) per tmpl w =
     (let (e, w1) = run_single oc a (input_at per tmpl i) w; (es, w2) = par_loop oc (i + 1) as per tmpl w1
      in (e # es, w2))"

fun entry_error :: "orch_entry \<Rightarrow> str list" where
  "entry_error (Ran who out es u d extra) =
     (let e = text_field (jget extra ''error'' (JStr '''')) in if e = [] then [] else [who @ '': '' @ e])"
| "entry_error (Noted d) = []"

definition run_parallel ::
    "('g, 'w) orchestrator \<Rightarrow> agent_config list \<Rightarrow> str \<Rightarrow> str list option \<Rightarrow> 'w
      \<Rightarrow> orch_result \<times> 'w" where
  "run_parallel oc agents tmpl per w =
     (let (es, w1) = par_loop oc 0 agents per tmpl w
      in timed oc w (new_result\<lparr>or_results := es, or_errors := concat (map entry_error es)\<rparr>, w1))"

section \<open>Master and workers\<close>

fun task_lines :: "str list \<Rightarrow> str list" where
  "task_lines [] = []"
| "task_lines (l # ls) = (if py_strip l = [] then task_lines ls else py_strip l # task_lines ls)"

text \<open>
  The last assistant message that is a JSON array, or that is not JSON and is then read line
  by line. A message with other JSON is passed over.
\<close>

fun sub_task_scan :: "pylib \<Rightarrow> nat \<Rightarrow> jobj list \<Rightarrow> str list option" where
  "sub_task_scan pl n [] = None"
| "sub_task_scan pl n (m # ms) =
     (if map_of m ''role'' = Some (JStr ''assistant'') then
        (let content = text_field (jget m ''content'' (JStr ''''))
         in case pl_loads pl content of
              None \<Rightarrow> Some (take n (task_lines (split_on (CHR 0x0A) content)))
            | Some (JList vs) \<Rightarrow> Some (map (py_str pl) (take n vs))
            | Some _ \<Rightarrow> sub_task_scan pl n ms)
      else sub_task_scan pl n ms)"

definition extract_sub_tasks :: "pylib \<Rightarrow> agent_context \<Rightarrow> nat \<Rightarrow> str list" where
  "extract_sub_tasks pl c n =
     (case sub_task_scan pl n (rev (cx_messages c)) of
        Some ts \<Rightarrow> ts
      | None \<Rightarrow> map (\<lambda>i. ''Sub-task '' @ str_of_nat (i + 1)) [0 ..< n])"

definition decompose_prompt :: "nat \<Rightarrow> str \<Rightarrow> str" where
  "decompose_prompt n task = ''Decompose the following task into '' @ str_of_nat n @ '' sub-tasks, ''
     @ ''one for each worker. Return a JSON array of sub-task descriptions.'' @ line_end @ line_end @ task"

fun worker_row :: "orch_entry \<Rightarrow> json" where
  "worker_row (Ran who out es u d extra) = JObj [(''worker'', JStr who), (''output'', JStr out)]"
| "worker_row (Noted d) = JObj []"

definition summary_prompt :: "('g, 'w) orchestrator \<Rightarrow> str \<Rightarrow> orch_entry list \<Rightarrow> str" where
  "summary_prompt oc task es = ''Original task: '' @ task @ line_end @ line_end @ ''Worker results:''
     @ line_end @ oc_dumps oc (JList (map worker_row es)) @ line_end @ line_end
     @ ''Provide a comprehensive summary of the results.''"

text \<open>\<open>if per_agent_inputs and ...\<close>: an empty list is as good as none.\<close>

definition some_inputs :: "str list \<Rightarrow> str list option" where
  "some_inputs xs = (if xs = [] then None else Some xs)"

definition master_worker ::
    "('g, 'w) orchestrator \<Rightarrow> agent_config \<Rightarrow> agent_config list \<Rightarrow> str \<Rightarrow> 'w
      \<Rightarrow> (py_exn + orch_result) \<times> 'w" where
  "master_worker oc master workers task w =
     (case run_member oc (oc_gateway oc) (ac_graph master) (decompose_prompt (length workers) task) [] w of
        (Inl x, w1) \<Rightarrow> (Inl x, w1)
      | (Inr (es, c), w1) \<Rightarrow>
          let tasks = extract_sub_tasks (rt_pl (main_runtime oc)) c (length workers);
              (wr, w2) = run_parallel oc workers '''' (some_inputs tasks) w1
          in (case run_member oc (oc_gateway oc) (ac_graph master) (summary_prompt oc task (or_results wr)) [] w2 of
                (Inl x, w3) \<Rightarrow> (Inl x, w3)
              | (Inr (es2, c2), w3) \<Rightarrow>
                  (Inr \<lparr>or_results =
                      Noted [(''phase'', JStr ''decomposition''), (''output'', JStr (final_output es c)),
                             (''sub_tasks'', JList (map JStr tasks))]
                      # or_results wr
                      @ [Noted [(''phase'', JStr ''summary''), (''output'', JStr (final_output es2 c2))]],
                    or_errors = or_errors wr, or_duration = now_of oc w3 - now_of oc w,
                    or_summary = final_output es2 c2\<rparr>, w3)))"


section \<open>Hand-offs\<close>

record hand_note =
  hn_sender :: str
  hn_receiver :: str
  hn_content :: str

definition handoff_history :: "hand_note list \<Rightarrow> str" where
  "handoff_history chain = py_join line_end (''--- Handoff History ---'' #
     concat (map (\<lambda>h. [''['' @ hn_sender h @ '' -> '' @ hn_receiver h @ '']'', take 500 (hn_content h), ''''])
       chain))"

definition upper_char :: "char \<Rightarrow> char" where
  "upper_char c = (if 97 \<le> (of_char c :: nat) \<and> (of_char c :: nat) \<le> 122
     then char_of ((of_char c :: nat) - 32) else c)"

definition py_upper :: "str \<Rightarrow> str" where
  "py_upper s = map upper_char s"

definition completion_markers :: "str list" where
  "completion_markers = [''[COMPLETE]'', ''[DONE]'', ''[TASK_COMPLETE]'', ''[NO_HANDOFF]'']"

definition handoff_complete :: "str \<Rightarrow> bool" where
  "handoff_complete content \<longleftrightarrow> (\<exists>m \<in> set completion_markers. py_contains m (py_upper content))"

definition plain_agent :: "str \<Rightarrow> swarm_agent" where
  "plain_agent nm = \<lparr>sa_id = nm, sa_name = nm, sa_capabilities = [], sa_targets = [],
     sa_max_hops = default_max_hops, sa_status = ''online'', sa_metadata = []\<rparr>"

definition ensure_agent :: "str \<Rightarrow> str \<Rightarrow> swarm \<Rightarrow> swarm" where
  "ensure_agent fresh nm s =
     (if map_of (sw_agents s) nm = None then swarm_register (swarm_agent_init fresh (plain_agent nm)) s else s)"

text \<open>
  The router is asked before control goes to the next agent. The message identifier, the
  clock and an identifier for an agent without a name are drawn from the world.
\<close>

definition ask_router ::
    "('g, 'w) orchestrator \<Rightarrow> str \<Rightarrow> nat \<Rightarrow> str \<Rightarrow> str \<Rightarrow> str \<Rightarrow> swarm \<Rightarrow> 'w
      \<Rightarrow> bool \<times> swarm \<times> 'w" where
  "ask_router oc task_id i from_name to_name content sw w =
     (let (u1, w1) = rt_uid (main_runtime oc) w;
          (r, sw1) = handoff u1 (now_of oc w1) from_name to_name
            \<lparr>hc_conversation = [[(''role'', JStr from_name), (''content'', JStr content)]],
             hc_metadata = [], hc_hops = int i, hc_task = task_id\<rparr>
            (ensure_agent u1 to_name (ensure_agent u1 from_name sw))
      in (r \<noteq> None, sw1, w1))"

fun mark_blocked :: "orch_entry list \<Rightarrow> orch_entry list" where
  "mark_blocked [] = []"
| "mark_blocked [Ran who out es u d extra] =
     [Ran who out es u d (AList.update ''swarm_blocked'' (JBool True) extra)]"
| "mark_blocked [Noted d] = [Noted (AList.update ''swarm_blocked'' (JBool True) d)]"
| "mark_blocked (x # y # xs) = x # mark_blocked (y # xs)"

fun hand_loop ::
    "('g, 'w) orchestrator \<Rightarrow> str \<Rightarrow> nat \<Rightarrow> agent_config list \<Rightarrow> str \<Rightarrow> hand_note list
      \<Rightarrow> orch_result \<Rightarrow> swarm option \<Rightarrow> 'w \<Rightarrow> orch_result \<times> swarm option \<times> 'w" where
  "hand_loop oc task_id i [] acc chain r sw w = (r, sw, w)"
| "hand_loop oc task_id i (a # as) acc chain r sw w =
     (let receiver = (case as of [] \<Rightarrow> ''__end__'' | b # bs \<Rightarrow> ac_name b);
          inp = (if chain = [] then acc else acc @ line_end @ line_end @ handoff_history chain)
      in case agent_turn oc (oc_gateway oc) a inp [(''handoff_index'', JInt (int i))]
                [(''handoff_to'', JStr receiver)] w of
           (Inl x, w1) \<Rightarrow> (add_error (agent_error oc (ac_name a) x) r, sw, w1)
         | (Inr (out, e), w1) \<Rightarrow>
             let r1 = add_result e r;
                 chain1 = chain @ [\<lparr>hn_sender = ac_name a, hn_receiver = receiver, hn_content = out\<rparr>];
                 (pass, sw1, w2) =
                   (case (sw, as) of
                      (Some s, b # bs) \<Rightarrow>
                        (let (ok, s1, w') = ask_router oc task_id i (ac_name a) (ac_name b) out s w1
                         in (ok, Some s1, w'))
                    | _ \<Rightarrow> (True, sw, w1))
             in if \<not> pass then (r1\<lparr>or_results := mark_blocked (or_results r1)\<rparr>, sw1, w2)
                else if handoff_complete out then (r1, sw1, w2)
                else hand_loop oc task_id (i + 1) as out chain1 r1 sw1 w2)"

definition run_handoff ::
    "('g, 'w) orchestrator \<Rightarrow> agent_config list \<Rightarrow> str \<Rightarrow> swarm option \<Rightarrow> 'w
      \<Rightarrow> orch_result \<times> swarm option \<times> 'w" where
  "run_handoff oc agents inp sw w =
     (let (uid, w1) = rt_uid (main_runtime oc) w;
          (r, sw1, w2) = hand_loop oc (''handoff_'' @ take 8 uid) 0 agents inp [] new_result sw w1
      in (r\<lparr>or_duration := now_of oc w2 - now_of oc w\<rparr>, sw1, w2))"

section \<open>Broadcast\<close>

fun longest :: "str \<Rightarrow> str list \<Rightarrow> str" where
  "longest best [] = best"
| "longest best (x # xs) = longest (if length best < length x then x else best) xs"

definition merge_concat :: "(str, str) dict \<Rightarrow> str" where
  "merge_concat outs = py_join (line_end @ line_end)
     (map (\<lambda>(nm, out). ''=== '' @ nm @ '' ==='' @ line_end @ out) outs)"

definition merge_outputs :: "('g, 'w) orchestrator \<Rightarrow> (str, str) dict \<Rightarrow> str \<Rightarrow> str" where
  "merge_outputs oc outs strategy =
     (if strategy = ''concat'' then merge_concat outs
      else if strategy = ''best'' then (case map snd outs of [] \<Rightarrow> '''' | x # xs \<Rightarrow> longest x xs)
      else if strategy = ''json'' then oc_dumps oc (JObj (map (\<lambda>(nm, out). (nm, JStr out)) outs))
      else merge_concat outs)"

fun entry_output :: "orch_entry \<Rightarrow> (str, str) dict \<Rightarrow> (str, str) dict" where
  "entry_output (Ran who out es u d extra) outs = AList.update who out outs"
| "entry_output (Noted d) outs = outs"

fun note_output :: "'w plaza_ops \<Rightarrow> str \<Rightarrow> orch_entry \<Rightarrow> 'w \<Rightarrow> 'w" where
  "note_output pz ch (Ran who out es u d extra) w = pz_note pz ch who out w"
| "note_output pz ch (Noted d) w = w"

definition open_channel ::
    "('g, 'w) orchestrator \<Rightarrow> agent_config list \<Rightarrow> 'w \<Rightarrow> ('w plaza_ops \<times> str) option \<times> 'w" where
  "open_channel oc agents w =
     (case oc_plaza oc of
        None \<Rightarrow> (None, w)
      | Some pz \<Rightarrow>
          let (uid, w1) = rt_uid (main_runtime oc) w; ch = ''broadcast_'' @ take 8 uid;
              (ok, w2) = pz_create pz ch (map ac_name agents) w1
          in (if ok then Some (pz, ch) else None, w2))"

definition run_broadcast ::
    "('g, 'w) orchestrator \<Rightarrow> agent_config list \<Rightarrow> str \<Rightarrow> str \<Rightarrow> 'w \<Rightarrow> orch_result \<times> 'w" where
  "run_broadcast oc agents inp strategy w =
     (let (ch, w1) = open_channel oc agents w;
          (pr, w2) = run_parallel oc agents inp None w1;
          w3 = (case ch of None \<Rightarrow> w2
                | Some (pz, c) \<Rightarrow> fold (note_output pz c) (or_results pr) w2);
          outs = fold entry_output (or_results pr) []
      in (\<lparr>or_results = or_results pr, or_errors = or_errors pr,
           or_duration = now_of oc w3 - now_of oc w, or_summary = merge_outputs oc outs strategy\<rparr>, w3))"

section \<open>A supervisor\<close>

fun brace_body :: "str \<Rightarrow> str option" where
  "brace_body [] = None"
| "brace_body (c # cs) =
     (if c = CHR 0x7D then Some [c] else if c = CHR 0x7B then None
      else map_option ((#) c) (brace_body cs))"

text \<open>\<open>re.search(r"\{[^{}]*\}")\<close>: the first brace pair with no brace inside.\<close>

fun brace_match :: "str \<Rightarrow> str option" where
  "brace_match [] = None"
| "brace_match (c # cs) =
     (if c = CHR 0x7B then
        (case brace_body cs of Some b \<Rightarrow> Some (c # b) | None \<Rightarrow> brace_match cs)
      else brace_match cs)"

definition unparsed_route :: jobj where
  "unparsed_route = [(''worker'', JStr ''''), (''instruction'', JStr ''''), (''done'', JBool False)]"

definition parse_route :: "pylib \<Rightarrow> str \<Rightarrow> jobj" where
  "parse_route pl out =
     (let body = (if py_contains fence out
                  then py_join line_end (fenced_lines False (split_on (CHR 0x0A) out)) else out);
          text = (case brace_match body of Some b \<Rightarrow> b | None \<Rightarrow> body)
      in case pl_loads pl text of Some (JObj d) \<Rightarrow> d | _ \<Rightarrow> unparsed_route)"

definition route_done :: "jobj \<Rightarrow> bool" where
  "route_done d \<longleftrightarrow> truthy (jget d ''done'' JNull) \<or> jget d ''worker'' JNull = JStr ''__end__''"

definition worker_table :: "agent_config list \<Rightarrow> (str, agent_config) dict" where
  "worker_table ws = fold (\<lambda>a. AList.update (ac_name a) a) ws []"

text \<open>
  The worker of a decision: the named one, else the first. An unhashable name raises
  TypeError; without workers \<open>next(iter(...))\<close> raises StopIteration, which a coroutine turns
  into RuntimeError.
\<close>

definition pick_worker :: "(str, agent_config) dict \<Rightarrow> json \<Rightarrow> py_exn + agent_config" where
  "pick_worker tbl v =
     (if \<not> hashable v then Inl TypeError
      else case (case v of JStr nm \<Rightarrow> map_of tbl nm | _ \<Rightarrow> None) of
             Some a \<Rightarrow> Inr a
           | None \<Rightarrow> (case tbl of [] \<Rightarrow> Inl RuntimeError | p # ps \<Rightarrow> Inr (snd p)))"

definition route_prompt :: "(str, agent_config) dict \<Rightarrow> str \<Rightarrow> (str \<times> str) list \<Rightarrow> str" where
  "route_prompt tbl task hist =
     ''You are a supervisor. Available workers: ['' @ py_join '', '' (map fst tbl) @ ''].''
     @ line_end @ line_end @ ''Current task: '' @ task @ line_end @ line_end
     @ (if hist = [] then ''''
        else ''Previous routing:'' @ line_end
          @ concat (map (\<lambda>(who, st). ''  - Routed to '' @ who @ '': '' @ st @ line_end) hist) @ line_end)
     @ ''Respond with a JSON object:'' @ line_end
     @ ''{\"worker\": \"<name>\", \"instruction\": \"<what to tell the worker>\", ''
     @ ''\"done\": true/false}'' @ line_end
     @ ''If the task is complete, set done=true and worker to \"__end__\".''"

definition phase_name :: "nat \<Rightarrow> str" where
  "phase_name n = ''round_'' @ str_of_nat n"

fun super_loop ::
    "('g, 'w) orchestrator \<Rightarrow> agent_config \<Rightarrow> (str, agent_config) dict \<Rightarrow> nat list \<Rightarrow> str
      \<Rightarrow> (str \<times> str) list \<Rightarrow> orch_result \<Rightarrow> 'w \<Rightarrow> (py_exn + orch_result) \<times> 'w" where
  "super_loop oc boss tbl [] task hist r w =
     (Inr (add_result (Noted [(''phase'', JStr ''supervisor_timeout''), (''agent'', JStr (ac_name boss)),
        (''output'', JStr ''Max routing rounds reached''), (''action'', JStr ''timeout'')]) r), w)"
| "super_loop oc boss tbl (n # ns) task hist r w =
     (case run_member oc (oc_gateway oc) (ac_graph boss) (route_prompt tbl task hist)
             [(''agent_name'', JStr (ac_name boss)), (''round'', JInt (int n))] w of
        (Inl x, w1) \<Rightarrow> (Inl x, w1)
      | (Inr (es, c), w1) \<Rightarrow>
          let out = final_output es c; d = parse_route (rt_pl (main_runtime oc)) out in
          if route_done d then
            (Inr ((add_result (Noted [(''phase'', JStr (phase_name n)), (''agent'', JStr (ac_name boss)),
                (''output'', JStr out), (''action'', JStr ''completed'')]) r)
              \<lparr>or_summary := text_field (jget d ''instruction'' (JStr out))\<rparr>), w1)
          else (case pick_worker tbl (jget d ''worker'' (JStr '''')) of
                  Inl x \<Rightarrow> (Inl x, w1)
                | Inr a \<Rightarrow>
                   (case agent_turn oc (oc_gateway oc) a
                           (text_field (jget d ''instruction'' (JStr task)))
                           [(''supervisor_round'', JInt (int n))]
                           [(''phase'', JStr (phase_name n)), (''routed_by'', JStr (ac_name boss))] w1 of
                      (Inl x, w2) \<Rightarrow> super_loop oc boss tbl ns task
                        (hist @ [(ac_name a, ''error: '' @ exn_text oc x)])
                        (add_error (ac_name a @ '' (round '' @ str_of_nat n @ ''): '' @ exn_text oc x) r) w2
                    | (Inr (wout, e), w2) \<Rightarrow> super_loop oc boss tbl ns wout
                        (hist @ [(ac_name a, ''completed'')]) (add_result e r) w2)))"

definition run_supervisor ::
    "('g, 'w) orchestrator \<Rightarrow> agent_config \<Rightarrow> agent_config list \<Rightarrow> str \<Rightarrow> int \<Rightarrow> 'w
      \<Rightarrow> (py_exn + orch_result) \<times> 'w" where
  "run_supervisor oc boss workers task rounds w =
     (case super_loop oc boss (worker_table workers) [1 ..< Suc (nat rounds)] task [] new_result w of
        (Inl x, w1) \<Rightarrow> (Inl x, w1)
      | (Inr r, w1) \<Rightarrow> (Inr (r\<lparr>or_duration := now_of oc w1 - now_of oc w\<rparr>), w1))"

end
