(* ===== verification/OrchestratorProps.thy ===== *)
theory OrchestratorProps
  imports Orchestrator RuntimeDemo "HOL-Library.Sublist"
begin

text \<open>
  Which runtimes the patterns of the orchestrator run agents on, how many runs they make, and
  how the hand-off limit of the swarm router bounds a chain.
\<close>

section \<open>The safety gateway\<close>

text \<open>Runtimes that the orchestrator itself cannot tell apart: it reads the clock, draws
  identifiers, parses replies and renders exceptions with them.\<close>

definition same_tools :: "'w runtime \<Rightarrow> 'w runtime \<Rightarrow> bool" where
  "same_tools a b \<longleftrightarrow> rt_clock a = rt_clock b \<and> rt_exn_text a = rt_exn_text b
     \<and> rt_uid a = rt_uid b \<and> rt_pl a = rt_pl b"

definition with_runtime :: "'g option \<Rightarrow> 'w runtime \<Rightarrow> ('g, 'w) orchestrator \<Rightarrow> ('g, 'w) orchestrator" where
  "with_runtime gw R oc = oc\<lparr>oc_runtime := (oc_runtime oc)(gw := R)\<rparr>"

lemma with_runtime_simps [simp]:
  "oc_gateway (with_runtime gw R oc) = oc_gateway oc"
  "oc_budget (with_runtime gw R oc) = oc_budget oc"
  "oc_nesting (with_runtime gw R oc) = oc_nesting oc"
  "oc_dumps (with_runtime gw R oc) = oc_dumps oc"
  "oc_plaza (with_runtime gw R oc) = oc_plaza oc"
  "oc_runtime (with_runtime gw R oc) = (oc_runtime oc)(gw := R)"
  by (simp_all add: with_runtime_def)

lemma run_member_other:
  "gw' \<noteq> gw \<Longrightarrow> run_member (with_runtime gw' R oc) gw g inp meta w = run_member oc gw g inp meta w"
  by (simp add: run_member_def)

lemma agent_turn_other:
  "gw' \<noteq> gw \<Longrightarrow> agent_turn (with_runtime gw' R oc) gw a inp meta extra w = agent_turn oc gw a inp meta extra w"
  by (simp add: agent_turn_def run_member_other)


lemma gated_turns:
  assumes "oc_gateway oc = Some gt"
  shows "agent_turn (with_runtime None R oc) (oc_gateway (with_runtime None R oc)) = agent_turn oc (oc_gateway oc)"
    and "run_member (with_runtime None R oc) (oc_gateway (with_runtime None R oc)) = run_member oc (oc_gateway oc)"
    and "main_runtime (with_runtime None R oc) = main_runtime oc"
    and "exn_text (with_runtime None R oc) = exn_text oc"
    and "agent_error (with_runtime None R oc) = agent_error oc"
  using assms
  by (simp_all add: fun_eq_iff agent_turn_other run_member_other exn_text_def agent_error_def)

lemma seq_gated:
  "oc_gateway oc = Some gt \<Longrightarrow> seq_loop (with_runtime None R oc) as inp r w = seq_loop oc as inp r w"
proof (induction "as" arbitrary: inp r w)
  case (Cons a as)
  show ?case
    unfolding seq_loop.simps gated_turns [OF Cons.prems] Cons.IH [OF Cons.prems] by (rule refl)
qed simp

lemma hand_gated:
  "oc_gateway oc = Some gt \<Longrightarrow>
    hand_loop (with_runtime None R oc) tid i as acc chain r sw w = hand_loop oc tid i as acc chain r sw w"
proof (induction "as" arbitrary: i acc chain r sw w)
  case (Cons a as)
  have ask: "ask_router (with_runtime None R oc) = ask_router oc"
    by (intro ext) (simp add: ask_router_def now_of_def Cons.prems)
  show ?case
    unfolding hand_loop.simps gated_turns [OF Cons.prems] ask Cons.IH [OF Cons.prems] by (rule refl)
qed simp

lemma super_gated:
  "oc_gateway oc = Some gt \<Longrightarrow>
    super_loop (with_runtime None R oc) boss tbl ns task hist r w = super_loop oc boss tbl ns task hist r w"
proof (induction ns arbitrary: task hist r w)
  case (Cons n ns)
  show ?case
    unfolding super_loop.simps gated_turns [OF Cons.prems] Cons.IH [OF Cons.prems] by (rule refl)
qed simp

lemma now_same: "same_tools (main_runtime oc) R \<Longrightarrow> oc_gateway oc = Some gt \<Longrightarrow>
    now_of (with_runtime (Some gt) R oc) = now_of oc"
  by (intro ext) (simp add: now_of_def same_tools_def)

lemma single_ungated:
  assumes "oc_gateway oc = Some gt" "same_tools (oc_runtime oc (Some gt)) R"
  shows "run_single (with_runtime (Some gt) R oc) = run_single oc"
proof (intro ext)
  fix a inp w
  have err: "exn_text (with_runtime (Some gt) R oc) = exn_text oc"
    using assms by (intro ext) (simp add: exn_text_def same_tools_def)
  show "run_single (with_runtime (Some gt) R oc) a inp w = run_single oc a inp w"
    unfolding run_single_def err by (simp add: agent_turn_other)
qed

lemma par_ungated:
  assumes "oc_gateway oc = Some gt" "same_tools (oc_runtime oc (Some gt)) R"
  shows "par_loop (with_runtime (Some gt) R oc) i as per tmpl w = par_loop oc i as per tmpl w"
  by (induction "as" arbitrary: i w) (simp_all add: single_ungated [OF assms])

lemma parallel_ungated:
  assumes "oc_gateway oc = Some gt" "same_tools (oc_runtime oc (Some gt)) R"
  shows "run_parallel (with_runtime (Some gt) R oc) agents tmpl per w = run_parallel oc agents tmpl per w"
  using assms by (simp add: run_parallel_def timed_def par_ungated now_same)

text \<open>
  C18: An orchestrator that was given a safety gateway hands it to the runtimes of the sequential,
  hand-off and supervisor patterns: they give the same results whatever a runtime without a
  gateway would do. The parallel and broadcast patterns do not hand it on: their results do
  not change when the runtime with the gateway is exchanged for another one, as long as the
  clock, the identifiers and the texts of exceptions stay the same.\<close>

theorem gateway_reaches_some_patterns:
  assumes "oc_gateway oc = Some gt" "same_tools (oc_runtime oc (Some gt)) gated"
  shows "run_sequential (with_runtime None plain oc) agents inp w = run_sequential oc agents inp w
    \<and> run_handoff (with_runtime None plain oc) agents inp sw w = run_handoff oc agents inp sw w
    \<and> run_supervisor (with_runtime None plain oc) boss agents inp rounds w
        = run_supervisor oc boss agents inp rounds w
    \<and> run_parallel (with_runtime (Some gt) gated oc) agents inp per w = run_parallel oc agents inp per w
    \<and> run_broadcast (with_runtime (Some gt) gated oc) agents inp strategy w
        = run_broadcast oc agents inp strategy w"
proof (intro conjI)
  have now: "now_of (with_runtime None plain oc) = now_of oc"
    by (intro ext) (simp add: now_of_def assms(1))
  show "run_sequential (with_runtime None plain oc) agents inp w = run_sequential oc agents inp w"
    by (simp add: run_sequential_def timed_def seq_gated [OF assms(1)] now)
  show "run_handoff (with_runtime None plain oc) agents inp sw w = run_handoff oc agents inp sw w"
    by (simp add: run_handoff_def hand_gated [OF assms(1)] now assms(1))
  show "run_supervisor (with_runtime None plain oc) boss agents inp rounds w
      = run_supervisor oc boss agents inp rounds w"
    unfolding run_supervisor_def super_gated [OF assms(1)] now by (rule refl)
  show "run_parallel (with_runtime (Some gt) gated oc) agents inp per w = run_parallel oc agents inp per w"
    by (rule parallel_ungated [OF assms])
  have "open_channel (with_runtime (Some gt) gated oc) = open_channel oc"
  proof (intro ext)
    fix agents w
    have "rt_uid (main_runtime (with_runtime (Some gt) gated oc)) = rt_uid (main_runtime oc)"
      using assms by (simp add: same_tools_def)
    then show "open_channel (with_runtime (Some gt) gated oc) agents w = open_channel oc agents w"
      by (simp add: open_channel_def Let_def split: option.split)
  qed
  moreover have "merge_outputs (with_runtime (Some gt) gated oc) = merge_outputs oc"
    by (intro ext) (simp add: merge_outputs_def)
  moreover have "now_of (with_runtime (Some gt) gated oc) = now_of oc"
    by (rule now_same) (use assms in simp_all)
  ultimately show "run_broadcast (with_runtime (Some gt) gated oc) agents inp strategy w
      = run_broadcast oc agents inp strategy w"
    by (simp add: run_broadcast_def parallel_ungated [OF assms])
qed


section \<open>Every agent is accounted for\<close>

fun entry_name :: "orch_entry \<Rightarrow> str option" where
  "entry_name (Ran who out es u d extra) = Some who"
| "entry_name (Noted d) = None"

lemma agent_turn_name: "agent_turn oc gw a inp meta extra w = (Inr (out, e), w1) \<Longrightarrow> entry_name e = Some (ac_name a)"
  by (auto simp: agent_turn_def Let_def bindE_Inr_iff split: prod.splits)

lemma result_simps [simp]:
  "or_results (add_result x r) = or_results r @ [x]" "or_errors (add_result x r) = or_errors r"
  "or_results (add_error e r) = or_results r" "or_errors (add_error e r) = or_errors r @ [e]"
  "or_results new_result = []" "or_errors new_result = []"
  by (simp_all add: add_result_def add_error_def new_result_def)

lemma seq_count:
  "length (or_results (fst (seq_loop oc as inp r w))) + length (or_errors (fst (seq_loop oc as inp r w)))
    = length (or_results r) + length (or_errors r) + length as"
  by (induction "as" arbitrary: inp r w) (simp_all split: prod.split sum.split)

lemma seq_names:
  "\<exists>ks. map entry_name (or_results (fst (seq_loop oc as inp r w)))
      = map entry_name (or_results r) @ map Some ks \<and> subseq ks (map ac_name as)"
proof (induction "as" arbitrary: inp r w)
  case Nil
  then show ?case by (intro exI [of _ "[]"]) simp
next
  case (Cons a as)
  obtain res w1 where t: "agent_turn oc (oc_gateway oc) a inp [] [] w = (res, w1)" by fastforce
  show ?case
  proof (cases res)
    case (Inl x)
    obtain ks where "map entry_name (or_results (fst (seq_loop oc as inp
          (add_error (agent_error oc (ac_name a) x) r) w1)))
        = map entry_name (or_results r) @ map Some ks" "subseq ks (map ac_name as)"
      using Cons.IH [of inp "add_error (agent_error oc (ac_name a) x) r" w1] by auto
    then show ?thesis using t Inl by (intro exI [of _ ks]) (simp add: list_emb_Cons)
  next
    case (Inr p)
    obtain out e where p: "p = (out, e)" by (cases p)
    obtain ks where "map entry_name (or_results (fst (seq_loop oc as out (add_result e r) w1)))
        = map entry_name (or_results (add_result e r)) @ map Some ks" "subseq ks (map ac_name as)"
      using Cons.IH [of out "add_result e r" w1] by auto
    then show ?thesis using t Inr p agent_turn_name [OF t [unfolded Inr p]]
      by (intro exI [of _ "ac_name a # ks"]) simp
  qed
qed

lemma par_names: "map entry_name (fst (par_loop oc i as per tmpl w)) = map (\<lambda>a. Some (ac_name a)) as"
proof (induction "as" arbitrary: i w)
  case (Cons a as)
  have "entry_name (fst (run_single oc a inp w)) = Some (ac_name a)" for inp
    by (auto simp: run_single_def split: prod.split sum.split dest: agent_turn_name)
  then show ?case using Cons by (simp add: split_beta Let_def)
qed simp

lemma entry_error_short: "length (concat (map entry_error es)) \<le> length es"
proof (induction es)
  case (Cons e es)
  have "length (entry_error e) \<le> 1" by (cases e) (simp_all add: Let_def)
  then show ?case using Cons by simp
qed simp

text \<open>
  No agent is lost. A sequential run gives, for every agent, either a result or an error, and
  the results are in the order of the agents; a parallel run gives exactly one result per
  agent, in the order of the agents, failed ones included.\<close>

theorem agents_accounted:
  "length (or_results (fst (run_sequential oc agents inp w)))
      + length (or_errors (fst (run_sequential oc agents inp w))) = length agents
    \<and> (\<exists>ks. map entry_name (or_results (fst (run_sequential oc agents inp w))) = map Some ks
         \<and> subseq ks (map ac_name agents))
    \<and> map entry_name (or_results (fst (run_parallel oc agents tmpl per w))) = map (\<lambda>a. Some (ac_name a)) agents
    \<and> length (or_errors (fst (run_parallel oc agents tmpl per w))) \<le> length agents"
proof (intro conjI)
  show "length (or_results (fst (run_sequential oc agents inp w)))
      + length (or_errors (fst (run_sequential oc agents inp w))) = length agents"
    using seq_count [of oc agents inp new_result w] by (simp add: run_sequential_def timed_def)
  show "\<exists>ks. map entry_name (or_results (fst (run_sequential oc agents inp w))) = map Some ks
         \<and> subseq ks (map ac_name agents)"
    using seq_names [of oc agents inp new_result w] by (simp add: run_sequential_def timed_def)
  obtain es w1 where p: "par_loop oc 0 agents per tmpl w = (es, w1)" by fastforce
  have names: "map entry_name es = map (\<lambda>a. Some (ac_name a)) agents"
    using par_names [of oc 0 agents per tmpl w] p by simp
  show "map entry_name (or_results (fst (run_parallel oc agents tmpl per w))) = map (\<lambda>a. Some (ac_name a)) agents"
    using p names by (simp add: run_parallel_def timed_def)
  have "length es = length agents" using names by (metis length_map)
  then show "length (or_errors (fst (run_parallel oc agents tmpl per w))) \<le> length agents"
    using p entry_error_short [of es] by (simp add: run_parallel_def timed_def)
qed

section \<open>Bounds\<close>

definition closing_note :: "orch_entry \<Rightarrow> bool" where
  "closing_note e \<longleftrightarrow> (\<exists>d. e = Noted d \<and> map_of d ''action'' \<in> {Some (JStr ''completed''), Some (JStr ''timeout'')})"

lemma super_bound:
  "super_loop oc boss tbl ns task hist r w = (Inr r', w') \<Longrightarrow>
    \<exists>es x. or_results r' = or_results r @ es @ [x] \<and> closing_note x
      \<and> (\<forall>e \<in> set es. \<exists>k a. (k, a) \<in> set tbl \<and> entry_name e = Some (ac_name a))
      \<and> length es + (length (or_errors r') - length (or_errors r)) \<le> length ns
      \<and> length (or_errors r) \<le> length (or_errors r')"
proof (induction ns arbitrary: task hist r w)
  case Nil
  then show ?case by (auto simp: closing_note_def)
next
  case (Cons n ns)
  obtain q w1 where run: "run_member oc (oc_gateway oc) (ac_graph boss) (route_prompt tbl task hist)
      [(''agent_name'', JStr (ac_name boss)), (''round'', JInt (int n))] w = (q, w1)" by fastforce
  obtain es c where q: "q = Inr (es, c)" using Cons.prems run by (cases q) auto
  define d where "d = parse_route (rt_pl (main_runtime oc)) (final_output es c)"
  show ?case
  proof (cases "route_done d")
    case True
    then show ?thesis using Cons.prems run q by (auto simp: d_def Let_def closing_note_def)
  next
    case False
    obtain a where a: "pick_worker tbl (jget d ''worker'' (JStr '''')) = Inr a"
      using Cons.prems run q False by (auto simp: d_def [symmetric] Let_def split: sum.splits)
    have mem: "\<exists>k. (k, a) \<in> set tbl"
      using a by (auto simp: pick_worker_def split: if_splits option.splits json.splits list.splits
          dest: map_of_SomeD intro: exI [of _ "fst (hd tbl)"])
    obtain t w2 where t: "agent_turn oc (oc_gateway oc) a (text_field (jget d ''instruction'' (JStr task)))
        [(''supervisor_round'', JInt (int n))]
        [(''phase'', JStr (phase_name n)), (''routed_by'', JStr (ac_name boss))] w1 = (t, w2)" by fastforce
    show ?thesis
    proof (cases t)
      case (Inl x)
      then have "super_loop oc boss tbl ns task (hist @ [(ac_name a, ''error: '' @ exn_text oc x)])
          (add_error (ac_name a @ '' (round '' @ str_of_nat n @ ''): '' @ exn_text oc x) r) w2 = (Inr r', w')"
        using Cons.prems run q False a t by (simp add: d_def [symmetric] Let_def)
      from Cons.IH [OF this] show ?thesis by (auto simp: Suc_le_eq)
    next
      case (Inr p)
      obtain out e where p: "p = (out, e)" by (cases p)
      have "super_loop oc boss tbl ns out (hist @ [(ac_name a, ''completed'')]) (add_result e r) w2
          = (Inr r', w')"
        using Cons.prems run q False a t Inr p by (simp add: d_def [symmetric] Let_def)
      from Cons.IH [OF this] obtain es' x where ih: "or_results r' = or_results r @ e # es' @ [x]"
          "closing_note x" "\<forall>e \<in> set es'. \<exists>k a. (k, a) \<in> set tbl \<and> entry_name e = Some (ac_name a)"
          "length es' + (length (or_errors r') - length (or_errors r)) \<le> length ns"
          "length (or_errors r) \<le> length (or_errors r')"
        by auto
      have "entry_name e = Some (ac_name a)" by (rule agent_turn_name [OF t [unfolded Inr p]])
      then show ?thesis using ih mem by (intro exI [of _ "e # es'"] exI [of _ x]) auto
    qed
  qed
qed


lemma worker_table_mem: "(k, a) \<in> set (worker_table ws) \<Longrightarrow> a \<in> set ws"
proof -
  have upd: "set (AList.update k v d) \<subseteq> insert (k, v) (set d)" for k and v :: agent_config and d
    by (induction d) auto
  have "(k, a) \<in> set (fold (\<lambda>a. AList.update (ac_name a) a) ws d) \<Longrightarrow> a \<in> set ws \<or> (k, a) \<in> set d" for d
  proof (induction ws arbitrary: d)
    case (Cons b ws)
    then show ?case using upd [of "ac_name b" b d] by fastforce
  qed simp
  from this [of "[]"] show "(k, a) \<in> set (worker_table ws) \<Longrightarrow> a \<in> set ws"
    by (simp add: worker_table_def)
qed

text \<open>
  A supervisor that returns has made at most \<open>max_rounds\<close> worker runs, failed ones included,
  each by one of its workers, and its last result says whether it finished or ran out of
  rounds. It may raise, when its own run raises or when it has no workers.\<close>

theorem supervisor_bounded:
  "case fst (run_supervisor oc boss workers task rounds w) of
     Inl x \<Rightarrow> True
   | Inr r \<Rightarrow> (\<exists>es x. or_results r = es @ [x] \<and> closing_note x
       \<and> length es + length (or_errors r) \<le> nat rounds
       \<and> set (map entry_name es) \<subseteq> Some ` ac_name ` set workers)"
proof -
  let ?s = "super_loop oc boss (worker_table workers) [1 ..< Suc (nat rounds)] task [] new_result w"
  obtain q w1 where q: "?s = (q, w1)" by fastforce
  show ?thesis
  proof (cases q)
    case (Inl x)
    then show ?thesis using q unfolding run_supervisor_def by simp
  next
    case (Inr r)
    obtain es x where *: "or_results r = es @ [x]" "closing_note x"
        "\<forall>e \<in> set es. \<exists>k a. (k, a) \<in> set (worker_table workers) \<and> entry_name e = Some (ac_name a)"
        "length es + length (or_errors r) \<le> nat rounds"
      using super_bound [OF q [unfolded Inr]] by (auto simp del: upt_Suc)
    have "set (map entry_name es) \<subseteq> Some ` ac_name ` set workers"
      using *(3) worker_table_mem [of _ _ workers] by fastforce
    then show ?thesis using q Inr * unfolding run_supervisor_def by auto
  qed
qed

lemma ensure_agent_max [simp]: "sw_max_hops (ensure_agent fr nm s) = sw_max_hops s"
  by (simp add: ensure_agent_def swarm_register_def persist_agent_def)

lemma ask_router_bound:
  assumes "ask_router oc tid i a b content s w = (ok, s', w')"
  shows "sw_max_hops s' = sw_max_hops s" and "ok \<Longrightarrow> int i + 1 \<le> sw_max_hops s"
proof -
  obtain u1 w1 where u: "rt_uid (main_runtime oc) w = (u1, w1)" by fastforce
  let ?ctx = "\<lparr>hc_conversation = [[(''role'', JStr a), (''content'', JStr content)]],
             hc_metadata = [], hc_hops = int i, hc_task = tid\<rparr>"
  let ?s = "ensure_agent u1 b (ensure_agent u1 a s)"
  obtain r s1 where h: "handoff u1 (now_of oc w1) a b ?ctx ?s = (r, s1)" by fastforce
  have s': "s' = s1" "ok = (r \<noteq> None)"
    using assms u h by (simp_all add: ask_router_def)
  show "sw_max_hops s' = sw_max_hops s"
    using handoff_frame(3) [of u1 "now_of oc w1" a b ?ctx ?s] h s' by simp
  show "int i + 1 \<le> sw_max_hops s" if passed: ok
  proof -
    obtain c where "r = Some c" using passed s' by (cases r) auto
    then show ?thesis using handoff_SomeD [OF h [unfolded \<open>r = Some c\<close>]] by simp
  qed
qed

lemma mark_blocked_length [simp]: "length (mark_blocked es) = length es"
  by (induction es rule: mark_blocked.induct) simp_all

text \<open>Every agent that is run adds a result or an error.\<close>

abbreviation agents_run :: "orch_result \<Rightarrow> nat" where
  "agents_run r \<equiv> length (or_results r) + length (or_errors r)"

lemma hand_bound:
  "agents_run (fst (hand_loop oc tid i as acc chain r (Some s) w))
    \<le> agents_run r + Suc (nat (sw_max_hops s - int i))"
proof (induction "as" arbitrary: i acc chain r s w)
  case (Cons a as)
  obtain t w1 where t: "agent_turn oc (oc_gateway oc) a
      (if chain = [] then acc else acc @ line_end @ line_end @ handoff_history chain)
      [(''handoff_index'', JInt (int i))]
      [(''handoff_to'', JStr (case as of [] \<Rightarrow> ''__end__'' | b # bs \<Rightarrow> ac_name b))] w = (t, w1)" by fastforce
  show ?case
  proof (cases t)
    case (Inl x)
    then show ?thesis using t by (simp add: Let_def)
  next
    case (Inr p)
    obtain out e where p: "p = (out, e)" by (cases p)
    show ?thesis
    proof (cases "as")
      case Nil
      then show ?thesis using t Inr p by (simp add: Let_def)
    next
      case (Cons b bs)
      obtain ok s1 w2 where ask: "ask_router oc tid i (ac_name a) (ac_name b) out s w1 = (ok, s1, w2)"
        by (metis prod_cases3)
      note ab = ask_router_bound [OF ask]
      show ?thesis
      proof (cases "ok \<and> \<not> handoff_complete out")
        case False
        then show ?thesis using t Inr p ask Cons by (auto simp: Let_def)
      next
        case True
        let ?chain = "chain @ [\<lparr>hn_sender = ac_name a, hn_receiver = ac_name b, hn_content = out\<rparr>]"
        have eq: "hand_loop oc tid i (a # as) acc chain r (Some s) w
            = hand_loop oc tid (i + 1) as out ?chain (add_result e r) (Some s1) w2"
          using t Inr p ask Cons True by (subst hand_loop.simps) (simp add: Let_def)
        have "Suc (nat (sw_max_hops s1 - int (i + 1))) = nat (sw_max_hops s - int i)"
          using ab True by simp
        then show ?thesis
          unfolding eq using Cons.IH [of "i + 1" out ?chain "add_result e r" s1 w2] by simp
      qed
    qed
  qed
qed simp

lemma hand_errors:
  "length (or_errors (fst (hand_loop oc tid i as acc chain r sw w))) \<le> length (or_errors r) + 1"
proof (induction "as" arbitrary: i acc chain r sw w)
  case (Cons a as)
  let ?receiver = "case as of [] \<Rightarrow> ''__end__'' | b # bs \<Rightarrow> ac_name b"
  obtain t w1 where t: "agent_turn oc (oc_gateway oc) a
      (if chain = [] then acc else acc @ line_end @ line_end @ handoff_history chain)
      [(''handoff_index'', JInt (int i))] [(''handoff_to'', JStr ?receiver)] w = (t, w1)" by fastforce
  show ?case
  proof (cases t)
    case (Inl x)
    then show ?thesis using t by (simp add: Let_def)
  next
    case (Inr p)
    obtain out e where p: "p = (out, e)" by (cases p)
    obtain pass sw1 w2 where ask: "(case (sw, as) of
          (Some s, b # bs) \<Rightarrow>
            (let (ok, s1, w') = ask_router oc tid i (ac_name a) (ac_name b) out s w1 in (ok, Some s1, w'))
        | _ \<Rightarrow> (True, sw, w1)) = (pass, sw1, w2)" by (metis prod_cases3)
    show ?thesis
      unfolding hand_loop.simps Let_def t Inr p sum.case prod.case ask [unfolded Let_def prod.case]
      using Cons.IH [of "i + 1" out _ "add_result e r" sw1 w2] by simp
  qed
qed simp

text \<open>
  C33: With a swarm router, a hand-off chain runs at most one agent more than the router's limit of
  hops, however many agents it names: every agent that is run leaves a result or, if it fails,
  an error, there are at most that many of both together, and the chain stops at the first
  agent that fails.\<close>

theorem handoff_runs_bounded:
  "length (or_results (fst (run_handoff oc agents inp (Some s) w)))
      + length (or_errors (fst (run_handoff oc agents inp (Some s) w))) \<le> nat (sw_max_hops s) + 1
    \<and> length (or_errors (fst (run_handoff oc agents inp (Some s) w))) \<le> 1"
proof -
  obtain uid w1 where u: "rt_uid (main_runtime oc) w = (uid, w1)" by fastforce
  show ?thesis
    using hand_bound [of oc "''handoff_'' @ take 8 uid" 0 agents inp "[]" new_result s w1]
      hand_errors [of oc "''handoff_'' @ take 8 uid" 0 agents inp "[]" new_result "Some s" w1] u
    by (simp add: run_handoff_def case_prod_beta)
qed

text \<open>
  A reply of the supervisor that cannot be parsed is no end, names no worker and has an empty
  instruction: the first worker is run on the empty input instead of the current task.
\<close>

lemma unparsed_decision:
  "\<not> route_done unparsed_route"
  "map_of tbl '''' = None \<Longrightarrow> tbl \<noteq> [] \<Longrightarrow>
    pick_worker tbl (jget unparsed_route ''worker'' (JStr '''')) = Inr (snd (hd tbl))"
  "text_field (jget unparsed_route ''instruction'' (JStr task)) = ''''"
  by (simp_all add: route_done_def unparsed_route_def pick_worker_def text_field_def
      split: list.split)


section \<open>A concrete orchestrator\<close>

definition demo_team :: "(unit, str list) orchestrator" where
  "demo_team = \<lparr>oc_runtime = (\<lambda>gw. demo_engine (if gw = None then [] else [''rm''])), oc_budget = None,
     oc_gateway = Some (), oc_nesting = 20, oc_dumps = (\<lambda>_. ''''), oc_plaza = None,
     oc_max_concurrent = 5, oc_max_depth = 10\<rparr>"

definition demo_member :: agent_config where
  "demo_member = \<lparr>ac_name = ''m'', ac_graph = demo_agent, ac_system_prompt = '''', ac_model = ''''\<rparr>"

theorem gateway_reaches_some_patterns_witness:
  "run_sequential (with_runtime None (demo_engine [''file_read'']) demo_team) [demo_member] ''x'' []
      = run_sequential demo_team [demo_member] ''x'' []
   \<and> run_parallel (with_runtime (Some ()) (demo_engine []) demo_team) [demo_member] ''x'' None []
      = run_parallel demo_team [demo_member] ''x'' None []"
proof -
  have "oc_gateway demo_team = Some ()" by (simp add: demo_team_def)
  moreover have "same_tools (oc_runtime demo_team (Some ())) (demo_engine [])"
    by (simp add: demo_team_def same_tools_def demo_engine_def)
  ultimately show ?thesis by (blast dest: gateway_reaches_some_patterns)
qed

end
