(* ===== verification/Mailbox.thy ===== *)
theory Mailbox
  imports PyValues "HOL-Library.List_Lexorder"
begin

text \<open>
  The durable roster and mailbox of a team (\<open>agent_runtime/durable_roster.py\<close>) and the
  consumer that turns unread mail of autonomous agents into runs
  (\<open>agent_runtime/inbox_consumer.py\<close>). The tables are in insertion order and SQLite's sorts
  keep that order among equal keys. Clock readings and fresh identifiers are arguments; the
  submission of a run and the lookup of its state act on an arbitrary world. Waking other
  daemons and the migration of old databases are left out.
\<close>

section \<open>The roster\<close>

record roster_row =
  ro_agent :: str
  ro_name :: str
  ro_team :: str
  ro_caps :: str
  ro_status :: str
  ro_graph :: str
  ro_auto :: bool
  ro_updated :: pyfloat

record mail =
  ml_id :: str
  ml_sender :: str
  ml_recipient :: str
  ml_team :: str
  ml_kind :: str
  ml_body :: str
  ml_created :: pyfloat
  ml_acked :: pyfloat

record team_db =
  tm_roster :: "(str, roster_row) dict"
  tm_mail :: "mail list"

definition row_caps :: "roster_row \<Rightarrow> str list" where
  "row_caps r = filter (\<lambda>c. c \<noteq> []) (split_on (CHR 0x2C) (ro_caps r))"

definition roster_get :: "str \<Rightarrow> team_db \<Rightarrow> roster_row option" where
  "roster_get aid db = map_of (tm_roster db) aid"

definition roster_register ::
    "pyfloat \<Rightarrow> str \<Rightarrow> str \<Rightarrow> str \<Rightarrow> str list \<Rightarrow> str \<Rightarrow> str \<Rightarrow> bool \<Rightarrow> team_db
      \<Rightarrow> (py_exn + roster_row) \<times> team_db" where
  "roster_register now raw_id nm team caps status graph auto db =
     (let aid = py_strip raw_id in
      if aid = [] then (Inl ValueError, db)
      else let r = \<lparr>ro_agent = aid, ro_name = (if nm = [] then aid else nm), ro_team = team,
                  ro_caps = py_join '','' caps, ro_status = status, ro_graph = graph, ro_auto = auto,
                  ro_updated = now\<rparr>
           in (Inr r, db\<lparr>tm_roster := AList.update aid r (tm_roster db)\<rparr>))"

definition roster_list :: "str \<Rightarrow> team_db \<Rightarrow> roster_row list" where
  "roster_list team db = sort_key (\<lambda>r. - ro_updated r)
     (filter (\<lambda>r. team = [] \<or> ro_team r = team) (map snd (tm_roster db)))"

definition roster_set_status :: "pyfloat \<Rightarrow> str \<Rightarrow> str \<Rightarrow> team_db \<Rightarrow> bool \<times> team_db" where
  "roster_set_status now aid status db =
     (case map_of (tm_roster db) aid of
        None \<Rightarrow> (False, db)
      | Some r \<Rightarrow> (True, db\<lparr>tm_roster :=
          AList.update aid (r\<lparr>ro_status := status, ro_updated := now\<rparr>) (tm_roster db)\<rparr>))"

definition roster_remove :: "str \<Rightarrow> team_db \<Rightarrow> bool \<times> team_db" where
  "roster_remove aid db =
     (map_of (tm_roster db) aid \<noteq> None, db\<lparr>tm_roster := AList.delete aid (tm_roster db)\<rparr>)"

section \<open>The mailbox\<close>

definition body_cap :: nat where
  "body_cap = 20000"

definition mail_send ::
    "pyfloat \<Rightarrow> str \<Rightarrow> str \<Rightarrow> str \<Rightarrow> str \<Rightarrow> str \<Rightarrow> str \<Rightarrow> team_db \<Rightarrow> (py_exn + mail) \<times> team_db" where
  "mail_send now mid sender recipient body kind team db =
     (if sender = [] \<or> recipient = [] then (Inl ValueError, db)
      else let m = \<lparr>ml_id = mid, ml_sender = sender, ml_recipient = recipient, ml_team = team,
                  ml_kind = kind, ml_body = body, ml_created = now, ml_acked = 0\<rparr>
           in (Inr m, db\<lparr>tm_mail := tm_mail db @ [m\<lparr>ml_body := take body_cap body\<rparr>]\<rparr>))"

text \<open>One message per target, each with an identifier and a clock reading of its own.\<close>

fun send_each ::
    "(pyfloat \<times> str) list \<Rightarrow> str \<Rightarrow> str list \<Rightarrow> str \<Rightarrow> str \<Rightarrow> str \<Rightarrow> team_db
      \<Rightarrow> (py_exn + mail list) \<times> team_db" where
  "send_each ids sender (r # rs) body kind team db =
     (case ids of
        [] \<Rightarrow> (Inr [], db)
      | (now, mid) # ids' \<Rightarrow>
         (case mail_send now mid sender r body kind team db of
            (Inl x, db1) \<Rightarrow> (Inl x, db1)
          | (Inr m, db1) \<Rightarrow>
             (case send_each ids' sender rs body kind team db1 of
                (Inl x, db2) \<Rightarrow> (Inl x, db2)
              | (Inr ms, db2) \<Rightarrow> (Inr (m # ms), db2))))"
| "send_each ids sender [] body kind team db = (Inr [], db)"

definition mail_targets :: "str \<Rightarrow> str \<Rightarrow> team_db \<Rightarrow> str list" where
  "mail_targets sender team db = filter (\<lambda>a. a \<noteq> sender) (map ro_agent (roster_list team db))"

definition mail_broadcast ::
    "(pyfloat \<times> str) list \<Rightarrow> str \<Rightarrow> str \<Rightarrow> str \<Rightarrow> str \<Rightarrow> team_db \<Rightarrow> (py_exn + mail list) \<times> team_db" where
  "mail_broadcast ids sender team body kind db =
     send_each ids sender (mail_targets sender team db) body kind team db"

text \<open>\<open>LIMIT n\<close>: a negative number is no limit.\<close>

definition sql_limit :: "int \<Rightarrow> 'a list \<Rightarrow> 'a list" where
  "sql_limit n xs = (if n < 0 then xs else take (nat n) xs)"

definition mail_inbox :: "str \<Rightarrow> bool \<Rightarrow> int \<Rightarrow> team_db \<Rightarrow> mail list" where
  "mail_inbox recipient unread lmt db = sql_limit lmt (sort_key ml_created
     (filter (\<lambda>m. ml_recipient m = recipient \<and> (unread \<longrightarrow> ml_acked m = 0)) (tm_mail db)))"

definition mail_ack :: "pyfloat \<Rightarrow> str \<Rightarrow> str \<Rightarrow> team_db \<Rightarrow> bool \<times> team_db" where
  "mail_ack now recipient mid db =
     (let hit = (\<lambda>m. ml_id m = mid \<and> ml_recipient m = recipient)
      in (\<exists>m \<in> set (tm_mail db). hit m,
          db\<lparr>tm_mail := map (\<lambda>m. if hit m then m\<lparr>ml_acked := now\<rparr> else m) (tm_mail db)\<rparr>))"

definition mail_stats :: "team_db \<Rightarrow> nat \<times> nat" where
  "mail_stats db = (length (tm_mail db), length (filter (\<lambda>m. ml_acked m = 0) (tm_mail db)))"

section \<open>The consumer\<close>

record reply_info =
  rp_agent :: str
  rp_sender :: str
  rp_message :: str
  rp_team :: str

text \<open>
  Submitting a run gives its identifier, or raises (None). Looking a run up may raise (the
  outer None), and the run may be unknown (the inner None).
\<close>

record 'w inbox_env =
  ie_clock :: "'w \<Rightarrow> pyfloat"
  ie_uid :: "'w \<Rightarrow> str \<times> 'w"
  ie_submit :: "roster_row \<Rightarrow> mail \<Rightarrow> 'w \<Rightarrow> str option \<times> 'w"
  ie_run :: "str \<Rightarrow> 'w \<Rightarrow> jobj option option"
  ie_lib :: pylib

record 'w consumer =
  ic_db :: team_db
  ic_pending :: "(str, reply_info) dict"
  ic_processed :: nat
  ic_replies :: nat
  ic_errors :: nat
  ic_depth :: nat
  ic_latency :: pyfloat
  ic_agents :: "(str, nat \<times> nat) dict"
  ic_world :: 'w

text \<open>Dispatched messages and replies per agent; the third counter of the code is never raised.\<close>

definition bump :: "str \<Rightarrow> nat \<Rightarrow> nat \<Rightarrow> (str, nat \<times> nat) dict \<Rightarrow> (str, nat \<times> nat) dict" where
  "bump aid p r d = (let (a, b) = dict_get d aid (0, 0) in AList.update aid (a + p, b + r) d)"

definition dispatch_mail :: "'w inbox_env \<Rightarrow> roster_row \<Rightarrow> mail \<Rightarrow> 'w consumer \<Rightarrow> 'w consumer" where
  "dispatch_mail env a m c =
     (case ie_submit env a m (ic_world c) of
        (None, w) \<Rightarrow> c\<lparr>ic_errors := ic_errors c + 1, ic_world := w\<rparr>
      | (Some rid, w) \<Rightarrow> c\<lparr>
          ic_latency := (ie_clock env w - ie_clock env (ic_world c)) * 1000,
          ic_agents := bump (ro_agent a) 1 0 (ic_agents c),
          ic_processed := ic_processed c + 1,
          ic_db := snd (mail_ack (ie_clock env w) (ro_agent a) (ml_id m) (ic_db c)),
          ic_pending := (if ml_sender m = [] then ic_pending c
            else AList.update rid \<lparr>rp_agent = ro_agent a, rp_sender = ml_sender m,
                   rp_message = ml_id m, rp_team = ml_team m\<rparr> (ic_pending c)),
          ic_world := w\<rparr>)"

definition inbox_limit :: int where
  "inbox_limit = 100"

definition dispatch_agent :: "'w inbox_env \<Rightarrow> roster_row \<Rightarrow> nat \<times> 'w consumer \<Rightarrow> nat \<times> 'w consumer" where
  "dispatch_agent env a p =
     (if \<not> ro_auto a \<or> ro_graph a = [] then p
      else let ms = mail_inbox (ro_agent a) True inbox_limit (ic_db (snd p))
           in (fst p + length ms, fold (dispatch_mail env a) ms (snd p)))"

definition dispatch_new :: "'w inbox_env \<Rightarrow> 'w consumer \<Rightarrow> 'w consumer" where
  "dispatch_new env c =
     (let (depth, c1) = fold (dispatch_agent env) (roster_list [] (ic_db c)) (0, c)
      in c1\<lparr>ic_depth := depth\<rparr>)"

definition first_truthy :: "json list \<Rightarrow> json" where
  "first_truthy vs = (case filter truthy vs of [] \<Rightarrow> JStr '''' | v # _ \<Rightarrow> v)"

definition result_text :: "pylib \<Rightarrow> json \<Rightarrow> str" where
  "result_text pl v =
     (case v of
        JObj d \<Rightarrow> py_str pl (first_truthy [jget d ''output'' JNull, jget d ''result'' JNull, jget d ''summary'' JNull])
      | _ \<Rightarrow> '''')"

definition long_dash :: str where
  "long_dash = [CHR 0xE2, CHR 0x80, CHR 0x94]"

definition reply_body :: "pylib \<Rightarrow> jobj \<Rightarrow> reply_info \<Rightarrow> str" where
  "reply_body pl run info =
     (let status = py_str pl (jget run ''status'' (JStr '''')) in
      if status = ''completed'' then
        (let text = result_text pl (jget run ''last_result'' JNull) in
         if py_strip text \<noteq> [] then take body_cap text
         else ''[autonomous run completed '' @ long_dash @ '' no textual output] run_id='' @ rp_message info)
      else take body_cap (py_strip (''[autonomous run '' @ status @ ''] ''
             @ py_str pl (jget run ''last_error'' (JStr '''')))))"

definition run_statuses :: "str list" where
  "run_statuses = [''completed'', ''failed'', ''canceled'']"

text \<open>Neither name of a pending reply is empty, so \<open>send\<close> does not raise here.\<close>

definition post_reply :: "'w inbox_env \<Rightarrow> str \<times> reply_info \<Rightarrow> 'w consumer \<Rightarrow> 'w consumer" where
  "post_reply env p c =
     (case ie_run env (fst p) (ic_world c) of
        Some (Some run) \<Rightarrow>
          if py_str (ie_lib env) (jget run ''status'' (JStr '''')) \<notin> set run_statuses then c
          else let info = snd p; (mid, w) = ie_uid env (ic_world c)
               in c\<lparr>ic_db := snd (mail_send (ie_clock env w) mid (rp_agent info) (rp_sender info)
                        (reply_body (ie_lib env) run info) ''reply'' (rp_team info) (ic_db c)),
                    ic_agents := bump (rp_agent info) 0 1 (ic_agents c),
                    ic_replies := ic_replies c + 1,
                    ic_pending := AList.delete (fst p) (ic_pending c),
                    ic_world := w\<rparr>
      | _ \<Rightarrow> c)"

definition post_replies :: "'w inbox_env \<Rightarrow> 'w consumer \<Rightarrow> 'w consumer" where
  "post_replies env c = fold (post_reply env) (ic_pending c) c"

definition consumer_tick :: "'w inbox_env \<Rightarrow> 'w consumer \<Rightarrow> 'w consumer" where
  "consumer_tick env c = post_replies env (dispatch_new env c)"

text \<open>\<open>final_assistant_text\<close>, the answer of a run that the daemon writes back.\<close>

fun answer_scan :: "json list \<Rightarrow> str" where
  "answer_scan [] = ''''"
| "answer_scan (JObj m # ms) =
     (if map_of m ''role'' = Some (JStr ''assistant'') then
        (case map_of m ''content'' of
           Some (JStr t) \<Rightarrow> if py_strip t \<noteq> [] then take body_cap (py_strip t) else answer_scan ms
         | _ \<Rightarrow> answer_scan ms)
      else answer_scan ms)"
| "answer_scan (_ # ms) = answer_scan ms"

definition final_assistant_text :: "json list \<Rightarrow> str" where
  "final_assistant_text ms = answer_scan (rev ms)"

end
