(* ===== verification/MailboxProps.thy ===== *)
theory MailboxProps
  imports Mailbox
begin

text \<open>
  What the mailbox and its consumer guarantee: whom a broadcast reaches, that mail is
  acknowledged only after its run was submitted, that mail of people is left alone, and that
  two autonomous agents answer each other for ever.
\<close>

section \<open>Broadcasts\<close>

lemma send_each_all:
  assumes "sender \<noteq> []" "[] \<notin> set rs" "length rs \<le> length ids"
  shows "\<exists>ms. send_each ids sender rs body kind team db
      = (Inr ms, db\<lparr>tm_mail := tm_mail db @ map (\<lambda>m. m\<lparr>ml_body := take body_cap body\<rparr>) ms\<rparr>)
    \<and> map ml_recipient ms = rs
    \<and> (\<forall>m \<in> set ms. ml_sender m = sender \<and> ml_kind m = kind \<and> ml_team m = team \<and> ml_acked m = 0)"
  using assms
proof (induction rs arbitrary: ids db)
  case Nil
  then show ?case by (intro exI [of _ "[]"]) simp
next
  case (Cons r rs)
  then obtain now mid ids' where ids: "ids = (now, mid) # ids'" by (cases ids) auto
  let ?m = "\<lparr>ml_id = mid, ml_sender = sender, ml_recipient = r, ml_team = team, ml_kind = kind,
    ml_body = body, ml_created = now, ml_acked = 0\<rparr>"
  have sent: "mail_send now mid sender r body kind team db
      = (Inr ?m, db\<lparr>tm_mail := tm_mail db @ [?m\<lparr>ml_body := take body_cap body\<rparr>]\<rparr>)"
    using Cons.prems by (auto simp: mail_send_def Let_def)
  obtain ms where ms: "send_each ids' sender rs body kind team
        (db\<lparr>tm_mail := tm_mail db @ [?m\<lparr>ml_body := take body_cap body\<rparr>]\<rparr>)
      = (Inr ms, db\<lparr>tm_mail := tm_mail db @ map (\<lambda>m. m\<lparr>ml_body := take body_cap body\<rparr>) (?m # ms)\<rparr>)"
      "map ml_recipient ms = rs"
      "\<forall>m \<in> set ms. ml_sender m = sender \<and> ml_kind m = kind \<and> ml_team m = team \<and> ml_acked m = 0"
    using Cons.IH [of ids' "db\<lparr>tm_mail := tm_mail db @ [?m\<lparr>ml_body := take body_cap body\<rparr>]\<rparr>"]
      Cons.prems ids by auto
  show ?case
    using sent ms by (intro exI [of _ "?m # ms"]) (simp add: ids)
qed

text \<open>
  A broadcast puts exactly one unread message into the mailbox of every member of the team
  other than the sender, in the order of the roster, and nothing else; an empty team name
  means every agent of the roster.\<close>

theorem broadcast_reaches_team:
  assumes "sender \<noteq> ''''" "\<forall>r \<in> set (roster_list team db). ro_agent r \<noteq> ''''"
    and "length (mail_targets sender team db) \<le> length ids"
  shows "\<exists>ms. mail_broadcast ids sender team body kind db
      = (Inr ms, db\<lparr>tm_mail := tm_mail db @ map (\<lambda>m. m\<lparr>ml_body := take 20000 body\<rparr>) ms\<rparr>)
    \<and> map ml_recipient ms = filter (\<lambda>a. a \<noteq> sender) (map ro_agent (roster_list team db))
    \<and> (\<forall>m \<in> set ms. ml_sender m = sender \<and> ml_acked m = 0)"
proof -
  have "[] \<notin> set (mail_targets sender team db)" using assms(2) by (auto simp: mail_targets_def)
  from send_each_all [OF _ this assms(3), of sender body kind team db] assms(1) show ?thesis
    by (auto simp: mail_broadcast_def mail_targets_def body_cap_def)
qed

section \<open>What a tick does to the mail\<close>

definition bound_agent :: "team_db \<Rightarrow> str \<Rightarrow> bool" where
  "bound_agent db aid \<longleftrightarrow> (\<exists>r \<in> set (roster_list [] db). ro_agent r = aid \<and> ro_auto r \<and> ro_graph r \<noteq> [])"

text \<open>A message was submitted as a run for its recipient, unread.\<close>

definition submitted :: "'w inbox_env \<Rightarrow> mail \<Rightarrow> bool" where
  "submitted env m \<longleftrightarrow> (\<exists>a m0 w rid w'. ml_id m0 = ml_id m \<and> ml_recipient m0 = ml_recipient m
     \<and> ml_acked m0 = 0 \<and> ro_agent a = ml_recipient m \<and> ie_submit env a m0 w = (Some rid, w'))"

definition may_ack :: "'w inbox_env \<Rightarrow> (str \<Rightarrow> bool) \<Rightarrow> mail \<Rightarrow> mail \<Rightarrow> bool" where
  "may_ack env B m m' \<longleftrightarrow> m' = m \<or>
     B (ml_recipient m) \<and> submitted env m \<and> (\<exists>t. m' = m\<lparr>ml_acked := t\<rparr>)"

lemma may_ack_refl: "list_all2 (may_ack env B) ms ms"
  by (simp add: list_all2_same may_ack_def)

lemma submitted_acked [simp]: "submitted env (m\<lparr>ml_acked := t\<rparr>) = submitted env m"
  by (simp add: submitted_def)

lemma may_ack_trans: "may_ack env B a b \<Longrightarrow> may_ack env B b c \<Longrightarrow> may_ack env B a c"
  by (auto simp: may_ack_def)

lemma may_ack_all_trans:
  "list_all2 (may_ack env B) xs ys \<Longrightarrow> list_all2 (may_ack env B) ys zs \<Longrightarrow> list_all2 (may_ack env B) xs zs"
  by (rule list_all2_trans [OF may_ack_trans])

lemma dispatch_mail_acks:
  assumes "B (ro_agent a)" "ml_recipient m = ro_agent a" "ml_acked m = 0"
  shows "list_all2 (may_ack env B) (tm_mail (ic_db c)) (tm_mail (ic_db (dispatch_mail env a m c)))
    \<and> tm_roster (ic_db (dispatch_mail env a m c)) = tm_roster (ic_db c)"
proof -
  obtain r w where s: "ie_submit env a m (ic_world c) = (r, w)" by fastforce
  show ?thesis
  proof (cases r)
    case None
    then show ?thesis using s by (simp add: dispatch_mail_def may_ack_refl)
  next
    case (Some rid)
    have "may_ack env B x (if ml_id x = ml_id m \<and> ml_recipient x = ro_agent a
        then x\<lparr>ml_acked := t\<rparr> else x)" for x t
      using assms s Some by (force simp: may_ack_def submitted_def)
    then show ?thesis
      using s Some by (simp add: dispatch_mail_def mail_ack_def Let_def list_all2_map2 list_all2_same)
  qed
qed

lemma dispatch_mails_acks:
  "B (ro_agent a) \<Longrightarrow> (\<And>m. m \<in> set ms \<Longrightarrow> ml_recipient m = ro_agent a \<and> ml_acked m = 0) \<Longrightarrow>
    list_all2 (may_ack env B) (tm_mail (ic_db c)) (tm_mail (ic_db (fold (dispatch_mail env a) ms c)))
    \<and> tm_roster (ic_db (fold (dispatch_mail env a) ms c)) = tm_roster (ic_db c)"
proof (induction ms arbitrary: c)
  case (Cons m ms)
  have 1: "list_all2 (may_ack env B) (tm_mail (ic_db c)) (tm_mail (ic_db (dispatch_mail env a m c)))
    \<and> tm_roster (ic_db (dispatch_mail env a m c)) = tm_roster (ic_db c)"
    using Cons.prems by (intro dispatch_mail_acks) auto
  have 2: "list_all2 (may_ack env B) (tm_mail (ic_db (dispatch_mail env a m c)))
      (tm_mail (ic_db (fold (dispatch_mail env a) ms (dispatch_mail env a m c))))
    \<and> tm_roster (ic_db (fold (dispatch_mail env a) ms (dispatch_mail env a m c)))
      = tm_roster (ic_db (dispatch_mail env a m c))"
    using Cons.prems by (intro Cons.IH) auto
  from 1 2 show ?case by (auto intro: may_ack_all_trans)
qed (simp add: may_ack_refl)

lemma inbox_mem: "m \<in> set (mail_inbox aid True lmt db) \<Longrightarrow> m \<in> set (tm_mail db) \<and> ml_recipient m = aid \<and> ml_acked m = 0"
  by (auto simp: mail_inbox_def sql_limit_def dest: in_set_takeD split: if_splits)

lemma dispatch_agents_acks:
  "(\<And>a. a \<in> set as \<Longrightarrow> ro_auto a \<Longrightarrow> ro_graph a \<noteq> [] \<Longrightarrow> B (ro_agent a)) \<Longrightarrow>
    list_all2 (may_ack env B) (tm_mail (ic_db c)) (tm_mail (ic_db (snd (fold (dispatch_agent env) as (n, c)))))
    \<and> tm_roster (ic_db (snd (fold (dispatch_agent env) as (n, c)))) = tm_roster (ic_db c)"
proof (induction "as" arbitrary: n c)
  case (Cons a as)
  obtain k c1 where d: "dispatch_agent env a (n, c) = (k, c1)" by fastforce
  have 1: "list_all2 (may_ack env B) (tm_mail (ic_db c)) (tm_mail (ic_db c1))
      \<and> tm_roster (ic_db c1) = tm_roster (ic_db c)"
  proof (cases "ro_auto a \<and> ro_graph a \<noteq> []")
    case True
    then have "c1 = fold (dispatch_mail env a) (mail_inbox (ro_agent a) True inbox_limit (ic_db c)) c"
      using d by (simp add: dispatch_agent_def Let_def)
    then show ?thesis
      using dispatch_mails_acks [of B a "mail_inbox (ro_agent a) True inbox_limit (ic_db c)" env c]
        Cons.prems True inbox_mem by fastforce
  next
    case False
    then show ?thesis using d by (auto simp: dispatch_agent_def may_ack_refl)
  qed
  have 2: "list_all2 (may_ack env B) (tm_mail (ic_db c1)) (tm_mail (ic_db (snd (fold (dispatch_agent env) as (k, c1)))))
    \<and> tm_roster (ic_db (snd (fold (dispatch_agent env) as (k, c1)))) = tm_roster (ic_db c1)"
    using Cons.prems by (intro Cons.IH) auto
  from 1 2 show ?case by (auto simp: d intro: may_ack_all_trans)
qed (simp add: may_ack_refl)

lemma post_reply_appends:
  "\<exists>rs. tm_mail (ic_db (post_reply env p c)) = tm_mail (ic_db c) @ rs \<and> (\<forall>r \<in> set rs. ml_kind r = ''reply'')"
  by (auto simp: post_reply_def mail_send_def Let_def split: option.split prod.split)

lemma post_replies_append:
  "\<exists>rs. tm_mail (ic_db (fold (post_reply env) ps c)) = tm_mail (ic_db c) @ rs \<and> (\<forall>r \<in> set rs. ml_kind r = ''reply'')"
proof (induction ps arbitrary: c)
  case (Cons p ps)
  obtain rs where "tm_mail (ic_db (post_reply env p c)) = tm_mail (ic_db c) @ rs"
      "\<forall>r \<in> set rs. ml_kind r = ''reply''"
    using post_reply_appends by blast
  moreover obtain rs' where "tm_mail (ic_db (fold (post_reply env) ps (post_reply env p c)))
        = tm_mail (ic_db (post_reply env p c)) @ rs'" "\<forall>r \<in> set rs'. ml_kind r = ''reply''"
    using Cons.IH by blast
  ultimately show ?case by (intro exI [of _ "rs @ rs'"]) auto
qed simp

text \<open>
  C40: A tick of the consumer loses no mail and only acknowledges what it has submitted: the old
  messages are all kept in place, one of them changes only by being acknowledged, and that
  only if its recipient is an autonomous agent bound to a graph and a run was submitted for
  it; the mail of everybody else is untouched. What is added are replies.\<close>

theorem acks_follow_submission:
  "\<exists>ms rs. tm_mail (ic_db (consumer_tick env c)) = ms @ rs
    \<and> length ms = length (tm_mail (ic_db c))
    \<and> (\<forall>i < length ms. ms ! i = tm_mail (ic_db c) ! i
         \<or> bound_agent (ic_db c) (ml_recipient (ms ! i)) \<and> submitted env (ms ! i)
            \<and> (\<exists>t. ms ! i = (tm_mail (ic_db c) ! i)\<lparr>ml_acked := t\<rparr>))
    \<and> (\<forall>r \<in> set rs. ml_kind r = ''reply'')"
proof -
  let ?B = "bound_agent (ic_db c)"
  obtain n c1 where d: "fold (dispatch_agent env) (roster_list [] (ic_db c)) (0, c) = (n, c1)" by fastforce
  have "list_all2 (may_ack env ?B) (tm_mail (ic_db c)) (tm_mail (ic_db (snd
      (fold (dispatch_agent env) (roster_list [] (ic_db c)) (0, c)))))"
    by (rule conjunct1 [OF dispatch_agents_acks]) (auto simp: bound_agent_def)
  then have ack: "list_all2 (may_ack env ?B) (tm_mail (ic_db c)) (tm_mail (ic_db c1))" using d by simp
  obtain rs where rs: "tm_mail (ic_db (consumer_tick env c)) = tm_mail (ic_db c1) @ rs"
      "\<forall>r \<in> set rs. ml_kind r = ''reply''"
    using post_replies_append [of env "ic_pending (c1\<lparr>ic_depth := n\<rparr>)" "c1\<lparr>ic_depth := n\<rparr>"] d
    by (auto simp: consumer_tick_def post_replies_def dispatch_new_def)
  show ?thesis
  proof (intro exI conjI)
    show "tm_mail (ic_db (consumer_tick env c)) = tm_mail (ic_db c1) @ rs" by (rule rs(1))
    show "length (tm_mail (ic_db c1)) = length (tm_mail (ic_db c))"
      using list_all2_lengthD [OF ack] by simp
    show "\<forall>i < length (tm_mail (ic_db c1)). tm_mail (ic_db c1) ! i = tm_mail (ic_db c) ! i
         \<or> ?B (ml_recipient (tm_mail (ic_db c1) ! i)) \<and> submitted env (tm_mail (ic_db c1) ! i)
            \<and> (\<exists>t. tm_mail (ic_db c1) ! i = (tm_mail (ic_db c) ! i)\<lparr>ml_acked := t\<rparr>)"
      using ack by (fastforce simp: list_all2_conv_all_nth may_ack_def)
    show "\<forall>r \<in> set rs. ml_kind r = ''reply''" by (rule rs(2))
  qed
qed


section \<open>Agents that answer each other\<close>

text \<open>The unread mail of the agents whose mail is dispatched.\<close>

definition live_mail :: "team_db \<Rightarrow> mail list" where
  "live_mail db = filter (\<lambda>m. ml_acked m = 0 \<and> bound_agent db (ml_recipient m)) (tm_mail db)"

lemma bound_agent_mail [simp]: "bound_agent (db\<lparr>tm_mail := ms\<rparr>) = bound_agent db"
  by (simp add: bound_agent_def roster_list_def fun_eq_iff)

lemma unread_of_bound:
  "bound_agent db aid \<Longrightarrow> filter (\<lambda>m. ml_recipient m = aid \<and> (True \<longrightarrow> ml_acked m = 0)) (tm_mail db)
    = filter (\<lambda>m. ml_recipient m = aid) (live_mail db)"
  unfolding live_mail_def filter_filter by (rule filter_cong) auto

lemma inbox_of_bound:
  "bound_agent db aid \<Longrightarrow> live_mail db = ms \<Longrightarrow> length ms \<le> 1 \<Longrightarrow>
    mail_inbox aid True inbox_limit db = filter (\<lambda>m. ml_recipient m = aid) ms"
  unfolding mail_inbox_def unread_of_bound
  by (cases ms) (auto simp: sql_limit_def inbox_limit_def)

lemma quiet_agents:
  assumes "\<And>a. a \<in> set as \<Longrightarrow> ro_auto a \<Longrightarrow> ro_graph a \<noteq> [] \<Longrightarrow> bound_agent (ic_db c) (ro_agent a)"
    and "length (live_mail (ic_db c)) \<le> 1"
    and "\<forall>a \<in> set as. \<forall>m \<in> set (live_mail (ic_db c)). ml_recipient m \<noteq> ro_agent a"
  shows "fold (dispatch_agent env) as (n, c) = (n, c)"
  using assms
proof (induction "as")
  case (Cons a as)
  have "dispatch_agent env a (n, c) = (n, c)"
  proof (cases "ro_auto a \<and> ro_graph a \<noteq> []")
    case True
    then have "mail_inbox (ro_agent a) True inbox_limit (ic_db c) = []"
      using Cons.prems by (auto simp: inbox_of_bound [OF _ refl] filter_empty_conv)
    then show ?thesis by (simp add: dispatch_agent_def Let_def)
  qed (auto simp: dispatch_agent_def)
  then show ?case using Cons by simp
qed simp

lemma ack_clears:
  assumes "live_mail db = [m]" "t \<noteq> 0"
  shows "live_mail (snd (mail_ack t (ml_recipient m) (ml_id m) db)) = []"
proof -
  have "x \<in> set (tm_mail db) \<Longrightarrow> ml_acked x = 0 \<Longrightarrow> bound_agent db (ml_recipient x) \<Longrightarrow> x = m" for x
  proof -
    assume "x \<in> set (tm_mail db)" "ml_acked x = 0" "bound_agent db (ml_recipient x)"
    then have "x \<in> set (live_mail db)" by (simp add: live_mail_def)
    then show "x = m" using assms(1) by simp
  qed
  then show ?thesis using assms(2)
    by (auto simp: live_mail_def mail_ack_def Let_def filter_empty_conv)
qed

text \<open>Every submission is accepted, every run completes, and the clock is not zero.\<close>

definition answers_all :: "'w inbox_env \<Rightarrow> bool" where
  "answers_all env \<longleftrightarrow> (\<forall>a m w. fst (ie_submit env a m w) \<noteq> None)
    \<and> (\<forall>rid w. \<exists>run. ie_run env rid w = Some (Some run)
         \<and> py_str (ie_lib env) (jget run ''status'' (JStr '''')) = ''completed'')
    \<and> (\<forall>w. ie_clock env w \<noteq> 0)"

lemma tick_answers:
  assumes E: "answers_all env"
    and R: "distinct (map ro_agent (roster_list [] (ic_db c)))" "[] \<notin> ro_agent ` set (roster_list [] (ic_db c))"
    and p: "ic_pending c = []"
    and l: "live_mail (ic_db c) = [m]" and s: "bound_agent (ic_db c) (ml_sender m)"
  shows "\<exists>m'. live_mail (ic_db (consumer_tick env c)) = [m'] \<and> ml_kind m' = ''reply''
    \<and> ml_sender m' = ml_recipient m \<and> ml_recipient m' = ml_sender m
    \<and> ic_pending (consumer_tick env c) = [] \<and> tm_roster (ic_db (consumer_tick env c)) = tm_roster (ic_db c)
    \<and> ic_processed (consumer_tick env c) = ic_processed c + 1"
proof -
  let ?R = "roster_list [] (ic_db c)"
  have "m \<in> set (live_mail (ic_db c))" using l by simp
  then have "bound_agent (ic_db c) (ml_recipient m)" by (simp add: live_mail_def)
  then obtain a where a: "a \<in> set ?R" "ro_agent a = ml_recipient m" "ro_auto a" "ro_graph a \<noteq> []"
    by (auto simp: bound_agent_def)
  then obtain xs ys where xy: "?R = xs @ a # ys" by (meson split_list)
  have oth: "\<forall>b \<in> set xs \<union> set ys. ml_recipient m \<noteq> ro_agent b" using R(1) xy a(2) by (force simp: image_iff)
  have bnd: "bound_agent (ic_db c) (ro_agent b)" if "b \<in> set ?R" "ro_auto b" "ro_graph b \<noteq> []" for b
    using that by (auto simp: bound_agent_def)
  have ne: "ml_sender m \<noteq> []" "ml_recipient m \<noteq> []"
    using s a R(2) by (force simp: bound_agent_def)+
  obtain rid w where sub: "ie_submit env a m (ic_world c) = (Some rid, w)"
    using E unfolding answers_all_def by (metis option.exhaust prod.collapse)
  define c1 where "c1 = dispatch_mail env a m c"
  have db1: "ic_db c1 = snd (mail_ack (ie_clock env w) (ml_recipient m) (ml_id m) (ic_db c))"
    and p1: "ic_pending c1 = [(rid, \<lparr>rp_agent = ml_recipient m, rp_sender = ml_sender m,
        rp_message = ml_id m, rp_team = ml_team m\<rparr>)]"
    and n1: "ic_processed c1 = ic_processed c + 1"
    using sub ne p a(2) by (simp_all add: c1_def dispatch_mail_def)
  have l1: "live_mail (ic_db c1) = []" unfolding db1 
    using E by (intro ack_clears [OF l]) (simp add: answers_all_def)
  have b1: "bound_agent (ic_db c1) = bound_agent (ic_db c)"
    unfolding db1 by (simp add: mail_ack_def Let_def)
  have r1: "tm_roster (ic_db c1) = tm_roster (ic_db c)" unfolding db1 by (simp add: mail_ack_def Let_def)
  have "fold (dispatch_agent env) xs (0, c) = (0, c)"
    by (rule quiet_agents) (use bnd oth l xy in \<open>force simp: image_iff\<close>)+
  moreover have "dispatch_agent env a (0, c) = (1, c1)"
    using a inbox_of_bound [OF bnd [OF a(1,3,4)] l] by (simp add: dispatch_agent_def Let_def c1_def)
  moreover have "fold (dispatch_agent env) ys (1, c1) = (1, c1)"
    by (rule quiet_agents) (use bnd l1 b1 xy in auto)
  ultimately have disp: "dispatch_new env c = c1\<lparr>ic_depth := 1\<rparr>"
    by (simp add: dispatch_new_def xy)
  obtain run where run: "ie_run env rid (ic_world c1) = Some (Some run)"
      "py_str (ie_lib env) (jget run ''status'' (JStr '''')) = ''completed''"
    using E unfolding answers_all_def by blast
  obtain mid v where uid: "ie_uid env (ic_world c1) = (mid, v)" by fastforce
  show ?thesis
    using run uid ne l1 s p1 n1 r1 b1
    by (simp add: consumer_tick_def disp post_replies_def post_reply_def run_statuses_def mail_send_def
        Let_def live_mail_def)
qed


text \<open>
  C38: Replies are mail like any other, so two autonomous agents answer each other for ever: once
  one message between them is unread, every tick submits one more run and posts one more
  reply, which is the unread message of the next tick. The environment is one in which
  every submission is accepted, the submitted run is found completed, and the
  clock does not read 0 (\<open>answers_all\<close>).\<close>

theorem replies_never_end:
  assumes "answers_all env"
    and "distinct (map ro_agent (roster_list '''' (ic_db c)))" "'''' \<notin> ro_agent ` set (roster_list '''' (ic_db c))"
    and "ic_pending c = []" "live_mail (ic_db c) = [m]" "bound_agent (ic_db c) (ml_sender m)"
  shows "ic_processed ((consumer_tick env ^^ n) c) = ic_processed c + n
    \<and> (\<exists>m'. live_mail (ic_db ((consumer_tick env ^^ n) c)) = [m'] \<and> (n = 0 \<or> ml_kind m' = ''reply''))"
proof -
  have bd: "bound_agent d = bound_agent d'" "roster_list '''' d = roster_list '''' d'"
    if "tm_roster d = tm_roster d'" for d d'
    using that by (simp_all add: bound_agent_def roster_list_def fun_eq_iff)
  have "ic_processed ((consumer_tick env ^^ n) c) = ic_processed c + n
    \<and> ic_pending ((consumer_tick env ^^ n) c) = []
    \<and> tm_roster (ic_db ((consumer_tick env ^^ n) c)) = tm_roster (ic_db c)
    \<and> (\<exists>m'. live_mail (ic_db ((consumer_tick env ^^ n) c)) = [m'] \<and> (n = 0 \<or> ml_kind m' = ''reply'')
        \<and> bound_agent (ic_db c) (ml_sender m'))"
  proof (induction n)
    case (Suc n)
    let ?c = "(consumer_tick env ^^ n) c"
    obtain m' where m': "live_mail (ic_db ?c) = [m']" "bound_agent (ic_db c) (ml_sender m')"
      using Suc by blast
    have r: "tm_roster (ic_db ?c) = tm_roster (ic_db c)" using Suc by blast
    have "m' \<in> set (live_mail (ic_db ?c))" using m' by simp
    then have rec: "bound_agent (ic_db c) (ml_recipient m')"
      unfolding live_mail_def bd(1) [OF r] by simp
    have "\<exists>m''. live_mail (ic_db (consumer_tick env ?c)) = [m''] \<and> ml_kind m'' = ''reply''
      \<and> ml_sender m'' = ml_recipient m' \<and> ml_recipient m'' = ml_sender m'
      \<and> ic_pending (consumer_tick env ?c) = [] \<and> tm_roster (ic_db (consumer_tick env ?c)) = tm_roster (ic_db ?c)
      \<and> ic_processed (consumer_tick env ?c) = ic_processed ?c + 1"
      using assms(2,3) Suc m' by (intro tick_answers assms(1)) (simp_all add: bd [OF r])
    then show ?case using Suc r rec by auto
  qed (use assms in simp)
  then show ?thesis by blast
qed

section \<open>Witnesses\<close>

definition demo_row :: "str \<Rightarrow> roster_row" where
  "demo_row aid = \<lparr>ro_agent = aid, ro_name = aid, ro_team = ''t'', ro_caps = '''', ro_status = ''idle'',
     ro_graph = ''g'', ro_auto = True, ro_updated = 0\<rparr>"

definition demo_mail :: mail where
  "demo_mail = \<lparr>ml_id = ''m'', ml_sender = ''a'', ml_recipient = ''b'', ml_team = ''t'', ml_kind = ''message'',
     ml_body = ''hello'', ml_created = 1, ml_acked = 0\<rparr>"

definition demo_consumer :: "unit consumer" where
  "demo_consumer = \<lparr>ic_db = \<lparr>tm_roster = [(''a'', demo_row ''a''), (''b'', demo_row ''b'')], tm_mail = [demo_mail]\<rparr>,
     ic_pending = [], ic_processed = 0, ic_replies = 0, ic_errors = 0, ic_depth = 0, ic_latency = 0,
     ic_agents = [], ic_world = ()\<rparr>"

definition demo_inbox_env :: "unit inbox_env" where
  "demo_inbox_env = \<lparr>ie_clock = (\<lambda>w. 2), ie_uid = (\<lambda>w. (''r'', w)), ie_submit = (\<lambda>a m w. (Some ''run'', w)),
     ie_run = (\<lambda>rid w. Some (Some [(''status'', JStr ''completed'')])), 
     ie_lib = \<lparr>pl_repr = (\<lambda>_. []), pl_float = (\<lambda>_. None), pl_loads = (\<lambda>_. None)\<rparr>\<rparr>"


lemma demo_roster: "roster_list '''' (ic_db demo_consumer) = [demo_row ''a'', demo_row ''b'']"
  by code_simp

lemma demo_team_roster: "roster_list ''t'' (ic_db demo_consumer) = [demo_row ''a'', demo_row ''b'']"
  by code_simp

lemma demo_bound: "bound_agent (ic_db demo_consumer) ''a''" "bound_agent (ic_db demo_consumer) ''b''"
  by (simp_all add: bound_agent_def demo_roster demo_row_def)

lemma demo_targets: "mail_targets ''c'' ''t'' (ic_db demo_consumer) = [''a'', ''b'']"
  by code_simp

theorem broadcast_reaches_team_witness:
  "\<exists>ms. mail_broadcast [(1, ''x''), (2, ''y'')] ''c'' ''t'' ''hi'' ''broadcast'' (ic_db demo_consumer)
      = (Inr ms, (ic_db demo_consumer)\<lparr>tm_mail := tm_mail (ic_db demo_consumer)
          @ map (\<lambda>m. m\<lparr>ml_body := take 20000 ''hi''\<rparr>) ms\<rparr>)
    \<and> map ml_recipient ms = [''a'', ''b'']"
proof -
  have "\<exists>ms. mail_broadcast [(1, ''x''), (2, ''y'')] ''c'' ''t'' ''hi'' ''broadcast'' (ic_db demo_consumer)
      = (Inr ms, (ic_db demo_consumer)\<lparr>tm_mail := tm_mail (ic_db demo_consumer)
          @ map (\<lambda>m. m\<lparr>ml_body := take 20000 ''hi''\<rparr>) ms\<rparr>)
    \<and> map ml_recipient ms = filter (\<lambda>a. a \<noteq> ''c'') (map ro_agent (roster_list ''t'' (ic_db demo_consumer)))
    \<and> (\<forall>m \<in> set ms. ml_sender m = ''c'' \<and> ml_acked m = 0)"
    by (rule broadcast_reaches_team) (simp_all add: demo_team_roster demo_targets demo_row_def)
  then show ?thesis by (auto simp: demo_team_roster demo_row_def)
qed

theorem acks_follow_submission_witness:
  "length (tm_mail (ic_db (consumer_tick demo_inbox_env demo_consumer))) \<ge> 1"
  using acks_follow_submission [of demo_inbox_env demo_consumer] by (auto simp: demo_consumer_def)

theorem replies_never_end_witness:
  "ic_processed ((consumer_tick demo_inbox_env ^^ 10) demo_consumer) = 10"
proof -
  have "ic_processed ((consumer_tick demo_inbox_env ^^ 10) demo_consumer) = ic_processed demo_consumer + 10
    \<and> (\<exists>m'. live_mail (ic_db ((consumer_tick demo_inbox_env ^^ 10) demo_consumer)) = [m']
        \<and> ((10::nat) = 0 \<or> ml_kind m' = ''reply''))"
  proof (rule replies_never_end [where m = demo_mail])
    show "answers_all demo_inbox_env"
      by (simp add: answers_all_def demo_inbox_env_def jget_def dict_get_def)
    show "live_mail (ic_db demo_consumer) = [demo_mail]"
      using demo_bound by (simp add: live_mail_def) (simp add: demo_consumer_def demo_mail_def)
    show "bound_agent (ic_db demo_consumer) (ml_sender demo_mail)"
      using demo_bound by (simp add: demo_mail_def)
    show "ic_pending demo_consumer = []" by (simp add: demo_consumer_def)
  qed (simp_all add: demo_roster demo_row_def)
  then show ?thesis by (simp add: demo_consumer_def)
qed

end
