(* ===== verification/Spec2Isabelle.thy ===== *)
theory Spec2Isabelle
  imports GraphProps LeaseQueue TaskBoard RateLimit TokenBudget SwarmProps FmpProps CronProps CronJobsProps Webhooks WorkflowDemo RunRegistryProps Undo GraphEditorProps EventTreeProps Confirm RuntimeDemo PlannerProps TaskExecutorProps OrchestratorProps MailboxProps
begin

text \<open>
  Verification of the agent runtime of Fusion Agent Studio: the Python package
  \<open>src/agent_runtime\<close>. The file and function names below are relative to that directory.

  1. The program. Users draw agent graphs (nodes: llm, tool, condition, loop, parallel and
  so on) in a visual editor, which stores, validates and lays out graph documents
  (\<open>graph_editor.py\<close>, \<open>undo_manager.py\<close>). A graph (\<open>graph.py\<close>) is executed by the runtime
  (\<open>runtime.py\<close> and its mixins), an asynchronous generator of events: it visits one node
  after the other, keeps its state in a context (\<open>context.py\<close>) with variables
  (\<open>variable_manager.py\<close>), decides conditions (\<open>_runtime_helpers.py\<close>), asks for approval of
  tools (\<open>_runtime_safety.py\<close>, \<open>confirmation_policy.py\<close>), runs sub-graphs and branches in
  nested runtimes, charges a token budget (\<open>token_budget.py\<close>) and saves checkpoints
  (\<open>_runtime_checkpoint.py\<close>). A daemon and a REST server start runs: directly, as managed runs
  with a replayable stream of events (\<open>run_registry.py\<close>, \<open>api_server.py\<close>), from a queue of
  tasks (\<open>task_store.py\<close>, \<open>task_executor.py\<close>), from cron expressions and webhooks
  (\<open>triggers.py\<close>), as members of a team
  (\<open>orchestrator.py\<close>), for a message in the mailbox of an agent (\<open>inbox_consumer.py\<close>), or as
  phases of a workflow (\<open>workflow_engine.py\<close>). Runs are recorded in an event tree that can be forked
  (\<open>event_tree.py\<close>). Agents exchange messages and hand work over (\<open>fmp_router.py\<close>,
  \<open>swarm_router.py\<close>) under leases (\<open>resource_lease.py\<close>) and rate limits (\<open>rate_limiter.py\<close>).

  2. The theories, and the code they model.

  \<^item> Base: Prelude (dictionaries, ASCII strings, errors, the locales of keyed stores), Json
    (documents), PyValues (\<open>str\<close>, \<open>int\<close>, comparison and the JSON writer of Python), Generators
    (asynchronous generators as traces).
  \<^item> Graphs: NodeConfig, Graph, GraphValidate, GraphSerial and GraphProps (\<open>graph.py\<close>);
    GraphSearch, GraphLayout, GraphLayoutOk, GraphEditor and GraphEditorProps
    (\<open>graph_editor.py\<close>); Undo (\<open>undo_manager.py\<close>).
  \<^item> Executions: Variables, AgentContext and AgentContextProps, Conditions and ConditionProps,
    Confirm, TokenBudget; RuntimeBase (state, services, checkpoints, approval), RuntimeNodes and
    RuntimeFlow (the node handlers), RuntimeLoop (the body of the main loop and the loop), Runtime
    (entry, event chain, nested runs, resuming). Properties: RuntimeInv and RuntimeWide (the
    interface of invariants: the locales \<open>approval_invariant\<close>, \<open>run_invariant\<close>, \<open>turn_invariant\<close>,
    \<open>rounds_invariant\<close> and \<open>wide_invariant\<close>, each on the one before), RuntimeTypes,
    RuntimeEnds, RuntimeBranch, RuntimeNesting, RuntimeGuard, RuntimeProps, and RuntimeDemo, which applies them.
  \<^item> Work: Tasks, TaskCache, TaskOps, TaskOpsOk, TaskProps and TaskBoard (\<open>task_store.py\<close>);
    TaskExecutor and TaskExecutorProps (\<open>task_executor.py\<close>, on the task store through the locale
    \<open>task_services\<close>); Planner and PlannerProps (\<open>planner.py\<close>);
    Leases, LeaseSafety and LeaseQueue (\<open>resource_lease.py\<close>); RateLimit; Cron, CronProps,
    CronJobs, CronJobsProps and Webhooks (\<open>triggers.py\<close>); Workflow, WorkflowRuns, PhaseProps, WorkflowProps and
    WorkflowDemo (\<open>workflow_engine.py\<close>).
  \<^item> Records of runs: RunRegistry and RunRegistryProps, EventTree and EventTreeProps.
  \<^item> Cooperation: FmpRouter and FmpProps, Swarm and SwarmProps; Orchestrator and
    OrchestratorProps (\<open>orchestrator.py\<close>, on the runtime and the swarm router); Mailbox and
    MailboxProps (\<open>durable_roster.py\<close>, \<open>inbox_consumer.py\<close>).

  A theory opens with the part of the code that it models. Names of definitions are those of the
  code where possible; a class is a record whose fields carry a short prefix, an enumeration a
  datatype, a dispatch on strings the same chain of comparisons. Memory and database of a class
  are separate fields when the code can let them diverge (leases, tasks, workflow runs, cron jobs,
  swarm), and a restart is the operation that rebuilds the one from the other.

  3. Conventions. A \<open>dict\<close> is an association list with distinct keys in insertion order, because
  several routines depend on that order; an SQL table is one too, keyed by its primary key. A
  \<open>float\<close> is a rational number (no rounding), an \<open>int\<close> an integer, a \<open>str\<close> a string of characters
  on which lower and strip act as on ASCII. Clock, identifiers, environment and gateways are
  arguments. An exception is a value of \<open>py_exn\<close> in a sum, and every early return is a branch.
  Operations are atomic: the code runs them under a lock, or without an \<open>await\<close> in between; where
  it does not (runs of workflows, readers of event streams), the model has one step per stretch
  between two suspension points and the properties hold for every interleaving. \<open>asyncio.gather\<close>
  is taken in the order of its arguments. An asynchronous generator is the list of the values it
  yields, each with the state at that point, and how it ends, so that a consumer that stops at an
  event sees the state of that event. Logging is left out.

  4. What the lemmas show. Graph: a clean validation means a well-formed graph, saving and loading,
  downstream graphs, the cycle test and the layout of the editor. Runs: what only a writing tool
  changes stays until a handler leaves plan mode, and the calls of tool nodes are admitted one
  by one, at every depth (the exception, which both statements name, is the screenshot that is
  taken after an action without asking the funnel); contexts stay well-formed; the iteration
  counter is bounded; a run that ends with iterations left ended at a node without a way on,
  after an event that says so; nested runs are bounded; sub-graphs are isolated; branches of a parallel node
  are valid graphs that stop before the merge node; the loop node counts; conditions agree with
  their reference semantics; checkpoints restore what they saved. Work: the task cache never
  disagrees with the table, a task is claimed once and in order, leases respect slots and queue
  order, rate limits are bounds on any window, cron search is exact, caps of jobs hold, phases of
  workflows compute what they promise, workflow runs stay consistent under every interleaving; the
  executor keeps the retry limit, records tasks it cannot dispatch and announces what it gave up;
  a plan step runs after its dependencies.
  Records: what a reader of a stream delivers and misses, forks copy exactly a path. Cooperation:
  routed agents are available, hand-offs are bounded, the patterns that run
  several agents are bounded and account for every agent, and the safety gateway reaches exactly
  some of them; a broadcast reaches a team, mail is acknowledged only after its run was submitted,
  and two autonomous agents never stop answering each other.

  5. Bounds and fuel. \<open>cron_search\<close> has the bound of the code (525600 steps); the loops of the
  workflow phases and the main loop of the runtime are functions whose termination is proved by
  the measure the code decreases; the depth-first search of the editor takes its depth bound from
  the number of nodes, which is proved enough (\<open>has_cycle_exact\<close>); \<open>evaluate_expr\<close> takes the recursion
  limit of Python (1000), and \<open>unspaced_or_never_returns\<close> shows an expression that exhausts every
  limit; \<open>execute\<close> takes the nesting depth of runs, and \<open>nesting_bounded\<close> gives a depth from which
  the result no longer depends on it. The orchestrator takes that depth as a field. The wait of the
  executor has 14401 checks, the number after which its deadline has passed if the clock advances
  by a second per check (\<open>wait_ends\<close>).

  6. Not modelled: the handlers of the llm, rag, planner, verify and acp nodes, which are model
  calls and prompts (they are arguments of the runtime, which may change the
  context, leave plan mode included, but not the counters of the main loop; properties that rest
  on more say so: \<open>handlers_keep\<close>, \<open>typed_services\<close>); the reading of a picture and the judgement
  of a post-action assertion (the capture itself, with its call of the screenshot tool, is
  modelled); the admission funnel and the guard service, which are other packages; HTTP,
  sockets, subprocesses and files; the memory and knowledge stores, which rest on SQLite
  extensions; catalogues of agents and templates; telemetry; the TypeScript front end. The daemon,
  the REST server and the RPC dispatchers translate requests into calls of the parts above; only
  managed runs are modelled from them.
\<close>

end
